(* ===== verification/Prelude.thy ===== *)
theory Prelude
  imports Main "HOL-Library.Sublist" "HOL-Library.List_Lexorder" "HOL-Library.Char_ord"
    "HOL-Library.Word"
begin

text \<open>
  Shared vocabulary of the development: the part of the C++ standard library that the
  modelled sources use on strings and numbers (\<open>std::string::find\<close>,
  \<open>std::to_string\<close>, \<open>std::stoi\<close>), and the generic lemmas on lists that several
  components need. A \<open>std::string\<close> is a \<open>string\<close>: a list of 8-bit characters.
\<close>

named_theorems unfolds \<open>definitions that component proofs unfold\<close>
named_theorems keeps \<open>facts that an operation keeps an invariant\<close>

section \<open>Substring search\<close>

text \<open>\<open>s.find(pat)\<close>: the first position at which \<open>pat\<close> starts, if there is one.\<close>

fun str_find :: "'a list \<Rightarrow> 'a list \<Rightarrow> nat option" where
  "str_find pat [] = (if pat = [] then Some 0 else None)"
| "str_find pat (c # cs) =
     (if prefix pat (c # cs) then Some 0 else map_option Suc (str_find pat cs))"

text \<open>\<open>s.find(pat, pos)\<close>.\<close>

definition find_from :: "'a list \<Rightarrow> 'a list \<Rightarrow> nat \<Rightarrow> nat option" where
  "find_from s pat pos =
     (if pos \<le> length s then map_option (\<lambda>i. pos + i) (str_find pat (drop pos s)) else None)"

definition contains_str :: "'a list \<Rightarrow> 'a list \<Rightarrow> bool" where
  "contains_str s pat = (str_find pat s \<noteq> None)"

lemma str_find_Some:
  "str_find pat s = Some i \<Longrightarrow>
   prefix pat (drop i s) \<and> i + length pat \<le> length s \<and> (\<forall>j<i. \<not> prefix pat (drop j s))"
proof (induction pat s arbitrary: i rule: str_find.induct)
  case (1 pat)
  then show ?case by (auto split: if_splits)
next
  case (2 pat c cs)
  show ?case
  proof (cases "prefix pat (c # cs)")
    case True
    with "2.prems" show ?thesis by (auto dest: prefix_length_le)
  next
    case False
    with "2.prems" obtain k where k: "str_find pat cs = Some k" "i = Suc k" by auto
    have IH: "prefix pat (drop k cs)" "k + length pat \<le> length cs"
      "\<forall>j<k. \<not> prefix pat (drop j cs)"
      using "2.IH" [OF False k(1)] by auto
    have "\<not> prefix pat (drop j (c # cs))" if "j < i" for j
      using that False IH(3) k(2) by (cases j) auto
    with IH k(2) show ?thesis by auto
  qed
qed

lemma str_find_None: "str_find pat s = None \<longleftrightarrow> (\<forall>j\<le>length s. \<not> prefix pat (drop j s))"
proof (induction pat s rule: str_find.induct)
  case (1 pat)
  then show ?case by auto
next
  case (2 pat c cs)
  show ?case
  proof (cases "prefix pat (c # cs)")
    case True
    then show ?thesis by (auto intro: exI [of _ 0])
  next
    case False
    have "(\<forall>j\<le>length (c # cs). \<not> prefix pat (drop j (c # cs))) \<longleftrightarrow>
      (\<forall>j\<le>length cs. \<not> prefix pat (drop j cs))"
    proof
      assume A: "\<forall>j\<le>length (c # cs). \<not> prefix pat (drop j (c # cs))"
      show "\<forall>j\<le>length cs. \<not> prefix pat (drop j cs)"
      proof (intro allI impI)
        fix j assume "j \<le> length cs"
        then show "\<not> prefix pat (drop j cs)" using A [rule_format, of "Suc j"] by simp
      qed
    next
      assume B: "\<forall>j\<le>length cs. \<not> prefix pat (drop j cs)"
      show "\<forall>j\<le>length (c # cs). \<not> prefix pat (drop j (c # cs))"
      proof (intro allI impI)
        fix j assume "j \<le> length (c # cs)"
        then show "\<not> prefix pat (drop j (c # cs))" using B False by (cases j) auto
      qed
    qed
    with False "2.IH" show ?thesis by simp
  qed
qed

lemma str_find_split:
  assumes "str_find pat s = Some i"
  shows "s = take i s @ pat @ drop (i + length pat) s"
proof -
  from str_find_Some [OF assms] obtain rest where "drop i s = pat @ rest"
    by (auto elim: prefixE)
  then have "drop (i + length pat) s = rest"
    by (metis add.commute append_eq_conv_conj drop_drop)
  with \<open>drop i s = pat @ rest\<close> show ?thesis
    by (metis append_take_drop_id)
qed

lemma contains_str_iff: "contains_str s pat \<longleftrightarrow> (\<exists>xs ys. s = xs @ pat @ ys)"
proof
  assume "contains_str s pat"
  then obtain i where "str_find pat s = Some i" by (auto simp: contains_str_def)
  then show "\<exists>xs ys. s = xs @ pat @ ys" by (blast dest: str_find_split)
next
  assume "\<exists>xs ys. s = xs @ pat @ ys"
  then obtain xs ys where s: "s = xs @ pat @ ys" by blast
  then have "prefix pat (drop (length xs) s)" and "length xs \<le> length s" by simp_all
  then show "contains_str s pat" unfolding contains_str_def str_find_None by blast
qed

lemma contains_str_empty [simp]: "contains_str s []"
  unfolding contains_str_iff by (rule exI [of _ "[]"]) simp

text \<open>The first occurrence is found where it is, whatever follows it.\<close>

lemma str_find_first:
  assumes "\<forall>j<length xs. \<not> prefix pat (drop j (xs @ pat @ ys))"
  shows "str_find pat (xs @ pat @ ys) = Some (length xs)"
proof -
  have "contains_str (xs @ pat @ ys) pat" by (auto simp: contains_str_iff)
  then obtain i where i: "str_find pat (xs @ pat @ ys) = Some i"
    by (auto simp: contains_str_def)
  note f = str_find_Some [OF i]
  have "prefix pat (drop (length xs) (xs @ pat @ ys))" by simp
  with f have "\<not> length xs < i" by blast
  moreover from f assms have "\<not> i < length xs" by blast
  ultimately show ?thesis using i by simp
qed

lemma str_find_char:
  "c \<notin> set xs \<Longrightarrow> str_find [c] (xs @ c # ys) = Some (length xs)"
  by (induction xs) auto

lemma str_find_char_None: "str_find [c] xs = None \<longleftrightarrow> c \<notin> set xs"
  by (induction xs) auto

text \<open>The end of a header line.\<close>

definition crlf :: string where
  "crlf = [CHR 0x0D, CHR 0x0A]"

section \<open>Decimal numbers\<close>

text \<open>\<open>std::to_string\<close> of an unsigned value, and of an \<open>int\<close>.\<close>

definition digit :: "nat \<Rightarrow> char" where
  "digit d = char_of (48 + d)"

fun nat_to_string :: "nat \<Rightarrow> string" where
  "nat_to_string n =
     (if n < 10 then [digit n] else nat_to_string (n div 10) @ [digit (n mod 10)])"

declare nat_to_string.simps [simp del]

definition int_to_string :: "int \<Rightarrow> string" where
  "int_to_string i =
     (if i < 0 then CHR ''-'' # nat_to_string (nat (- i)) else nat_to_string (nat i))"

definition is_digit :: "char \<Rightarrow> bool" where
  "is_digit c = (48 \<le> (of_char c :: nat) \<and> (of_char c :: nat) \<le> 57)"

definition digit_val :: "char \<Rightarrow> nat" where
  "digit_val c = of_char c - 48"

definition dec_val :: "string \<Rightarrow> nat" where
  "dec_val s = foldl (\<lambda>a c. 10 * a + digit_val c) 0 s"

lemma of_char_digit: "d < 10 \<Longrightarrow> (of_char (digit d) :: nat) = 48 + d"
  by (simp add: digit_def)

lemma is_digit_digit [simp]: "d < 10 \<Longrightarrow> is_digit (digit d)"
  by (simp add: is_digit_def of_char_digit)

lemma digit_val_digit [simp]: "d < 10 \<Longrightarrow> digit_val (digit d) = d"
  by (simp add: digit_val_def of_char_digit)

lemma nat_to_string_digits: "\<forall>c\<in>set (nat_to_string n). is_digit c"
proof (induction n rule: nat_to_string.induct)
  case (1 n)
  then show ?case by (subst nat_to_string.simps) auto
qed

lemma nat_to_string_nonempty [simp]: "nat_to_string n \<noteq> []"
  by (subst nat_to_string.simps) simp

lemma dec_val_snoc: "dec_val (s @ [c]) = 10 * dec_val s + digit_val c"
  by (simp add: dec_val_def)

lemma dec_val_nat_to_string [simp]: "dec_val (nat_to_string n) = n"
proof (induction n rule: nat_to_string.induct)
  case (1 n)
  show ?case
  proof (cases "n < 10")
    case True
    then show ?thesis by (subst nat_to_string.simps) (simp add: dec_val_def)
  next
    case False
    with "1.IH" have "dec_val (nat_to_string (n div 10) @ [digit (n mod 10)]) =
      10 * (n div 10) + n mod 10"
      by (simp add: dec_val_snoc)
    with False show ?thesis by (subst nat_to_string.simps) simp
  qed
qed

lemma nat_to_string_inj [simp]: "nat_to_string m = nat_to_string n \<longleftrightarrow> m = n"
  by (metis dec_val_nat_to_string)

text \<open>
  \<open>std::stoi\<close>: leading white space, an optional sign, then the longest run of digits;
  \<open>std::invalid_argument\<close> without a digit, \<open>std::out_of_range\<close> outside 32 bits.
\<close>

datatype stoi_error = InvalidArgument | OutOfRange

definition is_space :: "char \<Rightarrow> bool" where
  "is_space c = (c = CHR '' '' \<or> (9 \<le> (of_char c :: nat) \<and> (of_char c :: nat) \<le> 13))"

definition stoi :: "string \<Rightarrow> stoi_error + int" where
  "stoi s =
     (let t = dropWhile is_space s;
          neg = (t \<noteq> [] \<and> hd t = CHR ''-'');
          u = (if t \<noteq> [] \<and> (hd t = CHR ''-'' \<or> hd t = CHR ''+'') then tl t else t);
          ds = takeWhile is_digit u;
          v = (if neg then - int (dec_val ds) else int (dec_val ds))
      in if ds = [] then Inl InvalidArgument
         else if v < - (2 ^ 31) \<or> 2 ^ 31 \<le> v then Inl OutOfRange
         else Inr v)"

lemma is_digit_not_space: "is_digit c \<Longrightarrow> \<not> is_space c"
  by (auto simp: is_digit_def is_space_def)

lemma is_digit_not_sign: "is_digit c \<Longrightarrow> c \<noteq> CHR ''-'' \<and> c \<noteq> CHR ''+''"
  by (auto simp: is_digit_def)

lemma takeWhile_nat_to_string:
  "takeWhile is_digit (nat_to_string n @ rest) =
     nat_to_string n @ takeWhile is_digit rest"
  using nat_to_string_digits by (simp add: takeWhile_append2)

lemma hd_nat_to_string_append: "is_digit (hd (nat_to_string n @ rest))"
  using nat_to_string_digits [of n] by (cases "nat_to_string n") auto

lemma dropWhile_space_nat_to_string:
  "dropWhile is_space (nat_to_string n @ rest) = nat_to_string n @ rest"
  using hd_nat_to_string_append [of n rest]
  by (cases "nat_to_string n @ rest") (auto dest: is_digit_not_space)

lemma stoi_nat_to_string:
  assumes "n < 2 ^ 31" and "rest = [] \<or> \<not> is_digit (hd rest)"
  shows "stoi (nat_to_string n @ rest) = Inr (int n)"
proof -
  from assms(2) have tw: "takeWhile is_digit (nat_to_string n @ rest) = nat_to_string n"
    using takeWhile_nat_to_string [of n rest] by (cases rest) simp_all
  have hd: "hd (nat_to_string n @ rest) \<noteq> CHR ''-''" "hd (nat_to_string n @ rest) \<noteq> CHR ''+''"
    using is_digit_not_sign [OF hd_nat_to_string_append] by auto
  from assms(1) have "int n < 2 ^ 31" by simp
  with hd show ?thesis
    by (simp add: stoi_def Let_def dropWhile_space_nat_to_string tw)
qed

section \<open>Lists\<close>

lemma foldl_invariant:
  "(\<And>s e. P s \<Longrightarrow> P (f s e)) \<Longrightarrow> P s \<Longrightarrow> P (foldl f s es)"
  by (induction es arbitrary: s) auto

lemma foldl_append_cong: "foldl f s (xs @ ys) = foldl f (foldl f s xs) ys"
  by simp

lemma filter_distinct_map: "distinct (map f xs) \<Longrightarrow> distinct (map f (filter P xs))"
  by (induction xs) auto

text \<open>The part before the first separator and the part after it are determined.\<close>

lemma append_sep_eq:
  assumes "c \<notin> set k" and "c \<notin> set n"
  shows "k @ c # x = n @ c # r \<longleftrightarrow> k = n \<and> x = r"
  using assms
proof (induction k arbitrary: n)
  case Nil
  then show ?case by (cases n) auto
next
  case (Cons a k)
  then show ?case by (cases n) auto
qed

lemma append_eq_cases:
  assumes "a @ b = x @ q"
  obtains (whole) r where "a = x @ r" "r @ b = q"
    | (part) r where "r \<noteq> []" "x = a @ r" "b = r @ q"
proof -
  from assms obtain us where "a = x @ us \<and> us @ b = q \<or> a @ us = x \<and> b = us @ q"
    by (auto simp: append_eq_append_conv2)
  then show thesis using whole [of us] part [of us] whole [of "[]"] by (cases us) auto
qed

lemma map_of_filter_key: "map_of (filter (\<lambda>p. fst p \<noteq> k) m) = (map_of m)(k := None)"
  by (induction m) auto

section \<open>Words\<close>

unbundle bit_operations_syntax

text \<open>Or-ing two values that share no bit is adding them.\<close>

lemma unat_push_or_word:
  fixes x y :: "'a::len word"
  assumes y: "unat y < 2 ^ k" and x: "2 ^ k * unat x + 2 ^ k \<le> 2 ^ LENGTH('a)"
  shows "unat (push_bit k x OR y) = 2 ^ k * unat x + unat y"
proof -
  have yt: "take_bit k y = y"
  proof (rule word_unat_eq_iff [THEN iffD2])
    have "unat (take_bit k y) = take_bit k (unat y)" by (rule unsigned_take_bit_eq)
    then show "unat (take_bit k y) = unat y" using y by (simp add: take_bit_nat_eq_self)
  qed
  have "push_bit k x AND take_bit k y = 0"
    by (rule bit_word_eqI) (auto simp: bit_and_iff bit_push_bit_iff bit_take_bit_iff)
  then have "push_bit k x OR y = push_bit k x + y"
    using disjunctive_add_eq_or [of "push_bit k x" y] by (simp add: yt)
  moreover have "unat (push_bit k x) = 2 ^ k * unat x"
  proof -
    have "2 ^ k * unat x < 2 ^ LENGTH('a)"
    proof -
      have "(0 :: nat) < 2 ^ k" by simp
      with x show ?thesis by linarith
    qed
    moreover have "unat (push_bit k x) = take_bit LENGTH('a) (push_bit k (unat x))"
      by (rule unsigned_push_bit_eq)
    ultimately show ?thesis by (simp add: take_bit_eq_mod push_bit_eq_mult mult.commute)
  qed
  ultimately show ?thesis using x y by (simp add: unat_word_ariths)
qed

end
