(* ===== verification/Interfaces.thy ===== *)
theory Interfaces
  imports Prelude
begin

text \<open>
  The interfaces between the components, as locales. Each is interpreted, in the theory of
  the component that provides it, on that component's own model:
  \<^item> \<open>codec\<close>: an encoder and a decoder that undoes it (base64, frames, enum names);
  \<^item> \<open>registry\<close> and \<open>erasable_registry\<close>: a store of named entries
    (\<open>std::map\<close>, the tool registry, the command table, the agent definitions);
  \<^item> \<open>machine\<close>: a component whose operations keep an invariant, and its reachable
    states;
  \<^item> \<open>simulation\<close>: a component that implements another step by step.
\<close>

section \<open>Encoders and decoders\<close>

locale codec =
  fixes enc :: "'a \<Rightarrow> 'b" and dec :: "'b \<Rightarrow> 'a option" and ok :: "'a \<Rightarrow> bool"
  assumes dec_enc: "ok x \<Longrightarrow> dec (enc x) = Some x"
begin

lemma enc_inj: "ok x \<Longrightarrow> ok y \<Longrightarrow> enc x = enc y \<Longrightarrow> x = y"
  by (metis dec_enc option.inject)

lemma enc_inj_on: "inj_on enc {x. ok x}"
  by (auto intro: inj_onI enc_inj)

lemma dec_total_on_enc: "ok x \<Longrightarrow> dec (enc x) \<noteq> None"
  by (simp add: dec_enc)

end

section \<open>Stores of named entries\<close>

locale registry =
  fixes empty :: "'s" and put :: "'k \<Rightarrow> 'v \<Rightarrow> 's \<Rightarrow> 's" and get :: "'s \<Rightarrow> 'k \<Rightarrow> 'v option"
  assumes get_empty: "get empty k = None"
    and get_put: "get (put k v s) k' = (if k' = k then Some v else get s k')"
begin

lemma get_put_same: "get (put k v s) k = Some v"
  by (simp add: get_put)

lemma get_put_other: "k' \<noteq> k \<Longrightarrow> get (put k v s) k' = get s k'"
  by (simp add: get_put)

lemma put_twice: "get (put k w (put k v s)) = get (put k w s)"
  by (rule ext) (simp add: get_put)

lemma put_commute:
  "k \<noteq> l \<Longrightarrow> get (put k v (put l w s)) = get (put l w (put k v s))"
  by (rule ext) (simp add: get_put)

text \<open>Registering a list of entries: the last entry of a name is the one found.\<close>

lemma get_foldl_put:
  "get (foldl (\<lambda>t p. put (fst p) (snd p) t) s ps) k =
     (case map_of (rev ps) k of Some v \<Rightarrow> Some v | None \<Rightarrow> get s k)"
  by (induction ps arbitrary: s rule: rev_induct) (auto simp: get_put split: option.splits)

lemma get_foldl_put_empty:
  "get (foldl (\<lambda>t p. put (fst p) (snd p) t) empty ps) = map_of (rev ps)"
  by (rule ext) (simp add: get_foldl_put get_empty split: option.splits)

text \<open>With distinct names every entry is found, in whatever order they were registered.\<close>

lemma get_foldl_put_distinct:
  assumes "distinct (map fst ps)" and "(k, v) \<in> set ps"
  shows "get (foldl (\<lambda>t p. put (fst p) (snd p) t) s ps) k = Some v"
proof -
  from assms have "map_of (rev ps) k = Some v"
    by (simp add: rev_map [symmetric])
  then show ?thesis by (simp add: get_foldl_put)
qed

lemma get_foldl_put_notin:
  assumes "k \<notin> fst ` set ps"
  shows "get (foldl (\<lambda>t p. put (fst p) (snd p) t) s ps) k = get s k"
proof -
  from assms have "map_of (rev ps) k = None" by (simp add: map_of_eq_None_iff)
  then show ?thesis by (simp add: get_foldl_put)
qed

end

locale erasable_registry = registry +
  fixes erase :: "'k \<Rightarrow> 's \<Rightarrow> 's"
  assumes get_erase: "get (erase k s) k' = (if k' = k then None else get s k')"
begin

lemma get_erase_same: "get (erase k s) k = None"
  by (simp add: get_erase)

lemma erase_put: "get (erase k (put k v s)) = get (erase k s)"
  by (rule ext) (simp add: get_erase get_put)

lemma put_erase: "get (put k v (erase k s)) = get (put k v s)"
  by (rule ext) (simp add: get_erase get_put)

lemma get_foldl_erase:
  "get (foldl (\<lambda>t k. erase k t) s ks) k = (if k \<in> set ks then None else get s k)"
  by (induction ks arbitrary: s) (auto simp: get_erase)

end

section \<open>Components with an invariant\<close>

locale machine =
  fixes init :: "'s" and step :: "'s \<Rightarrow> 'e \<Rightarrow> 's" and inv :: "'s \<Rightarrow> bool"
  assumes inv_init: "inv init"
    and inv_step: "inv s \<Longrightarrow> inv (step s e)"
begin

lemma inv_run: "inv s \<Longrightarrow> inv (foldl step s es)"
  by (rule foldl_invariant) (rule inv_step)

lemma inv_reachable: "inv (foldl step init es)"
  by (rule inv_run [OF inv_init])

end

text \<open>
  A step-wise refinement: under an invariant of the implementation, each implementation
  step is a step of the specification on the abstraction.
\<close>

locale simulation = machine init step inv
  for init :: "'s" and step :: "'s \<Rightarrow> 'e \<Rightarrow> 's" and inv :: "'s \<Rightarrow> bool" +
  fixes abs :: "'s \<Rightarrow> 'a" and init_a :: "'a" and step_a :: "'a \<Rightarrow> 'e \<Rightarrow> 'a"
  assumes abs_init: "abs init = init_a"
    and abs_step: "inv s \<Longrightarrow> abs (step s e) = step_a (abs s) e"
begin

lemma abs_run: "inv s \<Longrightarrow> abs (foldl step s es) = foldl step_a (abs s) es"
  by (induction es arbitrary: s) (auto simp: abs_step inv_step)

lemma abs_reachable: "abs (foldl step init es) = foldl step_a init_a es"
  by (simp add: abs_run [OF inv_init] abs_init)

end

section \<open>std::map with string keys\<close>

text \<open>
  A \<open>std::map<std::string, V>\<close> keeps its keys sorted and distinct and iterates in that
  order: an association list sorted by key. \<open>std::string\<close> compares lexicographically by
  unsigned character, which is the order of \<open>string\<close> here.
\<close>

type_synonym 'v omap = "(string \<times> 'v) list"

fun om_put :: "string \<Rightarrow> 'v \<Rightarrow> 'v omap \<Rightarrow> 'v omap" where
  "om_put k v [] = [(k, v)]"
| "om_put k v ((a, b) # m) =
     (if k < a then (k, v) # (a, b) # m
      else if k = a then (k, v) # m
      else (a, b) # om_put k v m)"

definition om_get :: "'v omap \<Rightarrow> string \<Rightarrow> 'v option" where
  "om_get m k = map_of m k"

definition om_del :: "string \<Rightarrow> 'v omap \<Rightarrow> 'v omap" where
  "om_del k m = filter (\<lambda>p. fst p \<noteq> k) m"

definition om_ok :: "'v omap \<Rightarrow> bool" where
  "om_ok m = sorted_wrt (<) (map fst m)"

definition om_keys :: "'v omap \<Rightarrow> string list" where
  "om_keys m = map fst m"

definition om_vals :: "'v omap \<Rightarrow> 'v list" where
  "om_vals m = map snd m"

lemma om_get_Nil [simp]: "om_get [] k = None"
  by (simp add: om_get_def)

lemma om_get_put [simp]: "om_get (om_put k v m) k' = (if k' = k then Some v else om_get m k')"
  by (induction k v m rule: om_put.induct) (auto simp: om_get_def)

lemma om_get_del [simp]: "om_get (om_del k m) k' = (if k' = k then None else om_get m k')"
  by (simp add: om_get_def om_del_def map_of_filter_key)

interpretation om: erasable_registry "[]" om_put om_get om_del
  by unfold_locales simp_all

lemma set_om_put: "fst ` set (om_put k v m) = insert k (fst ` set m)"
  by (induction k v m rule: om_put.induct) auto

lemma om_ok_Nil [simp]: "om_ok []"
  by (simp add: om_ok_def)

lemma om_ok_put [simp, keeps]: "om_ok m \<Longrightarrow> om_ok (om_put k v m)"
proof (induction k v m rule: om_put.induct)
  case (1 k v)
  then show ?case by (simp add: om_ok_def)
next
  case (2 k v a b m)
  then show ?case using set_om_put [of k v m]
    by (auto simp: om_ok_def)
qed

lemma om_ok_del [simp, keeps]: "om_ok m \<Longrightarrow> om_ok (om_del k m)"
proof -
  assume "om_ok m"
  moreover have "map fst (om_del k m) = filter (\<lambda>a. a \<noteq> k) (map fst m)"
    by (induction m) (auto simp: om_del_def)
  ultimately show ?thesis by (simp add: om_ok_def sorted_wrt_filter)
qed

lemma om_ok_distinct: "om_ok m \<Longrightarrow> distinct (map fst m)"
  by (simp add: om_ok_def strict_sorted_iff)

lemma om_get_in: "om_ok m \<Longrightarrow> om_get m k = Some v \<longleftrightarrow> (k, v) \<in> set m"
  by (auto simp: om_get_def dest: om_ok_distinct map_of_SomeD)

lemma om_get_None: "om_get m k = None \<longleftrightarrow> k \<notin> set (om_keys m)"
  by (auto simp: om_get_def om_keys_def map_of_eq_None_iff)

text \<open>Two maps with the same entries are the same list: iteration order is determined.\<close>

lemma om_ext:
  assumes "om_ok m" and "om_ok n" and "om_get m = om_get n"
  shows "m = n"
proof -
  have "set m = set n"
  proof (rule set_eqI)
    fix p :: "string \<times> 'a"
    show "p \<in> set m \<longleftrightarrow> p \<in> set n"
      using om_get_in [OF assms(1), of "fst p" "snd p"] om_get_in [OF assms(2), of "fst p" "snd p"]
        assms(3)
      by simp
  qed
  then have "set (map fst m) = set (map fst n)" by simp
  with assms(1,2) have keys: "map fst m = map fst n"
    by (metis om_ok_def strict_sorted_equal)
  have "map snd m = map snd n"
  proof (rule nth_equalityI)
    show "length (map snd m) = length (map snd n)" using keys by (metis length_map)
    fix i assume i: "i < length (map snd m)"
    then have i': "i < length m" "i < length n" using keys by (auto dest: map_eq_imp_length_eq)
    have "om_get m (fst (m ! i)) = Some (snd (m ! i))"
      "om_get n (fst (n ! i)) = Some (snd (n ! i))"
      using i' om_get_in [OF assms(1)] om_get_in [OF assms(2)] by simp_all
    moreover have "fst (m ! i) = fst (n ! i)" using keys i' by (metis nth_map)
    ultimately show "map snd m ! i = map snd n ! i" using assms(3) i' by simp
  qed
  with keys show ?thesis by (metis zip_map_fst_snd)
qed

end
