(* ===== verification/String_Utils.thy ===== *)
theory String_Utils
  imports Interfaces
begin

unbundle bit_operations_syntax

text \<open>
  \<open>src/util/string_utils.h\<close>: trimming, splitting and joining, case conversion, prefix and
  suffix tests, \<open>replace_all\<close>, \<open>json_escape\<close> and \<open>generate_uuid\<close>. Splitting on a string
  delimiter is a loop over positions that need not end (an empty delimiter), so it is a
  partial function; \<open>split_parts\<close> is its reference on the remaining text.
\<close>

section \<open>Trimming\<close>

definition is_trim_ws :: "char \<Rightarrow> bool" where
  "is_trim_ws c = (c = CHR '' '' \<or> c = CHR 0x09 \<or> c = CHR 0x0A \<or> c = CHR 0x0D)"

fun find_first_not_ws :: "string \<Rightarrow> nat option" where
  "find_first_not_ws [] = None"
| "find_first_not_ws (c # cs) =
     (if is_trim_ws c then map_option Suc (find_first_not_ws cs) else Some 0)"

definition find_last_not_ws :: "string \<Rightarrow> nat option" where
  "find_last_not_ws s = map_option (\<lambda>i. length s - 1 - i) (find_first_not_ws (rev s))"

definition trim :: "string \<Rightarrow> string" where
  "trim s =
     (case find_first_not_ws s of
        None \<Rightarrow> []
      | Some start \<Rightarrow>
          (case find_last_not_ws s of
             None \<Rightarrow> []
           | Some last_pos \<Rightarrow> take (last_pos - start + 1) (drop start s)))"

definition ltrim :: "string \<Rightarrow> string" where
  "ltrim s = (case find_first_not_ws s of None \<Rightarrow> [] | Some start \<Rightarrow> drop start s)"

definition rtrim :: "string \<Rightarrow> string" where
  "rtrim s = (case find_last_not_ws s of None \<Rightarrow> [] | Some last_pos \<Rightarrow> take (last_pos + 1) s)"

lemma find_first_not_ws_dropWhile:
  "find_first_not_ws s =
     (if dropWhile is_trim_ws s = [] then None else Some (length (takeWhile is_trim_ws s)))"
  by (induction s) auto

lemma find_first_not_ws_None: "find_first_not_ws s = None \<longleftrightarrow> (\<forall>c\<in>set s. is_trim_ws c)"
  by (induction s) auto

lemma ltrim_dropWhile: "ltrim s = dropWhile is_trim_ws s"
  by (simp add: ltrim_def find_first_not_ws_dropWhile dropWhile_eq_drop)

lemma rtrim_dropWhile: "rtrim s = rev (dropWhile is_trim_ws (rev s))"
proof (cases "dropWhile is_trim_ws (rev s) = []")
  case True
  then show ?thesis by (simp add: rtrim_def find_last_not_ws_def find_first_not_ws_dropWhile)
next
  case False
  let ?k = "length (takeWhile is_trim_ws (rev s))"
  have "?k < length (rev s)"
    using False by (metis dropWhile_eq_Nil_conv length_rev length_takeWhile_le nth_length_takeWhile
        order_le_imp_less_or_eq takeWhile_eq_all_conv takeWhile_eq_take take_all_iff order_refl)
  then have "length s - 1 - ?k + 1 = length s - ?k" by simp
  then show ?thesis using False
    by (simp add: rtrim_def find_last_not_ws_def find_first_not_ws_dropWhile dropWhile_eq_drop
        rev_drop)
qed

text \<open>\<open>trim\<close> is both: what remains after the leading and the trailing white space.\<close>

lemma trim_eq: "trim s = rtrim (ltrim s)"
proof (cases "find_first_not_ws s")
  case None
  then show ?thesis by (simp add: trim_def ltrim_def rtrim_def find_last_not_ws_def)
next
  case (Some a)
  then have ne: "dropWhile is_trim_ws s \<noteq> []" and a: "a = length (takeWhile is_trim_ws s)"
    by (auto simp: find_first_not_ws_dropWhile split: if_splits)
  have split: "s = takeWhile is_trim_ws s @ dropWhile is_trim_ws s" by simp
  let ?t = "dropWhile is_trim_ws s"
  have "\<not> is_trim_ws (hd ?t)" using ne by (rule hd_dropWhile)
  then have nn: "dropWhile is_trim_ws (rev ?t) \<noteq> []"
    using ne by (metis dropWhile_eq_Nil_conv hd_in_set set_rev)
  let ?k = "length (takeWhile is_trim_ws (rev ?t))"
  have revs: "rev s = rev ?t @ rev (takeWhile is_trim_ws s)"
    by (metis rev_append split)
  obtain c where c: "c \<in> set (rev ?t)" "\<not> is_trim_ws c"
    using nn by (metis dropWhile_eq_Nil_conv)
  have "takeWhile is_trim_ws (rev s) = takeWhile is_trim_ws (rev ?t)"
    unfolding revs using c by (rule takeWhile_append1)
  moreover have "dropWhile is_trim_ws (rev s) \<noteq> []"
    using c by (auto simp: revs dropWhile_append1 dropWhile_eq_Nil_conv simp del: set_rev)
  ultimately have k: "find_first_not_ws (rev s) = Some ?k"
    unfolding find_first_not_ws_dropWhile by simp
  have kt: "?k < length ?t"
    using nn by (metis dropWhile_eq_drop drop_all length_rev linorder_not_less)
  have ls: "length s = a + length ?t" using split a by (metis length_append)
  have "trim s = take (length s - 1 - ?k - a + 1) ?t"
    by (simp add: trim_def Some find_last_not_ws_def k a dropWhile_eq_drop [symmetric])
  also have "length s - 1 - ?k - a + 1 = length ?t - ?k" using ls kt by simp
  finally show ?thesis
    by (simp add: ltrim_dropWhile rtrim_dropWhile dropWhile_eq_drop [of _ "rev _"] rev_drop)
qed

section \<open>Splitting and joining\<close>

text \<open>\<open>split(s, char)\<close>: \<open>std::getline\<close> with a delimiter until the stream is exhausted.\<close>

function split_char :: "string \<Rightarrow> char \<Rightarrow> string list" where
  "split_char s d =
     (if s = [] then []
      else takeWhile (\<lambda>c. c \<noteq> d) s # split_char (drop 1 (dropWhile (\<lambda>c. c \<noteq> d) s)) d)"
  by pat_completeness auto
termination
proof (relation "measure (\<lambda>(s, d). length s)")
  fix s :: string and d
  assume "s \<noteq> []"
  moreover have "length (dropWhile (\<lambda>c. c \<noteq> d) s) \<le> length s" by (rule length_dropWhile_le)
  ultimately have "length (dropWhile (\<lambda>c. c \<noteq> d) s) - 1 < length s"
    by (cases s) auto
  then show "((drop 1 (dropWhile (\<lambda>c. c \<noteq> d) s), d), s, d) \<in> measure (\<lambda>(s, d). length s)"
    by simp
qed simp

declare split_char.simps [simp del]

text \<open>\<open>split(s, std::string)\<close>: the loop over \<open>s.find(delim, start)\<close>.\<close>

partial_function (option) split_from :: "string \<Rightarrow> string \<Rightarrow> nat \<Rightarrow> string list option" where
  "split_from s delim start =
     (case find_from s delim start of
        None \<Rightarrow> Some [drop start s]
      | Some pos \<Rightarrow>
          Option.bind (split_from s delim (pos + length delim))
            (\<lambda>parts. Some (take (pos - start) (drop start s) # parts)))"

definition split_str :: "string \<Rightarrow> string \<Rightarrow> string list option" where
  "split_str s delim = split_from s delim 0"

fun join :: "string list \<Rightarrow> string \<Rightarrow> string" where
  "join [] delim = []"
| "join [p] delim = p"
| "join (p # q # ps) delim = p @ delim @ join (q # ps) delim"

text \<open>Reference: the parts of the remaining text.\<close>

function split_parts :: "string \<Rightarrow> string \<Rightarrow> string list" where
  "split_parts delim t =
     (case str_find delim t of
        None \<Rightarrow> [t]
      | Some i \<Rightarrow>
          if delim = [] then [t] else take i t # split_parts delim (drop (i + length delim) t))"
  by pat_completeness auto
termination
proof (relation "measure (\<lambda>(d, t). length t)")
  fix delim t :: string and i
  assume "str_find delim t = Some i" and "delim \<noteq> []"
  with str_find_Some [of delim t i]
  have "i + length delim \<le> length t" and "0 < length delim" by auto
  then have "length t - (i + length delim) < length t" by arith
  then show "((delim, drop (i + length delim) t), delim, t) \<in> measure (\<lambda>(d, t). length t)"
    by simp
qed simp

declare split_parts.simps [simp del]

lemma split_parts_nonempty [simp]: "split_parts delim t \<noteq> []"
  by (subst split_parts.simps) (auto split: option.splits)

lemma split_parts_None: "str_find delim t = None \<Longrightarrow> split_parts delim t = [t]"
  by (subst split_parts.simps) simp

lemma split_parts_Some:
  "str_find delim t = Some i \<Longrightarrow> delim \<noteq> [] \<Longrightarrow>
   split_parts delim t = take i t # split_parts delim (drop (i + length delim) t)"
  by (subst split_parts.simps) simp

lemma find_from_le: "start \<le> length s \<Longrightarrow>
    find_from s pat start = map_option (\<lambda>i. start + i) (str_find pat (drop start s))"
  by (simp add: find_from_def)

lemma split_from_parts:
  assumes "delim \<noteq> []"
  shows "start \<le> length s \<Longrightarrow> split_from s delim start = Some (split_parts delim (drop start s))"
proof (induction "length s - start" arbitrary: start rule: less_induct)
  case less
  show ?case
  proof (cases "str_find delim (drop start s)")
    case None
    with less.prems show ?thesis
      by (simp add: split_from.simps find_from_le split_parts_None)
  next
    case (Some i)
    from str_find_Some [OF Some] less.prems
    have b: "start + i + length delim \<le> length s" by auto
    moreover from assms have "0 < length delim" by simp
    ultimately have "length s - (start + i + length delim) < length s - start" by arith
    from less.hyps [OF this b]
    have "split_from s delim (start + i + length delim) =
        Some (split_parts delim (drop (start + i + length delim) s))" .
    moreover have "drop (start + i + length delim) s = drop (i + length delim) (drop start s)"
      by (simp add: add.commute add.left_commute)
    ultimately show ?thesis
      using Some assms less.prems
      by (simp add: split_from.simps [of s delim start] find_from_le split_parts_Some)
  qed
qed

lemma split_str_parts: "delim \<noteq> [] \<Longrightarrow> split_str s delim = Some (split_parts delim s)"
  by (simp add: split_str_def split_from_parts)

text \<open>With an empty delimiter the loop never advances.\<close>

lemma str_find_empty [simp]: "str_find [] s = Some 0"
  by (cases s) simp_all

lemma split_from_empty_delim: "start \<le> length s \<Longrightarrow> split_from s [] start = None"
proof (rule ccontr)
  assume le: "start \<le> length s" and "split_from s [] start \<noteq> None"
  then obtain r where r: "split_from s [] start = Some r" by blast
  have "d = [] \<longrightarrow> \<not> b \<le> length a" if "split_from a d b = Some q" for a d b q
  proof (rule split_from.raw_induct [where P = "\<lambda>a d b q. d = [] \<longrightarrow> \<not> b \<le> length a", OF _ that])
    fix f :: "string \<Rightarrow> string \<Rightarrow> nat \<Rightarrow> string list option" and a d b q
    assume IH: "\<And>a d b q. f a d b = Some q \<Longrightarrow> d = [] \<longrightarrow> \<not> b \<le> length a"
      and eq: "(case find_from a d b of None \<Rightarrow> Some [drop b a]
        | Some pos \<Rightarrow> Option.bind (f a d (pos + length d))
            (\<lambda>parts. Some (take (pos - b) (drop b a) # parts))) = Some q"
    show "d = [] \<longrightarrow> \<not> b \<le> length a"
    proof (intro impI notI)
      assume "d = []" and "b \<le> length a"
      with eq have "\<exists>q'. f a d b = Some q'"
        by (auto simp: find_from_le bind_eq_Some_conv)
      then obtain q' where "f a d b = Some q'" by blast
      with IH [OF this] \<open>d = []\<close> \<open>b \<le> length a\<close> show False by simp
    qed
  qed
  from this [OF r] le show False by simp
qed

lemma join_Cons: "ps \<noteq> [] \<Longrightarrow> join (p # ps) delim = p @ delim @ join ps delim"
  by (cases ps) auto

lemma join_split_parts: "join (split_parts delim t) delim = t"
proof (induction delim t rule: split_parts.induct)
  case (1 delim t)
  show ?case
  proof (cases "str_find delim t")
    case None
    then show ?thesis by (simp add: split_parts_None)
  next
    case (Some i)
    show ?thesis
    proof (cases "delim = []")
      case True
      with Some show ?thesis by (subst split_parts.simps) simp
    next
      case False
      have IH: "join (split_parts delim (drop (i + length delim) t)) delim =
          drop (i + length delim) t"
        by (rule "1.IH" [OF Some False])
      have "join (split_parts delim t) delim = take i t @ delim @ drop (i + length delim) t"
        using Some False by (simp add: split_parts_Some join_Cons IH)
      also have "\<dots> = t" using str_find_split [OF Some] by simp
      finally show ?thesis .
    qed
  qed
qed

lemma str_find_take:
  assumes "str_find pat t = Some i" and "pat \<noteq> []"
  shows "str_find pat (take i t) = None"
  unfolding str_find_None
proof (intro allI impI notI)
  fix j assume j: "j \<le> length (take i t)" and p: "prefix pat (drop j (take i t))"
  have "prefix (drop j (take i t)) (drop j t)"
    by (metis drop_take take_is_prefix)
  with p have pt: "prefix pat (drop j t)" by (metis prefix_order.trans)
  from p assms(2) have "drop j (take i t) \<noteq> []" by auto
  then have "j < i" by simp
  with pt str_find_Some [OF assms(1)] show False by blast
qed

lemma split_parts_no_delim:
  "delim \<noteq> [] \<Longrightarrow> p \<in> set (split_parts delim t) \<Longrightarrow> \<not> contains_str p delim"
proof (induction delim t rule: split_parts.induct)
  case (1 delim t)
  show ?case
  proof (cases "str_find delim t")
    case None
    with "1.prems" show ?thesis by (simp add: split_parts_None contains_str_def)
  next
    case (Some i)
    with "1.prems"
    have "p = take i t \<or> p \<in> set (split_parts delim (drop (i + length delim) t))"
      by (simp add: split_parts_Some)
    with "1.IH" [OF Some] "1.prems"(1) str_find_take [OF Some] show ?thesis
      by (auto simp: contains_str_def)
  qed
qed

section \<open>Case, prefixes, suffixes\<close>

text \<open>\<open>std::tolower\<close> and \<open>std::toupper\<close> in the "C" locale.\<close>

definition char_lower :: "char \<Rightarrow> char" where
  "char_lower c =
     (let n = of_char c :: nat in if 65 \<le> n \<and> n \<le> 90 then char_of (n + 32) else c)"

definition char_upper :: "char \<Rightarrow> char" where
  "char_upper c =
     (let n = of_char c :: nat in if 97 \<le> n \<and> n \<le> 122 then char_of (n - 32) else c)"

definition to_lower :: "string \<Rightarrow> string" where
  "to_lower s = map char_lower s"

definition to_upper :: "string \<Rightarrow> string" where
  "to_upper s = map char_upper s"

definition starts_with :: "string \<Rightarrow> string \<Rightarrow> bool" where
  "starts_with s pre = (length pre \<le> length s \<and> take (length pre) s = pre)"

definition ends_with :: "string \<Rightarrow> string \<Rightarrow> bool" where
  "ends_with s suf =
     (length suf \<le> length s \<and> drop (length s - length suf) s = suf)"

lemma starts_with_prefix: "starts_with s pre \<longleftrightarrow> prefix pre s"
  by (metis append_eq_conv_conj prefix_def prefix_length_le starts_with_def)

lemma ends_with_suffix: "ends_with s suf \<longleftrightarrow> suffix suf s"
proof
  assume "ends_with s suf"
  then show "suffix suf s"
    by (metis append_take_drop_id ends_with_def suffix_def)
next
  assume "suffix suf s"
  then show "ends_with s suf" by (auto simp: ends_with_def suffix_def)
qed

section \<open>replace_all\<close>

text \<open>The loop replaces in place and continues after the replacement.\<close>

function replace_from :: "string \<Rightarrow> string \<Rightarrow> string \<Rightarrow> nat \<Rightarrow> string" where
  "replace_from s from_s to_s pos =
     (if from_s = [] then s
      else case find_from s from_s pos of
             None \<Rightarrow> s
           | Some p \<Rightarrow>
               replace_from (take p s @ to_s @ drop (p + length from_s) s) from_s to_s
                 (p + length to_s))"
  by pat_completeness auto
termination
proof (relation "measure (\<lambda>(s, f, t, pos). length s - pos)")
  fix s from_s to_s :: string and pos p
  assume ne: "from_s \<noteq> []" and f: "find_from s from_s pos = Some p"
  then obtain i where i: "pos \<le> length s" "str_find from_s (drop pos s) = Some i" "p = pos + i"
    by (auto simp: find_from_def split: if_splits)
  with str_find_Some [OF i(2)] have "p + length from_s \<le> length s" by auto
  moreover from ne have "0 < length from_s" by simp
  ultimately have "length s - (p + length from_s) < length s - pos" using i by arith
  then show "((take p s @ to_s @ drop (p + length from_s) s, from_s, to_s, p + length to_s),
      s, from_s, to_s, pos) \<in> measure (\<lambda>(s, f, t, pos). length s - pos)"
    using \<open>p + length from_s \<le> length s\<close> by (simp add: add.commute)
qed simp

declare replace_from.simps [simp del]

definition replace_all :: "string \<Rightarrow> string \<Rightarrow> string \<Rightarrow> string" where
  "replace_all s from_s to_s = (if from_s = [] then s else replace_from s from_s to_s 0)"

lemma replace_from_split:
  assumes "from_s \<noteq> []"
  shows "replace_from (pre @ t) from_s to_s (length pre) = pre @ join (split_parts from_s t) to_s"
proof (induction "length t" arbitrary: pre t rule: less_induct)
  case less
  show ?case
  proof (cases "str_find from_s t")
    case None
    then have "find_from (pre @ t) from_s (length pre) = None" by (simp add: find_from_def)
    with None assms show ?thesis
      by (simp add: replace_from.simps [of "pre @ t"] split_parts_None)
  next
    case (Some i)
    let ?rest = "drop (i + length from_s) t"
    have f: "find_from (pre @ t) from_s (length pre) = Some (length pre + i)"
      using Some by (simp add: find_from_def)
    have b: "i + length from_s \<le> length t" using str_find_Some [OF Some] by simp
    moreover have "0 < length from_s" using assms by simp
    ultimately have "length t - (i + length from_s) < length t" by arith
    then have sm: "length ?rest < length t" by simp
    have "replace_from (pre @ t) from_s to_s (length pre) =
        replace_from ((pre @ take i t @ to_s) @ ?rest) from_s to_s (length (pre @ take i t @ to_s))"
      using assms b f by (simp add: replace_from.simps [of "pre @ t"] add.assoc)
    also have "\<dots> = (pre @ take i t @ to_s) @ join (split_parts from_s ?rest) to_s"
      by (rule less.hyps [OF sm])
    also have "\<dots> = pre @ join (split_parts from_s t) to_s"
      using Some assms by (simp add: split_parts_Some join_Cons)
    finally show ?thesis .
  qed
qed

section \<open>json_escape\<close>

fun escape_char :: "char \<Rightarrow> string" where
  "escape_char c =
     (if c = CHR 0x22 then [CHR 0x5C, CHR 0x22]
      else if c = CHR 0x5C then [CHR 0x5C, CHR 0x5C]
      else if c = CHR 0x0A then [CHR 0x5C, CHR ''n'']
      else if c = CHR 0x0D then [CHR 0x5C, CHR ''r'']
      else if c = CHR 0x09 then [CHR 0x5C, CHR ''t'']
      else [c])"

definition json_escape :: "string \<Rightarrow> string" where
  "json_escape s = concat (map escape_char s)"

text \<open>The reader of such escapes, as the specification of what they denote.\<close>

fun json_unescape :: "string \<Rightarrow> string option" where
  "json_unescape [] = Some []"
| "json_unescape [c] = (if c = CHR 0x5C \<or> c = CHR 0x22 then None else Some [c])"
| "json_unescape (c # d # s) =
     (if c = CHR 0x22 then None
      else if c = CHR 0x5C then
        (let put = \<lambda>x. map_option (\<lambda>r. x # r) (json_unescape s)
         in if d = CHR 0x22 \<or> d = CHR 0x5C then put d
            else if d = CHR ''n'' then put (CHR 0x0A)
            else if d = CHR ''r'' then put (CHR 0x0D)
            else if d = CHR ''t'' then put (CHR 0x09)
            else None)
      else map_option (\<lambda>r. c # r) (json_unescape (d # s)))"

lemma json_unescape_plain:
  "c \<noteq> CHR 0x5C \<Longrightarrow> c \<noteq> CHR 0x22 \<Longrightarrow>
   json_unescape (c # s) = map_option (\<lambda>r. c # r) (json_unescape s)"
  by (cases s) auto

lemma json_unescape_escape: "json_unescape (json_escape s) = Some s"
proof (induction s)
  case Nil
  show ?case by (simp add: json_escape_def)
next
  case (Cons c s)
  have "json_escape (c # s) = escape_char c @ json_escape s" by (simp add: json_escape_def)
  with Cons.IH show ?case by (auto simp: json_unescape_plain Let_def)
qed

interpretation json_string: codec json_escape json_unescape "\<lambda>_. True"
  by unfold_locales (rule json_unescape_escape)

section \<open>Words\<close>

text \<open>
  \<open>stream >> word\<close> until it fails: the longest pieces of a text without white space.
\<close>

fun words_from :: "string \<Rightarrow> string \<Rightarrow> string list" where
  "words_from w [] = (if w = [] then [] else [w])"
| "words_from w (c # cs) =
     (if is_space c then (if w = [] then [] else [w]) @ words_from [] cs else words_from (w @ [c]) cs)"

definition words_of :: "string \<Rightarrow> string list" where
  "words_of s = words_from [] s"

definition word :: "string \<Rightarrow> bool" where
  "word w = (w \<noteq> [] \<and> (\<forall>c \<in> set w. \<not> is_space c))"

lemma words_from_words: "\<forall>c \<in> set w. \<not> is_space c \<Longrightarrow> list_all word (words_from w s)"
  by (induction w s rule: words_from.induct) (auto simp: word_def)

lemma words_of_words: "list_all word (words_of s)"
  by (simp add: words_of_def words_from_words)

lemma words_from_plain: "\<forall>c \<in> set s. \<not> is_space c \<Longrightarrow> words_from w s = (if w @ s = [] then [] else [w @ s])"
  by (induction s arbitrary: w) auto

lemma words_from_space: "is_space c \<Longrightarrow> words_from w (s @ c # t) = words_from w s @ words_from [] t"
  by (induction w s rule: words_from.induct) auto

lemma words_of_word: "word w \<Longrightarrow> words_of w = [w]"
  by (simp add: words_of_def word_def words_from_plain)

lemma words_of_snoc: "is_space c \<Longrightarrow> word w \<Longrightarrow> words_of (s @ c # w) = words_of s @ [w]"
  using words_of_word [of w] by (simp add: words_of_def words_from_space)

section \<open>generate_uuid\<close>

text \<open>
  The four 32-bit draws of the generator are arguments. \<open>std::hex\<close> prints lower-case
  digits; \<open>std::setw\<close> with fill \<open>'0'\<close> pads on the left and never truncates.
\<close>

definition hex_digit :: "nat \<Rightarrow> char" where
  "hex_digit d = (if d < 10 then char_of (48 + d) else char_of (87 + d))"

fun nat_to_hex :: "nat \<Rightarrow> string" where
  "nat_to_hex n =
     (if n < 16 then [hex_digit n] else nat_to_hex (n div 16) @ [hex_digit (n mod 16)])"

declare nat_to_hex.simps [simp del]

definition setw :: "nat \<Rightarrow> string \<Rightarrow> string" where
  "setw w s = replicate (w - length s) (CHR ''0'') @ s"

definition hexw :: "nat \<Rightarrow> 32 word \<Rightarrow> string" where
  "hexw w x = setw w (nat_to_hex (unat x))"

definition generate_uuid :: "32 word \<Rightarrow> 32 word \<Rightarrow> 32 word \<Rightarrow> 32 word \<Rightarrow> string" where
  "generate_uuid a b c0 d0 =
     (let c = (c0 AND 0x0fffffff) OR 0x40000000;
          d = (d0 AND 0x3fffffff) OR 0x80000000
      in hexw 8 a @ ''-'' @ hexw 4 (drop_bit 16 b) @ ''-'' @ hexw 4 (c AND 0xffff) @ ''-'' @
         hexw 4 (drop_bit 16 d) @ ''-'' @
         hexw 12 (push_bit 16 (d AND 0xffff) OR (a AND 0xffff)))"

lemma length_nat_to_hex: "n < 16 ^ Suc k \<Longrightarrow> length (nat_to_hex n) \<le> Suc k"
proof (induction k arbitrary: n)
  case 0
  then show ?case by (subst nat_to_hex.simps) simp
next
  case (Suc k)
  show ?case
  proof (cases "n < 16")
    case True
    then show ?thesis by (subst nat_to_hex.simps) simp
  next
    case False
    have "n div 16 < 16 ^ Suc k" using Suc.prems by (simp add: less_mult_imp_div_less)
    from Suc.IH [OF this] False show ?thesis by (subst nat_to_hex.simps) simp
  qed
qed

lemma length_hexw: "unat x < 16 ^ Suc k \<Longrightarrow> Suc k \<le> w \<Longrightarrow> length (hexw w x) = w"
  using length_nat_to_hex [of "unat x" k] by (simp add: hexw_def setw_def)

text \<open>The digits of a masked word, read at a position of the text.\<close>

lemma nat_to_hex_4:
  assumes "4096 \<le> n" and "n < 65536"
  shows "nat_to_hex n =
    [hex_digit (n div 4096), hex_digit (n div 256 mod 16), hex_digit (n div 16 mod 16),
     hex_digit (n mod 16)]"
proof -
  have 1: "nat_to_hex n = nat_to_hex (n div 16) @ [hex_digit (n mod 16)]"
    using assms by (subst nat_to_hex.simps) simp
  have 2: "nat_to_hex (n div 16) = nat_to_hex (n div 256) @ [hex_digit (n div 16 mod 16)]"
    using assms by (subst nat_to_hex.simps) (simp add: div_mult2_eq [symmetric])
  have 3: "nat_to_hex (n div 256) = nat_to_hex (n div 4096) @ [hex_digit (n div 256 mod 16)]"
    using assms by (subst nat_to_hex.simps) (simp add: div_mult2_eq [symmetric])
  have 4: "nat_to_hex (n div 4096) = [hex_digit (n div 4096)]"
    using assms by (subst nat_to_hex.simps) simp
  show ?thesis using 1 2 3 4 by simp
qed

lemma unat_and_mask16: "unat (x AND 0xffff :: 32 word) = unat x mod 65536"
proof -
  have "x AND 0xffff = take_bit 16 x" by (simp add: take_bit_eq_mask mask_numeral)
  moreover have "unat (take_bit 16 x) = take_bit 16 (unat x)" by (rule unsigned_take_bit_eq)
  ultimately show ?thesis by (simp add: take_bit_eq_mod [of 16 "unat x"])
qed

lemma unat_drop16: "unat (drop_bit 16 x :: 32 word) = unat x div 65536"
proof -
  have "unat (drop_bit 16 x) = drop_bit 16 (unat x)" by (rule unat_drop_bit_eq)
  also have "\<dots> = unat x div 2 ^ 16" by (rule drop_bit_eq_div)
  finally show ?thesis by simp
qed

lemma hex_digit_variant: "q \<in> {8, 9, 10, 11} \<Longrightarrow> hex_digit q \<in> set ''89ab''"
proof -
  have "hex_digit 8 = CHR ''8''" "hex_digit 9 = CHR ''9''" "hex_digit 10 = CHR ''a''"
    "hex_digit 11 = CHR ''b''"
    by code_simp+
  then show "q \<in> {8, 9, 10, 11} \<Longrightarrow> hex_digit q \<in> set ''89ab''" by auto
qed

text \<open>The fourth group starts with the variant digit: 8, 9, a or b.\<close>

lemma variant_bounds:
  fixes d0 :: "32 word"
  defines "d \<equiv> (d0 AND 0x3fffffff) OR 0x80000000"
  shows "32768 \<le> unat (drop_bit 16 d) \<and> unat (drop_bit 16 d) < 49152"
proof -
  let ?m = "d0 AND 0x3fffffff"
  have "?m AND 0x80000000 = d0 AND (0x3fffffff AND 0x80000000)" by (rule and.assoc)
  then have "?m AND 0x80000000 = 0" by simp
  from disjunctive_add_eq_or [OF this] have d: "d = ?m + 0x80000000" by (simp add: d_def)
  have "?m = take_bit 30 d0" by (simp add: take_bit_eq_mask mask_numeral)
  moreover have "unat (take_bit 30 d0) = take_bit 30 (unat d0)" by (rule unsigned_take_bit_eq)
  ultimately have lt: "unat ?m < 2 ^ 30" by (metis take_bit_nat_less_exp)
  then have "unat d = unat ?m + 2147483648" by (simp add: d unat_word_ariths)
  with lt have "2147483648 \<le> unat d" "unat d < 3221225472" by simp_all
  then show ?thesis unfolding unat_drop16 by (simp add: div_le_mono less_mult_imp_div_less)
qed

lemma hexw_4: "unat x < 65536 \<Longrightarrow> length (hexw 4 x) = 4"
  using length_hexw [of x 3 4] by simp

lemma hexw_8: "length (hexw 8 x) = 8"
  using length_hexw [of x 7 8] unsigned_less [of x] by simp

lemma hexw_12: "\<exists>t. hexw 12 x = ''0000'' @ t \<and> length t = 8"
proof -
  have "length (nat_to_hex (unat x)) \<le> 8"
    using length_nat_to_hex [of "unat x" 7] unsigned_less [of x] by simp
  then have "12 - length (nat_to_hex (unat x)) = 4 + (8 - length (nat_to_hex (unat x)))" by simp
  then have "hexw 12 x = replicate 4 (CHR ''0'') @ hexw 8 x"
    by (simp only: hexw_def setw_def replicate_add append_assoc)
  then show ?thesis using hexw_8 [of x] by (simp add: numeral_eq_Suc)
qed

section \<open>Properties\<close>

text \<open>
  C32: \<open>split(s, delim)\<close> returns exactly when the delimiter is not empty, and then its parts
  joined with the delimiter are the input again and no part contains the delimiter.
\<close>

theorem split_str_correct:
  "(split_str s delim = None) = (delim = []) \<and>
   (\<forall>parts. split_str s delim = Some parts \<longrightarrow>
      join parts delim = s \<and> parts \<noteq> [] \<and> (\<forall>p\<in>set parts. \<not> contains_str p delim))"
proof (cases "delim = []")
  case True
  then show ?thesis by (simp add: split_str_def split_from_empty_delim)
next
  case False
  with split_parts_no_delim [OF False] show ?thesis
    by (simp add: split_str_parts join_split_parts)
qed

theorem split_str_correct_witness:
  "split_str ''a, b, c'' '', '' = Some [''a'', ''b'', ''c''] \<and>
   join [''a'', ''b'', ''c''] '', '' = ''a, b, c''"
proof -
  have "split_str ''a, b, c'' '', '' = Some [''a'', ''b'', ''c'']"
    by (simp add: split_str_def split_from.simps find_from_def)
  with split_str_correct [of "''a, b, c''" "'', ''"] show ?thesis by simp
qed

text \<open>
  \<open>replace_all\<close> terminates and replaces exactly the occurrences that \<open>split\<close> finds: it is
  the input split at \<open>from\<close> and joined with \<open>to\<close> (replacements are never searched again).
\<close>

theorem replace_all_split_join:
  "from_s \<noteq> [] \<Longrightarrow> \<exists>parts. split_str s from_s = Some parts \<and> replace_all s from_s to_s = join parts to_s"
  using replace_from_split [of from_s "[]" s to_s]
  by (simp add: replace_all_def split_str_parts)

theorem replace_all_split_join_witness:
  "replace_all ''aXbX'' ''X'' ''XX'' = ''aXXbXX''"
proof -
  have "\<exists>parts. split_str ''aXbX'' ''X'' = Some parts \<and>
      replace_all ''aXbX'' ''X'' ''XX'' = join parts ''XX''"
    by (rule replace_all_split_join) simp
  then show ?thesis by (simp add: split_str_def split_from.simps find_from_def)
qed

text \<open>
  \<open>trim\<close> removes white space only, all of it at both ends, and nothing else.
\<close>

theorem trim_correct:
  "\<exists>l r. s = l @ trim s @ r \<and> list_all is_trim_ws l \<and> list_all is_trim_ws r \<and>
     (trim s = [] \<or> \<not> is_trim_ws (hd (trim s)) \<and> \<not> is_trim_ws (last (trim s)))"
proof -
  let ?t = "dropWhile is_trim_ws s"
  let ?u = "dropWhile is_trim_ws (rev ?t)"
  have tr: "trim s = rev ?u" by (simp add: trim_eq ltrim_dropWhile rtrim_dropWhile)
  have t: "?t = trim s @ rev (takeWhile is_trim_ws (rev ?t))"
    unfolding tr by (metis rev_append rev_rev_ident takeWhile_dropWhile_id)
  have ends: "trim s = [] \<or> \<not> is_trim_ws (hd (trim s)) \<and> \<not> is_trim_ws (last (trim s))"
  proof (cases "trim s = []")
    case False
    have "\<not> is_trim_ws (hd ?u)" using False tr by (simp add: hd_dropWhile)
    then have l: "\<not> is_trim_ws (last (trim s))" using False tr by (simp add: last_rev)
    have "?t \<noteq> []" using False t by (metis append_is_Nil_conv)
    then have "\<not> is_trim_ws (hd ?t)" by (rule hd_dropWhile)
    with False t have "\<not> is_trim_ws (hd (trim s))" by (metis hd_append2)
    with l show ?thesis by simp
  qed simp
  have "s = takeWhile is_trim_ws s @ trim s @ rev (takeWhile is_trim_ws (rev ?t))"
    using t by (metis takeWhile_dropWhile_id)
  moreover have "list_all is_trim_ws (takeWhile is_trim_ws s)"
    and "list_all is_trim_ws (rev (takeWhile is_trim_ws (rev ?t)))"
    by (auto simp: list_all_iff dest: set_takeWhileD)
  ultimately show ?thesis using ends by blast
qed

text \<open>
  Every generated identifier has the 8-4-4-4-12 shape and a variant digit 8, 9, a or b;
  but the version bits that the code sets are never printed: the digit that should be 4 can be
  any digit, and the last group always starts with four zeros.
\<close>

theorem generate_uuid_shape:
  "length (generate_uuid a b c d) = 36 \<and>
   generate_uuid a b c d ! 8 = CHR ''-'' \<and> generate_uuid a b c d ! 13 = CHR ''-'' \<and>
   generate_uuid a b c d ! 18 = CHR ''-'' \<and> generate_uuid a b c d ! 23 = CHR ''-'' \<and>
   generate_uuid a b c d ! 19 \<in> set ''89ab'' \<and>
   take 4 (drop 24 (generate_uuid a b c d)) = ''0000'' \<and>
   (\<exists>c'. generate_uuid a b c' d ! 14 = CHR ''0'')"
proof -
  let ?B = "\<lambda>b. hexw 4 (drop_bit 16 (b :: 32 word))"
  let ?C = "\<lambda>c0. hexw 4 (((c0 AND 0x0fffffff) OR 0x40000000) AND 0xffff :: 32 word)"
  let ?v = "drop_bit 16 ((d AND 0x3fffffff) OR 0x80000000) :: 32 word"
  let ?E = "hexw 12 (push_bit 16 (((d AND 0x3fffffff) OR 0x80000000) AND 0xffff) OR (a AND 0xffff))"
  have lA: "length (hexw 8 a) = 8" by (rule hexw_8)
  have "unat (drop_bit 16 b) < 65536" for b :: "32 word"
    using unsigned_less [of b, where 'a = nat] unfolding unat_drop16 by (simp add: less_mult_imp_div_less)
  then have lB: "length (?B b) = 4" for b :: "32 word" by (rule hexw_4)
  have lC: "length (?C c0) = 4" for c0 by (rule hexw_4) (simp add: unat_and_mask16)
  note vb = variant_bounds [of d]
  have v: "hexw 4 ?v = [hex_digit (unat ?v div 4096), hex_digit (unat ?v div 256 mod 16),
      hex_digit (unat ?v div 16 mod 16), hex_digit (unat ?v mod 16)]"
    using vb nat_to_hex_4 [of "unat ?v"] by (simp add: hexw_def setw_def)
  have "unat ?v div 4096 \<in> {8, 9, 10, 11}"
  proof -
    have "8 \<le> unat ?v div 4096" using div_le_mono [of 32768 "unat ?v" 4096] vb by simp
    moreover have "unat ?v div 4096 < 12" using vb by (simp add: less_mult_imp_div_less)
    ultimately show ?thesis by auto
  qed
  then have vd: "hex_digit (unat ?v div 4096) \<in> set ''89ab''"
    by (rule hex_digit_variant)
  obtain t where E: "?E = ''0000'' @ t" "length t = 8" using hexw_12 by blast
  have u: "generate_uuid a b c0 d =
      hexw 8 a @ ''-'' @ ?B b @ ''-'' @ ?C c0 @ ''-'' @ hexw 4 ?v @ ''-'' @ ''0000'' @ t" for c0
    using E by (simp add: generate_uuid_def Let_def)
  have "hex_digit 0 = CHR ''0''" by code_simp
  then have "nat_to_hex 0 = ''0''" by (subst nat_to_hex.simps) simp
  moreover have "replicate 3 (CHR ''0'') = ''000''" by (simp add: numeral_eq_Suc)
  moreover have "((0 AND 0x0fffffff) OR 0x40000000) AND 0xffff = (0 :: 32 word)" by simp
  ultimately have C0: "?C 0 = ''0000''" by (simp add: hexw_def setw_def del: and_zero_eq)
  have "generate_uuid a b 0 d ! 14 = CHR ''0''"
    unfolding u C0 by (simp add: nth_append lA lB)
  then have c14: "\<exists>c'. generate_uuid a b c' d ! 14 = CHR ''0''" ..
  have "generate_uuid a b c d ! 19 = hex_digit (unat ?v div 4096)"
    unfolding u v by (simp add: nth_append lA lB lC)
  with vd have "generate_uuid a b c d ! 19 \<in> set ''89ab''" by simp
  moreover have "length (generate_uuid a b c d) = 36"
    unfolding u v by (simp add: lA lB lC E(2))
  moreover have "generate_uuid a b c d ! 8 = CHR ''-''" "generate_uuid a b c d ! 13 = CHR ''-''"
      "generate_uuid a b c d ! 18 = CHR ''-''" "generate_uuid a b c d ! 23 = CHR ''-''"
    unfolding u v by (simp_all add: nth_append lA lB lC)
  moreover have "take 4 (drop 24 (generate_uuid a b c d)) = ''0000''"
    unfolding u v by (simp add: lA lB lC)
  ultimately show ?thesis using c14 by blast
qed

end
