(* ===== verification/Base64.thy ===== *)
theory Base64
  imports String_Utils
begin

text \<open>
  The two base64 implementations of the program: \<open>base64_encode\<close> and \<open>base64_decode\<close> of
  \<open>src/util/crypto_utils.cpp\<close> (used by the Read tool for images) and \<open>encode_base64\<close> and
  \<open>decode_base64\<close> of \<open>src/bridge/bridge_server.cpp\<close> (used by the WebSocket handshake).
  \<open>unsigned int\<close> and \<open>int\<close> are 32-bit words; the decoders' accumulator \<open>val\<close> really wraps
  on long inputs, which the round trip has to tolerate.
\<close>

definition base64_chars :: string where
  "base64_chars = ''ABCDEFGHIJKLMNOPQRSTUVWXYZabcdefghijklmnopqrstuvwxyz0123456789+/''"

definition pad_char :: char where
  "pad_char = CHR ''=''"

text \<open>\<open>unsigned char\<close> to \<open>unsigned int\<close>, and the table look-up \<open>base64_chars[i]\<close>.\<close>

definition octet :: "char \<Rightarrow> 32 word" where
  "octet c = word_of_nat (of_char c)"

definition b64_char :: "32 word \<Rightarrow> char" where
  "b64_char i = base64_chars ! unat i"

section \<open>crypto\_utils\<close>

fun base64_encode :: "string \<Rightarrow> string" where
  "base64_encode [] = []"
| "base64_encode (a # rest) =
     (let remaining = length (a # rest);
          octet_a = octet a;
          octet_b = (if 1 < remaining then octet (rest ! 0) else 0);
          octet_c = (if 2 < remaining then octet (rest ! 1) else 0);
          triple = (push_bit 16 octet_a OR push_bit 8 octet_b) OR octet_c
      in [b64_char (drop_bit 18 triple AND 0x3F),
          b64_char (drop_bit 12 triple AND 0x3F),
          (if 1 < remaining then b64_char (drop_bit 6 triple AND 0x3F) else pad_char),
          (if 2 < remaining then b64_char (triple AND 0x3F) else pad_char)]
         @ base64_encode (drop 2 rest))"

text \<open>The decoder's table: \<open>-1\<close> everywhere but at the 64 digits.\<close>

definition b64_lookup :: "char \<Rightarrow> nat option" where
  "b64_lookup c = map_of (rev (zip base64_chars [0..<64])) c"

fun decode_loop :: "string \<Rightarrow> 32 word \<Rightarrow> int \<Rightarrow> string" where
  "decode_loop [] val valb = []"
| "decode_loop (c # cs) val valb =
     (if c = pad_char then []
      else case b64_lookup c of
             None \<Rightarrow> decode_loop cs val valb
           | Some d \<Rightarrow>
               (let val' = push_bit 6 val + word_of_nat d;
                    valb' = valb + 6
                in if 0 \<le> valb'
                   then char_of (unat (signed_drop_bit (nat valb') val' AND 0xFF))
                          # decode_loop cs val' (valb' - 8)
                   else decode_loop cs val' valb'))"

definition base64_decode :: "string \<Rightarrow> string" where
  "base64_decode encoded = decode_loop encoded 0 (-8)"

section \<open>bridge\_server\<close>

fun encode_base64 :: "string \<Rightarrow> string" where
  "encode_base64 [] = []"
| "encode_base64 [x] =
     [b64_char (drop_bit 2 (octet x AND 0xFC)), b64_char (push_bit 4 (octet x AND 0x03)),
      pad_char, pad_char]"
| "encode_base64 [x, y] =
     [b64_char (drop_bit 2 (octet x AND 0xFC)),
      b64_char (push_bit 4 (octet x AND 0x03) OR drop_bit 4 (octet y AND 0xF0)),
      b64_char (push_bit 2 (octet y AND 0x0F)), pad_char]"
| "encode_base64 (x # y # z # data) =
     [b64_char (drop_bit 2 (octet x AND 0xFC)),
      b64_char (push_bit 4 (octet x AND 0x03) OR drop_bit 4 (octet y AND 0xF0)),
      b64_char (push_bit 2 (octet y AND 0x0F) OR drop_bit 6 (octet z AND 0xC0)),
      b64_char (octet z AND 0x3F)]
     @ encode_base64 data"

fun bridge_decode_loop :: "string \<Rightarrow> 32 word \<Rightarrow> int \<Rightarrow> string" where
  "bridge_decode_loop [] val valb = []"
| "bridge_decode_loop (c # cs) val valb =
     (case b64_lookup c of
        None \<Rightarrow> []
      | Some d \<Rightarrow>
          (let val' = push_bit 6 val + word_of_nat d;
               valb' = valb + 6
           in if 0 \<le> valb'
              then char_of (unat (signed_drop_bit (nat valb') val' AND 0xFF))
                     # bridge_decode_loop cs val' (valb' - 8)
              else bridge_decode_loop cs val' valb'))"

definition decode_base64 :: "string \<Rightarrow> string" where
  "decode_base64 encoded = bridge_decode_loop encoded 0 (-8)"

section \<open>Words as numbers\<close>

lemma unat_octet: "unat (octet c) = of_char c"
proof -
  have "(of_char c :: nat) < 2 ^ 32" by (rule less_trans [OF nat_of_char_less_256]) simp
  then have "(of_char c :: nat) mod 2 ^ 32 = of_char c" by (rule mod_less)
  then show ?thesis by (simp add: octet_def unat_of_nat)
qed

lemma octet_lt: "unat (octet c) < 256"
  unfolding unat_octet by (rule nat_of_char_less_256)

lemma char_of_octet: "char_of (unat (octet c)) = c"
  by (simp add: unat_octet)

lemma unat_mask6: "unat (x AND 0x3F :: 32 word) = unat x mod 64"
proof -
  have "x AND 0x3F = take_bit 6 x" by (simp add: take_bit_eq_mask mask_numeral)
  moreover have "unat (take_bit 6 x) = take_bit 6 (unat x)" by (rule unsigned_take_bit_eq)
  ultimately show ?thesis by (simp add: take_bit_eq_mod [of 6 "unat x"])
qed

lemma unat_mask8: "unat (x AND 0xFF :: 32 word) = unat x mod 256"
proof -
  have "x AND 0xFF = take_bit 8 x" by (simp add: take_bit_eq_mask mask_numeral)
  moreover have "unat (take_bit 8 x) = take_bit 8 (unat x)" by (rule unsigned_take_bit_eq)
  ultimately show ?thesis by (simp add: take_bit_eq_mod [of 8 "unat x"])
qed

lemma unat_drop: "unat (drop_bit k x :: 32 word) = unat x div 2 ^ k"
proof -
  have "unat (drop_bit k x) = drop_bit k (unat x)" by (rule unat_drop_bit_eq)
  also have "\<dots> = unat x div 2 ^ k" by (rule drop_bit_eq_div)
  finally show ?thesis .
qed

lemma unat_push_or:
  fixes x y :: "32 word"
  assumes "unat y < 2 ^ k" and "2 ^ k * unat x + 2 ^ k \<le> 2 ^ 32"
  shows "unat (push_bit k x OR y) = 2 ^ k * unat x + unat y"
  using assms by (intro unat_push_or_word) simp_all

lemma unat_octet_or:
  "unat (octet a) < 256"
  "unat ((push_bit 16 (octet a) OR push_bit 8 (octet b)) OR octet c) =
     65536 * of_char a + 256 * of_char b + of_char c"
proof -
  show a: "unat (octet a) < 256" by (rule octet_lt)
  have "push_bit 16 (octet a) OR push_bit 8 (octet b) =
      push_bit 8 (push_bit 8 (octet a) OR octet b)"
    by (simp add: push_bit_or)
  moreover have 1: "unat (push_bit 8 (octet a) OR octet b) = 256 * of_char a + of_char b"
  proof -
    have "unat (octet b) < 2 ^ 8" using octet_lt [of b] by simp
    moreover have "2 ^ 8 * unat (octet a) + 2 ^ 8 \<le> 2 ^ 32" using a by simp
    ultimately have "unat (push_bit 8 (octet a) OR octet b) =
        2 ^ 8 * unat (octet a) + unat (octet b)"
      by (rule unat_push_or)
    then show ?thesis by (simp add: unat_octet)
  qed
  moreover have "256 * of_char a + of_char b < (65536 :: nat)"
    using nat_of_char_less_256 [of a] nat_of_char_less_256 [of b] by linarith
  ultimately show "unat ((push_bit 16 (octet a) OR push_bit 8 (octet b)) OR octet c) =
     65536 * of_char a + 256 * of_char b + of_char c"
    using unat_push_or [of "octet c" 8 "push_bit 8 (octet a) OR octet b"] octet_lt [of c]
    by (simp add: unat_octet)
qed

section \<open>The digits of a group\<close>

text \<open>The four six-bit digits of the bytes \<open>a\<close>, \<open>b\<close>, \<open>c\<close>.\<close>

definition sx1 :: "nat \<Rightarrow> nat" where "sx1 a = a div 4"
definition sx2 :: "nat \<Rightarrow> nat \<Rightarrow> nat" where "sx2 a b = (a mod 4) * 16 + b div 16"
definition sx3 :: "nat \<Rightarrow> nat \<Rightarrow> nat" where "sx3 b c = (b mod 16) * 4 + c div 64"
definition sx4 :: "nat \<Rightarrow> nat" where "sx4 c = c mod 64"

lemmas sx_defs = sx1_def sx2_def sx3_def sx4_def

lemma sx_lt:
  "a < 256 \<Longrightarrow> sx1 a < 64" "b < 256 \<Longrightarrow> sx2 a b < 64" "c < 256 \<Longrightarrow> sx3 b c < 64" "sx4 c < 64"
  by (auto simp: sx_defs less_mult_imp_div_less intro!: mod_less_divisor) 

lemma scaled_div_mod: "k * b = (k * n) * (b div n) + (b mod n) * k" for k b n :: nat
proof -
  have "k * b = k * (n * (b div n) + b mod n)" by simp
  then show ?thesis by (simp only: add_mult_distrib2 mult.assoc mult.commute [of "b mod n"])
qed

lemma sx_of_triple:
  fixes a b c :: nat
  assumes "a < 256" "b < 256" "c < 256"
  shows "(65536 * a + 256 * b + c) div 262144 mod 64 = sx1 a"
    "(65536 * a + 256 * b + c) div 4096 mod 64 = sx2 a b"
    "(65536 * a + 256 * b + c) div 64 mod 64 = sx3 b c"
    "(65536 * a + 256 * b + c) mod 64 = sx4 c"
proof -
  let ?t = "65536 * a + 256 * b + c"
  have t8: "?t div 256 = 256 * a + b" using assms(3) by simp
  have t16: "?t div 65536 = a"
  proof -
    have "?t div 65536 = ?t div 256 div 256" by (simp add: div_mult2_eq [symmetric])
    then show ?thesis using assms(2) by (simp add: t8)
  qed
  have "?t div 262144 = ?t div 65536 div 4" by (simp add: div_mult2_eq [symmetric])
  then show "?t div 262144 mod 64 = sx1 a" using assms(1) by (simp add: t16 sx1_def)
  have "?t div 4096 = (256 * a + b) div 16" by (simp add: div_mult2_eq [symmetric] flip: t8)
  also have "\<dots> = 16 * a + b div 16" by simp
  also have "\<dots> = 64 * (a div 4) + ((a mod 4) * 16 + b div 16)"
    using div_mult_mod_eq [of a 4] by linarith
  finally show "?t div 4096 mod 64 = sx2 a b"
    using sx_lt(2) [OF assms(2), of a] by (simp add: sx2_def)
  have "?t div 64 = 1024 * a + (4 * b + c div 64)" by simp
  also have "\<dots> = 64 * (16 * a + b div 16) + ((b mod 16) * 4 + c div 64)"
  proof -
    have "4 * b = 64 * (b div 16) + (b mod 16) * 4" using scaled_div_mod [of 4 b 16] by simp
    then show ?thesis by simp
  qed
  finally have "?t div 64 = 64 * (16 * a + b div 16) + sx3 b c" by (simp only: sx3_def)
  then show "?t div 64 mod 64 = sx3 b c"
    using sx_lt(3) [OF assms(3), of b] by (metis mod_mult_self4 mod_less)
  have "?t = 64 * (1024 * a + 4 * b) + c" by simp
  then show "?t mod 64 = sx4 c" unfolding sx4_def by (metis mod_mult_self4)
qed


text \<open>The characters of those digits, and what the encoders print for a whole group.\<close>

definition dig :: "nat \<Rightarrow> char" where
  "dig n = base64_chars ! n"

lemma b64_char_dig: "unat i = n \<Longrightarrow> b64_char i = dig n"
  by (simp add: b64_char_def dig_def)

lemma encode_group:
  "base64_encode (a # b # c # rest) =
     [dig (sx1 (of_char a)), dig (sx2 (of_char a) (of_char b)),
      dig (sx3 (of_char b) (of_char c)), dig (sx4 (of_char c))] @ base64_encode rest"
proof -
  note [simp] = sx_of_triple [of "of_char a" "of_char b" "of_char c", simplified]
  show ?thesis
    by (simp add: b64_char_dig [OF refl] unat_mask6 unat_drop unat_octet_or)
qed

lemma octet_nul: "octet (CHR 0x00) = 0"
  by (simp add: octet_def)

lemma encode_two:
  "base64_encode [a, b] =
     [dig (sx1 (of_char a)), dig (sx2 (of_char a) (of_char b)), dig (sx3 (of_char b) 0), pad_char]"
proof -
  note [simp] = sx_of_triple [of "of_char a" "of_char b" 0, simplified]
  show ?thesis
    using unat_octet_or(2) [of a b "CHR 0x00"]
    by (simp add: b64_char_dig [OF refl] unat_mask6 unat_drop octet_nul)
qed

lemma encode_one:
  "base64_encode [a] = [dig (sx1 (of_char a)), dig (sx2 (of_char a) 0), pad_char, pad_char]"
proof -
  note [simp] = sx_of_triple [of "of_char a" 0 0, simplified]
  show ?thesis
    using unat_octet_or(2) [of a "CHR 0x00" "CHR 0x00"]
    by (simp add: b64_char_dig [OF refl] unat_mask6 unat_drop octet_nul)
qed

lemmas encode_groups = encode_one encode_two encode_group


section \<open>Decoding the digits\<close>

lemma b64_lookup_dig: "n < 64 \<Longrightarrow> b64_lookup (dig n) = Some n"
proof -
  have "\<forall>n \<in> set [0..<64]. b64_lookup (dig n) = Some n" by code_simp
  then show "n < 64 \<Longrightarrow> b64_lookup (dig n) = Some n" by auto
qed

lemma dig_not_pad: "n < 64 \<Longrightarrow> dig n \<noteq> pad_char"
proof -
  have "\<forall>n \<in> set [0..<64]. dig n \<noteq> pad_char" by code_simp
  then show "n < 64 \<Longrightarrow> dig n \<noteq> pad_char" by auto
qed

lemma b64_lookup_pad: "b64_lookup pad_char = None"
  by code_simp

text \<open>Pushing a digit onto the accumulator, and the byte taken from it, modulo \<open>2 ^ 32\<close>.\<close>

lemma push_digit: "push_bit 6 (word_of_nat n :: 32 word) + word_of_nat d = word_of_nat (64 * n + d)"
  by (simp add: push_bit_eq_mult)

lemma byte_of_acc:
  assumes "k \<le> 24"
  shows "unat (signed_drop_bit k (word_of_nat n :: 32 word) AND 0xFF) = n div 2 ^ k mod 256"
proof -
  let ?w = "word_of_nat n :: 32 word"
  have "signed_drop_bit k ?w AND mask 8 = drop_bit k ?w AND mask 8"
    using assms by (intro bit_word_eqI)
      (auto simp: bit_simps bit_signed_drop_bit_iff split: if_splits)
  then have "signed_drop_bit k ?w AND 0xFF = drop_bit k ?w AND 0xFF" by (simp add: mask_numeral)
  then have "unat (signed_drop_bit k ?w AND 0xFF) = (n mod 2 ^ 32) div 2 ^ k mod 256"
    by (simp add: unat_mask8 unat_drop unat_of_nat)
  also have "\<dots> = take_bit 8 (drop_bit k (take_bit 32 n))"
    by (simp add: take_bit_eq_mod drop_bit_eq_div)
  also have "\<dots> = take_bit 8 (drop_bit k n)"
    using assms by (simp add: drop_bit_take_bit)
  also have "\<dots> = n div 2 ^ k mod 256" by (simp add: take_bit_eq_mod drop_bit_eq_div)
  finally show ?thesis .
qed


lemma char_of_byte: "n = of_char c \<Longrightarrow> char_of (n mod 256) = c"
  using nat_of_char_less_256 [of c] by simp

lemma group_bytes:
  fixes a b c :: nat
  assumes "a < 256" "b < 256" "c < 256"
  shows "(64 * (64 * v + sx1 a) + sx2 a b) div 16 mod 256 = a"
    "(64 * (64 * (64 * v + sx1 a) + sx2 a b) + sx3 b c) div 4 mod 256 = b"
    "(64 * (64 * (64 * (64 * v + sx1 a) + sx2 a b) + sx3 b c) + sx4 c) mod 256 = c"
proof -
  have "64 * (64 * v + sx1 a) + sx2 a b = 16 * (256 * v + a) + b div 16"
  proof -
    have "64 * (a div 4) + a mod 4 * 16 = 16 * a" using scaled_div_mod [of 16 a 4] by simp
    then show ?thesis by (simp add: sx_defs)
  qed
  moreover have "b div 16 < 16" using assms by (simp add: less_mult_imp_div_less)
  ultimately have 1: "(64 * (64 * v + sx1 a) + sx2 a b) div 16 = 256 * v + a"
    "64 * (64 * v + sx1 a) + sx2 a b = 16 * (256 * v + a) + b div 16" by simp_all
  then show "(64 * (64 * v + sx1 a) + sx2 a b) div 16 mod 256 = a" using assms by simp
  have "64 * (16 * (256 * v + a) + b div 16) + sx3 b c =
      4 * (256 * (256 * v + a) + b) + c div 64"
  proof -
    have "64 * (b div 16) + (b mod 16) * 4 = 4 * b" using scaled_div_mod [of 4 b 16] by simp
    then show ?thesis by (simp add: sx_defs)
  qed
  moreover have "c div 64 < 4" using assms by (simp add: less_mult_imp_div_less)
  ultimately have 2: "(64 * (16 * (256 * v + a) + b div 16) + sx3 b c) div 4 =
      256 * (256 * v + a) + b" by simp
  then show "(64 * (64 * (64 * v + sx1 a) + sx2 a b) + sx3 b c) div 4 mod 256 = b"
    unfolding 1(2) 2 using assms by (simp only: mod_mult_self4 mod_less)
  have "64 * (c div 64) + c mod 64 = c" by simp
  then have "64 * (64 * (16 * (256 * v + a) + b div 16) + sx3 b c) + sx4 c =
      256 * (256 * (256 * v + a) + b) + c"
    using \<open>64 * (16 * (256 * v + a) + b div 16) + sx3 b c = _\<close> by (simp add: sx_defs)
  then show "(64 * (64 * (64 * (64 * v + sx1 a) + sx2 a b) + sx3 b c) + sx4 c) mod 256 = c"
    unfolding 1(2) using assms by (simp only: mod_mult_self4 mod_less)
qed

lemmas group_bytes_char = group_bytes(1) [OF _ _ zero_less_numeral] group_bytes(2-)

lemmas sx_char_lt [simp] = sx_lt(1) [OF nat_of_char_less_256] sx_lt(2) [OF nat_of_char_less_256]
  sx_lt(3) [OF nat_of_char_less_256] sx_lt(4)

text \<open>One digit, with the accumulator written as a number.\<close>

lemma decode_dig:
  assumes "n < 64"
  shows "decode_loop (dig n # cs) (word_of_nat v) (-8) =
      decode_loop cs (word_of_nat (64 * v + n)) (-2)"
    "decode_loop (dig n # cs) (word_of_nat v) (-2) =
      char_of ((64 * v + n) div 16 mod 256) # decode_loop cs (word_of_nat (64 * v + n)) (-4)"
    "decode_loop (dig n # cs) (word_of_nat v) (-4) =
      char_of ((64 * v + n) div 4 mod 256) # decode_loop cs (word_of_nat (64 * v + n)) (-6)"
    "decode_loop (dig n # cs) (word_of_nat v) (-6) =
      char_of ((64 * v + n) mod 256) # decode_loop cs (word_of_nat (64 * v + n)) (-8)"
proof -
  note [simp] = b64_lookup_dig [OF assms] dig_not_pad [OF assms]
  show "decode_loop (dig n # cs) (word_of_nat v) (-8) =
      decode_loop cs (word_of_nat (64 * v + n)) (-2)"
    by (simp add: Let_def push_digit del: of_nat_add of_nat_mult)
  show "decode_loop (dig n # cs) (word_of_nat v) (-2) =
      char_of ((64 * v + n) div 16 mod 256) # decode_loop cs (word_of_nat (64 * v + n)) (-4)"
    using byte_of_acc [of 4 "64 * v + n"]
    by (simp add: Let_def push_digit del: of_nat_add of_nat_mult)
  show "decode_loop (dig n # cs) (word_of_nat v) (-4) =
      char_of ((64 * v + n) div 4 mod 256) # decode_loop cs (word_of_nat (64 * v + n)) (-6)"
    using byte_of_acc [of 2 "64 * v + n"]
    by (simp add: Let_def push_digit del: of_nat_add of_nat_mult)
  show "decode_loop (dig n # cs) (word_of_nat v) (-6) =
      char_of ((64 * v + n) mod 256) # decode_loop cs (word_of_nat (64 * v + n)) (-8)"
    using byte_of_acc [of 0 "64 * v + n"]
    by (simp add: Let_def push_digit del: of_nat_add of_nat_mult)
qed

lemma decode_group:
  "\<exists>v'. decode_loop (dig (sx1 (of_char a)) # dig (sx2 (of_char a) (of_char b)) #
      dig (sx3 (of_char b) (of_char c)) # dig (sx4 (of_char c)) # cs) (word_of_nat v) (-8) =
   [a, b, c] @ decode_loop cs (word_of_nat v') (-8)"
proof
  show "decode_loop (dig (sx1 (of_char a)) # dig (sx2 (of_char a) (of_char b)) #
      dig (sx3 (of_char b) (of_char c)) # dig (sx4 (of_char c)) # cs) (word_of_nat v) (-8) =
    [a, b, c] @ decode_loop cs (word_of_nat
      (64 * (64 * (64 * (64 * v + sx1 (of_char a)) + sx2 (of_char a) (of_char b))
        + sx3 (of_char b) (of_char c)) + sx4 (of_char c))) (-8)"
    by (simp only: decode_dig sx_char_lt group_bytes_char nat_of_char_less_256 char_of_char append.simps)
qed

lemma decode_pad: "decode_loop (pad_char # cs) val valb = []"
  by simp

lemma decode_tails:
  "decode_loop [dig (sx1 (of_char a)), dig (sx2 (of_char a) (of_char b)), dig (sx3 (of_char b) 0),
      pad_char] (word_of_nat v) (-8) = [a, b]"
  "decode_loop [dig (sx1 (of_char a)), dig (sx2 (of_char a) 0), pad_char, pad_char]
      (word_of_nat v) (-8) = [a]"
proof -
  have z: "(0 :: nat) < 256" by simp
  show "decode_loop [dig (sx1 (of_char a)), dig (sx2 (of_char a) (of_char b)),
      dig (sx3 (of_char b) 0), pad_char] (word_of_nat v) (-8) = [a, b]"
    by (simp only: decode_dig sx_char_lt sx_lt z group_bytes_char nat_of_char_less_256
        char_of_char decode_pad)
  show "decode_loop [dig (sx1 (of_char a)), dig (sx2 (of_char a) 0), pad_char, pad_char]
      (word_of_nat v) (-8) = [a]"
    by (simp only: decode_dig sx_char_lt sx_lt z group_bytes_char nat_of_char_less_256
        char_of_char decode_pad)
qed

text \<open>
  Induction three bytes at a time, which is how both encoders run.
\<close>

lemma by_three [case_names Nil One Two Three]:
  fixes P :: "string \<Rightarrow> bool"
  assumes "P []" "\<And>a. P [a]" "\<And>a b. P [a, b]"
    and "\<And>a b c s. P s \<Longrightarrow> P (a # b # c # s)"
  shows "P s"
  using assms by (induction s rule: encode_base64.induct) auto

lemma decode_encode_acc: "decode_loop (base64_encode s) (word_of_nat v) (-8) = s"
proof (induction s arbitrary: v rule: by_three)
  case (Three a b c s)
  obtain v' where "decode_loop (base64_encode (a # b # c # s)) (word_of_nat v) (-8) =
      [a, b, c] @ decode_loop (base64_encode s) (word_of_nat v') (-8)"
    using decode_group [of a b c "base64_encode s" v]
    by (auto simp only: encode_group append.simps)
  then show ?case by (simp only: Three append.simps)
qed (simp_all only: encode_one encode_two decode_tails base64_encode.simps(1) decode_loop.simps(1))

text \<open>
  C24: Decoding what \<open>base64_encode\<close> printed gives back every byte string, of any length,
  although the decoder's 32-bit accumulator wraps on the way.
\<close>

theorem base64_roundtrip: "base64_decode (base64_encode s) = s"
  using decode_encode_acc [of s 0] by (simp add: base64_decode_def)


section \<open>The bridge's codec\<close>

lemma unat_mask24:
  "unat (x AND 0x03 :: 32 word) = unat x mod 4" "unat (x AND 0x0F :: 32 word) = unat x mod 16"
proof -
  have "x AND 0x03 = take_bit 2 x" "x AND 0x0F = take_bit 4 x"
    by (simp_all add: take_bit_eq_mask mask_numeral)
  moreover have "unat (take_bit 2 x) = take_bit 2 (unat x)" "unat (take_bit 4 x) = take_bit 4 (unat x)"
    by (rule unsigned_take_bit_eq)+
  ultimately show "unat (x AND 0x03) = unat x mod 4" "unat (x AND 0x0F) = unat x mod 16"
    by (simp_all add: take_bit_eq_mod [of 2 "unat x"] take_bit_eq_mod [of 4 "unat x"])
qed

lemma bridge_parts:
  "unat (drop_bit 2 (octet x AND 0xFC)) = sx1 (of_char x)"
  "unat (push_bit 4 (octet x AND 0x03) OR drop_bit 4 (octet y AND 0xF0)) =
     sx2 (of_char x) (of_char y)"
  "unat (push_bit 2 (octet y AND 0x0F) OR drop_bit 6 (octet z AND 0xC0)) =
     sx3 (of_char y) (of_char z)"
proof -
  note lt = nat_of_char_less_256 [of x] nat_of_char_less_256 [of y] nat_of_char_less_256 [of z]
  have "drop_bit 2 (octet x AND 0xFC) = drop_bit 2 (octet x) AND 0x3F"
    by (simp only: drop_bit_and) simp
  moreover have "(of_char x :: nat) div 4 < 64" using lt by (simp add: less_mult_imp_div_less)
  ultimately show "unat (drop_bit 2 (octet x AND 0xFC)) = sx1 (of_char x)"
    by (simp add: unat_mask6 unat_drop unat_octet sx1_def)
  have "drop_bit 4 (octet y AND 0xF0) = drop_bit 4 (octet y) AND 0x0F"
    by (simp only: drop_bit_and) simp
  moreover have "(of_char y :: nat) div 16 < 16" using lt by (simp add: less_mult_imp_div_less)
  ultimately have "unat (drop_bit 4 (octet y AND 0xF0)) = of_char y div 16"
    "unat (drop_bit 4 (octet y AND 0xF0)) < 2 ^ 4"
    by (simp_all add: unat_mask24 unat_drop unat_octet)
  then show "unat (push_bit 4 (octet x AND 0x03) OR drop_bit 4 (octet y AND 0xF0)) =
     sx2 (of_char x) (of_char y)"
    using unat_push_or [of "drop_bit 4 (octet y AND 0xF0)" 4 "octet x AND 0x03"]
    by (simp add: unat_mask24 unat_octet sx2_def trans_le_add2)
  have "drop_bit 6 (octet z AND 0xC0) = drop_bit 6 (octet z) AND 0x03"
    by (simp only: drop_bit_and) simp
  moreover have "(of_char z :: nat) div 64 < 4" using lt by (simp add: less_mult_imp_div_less)
  ultimately have "unat (drop_bit 6 (octet z AND 0xC0)) = of_char z div 64"
    "unat (drop_bit 6 (octet z AND 0xC0)) < 2 ^ 2"
    by (simp_all add: unat_mask24 unat_drop unat_octet)
  then show "unat (push_bit 2 (octet y AND 0x0F) OR drop_bit 6 (octet z AND 0xC0)) =
     sx3 (of_char y) (of_char z)"
    using unat_push_or [of "drop_bit 6 (octet z AND 0xC0)" 2 "octet y AND 0x0F"]
    by (simp add: unat_mask24 unat_octet sx3_def)
qed


lemma bridge_parts_last:
  "unat (push_bit 4 (octet x AND 0x03)) = sx2 (of_char x) 0"
  "unat (push_bit 2 (octet y AND 0x0F)) = sx3 (of_char y) 0"
  using bridge_parts(2) [of x "CHR 0x00"] bridge_parts(3) [of y "CHR 0x00"]
  by (simp_all add: octet_nul)

lemma bridge_group:
  "encode_base64 [x] = [dig (sx1 (of_char x)), dig (sx2 (of_char x) 0), pad_char, pad_char]"
  "encode_base64 [x, y] =
     [dig (sx1 (of_char x)), dig (sx2 (of_char x) (of_char y)), dig (sx3 (of_char y) 0), pad_char]"
  "encode_base64 (x # y # z # s) =
     [dig (sx1 (of_char x)), dig (sx2 (of_char x) (of_char y)),
      dig (sx3 (of_char y) (of_char z)), dig (sx4 (of_char z))] @ encode_base64 s"
  by (simp_all only: encode_base64.simps append.simps b64_char_dig [OF bridge_parts(1)]
      b64_char_dig [OF bridge_parts(2)] b64_char_dig [OF bridge_parts(3)]
      b64_char_dig [OF bridge_parts_last(1)] b64_char_dig [OF bridge_parts_last(2)]
      b64_char_dig [OF unat_mask6] unat_octet sx4_def)

lemma encoders_agree: "encode_base64 s = base64_encode s"
  by (induction s rule: by_three) (simp_all only: bridge_group encode_groups encode_base64.simps(1)
      base64_encode.simps(1))

text \<open>
  The two decoders part only where a character outside the alphabet other than the padding
  occurs: the bridge stops there, the other one skips it.
\<close>

lemma decoders_agree:
  assumes "\<forall>c\<in>set s. c = pad_char \<or> b64_lookup c \<noteq> None"
  shows "bridge_decode_loop s val valb = decode_loop s val valb"
  using assms
proof (induction s val valb rule: bridge_decode_loop.induct)
  case (2 c cs val valb)
  show ?case
  proof (cases "b64_lookup c")
    case None
    with 2 have "c = pad_char" by auto
    with None show ?thesis by simp
  next
    case (Some d)
    then have "c \<noteq> pad_char" using b64_lookup_pad by auto
    with Some 2 show ?thesis by (auto simp: Let_def)
  qed
qed simp

lemma base64_encode_alphabet: "\<forall>c\<in>set (base64_encode s). c = pad_char \<or> b64_lookup c \<noteq> None"
proof (induction s rule: by_three)
  case Nil
  then show ?case by simp
next
  case (One a)
  then show ?case by (simp add: encode_one b64_lookup_dig sx_lt del: base64_encode.simps)
next
  case (Two a b)
  then show ?case by (simp add: encode_two b64_lookup_dig sx_lt del: base64_encode.simps)
next
  case (Three a b c s)
  then show ?case
    by (simp add: encode_group b64_lookup_dig sx_lt ball_Un del: base64_encode.simps)
qed

lemma base64_encode_length: "length (base64_encode s) = 4 * ((length s + 2) div 3)"
proof (induction s rule: by_three)
  case (Three a b c s)
  have "(length (a # b # c # s) + 2) div 3 = Suc ((length s + 2) div 3)"
    using div_add_self2 [of 3 "length s + 2"] by (simp add: add.commute)
  with Three show ?case by (simp add: encode_group del: base64_encode.simps)
qed (simp_all add: encode_one encode_two del: base64_encode.simps(2))

interpretation util_base64: codec base64_encode "\<lambda>e. Some (base64_decode e)" "\<lambda>s. True"
  by unfold_locales (simp add: base64_decode_def decode_encode_acc [of _ 0, simplified])

interpretation bridge_base64: codec encode_base64 "\<lambda>e. Some (decode_base64 e)" "\<lambda>s. True"
proof unfold_locales
  fix s :: string
  have "decode_base64 (encode_base64 s) = decode_loop (base64_encode s) 0 (-8)"
    by (simp add: decode_base64_def encoders_agree decoders_agree [OF base64_encode_alphabet])
  then show "Some (decode_base64 (encode_base64 s)) = Some s"
    using decode_encode_acc [of s 0] by simp
qed

text \<open>
  The bridge's own encoder prints the same text as the utility one on every byte string,
  its decoder takes that text back to the bytes, and the text is four characters for every
  started group of three bytes.
\<close>

theorem bridge_codec_equivalent:
  "encode_base64 s = base64_encode s \<and> decode_base64 (encode_base64 s) = s \<and>
   length (encode_base64 s) = 4 * ((length s + 2) div 3)"
  using bridge_base64.dec_enc [of s] by (simp add: encoders_agree base64_encode_length)

end
