(* ===== verification/Json.thy ===== *)
theory Json
  imports Interfaces Complex_Main
begin

text \<open>
  The interface to the JSON library (nlohmann::json), which is not part of the repository:
  a record of the library functions the sources call, over an abstract type of JSON values.
  The definitions that read or build JSON take such a record as an argument, and a lemma that
  relies on the library's documented behaviour names the law it needs.

  An accessor that may throw \<open>json::type_error\<close> returns an option, \<open>None\<close> being the
  exception; \<open>json::parse\<close> returns the text of \<open>json::parse_error::what()\<close> on the left. Strings are
  bytes, and a value can hold any: \<open>dump\<close> throws when one of them is not UTF-8, which is what
  \<open>j_printable\<close> says (\<open>dump_json\<close>). What the parser returns is UTF-8, so where only that is printed,
  or only constants are, the definitions take \<open>j_dump\<close>.
\<close>

text \<open>Well-formed UTF-8, as the Unicode standard has it.\<close>

definition byte_in :: "nat \<Rightarrow> nat \<Rightarrow> char \<Rightarrow> bool" where
  "byte_in lo hi c = (lo \<le> of_char c \<and> of_char c \<le> hi)"

definition utf8_second :: "char \<Rightarrow> char \<Rightarrow> bool" where
  "utf8_second a b =
     (if byte_in 0xE0 0xE0 a then byte_in 0xA0 0xBF b
      else if byte_in 0xED 0xED a then byte_in 0x80 0x9F b
      else if byte_in 0xF0 0xF0 a then byte_in 0x90 0xBF b
      else if byte_in 0xF4 0xF4 a then byte_in 0x80 0x8F b
      else byte_in 0x80 0xBF b)"

fun utf8 :: "string \<Rightarrow> bool" where
  "utf8 [] = True"
| "utf8 (a # s) =
     (if byte_in 0 0x7F a then utf8 s
      else (case s of
          [] \<Rightarrow> False
        | b # s1 \<Rightarrow>
            if \<not> utf8_second a b then False
            else if byte_in 0xC2 0xDF a then utf8 s1
            else (case s1 of
                [] \<Rightarrow> False
              | c # s2 \<Rightarrow>
                  if \<not> byte_in 0x80 0xBF c then False
                  else if byte_in 0xE0 0xEF a then utf8 s2
                  else (case s2 of
                      [] \<Rightarrow> False
                    | d # s3 \<Rightarrow> byte_in 0xF0 0xF4 a \<and> byte_in 0x80 0xBF d \<and> utf8 s3))))"

lemma ascii_byte [simp]: "byte_in 0 0x7F (Char b0 b1 b2 b3 b4 b5 b6 False)"
  by (cases b0; cases b1; cases b2; cases b3; cases b4; cases b5; cases b6) (simp_all add: byte_in_def)

text \<open>A text that is cut off inside a character, and goes on with a new line, is not UTF-8.\<close>

lemma continuation_not_first: "byte_in 0x80 0xBF c \<Longrightarrow> \<not> utf8 (c # s)"
  by (auto simp: byte_in_def utf8_second_def split: list.splits)

lemma utf8_cut:
  "utf8 s \<Longrightarrow> n < length s \<Longrightarrow> byte_in 0x80 0xBF (s ! n) \<Longrightarrow> \<not> utf8 (take n s @ CHR 0x0A # t)"
proof (induction s arbitrary: n rule: utf8.induct)
  case (2 a s)
  have newline: "\<not> byte_in 0x80 0xBF CHR 0x0A" "\<not> utf8_second a CHR 0x0A"
    by (simp_all add: byte_in_def utf8_second_def)
  show ?case
  proof (cases "byte_in 0 0x7F a")
    case True
    with 2 show ?thesis by (cases n) (auto simp: byte_in_def)
  next
    case False
    from "2.prems"(1) False obtain b s1 where s: "s = b # s1" "utf8_second a b"
      by (auto split: list.splits if_splits)
    consider "n = 0" | "n = 1" | n1 where "n = Suc (Suc n1)" by (metis One_nat_def not0_implies_Suc)
    then show ?thesis
    proof cases
      case 1
      with "2.prems" continuation_not_first show ?thesis by simp
    next
      case 2
      with False newline show ?thesis by simp
    next
      case (3 n1)
      note n1 = this
      show ?thesis
      proof (cases "byte_in 0xC2 0xDF a")
        case True
        from "2.IH"(2) [OF False s(1) _ True, of n1] "2.prems" s False True n1 show ?thesis by simp
      next
        case three: False
        from "2.prems"(1) False three s obtain c s2 where s1: "s1 = c # s2" "byte_in 0x80 0xBF c"
          by (auto split: list.splits if_splits)
        show ?thesis
        proof (cases n1)
          case 0
          with three False n1 s newline show ?thesis by simp
        next
          case n2: (Suc n2)
          show ?thesis
          proof (cases "byte_in 0xE0 0xEF a")
            case True
            from "2.IH"(3) [OF False s(1) _ three s1(1) _ True, of n2] "2.prems" s s1 False three True n1 n2
            show ?thesis by simp
          next
            case four: False
            from "2.prems"(1) False three four s s1 obtain d s3 where s2: "s2 = d # s3"
              by (auto split: list.splits if_splits)
            show ?thesis
              using "2.IH"(4) [OF False s(1) _ three s1(1) _ four s2] "2.prems" s s1 s2 False three four n1 n2 newline
              by (cases n2) simp_all
          qed
        qed
      qed
    qed
  qed
qed simp

lemma utf8_ascii: "\<forall>c\<in>set s. byte_in 0 0x7F c \<Longrightarrow> utf8 s"
  by (induction s) auto

lemma utf8_nat_to_string [simp]: "utf8 (nat_to_string n)"
proof (rule utf8_ascii)
  show "\<forall>c\<in>set (nat_to_string n). byte_in 0 0x7F c"
    using nat_to_string_digits [of n] by (auto simp: is_digit_def byte_in_def)
qed

lemma utf8_int_to_string [simp]: "utf8 (int_to_string i)"
  by (simp add: int_to_string_def)

record 'j jlib =
  j_parse :: "string \<Rightarrow> string + 'j"
  j_dump :: "'j \<Rightarrow> string"
  j_printable :: "'j \<Rightarrow> bool"
  j_null :: "'j"
  j_string :: "string \<Rightarrow> 'j"
  j_int :: "int \<Rightarrow> 'j"
  j_double :: "rat \<Rightarrow> 'j"
  j_bool :: "bool \<Rightarrow> 'j"
  j_array :: "'j list \<Rightarrow> 'j"
  j_object :: "(string \<times> 'j) list \<Rightarrow> 'j"
  j_set :: "string \<Rightarrow> 'j \<Rightarrow> 'j \<Rightarrow> 'j"
  j_contains :: "'j \<Rightarrow> string \<Rightarrow> bool"
  j_at :: "'j \<Rightarrow> string \<Rightarrow> 'j option"
  j_value_str :: "'j \<Rightarrow> string \<Rightarrow> string \<Rightarrow> string option"
  j_value_int :: "'j \<Rightarrow> string \<Rightarrow> int \<Rightarrow> int option"
  j_value_bool :: "'j \<Rightarrow> string \<Rightarrow> bool \<Rightarrow> bool option"
  j_is_object :: "'j \<Rightarrow> bool"
  j_is_array :: "'j \<Rightarrow> bool"
  j_is_string :: "'j \<Rightarrow> bool"
  j_is_null :: "'j \<Rightarrow> bool"
  j_is_number :: "'j \<Rightarrow> bool"
  j_is_bool :: "'j \<Rightarrow> bool"
  j_elems :: "'j \<Rightarrow> 'j list"
  j_get_str :: "'j \<Rightarrow> string option"
  j_get_int :: "'j \<Rightarrow> int option"
  j_get_bool :: "'j \<Rightarrow> bool option"
  j_get_double :: "'j \<Rightarrow> rat option"
  j_value_double :: "'j \<Rightarrow> string \<Rightarrow> rat \<Rightarrow> rat option"
  j_items :: "'j \<Rightarrow> (string \<times> 'j) list"

text \<open>
  \<open>j[k]\<close> is \<open>j_at\<close>: on an object without the key it is \<open>null\<close>, on a value that is no
  object it throws. \<open>j_elems\<close> is what a range-based loop visits, \<open>j_items\<close> what
  \<open>items()\<close> visits. \<open>j.value(k, 0)\<close> reads an \<open>int\<close>, so \<open>j_value_int\<close> is within 32 bits.
\<close>

text \<open>
  What can go wrong in a modelled function: the exceptions that leave it, a step whose
  behaviour the language does not define (a use of a dangling pointer), and a thread that
  waits for a mutex it holds itself, or for input that never comes (\<open>Blocked\<close>).
\<close>

datatype cpp_exn =
    Json_Parse_Error string
  | Json_Type_Error
  | Length_Error
  | Out_Of_Range
  | Runtime_Error string
  | Stoi_Exn stoi_error
  | Undefined_Behaviour
  | Deadlock
  | Blocked

text \<open>Sequencing of computations that may throw.\<close>

definition bind_exn :: "cpp_exn + 'a \<Rightarrow> ('a \<Rightarrow> cpp_exn + 'b) \<Rightarrow> cpp_exn + 'b" where
  "bind_exn m f = (case m of Inl e \<Rightarrow> Inl e | Inr x \<Rightarrow> f x)"

definition or_type_error :: "'a option \<Rightarrow> cpp_exn + 'a" where
  "or_type_error x = (case x of None \<Rightarrow> Inl Json_Type_Error | Some v \<Rightarrow> Inr v)"

lemma bind_exn_simps [simp]: "bind_exn (Inl e) f = Inl e" "bind_exn (Inr x) f = f x"
  by (simp_all add: bind_exn_def)

lemma or_type_error_simps [simp]:
  "or_type_error None = Inl Json_Type_Error" "or_type_error (Some v) = Inr v"
  by (simp_all add: or_type_error_def)

lemma bind_exn_assoc: "bind_exn (bind_exn m f) g = bind_exn m (\<lambda>x. bind_exn (f x) g)"
  by (cases m) auto

lemma bind_exn_Inr: "bind_exn m f = Inr y \<longleftrightarrow> (\<exists>x. m = Inr x \<and> f x = Inr y)"
  by (cases m) auto

definition parse_json :: "('j, 'z) jlib_scheme \<Rightarrow> string \<Rightarrow> cpp_exn + 'j" where
  "parse_json J s = (case j_parse J s of Inl e \<Rightarrow> Inl (Json_Parse_Error e) | Inr j \<Rightarrow> Inr j)"

definition dump_json :: "('j, 'z) jlib_scheme \<Rightarrow> 'j \<Rightarrow> cpp_exn + string" where
  "dump_json J v = (if j_printable J v then Inr (j_dump J v) else Inl Json_Type_Error)"

text \<open>\<open>dump\<close> with an indentation, which is another printer.\<close>

definition pretty_json :: "('j, 'z) jlib_scheme \<Rightarrow> ('j \<Rightarrow> string) \<Rightarrow> 'j \<Rightarrow> cpp_exn + string" where
  "pretty_json J print v = (if j_printable J v then Inr (print v) else Inl Json_Type_Error)"

text \<open>
  \<open>j.value(k, d)\<close> with a string, an integer, a truth value and a JSON value as default, and \<open>j[k]\<close> on a constant:
  there the behaviour is undefined when the key is missing.
\<close>

definition str_value :: "('j, 'z) jlib_scheme \<Rightarrow> 'j \<Rightarrow> string \<Rightarrow> string \<Rightarrow> cpp_exn + string" where
  "str_value J j k d = or_type_error (j_value_str J j k d)"

definition int_value :: "('j, 'z) jlib_scheme \<Rightarrow> 'j \<Rightarrow> string \<Rightarrow> int \<Rightarrow> cpp_exn + int" where
  "int_value J j k d = or_type_error (j_value_int J j k d)"

definition double_value :: "('j, 'z) jlib_scheme \<Rightarrow> 'j \<Rightarrow> string \<Rightarrow> rat \<Rightarrow> cpp_exn + rat" where
  "double_value J j k d = or_type_error (j_value_double J j k d)"

definition bool_value :: "('j, 'z) jlib_scheme \<Rightarrow> 'j \<Rightarrow> string \<Rightarrow> bool \<Rightarrow> cpp_exn + bool" where
  "bool_value J j k d = or_type_error (j_value_bool J j k d)"

definition json_value :: "('j, 'z) jlib_scheme \<Rightarrow> 'j \<Rightarrow> string \<Rightarrow> 'j \<Rightarrow> cpp_exn + 'j" where
  "json_value J v k d =
     (if j_is_object J v
      then (if j_contains J v k then or_type_error (j_at J v k) else Inr d)
      else Inl Json_Type_Error)"

definition const_at :: "('j, 'z) jlib_scheme \<Rightarrow> 'j \<Rightarrow> string \<Rightarrow> cpp_exn + 'j" where
  "const_at J v k =
     (if \<not> j_is_object J v then Inl Json_Type_Error
      else if j_contains J v k then or_type_error (j_at J v k)
      else Inl Undefined_Behaviour)"

text \<open>Functions applied to the elements of a list in turn, up to the first exception.\<close>

fun map_exn :: "('a \<Rightarrow> cpp_exn + 'b) \<Rightarrow> 'a list \<Rightarrow> cpp_exn + 'b list" where
  "map_exn f [] = Inr []"
| "map_exn f (x # xs) = bind_exn (f x) (\<lambda>y. bind_exn (map_exn f xs) (\<lambda>ys. Inr (y # ys)))"

lemma map_exn_Inr: "map_exn f xs = Inr ys \<longleftrightarrow> list_all2 (\<lambda>x y. f x = Inr y) xs ys"
  by (induction xs arbitrary: ys) (auto simp: bind_exn_Inr list_all2_Cons1)

lemma map_exn_all: "(\<And>x. x \<in> set xs \<Longrightarrow> f x = Inr (g x)) \<Longrightarrow> map_exn f xs = Inr (map g xs)"
  by (induction xs) auto

lemma map_exn_fails: "x \<in> set xs \<Longrightarrow> f x = Inl e \<Longrightarrow> \<exists>e'. map_exn f xs = Inl e'"
proof (induction xs)
  case (Cons y ys)
  then show ?case by (cases "f y") auto
qed simp

text \<open>
  Named laws: documented behaviour of the library on the values the sources build and read
  back.
\<close>

definition law_parse_dump :: "('j, 'z) jlib_scheme \<Rightarrow> bool" where
  "law_parse_dump J = (\<forall>v. j_printable J v \<longrightarrow> j_parse J (j_dump J v) = Inr v)"

text \<open>What can be printed; what the parser accepts can.\<close>

definition law_printable :: "('j, 'z) jlib_scheme \<Rightarrow> bool" where
  "law_printable J =
     ((\<forall>s. j_printable J (j_string J s) = utf8 s) \<and>
      (\<forall>i. j_printable J (j_int J i)) \<and> (\<forall>x. j_printable J (j_double J x)) \<and>
      (\<forall>b. j_printable J (j_bool J b)) \<and> j_printable J (j_null J) \<and>
      (\<forall>vs. j_printable J (j_array J vs) = list_all (j_printable J) vs) \<and>
      (\<forall>ps. distinct (map fst ps) \<longrightarrow>
         j_printable J (j_object J ps) = list_all (\<lambda>(k, v). utf8 k \<and> j_printable J v) ps) \<and>
      (\<forall>v k w. (j_is_object J v \<or> v = j_null J) \<and> \<not> j_contains J v k \<longrightarrow>
         j_printable J (j_set J k w v) = (utf8 k \<and> j_printable J w \<and> j_printable J v)) \<and>
      (\<forall>s v. j_parse J s = Inr v \<longrightarrow> j_printable J v) \<and>
      (\<forall>v. j_printable J v \<longrightarrow> list_all (j_printable J) (j_elems J v)))"

definition law_object :: "('j, 'z) jlib_scheme \<Rightarrow> bool" where
  "law_object J =
     (\<forall>ps k. distinct (map fst ps) \<longrightarrow>
        j_is_object J (j_object J ps) \<and>
        j_contains J (j_object J ps) k = (k \<in> fst ` set ps) \<and>
        j_at J (j_object J ps) k =
          Some (case map_of ps k of Some v \<Rightarrow> v | None \<Rightarrow> j_null J))"

text \<open>Assignment to a member, which turns \<open>null\<close> into an object.\<close>

definition law_set :: "('j, 'z) jlib_scheme \<Rightarrow> bool" where
  "law_set J =
     ((\<forall>k. \<not> j_contains J (j_null J) k) \<and>
      (\<forall>v k w k'. j_is_object J v \<or> v = j_null J \<longrightarrow>
        j_is_object J (j_set J k w v) \<and>
        j_contains J (j_set J k w v) k' = (k' = k \<or> j_contains J v k') \<and>
        (j_contains J (j_set J k w v) k' \<longrightarrow>
           j_at J (j_set J k w v) k' = (if k' = k then Some w else j_at J v k'))))"

definition law_value :: "('j, 'z) jlib_scheme \<Rightarrow> bool" where
  "law_value J =
     (\<forall>v k. j_is_object J v \<longrightarrow>
        (\<forall>d. j_value_str J v k d =
           (if j_contains J v k then Option.bind (j_at J v k) (j_get_str J) else Some d)))"

definition law_value_int :: "('j, 'z) jlib_scheme \<Rightarrow> bool" where
  "law_value_int J =
     (\<forall>v k d. j_is_object J v \<longrightarrow>
        j_value_int J v k d =
          (if j_contains J v k then Option.bind (j_at J v k) (j_get_int J) else Some d))"

definition law_strings :: "('j, 'z) jlib_scheme \<Rightarrow> bool" where
  "law_strings J = (\<forall>s. j_get_str J (j_string J s) = Some s \<and> j_is_string J (j_string J s))"

definition law_arrays :: "('j, 'z) jlib_scheme \<Rightarrow> bool" where
  "law_arrays J = (\<forall>vs. j_elems J (j_array J vs) = vs \<and> j_is_array J (j_array J vs))"

definition law_null :: "('j, 'z) jlib_scheme \<Rightarrow> bool" where
  "law_null J =
     ((\<forall>v. j_is_null J v = (v = j_null J)) \<and> (\<forall>v. j_is_object J v \<longrightarrow> \<not> j_is_array J v) \<and>
      (\<forall>vs. \<not> j_is_object J (j_array J vs)) \<and> \<not> j_is_array J (j_null J))"

definition law_ints :: "('j, 'z) jlib_scheme \<Rightarrow> bool" where
  "law_ints J =
     (\<forall>i. j_is_number J (j_int J i) \<and> \<not> j_is_string J (j_int J i) \<and>
        (- (2 ^ 31) \<le> i \<and> i < 2 ^ 31 \<longrightarrow> j_get_int J (j_int J i) = Some i))"

definition law_bools :: "('j, 'z) jlib_scheme \<Rightarrow> bool" where
  "law_bools J = (\<forall>b. j_get_bool J (j_bool J b) = Some b \<and> j_is_bool J (j_bool J b))"

text \<open>Floating-point numbers are finite here, and read back as they were written.\<close>

definition law_doubles :: "('j, 'z) jlib_scheme \<Rightarrow> bool" where
  "law_doubles J =
     ((\<forall>x. j_get_double J (j_double J x) = Some x) \<and>
      (\<forall>v k d. j_is_object J v \<longrightarrow>
        j_value_double J v k d =
          (if j_contains J v k then Option.bind (j_at J v k) (j_get_double J) else Some d)))"

text \<open>On a value that is no object, \<open>null\<close> included, \<open>value\<close> throws; a member that is missing
  reads as \<open>null\<close>.\<close>

definition law_absent :: "('j, 'z) jlib_scheme \<Rightarrow> bool" where
  "law_absent J =
     ((\<forall>v k d. \<not> j_is_object J v \<longrightarrow> j_value_str J v k d = None) \<and>
      (\<forall>v k b. \<not> j_is_object J v \<longrightarrow> j_value_bool J v k b = None \<and> \<not> j_contains J v k) \<and>
      \<not> j_is_object J (j_null J) \<and>
      (\<forall>v k. j_is_object J v \<and> \<not> j_contains J v k \<longrightarrow> j_at J v k = Some (j_null J)))"

section \<open>Members of an object that is being built\<close>

text \<open>Assignments keep a value an object or \<open>null\<close>, and are read back.\<close>

definition settable :: "('j, 'z) jlib_scheme \<Rightarrow> 'j \<Rightarrow> bool" where
  "settable J v = (j_is_object J v \<or> v = j_null J)"

lemma set_members:
  assumes "law_set J"
  shows "settable J (j_null J)" and "\<not> j_contains J (j_null J) k"
    and "settable J v \<Longrightarrow> settable J (j_set J k w v)"
    and "settable J v \<Longrightarrow> j_is_object J (j_set J k w v)"
    and "settable J v \<Longrightarrow> j_contains J (j_set J k w v) k' = (k' = k \<or> j_contains J v k')"
    and "settable J v \<Longrightarrow> k' = k \<or> j_contains J v k' \<Longrightarrow>
      j_at J (j_set J k w v) k' = (if k' = k then Some w else j_at J v k')"
proof -
  from assms have set: "j_is_object J (j_set J k w v)"
      "j_contains J (j_set J k w v) k' = (k' = k \<or> j_contains J v k')"
      "j_contains J (j_set J k w v) k' \<longrightarrow>
         j_at J (j_set J k w v) k' = (if k' = k then Some w else j_at J v k')"
    if "settable J v" for v k w k'
    using that unfolding law_set_def settable_def by blast+
  show "settable J (j_null J)" by (simp add: settable_def)
  show "\<not> j_contains J (j_null J) k" using assms by (simp add: law_set_def)
  assume v: "settable J v"
  show "settable J (j_set J k w v)" "j_is_object J (j_set J k w v)"
    using set(1) [OF v] by (simp_all add: settable_def)
  show "j_contains J (j_set J k w v) k' = (k' = k \<or> j_contains J v k')" by (rule set(2) [OF v])
  then show "k' = k \<or> j_contains J v k' \<Longrightarrow>
      j_at J (j_set J k w v) k' = (if k' = k then Some w else j_at J v k')"
    using set(3) [OF v] by blast
qed

text \<open>An object that is built by assigning one member after the other.\<close>

definition obj_from :: "('j, 'z) jlib_scheme \<Rightarrow> (string \<times> 'j) list \<Rightarrow> 'j" where
  "obj_from J kvs = foldl (\<lambda>v kv. j_set J (fst kv) (snd kv) v) (j_null J) kvs"

lemma foldl_set_members:
  assumes "law_set J" and "settable J v" and "distinct (map fst kvs)"
  defines "w \<equiv> foldl (\<lambda>v kv. j_set J (fst kv) (snd kv) v) v kvs"
  shows "settable J w \<and> (kvs \<noteq> [] \<longrightarrow> j_is_object J w) \<and>
    (j_contains J w k = (map_of kvs k \<noteq> None \<or> j_contains J v k)) \<and>
    (\<forall>x. map_of kvs k = Some x \<longrightarrow> j_at J w k = Some x) \<and>
    (map_of kvs k = None \<and> j_contains J v k \<longrightarrow> j_at J w k = j_at J v k)"
  using assms(2,3) unfolding w_def
proof (induction kvs arbitrary: v)
  case (Cons kv kvs)
  note set = set_members(3-6) [OF assms(1), where k = "fst kv" and w = "snd kv"]
  have "map_of kvs (fst kv) = None"
    using Cons.prems(2) by (simp add: map_of_eq_None_iff)
  with Cons.IH [OF set(1) [OF Cons.prems(1)]] Cons.prems set(2-4) show ?case
    by (cases kv; cases kvs) auto
qed simp

lemma obj_members:
  assumes "law_set J" and "distinct (map fst kvs)"
  shows "j_contains J (obj_from J kvs) k = (map_of kvs k \<noteq> None)"
    and "map_of kvs k \<noteq> None \<Longrightarrow> j_at J (obj_from J kvs) k = map_of kvs k"
    and "kvs \<noteq> [] \<Longrightarrow> j_is_object J (obj_from J kvs)"
  using foldl_set_members [OF assms(1) set_members(1) [OF assms(1)] assms(2)] set_members(2) [OF assms(1)]
  by (auto simp: obj_from_def)

text \<open>An object built from members is printed if each of them is.\<close>

lemma printableD:
  assumes "law_printable J"
  shows "j_printable J (j_string J s) = utf8 s" and "j_printable J (j_int J i)"
    and "j_printable J (j_double J x)" and "j_printable J (j_bool J b)" and "j_printable J (j_null J)"
    and "j_printable J (j_array J vs) = list_all (j_printable J) vs"
    and "distinct (map fst ps) \<Longrightarrow>
      j_printable J (j_object J ps) = list_all (\<lambda>(k, v). utf8 k \<and> j_printable J v) ps"
    and "settable J v \<Longrightarrow> \<not> j_contains J v k \<Longrightarrow>
      j_printable J (j_set J k w v) = (utf8 k \<and> j_printable J w \<and> j_printable J v)"
    and "j_parse J raw = Inr v \<Longrightarrow> j_printable J v"
    and "j_printable J v \<Longrightarrow> list_all (j_printable J) (j_elems J v)"
  using assms by (simp_all add: law_printable_def settable_def)

lemma obj_printable_foldl:
  assumes "law_set J" and "law_printable J" and "settable J v" and "distinct (map fst kvs)"
    and "\<forall>k\<in>fst ` set kvs. \<not> j_contains J v k"
  shows "j_printable J (foldl (\<lambda>v kv. j_set J (fst kv) (snd kv) v) v kvs) =
    (list_all (\<lambda>(k, v). utf8 k \<and> j_printable J v) kvs \<and> j_printable J v)"
  using assms(3-5)
proof (induction kvs arbitrary: v)
  case (Cons kv kvs)
  let ?w = "j_set J (fst kv) (snd kv) v"
  from Cons.prems(1) have w: "settable J ?w" "j_contains J ?w k = (k = fst kv \<or> j_contains J v k)" for k
    by (rule set_members(3,5) [OF assms(1)])+
  have "j_printable J ?w = (utf8 (fst kv) \<and> j_printable J (snd kv) \<and> j_printable J v)"
    by (rule printableD(8) [OF assms(2)]) (use Cons.prems in simp_all)
  moreover from Cons.prems(2) have fresh: "fst kv \<notin> fst ` set kvs" by simp
  have "\<forall>k\<in>fst ` set kvs. \<not> j_contains J ?w k"
  proof
    fix k assume k: "k \<in> fst ` set kvs"
    with fresh have "k \<noteq> fst kv" by blast
    moreover from k Cons.prems(3) have "\<not> j_contains J v k" by auto
    ultimately show "\<not> j_contains J ?w k" by (simp add: w(2))
  qed
  then have "j_printable J (foldl (\<lambda>v kv. j_set J (fst kv) (snd kv) v) ?w kvs) =
      (list_all (\<lambda>(k, v). utf8 k \<and> j_printable J v) kvs \<and> j_printable J ?w)"
    by (intro Cons.IH w(1)) (use Cons.prems(2) in simp_all)
  ultimately show ?case by (cases kv) auto
qed simp

lemma obj_printable:
  assumes "law_set J" and "law_printable J" and "distinct (map fst kvs)"
  shows "j_printable J (obj_from J kvs) = list_all (\<lambda>(k, v). utf8 k \<and> j_printable J v) kvs"
  using obj_printable_foldl [OF assms(1,2) set_members(1) [OF assms(1)] assms(3)]
    set_members(2) [OF assms(1)] printableD(5) [OF assms(2)]
  by (simp add: obj_from_def)

end
