(* ===== verification/Message.thy ===== *)
theory Message
  imports Json
begin

text \<open>
  The data of the conversation, \<open>src/engine/message.h\<close> and \<open>message.cpp\<close>: roles, token
  usage, tool calls and results, content blocks, messages, stream events, the options and the
  response of a query, with the builders and accessors of the two files.

  \<open>int64_t\<close> counters are 64-bit words. A time point is an \<open>int\<close> (ticks of
  \<open>system_clock\<close>); the builders read the clock, which is their argument \<open>now\<close>. A
  \<open>double\<close> is a rational number.
\<close>

section \<open>Enumerations\<close>

datatype message_role = System | User | Assistant | Tool

datatype tool_result_status = Success | Error_Status | Cancelled

datatype block_type = Text | ToolUse | ToolResult_Block | Thinking | Image

datatype stream_event_type =
    MessageStart | MessageDelta | MessageStop
  | ContentBlockStart | ContentBlockDelta | ContentBlockStop
  | ToolUseStart | ToolUseDelta | ToolUseStop
  | ThinkingDelta
  | Error_Event

datatype thinking_config = Disabled | Enabled | BudgetTokens

text \<open>An \<open>enum class\<close> converts to its position; roles are ordered by it.\<close>

fun role_value :: "message_role \<Rightarrow> nat" where
  "role_value System = 0"
| "role_value User = 1"
| "role_value Assistant = 2"
| "role_value Tool = 3"

instantiation message_role :: linorder
begin

definition less_eq_message_role :: "message_role \<Rightarrow> message_role \<Rightarrow> bool" where
  "less_eq_message_role a b = (role_value a \<le> role_value b)"

definition less_message_role :: "message_role \<Rightarrow> message_role \<Rightarrow> bool" where
  "less_message_role a b = (role_value a < role_value b)"

instance
proof
  fix a b c :: message_role
  show "a < b \<longleftrightarrow> a \<le> b \<and> \<not> b \<le> a"
    by (auto simp: less_message_role_def less_eq_message_role_def)
  show "a \<le> a" by (simp add: less_eq_message_role_def)
  show "a \<le> b \<Longrightarrow> b \<le> c \<Longrightarrow> a \<le> c" by (simp add: less_eq_message_role_def)
  show "a \<le> b \<Longrightarrow> b \<le> a \<Longrightarrow> a = b"
    by (cases a; cases b) (simp_all add: less_eq_message_role_def)
  show "a \<le> b \<or> b \<le> a" by (auto simp: less_eq_message_role_def)
qed

end

section \<open>Token usage\<close>

record token_usage =
  input_tokens :: "64 word"
  output_tokens :: "64 word"
  cache_creation_input_tokens :: "64 word"
  cache_read_input_tokens :: "64 word"

definition no_usage :: token_usage where
  "no_usage = \<lparr>input_tokens = 0, output_tokens = 0, cache_creation_input_tokens = 0,
     cache_read_input_tokens = 0\<rparr>"

definition total_input :: "token_usage \<Rightarrow> 64 word" where
  "total_input u = input_tokens u + cache_creation_input_tokens u + cache_read_input_tokens u"

definition usage_total :: "token_usage \<Rightarrow> 64 word" where
  "usage_total u = total_input u + output_tokens u"

definition word_to_string :: "64 word \<Rightarrow> string" where
  "word_to_string w = int_to_string (sint w)"

definition usage_to_string :: "token_usage \<Rightarrow> string" where
  "usage_to_string u =
     ''input='' @ word_to_string (input_tokens u)
     @ '' cache_read='' @ word_to_string (cache_read_input_tokens u)
     @ '' cache_write='' @ word_to_string (cache_creation_input_tokens u)
     @ '' output='' @ word_to_string (output_tokens u)
     @ '' total='' @ word_to_string (usage_total u)"

section \<open>Tool calls, results and content blocks\<close>

record tool_call =
  tc_id :: string
  tc_name :: string
  tc_input_json :: string

record tool_result =
  tr_tool_use_id :: string
  tr_status :: tool_result_status
  tr_content :: string
  tr_is_error :: bool

record content_block =
  cb_type :: block_type
  cb_text :: string
  cb_tool_call :: tool_call
  cb_tool_result :: tool_result
  cb_thinking :: string
  cb_image_url :: string

definition empty_tool_call :: tool_call where
  "empty_tool_call = \<lparr>tc_id = [], tc_name = [], tc_input_json = []\<rparr>"

definition empty_tool_result :: tool_result where
  "empty_tool_result =
     \<lparr>tr_tool_use_id = [], tr_status = Success, tr_content = [], tr_is_error = False\<rparr>"

definition empty_block :: content_block where
  "empty_block = \<lparr>cb_type = Text, cb_text = [], cb_tool_call = empty_tool_call,
     cb_tool_result = empty_tool_result, cb_thinking = [], cb_image_url = []\<rparr>"

definition make_text :: "string \<Rightarrow> content_block" where
  "make_text t = empty_block\<lparr>cb_type := Text, cb_text := t\<rparr>"

section \<open>Messages\<close>

record message =
  msg_id :: string
  msg_role :: message_role
  msg_content :: "content_block list"
  msg_usage :: token_usage
  msg_model :: string
  msg_timestamp :: int

text \<open>
  \<open>Message m;\<close> leaves \<open>role\<close> uninitialised: the value it happens to hold is the argument.
  \<open>Message{}\<close> zero-initialises it: \<open>blank_message System\<close>.
\<close>

definition blank_message :: "message_role \<Rightarrow> message" where
  "blank_message r = \<lparr>msg_id = [], msg_role = r, msg_content = [], msg_usage = no_usage,
     msg_model = [], msg_timestamp = 0\<rparr>"

definition make_text_block :: "string \<Rightarrow> content_block" where
  "make_text_block t = empty_block\<lparr>cb_type := Text, cb_text := t\<rparr>"

definition message_system :: "int \<Rightarrow> string \<Rightarrow> message" where
  "message_system now t =
     (blank_message System)\<lparr>msg_content := [make_text_block t], msg_timestamp := now\<rparr>"

definition message_user :: "int \<Rightarrow> string \<Rightarrow> message" where
  "message_user now t =
     (blank_message User)\<lparr>msg_content := [make_text_block t], msg_timestamp := now\<rparr>"

definition message_assistant :: "int \<Rightarrow> string \<Rightarrow> string \<Rightarrow> message" where
  "message_assistant now t model_id =
     (blank_message Assistant)\<lparr>msg_content := [make_text_block t], msg_model := model_id,
        msg_timestamp := now\<rparr>"

definition message_tool_result :: "int \<Rightarrow> string \<Rightarrow> string \<Rightarrow> bool \<Rightarrow> message" where
  "message_tool_result now tool_use_id content is_error =
     (let r = empty_tool_result\<lparr>tr_tool_use_id := tool_use_id, tr_content := content,
            tr_is_error := is_error,
            tr_status := (if is_error then Error_Status else Success)\<rparr>;
          block = empty_block\<lparr>cb_type := ToolResult_Block, cb_tool_result := r\<rparr>
      in (blank_message User)\<lparr>msg_content := [block], msg_timestamp := now\<rparr>)"

definition text_content :: "message \<Rightarrow> string" where
  "text_content m = foldl (\<lambda>r b. if cb_type b = Text then r @ cb_text b else r) [] (msg_content m)"

definition tool_calls :: "message \<Rightarrow> tool_call list" where
  "tool_calls m =
     foldl (\<lambda>cs b. if cb_type b = ToolUse then cs @ [cb_tool_call b] else cs) [] (msg_content m)"

section \<open>Events, options and responses\<close>

record stream_event =
  ev_type :: stream_event_type
  ev_data :: string
  ev_message :: "message option"
  ev_content_block :: "content_block option"
  ev_delta_text :: "string option"
  ev_usage_delta :: "token_usage option"
  ev_error_message :: "string option"
  ev_stop_reason :: "string option"

record system_prompt =
  sys_content :: string
  sys_cache_control :: "64 word option"

record model_config =
  model_id :: string
  max_tokens :: "64 word"
  thinking :: thinking_config
  thinking_budget :: "64 word"
  temperature :: rat
  top_k :: int
  top_p :: int

record 'j query_options =
  qo_model :: model_config
  qo_system_prompts :: "system_prompt list"
  qo_messages :: "message list"
  qo_stop_sequences :: "string list"
  qo_stream :: bool
  qo_tools_json :: "'j"

record query_response =
  qr_message :: message
  qr_usage :: token_usage
  qr_stopped_by_tool :: bool
  qr_stop_reason :: string

text \<open>\<open>duration_ms\<close> is left out of the response: it is only measured and displayed.\<close>

definition blank_response :: "message_role \<Rightarrow> query_response" where
  "blank_response r = \<lparr>qr_message = blank_message r, qr_usage = no_usage,
     qr_stopped_by_tool = False, qr_stop_reason = []\<rparr>"

definition query_debug_string :: "('j, 'z) jlib_scheme \<Rightarrow> 'j query_options \<Rightarrow> string" where
  "query_debug_string J q =
     ''model='' @ model_id (qo_model q)
     @ '' max_tokens='' @ word_to_string (max_tokens (qo_model q))
     @ '' messages='' @ nat_to_string (length (qo_messages q))
     @ '' tools='' @ (if j_is_array J (qo_tools_json q)
                      then nat_to_string (length (j_elems J (qo_tools_json q))) else ''0'')
     @ '' stream='' @ (if qo_stream q then ''true'' else ''false'')"

record session_config =
  sc_session_id :: string
  sc_working_directory :: string
  sc_additional_directories :: "string list"
  sc_model :: model_config
  sc_permission_mode :: string
  sc_theme :: string

section \<open>Accessors as comprehensions\<close>

lemma foldl_append_if:
  "foldl (\<lambda>r b. if P b then r @ f b else r) acc bs = acc @ concat (map f (filter P bs))"
  by (induction bs arbitrary: acc) auto

lemma text_content_eq:
  "text_content m = concat (map cb_text (filter (\<lambda>b. cb_type b = Text) (msg_content m)))"
  by (simp add: text_content_def foldl_append_if)

lemma tool_calls_eq:
  "tool_calls m = map cb_tool_call (filter (\<lambda>b. cb_type b = ToolUse) (msg_content m))"
  unfolding tool_calls_def
  using foldl_append_if [of "\<lambda>b. cb_type b = ToolUse" "\<lambda>b. [cb_tool_call b]" "[]"]
  by (simp add: concat_map_singleton)

lemma tool_calls_append [simp]:
  "tool_calls (m\<lparr>msg_content := xs @ ys\<rparr>) =
     tool_calls (m\<lparr>msg_content := xs\<rparr>) @ tool_calls (m\<lparr>msg_content := ys\<rparr>)"
  by (simp add: tool_calls_eq)

lemma make_text_fields [simp]: "cb_type (make_text t) = Text" "cb_text (make_text t) = t"
  by (simp_all add: make_text_def)

text \<open>The builders, read back by the accessors.\<close>

lemma message_builders:
  "text_content (message_user now t) = t \<and> msg_role (message_user now t) = User \<and>
   text_content (message_system now t) = t \<and> msg_role (message_system now t) = System \<and>
   text_content (message_assistant now t md) = t \<and> msg_model (message_assistant now t md) = md \<and>
   (let m = message_tool_result now i t err; r = cb_tool_result (hd (msg_content m)) in
      msg_role m = User \<and> length (msg_content m) = 1 \<and> tool_calls m = [] \<and> text_content m = [] \<and>
      tr_tool_use_id r = i \<and> tr_content r = t \<and> tr_is_error r = err \<and>
      (tr_status r = Error_Status) = err)"
  by (simp add: message_user_def message_system_def message_assistant_def
      message_tool_result_def text_content_def tool_calls_def make_text_block_def
      blank_message_def empty_block_def Let_def)

end
