(* ===== verification/Stream_Parser.thy ===== *)
theory Stream_Parser
  imports Message
begin

text \<open>
  \<open>src/engine/stream_parser.h\<close> and \<open>stream_parser.cpp\<close>: the parser the query engine feeds
  with the events of a response, and the same accumulation done by \<open>StreamingContext\<close> of
  \<open>src/api/anthropic_client.cpp\<close> to build the response it returns. \<open>current_block_\<close> is a
  pointer into \<open>message_.content\<close>: an index here.
\<close>

section \<open>StreamParser\<close>

record stream_parser =
  sp_message :: message
  sp_stop_reason :: string
  sp_usage :: token_usage
  sp_complete :: bool
  sp_current_block :: "nat option"
  sp_tool_input_buffer :: string
  sp_block_index :: int

text \<open>A new parser, \<open>r\<close> being the uninitialised role of its message, and \<open>reset\<close>.\<close>

definition new_parser :: "message_role \<Rightarrow> stream_parser" where
  "new_parser r = \<lparr>sp_message = blank_message r, sp_stop_reason = [], sp_usage = no_usage,
     sp_complete = False, sp_current_block = None, sp_tool_input_buffer = [],
     sp_block_index = -1\<rparr>"

definition parser_reset :: "stream_parser \<Rightarrow> stream_parser" where
  "parser_reset s = s\<lparr>sp_message := blank_message System, sp_stop_reason := [],
     sp_usage := no_usage, sp_complete := False, sp_current_block := None,
     sp_tool_input_buffer := [], sp_block_index := -1\<rparr>"

definition sp_content :: "stream_parser \<Rightarrow> content_block list" where
  "sp_content s = msg_content (sp_message s)"

definition set_content :: "content_block list \<Rightarrow> stream_parser \<Rightarrow> stream_parser" where
  "set_content bs s = s\<lparr>sp_message := (sp_message s)\<lparr>msg_content := bs\<rparr>\<rparr>"

text \<open>Writing through \<open>current_block_\<close>.\<close>

definition write_block ::
  "nat \<Rightarrow> (content_block \<Rightarrow> content_block) \<Rightarrow> stream_parser \<Rightarrow> stream_parser" where
  "write_block i f s = set_content ((sp_content s)[i := f (sp_content s ! i)]) s"

definition start_block :: "content_block \<Rightarrow> stream_parser \<Rightarrow> stream_parser" where
  "start_block b s =
     (let s1 = set_content (sp_content s @ [b]) s;
          s2 = s1\<lparr>sp_block_index := int (length (sp_content s1)) - 1,
                  sp_current_block := Some (length (sp_content s1) - 1)\<rparr>
      in if cb_type b = ToolUse then s2\<lparr>sp_tool_input_buffer := []\<rparr> else s2)"

definition delta_block :: "string option \<Rightarrow> stream_parser \<Rightarrow> stream_parser" where
  "delta_block delta s =
     (case sp_current_block s of
        None \<Rightarrow> s
      | Some i \<Rightarrow>
          (case (cb_type (sp_content s ! i), delta) of
             (Text, Some d) \<Rightarrow> write_block i (\<lambda>b. b\<lparr>cb_text := cb_text b @ d\<rparr>) s
           | (Thinking, Some d) \<Rightarrow> write_block i (\<lambda>b. b\<lparr>cb_thinking := cb_thinking b @ d\<rparr>) s
           | (ToolUse, Some d) \<Rightarrow> s\<lparr>sp_tool_input_buffer := sp_tool_input_buffer s @ d\<rparr>
           | _ \<Rightarrow> s))"

definition set_input_json :: "string \<Rightarrow> content_block \<Rightarrow> content_block" where
  "set_input_json j b = b\<lparr>cb_tool_call := (cb_tool_call b)\<lparr>tc_input_json := j\<rparr>\<rparr>"

definition stop_block :: "stream_parser \<Rightarrow> stream_parser" where
  "stop_block s =
     (let s1 = (case sp_current_block s of
                  Some i \<Rightarrow>
                    if cb_type (sp_content s ! i) = ToolUse
                    then (write_block i (set_input_json (sp_tool_input_buffer s)) s)
                           \<lparr>sp_tool_input_buffer := []\<rparr>
                    else s
                | None \<Rightarrow> s)
      in s1\<lparr>sp_current_block := None, sp_block_index := -1\<rparr>)"

definition feed_event :: "stream_parser \<Rightarrow> stream_event \<Rightarrow> stream_parser" where
  "feed_event s e =
     (case ev_type e of
        MessageStart \<Rightarrow>
          (case ev_message e of
             None \<Rightarrow> s
           | Some m \<Rightarrow> s\<lparr>sp_message := (sp_message s)\<lparr>msg_id := msg_id m, msg_model := msg_model m,
                                       msg_usage := msg_usage m\<rparr>\<rparr>)
      | MessageDelta \<Rightarrow>
          (let s1 = (case ev_usage_delta e of
                       None \<Rightarrow> s
                     | Some u \<Rightarrow> s\<lparr>sp_usage := (sp_usage s)
                         \<lparr>output_tokens := output_tokens (sp_usage s) + output_tokens u\<rparr>\<rparr>)
           in case ev_stop_reason e of
                Some r \<Rightarrow> if r \<noteq> [] then s1\<lparr>sp_stop_reason := r\<rparr> else s1
              | None \<Rightarrow> s1)
      | MessageStop \<Rightarrow>
          s\<lparr>sp_complete := True, sp_message := (sp_message s)\<lparr>msg_usage := sp_usage s\<rparr>\<rparr>
      | ContentBlockStart \<Rightarrow>
          (case ev_content_block e of None \<Rightarrow> s | Some b \<Rightarrow> start_block b s)
      | ContentBlockDelta \<Rightarrow> delta_block (ev_delta_text e) s
      | ContentBlockStop \<Rightarrow> stop_block s
      | Error_Event \<Rightarrow>
          (case ev_error_message e of
             None \<Rightarrow> s
           | Some m \<Rightarrow> s\<lparr>sp_complete := True, sp_stop_reason := ''error''\<rparr>)
      | _ \<Rightarrow> s)"

definition has_tool_calls :: "stream_parser \<Rightarrow> bool" where
  "has_tool_calls s = list_ex (\<lambda>b. cb_type b = ToolUse) (sp_content s)"

definition get_tool_calls :: "stream_parser \<Rightarrow> tool_call list" where
  "get_tool_calls s = tool_calls (sp_message s)"

definition text_output :: "stream_parser \<Rightarrow> string" where
  "text_output s = text_content (sp_message s)"

definition thinking_output :: "stream_parser \<Rightarrow> string" where
  "thinking_output s =
     foldl (\<lambda>r b. if cb_type b = Thinking then r @ cb_thinking b else r) [] (sp_content s)"

section \<open>Invariant\<close>

text \<open>
  The pointer, when not null, is the last block of the message, and the index field agrees with
  it; so no write through it is out of range.
\<close>

definition parser_ok :: "stream_parser \<Rightarrow> bool" where
  "parser_ok s =
     (case sp_current_block s of
        None \<Rightarrow> sp_block_index s = -1
      | Some i \<Rightarrow> Suc i = length (sp_content s) \<and> sp_block_index s = int i)"

lemma content_set_content [simp]: "sp_content (set_content bs s) = bs"
  by (simp add: sp_content_def set_content_def)

lemma set_content_fields [simp]:
  "sp_current_block (set_content bs s) = sp_current_block s"
  "sp_block_index (set_content bs s) = sp_block_index s"
  "sp_tool_input_buffer (set_content bs s) = sp_tool_input_buffer s"
  "sp_usage (set_content bs s) = sp_usage s"
  "sp_stop_reason (set_content bs s) = sp_stop_reason s"
  "sp_complete (set_content bs s) = sp_complete s"
  by (simp_all add: set_content_def)

lemma content_update [simp]:
  "sp_content (s\<lparr>sp_stop_reason := r\<rparr>) = sp_content s"
  "sp_content (s\<lparr>sp_usage := u\<rparr>) = sp_content s"
  "sp_content (s\<lparr>sp_complete := c\<rparr>) = sp_content s"
  "sp_content (s\<lparr>sp_current_block := p\<rparr>) = sp_content s"
  "sp_content (s\<lparr>sp_block_index := k\<rparr>) = sp_content s"
  "sp_content (s\<lparr>sp_tool_input_buffer := b\<rparr>) = sp_content s"
  "sp_content (s\<lparr>sp_message := m\<rparr>) = msg_content m"
  by (simp_all add: sp_content_def)

lemma msg_content_sp [simp]: "msg_content (sp_message s) = sp_content s"
  by (simp add: sp_content_def)

lemma start_block_fields [simp]:
  "sp_content (start_block b s) = sp_content s @ [b]"
  "sp_current_block (start_block b s) = Some (length (sp_content s))"
  "sp_block_index (start_block b s) = int (length (sp_content s))"
  "sp_tool_input_buffer (start_block b s) =
     (if cb_type b = ToolUse then [] else sp_tool_input_buffer s)"
  "sp_usage (start_block b s) = sp_usage s"
  "sp_stop_reason (start_block b s) = sp_stop_reason s"
  "sp_complete (start_block b s) = sp_complete s"
  by (simp_all add: start_block_def Let_def)

lemma parser_ok_start [keeps]: "parser_ok (start_block b s)"
  by (simp add: parser_ok_def)

lemma parser_ok_delta [keeps]: "parser_ok s \<Longrightarrow> parser_ok (delta_block d s)"
  by (auto simp: parser_ok_def delta_block_def write_block_def
      split: option.splits block_type.splits)

lemma parser_ok_stop [keeps]: "parser_ok (stop_block s)"
  by (simp add: parser_ok_def stop_block_def Let_def)

lemma parser_ok_feed [keeps]: "parser_ok s \<Longrightarrow> parser_ok (feed_event s e)"
  unfolding feed_event_def
  by (cases "ev_type e")
    (auto simp: Let_def keeps split: option.splits, auto simp: parser_ok_def split: option.splits)

lemma parser_ok_new: "parser_ok (new_parser r)" "parser_ok (parser_reset s)"
  by (simp_all add: parser_ok_def new_parser_def parser_reset_def)

interpretation parser: machine "new_parser r" feed_event parser_ok for r
  by unfold_locales (simp_all add: parser_ok_new parser_ok_feed)


section \<open>The specification: blocks closed, and at most one open\<close>

text \<open>
  What the parser computes, without the pointer and its index: the blocks that are closed, the
  open one, and the pieces of a tool's input received so far.
\<close>

record assembly =
  as_closed :: "content_block list"
  as_open :: "content_block option"
  as_args :: string
  as_stop_reason :: string
  as_output :: "64 word"
  as_complete :: bool

definition no_assembly :: assembly where
  "no_assembly = \<lparr>as_closed = [], as_open = None, as_args = [], as_stop_reason = [],
     as_output = 0, as_complete = False\<rparr>"

definition close_open :: "assembly \<Rightarrow> assembly" where
  "close_open a = (case as_open a of None \<Rightarrow> a
     | Some b \<Rightarrow> a\<lparr>as_closed := as_closed a @ [b], as_open := None\<rparr>)"

fun extend_block :: "string \<Rightarrow> content_block \<Rightarrow> content_block" where
  "extend_block d b =
     (case cb_type b of
        Text \<Rightarrow> b\<lparr>cb_text := cb_text b @ d\<rparr>
      | Thinking \<Rightarrow> b\<lparr>cb_thinking := cb_thinking b @ d\<rparr>
      | _ \<Rightarrow> b)"

definition assemble :: "assembly \<Rightarrow> stream_event \<Rightarrow> assembly" where
  "assemble a e =
     (case ev_type e of
        MessageDelta \<Rightarrow>
          a\<lparr>as_output := as_output a + (case ev_usage_delta e of None \<Rightarrow> 0 | Some u \<Rightarrow> output_tokens u),
            as_stop_reason := (case ev_stop_reason e of None \<Rightarrow> as_stop_reason a
               | Some r \<Rightarrow> if r = [] then as_stop_reason a else r)\<rparr>
      | MessageStop \<Rightarrow> a\<lparr>as_complete := True\<rparr>
      | ContentBlockStart \<Rightarrow>
          (case ev_content_block e of None \<Rightarrow> a
           | Some b \<Rightarrow> (close_open a)\<lparr>as_open := Some b,
               as_args := (if cb_type b = ToolUse then [] else as_args a)\<rparr>)
      | ContentBlockDelta \<Rightarrow>
          (case (as_open a, ev_delta_text e) of
             (Some b, Some d) \<Rightarrow>
               if cb_type b = ToolUse then a\<lparr>as_args := as_args a @ d\<rparr>
               else a\<lparr>as_open := Some (extend_block d b)\<rparr>
           | _ \<Rightarrow> a)
      | ContentBlockStop \<Rightarrow>
          (case as_open a of
             None \<Rightarrow> a
           | Some b \<Rightarrow>
               if cb_type b = ToolUse
               then (close_open (a\<lparr>as_open := Some (set_input_json (as_args a) b)\<rparr>))\<lparr>as_args := []\<rparr>
               else close_open a)
      | Error_Event \<Rightarrow>
          (case ev_error_message e of None \<Rightarrow> a
           | Some m \<Rightarrow> a\<lparr>as_complete := True, as_stop_reason := ''error''\<rparr>)
      | _ \<Rightarrow> a)"

text \<open>The abstraction of a parser state.\<close>

definition parser_abs :: "stream_parser \<Rightarrow> assembly" where
  "parser_abs s =
     \<lparr>as_closed = (if sp_current_block s = None then sp_content s else butlast (sp_content s)),
      as_open = (if sp_current_block s = None then None else Some (last (sp_content s))),
      as_args = sp_tool_input_buffer s, as_stop_reason = sp_stop_reason s,
      as_output = output_tokens (sp_usage s), as_complete = sp_complete s\<rparr>"

lemma open_block_zipper:
  assumes "parser_ok s" "sp_current_block s = Some i"
  obtains bs b where "sp_content s = bs @ [b]" "i = length bs"
  using assms by (cases "sp_content s" rule: rev_cases) (auto simp: parser_ok_def)

lemma parser_abs_delta:
  assumes "parser_ok s" "ev_type e = ContentBlockDelta"
  shows "parser_abs (delta_block (ev_delta_text e) s) = assemble (parser_abs s) e"
proof (cases "sp_current_block s")
  case None
  with assms(2) show ?thesis by (simp add: delta_block_def parser_abs_def assemble_def)
next
  case (Some i)
  with assms(1) obtain bs b where "sp_content s = bs @ [b]" "i = length bs"
    by (rule open_block_zipper)
  with Some assms(2) show ?thesis
    by (auto simp: delta_block_def parser_abs_def assemble_def write_block_def butlast_append
        split: block_type.splits option.splits)
qed

lemma parser_abs_stop:
  assumes "parser_ok s" "ev_type e = ContentBlockStop"
  shows "parser_abs (stop_block s) = assemble (parser_abs s) e"
proof (cases "sp_current_block s")
  case None
  with assms(2) show ?thesis by (simp add: stop_block_def parser_abs_def assemble_def Let_def)
next
  case (Some i)
  with assms(1) obtain bs b where "sp_content s = bs @ [b]" "i = length bs"
    by (rule open_block_zipper)
  with Some assms(2) show ?thesis
    by (simp add: stop_block_def parser_abs_def assemble_def write_block_def close_open_def Let_def)
qed

lemma parser_abs_start:
  assumes "parser_ok s" "ev_type e = ContentBlockStart" "ev_content_block e = Some b"
  shows "parser_abs (start_block b s) = assemble (parser_abs s) e"
proof (cases "sp_current_block s")
  case None
  with assms show ?thesis by (simp add: parser_abs_def assemble_def close_open_def)
next
  case (Some i)
  with assms(1) obtain bs b where "sp_content s = bs @ [b]" "i = length bs"
    by (rule open_block_zipper)
  with Some assms show ?thesis
    by (simp add: parser_abs_def assemble_def close_open_def butlast_append)
qed

lemma parser_abs_feed: "parser_ok s \<Longrightarrow> parser_abs (feed_event s e) = assemble (parser_abs s) e"
  using parser_abs_delta [of s e] parser_abs_stop [of s e] parser_abs_start [of s e]
  unfolding feed_event_def
  by (cases "ev_type e")
    (auto simp: Let_def split: option.splits, auto simp: parser_abs_def assemble_def)

lemma parser_abs_new: "parser_abs (new_parser r) = no_assembly"
  by (simp add: parser_abs_def new_parser_def no_assembly_def sp_content_def blank_message_def
      no_usage_def)

interpretation parser_sim: simulation "new_parser r" feed_event parser_ok parser_abs no_assembly
    assemble for r
  by unfold_locales (simp_all add: parser_abs_new parser_abs_feed)

text \<open>
  C4: After any sequence of events the block pointer is null or the last block of the message
  (so every write through it is in range), and what the parser holds is what the specification
  assembles from the same events: the closed blocks followed by the open one, the stop reason,
  the output tokens and the completion flag.
\<close>

theorem parser_refines_assembly:
  "parser_ok (foldl feed_event (new_parser r) es) \<and>
   parser_abs (foldl feed_event (new_parser r) es) = foldl assemble no_assembly es"
  by (simp add: parser.inv_reachable parser_sim.abs_reachable)


section \<open>Well-formed streams\<close>

text \<open>
  The events of one content block: its start, its deltas, its stop. The finished block holds
  the concatenation of the deltas, as text, as thinking, or as the input of the tool call.
\<close>

definition plain_event :: "stream_event_type \<Rightarrow> stream_event" where
  "plain_event t = \<lparr>ev_type = t, ev_data = [], ev_message = None, ev_content_block = None,
     ev_delta_text = None, ev_usage_delta = None, ev_error_message = None, ev_stop_reason = None\<rparr>"

definition block_events :: "content_block \<times> string list \<Rightarrow> stream_event list" where
  "block_events p =
     [(plain_event ContentBlockStart)\<lparr>ev_content_block := Some (fst p)\<rparr>]
     @ map (\<lambda>d. (plain_event ContentBlockDelta)\<lparr>ev_delta_text := Some d\<rparr>) (snd p)
     @ [plain_event ContentBlockStop]"

definition finished_block :: "content_block \<times> string list \<Rightarrow> content_block" where
  "finished_block p =
     (case cb_type (fst p) of
        Text \<Rightarrow> (fst p)\<lparr>cb_text := cb_text (fst p) @ concat (snd p)\<rparr>
      | Thinking \<Rightarrow> (fst p)\<lparr>cb_thinking := cb_thinking (fst p) @ concat (snd p)\<rparr>
      | ToolUse \<Rightarrow> set_input_json (concat (snd p)) (fst p)
      | _ \<Rightarrow> fst p)"

definition response_events ::
  "message \<Rightarrow> (content_block \<times> string list) list \<Rightarrow> token_usage \<Rightarrow> string \<Rightarrow> stream_event list" where
  "response_events m bs u r =
     [(plain_event MessageStart)\<lparr>ev_message := Some m\<rparr>]
     @ concat (map block_events bs)
     @ [(plain_event MessageDelta)\<lparr>ev_usage_delta := Some u, ev_stop_reason := Some r\<rparr>,
        plain_event MessageStop]"

lemma ev_plain [simp]: "ev_type (plain_event t) = t"
  "ev_content_block (plain_event t) = None" "ev_delta_text (plain_event t) = None"
  "ev_message (plain_event t) = None" "ev_usage_delta (plain_event t) = None"
  "ev_stop_reason (plain_event t) = None" "ev_error_message (plain_event t) = None"
  by (simp_all add: plain_event_def)

lemma assemble_deltas:
  assumes "as_open a = Some b"
  shows "foldl assemble a
      (map (\<lambda>d. (plain_event ContentBlockDelta)\<lparr>ev_delta_text := Some d\<rparr>) ds) =
    (if cb_type b = ToolUse then a\<lparr>as_args := as_args a @ concat ds\<rparr>
     else a\<lparr>as_open := Some (finished_block (b, ds))\<rparr>)"
  using assms
proof (induction ds arbitrary: a b)
  case Nil
  then show ?case by (auto simp: finished_block_def split: block_type.splits)
next
  case (Cons d ds)
  then show ?case
    by (cases "cb_type b") (simp_all add: assemble_def finished_block_def)
qed

lemma assemble_block:
  assumes "as_open a = None"
  shows "\<exists>x. foldl assemble a (block_events p) =
    a\<lparr>as_closed := as_closed a @ [finished_block p], as_args := x\<rparr>"
proof (cases "cb_type (fst p) = ToolUse")
  case True
  with assms have "foldl assemble a (block_events p) =
      a\<lparr>as_closed := as_closed a @ [finished_block p], as_args := []\<rparr>"
    by (simp add: block_events_def assemble_deltas assemble_def close_open_def finished_block_def)
  then show ?thesis ..
next
  case False
  then have "cb_type (finished_block p) \<noteq> ToolUse"
    by (auto simp: finished_block_def split: block_type.splits)
  with False assms have "foldl assemble a (block_events p) =
      a\<lparr>as_closed := as_closed a @ [finished_block p], as_args := as_args a\<rparr>"
    by (simp add: block_events_def assemble_deltas assemble_def close_open_def)
  then show ?thesis ..
qed

lemma assemble_blocks:
  assumes "as_open a = None"
  shows "\<exists>x. foldl assemble a (concat (map block_events ps)) =
    a\<lparr>as_closed := as_closed a @ map finished_block ps, as_args := x\<rparr>"
  using assms
proof (induction ps arbitrary: a)
  case Nil
  have "a = a\<lparr>as_closed := as_closed a @ map finished_block [], as_args := as_args a\<rparr>" by simp
  then show ?case by (metis concat.simps(1) foldl.simps(1) list.simps(8))
next
  case (Cons p ps)
  from assemble_block [OF Cons.prems] obtain x where
    x: "foldl assemble a (block_events p) =
      a\<lparr>as_closed := as_closed a @ [finished_block p], as_args := x\<rparr>" ..
  from Cons.IH [of "a\<lparr>as_closed := as_closed a @ [finished_block p], as_args := x\<rparr>"] Cons.prems
  obtain y where "foldl assemble (a\<lparr>as_closed := as_closed a @ [finished_block p], as_args := x\<rparr>)
      (concat (map block_events ps)) =
    a\<lparr>as_closed := as_closed a @ map finished_block (p # ps), as_args := y\<rparr>" by auto
  with x show ?case by auto
qed

lemma assemble_response:
  "\<exists>x. foldl assemble no_assembly (response_events m bs u r) =
    \<lparr>as_closed = map finished_block bs, as_open = None, as_args = x, as_stop_reason = r,
     as_output = output_tokens u, as_complete = True\<rparr>"
proof -
  have "foldl assemble no_assembly [(plain_event MessageStart)\<lparr>ev_message := Some m\<rparr>] = no_assembly"
    by (simp add: assemble_def)
  moreover obtain x where "foldl assemble no_assembly (concat (map block_events bs)) =
      no_assembly\<lparr>as_closed := map finished_block bs, as_args := x\<rparr>"
    using assemble_blocks [of no_assembly bs] by (auto simp: no_assembly_def)
  ultimately have "foldl assemble no_assembly (response_events m bs u r) =
    \<lparr>as_closed = map finished_block bs, as_open = None, as_args = x, as_stop_reason = r,
     as_output = output_tokens u, as_complete = True\<rparr>"
    by (simp add: response_events_def assemble_def no_assembly_def)
  then show ?thesis ..
qed

lemma parser_abs_closed: "as_open (parser_abs s) = None \<Longrightarrow> as_closed (parser_abs s) = sp_content s"
  by (auto simp: parser_abs_def split: if_splits)

text \<open>
  Fed a complete response (message start, any number of content blocks each with any
  deltas, message delta, message stop), the parser holds exactly those blocks in order, each
  with its deltas concatenated, the stop reason, the output tokens, and is complete.
\<close>

theorem parser_assembles_response:
  "let s = foldl feed_event (new_parser role) (response_events m bs u r) in
     sp_content s = map finished_block bs \<and> sp_stop_reason s = r \<and>
     output_tokens (sp_usage s) = output_tokens u \<and> sp_complete s \<and>
     sp_current_block s = None"
proof -
  let ?s = "foldl feed_event (new_parser role) (response_events m bs u r)"
  obtain x where "parser_abs ?s =
    \<lparr>as_closed = map finished_block bs, as_open = None, as_args = x, as_stop_reason = r,
     as_output = output_tokens u, as_complete = True\<rparr>"
    using assemble_response [of m bs u r] parser_sim.abs_reachable by metis
  then show ?thesis
    using parser_abs_closed [of ?s] by (auto simp: parser_abs_def Let_def split: if_splits)
qed

section \<open>The usage of a message\<close>

definition output_only :: "token_usage \<Rightarrow> bool" where
  "output_only u = (input_tokens u = 0 \<and> cache_creation_input_tokens u = 0 \<and>
     cache_read_input_tokens u = 0)"

lemma output_only_feed: "output_only (sp_usage s) \<Longrightarrow> output_only (sp_usage (feed_event s e))"
  unfolding feed_event_def
  by (cases "ev_type e")
    (auto simp: output_only_def Let_def delta_block_def stop_block_def write_block_def
      split: option.splits block_type.splits)

interpretation usage: machine "new_parser r" feed_event "\<lambda>s. output_only (sp_usage s)" for r
  by unfold_locales (simp_all add: output_only_feed,
    simp add: new_parser_def no_usage_def output_only_def)

text \<open>
  When a response ends (message stop), the usage of the assembled message counts no input
  tokens at all, whatever the message start reported: the parser's own counter replaces it, and
  only output tokens were ever added to that counter.
\<close>

theorem parser_drops_input_usage:
  "let s = foldl feed_event (new_parser r) (es @ [plain_event MessageStop]) in
     input_tokens (msg_usage (sp_message s)) = 0 \<and>
     total_input (msg_usage (sp_message s)) = 0 \<and>
     msg_usage (sp_message s) = sp_usage s"
  using usage.inv_reachable [of r es]
  by (simp add: feed_event_def output_only_def total_input_def Let_def)

end
