(* ===== verification/Json_Sample.thy ===== *)
theory Json_Sample
  imports Json "HOL-Library.AList" "HOL-Library.Countable"
begin

text \<open>
  One concrete instance of the JSON interface, with objects as association lists: it shows that
  the named laws of \<open>Json\<close> can hold together, and the witnesses of the properties that take
  the interface as an argument run on it. No property is proved for this instance only. The
  parser and the printer stay arguments.
\<close>

datatype jv = JNull | JBool bool | JInt int | JDouble rat | JStr string | JArr "jv list"
  | JObj "(string \<times> jv) list"

fun jv_obj :: "jv \<Rightarrow> (string \<times> jv) list option" where
  "jv_obj (JObj m) = Some m"
| "jv_obj _ = None"

fun jv_str :: "jv \<Rightarrow> string option" where
  "jv_str (JStr s) = Some s"
| "jv_str _ = None"

fun jv_int :: "jv \<Rightarrow> int option" where
  "jv_int (JInt i) = Some i"
| "jv_int _ = None"

fun jv_bool :: "jv \<Rightarrow> bool option" where
  "jv_bool (JBool b) = Some b"
| "jv_bool _ = None"

fun jv_double :: "jv \<Rightarrow> rat option" where
  "jv_double (JDouble x) = Some x"
| "jv_double (JInt i) = Some (of_int i)"
| "jv_double _ = None"

fun jv_elems :: "jv \<Rightarrow> jv list" where
  "jv_elems (JArr vs) = vs"
| "jv_elems _ = []"

definition jv_value :: "(jv \<Rightarrow> 'a option) \<Rightarrow> jv \<Rightarrow> string \<Rightarrow> 'a \<Rightarrow> 'a option" where
  "jv_value get v k d =
     (case jv_obj v of None \<Rightarrow> None
      | Some m \<Rightarrow> (case map_of m k of None \<Rightarrow> Some d | Some w \<Rightarrow> get w))"

fun jv_set :: "string \<Rightarrow> jv \<Rightarrow> jv \<Rightarrow> jv" where
  "jv_set k w (JObj m) = JObj (AList.update k w m)"
| "jv_set k w v = JObj [(k, w)]"

definition jv_contains :: "jv \<Rightarrow> string \<Rightarrow> bool" where
  "jv_contains v k = (case jv_obj v of None \<Rightarrow> False | Some m \<Rightarrow> map_of m k \<noteq> None)"

definition jv_at :: "jv \<Rightarrow> string \<Rightarrow> jv option" where
  "jv_at v k = (case jv_obj v of None \<Rightarrow> None
     | Some m \<Rightarrow> Some (case map_of m k of None \<Rightarrow> JNull | Some w \<Rightarrow> w))"

definition jv_is_array :: "jv \<Rightarrow> bool" where
  "jv_is_array v = (case v of JArr _ \<Rightarrow> True | _ \<Rightarrow> False)"

definition jv_is_number :: "jv \<Rightarrow> bool" where
  "jv_is_number v = (case v of JInt _ \<Rightarrow> True | JDouble _ \<Rightarrow> True | _ \<Rightarrow> False)"

definition jv_items :: "jv \<Rightarrow> (string \<times> jv) list" where
  "jv_items v = (case jv_obj v of None \<Rightarrow> [] | Some m \<Rightarrow> m)"

primrec jv_printable :: "jv \<Rightarrow> bool" where
  "jv_printable JNull = True"
| "jv_printable (JBool b) = True"
| "jv_printable (JInt i) = True"
| "jv_printable (JDouble x) = True"
| "jv_printable (JStr s) = utf8 s"
| "jv_printable (JArr vs) = list_all id (map jv_printable vs)"
| "jv_printable (JObj m) = list_all (\<lambda>(k, b). utf8 k \<and> b) (map (map_prod id jv_printable) m)"

definition sample_jlib :: "(string \<Rightarrow> string + jv) \<Rightarrow> (jv \<Rightarrow> string) \<Rightarrow> jv jlib" where
  "sample_jlib p d =
     \<lparr>j_parse = p, j_dump = d, j_printable = jv_printable, j_null = JNull, j_string = JStr, j_int = JInt, j_double = JDouble,
      j_bool = JBool, j_array = JArr, j_object = JObj, j_set = jv_set, j_contains = jv_contains,
      j_at = jv_at, j_value_str = jv_value jv_str, j_value_int = jv_value jv_int,
      j_value_bool = jv_value jv_bool, j_is_object = (\<lambda>v. jv_obj v \<noteq> None),
      j_is_array = jv_is_array, j_is_string = (\<lambda>v. jv_str v \<noteq> None), j_is_null = (\<lambda>v. v = JNull),
      j_is_number = jv_is_number, j_is_bool = (\<lambda>v. jv_bool v \<noteq> None), j_elems = jv_elems,
      j_get_str = jv_str, j_get_int = jv_int, j_get_bool = jv_bool,
      j_get_double = jv_double, j_value_double = jv_value jv_double, j_items = jv_items\<rparr>"

lemma sample_simps [simp]:
  "j_parse (sample_jlib p d) = p" "j_dump (sample_jlib p d) = d"
  "j_printable (sample_jlib p d) = jv_printable"
  "j_null (sample_jlib p d) = JNull" "j_string (sample_jlib p d) = JStr"
  "j_int (sample_jlib p d) = JInt" "j_double (sample_jlib p d) = JDouble"
  "j_bool (sample_jlib p d) = JBool" "j_array (sample_jlib p d) = JArr"
  "j_object (sample_jlib p d) = JObj" "j_set (sample_jlib p d) = jv_set"
  "j_contains (sample_jlib p d) = jv_contains" "j_at (sample_jlib p d) = jv_at"
  "j_value_str (sample_jlib p d) = jv_value jv_str"
  "j_value_int (sample_jlib p d) = jv_value jv_int"
  "j_value_bool (sample_jlib p d) = jv_value jv_bool"
  "j_is_object (sample_jlib p d) v = (jv_obj v \<noteq> None)"
  "j_is_array (sample_jlib p d) = jv_is_array"
  "j_is_string (sample_jlib p d) v = (jv_str v \<noteq> None)"
  "j_is_null (sample_jlib p d) v = (v = JNull)" "j_is_number (sample_jlib p d) = jv_is_number"
  "j_is_bool (sample_jlib p d) v = (jv_bool v \<noteq> None)"
  "j_get_double (sample_jlib p d) = jv_double" "j_value_double (sample_jlib p d) = jv_value jv_double"
  "j_get_bool (sample_jlib p d) = jv_bool" "j_items (sample_jlib p d) = jv_items"
  "j_elems (sample_jlib p d) = jv_elems" "j_get_str (sample_jlib p d) = jv_str"
  "j_get_int (sample_jlib p d) = jv_int"
  by (simp_all add: sample_jlib_def)

lemma jv_obj_set:
  "jv_obj v \<noteq> None \<or> v = JNull \<Longrightarrow>
   jv_obj (jv_set k w v) = Some (AList.update k w (case jv_obj v of None \<Rightarrow> [] | Some m \<Rightarrow> m))"
  by (cases v) auto

lemmas jv_defs = jv_contains_def jv_at_def jv_value_def jv_is_array_def jv_is_number_def jv_items_def

lemma sample_law_set: "law_set (sample_jlib p d)"
proof -
  have "jv_contains (jv_set k w v) k' = (k' = k \<or> jv_contains v k')" and
    "jv_at (jv_set k w v) k' = (if k' = k then Some w else
       if jv_obj v = None then Some JNull else jv_at v k')"
    if "jv_obj v \<noteq> None \<or> v = JNull" for v k w k'
    using that by (auto simp: jv_obj_set jv_defs update_conv' split: option.splits)
  moreover have "jv_contains v k \<Longrightarrow> jv_obj v \<noteq> None" for v k
    by (auto simp: jv_contains_def split: option.splits)
  moreover have "\<not> jv_contains JNull k" for k by (simp add: jv_contains_def)
  ultimately show ?thesis by (auto simp: law_set_def jv_obj_set)
qed

lemma sample_laws:
  "law_object (sample_jlib p d)" "law_value (sample_jlib p d)"
  "law_strings (sample_jlib p d)" "law_arrays (sample_jlib p d)" "law_absent (sample_jlib p d)"
  "law_null (sample_jlib p d)" "law_ints (sample_jlib p d)" "law_value_int (sample_jlib p d)"
  "law_bools (sample_jlib p d)" "law_doubles (sample_jlib p d)"
proof -
  have "(map_of ps k \<noteq> None) = (k \<in> fst ` set ps)" for ps :: "(string \<times> jv) list" and k
    by (metis map_of_eq_None_iff)
  then show "law_object (sample_jlib p d)"
    by (simp add: law_object_def jv_defs del: not_None_eq split: option.split)
  show "law_value (sample_jlib p d)" "law_strings (sample_jlib p d)"
    "law_arrays (sample_jlib p d)" "law_absent (sample_jlib p d)"
    by (auto simp: law_value_def law_strings_def law_arrays_def law_absent_def jv_defs
        split: option.splits)
  have "jv_is_array v \<Longrightarrow> jv_obj v = None" for v
    by (auto simp: jv_is_array_def split: jv.splits)
  then show "law_null (sample_jlib p d)"
    by (auto simp: law_null_def) (simp add: jv_is_array_def)
  show "law_ints (sample_jlib p d)" "law_value_int (sample_jlib p d)" "law_bools (sample_jlib p d)"
      "law_doubles (sample_jlib p d)"
    by (auto simp: law_ints_def law_value_int_def law_bools_def law_doubles_def jv_defs split: option.splits)
qed

lemma jv_printable_update:
  "k \<notin> fst ` set m \<Longrightarrow> jv_printable (JObj (AList.update k w m)) =
     (utf8 k \<and> jv_printable w \<and> jv_printable (JObj m))"
  by (induction m) auto

lemma sample_law_printable:
  assumes "\<And>s v. p s = Inr v \<Longrightarrow> jv_printable v"
  shows "law_printable (sample_jlib p d)"
proof -
  have set: "jv_printable (jv_set k w v) = (utf8 k \<and> jv_printable w \<and> jv_printable v)"
    if "jv_obj v \<noteq> None \<or> v = JNull" and "\<not> jv_contains v k" for v k w
  proof (cases v)
    case (JObj m)
    with that(2) have "k \<notin> fst ` set m" by (simp add: jv_contains_def map_of_eq_None_iff)
    with jv_printable_update JObj show ?thesis by simp
  qed (use that in auto)
  have elems: "jv_printable v \<Longrightarrow> list_all jv_printable (jv_elems v)" for v
    by (cases v) (simp_all add: list_all_iff)
  show ?thesis
    unfolding law_printable_def sample_simps
    using set elems assms by (auto simp: list_all_iff)
qed

text \<open>
  A printer and a parser that undoes it: the values are countable, so each has a numeral.
\<close>

instance jv :: countable
  by countable_datatype

definition coding_parse :: "string \<Rightarrow> string + jv" where
  "coding_parse s = (let v = from_nat (length s) in if jv_printable v then Inr v else Inl [])"

definition coding_jlib :: "jv jlib" where
  "coding_jlib = sample_jlib coding_parse (\<lambda>v. replicate (to_nat v) CHR ''1'')"

lemmas coding_simps = sample_simps [of coding_parse
  "\<lambda>v. replicate (to_nat v) CHR ''1''", folded coding_jlib_def]

lemma coding_laws:
  "law_parse_dump coding_jlib" "law_set coding_jlib" "law_object coding_jlib" "law_value coding_jlib"
  "law_strings coding_jlib" "law_arrays coding_jlib" "law_absent coding_jlib" "law_null coding_jlib"
  "law_ints coding_jlib" "law_value_int coding_jlib" "law_bools coding_jlib"
  "law_doubles coding_jlib" "law_printable coding_jlib"
  unfolding coding_jlib_def
  by (simp_all add: law_parse_dump_def sample_law_set sample_laws coding_parse_def,
      rule sample_law_printable) (auto simp: coding_parse_def Let_def split: if_splits)

lemma coding_parse_dump [simp]:
  "jv_printable v \<Longrightarrow> j_parse coding_jlib (j_dump coding_jlib v) = Inr v"
  using coding_laws(1) by (simp add: law_parse_dump_def coding_simps(3))

end
