(* ===== verification/Sse.thy ===== *)
theory Sse
  imports Stream_Parser Json_Sample
begin

text \<open>
  Server-sent events: \<open>SSEParser\<close> of \<open>src/api/sse_parser.h\<close> and \<open>sse_parser.cpp\<close>, and the
  streaming write callback of \<open>src/api/anthropic_client.cpp\<close> with its \<open>StreamingContext\<close>,
  which curl calls with arbitrary pieces of the response body.
\<close>

section \<open>Lines\<close>

record sse_line =
  sl_event :: string
  sl_data :: string
  sl_id :: string

definition empty_line :: sse_line where
  "empty_line = \<lparr>sl_event = [], sl_data = [], sl_id = []\<rparr>"

text \<open>\<open>line.size() > n ? line.substr(n) : ""\<close>, less one leading space.\<close>

definition field_value :: "nat \<Rightarrow> string \<Rightarrow> string" where
  "field_value n line =
     (let v = (if length line > n then drop n line else [])
      in if v \<noteq> [] \<and> hd v = CHR '' '' then tl v else v)"

definition parse_line :: "string \<Rightarrow> sse_line option" where
  "parse_line line =
     (if line = [] then None
      else if hd line = CHR '':'' then None
      else if take 6 line = ''event:'' then Some (empty_line\<lparr>sl_event := field_value 7 line\<rparr>)
      else if take 5 line = ''data:'' then Some (empty_line\<lparr>sl_data := field_value 6 line\<rparr>)
      else if take 3 line = ''id:'' then Some (empty_line\<lparr>sl_id := field_value 4 line\<rparr>)
      else None)"

section \<open>Events\<close>

definition normalize_event_type :: "string \<Rightarrow> string" where
  "normalize_event_type t = (if t = [] then ''content_block_delta'' else t)"

definition blank_event :: "string \<Rightarrow> stream_event" where
  "blank_event data = \<lparr>ev_type = Error_Event, ev_data = data, ev_message = None,
     ev_content_block = None, ev_delta_text = None, ev_usage_delta = None,
     ev_error_message = None, ev_stop_reason = None\<rparr>"

text \<open>\<open>u.value(k, 0)\<close>, converted to \<open>int64_t\<close>; \<open>j[k]\<close>; \<open>j.value(k, d)\<close>.\<close>

definition value_count :: "('j, 'z) jlib_scheme \<Rightarrow> 'j \<Rightarrow> string \<Rightarrow> cpp_exn + 64 word" where
  "value_count J u k =
     bind_exn (or_type_error (j_value_int J u k 0)) (\<lambda>i. Inr (word_of_int i))"

definition at_exn :: "('j, 'z) jlib_scheme \<Rightarrow> 'j \<Rightarrow> string \<Rightarrow> cpp_exn + 'j" where
  "at_exn J j k = or_type_error (j_at J j k)"

definition value_str :: "('j, 'z) jlib_scheme \<Rightarrow> 'j \<Rightarrow> string \<Rightarrow> string \<Rightarrow> cpp_exn + string" where
  "value_str J j k d = or_type_error (j_value_str J j k d)"

definition read_usage :: "('j, 'z) jlib_scheme \<Rightarrow> 'j \<Rightarrow> cpp_exn + token_usage" where
  "read_usage J u =
     bind_exn (value_count J u ''input_tokens'') (\<lambda>i.
     bind_exn (value_count J u ''output_tokens'') (\<lambda>ot.
     bind_exn (value_count J u ''cache_creation_input_tokens'') (\<lambda>cc.
     bind_exn (value_count J u ''cache_read_input_tokens'') (\<lambda>cr.
     Inr \<lparr>input_tokens = i, output_tokens = ot, cache_creation_input_tokens = cc,
          cache_read_input_tokens = cr\<rparr>))))"

definition read_message_start ::
  "('j, 'z) jlib_scheme \<Rightarrow> message_role \<Rightarrow> 'j \<Rightarrow> cpp_exn + message" where
  "read_message_start J junk msg =
     bind_exn (value_str J msg ''id'' []) (\<lambda>i.
     bind_exn (value_str J msg ''model'' []) (\<lambda>md.
     let m = (blank_message junk)\<lparr>msg_id := i, msg_model := md\<rparr>
     in if j_contains J msg ''usage''
        then bind_exn (at_exn J msg ''usage'') (\<lambda>u.
             bind_exn (read_usage J u) (\<lambda>us. Inr (m\<lparr>msg_usage := us\<rparr>)))
        else Inr m))"

definition read_content_block :: "('j, 'z) jlib_scheme \<Rightarrow> 'j \<Rightarrow> cpp_exn + content_block" where
  "read_content_block J cb =
     bind_exn (value_str J cb ''type'' ''text'') (\<lambda>t.
       if t = ''text'' then
         bind_exn (value_str J cb ''text'' [])
           (\<lambda>x. Inr (empty_block\<lparr>cb_type := Text, cb_text := x\<rparr>))
       else if t = ''tool_use'' then
         bind_exn (value_str J cb ''id'' []) (\<lambda>i.
         bind_exn (value_str J cb ''name'' []) (\<lambda>n.
           Inr (empty_block\<lparr>cb_type := ToolUse,
                  cb_tool_call := empty_tool_call\<lparr>tc_id := i, tc_name := n\<rparr>\<rparr>)))
       else if t = ''thinking'' then
         bind_exn (value_str J cb ''thinking'' [])
           (\<lambda>x. Inr (empty_block\<lparr>cb_type := Thinking, cb_thinking := x\<rparr>))
       else Inr empty_block)"

definition read_delta :: "('j, 'z) jlib_scheme \<Rightarrow> 'j \<Rightarrow> cpp_exn + string option" where
  "read_delta J delta =
     bind_exn (value_str J delta ''type'' ''text_delta'') (\<lambda>t.
       if t = ''text_delta'' then bind_exn (value_str J delta ''text'' []) (\<lambda>x. Inr (Some x))
       else if t = ''thinking_delta''
       then bind_exn (value_str J delta ''thinking'' []) (\<lambda>x. Inr (Some x))
       else if t = ''input_json_delta'' \<or> t = ''tool_use''
       then bind_exn (value_str J delta ''partial_json'' []) (\<lambda>x. Inr (Some x))
       else Inr None)"

definition event_of_json ::
  "('j, 'z) jlib_scheme \<Rightarrow> message_role \<Rightarrow> string \<Rightarrow> string \<Rightarrow> 'j \<Rightarrow> cpp_exn + stream_event" where
  "event_of_json J junk normalized data j =
     (let ev = blank_event data in
      if normalized = ''message_start'' then
        (let ev1 = ev\<lparr>ev_type := MessageStart\<rparr> in
         if j_contains J j ''message''
         then bind_exn (at_exn J j ''message'') (\<lambda>msg.
              bind_exn (read_message_start J junk msg) (\<lambda>m. Inr (ev1\<lparr>ev_message := Some m\<rparr>)))
         else Inr ev1)
      else if normalized = ''message_delta'' then
        (let ev1 = ev\<lparr>ev_type := MessageDelta\<rparr> in
         bind_exn
           (if j_contains J j ''usage''
            then bind_exn (at_exn J j ''usage'') (\<lambda>u.
                 bind_exn (value_count J u ''output_tokens'') (\<lambda>ot.
                   Inr (ev1\<lparr>ev_usage_delta := Some (no_usage\<lparr>output_tokens := ot\<rparr>)\<rparr>)))
            else Inr ev1)
           (\<lambda>ev2. if j_contains J j ''delta''
             then bind_exn (at_exn J j ''delta'') (\<lambda>d.
                  bind_exn (value_str J d ''stop_reason'' []) (\<lambda>sr.
                    Inr (if sr \<noteq> [] then ev2\<lparr>ev_stop_reason := Some sr\<rparr> else ev2)))
             else Inr ev2))
      else if normalized = ''message_stop'' then Inr (ev\<lparr>ev_type := MessageStop\<rparr>)
      else if normalized = ''content_block_start'' then
        (let ev1 = ev\<lparr>ev_type := ContentBlockStart\<rparr> in
         if j_contains J j ''content_block''
         then bind_exn (at_exn J j ''content_block'') (\<lambda>cb.
              bind_exn (read_content_block J cb) (\<lambda>b. Inr (ev1\<lparr>ev_content_block := Some b\<rparr>)))
         else Inr ev1)
      else if normalized = ''content_block_delta'' then
        (let ev1 = ev\<lparr>ev_type := ContentBlockDelta\<rparr> in
         if j_contains J j ''delta''
         then bind_exn (at_exn J j ''delta'') (\<lambda>d.
              bind_exn (read_delta J d) (\<lambda>t. Inr (ev1\<lparr>ev_delta_text := t\<rparr>)))
         else Inr ev1)
      else if normalized = ''content_block_stop'' then Inr (ev\<lparr>ev_type := ContentBlockStop\<rparr>)
      else if normalized = ''error'' then
        (let ev1 = ev\<lparr>ev_type := Error_Event, ev_error_message := Some ''API Error''\<rparr> in
         if j_contains J j ''error''
         then bind_exn (at_exn J j ''error'') (\<lambda>err.
              if j_is_object J err
              then bind_exn (value_str J err ''message'' ''unknown'') (\<lambda>m.
                   Inr (ev1\<lparr>ev_error_message := Some m\<rparr>))
              else Inr ev1)
         else Inr ev1)
      else Inr ev)"

text \<open>
  Only \<open>json::parse_error\<close> is caught; a \<open>json::type_error\<close> leaves the function. \<open>junk\<close> is
  the role that \<open>Message m;\<close> leaves uninitialised.
\<close>

definition parse_event ::
  "('j, 'z) jlib_scheme \<Rightarrow> message_role \<Rightarrow> string \<Rightarrow> string \<Rightarrow> cpp_exn + stream_event" where
  "parse_event J junk event_type json_data =
     (case j_parse J json_data of
        Inl what \<Rightarrow> Inr ((blank_event json_data)
          \<lparr>ev_type := Error_Event, ev_error_message := Some (''JSON parse error: '' @ what)\<rparr>)
      | Inr j \<Rightarrow> event_of_json J junk (normalize_event_type event_type) json_data j)"

text \<open>The accumulator of \<open>SSEParser\<close> for tool input.\<close>

definition accumulate_tool_input :: "string \<Rightarrow> string \<Rightarrow> string \<times> string" where
  "accumulate_tool_input delta buffer = (buffer @ delta, buffer @ delta)"

definition reset_tool_input :: "string \<Rightarrow> string" where
  "reset_tool_input buffer = []"

section \<open>The streaming context\<close>

text \<open>
  \<open>current_block\<close> points into the response's content. A \<open>push_back\<close> while it points there
  may move the vector and invalidate it: \<open>cx_stale\<close> records that, and using a stale pointer
  counts as undefined behaviour.
  \<open>cx_seen\<close> is the sequence of events the callback was called with.
\<close>

record streaming_ctx =
  cx_response :: query_response
  cx_current :: "nat option"
  cx_stale :: bool
  cx_tool_input_buffer :: string
  cx_line_buffer :: string
  cx_event_type :: string
  cx_seen :: "stream_event list"

definition new_ctx :: "query_response \<Rightarrow> streaming_ctx" where
  "new_ctx r = \<lparr>cx_response = r, cx_current = None, cx_stale = False, cx_tool_input_buffer = [],
     cx_line_buffer = [], cx_event_type = [], cx_seen = []\<rparr>"

definition cx_message :: "streaming_ctx \<Rightarrow> message" where
  "cx_message c = qr_message (cx_response c)"

definition cx_content :: "streaming_ctx \<Rightarrow> content_block list" where
  "cx_content c = msg_content (cx_message c)"

definition cx_set_message :: "message \<Rightarrow> streaming_ctx \<Rightarrow> streaming_ctx" where
  "cx_set_message m c = c\<lparr>cx_response := (cx_response c)\<lparr>qr_message := m\<rparr>\<rparr>"

definition cx_set_content :: "content_block list \<Rightarrow> streaming_ctx \<Rightarrow> streaming_ctx" where
  "cx_set_content bs c = cx_set_message ((cx_message c)\<lparr>msg_content := bs\<rparr>) c"

definition cx_write ::
  "nat \<Rightarrow> (content_block \<Rightarrow> content_block) \<Rightarrow> streaming_ctx \<Rightarrow> streaming_ctx" where
  "cx_write i f c = cx_set_content ((cx_content c)[i := f (cx_content c ! i)]) c"

definition cx_delta :: "string option \<Rightarrow> streaming_ctx \<Rightarrow> cpp_exn + streaming_ctx" where
  "cx_delta delta c =
     (case cx_current c of
        None \<Rightarrow> Inr c
      | Some i \<Rightarrow>
          if cx_stale c then Inl Undefined_Behaviour
          else (case (cb_type (cx_content c ! i), delta) of
             (Text, Some d) \<Rightarrow> Inr (cx_write i (\<lambda>b. b\<lparr>cb_text := cb_text b @ d\<rparr>) c)
           | (Thinking, Some d) \<Rightarrow> Inr (cx_write i (\<lambda>b. b\<lparr>cb_thinking := cb_thinking b @ d\<rparr>) c)
           | (ToolUse, Some d) \<Rightarrow> Inr (c\<lparr>cx_tool_input_buffer := cx_tool_input_buffer c @ d\<rparr>)
           | _ \<Rightarrow> Inr c))"

definition cx_stop :: "streaming_ctx \<Rightarrow> cpp_exn + streaming_ctx" where
  "cx_stop c =
     (case cx_current c of
        None \<Rightarrow> Inr (c\<lparr>cx_current := None, cx_stale := False\<rparr>)
      | Some i \<Rightarrow>
          if cx_stale c then Inl Undefined_Behaviour
          else Inr ((if cb_type (cx_content c ! i) = ToolUse
                     then (cx_write i (set_input_json (cx_tool_input_buffer c)) c)
                            \<lparr>cx_tool_input_buffer := []\<rparr>
                     else c)\<lparr>cx_current := None, cx_stale := False\<rparr>))"

definition apply_event :: "stream_event \<Rightarrow> streaming_ctx \<Rightarrow> cpp_exn + streaming_ctx" where
  "apply_event e c =
     (case ev_type e of
        MessageStart \<Rightarrow>
          (case ev_message e of
             None \<Rightarrow> Inr c
           | Some m \<Rightarrow> Inr (cx_set_message ((cx_message c)\<lparr>msg_id := msg_id m,
               msg_model := msg_model m, msg_usage := msg_usage m\<rparr>) c))
      | MessageDelta \<Rightarrow>
          (let r = cx_response c;
               r1 = (case ev_usage_delta e of
                       None \<Rightarrow> r
                     | Some u \<Rightarrow> r\<lparr>qr_usage := (qr_usage r)
                         \<lparr>output_tokens := output_tokens (qr_usage r) + output_tokens u\<rparr>\<rparr>);
               r2 = (case ev_stop_reason e of
                       Some sr \<Rightarrow> if sr \<noteq> [] then r1\<lparr>qr_stop_reason := sr\<rparr> else r1
                     | None \<Rightarrow> r1)
           in Inr (c\<lparr>cx_response := r2\<rparr>))
      | ContentBlockStart \<Rightarrow>
          (case ev_content_block e of
             None \<Rightarrow> Inr c
           | Some b \<Rightarrow>
               (let c1 = (cx_set_content (cx_content c @ [b]) c)
                       \<lparr>cx_current := Some (length (cx_content c)), cx_stale := False\<rparr>
                in Inr (if cb_type b = ToolUse then c1\<lparr>cx_tool_input_buffer := []\<rparr> else c1)))
      | ContentBlockDelta \<Rightarrow> cx_delta (ev_delta_text e) c
      | ContentBlockStop \<Rightarrow> cx_stop c
      | Error_Event \<Rightarrow>
          (case ev_error_message e of
             None \<Rightarrow> Inr c
           | Some m \<Rightarrow>
               (let c1 = c\<lparr>cx_response := (cx_response c)\<lparr>qr_stop_reason := ''error''\<rparr>\<rparr>
                in Inr ((cx_set_content (cx_content c1 @ [make_text m]) c1)
                          \<lparr>cx_stale := (cx_current c1 \<noteq> None)\<rparr>)))
      | _ \<Rightarrow> Inr c)"

definition process_sse_line ::
  "('j, 'z) jlib_scheme \<Rightarrow> message_role \<Rightarrow> string \<Rightarrow> streaming_ctx \<Rightarrow> cpp_exn + streaming_ctx" where
  "process_sse_line J junk line c =
     (case parse_line line of
        None \<Rightarrow> Inr c
      | Some p \<Rightarrow>
          (let c1 = (if sl_event p \<noteq> [] then c\<lparr>cx_event_type := sl_event p\<rparr> else c)
           in if sl_data p = [] then Inr c1
              else bind_exn (parse_event J junk (cx_event_type c1) (sl_data p)) (\<lambda>e.
                   bind_exn (apply_event e (c1\<lparr>cx_seen := cx_seen c1 @ [e]\<rparr>)) (\<lambda>c2.
                     Inr (c2\<lparr>cx_event_type := []\<rparr>)))))"

definition strip_cr :: "string \<Rightarrow> string" where
  "strip_cr line =
     (if line \<noteq> [] \<and> last line = CHR 0x0D then butlast line else line)"

text \<open>The loop over the complete lines of the buffer; what is left is kept for the next call.\<close>

function process_lines ::
  "('j, 'z) jlib_scheme \<Rightarrow> message_role \<Rightarrow> string \<Rightarrow> streaming_ctx \<Rightarrow> cpp_exn + streaming_ctx" where
  "process_lines J junk buf c =
     (case str_find [CHR 0x0A] buf of
        None \<Rightarrow> Inr (c\<lparr>cx_line_buffer := buf\<rparr>)
      | Some nl \<Rightarrow>
          bind_exn (process_sse_line J junk (strip_cr (take nl buf)) c)
            (process_lines J junk (drop (Suc nl) buf)))"
  by pat_completeness auto
termination
proof (relation "measure (\<lambda>(J, junk, buf, c). length buf)")
  fix J :: "('j, 'z) jlib_scheme" and junk buf c nl and x :: streaming_ctx
  assume "str_find [CHR 0x0A] buf = Some nl"
  then have "nl + length [CHR 0x0A] \<le> length buf" by (blast dest: str_find_Some)
  then show "((J, junk, drop (Suc nl) buf, x), J, junk, buf, c) \<in>
      measure (\<lambda>(J, junk, buf, c). length buf)" by simp
qed simp

declare process_lines.simps [simp del]

text \<open>The number of bytes reported to curl, and the context after the call.\<close>

definition streaming_write_callback ::
  "('j, 'z) jlib_scheme \<Rightarrow> message_role \<Rightarrow> bool \<Rightarrow> string \<Rightarrow> streaming_ctx \<Rightarrow>
   cpp_exn + (nat \<times> streaming_ctx)" where
  "streaming_write_callback J junk aborted contents c =
     (if aborted then Inr (0, c)
      else bind_exn (process_lines J junk (cx_line_buffer c @ contents) c)
             (\<lambda>c1. Inr (length contents, c1)))"


section \<open>Lines split by curl\<close>

text \<open>No event reads or writes the buffer of the partial line.\<close>

definition with_buffer :: "string \<Rightarrow> cpp_exn + streaming_ctx \<Rightarrow> cpp_exn + streaming_ctx" where
  "with_buffer x m = bind_exn m (\<lambda>c. Inr (c\<lparr>cx_line_buffer := x\<rparr>))"

lemma with_buffer_simps [simp]:
  "with_buffer x (Inl e) = Inl e" "with_buffer x (Inr c) = Inr (c\<lparr>cx_line_buffer := x\<rparr>)"
  by (simp_all add: with_buffer_def)

lemmas ctx_defs = cx_message_def cx_content_def cx_set_message_def cx_set_content_def cx_write_def

lemma apply_event_buffer:
  "apply_event e (c\<lparr>cx_line_buffer := x\<rparr>) = with_buffer x (apply_event e c)"
  unfolding apply_event_def
  by (cases "ev_type e")
    (auto simp: ctx_defs cx_delta_def cx_stop_def Let_def split: option.splits block_type.splits)

lemma buffer_last:
  "c\<lparr>cx_line_buffer := x, cx_seen := y\<rparr> = c\<lparr>cx_seen := y, cx_line_buffer := x\<rparr>"
  "c\<lparr>cx_line_buffer := x, cx_event_type := t\<rparr> = c\<lparr>cx_event_type := t, cx_line_buffer := x\<rparr>"
  by simp_all

lemma with_buffer_bind:
  "bind_exn (with_buffer x m) (\<lambda>c2. Inr (c2\<lparr>cx_event_type := t\<rparr>)) =
     with_buffer x (bind_exn m (\<lambda>c2. Inr (c2\<lparr>cx_event_type := t\<rparr>)))"
  by (cases m) (simp_all add: buffer_last)

lemma process_sse_line_buffer:
  "process_sse_line J junk l (c\<lparr>cx_line_buffer := x\<rparr>) = with_buffer x (process_sse_line J junk l c)"
proof (cases "parse_line l")
  case None
  then show ?thesis by (simp add: process_sse_line_def)
next
  case (Some p)
  define c1 where "c1 = (if sl_event p \<noteq> [] then c\<lparr>cx_event_type := sl_event p\<rparr> else c)"
  have up: "(if sl_event p \<noteq> [] then c\<lparr>cx_line_buffer := x, cx_event_type := sl_event p\<rparr>
      else c\<lparr>cx_line_buffer := x\<rparr>) = c1\<lparr>cx_line_buffer := x\<rparr>"
    by (simp add: c1_def)
  show ?thesis
    unfolding process_sse_line_def Some option.case Let_def up c1_def [symmetric]
    by (cases "parse_event J junk (cx_event_type c1) (sl_data p)")
      (simp_all add: buffer_last apply_event_buffer with_buffer_bind del: with_buffer_def)
qed

lemma process_lines_step:
  "CHR 0x0A \<notin> set l \<Longrightarrow>
   process_lines J junk (l @ CHR 0x0A # rest) c =
     bind_exn (process_sse_line J junk (strip_cr l) c) (process_lines J junk rest)"
  by (subst process_lines.simps) (simp add: str_find_char)

lemma process_lines_partial:
  "CHR 0x0A \<notin> set buf \<Longrightarrow> process_lines J junk buf c = Inr (c\<lparr>cx_line_buffer := buf\<rparr>)"
  by (subst process_lines.simps) (simp add: str_find_char_None [THEN iffD2])

text \<open>Splitting a text at its first line feed.\<close>

lemma line_cases:
  obtains "CHR 0x0A \<notin> set buf"
  | l rest where "buf = l @ CHR 0x0A # rest" "CHR 0x0A \<notin> set l"
  by (metis split_list_first)

lemma process_lines_ignores_buffer:
  "process_lines J junk buf (c\<lparr>cx_line_buffer := x\<rparr>) = process_lines J junk buf c"
proof (induction "length buf" arbitrary: buf c x rule: less_induct)
  case less
  show ?case
  proof (cases buf rule: line_cases)
    case 1
    then show ?thesis by (simp add: process_lines_partial)
  next
    case (2 l rest)
    then show ?thesis
      using less.hyps [of rest]
      by (cases "process_sse_line J junk (strip_cr l) c")
        (simp_all add: process_lines_step process_sse_line_buffer)
  qed
qed

lemma process_lines_append:
  "process_lines J junk (a @ b) c =
     bind_exn (process_lines J junk a c)
       (\<lambda>c1. process_lines J junk (cx_line_buffer c1 @ b) c1)"
proof (induction "length a" arbitrary: a c rule: less_induct)
  case less
  show ?case
  proof (cases a rule: line_cases)
    case 1
    then show ?thesis by (simp add: process_lines_partial process_lines_ignores_buffer)
  next
    case (2 l rest)
    then show ?thesis
      using less.hyps [of rest]
      by (cases "process_sse_line J junk (strip_cr l) c") (simp_all add: process_lines_step)
  qed
qed

lemma process_lines_rest:
  "process_lines J junk buf c = Inr c1 \<Longrightarrow> CHR 0x0A \<notin> set (cx_line_buffer c1)"
proof (induction "length buf" arbitrary: buf c rule: less_induct)
  case less
  show ?case
  proof (cases buf rule: line_cases)
    case 1
    with less.prems show ?thesis by (auto simp: process_lines_partial)
  next
    case (2 l rest)
    with less.prems show ?thesis
      using less.hyps [of rest] by (auto simp: process_lines_step bind_exn_Inr)
  qed
qed

text \<open>A transfer: the calls curl makes, one per piece, none of them aborted.\<close>

fun run_chunks ::
  "('j, 'z) jlib_scheme \<Rightarrow> message_role \<Rightarrow> string list \<Rightarrow> streaming_ctx \<Rightarrow>
   cpp_exn + streaming_ctx" where
  "run_chunks J junk [] c = Inr c"
| "run_chunks J junk (x # xs) c =
     bind_exn (streaming_write_callback J junk False x c) (\<lambda>r. run_chunks J junk xs (snd r))"

lemma run_chunks_lines:
  "CHR 0x0A \<notin> set (cx_line_buffer c) \<Longrightarrow>
   run_chunks J junk xs c = process_lines J junk (cx_line_buffer c @ concat xs) c"
proof (induction xs arbitrary: c)
  case Nil
  then show ?case by (simp add: process_lines_partial)
next
  case (Cons x xs)
  have "process_lines J junk (cx_line_buffer c @ concat (x # xs)) c =
      bind_exn (process_lines J junk (cx_line_buffer c @ x) c)
        (\<lambda>c1. process_lines J junk (cx_line_buffer c1 @ concat xs) c1)"
    using process_lines_append [of J junk "cx_line_buffer c @ x" "concat xs" c] by simp
  also have "\<dots> = run_chunks J junk (x # xs) c"
    by (cases "process_lines J junk (cx_line_buffer c @ x) c")
      (auto simp: streaming_write_callback_def Cons.IH process_lines_rest)
  finally show ?case ..
qed


text \<open>
  C23: However curl cuts the response body into pieces, the streaming context after the transfer
  (the response, the events passed to the callback, the partial line, or the exception) is what
  one call with the whole body gives.
\<close>

theorem stream_chunks_irrelevant:
  assumes "CHR 0x0A \<notin> set (cx_line_buffer c)"
  shows "run_chunks J junk xs c =
    bind_exn (streaming_write_callback J junk False (concat xs) c) (\<lambda>r. Inr (snd r))"
  using run_chunks_lines [OF assms, of J junk xs]
  by (cases "process_lines J junk (cx_line_buffer c @ concat xs) c")
    (simp_all add: streaming_write_callback_def)

lemma stream_chunks_irrelevant_witness:
  "let J = sample_jlib (\<lambda>s. Inr (JObj [])) (\<lambda>v. []);
       c = new_ctx (blank_response System) in
     run_chunks J System [''event: mess'', ''age_stop'', [CHR 0x0A]] c =
     bind_exn (streaming_write_callback J System False (''event: message_stop'' @ [CHR 0x0A]) c)
       (\<lambda>r. Inr (snd r))"
proof -
  let ?J = "sample_jlib (\<lambda>s. Inr (JObj [])) (\<lambda>v. [])" and ?c = "new_ctx (blank_response System)"
  have "CHR 0x0A \<notin> set (cx_line_buffer ?c)" by (simp add: new_ctx_def)
  from stream_chunks_irrelevant [OF this, of ?J System "[''event: mess'', ''age_stop'', [CHR 0x0A]]"]
  show ?thesis by (simp add: Let_def)
qed

section \<open>Frames\<close>

text \<open>An event as the server writes it, and what a context should make of a list of them.\<close>

definition sse_frame :: "string \<times> string \<Rightarrow> string" where
  "sse_frame p =
     ''event: '' @ fst p @ [CHR 0x0A] @ ''data: '' @ snd p @ [CHR 0x0A] @ [CHR 0x0A]"

definition frame_ok :: "string \<times> string \<Rightarrow> bool" where
  "frame_ok p =
     (CHR 0x0A \<notin> set (fst p) \<and> CHR 0x0D \<notin> set (fst p) \<and> (fst p \<noteq> [] \<longrightarrow> hd (fst p) \<noteq> CHR '' '') \<and>
      CHR 0x0A \<notin> set (snd p) \<and> CHR 0x0D \<notin> set (snd p) \<and> snd p \<noteq> [] \<and> hd (snd p) \<noteq> CHR '' '')"

fun apply_frames ::
  "('j, 'z) jlib_scheme \<Rightarrow> message_role \<Rightarrow> (string \<times> string) list \<Rightarrow> streaming_ctx \<Rightarrow>
   cpp_exn + streaming_ctx" where
  "apply_frames J junk [] c = Inr c"
| "apply_frames J junk (p # ps) c =
     bind_exn (parse_event J junk (fst p) (snd p)) (\<lambda>e.
     bind_exn (apply_event e (c\<lparr>cx_event_type := fst p, cx_seen := cx_seen c @ [e]\<rparr>)) (\<lambda>c1.
       apply_frames J junk ps (c1\<lparr>cx_event_type := []\<rparr>)))"

lemma field_value_space [simp]:
  "v = [] \<or> hd v \<noteq> CHR '' '' \<Longrightarrow> field_value 7 (''event: '' @ v) = v"
  "v = [] \<or> hd v \<noteq> CHR '' '' \<Longrightarrow> field_value 6 (''data: '' @ v) = v"
  by (auto simp: field_value_def Let_def numeral_eq_Suc)

lemma parse_line_event:
  "v = [] \<or> hd v \<noteq> CHR '' '' \<Longrightarrow>
   parse_line (''event: '' @ v) = Some (empty_line\<lparr>sl_event := v\<rparr>)"
  using field_value_space(1) [of v] by (simp add: parse_line_def)

lemma parse_line_data:
  "v = [] \<or> hd v \<noteq> CHR '' '' \<Longrightarrow>
   parse_line (''data: '' @ v) = Some (empty_line\<lparr>sl_data := v\<rparr>)"
  using field_value_space(2) [of v] by (simp add: parse_line_def)

lemma strip_cr_none: "CHR 0x0D \<notin> set l \<Longrightarrow> strip_cr l = l"
  by (auto simp: strip_cr_def) (metis last_in_set)

lemma process_frame:
  assumes "frame_ok p" and "cx_event_type c = []"
  shows "process_lines J junk (sse_frame p @ rest) c =
    bind_exn (parse_event J junk (fst p) (snd p)) (\<lambda>e.
    bind_exn (apply_event e (c\<lparr>cx_event_type := fst p, cx_seen := cx_seen c @ [e]\<rparr>)) (\<lambda>c1.
      process_lines J junk rest (c1\<lparr>cx_event_type := []\<rparr>)))"
proof -
  obtain t d where p: "p = (t, d)" by fastforce
  have lines: "sse_frame p @ rest =
      (''event: '' @ t) @ CHR 0x0A # (''data: '' @ d) @ CHR 0x0A # [] @ CHR 0x0A # rest"
    by (simp add: sse_frame_def p)
  have ok: "CHR 0x0A \<notin> set (''event: '' @ t)" "CHR 0x0A \<notin> set (''data: '' @ d)"
    "CHR 0x0D \<notin> set (''event: '' @ t)" "CHR 0x0D \<notin> set (''data: '' @ d)"
    "t = [] \<or> hd t \<noteq> CHR '' ''" "hd d \<noteq> CHR '' ''" "d \<noteq> []"
    using assms(1) by (auto simp: frame_ok_def p)
  have "t = [] \<Longrightarrow> c\<lparr>cx_event_type := []\<rparr> = c" using assms(2) by simp
  then have ev: "process_sse_line J junk (''event: '' @ t) c = Inr (c\<lparr>cx_event_type := t\<rparr>)"
    using parse_line_event [of t] ok by (auto simp: process_sse_line_def empty_line_def Let_def)
  have dt: "process_sse_line J junk (''data: '' @ d) (c\<lparr>cx_event_type := t\<rparr>) =
    bind_exn (parse_event J junk t d) (\<lambda>e.
    bind_exn (apply_event e (c\<lparr>cx_event_type := t, cx_seen := cx_seen c @ [e]\<rparr>)) (\<lambda>c1.
      Inr (c1\<lparr>cx_event_type := []\<rparr>)))"
    using parse_line_data [of d] ok by (simp add: process_sse_line_def empty_line_def Let_def)
  have blank: "process_sse_line J junk [] c1 = Inr c1" for c1
    by (simp add: process_sse_line_def parse_line_def)
  have nl: "process_lines J junk (CHR 0x0A # rest) = process_lines J junk rest"
    using process_lines_step [of "[]" J junk rest] by (auto simp: strip_cr_def blank)
  have "process_lines J junk (sse_frame p @ rest) c =
    bind_exn (process_sse_line J junk (''data: '' @ d) (c\<lparr>cx_event_type := t\<rparr>))
      (process_lines J junk rest)"
    unfolding lines
    by (simp only: process_lines_step ok strip_cr_none ev bind_exn_simps simp_thms append_Nil nl)
  then show ?thesis
    by (simp only: dt p bind_exn_assoc bind_exn_simps fst_conv snd_conv)
qed

lemma process_frames:
  assumes "\<forall>p\<in>set ps. frame_ok p" and "cx_event_type c = []" and "cx_line_buffer c = []"
  shows "process_lines J junk (concat (map sse_frame ps)) c = apply_frames J junk ps c"
  using assms
proof (induction ps arbitrary: c)
  case Nil
  then show ?case by (simp add: process_lines_partial)
next
  case (Cons p ps)
  have lb: "cx_line_buffer c1 = []"
    if "apply_event e (c\<lparr>cx_event_type := fst p, cx_seen := cx_seen c @ [e]\<rparr>) = Inr c1" for e c1
  proof -
    let ?c = "c\<lparr>cx_event_type := fst p, cx_seen := cx_seen c @ [e]\<rparr>"
    have "?c = ?c\<lparr>cx_line_buffer := []\<rparr>" using Cons.prems by simp
    then have "apply_event e ?c = with_buffer [] (apply_event e ?c)"
      by (metis apply_event_buffer)
    with that have "c1 = c1\<lparr>cx_line_buffer := []\<rparr>" by simp
    then have "cx_line_buffer c1 = cx_line_buffer (c1\<lparr>cx_line_buffer := []\<rparr>)" by (rule arg_cong)
    then show ?thesis by simp
  qed
  then show ?case
    using Cons by (auto simp: process_frame bind_exn_def split: sum.splits)
qed

text \<open>
  C5: A body of well-formed server-sent events, cut into pieces anywhere, makes the context
  handle exactly those events, in order: each one's data is parsed with its own event type, the
  callback sees the parsed event, and the response is updated by it; a \<open>type_error\<close> of the
  JSON library is the only thing that stops the sequence besides a dangling pointer.
\<close>

theorem stream_frames_processed:
  assumes "\<forall>p\<in>set ps. frame_ok p" and "concat chunks = concat (map sse_frame ps)"
  shows "run_chunks J junk chunks (new_ctx r) = apply_frames J junk ps (new_ctx r)"
proof -
  have c: "cx_event_type (new_ctx r) = []" "cx_line_buffer (new_ctx r) = []"
    by (simp_all add: new_ctx_def)
  then have "run_chunks J junk chunks (new_ctx r) =
      process_lines J junk (concat (map sse_frame ps)) (new_ctx r)"
    using run_chunks_lines [of "new_ctx r" J junk chunks] assms(2) by simp
  also have "\<dots> = apply_frames J junk ps (new_ctx r)"
    by (rule process_frames [OF assms(1) c])
  finally show ?thesis .
qed


lemma stream_frames_processed_witness:
  "let J = sample_jlib (\<lambda>s. Inr (JObj [])) (\<lambda>v. []) in
     run_chunks J System
       [''event: ping'' @ [CHR 0x0A] @ ''da'', ''ta: {}'' @ [CHR 0x0A, CHR 0x0A]] (new_ctx (blank_response System)) =
     apply_frames J System [(''ping'', ''{}'')] (new_ctx (blank_response System))"
proof -
  have "\<forall>p\<in>set [(''ping'', ''{}'')]. frame_ok p" by (simp add: frame_ok_def)
  moreover have "concat [''event: ping'' @ [CHR 0x0A] @ ''da'', ''ta: {}'' @ [CHR 0x0A, CHR 0x0A]] =
      concat (map sse_frame [(''ping'', ''{}'')])"
    by (simp add: sse_frame_def)
  ultimately show ?thesis
    unfolding Let_def by (rule stream_frames_processed)
qed

text \<open>
  The character after the colon of an \<open>event:\<close>, \<open>data:\<close> or \<open>id:\<close> field is dropped
  whatever it is, then one more space if there is one. A server that omits the optional space
  loses the first character of the value (\<open>event:ping\<close> is read as \<open>ing\<close>).
\<close>

theorem sse_field_drops_first:
  "let rest = (if v \<noteq> [] \<and> hd v = CHR '' '' then tl v else v) in
     parse_line (''event:'' @ c # v) = Some (empty_line\<lparr>sl_event := rest\<rparr>) \<and>
     parse_line (''data:'' @ c # v) = Some (empty_line\<lparr>sl_data := rest\<rparr>) \<and>
     parse_line (''id:'' @ c # v) = Some (empty_line\<lparr>sl_id := rest\<rparr>)"
  by (simp add: parse_line_def field_value_def Let_def numeral_eq_Suc)

section \<open>The context and the parser assemble the same response\<close>

text \<open>
  The query engine feeds a \<open>StreamParser\<close> with the events the callback sees, while the
  context updates the response it returns. They assemble the same blocks, except that an error
  event adds one to the context only, and they end with different usages in the message.
\<close>

fun apply_events :: "stream_event list \<Rightarrow> streaming_ctx \<Rightarrow> cpp_exn + streaming_ctx" where
  "apply_events [] c = Inr c"
| "apply_events (e # es) c = bind_exn (apply_event e c) (apply_events es)"

text \<open>The block an error event adds to the response of the client, and to nothing else.\<close>

definition error_blocks :: "stream_event \<Rightarrow> content_block list" where
  "error_blocks e = (if ev_type e \<noteq> Error_Event then []
     else case ev_error_message e of None \<Rightarrow> [] | Some m \<Rightarrow> [make_text m])"

text \<open>
  The blocks of the context are those of the parser with those of the errors among them: the
  marked ones of \<open>blocks\<close>.
\<close>

definition merged ::
  "content_block list \<Rightarrow> (bool \<times> content_block) list \<Rightarrow> content_block list \<Rightarrow> content_block list \<Rightarrow> bool" where
  "merged errs blocks context parser =
     (context = map snd blocks \<and> parser = map snd (filter (\<lambda>x. \<not> fst x) blocks) \<and>
      errs = map snd (filter fst blocks))"

definition same_block :: "(bool \<times> content_block) list \<Rightarrow> nat option \<Rightarrow> nat option \<Rightarrow> bool" where
  "same_block blocks context parser =
     (case (context, parser) of
        (None, None) \<Rightarrow> True
      | (Some j, Some i) \<Rightarrow> \<exists>front b. blocks = front @ [(False, b)] \<and> j = length front \<and>
          i = length (filter (\<lambda>x. \<not> fst x) front)
      | _ \<Rightarrow> False)"

definition agrees :: "content_block list \<Rightarrow> streaming_ctx \<Rightarrow> stream_parser \<Rightarrow> bool" where
  "agrees errs c s =
     ((\<exists>blocks. merged errs blocks (cx_content c) (sp_content s) \<and>
         (if cx_stale c then cx_current c \<noteq> None
          else same_block blocks (cx_current c) (sp_current_block s))) \<and>
      cx_tool_input_buffer c = sp_tool_input_buffer s \<and>
      qr_stop_reason (cx_response c) = sp_stop_reason s \<and>
      qr_usage (cx_response c) = sp_usage s \<and>
      msg_id (cx_message c) = msg_id (sp_message s) \<and>
      msg_model (cx_message c) = msg_model (sp_message s))"

lemma cx_fields [simp]:
  "cx_content (cx_set_content bs c) = bs"
  "cx_current (cx_set_content bs c) = cx_current c"
  "cx_stale (cx_set_content bs c) = cx_stale c"
  "cx_tool_input_buffer (cx_set_content bs c) = cx_tool_input_buffer c"
  "qr_stop_reason (cx_response (cx_set_content bs c)) = qr_stop_reason (cx_response c)"
  "qr_usage (cx_response (cx_set_content bs c)) = qr_usage (cx_response c)"
  "msg_id (cx_message (cx_set_content bs c)) = msg_id (cx_message c)"
  "msg_model (cx_message (cx_set_content bs c)) = msg_model (cx_message c)"
  "msg_role (cx_message (cx_set_content bs c)) = msg_role (cx_message c)"
  by (simp_all add: cx_content_def cx_set_content_def cx_set_message_def cx_message_def)

lemma cx_content_update [simp]:
  "cx_content (c\<lparr>cx_current := p\<rparr>) = cx_content c" "cx_content (c\<lparr>cx_stale := b\<rparr>) = cx_content c"
  "cx_content (c\<lparr>cx_tool_input_buffer := t\<rparr>) = cx_content c"
  "cx_message (c\<lparr>cx_current := p\<rparr>) = cx_message c" "cx_message (c\<lparr>cx_stale := b\<rparr>) = cx_message c"
  "cx_message (c\<lparr>cx_tool_input_buffer := t\<rparr>) = cx_message c"
  by (simp_all add: cx_content_def cx_message_def)

lemma set_content_message [simp]:
  "msg_id (sp_message (set_content bs s)) = msg_id (sp_message s)"
  "msg_model (sp_message (set_content bs s)) = msg_model (sp_message s)"
  "msg_role (sp_message (set_content bs s)) = msg_role (sp_message s)"
  by (simp_all add: set_content_def)

lemma agrees_write:
  assumes "agrees errs c s" and "\<not> cx_stale c" and "cx_current c = Some j" and "sp_current_block s = Some i"
  shows "agrees errs (cx_write j f c) (write_block i f s) \<and> cx_content c ! j = sp_content s ! i"
proof -
  from assms obtain front b where
    m: "merged errs (front @ [(False, b)]) (cx_content c) (sp_content s)"
    and j: "j = length front" and i: "i = length (filter (\<lambda>x. \<not> fst x) front)"
    by (auto simp: agrees_def same_block_def)
  from m have c: "cx_content c = map snd front @ [b]"
    "sp_content s = map snd (filter (\<lambda>x. \<not> fst x) front) @ [b]" "errs = map snd (filter fst front)"
    by (simp_all add: merged_def)
  have "merged errs (front @ [(False, f b)]) (cx_content (cx_write j f c)) (sp_content (write_block i f s))"
    by (simp add: merged_def c cx_write_def write_block_def i j list_update_append nth_append)
  moreover have "same_block (front @ [(False, f b)]) (Some j) (Some i)"
    by (simp add: same_block_def i j)
  ultimately show ?thesis
    using assms by (auto simp: agrees_def cx_write_def write_block_def c i j nth_append)
qed

lemma agrees_buffer:
  "agrees errs c s \<Longrightarrow> agrees errs (c\<lparr>cx_tool_input_buffer := t\<rparr>) (s\<lparr>sp_tool_input_buffer := t\<rparr>)"
  by (auto simp: agrees_def)

lemma agrees_closed:
  "agrees errs c s \<Longrightarrow> agrees errs (c\<lparr>cx_current := None, cx_stale := False\<rparr>)
     (s\<lparr>sp_current_block := None, sp_block_index := -1\<rparr>)"
  by (auto simp: agrees_def same_block_def)

lemma agrees_open:
  assumes "agrees errs c s" and "\<not> cx_stale c"
  shows "(cx_current c = None \<longleftrightarrow> sp_current_block s = None) \<and>
    (cx_current c = Some j \<longrightarrow> (\<exists>i. sp_current_block s = Some i))"
  using assms by (auto simp: agrees_def same_block_def split: option.splits)

lemma agrees_delta:
  assumes "agrees errs c s" and "cx_delta d c = Inr c'"
  shows "agrees errs c' (delta_block d s)"
proof (cases "cx_current c")
  case None
  then have "\<not> cx_stale c" using assms(1) by (auto simp: agrees_def)
  with None assms agrees_open [OF assms(1)] show ?thesis by (simp add: cx_delta_def delta_block_def)
next
  case (Some j)
  with assms(2) have fresh: "\<not> cx_stale c" by (auto simp: cx_delta_def)
  with Some agrees_open [OF assms(1)] obtain i where i: "sp_current_block s = Some i" by blast
  note w = agrees_write [OF assms(1) fresh Some i]
  have "cx_tool_input_buffer c = sp_tool_input_buffer s" using assms(1) by (simp add: agrees_def)
  with assms Some i fresh w show ?thesis
    by (cases "cb_type (sp_content s ! i)"; cases d) (auto simp: cx_delta_def delta_block_def intro: agrees_buffer)
qed

lemma agrees_stop:
  assumes "agrees errs c s" and "cx_stop c = Inr c'"
  shows "agrees errs c' (stop_block s)"
proof (cases "cx_current c")
  case None
  then have "\<not> cx_stale c" using assms(1) by (auto simp: agrees_def)
  with None assms agrees_open [OF assms(1)] show ?thesis
    using agrees_closed [OF assms(1)] by (auto simp: cx_stop_def stop_block_def)
next
  case (Some j)
  with assms(2) have fresh: "\<not> cx_stale c" by (auto simp: cx_stop_def)
  with Some agrees_open [OF assms(1)] obtain i where i: "sp_current_block s = Some i" by blast
  note w = agrees_write [OF assms(1) fresh Some i]
  have "cx_tool_input_buffer c = sp_tool_input_buffer s" using assms(1) by (simp add: agrees_def)
  moreover have "cx_content c ! j = sp_content s ! i" using w by blast
  ultimately show ?thesis
    using assms(2) Some i fresh agrees_closed [OF assms(1)] agrees_closed [OF agrees_buffer [OF conjunct1 [OF w,
          of "set_input_json (sp_tool_input_buffer s)"], of "[]"]]
    by (auto simp: cx_stop_def stop_block_def Let_def)
qed

lemma agrees_start:
  assumes "agrees errs c s" and "ev_type e = ContentBlockStart" and "apply_event e c = Inr c'"
  shows "agrees errs c' (feed_event s e)"
proof (cases "ev_content_block e")
  case None
  with assms show ?thesis by (simp add: apply_event_def feed_event_def)
next
  case (Some b)
  from assms(1) obtain blocks where m: "merged errs blocks (cx_content c) (sp_content s)"
    by (auto simp: agrees_def)
  then have "merged errs (blocks @ [(False, b)]) (cx_content c @ [b]) (sp_content s @ [b])"
    "same_block (blocks @ [(False, b)]) (Some (length (cx_content c))) (Some (length (sp_content s)))"
    by (simp_all add: merged_def same_block_def)
  moreover have "msg_id (sp_message (start_block b s)) = msg_id (sp_message s)"
    "msg_model (sp_message (start_block b s)) = msg_model (sp_message s)"
    by (simp_all add: start_block_def Let_def)
  moreover have "cx_content c' = cx_content c @ [b]" "cx_current c' = Some (length (cx_content c))"
    "\<not> cx_stale c'" "cx_message c' = (cx_message c)\<lparr>msg_content := cx_content c @ [b]\<rparr>"
    "qr_stop_reason (cx_response c') = qr_stop_reason (cx_response c)"
    "qr_usage (cx_response c') = qr_usage (cx_response c)"
    "cx_tool_input_buffer c' = (if cb_type b = ToolUse then [] else cx_tool_input_buffer c)"
    using assms(2,3) Some by (cases "cb_type b = ToolUse"; auto simp: apply_event_def Let_def ctx_defs)+
  ultimately show ?thesis
    using assms(1,2) Some by (auto simp: agrees_def feed_event_def)
qed

lemma agrees_error:
  assumes "agrees errs c s" and "ev_type e = Error_Event" and "apply_event e c = Inr c'"
  shows "agrees (errs @ error_blocks e) c' (feed_event s e)"
proof (cases "ev_error_message e")
  case None
  with assms show ?thesis by (simp add: apply_event_def feed_event_def error_blocks_def)
next
  case (Some m)
  from assms(1) have "\<exists>blocks. merged errs blocks (cx_content c) (sp_content s) \<and>
      (cx_current c = None \<longrightarrow> same_block blocks None (sp_current_block s))"
    by (auto simp: agrees_def split: if_splits)
  then obtain blocks where m: "merged errs blocks (cx_content c) (sp_content s)" and
    cur: "cx_current c = None \<longrightarrow> same_block blocks None (sp_current_block s)"
    by (elim exE conjE) (rule that; assumption)
  from m have "merged (errs @ [make_text m]) (blocks @ [(True, make_text m)])
      (cx_content c @ [make_text m]) (sp_content s)"
    by (simp add: merged_def)
  moreover have "cx_current c = None \<Longrightarrow> same_block (blocks @ [(True, make_text m)]) None (sp_current_block s)"
    using cur by (auto simp: same_block_def split: option.splits)
  ultimately have "\<exists>bs. merged (errs @ [make_text m]) bs (cx_content c @ [make_text m]) (sp_content s) \<and>
      (cx_current c = None \<longrightarrow> same_block bs None (sp_current_block s))"
    by (intro exI [of _ "blocks @ [(True, make_text m)]"] conjI impI)
  moreover have "cx_content c' = cx_content c @ [make_text m]" "cx_current c' = cx_current c"
    "cx_stale c' = (cx_current c \<noteq> None)" "cx_tool_input_buffer c' = cx_tool_input_buffer c"
    "qr_stop_reason (cx_response c') = ''error''" "qr_usage (cx_response c') = qr_usage (cx_response c)"
    "msg_id (cx_message c') = msg_id (cx_message c)" "msg_model (cx_message c') = msg_model (cx_message c)"
    using assms(2,3) Some by (auto simp: apply_event_def Let_def ctx_defs)
  moreover have "feed_event s e = s\<lparr>sp_complete := True, sp_stop_reason := ''error''\<rparr>"
    "error_blocks e = [make_text m]"
    using assms(2) Some by (simp_all add: feed_event_def error_blocks_def)
  ultimately show ?thesis
    using assms(1) by (cases "cx_current c") (auto simp: agrees_def)
qed

lemma agrees_step:
  assumes "agrees errs c s" and "apply_event e c = Inr c'"
  shows "agrees (errs @ error_blocks e) c' (feed_event s e)"
proof (cases "ev_type e")
  case MessageStart
  with assms show ?thesis
    by (cases "ev_message e") (auto simp: agrees_def apply_event_def feed_event_def error_blocks_def ctx_defs)
next
  case MessageDelta
  with assms show ?thesis
    by (cases "ev_usage_delta e"; cases "ev_stop_reason e")
      (auto simp: agrees_def apply_event_def feed_event_def error_blocks_def ctx_defs Let_def split: if_splits)
next
  case MessageStop
  with assms show ?thesis
    by (auto simp: agrees_def apply_event_def feed_event_def error_blocks_def)
next
  case ContentBlockStart
  with assms agrees_start show ?thesis by (simp add: error_blocks_def)
next
  case ContentBlockDelta
  with assms agrees_delta show ?thesis by (simp add: error_blocks_def feed_event_def apply_event_def)
next
  case ContentBlockStop
  with assms agrees_stop show ?thesis by (simp add: error_blocks_def feed_event_def apply_event_def)
next
  case Error_Event
  with assms agrees_error show ?thesis by simp
qed (use assms in \<open>simp_all add: feed_event_def apply_event_def error_blocks_def\<close>)

lemma agrees_run:
  "agrees errs c s \<Longrightarrow> apply_events es c = Inr c' \<Longrightarrow>
   agrees (errs @ concat (map error_blocks es)) c' (foldl feed_event s es)"
proof (induction es arbitrary: errs c s)
  case (Cons e es)
  from Cons.prems(2) obtain c1 where "apply_event e c = Inr c1" "apply_events es c1 = Inr c'"
    by (cases "apply_event e c") auto
  with Cons.IH [OF agrees_step [OF Cons.prems(1)]] show ?case by simp
qed simp

lemma merged_tool_calls:
  assumes "merged (concat (map error_blocks es)) blocks context parser"
  shows "filter (\<lambda>b. cb_type b = ToolUse) context = filter (\<lambda>b. cb_type b = ToolUse) parser"
proof -
  have "cb_type b \<noteq> ToolUse" if "(True, b) \<in> set blocks" for b
  proof -
    from that have "b \<in> set (map snd (filter fst blocks))" by force
    also have "map snd (filter fst blocks) = concat (map error_blocks es)"
      using assms by (simp add: merged_def)
    finally show ?thesis by (auto simp: error_blocks_def split: if_splits option.splits)
  qed
  then have "filter (\<lambda>b. cb_type b = ToolUse) (map snd blocks) =
      filter (\<lambda>b. cb_type b = ToolUse) (map snd (filter (\<lambda>x. \<not> fst x) blocks))"
    by (induction blocks) auto
  with assms show ?thesis by (simp add: merged_def)
qed

lemma merged_nil: "merged [] blocks context parser \<Longrightarrow> context = parser"
  by (auto simp: merged_def filter_empty_conv)

lemma agrees_new: "agrees [] (new_ctx (blank_response r)) (new_parser r')"
  by (simp add: agrees_def merged_def same_block_def new_ctx_def blank_response_def new_parser_def
      ctx_defs sp_content_def blank_message_def)

text \<open>The usage that the last start of a message has brought; no later event changes it in the context.\<close>

definition start_usage :: "token_usage \<Rightarrow> stream_event \<Rightarrow> token_usage" where
  "start_usage u e = (if ev_type e = MessageStart
     then case ev_message e of None \<Rightarrow> u | Some m \<Rightarrow> msg_usage m else u)"

lemma apply_event_message:
  assumes "apply_event e c = Inr c'"
  shows "msg_role (cx_message c') = msg_role (cx_message c) \<and>
    msg_usage (cx_message c') = start_usage (msg_usage (cx_message c)) e"
  using assms
  by (cases "ev_type e")
    (auto simp: apply_event_def start_usage_def cx_delta_def cx_stop_def ctx_defs Let_def
      split: option.splits if_splits block_type.splits)

lemma apply_events_message:
  "apply_events es c = Inr c' \<Longrightarrow> msg_role (cx_message c') = msg_role (cx_message c) \<and>
    msg_usage (cx_message c') = foldl start_usage (msg_usage (cx_message c)) es"
proof (induction es arbitrary: c)
  case (Cons e es)
  then obtain c1 where "apply_event e c = Inr c1" "apply_events es c1 = Inr c'"
    by (cases "apply_event e c") auto
  with Cons.IH [of c1] apply_event_message [of e c c1] show ?case by simp
qed simp

lemma feed_message:
  "msg_role (sp_message (feed_event s e)) = msg_role (sp_message s) \<and>
   msg_usage (sp_message (feed_event s e)) =
     (if ev_type e = MessageStop then sp_usage s else start_usage (msg_usage (sp_message s)) e)"
  by (cases "ev_type e")
    (auto simp: feed_event_def start_usage_def delta_block_def stop_block_def start_block_def
      write_block_def set_content_def Let_def split: option.splits block_type.splits)

lemma feed_role: "msg_role (sp_message (foldl feed_event s es)) = msg_role (sp_message s)"
  by (induction es arbitrary: s) (simp_all add: feed_message)

lemma feed_usage:
  "\<forall>e\<in>set es. ev_type e \<noteq> MessageStop \<Longrightarrow>
   msg_usage (sp_message (foldl feed_event s es)) = foldl start_usage (msg_usage (sp_message s)) es"
  by (induction es arbitrary: s) (simp_all add: feed_message)

lemma feed_stop_usage:
  "ev_type e = MessageStop \<Longrightarrow> msg_usage (sp_message (foldl feed_event s (es @ [e]))) =
     sp_usage (foldl feed_event s (es @ [e]))"
  by (simp add: feed_message) (simp add: feed_event_def)

lemma apply_event_safe:
  "\<not> cx_stale c \<Longrightarrow> \<exists>c'. apply_event e c = Inr c' \<and> (ev_type e \<noteq> Error_Event \<longrightarrow> \<not> cx_stale c')"
  by (cases "ev_type e")
    (auto simp: apply_event_def cx_delta_def cx_stop_def cx_write_def Let_def ctx_defs
      split: option.splits block_type.splits)

lemma apply_event_undefined: "apply_event e c = Inl x \<Longrightarrow> x = Undefined_Behaviour"
  by (cases "ev_type e")
    (auto simp: apply_event_def cx_delta_def cx_stop_def Let_def split: option.splits block_type.splits if_splits)

lemma apply_events_undefined:
  "apply_events es c = Inl x \<Longrightarrow> \<not> cx_stale c \<Longrightarrow>
   x = Undefined_Behaviour \<and> (\<exists>e\<in>set (butlast es). ev_type e = Error_Event)"
proof (induction es arbitrary: c)
  case (Cons e es)
  from Cons.prems(2) obtain c1 where c1: "apply_event e c = Inr c1"
    "ev_type e \<noteq> Error_Event \<longrightarrow> \<not> cx_stale c1" using apply_event_safe by blast
  with Cons.prems(1) have run: "apply_events es c1 = Inl x" and ne: "es \<noteq> []" by auto
  have "x = Undefined_Behaviour" using run
  proof (induction es arbitrary: c1)
    case (Cons d ds)
    then show ?case by (cases "apply_event d c1") (auto dest: apply_event_undefined)
  qed simp
  with Cons.IH [OF run] c1(2) ne show ?case by (cases "ev_type e = Error_Event") auto
qed simp

text \<open>
  C7: A stream of events goes to two consumers: the context of the client, which builds the
  response, and the parser of the query engine. If the context uses its pointer after the vector
  has moved, an error event came before the last event. Otherwise both hold the same identity,
  model, stop reason, output tokens and tool calls, each keeps the role its message was created
  with, and the blocks of the context are those of the parser in the same order, with one more for
  each error event that has a message: the text of the error, which the parser does not have. The
  two messages differ in their usage: that of the context is the one of the last start of a
  message, and so is that of the parser until the message stops, which replaces it by the output
  tokens alone.
\<close>

theorem context_agrees_with_parser:
  "case apply_events es (new_ctx (blank_response r)) of
     Inl x \<Rightarrow> x = Undefined_Behaviour \<and> (\<exists>e\<in>set (butlast es). ev_type e = Error_Event)
   | Inr c \<Rightarrow>
       (let s = foldl feed_event (new_parser r') es in
        (\<exists>blocks. merged (concat (map error_blocks es)) blocks (cx_content c) (sp_content s)) \<and>
        msg_id (cx_message c) = msg_id (sp_message s) \<and> msg_model (cx_message c) = msg_model (sp_message s) \<and>
        qr_stop_reason (cx_response c) = sp_stop_reason s \<and> qr_usage (cx_response c) = sp_usage s \<and>
        tool_calls (cx_message c) = get_tool_calls s \<and>
        msg_role (cx_message c) = r \<and> msg_role (sp_message s) = r' \<and>
        msg_usage (cx_message c) = foldl start_usage no_usage es \<and>
        ((\<forall>e\<in>set es. ev_type e \<noteq> MessageStop) \<longrightarrow> msg_usage (sp_message s) = msg_usage (cx_message c)) \<and>
        (es \<noteq> [] \<and> ev_type (last es) = MessageStop \<longrightarrow> msg_usage (sp_message s) = qr_usage (cx_response c)))"
proof (cases "apply_events es (new_ctx (blank_response r))")
  case (Inl x)
  with apply_events_undefined [OF Inl] show ?thesis by (simp add: new_ctx_def)
next
  case (Inr c)
  let ?s = "foldl feed_event (new_parser r') es"
  have all: "agrees (concat (map error_blocks es)) c ?s"
    using agrees_run [OF agrees_new Inr] by simp
  then obtain blocks where m: "merged (concat (map error_blocks es)) blocks (cx_content c) (sp_content ?s)"
    by (auto simp: agrees_def)
  have calls: "tool_calls (cx_message c) = get_tool_calls ?s"
    using merged_tool_calls [OF m] by (simp add: get_tool_calls_def tool_calls_eq cx_content_def)
  have last: "es \<noteq> [] \<and> ev_type (last es) = MessageStop \<longrightarrow> msg_usage (sp_message ?s) = sp_usage ?s"
    by (cases es rule: rev_cases) (simp_all add: feed_stop_usage del: foldl_append)
  have new: "msg_role (sp_message (new_parser r')) = r'" "msg_usage (sp_message (new_parser r')) = no_usage"
    "msg_role (cx_message (new_ctx (blank_response r))) = r"
    "msg_usage (cx_message (new_ctx (blank_response r))) = no_usage"
    by (simp_all add: new_parser_def new_ctx_def blank_response_def blank_message_def cx_message_def)
  show ?thesis
    using all m calls last feed_role [of "new_parser r'" es] feed_usage [of es "new_parser r'"]
      apply_events_message [OF Inr]
    by (auto simp: Inr Let_def agrees_def new)
qed

text \<open>A text of two pieces, then the end: the usage of the start is lost in the parser only.\<close>

lemma context_agrees_with_parser_witness:
  "let us = no_usage\<lparr>input_tokens := 9\<rparr>;
       es = (blank_event [])\<lparr>ev_type := MessageStart, ev_message := Some ((blank_message User)\<lparr>msg_usage := us\<rparr>)\<rparr> #
         block_events (make_text [], [''Hel'', ''lo'']) @ [(blank_event [])\<lparr>ev_type := MessageStop\<rparr>];
       s = foldl feed_event (new_parser User) es
   in \<exists>c. apply_events es (new_ctx (blank_response System)) = Inr c \<and>
     map cb_text (cx_content c) = [''Hello''] \<and> msg_usage (cx_message c) = us \<and>
     msg_usage (sp_message s) = no_usage"
proof -
  let ?us = "no_usage\<lparr>input_tokens := 9\<rparr>"
  define es where "es = (blank_event [])\<lparr>ev_type := MessageStart,
        ev_message := Some ((blank_message User)\<lparr>msg_usage := ?us\<rparr>)\<rparr> #
      block_events (make_text [], [''Hel'', ''lo'']) @ [(blank_event [])\<lparr>ev_type := MessageStop\<rparr>]"
  have no_error: "concat (map error_blocks es) = []" "\<forall>e\<in>set es. ev_type e \<noteq> Error_Event"
    by (simp_all add: es_def block_events_def error_blocks_def blank_event_def)
  have s: "map cb_text (sp_content (foldl feed_event (new_parser User) es)) = [''Hello'']"
    "msg_usage (sp_message (foldl feed_event (new_parser User) es)) = no_usage"
    by (simp_all add: es_def block_events_def feed_event_def delta_block_def stop_block_def write_block_def
        new_parser_def blank_message_def start_block_def set_content_def blank_event_def
        make_text_def empty_block_def sp_content_def Let_def no_usage_def del: msg_content_sp)
  have us: "foldl start_usage no_usage es = ?us"
    by (simp add: es_def start_usage_def block_events_def blank_event_def)
  note both = context_agrees_with_parser [where es = es and r = System and r' = User]
  from both no_error(2) obtain c where c: "apply_events es (new_ctx (blank_response System)) = Inr c"
    by (cases "apply_events es (new_ctx (blank_response System))") (auto dest: in_set_butlastD)
  from both no_error(1) obtain blocks where
    "merged [] blocks (cx_content c) (sp_content (foldl feed_event (new_parser User) es))"
    and "msg_usage (cx_message c) = ?us"
    by (auto simp: c Let_def us)
  moreover from this(1) have "cx_content c = sp_content (foldl feed_event (new_parser User) es)"
    by (rule merged_nil)
  ultimately have "map cb_text (cx_content c) = [''Hello'']" "msg_usage (cx_message c) = ?us"
    using s(1) by simp_all
  with c s(2) show ?thesis
    unfolding Let_def es_def [symmetric] by (intro exI [of _ c] conjI)
qed

text \<open>
  With an error event in the middle of a block the pointer may dangle: the next delta of that
  block is a use of it.
\<close>

lemma error_event_dangles:
  assumes "cx_current c = Some i" and "ev_type e = Error_Event" "ev_error_message e = Some m"
    and "ev_type d = ContentBlockDelta"
  shows "apply_events [e, d] c = Inl Undefined_Behaviour"
  using assms by (simp add: apply_event_def cx_delta_def Let_def ctx_defs)

end
