(* ===== verification/Tools.thy ===== *)
theory Tools
  imports Message
begin

text \<open>
  The tool interface and the registry: \<open>src/tools/tool_base.h\<close>, \<open>tool_registry.h\<close> and
  \<open>tool_registry.cpp\<close>. A tool is a record of the virtual functions of \<open>ToolBase\<close>;
  \<open>execute\<close> may change the world the tools act on, whose type is a parameter.

  \<open>std::unordered_map\<close> is a map; where the code iterates over one, the order (which the
  standard leaves open) is an argument.
\<close>

section \<open>Tools\<close>

record property_schema =
  ps_type :: string
  ps_description :: string
  ps_enum_values :: "string list"
  ps_items_type :: string

record input_schema =
  is_type :: string
  is_properties :: "(string \<times> property_schema) list"
  is_required :: "string list"

datatype permission_result = Allowed | Denied | NeedsUserConfirmation

record tool_output =
  to_success :: bool
  to_content :: string
  to_error_message :: string
  to_is_error :: bool

definition tool_ok :: "string \<Rightarrow> tool_output" where
  "tool_ok content = \<lparr>to_success = True, to_content = content, to_error_message = [],
     to_is_error = False\<rparr>"

definition tool_err :: "string \<Rightarrow> tool_output" where
  "tool_err e = \<lparr>to_success = False, to_content = [], to_error_message = e, to_is_error = True\<rparr>"

text \<open>\<open>catch (const std::exception& e)\<close> around the body of a tool.\<close>

definition std_exception :: "cpp_exn \<Rightarrow> bool" where
  "std_exception e = (e \<noteq> Undefined_Behaviour \<and> e \<noteq> Deadlock \<and> e \<noteq> Blocked)"

definition caught :: "(cpp_exn \<Rightarrow> string) \<Rightarrow> string \<Rightarrow> cpp_exn + tool_output \<Rightarrow> cpp_exn + tool_output" where
  "caught what heading r =
     (case r of
        Inl e \<Rightarrow> if std_exception e then Inr (tool_err (heading @ what e)) else Inl e
      | Inr out \<Rightarrow> Inr out)"

definition caught_json :: "(cpp_exn \<Rightarrow> string) \<Rightarrow> cpp_exn + tool_output \<Rightarrow> cpp_exn + tool_output" where
  "caught_json what r =
     (case r of
        Inr out \<Rightarrow> Inr out
      | Inl (Json_Parse_Error e) \<Rightarrow> Inr (tool_err (''Invalid JSON input: '' @ e))
      | Inl x \<Rightarrow> if std_exception x then Inr (tool_err (''Error: '' @ what x)) else Inl x)"

record tool_context =
  tx_working_directory :: string
  tx_session_config :: session_config
  tx_extra_env :: "string list"
  tx_check_permission :: "string \<Rightarrow> string \<Rightarrow> permission_result"

record 'w tool =
  t_name :: string
  t_description :: string
  t_input_schema :: input_schema
  t_system_prompt :: string
  t_execute :: "string \<Rightarrow> tool_context \<Rightarrow> 'w \<Rightarrow> (cpp_exn + tool_output) \<times> 'w"
  t_supports_progress :: bool
  t_requires_confirmation :: bool
  t_category :: string

text \<open>The constructor of a property with a type and a description only.\<close>

definition property :: "string \<Rightarrow> string \<Rightarrow> property_schema" where
  "property t d =
     \<lparr>ps_type = t, ps_description = d, ps_enum_values = [], ps_items_type = []\<rparr>"

section \<open>ToolRegistry\<close>

type_synonym 'w registry = "string \<rightharpoonup> 'w tool"

definition register_tool :: "'w tool option \<Rightarrow> 'w registry \<Rightarrow> 'w registry" where
  "register_tool t r = (case t of None \<Rightarrow> r | Some x \<Rightarrow> r(t_name x \<mapsto> x))"

text \<open>The name is ignored and the factory is called at once.\<close>

definition register_factory ::
  "string \<Rightarrow> (unit \<Rightarrow> 'w tool option) \<Rightarrow> 'w registry \<Rightarrow> 'w registry" where
  "register_factory name factory r =
     (case factory () of None \<Rightarrow> r | Some t \<Rightarrow> register_tool (Some t) r)"

definition find_tool :: "'w registry \<Rightarrow> string \<Rightarrow> 'w tool option" where
  "find_tool r n = r n"

definition has_tool :: "'w registry \<Rightarrow> string \<Rightarrow> bool" where
  "has_tool r n = (r n \<noteq> None)"

text \<open>An iteration order of a map: its keys, each once.\<close>

definition iterates :: "string list \<Rightarrow> (string \<rightharpoonup> 'a) \<Rightarrow> bool" where
  "iterates ks m = (distinct ks \<and> set ks = dom m)"

definition tool_names :: "string list \<Rightarrow> 'w registry \<Rightarrow> string list" where
  "tool_names ks r = map (\<lambda>k. k) ks"

definition tools_by_category :: "string list \<Rightarrow> string \<Rightarrow> 'w registry \<Rightarrow> 'w tool list" where
  "tools_by_category ks category r = filter (\<lambda>t. t_category t = category) (map (the \<circ> r) ks)"

definition property_to_json :: "('j, 'z) jlib_scheme \<Rightarrow> property_schema \<Rightarrow> 'j" where
  "property_to_json J p =
     obj_from J
       ([(''type'', j_string J (ps_type p))]
        @ (if ps_description p \<noteq> [] then [(''description'', j_string J (ps_description p))] else [])
        @ (if ps_enum_values p \<noteq> []
           then [(''enum'', j_array J (map (j_string J) (ps_enum_values p)))] else [])
        @ (if ps_type p = ''array'' \<and> ps_items_type p \<noteq> []
           then [(''items'', j_object J [(''type'', j_string J (ps_items_type p))])] else []))"

definition schema_to_json :: "('j, 'z) jlib_scheme \<Rightarrow> input_schema \<Rightarrow> 'j" where
  "schema_to_json J s =
     obj_from J
       ([(''type'', j_string J (is_type s)),
         (''properties'',
            foldl (\<lambda>v np. j_set J (fst np) (property_to_json J (snd np)) v) (j_object J [])
              (is_properties s))]
        @ (if is_required s \<noteq> []
           then [(''required'', j_array J (map (j_string J) (is_required s)))] else []))"

definition tools_json_array ::
  "('j, 'z) jlib_scheme \<Rightarrow> string list \<Rightarrow> 'w registry \<Rightarrow> 'j" where
  "tools_json_array J ks r =
     j_array J (map (\<lambda>k. let t = the (r k) in
       obj_from J [(''name'', j_string J (t_name t)), (''description'', j_string J (t_description t)),
                   (''input_schema'', schema_to_json J (t_input_schema t))]) ks)"

definition tools_json_schema_array ::
  "('j, 'z) jlib_scheme \<Rightarrow> string list \<Rightarrow> 'w registry \<Rightarrow> cpp_exn + string" where
  "tools_json_schema_array J ks r = dump_json J (tools_json_array J ks r)"

definition tools_system_prompt :: "string list \<Rightarrow> 'w registry \<Rightarrow> string" where
  "tools_system_prompt ks r =
     concat (map (\<lambda>k. let t = the (r k) in
       ''## '' @ t_name t @ [CHR 0x0A] @ t_system_prompt t @ [CHR 0x0A, CHR 0x0A]) ks)"

section \<open>Registration\<close>

text \<open>Every entry is stored under its tool's own name.\<close>

definition registry_ok :: "'w registry \<Rightarrow> bool" where
  "registry_ok r = (\<forall>n t. r n = Some t \<longrightarrow> t_name t = n)"

lemma registry_ok_empty [simp]: "registry_ok Map.empty"
  by (simp add: registry_ok_def)

lemma registry_ok_register [keeps]: "registry_ok r \<Longrightarrow> registry_ok (register_tool t r)"
  by (auto simp: registry_ok_def register_tool_def split: option.splits)

interpretation tool_registry: registry Map.empty "\<lambda>k v (s :: 'w registry). s(k \<mapsto> v)" find_tool
  by unfold_locales (simp_all add: find_tool_def)

interpretation registering: machine "Map.empty :: 'w registry" "\<lambda>r t. register_tool (Some t) r"
    registry_ok
  by unfold_locales (simp_all add: registry_ok_register)

lemma register_all:
  "foldl (\<lambda>r t. register_tool (Some t) r) s ts =
     foldl (\<lambda>s p. s(fst p \<mapsto> snd p)) s (map (\<lambda>t. (t_name t, t)) ts)"
  by (induction ts arbitrary: s) (simp_all add: register_tool_def)

lemma find_registered:
  assumes "find_tool (foldl (\<lambda>r t. register_tool (Some t) r) Map.empty ts) n = Some t"
  shows "t \<in> set ts \<and> t_name t = n"
proof -
  have "map_of (rev (map (\<lambda>t. (t_name t, t)) ts)) n = Some t"
    using assms tool_registry.get_foldl_put_empty [of "map (\<lambda>t. (t_name t, t)) ts"]
    by (simp add: register_all)
  then have "(n, t) \<in> set (rev (map (\<lambda>t. (t_name t, t)) ts))" by (rule map_of_SomeD)
  then show ?thesis by auto
qed

lemma find_in_registered:
  "find_tool (foldl (\<lambda>r t. register_tool (Some t) r) Map.empty ts) n =
     map_of (rev (map (\<lambda>t. (t_name t, t)) ts)) n"
  using tool_registry.get_foldl_put_empty [of "map (\<lambda>t. (t_name t, t)) ts"]
  by (simp add: register_all)

lemma registered_domain:
  "dom (foldl (\<lambda>r t. register_tool (Some t) r) m ts) = dom m \<union> t_name ` set ts"
  by (induction ts arbitrary: m) (auto simp: register_tool_def)

text \<open>
  After registering any list of tools in order, a name finds the last tool registered with
  that name and nothing else, and every iteration over the registry yields each registered name
  once, with a tool of that name.
\<close>

theorem registry_lookup:
  assumes "r = foldl (\<lambda>r t. register_tool (Some t) r) Map.empty ts" and "iterates ks r"
  shows "find_tool r n = map_of (rev (map (\<lambda>t. (t_name t, t)) ts)) n \<and>
    has_tool r n = (n \<in> t_name ` set ts) \<and>
    set (tool_names ks r) = t_name ` set ts \<and> distinct (tool_names ks r) \<and>
    map t_name (tools_by_category ks c r) =
      filter (\<lambda>k. t_category (the (find_tool r k)) = c) ks"
proof -
  have find: "find_tool r n = map_of (rev (map (\<lambda>t. (t_name t, t)) ts)) n"
    unfolding assms(1) by (rule find_in_registered)
  have dom: "dom r = t_name ` set ts" by (simp add: assms(1) registered_domain)
  have "registry_ok r" unfolding assms(1) by (rule registering.inv_reachable)
  then have names: "t_name (the (r k)) = k" if "k \<in> set ks" for k
    using that assms(2) by (auto simp: registry_ok_def iterates_def)
  have "map t_name (filter (\<lambda>t. t_category t = c) (map (the \<circ> r) ks)) =
      filter (\<lambda>k. t_category (the (r k)) = c) ks"
    using names by (induction ks) auto
  moreover have "has_tool r n = (n \<in> t_name ` set ts)"
    using dom by (auto simp: has_tool_def)
  ultimately show ?thesis
    using find dom assms(2)
    by (simp add: tools_by_category_def tool_names_def iterates_def find_tool_def)
qed


definition sample_tool :: "string \<Rightarrow> string \<Rightarrow> unit tool" where
  "sample_tool n c = \<lparr>t_name = n, t_description = [],
     t_input_schema = \<lparr>is_type = ''object'', is_properties = [], is_required = []\<rparr>,
     t_system_prompt = [], t_execute = (\<lambda>i x w. (Inr (tool_ok i), w)),
     t_supports_progress = False, t_requires_confirmation = False, t_category = c\<rparr>"

lemma registry_lookup_witness:
  "let ts = [sample_tool ''Read'' ''file'', sample_tool ''Bash'' ''shell'', sample_tool ''Read'' ''io''];
       r = foldl (\<lambda>r t. register_tool (Some t) r) Map.empty ts
   in has_tool r ''Read'' \<and> find_tool r ''Read'' = Some (sample_tool ''Read'' ''io'')"
proof -
  let ?ts = "[sample_tool ''Read'' ''file'', sample_tool ''Bash'' ''shell'', sample_tool ''Read'' ''io'']"
  let ?r = "foldl (\<lambda>r t. register_tool (Some t) r) Map.empty ?ts"
  have "iterates [''Read'', ''Bash''] ?r"
    by (simp add: iterates_def register_tool_def sample_tool_def insert_commute)
  from registry_lookup [OF refl this, of "''Read''"] show ?thesis
    by (simp add: sample_tool_def)
qed

definition sample_context :: tool_context where
  "sample_context = \<lparr>tx_working_directory = ''/w'', tx_session_config = undefined, tx_extra_env = [],
     tx_check_permission = (\<lambda>n i. Allowed)\<rparr>"

end
