(* ===== verification/Client.thy ===== *)
theory Client
  imports Sse Tools Json_Sample
begin

text \<open>
  The API client, \<open>src/api/anthropic_client.h\<close> and \<open>anthropic_client.cpp\<close>: the request
  body, the reading of a JSON response, and \<open>create_message_stream\<close> with its retry loop.

  curl is an argument: for every attempt it gives what the transfer does (\<open>attempt\<close> below).
  \<open>abort\<close> may be called by another thread at any time, so each read of the flag
  \<open>aborted_\<close> during the request is an input too. Configuration calls to curl and the logging
  have no effect on the modelled state.
\<close>

section \<open>Building the request\<close>

definition text_json :: "('j, 'z) jlib_scheme \<Rightarrow> string \<Rightarrow> 'j" where
  "text_json J t = j_object J [(''type'', j_string J ''text''), (''text'', j_string J t)]"

definition thinking_json :: "('j, 'z) jlib_scheme \<Rightarrow> model_config \<Rightarrow> 'j" where
  "thinking_json J m =
     obj_from J ([(''type'', j_string J ''enabled'')]
       @ (if thinking m = BudgetTokens
          then [(''budget_tokens'', j_int J (sint (thinking_budget m)))] else []))"

text \<open>
  The system prompts: one prompt is a string, or an array of one text without a cache marker
  when it has one; several are an array of texts with their markers.
\<close>

definition client_system_json :: "('j, 'z) jlib_scheme \<Rightarrow> system_prompt list \<Rightarrow> 'j" where
  "client_system_json J sps =
     (case sps of
        [sp] \<Rightarrow> (if sys_cache_control sp \<noteq> None then j_array J [text_json J (sys_content sp)]
                 else j_string J (sys_content sp))
      | _ \<Rightarrow> j_array J (map (\<lambda>sp.
          if sys_cache_control sp \<noteq> None
          then j_set J ''cache_control'' (j_object J [(''type'', j_string J ''ephemeral'')])
                 (text_json J (sys_content sp))
          else text_json J (sys_content sp)) sps))"

text \<open>
  The input of a tool call: the parsed text, or what the code assigns when there is none or it
  does not parse (\<open>= {}\<close> is \<open>null\<close> in the client, an empty object in the pipeline).
\<close>

definition input_or :: "('j, 'z) jlib_scheme \<Rightarrow> 'j \<Rightarrow> string \<Rightarrow> 'j" where
  "input_or J none input =
     (if input \<noteq> [] then (case j_parse J input of Inr v \<Rightarrow> v | Inl e \<Rightarrow> none) else none)"

definition tool_use_json :: "('j, 'z) jlib_scheme \<Rightarrow> 'j \<Rightarrow> tool_call \<Rightarrow> 'j" where
  "tool_use_json J none tc =
     j_set J ''input'' (input_or J none (tc_input_json tc))
       (j_object J [(''type'', j_string J ''tool_use''), (''id'', j_string J (tc_id tc)),
                    (''name'', j_string J (tc_name tc))])"

definition tool_result_json :: "('j, 'z) jlib_scheme \<Rightarrow> tool_result \<Rightarrow> 'j" where
  "tool_result_json J r =
     (let o1 = j_object J [(''type'', j_string J ''tool_result''),
            (''tool_use_id'', j_string J (tr_tool_use_id r)), (''content'', j_string J (tr_content r))]
      in if tr_is_error r then j_set J ''is_error'' (j_bool J True) o1 else o1)"

definition client_block_json :: "('j, 'z) jlib_scheme \<Rightarrow> content_block \<Rightarrow> 'j list" where
  "client_block_json J b =
     (case cb_type b of
        Text \<Rightarrow> [text_json J (cb_text b)]
      | ToolUse \<Rightarrow> [tool_use_json J (j_null J) (cb_tool_call b)]
      | ToolResult_Block \<Rightarrow> [tool_result_json J (cb_tool_result b)]
      | Thinking \<Rightarrow> [j_object J [(''type'', j_string J ''thinking''),
                                (''thinking'', j_string J (cb_thinking b))]]
      | _ \<Rightarrow> [])"

text \<open>A message of the role \<open>System\<close> is left out.\<close>

definition client_message_json :: "('j, 'z) jlib_scheme \<Rightarrow> message \<Rightarrow> 'j list" where
  "client_message_json J m =
     (let entry = (\<lambda>role. [obj_from J [(''role'', j_string J role),
            (''content'', j_array J (concat (map (client_block_json J) (msg_content m))))]])
      in case msg_role m of
           User \<Rightarrow> entry ''user''
         | Assistant \<Rightarrow> entry ''assistant''
         | Tool \<Rightarrow> entry ''user''
         | System \<Rightarrow> [])"

definition client_request_json :: "('j, 'z) jlib_scheme \<Rightarrow> 'j query_options \<Rightarrow> 'j" where
  "client_request_json J q =
     (let m = qo_model q in
      obj_from J
        ([(''model'', j_string J (model_id m)), (''max_tokens'', j_int J (sint (max_tokens m)))]
         @ (if temperature m > 0 then [(''temperature'', j_double J (temperature m))] else [])
         @ (if thinking m = Enabled \<or> thinking m = BudgetTokens
            then [(''thinking'', thinking_json J m)] else [])
         @ (if qo_system_prompts q \<noteq> []
            then [(''system'', client_system_json J (qo_system_prompts q))] else [])
         @ [(''messages'', j_array J (concat (map (client_message_json J) (qo_messages q))))]
         @ (if j_is_array J (qo_tools_json q) \<and> j_elems J (qo_tools_json q) \<noteq> []
            then [(''tools'', qo_tools_json q)] else [])
         @ (if qo_stop_sequences q \<noteq> []
            then [(''stop_sequences'', j_array J (map (j_string J) (qo_stop_sequences q)))] else [])
         @ [(''stream'', j_bool J (qo_stream q))]))"

definition build_request_body :: "('j, 'z) jlib_scheme \<Rightarrow> 'j query_options \<Rightarrow> cpp_exn + string" where
  "build_request_body J q = dump_json J (client_request_json J q)"

section \<open>Reading a response\<close>

definition push_text :: "string \<Rightarrow> query_response \<Rightarrow> query_response" where
  "push_text t r = r\<lparr>qr_message := (qr_message r)
     \<lparr>msg_content := msg_content (qr_message r) @ [make_text t]\<rparr>\<rparr>"

definition error_response :: "string \<Rightarrow> query_response \<Rightarrow> query_response" where
  "error_response t r = push_text t (r\<lparr>qr_stop_reason := ''error''\<rparr>)"

definition read_response_block :: "('j, 'z) jlib_scheme \<Rightarrow> 'j \<Rightarrow> cpp_exn + content_block" where
  "read_response_block J cb =
     bind_exn (value_str J cb ''type'' ''text'') (\<lambda>t.
       if t = ''text'' then
         bind_exn (value_str J cb ''text'' [])
           (\<lambda>x. Inr (empty_block\<lparr>cb_type := Text, cb_text := x\<rparr>))
       else if t = ''tool_use'' then
         bind_exn (value_str J cb ''id'' []) (\<lambda>i.
         bind_exn (value_str J cb ''name'' []) (\<lambda>n.
         let tc = empty_tool_call\<lparr>tc_id := i, tc_name := n\<rparr> in
         bind_exn
           (if j_contains J cb ''input''
            then bind_exn (at_exn J cb ''input'') (\<lambda>v.
                 Inr (if j_is_object J v then tc\<lparr>tc_input_json := j_dump J v\<rparr> else tc))
            else Inr tc)
           (\<lambda>tc. Inr (empty_block\<lparr>cb_type := ToolUse, cb_tool_call := tc\<rparr>))))
       else Inr empty_block)"

fun read_response_blocks ::
  "('j, 'z) jlib_scheme \<Rightarrow> 'j list \<Rightarrow> cpp_exn + content_block list" where
  "read_response_blocks J [] = Inr []"
| "read_response_blocks J (v # vs) =
     bind_exn (read_response_block J v) (\<lambda>b.
     bind_exn (read_response_blocks J vs) (\<lambda>bs. Inr (b # bs)))"

text \<open>
  The body of the \<open>try\<close> block. \<open>j["message"]\<close> on a body that has no such member is
  \<open>null\<close>, on which \<open>value\<close> throws a \<open>type_error\<close>; only \<open>parse_error\<close> is caught.
\<close>

definition response_of_json ::
  "('j, 'z) jlib_scheme \<Rightarrow> message_role \<Rightarrow> 'j \<Rightarrow> cpp_exn + query_response" where
  "response_of_json J junk j =
     (let r0 = blank_response junk in
      if j_contains J j ''error'' then
        bind_exn (at_exn J j ''error'') (\<lambda>err.
        bind_exn (value_str J err ''message'' ''unknown'') (\<lambda>m.
          Inr (error_response (''API Error: '' @ m) r0)))
      else
        bind_exn (at_exn J j ''message'') (\<lambda>mj.
        bind_exn (value_str J mj ''id'' []) (\<lambda>i.
        bind_exn (value_str J mj ''model'' []) (\<lambda>md.
        bind_exn (value_str J mj ''stop_reason'' []) (\<lambda>sr.
        bind_exn
          (if j_contains J mj ''content''
           then bind_exn (at_exn J mj ''content'') (\<lambda>cs.
                if j_is_array J cs then read_response_blocks J (j_elems J cs) else Inr [])
           else Inr [])
          (\<lambda>bs.
        bind_exn
          (if j_contains J mj ''usage''
           then bind_exn (at_exn J mj ''usage'') (read_usage J)
           else Inr no_usage)
          (\<lambda>u.
        Inr (r0\<lparr>qr_message := (qr_message r0)\<lparr>msg_id := i, msg_model := md, msg_content := bs\<rparr>,
                qr_stop_reason := sr, qr_usage := u\<rparr>))))))))"

definition process_json_response ::
  "('j, 'z) jlib_scheme \<Rightarrow> message_role \<Rightarrow> string \<Rightarrow> cpp_exn + query_response" where
  "process_json_response J junk body =
     (case j_parse J body of
        Inl what \<Rightarrow> Inr (error_response (''JSON parse error: '' @ what) (blank_response junk))
      | Inr j \<Rightarrow> response_of_json J junk j)"

section \<open>The retry loop\<close>

datatype curl_code =
    Curl_OK | Curl_OPERATION_TIMEDOUT | Curl_COULDNT_CONNECT | Curl_RECV_ERROR | Curl_SEND_ERROR
  | Curl_other nat

text \<open>
  One attempt as curl and the other threads determine it: the flag read before it, the pieces
  of body delivered, each with the flag its callback reads, the results, the flag read after.
\<close>

record attempt =
  at_aborted_before :: bool
  at_chunks :: "(bool \<times> string) list"
  at_result :: curl_code
  at_http :: int
  at_aborted_after :: bool

definition max_retries :: nat where
  "max_retries = 3"

definition retryable_codes :: "int list" where
  "retryable_codes = [429, 500, 502, 503, 529]"

definition should_retry :: "curl_code \<Rightarrow> int \<Rightarrow> bool" where
  "should_retry res http =
     (if res \<noteq> Curl_OK
      then res = Curl_OPERATION_TIMEDOUT \<or> res = Curl_COULDNT_CONNECT \<or> res = Curl_RECV_ERROR
           \<or> res = Curl_SEND_ERROR
      else if http \<noteq> 200 then http \<in> set retryable_codes else False)"

text \<open>
  The local variables of \<open>create_message_stream\<close> during the loop. The response is inside the
  streaming context, which points to it. \<open>ls_slept\<close> adds up the seconds slept.
\<close>

record loop_state =
  ls_ctx :: streaming_ctx
  ls_body :: string
  ls_res :: curl_code
  ls_http :: int
  ls_performed :: nat
  ls_slept :: nat

fun deliver ::
  "('j, 'z) jlib_scheme \<Rightarrow> message_role \<Rightarrow> bool \<Rightarrow> (bool \<times> string) list \<Rightarrow> loop_state \<Rightarrow>
   cpp_exn + loop_state" where
  "deliver J junk streaming [] st = Inr st"
| "deliver J junk streaming ((aborted, chunk) # cs) st =
     (if streaming
      then bind_exn (streaming_write_callback J junk aborted chunk (ls_ctx st))
             (\<lambda>r. deliver J junk streaming cs (st\<lparr>ls_ctx := snd r\<rparr>))
      else deliver J junk streaming cs (st\<lparr>ls_body := ls_body st @ chunk\<rparr>))"

text \<open>
  Before a retry the body and the response are cleared; the streaming context is made anew with
  the same callback, whose past calls stay as they are.
\<close>

definition reset_for_retry :: "nat \<Rightarrow> loop_state \<Rightarrow> loop_state" where
  "reset_for_retry n st =
     st\<lparr>ls_body := [], ls_slept := ls_slept st + 2 ^ n,
        ls_ctx := (new_ctx (blank_response System))\<lparr>cx_seen := cx_seen (ls_ctx st)\<rparr>\<rparr>"

definition perform ::
  "('j, 'z) jlib_scheme \<Rightarrow> message_role \<Rightarrow> bool \<Rightarrow> attempt \<Rightarrow> loop_state \<Rightarrow> cpp_exn + loop_state" where
  "perform J junk streaming a st =
     bind_exn (deliver J junk streaming (at_chunks a) st) (\<lambda>st1.
       Inr (st1\<lparr>ls_res := at_result a, ls_http := at_http a,
                ls_performed := Suc (ls_performed st1)\<rparr>))"

function retry_loop ::
  "('j, 'z) jlib_scheme \<Rightarrow> message_role \<Rightarrow> bool \<Rightarrow> (nat \<Rightarrow> attempt) \<Rightarrow> nat \<Rightarrow> loop_state \<Rightarrow>
   cpp_exn + loop_state" where
  "retry_loop J junk streaming env n st =
     (if max_retries < n then Inr st
      else if at_aborted_before (env n) then Inr st
      else bind_exn (perform J junk streaming (env n) (if 0 < n then reset_for_retry n st else st))
        (\<lambda>st1.
          if at_aborted_after (env n) then Inr st1
          else if \<not> should_retry (ls_res st1) (ls_http st1) \<or> n = max_retries then Inr st1
          else retry_loop J junk streaming env (Suc n) st1))"
  by pat_completeness auto
termination
  by (relation "measure (\<lambda>(J, junk, streaming, env, n, st). Suc max_retries - n)") auto

declare retry_loop.simps [simp del]

text \<open>
  The events the callback has been called with when an exception leaves the loop: those of the
  earlier pieces and attempts, and those of the lines before the one that throws.
\<close>

function lines_seen ::
  "('j, 'z) jlib_scheme \<Rightarrow> message_role \<Rightarrow> string \<Rightarrow> streaming_ctx \<Rightarrow> stream_event list" where
  "lines_seen J junk buf c =
     (case str_find [CHR 0x0A] buf of
        None \<Rightarrow> cx_seen c
      | Some nl \<Rightarrow>
          (case process_sse_line J junk (strip_cr (take nl buf)) c of
             Inl _ \<Rightarrow> cx_seen c
           | Inr c1 \<Rightarrow> lines_seen J junk (drop (Suc nl) buf) c1))"
  by pat_completeness auto
termination
proof (relation "measure (\<lambda>(J, junk, buf, c). length buf)")
  fix J :: "('j, 'z) jlib_scheme" and junk buf c nl and x :: streaming_ctx
  assume "str_find [CHR 0x0A] buf = Some nl"
  then have "nl + length [CHR 0x0A] \<le> length buf" by (blast dest: str_find_Some)
  then show "((J, junk, drop (Suc nl) buf, x), J, junk, buf, c) \<in>
      measure (\<lambda>(J, junk, buf, c). length buf)" by simp
qed simp

declare lines_seen.simps [simp del]

fun deliver_seen ::
  "('j, 'z) jlib_scheme \<Rightarrow> message_role \<Rightarrow> bool \<Rightarrow> (bool \<times> string) list \<Rightarrow> loop_state \<Rightarrow> stream_event list" where
  "deliver_seen J junk streaming [] st = cx_seen (ls_ctx st)"
| "deliver_seen J junk streaming ((aborted, chunk) # cs) st =
     (if streaming
      then (case streaming_write_callback J junk aborted chunk (ls_ctx st) of
              Inl _ \<Rightarrow> lines_seen J junk (cx_line_buffer (ls_ctx st) @ chunk) (ls_ctx st)
            | Inr r \<Rightarrow> deliver_seen J junk streaming cs (st\<lparr>ls_ctx := snd r\<rparr>))
      else deliver_seen J junk streaming cs (st\<lparr>ls_body := ls_body st @ chunk\<rparr>))"

function loop_seen ::
  "('j, 'z) jlib_scheme \<Rightarrow> message_role \<Rightarrow> bool \<Rightarrow> (nat \<Rightarrow> attempt) \<Rightarrow> nat \<Rightarrow> loop_state \<Rightarrow>
   stream_event list" where
  "loop_seen J junk streaming env n st =
     (let st0 = (if 0 < n then reset_for_retry n st else st) in
      if max_retries < n then cx_seen (ls_ctx st)
      else (case perform J junk streaming (env n) st0 of
              Inl _ \<Rightarrow> deliver_seen J junk streaming (at_chunks (env n)) st0
            | Inr st1 \<Rightarrow> loop_seen J junk streaming env (Suc n) st1))"
  by pat_completeness auto
termination
  by (relation "measure (\<lambda>(J, junk, streaming, env, n, st). Suc max_retries - n)") auto

declare loop_seen.simps [simp del]

section \<open>The request\<close>

record client =
  cl_api_key :: string
  cl_base_url :: string
  cl_timeout_seconds :: int
  cl_proxy :: string
  cl_busy :: bool
  cl_aborted :: bool
  cl_has_curl :: bool

definition new_client :: "string \<Rightarrow> bool \<Rightarrow> client" where
  "new_client key curl_ok = \<lparr>cl_api_key = key, cl_base_url = ''https://api.anthropic.com'',
     cl_timeout_seconds = 120, cl_proxy = [], cl_busy = False, cl_aborted = False,
     cl_has_curl = curl_ok\<rparr>"

definition client_abort :: "client \<Rightarrow> client" where
  "client_abort c = (if cl_has_curl c then c\<lparr>cl_aborted := True\<rparr> else c)"

definition http_error_prefix :: "int \<Rightarrow> string" where
  "http_error_prefix code =
     (if code = 401 then ''Authentication error (HTTP 401): Invalid API key. ''
      else if code = 429 then ''Rate limited (HTTP 429): ''
      else if code = 403 then ''Forbidden (HTTP 403): ''
      else ''API Error (HTTP '' @ int_to_string code @ ''): '')"

text \<open>The text of an HTTP error: anything thrown while reading the body is caught.\<close>

definition http_error_text :: "('j, 'z) jlib_scheme \<Rightarrow> int \<Rightarrow> string \<Rightarrow> string" where
  "http_error_text J code err_body =
     (let prefix = http_error_prefix code in
      if err_body \<noteq> [] then
        (case j_parse J err_body of
           Inl e \<Rightarrow> prefix @ err_body
         | Inr j \<Rightarrow>
             if j_contains J j ''error''
             then (case bind_exn (at_exn J j ''error'')
                          (\<lambda>e. value_str J e ''message'' err_body) of
                     Inr m \<Rightarrow> prefix @ m
                   | Inl e \<Rightarrow> prefix @ err_body)
             else prefix @ err_body)
      else prefix @ ''unknown error'')"

text \<open>
  \<open>env\<close> is what curl does on each attempt, \<open>aborted_end\<close> the flag read after the loop,
  \<open>strerror\<close> curl's error texts. A result on the left is an exception that leaves the function;
  \<open>busy_\<close> is then still set. The body of the request is built before the first attempt, and
  what happens to it in curl is part of \<open>env\<close>.
\<close>

definition finish_request ::
  "('j, 'z) jlib_scheme \<Rightarrow> message_role \<Rightarrow> (curl_code \<Rightarrow> string) \<Rightarrow> bool \<Rightarrow> bool \<Rightarrow> bool \<Rightarrow>
   loop_state \<Rightarrow> cpp_exn + query_response" where
  "finish_request J junk strerror stream has_callback aborted_end st =
     (let r = cx_response (ls_ctx st) in
      if ls_res st \<noteq> Curl_OK \<and> \<not> aborted_end
      then Inr (error_response (''HTTP request failed: '' @ strerror (ls_res st)) r)
      else if ls_http st \<noteq> 200 \<and> \<not> aborted_end
      then Inr (error_response (http_error_text J (ls_http st) (if stream then [] else ls_body st)) r)
      else bind_exn
             (if \<not> stream \<or> \<not> has_callback then process_json_response J junk (ls_body st) else Inr r)
             (\<lambda>r. Inr (r\<lparr>qr_stopped_by_tool := (qr_stop_reason r = ''tool_use'')\<rparr>)))"

definition start_state :: "message_role \<Rightarrow> loop_state" where
  "start_state junk = \<lparr>ls_ctx = new_ctx (blank_response junk), ls_body = [], ls_res = Curl_OK,
     ls_http = 0, ls_performed = 0, ls_slept = 0\<rparr>"

definition create_message_stream ::
  "('j, 'z) jlib_scheme \<Rightarrow> message_role \<Rightarrow> (curl_code \<Rightarrow> string) \<Rightarrow> (nat \<Rightarrow> attempt) \<Rightarrow> bool \<Rightarrow>
   'j query_options \<Rightarrow> bool \<Rightarrow> client \<Rightarrow>
   (cpp_exn + query_response) \<times> stream_event list \<times> client" where
  "create_message_stream J junk strerror env aborted_end q has_callback c =
     (let c1 = c\<lparr>cl_busy := True, cl_aborted := False\<rparr> in
      if \<not> cl_has_curl c1
      then (Inr (error_response ''Failed to initialize HTTP client'' (blank_response junk)),
            [], c1\<lparr>cl_busy := False\<rparr>)
      else
        (case build_request_body J q of
           Inl e \<Rightarrow> (Inl e, [], c1)
         | Inr body \<Rightarrow>
             (let streaming = qo_stream q \<and> has_callback; st0 = start_state junk in
              case retry_loop J junk streaming env 0 st0 of
                Inl e \<Rightarrow> (Inl e, loop_seen J junk streaming env 0 st0, c1)
              | Inr st \<Rightarrow>
                  (let c2 = c1\<lparr>cl_aborted := aborted_end\<rparr>
                   in case finish_request J junk strerror (qo_stream q) has_callback aborted_end st of
                        Inl e \<Rightarrow> (Inl e, cx_seen (ls_ctx st), c2)
                      | Inr r \<Rightarrow> (Inr r, cx_seen (ls_ctx st), c2\<lparr>cl_busy := False\<rparr>)))))"

definition create_message ::
  "('j, 'z) jlib_scheme \<Rightarrow> message_role \<Rightarrow> (curl_code \<Rightarrow> string) \<Rightarrow> (nat \<Rightarrow> attempt) \<Rightarrow> bool \<Rightarrow>
   'j query_options \<Rightarrow> client \<Rightarrow> (cpp_exn + query_response) \<times> stream_event list \<times> client" where
  "create_message J junk strerror env aborted_end q c =
     (if cl_busy c
      then (Inr (error_response ''Another request is in progress'' (blank_response junk)), [], c)
      else create_message_stream J junk strerror env aborted_end (q\<lparr>qo_stream := False\<rparr>) False c)"


section \<open>The retry policy\<close>

lemma deliver_keeps:
  "deliver J junk streaming cs st = Inr st1 \<Longrightarrow>
   ls_performed st1 = ls_performed st \<and> ls_slept st1 = ls_slept st"
proof (induction J junk streaming cs st rule: deliver.induct)
  case (2 J junk streaming aborted chunk cs st)
  then show ?case by (auto simp: bind_exn_Inr split: if_splits)
qed simp

lemma perform_keeps:
  "perform J junk streaming a st = Inr st1 \<Longrightarrow>
   ls_performed st1 = Suc (ls_performed st) \<and> ls_slept st1 = ls_slept st \<and>
   ls_res st1 = at_result a \<and> ls_http st1 = at_http a"
  by (auto simp: perform_def bind_exn_Inr dest: deliver_keeps)

lemma retry_reset_keeps [simp]:
  "ls_performed (reset_for_retry n st) = ls_performed st"
  "ls_slept (reset_for_retry n st) = ls_slept st + 2 ^ n"
  by (simp_all add: reset_for_retry_def)

definition transient :: "attempt \<Rightarrow> bool" where
  "transient a =
     (\<not> at_aborted_after a \<and>
      (at_result a = Curl_OPERATION_TIMEDOUT \<or> at_result a = Curl_COULDNT_CONNECT \<or>
       at_result a = Curl_RECV_ERROR \<or> at_result a = Curl_SEND_ERROR \<or>
       (at_result a = Curl_OK \<and>
        (at_http a = 429 \<or> at_http a = 500 \<or> at_http a = 502 \<or> at_http a = 503 \<or> at_http a = 529))))"

lemma transient_iff_retry:
  "transient a = (should_retry (at_result a) (at_http a) \<and> \<not> at_aborted_after a)"
  by (auto simp: transient_def should_retry_def retryable_codes_def)

text \<open>The seconds slept before attempt \<open>n\<close>: none before the first, \<open>2 ^ i\<close> before each other.\<close>

definition backoff :: "nat \<Rightarrow> nat" where
  "backoff n = (\<Sum>i\<leftarrow>[1..<n]. 2 ^ i)"

lemma backoff_Suc: "backoff (Suc n) = (if n = 0 then 0 else backoff n + 2 ^ n)"
  by (cases n) (simp_all add: backoff_def)

lemma backoff_0 [simp]: "backoff 0 = 0"
  by (simp add: backoff_def)

lemma retry_loop_inv:
  assumes "retry_loop J junk streaming env n st = Inr st'"
    and "ls_performed st = n" and "ls_slept st = backoff n" and "\<forall>i<n. transient (env i)"
    and "0 < n \<longrightarrow> ls_res st = at_result (env (n - 1)) \<and> ls_http st = at_http (env (n - 1))"
    and "n \<le> max_retries"
  shows "let k = ls_performed st' in
    n \<le> k \<and> k \<le> Suc max_retries \<and> ls_slept st' = backoff k \<and>
    (\<forall>i. Suc i < k \<longrightarrow> transient (env i)) \<and>
    (0 < k \<longrightarrow> ls_res st' = at_result (env (k - 1)) \<and> ls_http st' = at_http (env (k - 1))) \<and>
    (k \<le> max_retries \<longrightarrow> at_aborted_before (env k) \<or> (0 < k \<and> \<not> transient (env (k - 1))))"
  using assms
proof (induction J junk streaming env n st rule: retry_loop.induct)
  case (1 J junk streaming env n st)
  show ?case
  proof (cases "at_aborted_before (env n)")
    case True
    with "1.prems" have "st' = st" by (simp add: retry_loop.simps)
    with True "1.prems" show ?thesis by (simp add: Let_def)
  next
    case False
    let ?st0 = "if 0 < n then reset_for_retry n st else st"
    from "1.prems"(1,6) False obtain st1 where
      st1: "perform J junk streaming (env n) ?st0 = Inr st1" and
      next_step: "(if at_aborted_after (env n) then Inr st1
        else if \<not> should_retry (ls_res st1) (ls_http st1) \<or> n = max_retries then Inr st1
        else retry_loop J junk streaming env (Suc n) st1) = Inr st'"
      by (subst (asm) retry_loop.simps) (auto simp: bind_exn_Inr)
    have k1: "ls_performed st1 = Suc n" "ls_slept st1 = backoff (Suc n)"
      "ls_res st1 = at_result (env n)" "ls_http st1 = at_http (env n)"
      using perform_keeps [OF st1] "1.prems"(2,3) by (auto simp: backoff_Suc)
    show ?thesis
    proof (cases "transient (env n) \<and> n \<noteq> max_retries")
      case True
      with next_step have loop: "retry_loop J junk streaming env (Suc n) st1 = Inr st'"
        by (auto simp: transient_iff_retry k1 split: if_splits)
      have "\<forall>i<Suc n. transient (env i)" using True "1.prems"(4) by (auto simp: less_Suc_eq)
      moreover have "Suc n \<le> max_retries" using True "1.prems"(6) by simp
      ultimately show ?thesis
        using "1.IH" [OF _ False, of st1] loop True k1 "1.prems"(6)
        by (auto simp: transient_iff_retry Let_def)
    next
      case stop: False
      with next_step have "st' = st1" by (auto simp: transient_iff_retry k1 split: if_splits)
      with stop k1 "1.prems"(4,6) show ?thesis by (auto simp: Let_def)
    qed
  qed
qed

text \<open>
  C15: The request is performed at most four times with at most fourteen seconds of waiting;
  every attempt before the last failed transiently, by a timeout, a broken or refused connection
  or one of the statuses 429, 500, 502, 503 and 529; the result is that
  of the last attempt; and the loop stops early only after a result that is not transient or
  when the request was aborted.
\<close>

theorem retry_policy:
  assumes "retry_loop J junk streaming env 0 (start_state junk) = Inr st"
  shows "ls_performed st \<le> 4 \<and> ls_slept st \<le> 14 \<and>
    (\<forall>i. Suc i < ls_performed st \<longrightarrow> transient (env i)) \<and>
    (0 < ls_performed st \<longrightarrow> ls_res st = at_result (env (ls_performed st - 1)) \<and>
       ls_http st = at_http (env (ls_performed st - 1))) \<and>
    (ls_performed st < 4 \<longrightarrow> at_aborted_before (env (ls_performed st)) \<or>
       (0 < ls_performed st \<and> \<not> transient (env (ls_performed st - 1))))"
proof -
  note inv = retry_loop_inv [OF assms, unfolded max_retries_def]
  have start: "ls_performed (start_state junk) = 0" "ls_slept (start_state junk) = backoff 0"
    by (simp_all add: start_state_def backoff_def)
  have "\<forall>k\<in>set [0..<5]. backoff k \<le> 14" by code_simp
  then have "ls_performed st \<le> 4 \<Longrightarrow> backoff (ls_performed st) \<le> 14" by auto
  then show ?thesis using inv start by (auto simp: Let_def)
qed


definition sample_attempt :: "(bool \<times> string) list \<Rightarrow> curl_code \<Rightarrow> int \<Rightarrow> attempt" where
  "sample_attempt cs res code = \<lparr>at_aborted_before = False, at_chunks = cs, at_result = res,
     at_http = code, at_aborted_after = False\<rparr>"

lemma retry_policy_witness:
  "\<exists>st. retry_loop (sample_jlib (\<lambda>s. Inl s) (\<lambda>v. [])) System False
     (\<lambda>n. sample_attempt [] Curl_OK (if n < 2 then 503 else 200)) 0 (start_state System) = Inr st \<and>
     ls_performed st \<le> 4 \<and> ls_http st = 200"
proof -
  let ?env = "\<lambda>n. sample_attempt [] Curl_OK (if n < 2 then 503 else 200)"
  obtain st where st: "retry_loop (sample_jlib (\<lambda>s. Inl s) (\<lambda>v. [])) System False ?env 0
      (start_state System) = Inr st" "ls_http st = 200"
    by (simp add: retry_loop.simps perform_def sample_attempt_def should_retry_def
        retryable_codes_def max_retries_def reset_for_retry_def)
  from retry_policy [OF st(1)] st show ?thesis by (intro exI [of _ st]) simp
qed

section \<open>The role of the returned message\<close>

lemma cx_set_role [simp]:
  "msg_role (cx_message (cx_set_message m c)) = msg_role m"
  by (simp add: cx_set_message_def cx_message_def)

lemma apply_event_role:
  assumes "apply_event e c = Inr c'"
  shows "msg_role (cx_message c') = msg_role (cx_message c)"
proof (cases "ev_type e")
  case ContentBlockDelta
  with assms show ?thesis
    by (auto simp: apply_event_def cx_delta_def cx_write_def
        split: option.splits block_type.splits if_splits)
next
  case ContentBlockStop
  with assms show ?thesis
    by (auto simp: apply_event_def cx_stop_def cx_write_def split: option.splits if_splits)
next
  case MessageDelta
  with assms show ?thesis
    by (auto simp: apply_event_def cx_message_def Let_def split: option.splits if_splits)
next
  case Error_Event
  with assms show ?thesis
    by (auto simp: apply_event_def Let_def cx_message_def cx_set_content_def cx_set_message_def
        split: option.splits)
qed (use assms in \<open>auto simp: apply_event_def Let_def split: option.splits if_splits\<close>)

lemma process_sse_line_role:
  assumes "process_sse_line J junk l c = Inr c'"
  shows "msg_role (cx_message c') = msg_role (cx_message c)"
proof -
  have up: "cx_message (c\<lparr>cx_event_type := t\<rparr>) = cx_message c"
    "cx_message (c\<lparr>cx_seen := es\<rparr>) = cx_message c" for c t es
    by (simp_all add: cx_message_def)
  show ?thesis
    using assms
    by (auto simp: process_sse_line_def Let_def bind_exn_Inr up
        split: option.splits if_splits dest!: apply_event_role)
qed

lemma process_lines_role:
  "process_lines J junk buf c = Inr c' \<Longrightarrow> msg_role (cx_message c') = msg_role (cx_message c)"
proof (induction "length buf" arbitrary: buf c rule: less_induct)
  case less
  show ?case
  proof (cases buf rule: line_cases)
    case 1
    with less.prems show ?thesis by (auto simp: process_lines_partial cx_message_def)
  next
    case (2 l rest)
    with less.prems obtain c1 where "process_sse_line J junk (strip_cr l) c = Inr c1"
      "process_lines J junk rest c1 = Inr c'"
      by (auto simp: process_lines_step bind_exn_Inr)
    then show ?thesis using less.hyps [of rest c1] 2 by (simp add: process_sse_line_role)
  qed
qed

lemma deliver_role:
  "deliver J junk streaming cs st = Inr st1 \<Longrightarrow>
   msg_role (cx_message (ls_ctx st1)) = msg_role (cx_message (ls_ctx st))"
proof (induction J junk streaming cs st rule: deliver.induct)
  case (2 J junk streaming aborted chunk cs st)
  then show ?case
    by (cases streaming; cases aborted)
      (auto simp: bind_exn_Inr streaming_write_callback_def dest!: process_lines_role)
qed simp

lemma retry_loop_role:
  "retry_loop J junk streaming env n st = Inr st' \<Longrightarrow>
   msg_role (cx_message (ls_ctx st')) \<in> {msg_role (cx_message (ls_ctx st)), System}"
proof (induction J junk streaming env n st rule: retry_loop.induct)
  case (1 J junk streaming env n st)
  show ?case
  proof (cases "max_retries < n \<or> at_aborted_before (env n)")
    case True
    with "1.prems" show ?thesis by (auto simp: retry_loop.simps split: if_splits)
  next
    case False
    let ?st0 = "if 0 < n then reset_for_retry n st else st"
    from "1.prems" False obtain st1 where
      st1: "perform J junk streaming (env n) ?st0 = Inr st1" and
      next_step: "(if at_aborted_after (env n) then Inr st1
        else if \<not> should_retry (ls_res st1) (ls_http st1) \<or> n = max_retries then Inr st1
        else retry_loop J junk streaming env (Suc n) st1) = Inr st'"
      by (subst (asm) retry_loop.simps) (auto simp: bind_exn_Inr)
    have "msg_role (cx_message (ls_ctx st1)) = msg_role (cx_message (ls_ctx ?st0))"
      using st1 by (auto simp: perform_def bind_exn_Inr dest!: deliver_role)
    then have r1: "msg_role (cx_message (ls_ctx st1)) \<in> {msg_role (cx_message (ls_ctx st)), System}"
      by (simp add: reset_for_retry_def cx_message_def new_ctx_def blank_response_def
          blank_message_def)
    show ?thesis
    proof (cases "st' = st1")
      case True
      with r1 show ?thesis by simp
    next
      case neq: False
      with next_step have loop: "retry_loop J junk streaming env (Suc n) st1 = Inr st'"
        and "\<not> at_aborted_after (env n)"
        "\<not> (\<not> should_retry (ls_res st1) (ls_http st1) \<or> n = max_retries)"
        by (auto split: if_splits)
      then have "msg_role (cx_message (ls_ctx st')) \<in> {msg_role (cx_message (ls_ctx st1)), System}"
        using False "1.IH" by auto
      with r1 show ?thesis by auto
    qed
  qed
qed

lemma error_response_role [simp]:
  "msg_role (qr_message (error_response t r)) = msg_role (qr_message r)"
  by (simp add: error_response_def push_text_def)

lemma response_of_json_role:
  "response_of_json J junk j = Inr r \<Longrightarrow> msg_role (qr_message r) = junk"
  by (auto simp: response_of_json_def Let_def bind_exn_Inr blank_response_def blank_message_def
      split: if_splits)

lemma process_json_role:
  "process_json_response J junk body = Inr r \<Longrightarrow> msg_role (qr_message r) = junk"
  by (auto simp: process_json_response_def blank_response_def blank_message_def
      split: sum.splits dest!: response_of_json_role)

lemma create_role:
  assumes "create_message_stream J junk strerror env aborted_end q has_callback c = (Inr r, seen, c')"
  shows "msg_role (qr_message r) \<in> {junk, System}"
proof (cases "cl_has_curl c")
  case False
  with assms show ?thesis
    by (auto simp: create_message_stream_def blank_response_def blank_message_def)
next
  case True
  with assms obtain st where st:
    "retry_loop J junk (qo_stream q \<and> has_callback) env 0 (start_state junk) = Inr st"
    "finish_request J junk strerror (qo_stream q) has_callback aborted_end st = Inr r"
    by (auto simp: create_message_stream_def Let_def bind_exn_Inr split: sum.splits)
  have "msg_role (cx_message (ls_ctx st)) \<in> {junk, System}"
    using retry_loop_role [OF st(1)]
    by (simp add: start_state_def new_ctx_def cx_message_def blank_response_def blank_message_def)
  then show ?thesis
    using st(2)
    by (auto simp: finish_request_def cx_message_def Let_def bind_exn_Inr
        split: if_splits dest!: process_json_role)
qed

text \<open>
  No path of the client gives the returned message the role \<open>Assistant\<close>: it keeps whatever
  its uninitialised field held, or \<open>System\<close> after a retry. With \<open>System\<close> (zeroed memory) the
  answer that the query engine appends to the conversation leaves no trace in the next request:
  its text and its tool calls are not sent, only the tool results that answer them.
\<close>

theorem assistant_role_never_set:
  assumes "create_message_stream J junk strerror env aborted_end q has_callback c = (Inr r, seen, c')"
  shows "msg_role (qr_message r) \<in> {junk, System} \<and>
    (msg_role (qr_message r) = System \<longrightarrow>
      client_request_json J (q\<lparr>qo_messages := before @ [qr_message r] @ after\<rparr>) =
      client_request_json J (q\<lparr>qo_messages := before @ after\<rparr>))"
proof -
  have "msg_role (qr_message r) = System \<Longrightarrow> client_message_json J (qr_message r) = []"
    by (simp add: client_message_json_def Let_def)
  with create_role [OF assms] show ?thesis by (simp add: client_request_json_def Let_def)
qed

definition sample_options :: "jv query_options" where
  "sample_options = \<lparr>qo_model = \<lparr>model_id = ''m'', max_tokens = 8192, thinking = Disabled,
       thinking_budget = 10000, temperature = 0, top_k = 0, top_p = 0\<rparr>,
     qo_system_prompts = [], qo_messages = [message_user 0 ''hi''], qo_stop_sequences = [],
     qo_stream = True, qo_tools_json = JNull\<rparr>"

lemma stream_sample: "qo_stream sample_options"
  by (simp add: sample_options_def)

lemma sample_request_printable: "jv_printable (client_request_json (sample_jlib p d) sample_options)"
  by (simp add: client_request_json_def sample_options_def obj_from_def client_message_json_def
      client_block_json_def message_user_def text_json_def make_text_def make_text_block_def empty_block_def blank_message_def
      jv_is_array_def Let_def byte_in_def)

lemma assistant_role_never_set_witness:
  "\<exists>r seen c'. create_message_stream (sample_jlib (\<lambda>s. Inr (JObj [])) (\<lambda>v. [])) System (\<lambda>_. [])
      (\<lambda>n. sample_attempt [(False, sse_frame (''message_stop'', ''{}''))] Curl_OK 200) False
      sample_options True (new_client ''k'' True) = (Inr r, seen, c') \<and>
    msg_role (qr_message r) = System"
proof -
  let ?J = "sample_jlib (\<lambda>s. Inr (JObj [])) (\<lambda>v. [])"
  have "deliver ?J System True [(False, sse_frame (''message_stop'', ''{}''))] (start_state System) =
      Inr ((start_state System)\<lparr>ls_ctx := (new_ctx (blank_response System))
        \<lparr>cx_seen := [(plain_event MessageStop)\<lparr>ev_data := ''{}''\<rparr>]\<rparr>\<rparr>)"
  proof -
    have "frame_ok (''message_stop'', ''{}'')" by (simp add: frame_ok_def)
    then have "process_lines ?J System (concat (map sse_frame [(''message_stop'', ''{}'')]))
        (new_ctx (blank_response System)) =
      apply_frames ?J System [(''message_stop'', ''{}'')] (new_ctx (blank_response System))"
      by (intro process_frames) (simp_all add: new_ctx_def)
    then show ?thesis
      by (simp add: start_state_def streaming_write_callback_def new_ctx_def parse_event_def
          event_of_json_def normalize_event_type_def blank_event_def apply_event_def Let_def
          plain_event_def)
  qed
  moreover have "build_request_body ?J sample_options = Inr []"
    by (simp add: build_request_body_def dump_json_def sample_request_printable)
  ultimately obtain r seen c' where run: "create_message_stream ?J System (\<lambda>_. [])
      (\<lambda>n. sample_attempt [(False, sse_frame (''message_stop'', ''{}''))] Curl_OK 200) False
      sample_options True (new_client ''k'' True) = (Inr r, seen, c')"
    by (simp add: create_message_stream_def new_client_def retry_loop.simps
        perform_def sample_attempt_def should_retry_def finish_request_def Let_def stream_sample)
  from assistant_role_never_set [OF run] have "msg_role (qr_message r) = System" by blast
  with run show ?thesis by blast
qed


section \<open>Exceptions and the busy flag\<close>

text \<open>
  A successful non-streaming response whose JSON body has no \<open>message\<close> member (the
  Messages API puts the fields at the top level) makes the request end with a \<open>type_error\<close>
  that the client does not catch, and the busy flag stays set: every later \<open>create_message\<close>
  is refused without a request.
\<close>

theorem nonstreaming_throws_and_sticks:
  assumes "law_absent J" and "cl_has_curl c" and "\<not> cl_busy c"
    and "env 0 = sample_attempt [(False, body)] Curl_OK 200"
    and "j_parse J body = Inr j" and "j_is_object J j"
    and "\<not> j_contains J j ''error''" and "\<not> j_contains J j ''message''"
  shows "let (res, seen, c') = create_message J junk strerror env False q c in
    res = Inl Json_Type_Error \<and> cl_busy c' \<and>
    create_message J junk strerror env' aborted' q' c' =
      (Inr (error_response ''Another request is in progress'' (blank_response junk)), [], c')"
proof -
  have "j_at J j ''message'' = Some (j_null J)" "j_value_str J (j_null J) ''id'' [] = None"
    using assms(1,6,8) by (auto simp: law_absent_def)
  then have "process_json_response J junk body = Inl Json_Type_Error"
    using assms(5,7) by (simp add: process_json_response_def response_of_json_def at_exn_def
        value_str_def Let_def)
  then show ?thesis
    using assms(2-4)
    by (cases "j_printable J (client_request_json J (q\<lparr>qo_stream := False\<rparr>))")
      (simp_all add: create_message_def create_message_stream_def build_request_body_def dump_json_def
        retry_loop.simps perform_def sample_attempt_def should_retry_def finish_request_def start_state_def Let_def)
qed

lemma nonstreaming_throws_and_sticks_witness:
  "let (res, seen, c') = create_message (sample_jlib (\<lambda>s. Inr (JObj [(''id'', JStr ''msg_1'')])) (\<lambda>v. []))
      System (\<lambda>_. []) (\<lambda>n. sample_attempt [(False, ''{}'')] Curl_OK 200) False sample_options
      (new_client ''k'' True) in
    res = Inl Json_Type_Error \<and> cl_busy c'"
  using nonstreaming_throws_and_sticks [where
      J = "sample_jlib (\<lambda>s. Inr (JObj [(''id'', JStr ''msg_1'')])) (\<lambda>v. [])" and
      c = "new_client ''k'' True" and env = "\<lambda>n. sample_attempt [(False, ''{}'')] Curl_OK 200" and
      body = "''{}''" and j = "JObj [(''id'', JStr ''msg_1'')]" and junk = System and
      strerror = "\<lambda>_. []" and q = sample_options and aborted' = False and
      q' = sample_options and env' = "\<lambda>n. sample_attempt [] Curl_OK 200"]
  by (simp add: sample_laws new_client_def jv_defs case_prod_beta)

section \<open>Texts that cannot be sent\<close>

text \<open>The texts that go into a request; the input of a tool call is parsed before, so it can.\<close>

definition utf8_block :: "content_block \<Rightarrow> bool" where
  "utf8_block b =
     (case cb_type b of
        Text \<Rightarrow> utf8 (cb_text b)
      | ToolUse \<Rightarrow> utf8 (tc_id (cb_tool_call b)) \<and> utf8 (tc_name (cb_tool_call b))
      | ToolResult_Block \<Rightarrow> utf8 (tr_tool_use_id (cb_tool_result b)) \<and> utf8 (tr_content (cb_tool_result b))
      | Thinking \<Rightarrow> utf8 (cb_thinking b)
      | _ \<Rightarrow> True)"

definition sendable :: "message \<Rightarrow> bool" where
  "sendable m = (msg_role m = System \<or> (\<forall>b\<in>set (msg_content m). utf8_block b))"

definition request_laws :: "('j, 'z) jlib_scheme \<Rightarrow> bool" where
  "request_laws J = (law_set J \<and> law_object J \<and> law_printable J)"

lemma block_printable:
  assumes "request_laws J"
  shows "list_all (j_printable J) (client_block_json J b) = utf8_block b"
proof -
  have laws: "law_set J" "law_object J" "law_printable J" using assms by (simp_all add: request_laws_def)
  note printable = printableD [OF laws(3)]
  have input: "j_printable J (input_or J (j_null J) t)" for t
    by (auto simp: input_or_def printable split: sum.split)
  have "settable J (j_object J ps) \<and> (\<forall>k. j_contains J (j_object J ps) k = (k \<in> fst ` set ps))"
    if "distinct (map fst ps)" for ps
    using laws(2) that by (simp add: law_object_def settable_def)
  then show ?thesis
    by (auto simp: client_block_json_def utf8_block_def text_json_def tool_use_json_def
        tool_result_json_def Let_def printable input split: block_type.split)
qed

lemma message_printable:
  assumes "request_laws J"
  shows "list_all (j_printable J) (client_message_json J m) = sendable m"
proof -
  have laws: "law_set J" "law_printable J" using assms by (simp_all add: request_laws_def)
  have "list_all (j_printable J) (concat (map (client_block_json J) bs)) = (\<forall>b\<in>set bs. utf8_block b)" for bs
    by (induction bs) (simp_all add: block_printable [OF assms])
  then show ?thesis
    by (auto simp: client_message_json_def Let_def sendable_def obj_printable [OF laws]
        printableD [OF laws(2)] split: message_role.split)
qed

lemma request_keys:
  "distinct (map fst ([(''model'', a), (''max_tokens'', b)] @ (if p1 then [(''temperature'', c)] else [])
     @ (if p2 then [(''thinking'', d)] else []) @ (if p3 then [(''system'', e)] else []) @ [(''messages'', f)]
     @ (if p4 then [(''tools'', g)] else []) @ (if p5 then [(''stop_sequences'', h)] else []) @ [(''stream'', i)]))"
  by (cases p1; cases p2; cases p3; cases p4; cases p5) simp_all

lemma request_body_throws:
  assumes "request_laws J" and "m \<in> set (qo_messages q)" and "\<not> sendable m"
  shows "build_request_body J q = Inl Json_Type_Error"
proof -
  have laws: "law_set J" "law_printable J" using assms by (simp_all add: request_laws_def)
  have "\<not> list_all (j_printable J) (concat (map (client_message_json J) ms))" if "m \<in> set ms" for ms
    using that assms(3) message_printable [OF assms(1), of m] by (induction ms) auto
  then have "\<not> j_printable J (j_array J (concat (map (client_message_json J) (qo_messages q))))"
    using assms(2) by (simp add: printableD [OF laws(2)])
  then have "\<not> j_printable J (client_request_json J q)"
    unfolding client_request_json_def Let_def
    by (subst obj_printable [OF laws request_keys]) (simp only: list_all_append list.pred_inject prod.case simp_thms)
  then show ?thesis by (simp add: build_request_body_def dump_json_def)
qed

text \<open>
  One message with a text that is not UTF-8, such as the output of a command that was cut off in
  the middle of a character, makes every request that carries it throw before anything is sent.
\<close>

theorem unsendable_message_throws:
  assumes "request_laws J" and "m \<in> set (qo_messages q)" and "\<not> sendable m" and "cl_has_curl c"
  shows "create_message_stream J junk strerror env aborted_end q has_callback c =
    (Inl Json_Type_Error, [], c\<lparr>cl_busy := True, cl_aborted := False\<rparr>)"
  using assms(4) by (simp add: create_message_stream_def request_body_throws [OF assms(1-3)])

definition cut_message :: message where
  "cut_message = (blank_message User)\<lparr>msg_content := [make_text [CHR 0xE2, CHR 0x82]]\<rparr>"

lemma cut_message_unsendable: "\<not> sendable cut_message"
  by (simp add: sendable_def cut_message_def blank_message_def utf8_block_def make_text_def empty_block_def
      utf8_second_def byte_in_def)

lemma sample_request_laws: "request_laws coding_jlib"
  using coding_laws by (simp add: request_laws_def)

lemma unsendable_message_throws_witness:
  "fst (create_message_stream coding_jlib System (\<lambda>_. []) (\<lambda>n. sample_attempt [] Curl_OK 200) False
     (sample_options\<lparr>qo_messages := [cut_message]\<rparr>) True (new_client ''k'' True)) = Inl Json_Type_Error"
  using unsendable_message_throws [OF sample_request_laws _ cut_message_unsendable,
      where q = "sample_options\<lparr>qo_messages := [cut_message]\<rparr>" and c = "new_client ''k'' True"]
  by (simp add: new_client_def)

end
