(* ===== verification/Query_Pipeline.thy ===== *)
theory Query_Pipeline
  imports Client
begin

text \<open>
  \<open>src/engine/query_pipeline.h\<close> and \<open>query_pipeline.cpp\<close>: the pipeline's own request body,
  context window management and tool result messages.
\<close>

section \<open>Formatting\<close>

definition format_block :: "('j, 'z) jlib_scheme \<Rightarrow> content_block \<Rightarrow> 'j" where
  "format_block J b =
     (case cb_type b of
        Text \<Rightarrow> text_json J (cb_text b)
      | ToolUse \<Rightarrow> tool_use_json J (j_object J []) (cb_tool_call b)
      | ToolResult_Block \<Rightarrow> tool_result_json J (cb_tool_result b)
      | Thinking \<Rightarrow> j_object J [(''type'', j_string J ''thinking''),
                               (''thinking'', j_string J (cb_thinking b))]
      | Image \<Rightarrow> j_object J [(''type'', j_string J ''image''),
          (''source'', j_object J [(''type'', j_string J ''base64''),
                                   (''data'', j_string J (cb_image_url b))])])"

definition format_role :: "message_role \<Rightarrow> string" where
  "format_role r = (case r of User \<Rightarrow> ''user'' | Assistant \<Rightarrow> ''assistant''
     | System \<Rightarrow> ''user'' | Tool \<Rightarrow> ''user'')"

definition format_message :: "('j, 'z) jlib_scheme \<Rightarrow> message \<Rightarrow> 'j" where
  "format_message J m =
     obj_from J [(''role'', j_string J (format_role (msg_role m))),
                 (''content'', j_array J (map (format_block J) (msg_content m)))]"

definition format_messages :: "('j, 'z) jlib_scheme \<Rightarrow> message list \<Rightarrow> 'j list" where
  "format_messages J ms = map (format_message J) ms"

definition build_system_prompt :: "system_prompt list \<Rightarrow> string" where
  "build_system_prompt ps =
     foldl (\<lambda>r p. (if r \<noteq> [] then r @ [CHR 0x0A, CHR 0x0A] else r) @ sys_content p) [] ps"

definition system_item :: "('j, 'z) jlib_scheme \<Rightarrow> system_prompt \<Rightarrow> 'j" where
  "system_item J p =
     (if sys_cache_control p \<noteq> None
      then j_set J ''cache_control'' (j_object J [(''type'', j_string J ''ephemeral'')])
             (text_json J (sys_content p))
      else text_json J (sys_content p))"

definition build_system_prompt_json :: "('j, 'z) jlib_scheme \<Rightarrow> system_prompt list \<Rightarrow> 'j" where
  "build_system_prompt_json J ps =
     (if ps = [] then j_array J []
      else if length ps = 1 \<and> sys_cache_control (hd ps) = None then j_string J (sys_content (hd ps))
      else j_array J (map (system_item J) ps))"

definition pipeline_request_json :: "('j, 'z) jlib_scheme \<Rightarrow> 'j query_options \<Rightarrow> 'j" where
  "pipeline_request_json J q =
     (let m = qo_model q in
      obj_from J
        ([(''model'', j_string J (model_id m)), (''max_tokens'', j_int J (sint (max_tokens m)))]
         @ (if temperature m > 0 then [(''temperature'', j_double J (temperature m))] else [])
         @ (if thinking m = Enabled \<or> thinking m = BudgetTokens
            then [(''thinking'', thinking_json J m)] else [])
         @ (if qo_system_prompts q \<noteq> []
            then [(''system'', build_system_prompt_json J (qo_system_prompts q))] else [])
         @ [(''messages'', j_array J (format_messages J (qo_messages q)))]
         @ (if qo_stop_sequences q \<noteq> []
            then [(''stop_sequences'', j_array J (map (j_string J) (qo_stop_sequences q)))] else [])
         @ [(''stream'', j_bool J (qo_stream q))]))"

definition format_tool_result :: "('j, 'z) jlib_scheme \<Rightarrow> tool_result \<Rightarrow> 'j" where
  "format_tool_result J r =
     obj_from J ([(''type'', j_string J ''tool_result''),
        (''tool_use_id'', j_string J (tr_tool_use_id r)), (''content'', j_string J (tr_content r))]
       @ (if tr_is_error r then [(''is_error'', j_bool J True)] else []))"

section \<open>The context window\<close>

text \<open>
  Sizes are added up in an \<open>int64_t\<close>; a conversation's characters fit in it, and a quarter of
  them is exact in a \<open>double\<close>, so the estimate is the integer quotient.
\<close>

definition block_chars :: "content_block \<Rightarrow> nat" where
  "block_chars b =
     (case cb_type b of
        Text \<Rightarrow> length (cb_text b)
      | ToolUse \<Rightarrow> length (tc_name (cb_tool_call b)) + length (tc_input_json (cb_tool_call b))
      | Thinking \<Rightarrow> length (cb_thinking b)
      | _ \<Rightarrow> 0)"

definition estimate_tokens :: "message list \<Rightarrow> nat" where
  "estimate_tokens ms =
     foldl (\<lambda>t m. foldl (\<lambda>t b. t + block_chars b) t (msg_content m)) 0 ms div 4"

text \<open>\<open>max_tokens * 8 / 10\<close> in 64 bits, the division truncating.\<close>

definition eight_tenths :: "64 word \<Rightarrow> int" where
  "eight_tenths n = (let p = sint (n * 8) in if p < 0 then - ((- p) div 10) else p div 10)"

definition needs_compaction :: "message list \<Rightarrow> 64 word \<Rightarrow> bool" where
  "needs_compaction ms max_toks = (int (estimate_tokens ms) > eight_tenths max_toks)"

text \<open>
  The last \<open>max_messages\<close> messages. With a negative bound the start is beyond the end, which is
  undefined: \<open>None\<close>.
\<close>

definition trim_messages :: "message list \<Rightarrow> int \<Rightarrow> message list option" where
  "trim_messages ms max_messages =
     (if int (length ms) \<le> max_messages then Some ms
      else if max_messages < 0 then None
      else Some (drop (length ms - nat max_messages) ms))"

definition create_tool_result_message :: "int \<Rightarrow> tool_result list \<Rightarrow> message" where
  "create_tool_result_message now results =
     (blank_message User)\<lparr>msg_timestamp := now,
        msg_content := map (\<lambda>r. empty_block\<lparr>cb_type := ToolResult_Block, cb_tool_result := r\<rparr>) results\<rparr>"

section \<open>Properties\<close>

lemma foldl_block_chars: "foldl (\<lambda>t b. t + block_chars b) t bs = t + sum_list (map block_chars bs)"
  by (induction bs arbitrary: t) auto

definition message_chars :: "message \<Rightarrow> nat" where
  "message_chars m = sum_list (map block_chars (msg_content m))"

lemma estimate_tokens_eq: "estimate_tokens ms = sum_list (map message_chars ms) div 4"
proof -
  have "foldl (\<lambda>t m. foldl (\<lambda>t b. t + block_chars b) t (msg_content m)) n ms =
      n + sum_list (map message_chars ms)" for n
    by (induction ms arbitrary: n) (simp_all add: foldl_block_chars message_chars_def)
  then show ?thesis by (simp add: estimate_tokens_def)
qed

lemma tool_result_chars: "message_chars (create_tool_result_message now rs) = 0"
  by (simp add: message_chars_def create_tool_result_message_def block_chars_def blank_message_def
      comp_def)

text \<open>
  The estimate that triggers compaction grows with the conversation, but the results of
  tools count nothing: messages of tool results, of any size and anywhere, change neither the
  estimate nor whether compaction is needed.
\<close>

theorem tool_results_not_counted:
  "estimate_tokens (before @ create_tool_result_message now rs # after) =
     estimate_tokens (before @ after) \<and>
   needs_compaction (before @ create_tool_result_message now rs # after) n =
     needs_compaction (before @ after) n \<and>
   estimate_tokens before \<le> estimate_tokens (before @ after)"
  by (simp add: needs_compaction_def estimate_tokens_eq tool_result_chars div_le_mono)

text \<open>
  The two request builders of the program agree on the conversation except for system messages
  and tool calls without a readable input.
\<close>

definition same_in_both :: "('j, 'z) jlib_scheme \<Rightarrow> message \<Rightarrow> bool" where
  "same_in_both J m =
     (msg_role m \<noteq> System \<and>
      (\<forall>b\<in>set (msg_content m). cb_type b \<noteq> Image \<and>
         (cb_type b = ToolUse \<longrightarrow> tc_input_json (cb_tool_call b) \<noteq> [] \<and>
            (\<exists>v. j_parse J (tc_input_json (cb_tool_call b)) = Inr v))))"

lemma block_json_agree:
  "cb_type b \<noteq> Image \<Longrightarrow>
   (cb_type b = ToolUse \<Longrightarrow> tc_input_json (cb_tool_call b) \<noteq> [] \<and>
      (\<exists>v. j_parse J (tc_input_json (cb_tool_call b)) = Inr v)) \<Longrightarrow>
   client_block_json J b = [format_block J b]"
  by (cases "cb_type b")
    (auto simp: client_block_json_def format_block_def tool_use_json_def input_or_def)

lemma concat_singletons: "\<forall>x\<in>set xs. f x = [g x] \<Longrightarrow> concat (map f xs) = map g xs"
  by (induction xs) auto

text \<open>
  On a conversation without system messages, images, or tool calls whose input is missing
  or no JSON, the client and the pipeline send the same messages. On a tool call with an empty
  input they differ: the client sends \<open>null\<close>, the pipeline an empty object.
\<close>

theorem request_builders_agree:
  assumes "\<forall>m\<in>set ms. same_in_both J m"
  shows "concat (map (client_message_json J) ms) = format_messages J ms \<and>
    client_block_json J (empty_block\<lparr>cb_type := ToolUse,
        cb_tool_call := \<lparr>tc_id = i, tc_name = n, tc_input_json = []\<rparr>\<rparr>) =
      [tool_use_json J (j_null J) \<lparr>tc_id = i, tc_name = n, tc_input_json = []\<rparr>] \<and>
    format_block J (empty_block\<lparr>cb_type := ToolUse,
        cb_tool_call := \<lparr>tc_id = i, tc_name = n, tc_input_json = []\<rparr>\<rparr>) =
      tool_use_json J (j_object J []) \<lparr>tc_id = i, tc_name = n, tc_input_json = []\<rparr>"
proof -
  have "client_message_json J m = [format_message J m]" if m: "m \<in> set ms" for m
  proof -
    from m assms have ok: "same_in_both J m" by blast
    then have "concat (map (client_block_json J) (msg_content m)) = map (format_block J) (msg_content m)"
      by (intro concat_singletons) (auto simp: same_in_both_def intro!: block_json_agree)
    with ok show ?thesis
      by (cases "msg_role m")
        (simp_all add: client_message_json_def format_message_def format_role_def same_in_both_def Let_def)
  qed
  then have "concat (map (client_message_json J) ms) = format_messages J ms"
    unfolding format_messages_def by (intro concat_singletons) blast
  then show ?thesis by (simp add: client_block_json_def format_block_def)
qed

lemma request_builders_agree_witness:
  "let J = sample_jlib (\<lambda>s. Inr (JStr s)) (\<lambda>v. []) in
     concat (map (client_message_json J) [message_user 1 ''hi'', message_assistant 2 ''hello'' ''m'',
       message_tool_result 3 ''t1'' ''ok'' False]) =
     format_messages J [message_user 1 ''hi'', message_assistant 2 ''hello'' ''m'',
       message_tool_result 3 ''t1'' ''ok'' False]"
proof -
  let ?ms = "[message_user 1 ''hi'', message_assistant 2 ''hello'' ''m'',
       message_tool_result 3 ''t1'' ''ok'' False]"
  have "\<forall>m\<in>set ?ms. same_in_both (sample_jlib (\<lambda>s. Inr (JStr s)) (\<lambda>v. [])) m"
    by (simp add: same_in_both_def message_user_def message_assistant_def message_tool_result_def
        make_text_block_def blank_message_def empty_block_def Let_def)
  from request_builders_agree [OF this] show ?thesis by (simp add: Let_def)
qed

end
