(* ===== verification/Child_Kill.thy ===== *)
theory Child_Kill
  imports Prelude "HOL-Library.Word"
begin

text \<open>
  How a child process ends: the status \<open>waitpid\<close> gives, and \<open>kill_process_tree\<close> of
  \<open>src/util/process_utils.cpp\<close>. Times are milliseconds from the first signal; \<open>late n\<close> is how
  much longer than asked for the n-th sleep takes. The child is one that has not been waited for.
\<close>

section \<open>How a child ended\<close>

text \<open>The status \<open>waitpid\<close> stores: a code in the second byte, or a signal in the first.\<close>

definition exited :: "8 word \<Rightarrow> 32 word" where
  "exited code = push_bit 8 (ucast code)"

definition signalled :: "8 word \<Rightarrow> 32 word" where
  "signalled sig = ucast sig"

definition wexitstatus :: "32 word \<Rightarrow> int" where
  "wexitstatus w = uint (take_bit 8 (drop_bit 8 w))"

lemma wexitstatus_exited: "wexitstatus (exited code) = uint code"
proof -
  have "take_bit 8 (drop_bit 8 (push_bit 8 (ucast code :: 32 word))) = ucast code"
    by (rule bit_word_eqI) (auto simp: bit_simps dest: bit_imp_le_length)
  moreover have "take_bit 32 (uint code) = uint code"
    using uint_lt2p [of code] by (simp add: take_bit_int_eq_self)
  ultimately show ?thesis by (simp add: wexitstatus_def exited_def unsigned_ucast_eq)
qed

lemma wexitstatus_signalled: "wexitstatus (signalled sig) = 0"
proof -
  have "drop_bit 8 (ucast sig :: 32 word) = 0"
    by (rule bit_word_eqI) (auto simp: bit_simps dest: bit_imp_le_length)
  then show ?thesis by (simp add: wexitstatus_def signalled_def)
qed

section \<open>Ending a child\<close>

datatype signal = SIGTERM | SIGKILL

text \<open>
  \<open>fate\<close> is when the child has ended without being killed, and its status then; \<open>None\<close> if it
  ignores the first signal. A signal is recorded with whether the process was still the child
  of the program: once it has been waited for, its identifier may be that of another process.
\<close>

type_synonym fate = "(nat \<times> 32 word) option"

definition gone :: "fate \<Rightarrow> nat \<Rightarrow> bool" where
  "gone f now = (case f of None \<Rightarrow> False | Some (t, st) \<Rightarrow> t \<le> now)"

record ending =
  en_signals :: "(signal \<times> bool) list"
  en_polls :: nat
  en_last_poll :: nat

text \<open>\<open>kill_process_tree\<close> kills only a child that has not ended, and returns a code.\<close>

function tree_loop :: "(nat \<Rightarrow> nat) \<Rightarrow> int \<Rightarrow> fate \<Rightarrow> nat \<Rightarrow> nat \<Rightarrow> int \<times> ending" where
  "tree_loop late grace f n now =
     (if gone f now
      then (wexitstatus (snd (the f)), \<lparr>en_signals = [(SIGTERM, True)], en_polls = Suc n, en_last_poll = now\<rparr>)
      else if grace \<le> int now
      then (wexitstatus (signalled 9),
            \<lparr>en_signals = [(SIGTERM, True), (SIGKILL, True)], en_polls = Suc n, en_last_poll = now\<rparr>)
      else tree_loop late grace f (Suc n) (now + 50 + late n))"
  by pat_completeness auto
termination by (relation "measure (\<lambda>(late, grace, f, n, now). nat (grace - int now))") auto

declare tree_loop.simps [simp del]

definition kill_process_tree :: "(nat \<Rightarrow> nat) \<Rightarrow> int \<Rightarrow> fate \<Rightarrow> int \<times> ending" where
  "kill_process_tree late grace f = tree_loop late grace f 0 0"

text \<open>How long a run that has timed out spends on it, with the default grace period.\<close>

definition kill_time :: "(nat \<Rightarrow> nat) \<Rightarrow> fate \<Rightarrow> nat" where
  "kill_time late f = en_last_poll (snd (kill_process_tree late 5000 f))"

lemma tree_loop_spec:
  "tree_loop late grace f n now = (code, e) \<Longrightarrow>
   (en_signals e = [(SIGTERM, True)] \<and> gone f (en_last_poll e) \<and> code = wexitstatus (snd (the f)) \<or>
    en_signals e = [(SIGTERM, True), (SIGKILL, True)] \<and> \<not> gone f (en_last_poll e) \<and>
      grace \<le> int (en_last_poll e) \<and> code = 0)"
proof (induction late grace f n now rule: tree_loop.induct)
  case (1 late grace f n now)
  note step = "1.prems" [unfolded tree_loop.simps [of late grace f n now]]
  show ?case
  proof (cases "gone f now \<or> grace \<le> int now")
    case True
    with step show ?thesis by (auto simp: wexitstatus_signalled split: if_splits)
  next
    case False
    with step "1.IH" show ?thesis by simp
  qed
qed

text \<open>
  \<open>kill_process_tree\<close> sends the kill only to a child that is still there, after the grace period.
  The code it returns is that of a normal exit only if there was one: a child that a signal has
  ended, the first or the second, is reported with the code 0 of a success.
\<close>

theorem kill_tree_result:
  assumes "kill_process_tree late grace f = (code, e)"
  shows "(\<forall>(sig, mine)\<in>set (en_signals e). mine) \<and>
    ((SIGKILL, True) \<in> set (en_signals e) \<longleftrightarrow> \<not> gone f (en_last_poll e)) \<and>
    ((SIGKILL, True) \<in> set (en_signals e) \<longrightarrow> grace \<le> int (en_last_poll e) \<and> code = 0) \<and>
    (\<forall>t c. f = Some (t, exited c) \<and> (SIGKILL, True) \<notin> set (en_signals e) \<longrightarrow> code = uint c) \<and>
    (\<forall>t sig. f = Some (t, signalled sig) \<longrightarrow> code = 0)"
  using tree_loop_spec [OF assms [unfolded kill_process_tree_def]]
  by (elim disjE) (auto simp: wexitstatus_exited wexitstatus_signalled)

section \<open>Witness\<close>

lemma kill_tree_result_witness:
  "\<exists>e. kill_process_tree (\<lambda>_. 0) 5000 (Some (50, signalled 15)) = (0, e) \<and>
    (\<forall>(sig, mine)\<in>set (en_signals e). mine)"
proof -
  obtain code e where run: "kill_process_tree (\<lambda>_. 0) 5000 (Some (50, signalled 15)) = (code, e)"
    by (rule prod.exhaust)
  from kill_tree_result [OF run] run show ?thesis by auto
qed

end
