(* ===== verification/Process.thy ===== *)
theory Process
  imports Json Child_Kill
begin

text \<open>
  Running programs: \<open>src/util/process_utils.h\<close> and \<open>process_utils.cpp\<close>, and the git queries
  of \<open>src/util/git_utils.cpp\<close> built on it.

  The operating system is an argument: \<open>os\<close> gives, for a program, its arguments and the
  options, what the child does (\<open>child\<close> below), with times in milliseconds from the start.
  A call that never returns is \<open>None\<close>. The time left is an \<open>int\<close> of 32 bits, as the code has it.
  Not modelled: \<open>poll\<close> failing (when interrupted it is called again, with the time left then), and
  the time measured for statistics.
\<close>

section \<open>Options and results\<close>

record process_result =
  pr_exit_code :: int
  pr_stdout :: string
  pr_stderr :: string
  pr_timed_out :: bool

record process_options =
  po_timeout_seconds :: int
  po_working_directory :: string
  po_extra_env :: "string list"
  po_merge_stderr :: bool
  po_capture_output :: bool
  po_max_output_bytes :: nat
  po_stdin_input :: string

definition default_options :: process_options where
  "default_options = \<lparr>po_timeout_seconds = 120, po_working_directory = [], po_extra_env = [],
     po_merge_stderr = False, po_capture_output = True, po_max_output_bytes = 50000,
     po_stdin_input = []\<rparr>"

definition success :: "process_result \<Rightarrow> bool" where
  "success r = (pr_exit_code r = 0 \<and> \<not> pr_timed_out r)"

definition failed_result :: "string \<Rightarrow> process_result" where
  "failed_result msg = \<lparr>pr_exit_code = -1, pr_stdout = [], pr_stderr = msg, pr_timed_out = False\<rparr>"

section \<open>Children\<close>

text \<open>What arrives on a pipe and when, and when its last writer closes it (\<open>None\<close>: never).\<close>

record pipe_stream =
  ps_chunks :: "(nat \<times> string) list"
  ps_closed :: "nat option"

text \<open>
  \<open>ch_stdout\<close> is what arrives on the stdout pipe (both outputs when they are merged). The exit
  is a time and, for a normal exit, its code. The last two say how the child takes the signals of
  \<open>kill_process_tree\<close>, from the first of them (\<open>Child_Kill\<close>).
\<close>

record child =
  ch_pipes_ok :: bool
  ch_stdin_ok :: bool
  ch_fork_ok :: bool
  ch_strerror :: string
  ch_stdout :: pipe_stream
  ch_stderr :: pipe_stream
  ch_exit :: "(nat \<times> int option) option"
  ch_terminated :: fate
  ch_late :: "nat \<Rightarrow> nat"

text \<open>
  \<open>read_pipe\<close> reads until the end of the stream or the limit, without a timeout: what it has
  read, and the time at which it returns.
\<close>

fun read_pipe :: "nat \<Rightarrow> nat option \<Rightarrow> (nat \<times> string) list \<Rightarrow> string \<Rightarrow> nat \<Rightarrow> string \<times> nat option" where
  "read_pipe max_bytes eof [] buffer now = (buffer, map_option (max now) eof)"
| "read_pipe max_bytes eof ((t, d) # cs) buffer now =
     (if length buffer + length d > max_bytes
      then (buffer @ take (max_bytes - length buffer) d, Some (max now t))
      else read_pipe max_bytes eof cs (buffer @ d) (max now t))"

definition ready_time :: "pipe_stream \<Rightarrow> nat option" where
  "ready_time s = (case ps_chunks s of (t, d) # cs \<Rightarrow> Some t | [] \<Rightarrow> ps_closed s)"

datatype fd = Out | Err

definition stream_of :: "child \<Rightarrow> fd \<Rightarrow> pipe_stream" where
  "stream_of c f = (case f of Out \<Rightarrow> ch_stdout c | Err \<Rightarrow> ch_stderr c)"

text \<open>The earliest time at which one of the descriptors is ready.\<close>

fun next_ready :: "child \<Rightarrow> fd list \<Rightarrow> nat option" where
  "next_ready c [] = None"
| "next_ready c (f # fs) =
     (case (ready_time (stream_of c f), next_ready c fs) of
        (None, r) \<Rightarrow> r
      | (Some t, None) \<Rightarrow> Some t
      | (Some t, Some u) \<Rightarrow> Some (min t u))"

definition store :: "fd \<Rightarrow> string \<Rightarrow> process_result \<Rightarrow> process_result" where
  "store f d r = (case f of Out \<Rightarrow> r\<lparr>pr_stdout := pr_stdout r @ d\<rparr>
                          | Err \<Rightarrow> r\<lparr>pr_stderr := pr_stderr r @ d\<rparr>)"

text \<open>The scan over the descriptors after one \<open>poll\<close>, those ready at time \<open>tm\<close> being read.\<close>

definition ready_by :: "nat \<Rightarrow> pipe_stream \<Rightarrow> bool" where
  "ready_by tm s = (case ready_time s of Some t \<Rightarrow> t \<le> tm | None \<Rightarrow> False)"

fun read_ready ::
  "child \<Rightarrow> nat \<Rightarrow> nat \<Rightarrow> fd list \<Rightarrow> process_result \<Rightarrow> nat \<Rightarrow> (process_result \<times> nat \<times> fd list) option" where
  "read_ready c max_bytes tm [] r now = Some (r, now, [])"
| "read_ready c max_bytes tm (f # fs) r now =
     (if ready_by tm (stream_of c f)
      then (case read_pipe max_bytes (ps_closed (stream_of c f)) (ps_chunks (stream_of c f)) [] now of
              (d, None) \<Rightarrow> None
            | (d, Some later) \<Rightarrow> read_ready c max_bytes tm fs (store f d r) later)
      else map_option (\<lambda>(r, now, rest). (r, now, f # rest)) (read_ready c max_bytes tm fs r now))"

text \<open>The time left, in milliseconds: the cast to \<open>int\<close> wraps.\<close>

definition remaining :: "nat \<Rightarrow> nat \<Rightarrow> int" where
  "remaining deadline now = sint (word_of_int (int deadline - int now) :: 32 word)"

text \<open>
  The \<open>poll\<close> loop: each round that does not time out reads at least one descriptor, so there
  are at most as many rounds as descriptors (the first argument).
\<close>

fun poll_loop ::
  "nat \<Rightarrow> child \<Rightarrow> nat \<Rightarrow> nat \<Rightarrow> fd list \<Rightarrow> process_result \<Rightarrow> nat \<Rightarrow> (process_result \<times> nat) option" where
  "poll_loop rounds c max_bytes deadline [] r now = Some (r, now)"
| "poll_loop 0 c max_bytes deadline (f # fs) r now = Some (r\<lparr>pr_timed_out := True\<rparr>, now)"
| "poll_loop (Suc rounds) c max_bytes deadline (f # fs) r now =
     (let timeout_ms = remaining deadline now; until = now + nat timeout_ms in
      if timeout_ms \<le> 0 then Some (r\<lparr>pr_timed_out := True\<rparr>, now)
      else case next_ready c (f # fs) of
             None \<Rightarrow> Some (r\<lparr>pr_timed_out := True\<rparr>, until)
           | Some t \<Rightarrow>
               (let tm = max now t in
                if until \<le> tm then Some (r\<lparr>pr_timed_out := True\<rparr>, until)
                else case read_ready c max_bytes tm (f # fs) r tm of
                       None \<Rightarrow> None
                     | Some (r1, now1, rest) \<Rightarrow> poll_loop rounds c max_bytes deadline rest r1 now1))"

type_synonym os = "string \<Rightarrow> string list \<Rightarrow> process_options \<Rightarrow> child"

definition deadline_of :: "process_options \<Rightarrow> nat" where
  "deadline_of o1 =
     1000 * nat (if po_timeout_seconds o1 > 0 then po_timeout_seconds o1 else 120)"

definition open_fds :: "process_options \<Rightarrow> fd list" where
  "open_fds o1 = (if po_capture_output o1 then [Out] else [])
     @ (if \<not> po_merge_stderr o1 \<and> po_capture_output o1 then [Err] else [])"

text \<open>The result and the time of the return; a child that has timed out is killed first.\<close>

definition exec_fork ::
  "os \<Rightarrow> string \<Rightarrow> string list \<Rightarrow> process_options \<Rightarrow> (process_result \<times> nat) option" where
  "exec_fork os program args opts =
     (let c = os program args opts;
          r0 = \<lparr>pr_exit_code = -1, pr_stdout = [], pr_stderr = [], pr_timed_out = False\<rparr>;
          fds = open_fds opts
      in if po_capture_output opts \<and> \<not> ch_pipes_ok c
         then Some (failed_result (''Failed to create pipes: '' @ ch_strerror c), 0)
         else if po_stdin_input opts \<noteq> [] \<and> \<not> ch_stdin_ok c
         then Some (failed_result ''Failed to create stdin pipe'', 0)
         else if \<not> ch_fork_ok c
         then Some (failed_result (''Fork failed: '' @ ch_strerror c), 0)
         else case poll_loop (length fds) c (po_max_output_bytes opts) (deadline_of opts) fds r0 0 of
                None \<Rightarrow> None
              | Some (r, now) \<Rightarrow>
                  if pr_timed_out r
                  then Some (r\<lparr>pr_exit_code := -1\<rparr>, now + kill_time (ch_late c) (ch_terminated c))
                  else (case ch_exit c of
                          None \<Rightarrow> None
                        | Some (t, code) \<Rightarrow>
                            Some (r\<lparr>pr_exit_code := (case code of Some n \<Rightarrow> n | None \<Rightarrow> -1)\<rparr>,
                                  max now t)))"

definition exec_program :: "os \<Rightarrow> string \<Rightarrow> string list \<Rightarrow> process_options \<Rightarrow> process_result option" where
  "exec_program os program args opts = map_option fst (exec_fork os program args opts)"

text \<open>
  \<open>exec_command\<close> writes the command to a script file and runs it with bash. \<open>tmp\<close> is the
  name \<open>mkstemp\<close> gives, or \<open>None\<close> when it fails; the script is an argument of \<open>os\<close> here.
\<close>

definition command_script :: "string \<Rightarrow> string" where
  "command_script command =
     ''#!/bin/bash'' @ [CHR 0x0A] @ ''set -o pipefail'' @ [CHR 0x0A] @ command @ [CHR 0x0A]"

definition exec_command ::
  "(string \<Rightarrow> os) \<Rightarrow> string option \<Rightarrow> string \<Rightarrow> process_options \<Rightarrow> process_result option" where
  "exec_command os_with_script tmp command opts =
     (case tmp of
        None \<Rightarrow> Some (failed_result ''Failed to create temp file'')
      | Some name \<Rightarrow>
          map_option fst (exec_fork (os_with_script (command_script command)) ''/bin/bash'' [name] opts))"

definition command_exists :: "os \<Rightarrow> string \<Rightarrow> bool option" where
  "command_exists os program =
     map_option (\<lambda>r. pr_exit_code r = 0)
       (exec_program os ''which'' [program] (default_options\<lparr>po_working_directory := ''.'',
          po_capture_output := False, po_merge_stderr := True\<rparr>))"

section \<open>git\<close>

definition git_options :: "string \<Rightarrow> int \<Rightarrow> process_options" where
  "git_options cwd timeout = default_options\<lparr>po_working_directory := cwd,
     po_timeout_seconds := timeout, po_merge_stderr := True\<rparr>"

definition git_exec :: "os \<Rightarrow> string \<Rightarrow> string list \<Rightarrow> string option option" where
  "git_exec os cwd args =
     map_option (\<lambda>r. if \<not> success r then None else Some (pr_stdout r))
       (exec_program os ''git'' args (git_options cwd 10))"

definition is_git_repo :: "os \<Rightarrow> string \<Rightarrow> bool option" where
  "is_git_repo os cwd =
     map_option (\<lambda>r. pr_exit_code r = 0 \<and> contains_str (pr_stdout r) ''true'')
       (exec_program os ''git'' [''rev-parse'', ''--is-inside-work-tree'']
          ((git_options cwd 5)\<lparr>po_capture_output := False\<rparr>))"

definition git_query ::
  "os \<Rightarrow> string \<Rightarrow> int \<Rightarrow> string list \<Rightarrow> string \<Rightarrow> string option" where
  "git_query os cwd timeout args otherwise =
     map_option (\<lambda>r. if success r then pr_stdout r else otherwise)
       (exec_program os ''git'' args (git_options cwd timeout))"

definition get_git_branch :: "os \<Rightarrow> string \<Rightarrow> string option" where
  "get_git_branch os cwd =
     git_query os cwd 5 [''rev-parse'', ''--abbrev-ref'', ''HEAD''] ''unknown''"

definition util_git_status :: "os \<Rightarrow> string \<Rightarrow> string option" where
  "util_git_status os cwd =
     git_query os cwd 10 [''--no-optional-locks'', ''status'', ''--short''] []"

definition get_git_log :: "os \<Rightarrow> string \<Rightarrow> int \<Rightarrow> string option" where
  "get_git_log os cwd n =
     git_query os cwd 10 [''--no-optional-locks'', ''log'', ''--oneline'', ''-n'', int_to_string n] []"

definition get_git_user :: "os \<Rightarrow> string \<Rightarrow> string option" where
  "get_git_user os cwd = git_query os cwd 5 [''config'', ''user.name''] []"

definition get_default_branch :: "os \<Rightarrow> string \<Rightarrow> string option" where
  "get_default_branch os cwd =
     (case exec_program os ''git'' [''symbolic-ref'', ''refs/remotes/origin/HEAD'', ''--short'']
             (git_options cwd 5) of
        None \<Rightarrow> None
      | Some r \<Rightarrow>
          (case (if success r \<and> pr_stdout r \<noteq> [] then str_find ''origin/'' (pr_stdout r) else None) of
             Some pos \<Rightarrow> Some (drop (pos + 7) (pr_stdout r))
           | None \<Rightarrow>
               map_option (\<lambda>r. if success r then ''main'' else ''master'')
                 (exec_program os ''git'' [''rev-parse'', ''--verify'', ''refs/heads/main'']
                    (git_options cwd 5))))"

definition get_git_root :: "os \<Rightarrow> string \<Rightarrow> string option" where
  "get_git_root os cwd = git_query os cwd 5 [''rev-parse'', ''--show-toplevel''] cwd"


section \<open>What a run returns\<close>

lemma read_pipe_data:
  "length buffer \<le> max_bytes \<Longrightarrow>
   fst (read_pipe max_bytes eof cs buffer now) = take max_bytes (buffer @ concat (map snd cs))"
proof (induction max_bytes eof cs buffer now rule: read_pipe.induct)
  case (2 max_bytes eof t d cs buffer now)
  then show ?case by (auto simp: take_append)
qed simp

lemma read_pipe_length: "length buffer \<le> max_bytes \<Longrightarrow>
   length (fst (read_pipe max_bytes eof cs buffer now)) \<le> max_bytes"
  by (simp add: read_pipe_data)

text \<open>
  \<open>all\<close> are the descriptors that were open at first and \<open>fds\<close> those still open: the others
  have been read, up to the limit.
\<close>

definition written :: "child \<Rightarrow> fd \<Rightarrow> string" where
  "written c f = concat (map snd (ps_chunks (stream_of c f)))"

definition output_of :: "process_result \<Rightarrow> fd \<Rightarrow> string" where
  "output_of r f = (case f of Out \<Rightarrow> pr_stdout r | Err \<Rightarrow> pr_stderr r)"

definition outputs_read :: "child \<Rightarrow> nat \<Rightarrow> fd list \<Rightarrow> fd list \<Rightarrow> process_result \<Rightarrow> bool" where
  "outputs_read c n all fds r =
     (distinct fds \<and> set fds \<subseteq> set all \<and> pr_exit_code r = -1 \<and>
      (\<forall>f. output_of r f = (if f \<in> set all \<and> f \<notin> set fds then take n (written c f) else [])))"

lemma output_store [simp]:
  "output_of (store f d r) g = (if g = f then output_of r f @ d else output_of r g)"
  by (cases f; cases g) (auto simp: output_of_def store_def)

lemma store_fields [simp]:
  "pr_exit_code (store f d r) = pr_exit_code r" "pr_timed_out (store f d r) = pr_timed_out r"
  by (cases f; simp add: store_def)+

lemma outputs_timed_out [simp]:
  "outputs_read c n all fds (r\<lparr>pr_timed_out := b\<rparr>) = outputs_read c n all fds r"
proof -
  have "output_of (r\<lparr>pr_timed_out := b\<rparr>) f = output_of r f" for f
    by (cases f) (simp_all add: output_of_def)
  then show ?thesis by (simp add: outputs_read_def)
qed

lemma read_ready_outputs:
  assumes "read_ready c n tm fds r now = Some (r', now', rest)"
    and "outputs_read c n all (before @ fds) r"
  shows "outputs_read c n all (before @ rest) r' \<and> pr_timed_out r' = pr_timed_out r"
  using assms
proof (induction c n tm fds r now arbitrary: r' now' rest before rule: read_ready.induct)
  case (2 c n tm f fs r now)
  let ?d = "read_pipe n (ps_closed (stream_of c f)) (ps_chunks (stream_of c f)) [] now"
  show ?case
  proof (cases "ready_by tm (stream_of c f)")
    case False
    with "2.prems"(1) obtain rest0 where "read_ready c n tm fs r now = Some (r', now', rest0)"
      "rest = f # rest0" by auto
    then show ?thesis
      using "2.IH"(2) [OF False, of r' now' rest0 "before @ [f]"] "2.prems"(2) by simp
  next
    case True
    obtain d e where de: "?d = (d, e)" by (cases ?d)
    with True "2.prems"(1) obtain later where e: "e = Some later"
      and run: "read_ready c n tm fs (store f d r) later = Some (r', now', rest)"
      by (auto split: option.splits)
    have "d = take n (written c f)"
      using de read_pipe_data [of "[]" n "ps_closed (stream_of c f)" "ps_chunks (stream_of c f)" now]
      by (simp add: written_def)
    then have "outputs_read c n all (before @ fs) (store f d r)"
      using "2.prems"(2) by (auto simp: outputs_read_def)
    with "2.IH"(1) [OF True de [symmetric] e run] show ?thesis by simp
  qed
qed simp

lemma poll_loop_outputs:
  assumes "poll_loop k c n deadline fds r now = Some (r', now')" and "outputs_read c n all fds r"
    and "\<not> pr_timed_out r"
  shows "\<exists>rest. outputs_read c n all rest r' \<and> pr_timed_out r' = (rest \<noteq> [])"
  using assms
proof (induction k c n deadline fds r now rule: poll_loop.induct)
  case (1 k c n deadline r now)
  then show ?case by auto
next
  case (2 c n deadline f fs r now)
  then show ?case by (intro exI [of _ "f # fs"]) auto
next
  case (3 k c n deadline f fs r now)
  show ?case
  proof (cases "remaining deadline now \<le> 0 \<or> next_ready c (f # fs) = None \<or>
      now + nat (remaining deadline now) \<le> max now (the (next_ready c (f # fs)))")
    case True
    with "3.prems"(1) have "r' = r\<lparr>pr_timed_out := True\<rparr>"
      by (auto simp del: next_ready.simps simp: Let_def split: if_splits option.splits)
    with "3.prems"(2) show ?thesis
      by (intro exI [of _ "f # fs"]) simp
  next
    case False
    then obtain t where t: "next_ready c (f # fs) = Some t" and
      time: "\<not> remaining deadline now \<le> 0" "\<not> now + nat (remaining deadline now) \<le> max now t"
      by (auto simp del: next_ready.simps)
    with "3.prems"(1) obtain r1 now1 rest where
      rr: "read_ready c n (max now t) (f # fs) r (max now t) = Some (r1, now1, rest)" and
      run: "poll_loop k c n deadline rest r1 now1 = Some (r', now')"
      by (auto simp del: next_ready.simps read_ready.simps simp: Let_def split: option.splits)
    have "outputs_read c n all rest r1" "\<not> pr_timed_out r1"
      using read_ready_outputs [OF rr, of all "[]"] "3.prems"(2,3) by auto
    from "3.IH" [OF refl refl time(1) t refl time(2) rr refl refl run this] show ?thesis .
  qed
qed

lemma remaining_exact:
  assumes "int deadline < 2 ^ 31" and "now \<le> deadline + 2 ^ 31"
  shows "remaining deadline now = int deadline - int now"
proof -
  have "signed_take_bit 31 (int deadline - int now) = int deadline - int now"
    using assms by (intro signed_take_bit_int_eq_self) simp_all
  then show ?thesis by (simp only: remaining_def signed_of_int) simp
qed

lemma remaining_late: "int deadline < 2 ^ 31 \<Longrightarrow> remaining deadline now \<le> 0 \<Longrightarrow> deadline \<le> now"
  using remaining_exact [of deadline now] by (cases "now \<le> deadline + 2 ^ 31") auto

lemma remaining_end:
  "int deadline < 2 ^ 31 \<Longrightarrow> deadline \<le> now + nat (remaining deadline now)"
  using remaining_exact [of deadline now] by (cases "now \<le> deadline") auto

lemma remaining_wrapped:
  assumes "2 ^ 31 \<le> int deadline" and "int deadline < 2 ^ 32"
  shows "remaining deadline 0 \<le> 0"
proof -
  have "int deadline div 2 ^ 31 = 1"
    using assms by (intro int_div_pos_eq [where r = "int deadline - 2 ^ 31"]) simp_all
  then have "drop_bit 31 (int deadline) = 1" by (simp only: drop_bit_eq_div)
  then have "signed_take_bit 31 (int deadline) = int deadline - 2 ^ 32"
    using assms signed_take_bit_eq_take_bit_minus [of 31 "int deadline"]
    by (simp add: take_bit_int_eq_self bit_iff_odd_drop_bit)
  with assms show ?thesis by (simp only: remaining_def signed_of_int) simp
qed

lemma deadline_bound: "po_timeout_seconds opts \<le> 2147483 \<Longrightarrow> int (deadline_of opts) < 2 ^ 31"
  by (simp add: deadline_of_def)

text \<open>A stream that ends before a time has been read by then.\<close>

definition ends_before :: "nat \<Rightarrow> pipe_stream \<Rightarrow> bool" where
  "ends_before d s = ((\<forall>(u, x)\<in>set (ps_chunks s). u < d) \<and>
     (case ps_closed s of Some e \<Rightarrow> e < d | None \<Rightarrow> False))"

lemma read_pipe_never: "snd (read_pipe n eof cs buf now) = None \<Longrightarrow> eof = None"
  by (induction n eof cs buf now rule: read_pipe.induct) (auto split: if_splits)

lemma read_pipe_waits:
  "length (buf @ concat (map snd cs)) \<le> n \<Longrightarrow> snd (read_pipe n None cs buf now) = None"
  by (induction n "None :: nat option" cs buf now rule: read_pipe.induct) auto

lemma read_pipe_time:
  "read_pipe n eof cs buf now = (x, Some t) \<Longrightarrow>
   now \<le> t \<and> (now < d \<and> (\<forall>(u, y)\<in>set cs. u < d) \<and> (\<forall>e. eof = Some e \<longrightarrow> e < d) \<longrightarrow> t < d)"
  by (induction n eof cs buf now rule: read_pipe.induct) (fastforce split: if_splits)+

lemma read_ready_never:
  "read_ready c n tm fds r now = None \<Longrightarrow> \<exists>f\<in>set fds. ps_closed (stream_of c f) = None"
proof (induction c n tm fds r now rule: read_ready.induct)
  case (2 c n tm f fs r now)
  then show ?case
    using read_pipe_never [of n "ps_closed (stream_of c f)" "ps_chunks (stream_of c f)" "[]" now]
    by (auto split: if_splits prod.splits option.splits)
qed simp

lemma read_ready_times:
  "read_ready c n tm fds r now = Some (r', now', rest) \<Longrightarrow>
   now \<le> now' \<and> set rest \<subseteq> set fds \<and> length rest \<le> length fds \<and>
   ((\<exists>f\<in>set fds. ready_by tm (stream_of c f)) \<longrightarrow> length rest < length fds) \<and>
   (now < d \<and> (\<forall>f\<in>set fds. ends_before d (stream_of c f)) \<longrightarrow> now' < d)"
proof (induction c n tm fds r now arbitrary: r' now' rest rule: read_ready.induct)
  case (2 c n tm f fs r now)
  show ?case
  proof (cases "ready_by tm (stream_of c f)")
    case False
    with "2.prems" obtain rest0 where "read_ready c n tm fs r now = Some (r', now', rest0)"
      "rest = f # rest0" by auto
    with "2.IH"(2) [OF False this(1)] False show ?thesis by auto
  next
    case True
    obtain x e where x: "read_pipe n (ps_closed (stream_of c f)) (ps_chunks (stream_of c f)) [] now = (x, e)"
      by (rule prod.exhaust)
    with True "2.prems" obtain later where e: "e = Some later"
      and run: "read_ready c n tm fs (store f x r) later = Some (r', now', rest)"
      by (auto split: option.splits)
    have "now \<le> later \<and> (now < d \<and> ends_before d (stream_of c f) \<longrightarrow> later < d)"
      using read_pipe_time [OF x [unfolded e], of d] by (auto simp: ends_before_def split: option.splits)
    with "2.IH"(1) [OF True x [symmetric] e run] True show ?thesis by auto
  qed
qed simp

lemma read_ready_timed:
  "read_ready c n tm fds r now = Some (r', now', rest) \<Longrightarrow> pr_timed_out r' = pr_timed_out r"
  by (induction c n tm fds r now arbitrary: r' now' rest rule: read_ready.induct)
    (fastforce split: if_splits prod.splits option.splits)+

lemma next_ready_in: "next_ready c fds = Some t \<Longrightarrow> \<exists>f\<in>set fds. ready_time (stream_of c f) = Some t"
  by (induction c fds rule: next_ready.induct) (fastforce simp: min_def split: option.splits if_splits)+

lemma ready_time_ends: "ends_before d s \<Longrightarrow> \<exists>t<d. ready_time s = Some t"
  by (cases "ps_chunks s") (auto simp: ready_time_def ends_before_def split: option.splits)

lemma next_ready_some:
  "fds \<noteq> [] \<Longrightarrow> \<forall>f\<in>set fds. ends_before d (stream_of c f) \<Longrightarrow> \<exists>t<d. next_ready c fds = Some t"
proof (induction c fds rule: next_ready.induct)
  case (2 c f fs)
  obtain t where "ready_time (stream_of c f) = Some t" "t < d"
    using 2 ready_time_ends [of d "stream_of c f"] by auto
  with 2 show ?case by (cases "fs = []") auto
qed simp

lemma poll_loop_never:
  "poll_loop k c n deadline fds r now = None \<Longrightarrow> \<exists>f\<in>set fds. ps_closed (stream_of c f) = None"
proof (induction k c n deadline fds r now rule: poll_loop.induct)
  case (3 k c n deadline f fs r now)
  from "3.prems" obtain t where t: "next_ready c (f # fs) = Some t" and
    time: "\<not> remaining deadline now \<le> 0" "\<not> now + nat (remaining deadline now) \<le> max now t"
    by (auto simp del: next_ready.simps simp: Let_def split: if_splits option.splits)
  show ?case
  proof (cases "read_ready c n (max now t) (f # fs) r (max now t)")
    case None
    then show ?thesis by (rule read_ready_never)
  next
    case (Some q)
    obtain r1 now1 rest where q: "q = (r1, now1, rest)" by (rule prod_cases3)
    with "3.prems" t time Some have run: "poll_loop k c n deadline rest r1 now1 = None"
      by (simp del: next_ready.simps read_ready.simps add: Let_def)
    with "3.IH" [OF refl refl time(1) t refl time(2) Some q [symmetric] refl] read_ready_times [OF Some [unfolded q]]
    show ?thesis by blast
  qed
qed simp_all

lemma poll_loop_times:
  assumes "poll_loop k c n deadline fds r now = Some (r', now')" and "\<not> pr_timed_out r"
    and "length fds \<le> k" and "int deadline < 2 ^ 31"
  shows "(pr_timed_out r' \<longrightarrow> deadline \<le> now') \<and>
    (now < deadline \<and> (\<forall>f\<in>set fds. ends_before deadline (stream_of c f)) \<longrightarrow> \<not> pr_timed_out r')"
  using assms
proof (induction k c n deadline fds r now rule: poll_loop.induct)
  case (3 k c n deadline f fs r now)
  show ?case
  proof (cases "remaining deadline now \<le> 0 \<or> next_ready c (f # fs) = None \<or>
      now + nat (remaining deadline now) \<le> max now (the (next_ready c (f # fs)))")
    case True
    with "3.prems"(1) have "r' = r\<lparr>pr_timed_out := True\<rparr>"
      "now' = now \<and> remaining deadline now \<le> 0 \<or> now' = now + nat (remaining deadline now)"
      by (auto simp del: next_ready.simps simp: Let_def split: if_splits option.splits)
    moreover from this(2) have "deadline \<le> now'"
      using remaining_late [OF "3.prems"(4)] remaining_end [OF "3.prems"(4)] by auto
    moreover have False
      if early: "now < deadline" and all: "\<forall>g\<in>set (f # fs). ends_before deadline (stream_of c g)"
    proof -
      from all obtain t where "next_ready c (f # fs) = Some t" "t < deadline"
        using next_ready_some [of "f # fs"] by blast
      moreover have "remaining deadline now = int deadline - int now"
        using remaining_exact [OF "3.prems"(4)] early by simp
      ultimately show False using True early by (simp del: next_ready.simps)
    qed
    ultimately show ?thesis by blast
  next
    case False
    then obtain t where t: "next_ready c (f # fs) = Some t" and
      time: "\<not> remaining deadline now \<le> 0" "\<not> now + nat (remaining deadline now) \<le> max now t"
      by (auto simp del: next_ready.simps)
    with "3.prems"(1) obtain r1 now1 rest where
      rr: "read_ready c n (max now t) (f # fs) r (max now t) = Some (r1, now1, rest)" and
      run: "poll_loop k c n deadline rest r1 now1 = Some (r', now')"
      by (auto simp del: next_ready.simps read_ready.simps simp: Let_def split: option.splits)
    have "\<exists>g\<in>set (f # fs). ready_by (max now t) (stream_of c g)"
      using next_ready_in [OF t] by (fastforce simp: ready_by_def)
    with read_ready_times [OF rr, of deadline] "3.prems"(3)
    have rest: "length rest \<le> k" "set rest \<subseteq> set (f # fs)"
      "max now t < deadline \<and> (\<forall>g\<in>set (f # fs). ends_before deadline (stream_of c g)) \<Longrightarrow> now1 < deadline"
      by auto
    have "\<not> pr_timed_out r1"
      using read_ready_timed [OF rr] "3.prems"(2) by simp
    note IH = "3.IH" [OF refl refl time(1) t refl time(2) rr refl refl run this rest(1) "3.prems"(4)]
    have "now1 < deadline" if "now < deadline" "\<forall>g\<in>set (f # fs). ends_before deadline (stream_of c g)"
    proof -
      from next_ready_some [OF _ that(2)] t have "t < deadline" by fastforce
      with that rest(3) show ?thesis by simp
    qed
    with IH rest(2) show ?thesis by blast
  qed
qed simp_all
section \<open>The result of a run\<close>

definition started :: "process_options \<Rightarrow> child \<Rightarrow> bool" where
  "started opts c = ((po_capture_output opts \<longrightarrow> ch_pipes_ok c) \<and>
     (po_stdin_input opts \<noteq> [] \<longrightarrow> ch_stdin_ok c) \<and> ch_fork_ok c)"

text \<open>All that is said about the result \<open>r\<close> and the time \<open>t\<close> of a run that returns.\<close>

definition faithful :: "process_options \<Rightarrow> child \<Rightarrow> process_result \<Rightarrow> nat \<Rightarrow> bool" where
  "faithful opts c r t =
     (if \<not> started opts c then t = 0 \<and> (\<exists>msg. r = failed_result msg)
      else if pr_timed_out r
      then pr_exit_code r = -1 \<and>
        (\<exists>f\<in>set (open_fds opts). output_of r f = [] \<and>
          (\<forall>g. g \<noteq> f \<longrightarrow> output_of r g \<in> {[], take (po_max_output_bytes opts) (written c g)}))
      else (\<exists>u code. ch_exit c = Some (u, code) \<and> u \<le> t \<and>
          pr_exit_code r = (case code of Some n \<Rightarrow> n | None \<Rightarrow> -1)) \<and>
        (\<forall>f. output_of r f = (if f \<in> set (open_fds opts)
           then take (po_max_output_bytes opts) (written c f) else [])))"

lemma exec_fork_run:
  assumes "started opts (os prog args opts)"
  shows "exec_fork os prog args opts =
    (let c = os prog args opts; fds = open_fds opts in
     case poll_loop (length fds) c (po_max_output_bytes opts) (deadline_of opts) fds
         \<lparr>pr_exit_code = -1, pr_stdout = [], pr_stderr = [], pr_timed_out = False\<rparr> 0 of
       None \<Rightarrow> None
     | Some (r, now) \<Rightarrow>
         if pr_timed_out r
         then Some (r\<lparr>pr_exit_code := -1\<rparr>, now + kill_time (ch_late c) (ch_terminated c))
         else (case ch_exit c of
                 None \<Rightarrow> None
               | Some (t, code) \<Rightarrow>
                   Some (r\<lparr>pr_exit_code := (case code of Some n \<Rightarrow> n | None \<Rightarrow> -1)\<rparr>, max now t)))"
  using assms by (auto simp: exec_fork_def started_def Let_def)

lemma exec_fork_result:
  assumes "exec_fork os prog args opts = Some (r, t)"
  shows "faithful opts (os prog args opts) r t \<and>
    (started opts (os prog args opts) \<and> po_timeout_seconds opts \<le> 2147483 \<longrightarrow>
      (pr_timed_out r \<longrightarrow> deadline_of opts \<le> t) \<and>
      ((\<forall>f\<in>set (open_fds opts). ends_before (deadline_of opts) (stream_of (os prog args opts) f)) \<longrightarrow>
        \<not> pr_timed_out r))"
proof (cases "started opts (os prog args opts)")
  case False
  with assms show ?thesis
    by (auto simp: exec_fork_def started_def faithful_def Let_def split: if_splits)
next
  case True
  let ?c = "os prog args opts" and ?n = "po_max_output_bytes opts" and ?fds = "open_fds opts"
  let ?r0 = "\<lparr>pr_exit_code = -1, pr_stdout = [], pr_stderr = [], pr_timed_out = False\<rparr>"
  from assms obtain r1 now where
    loop: "poll_loop (length ?fds) ?c ?n (deadline_of opts) ?fds ?r0 0 = Some (r1, now)" and
    fin: "(if pr_timed_out r1
           then Some (r1\<lparr>pr_exit_code := -1\<rparr>, now + kill_time (ch_late ?c) (ch_terminated ?c))
           else (case ch_exit ?c of None \<Rightarrow> None
                 | Some (t, code) \<Rightarrow> Some (r1\<lparr>pr_exit_code := (case code of Some n \<Rightarrow> n | None \<Rightarrow> -1)\<rparr>,
                     max now t))) = Some (r, t)"
    by (auto simp: exec_fork_run [where os = os and opts = opts, OF True] Let_def split: option.splits)
  have "outputs_read ?c ?n ?fds ?fds ?r0"
    by (auto simp: outputs_read_def output_of_def open_fds_def split: fd.split)
  then obtain rest where rest: "outputs_read ?c ?n ?fds rest r1" "pr_timed_out r1 = (rest \<noteq> [])"
    using poll_loop_outputs [OF loop] by auto
  have same: "output_of r f = output_of r1 f" "pr_timed_out r = pr_timed_out r1" "now \<le> t" for f
    using fin by (cases f; auto simp: output_of_def split: if_splits option.splits)+
  have out: "output_of r1 f = (if f \<in> set ?fds \<and> f \<notin> set rest then take ?n (written ?c f) else [])"
    and sub: "set rest \<subseteq> set ?fds" for f
    using rest(1) by (auto simp: outputs_read_def)
  have "faithful opts ?c r t"
  proof (cases "pr_timed_out r1")
    case True
    with rest(2) obtain f where f: "f \<in> set rest" by (cases rest) auto
    have "pr_exit_code r = -1" using fin True by auto
    moreover have "output_of r f = []" and "\<forall>g. output_of r g \<in> {[], take ?n (written ?c g)}"
      using f by (auto simp: same out)
    ultimately show ?thesis
      using True \<open>started opts ?c\<close> f sub by (auto simp: faithful_def same)
  next
    case False
    moreover from this fin obtain u code where "ch_exit ?c = Some (u, code)" "u \<le> t"
      "pr_exit_code r = (case code of Some n \<Rightarrow> n | None \<Rightarrow> -1)"
      by (auto split: option.splits)
    ultimately show ?thesis
      using rest(2) \<open>started opts ?c\<close> by (auto simp: faithful_def same out)
  qed
  moreover have "(pr_timed_out r1 \<longrightarrow> deadline_of opts \<le> now) \<and>
      ((\<forall>f\<in>set ?fds. ends_before (deadline_of opts) (stream_of ?c f)) \<longrightarrow> \<not> pr_timed_out r1)"
    if "po_timeout_seconds opts \<le> 2147483"
    using poll_loop_times [OF loop _ _ deadline_bound [OF that]] by (simp add: deadline_of_def)
  ultimately show ?thesis using same by auto
qed

lemma success_output:
  assumes "exec_fork os prog args opts = Some (r, t)" and "success r"
  shows "pr_stdout r = (if po_capture_output opts
    then take (po_max_output_bytes opts) (written (os prog args opts) Out) else [])"
proof -
  from exec_fork_result [OF assms(1)] have "faithful opts (os prog args opts) r t" ..
  with assms(2) have "output_of r Out = (if Out \<in> set (open_fds opts)
      then take (po_max_output_bytes opts) (written (os prog args opts) Out) else [])"
    by (auto simp: faithful_def success_def failed_result_def split: if_splits)
  then show ?thesis by (auto simp: output_of_def open_fds_def split: if_splits)
qed


definition sample_child :: "(nat \<times> string) list \<Rightarrow> nat option \<Rightarrow> (nat \<times> int option) option \<Rightarrow> child" where
  "sample_child chunks eof ex = \<lparr>ch_pipes_ok = True, ch_stdin_ok = True, ch_fork_ok = True,
     ch_strerror = [], ch_stdout = \<lparr>ps_chunks = chunks, ps_closed = eof\<rparr>,
     ch_stderr = \<lparr>ps_chunks = [], ps_closed = Some 0\<rparr>, ch_exit = ex, ch_terminated = Some (30, signalled 15),
     ch_late = (\<lambda>_. 0)\<rparr>"




text \<open>
  \<open>is_git_repo\<close> looks for "true" in an output it asked not to capture, so it never answers
  yes, whatever git and the directory are.
\<close>

theorem is_git_repo_never_true: "is_git_repo os cwd \<noteq> Some True"
proof
  assume "is_git_repo os cwd = Some True"
  then obtain r t where r: "exec_fork os ''git'' [''rev-parse'', ''--is-inside-work-tree'']
      ((git_options cwd 5)\<lparr>po_capture_output := False\<rparr>) = Some (r, t)"
    "pr_exit_code r = 0" "contains_str (pr_stdout r) ''true''"
    by (auto simp: is_git_repo_def exec_program_def)
  have "pr_stdout r = []"
    using r(1) r(2) by (auto simp: exec_fork_def open_fds_def failed_result_def Let_def
        split: if_splits option.splits)
  with r(3) show False by (simp add: contains_str_def)
qed

end
