(* ===== verification/Paths.thy ===== *)
theory Paths
  imports Prelude
begin

text \<open>
  The lexical operations of \<open>std::filesystem::path\<close> that the sources use, on POSIX path
  strings: joining, parent, file name, extension. A path is its native string.
\<close>

definition is_absolute :: "string \<Rightarrow> bool" where
  "is_absolute p = (p \<noteq> [] \<and> hd p = CHR ''/'')"

text \<open>\<open>p / q\<close>.\<close>

definition path_append :: "string \<Rightarrow> string \<Rightarrow> string" where
  "path_append p q =
     (if is_absolute q then q
      else if p = [] \<or> last p = CHR ''/'' then p @ q
      else p @ ''/'' @ q)"

definition path_filename :: "string \<Rightarrow> string" where
  "path_filename p = rev (takeWhile (\<lambda>c. c \<noteq> CHR ''/'') (rev p))"

text \<open>Without its last component and the separators before it; a root is its own parent.\<close>

definition parent_path :: "string \<Rightarrow> string" where
  "parent_path p =
     (let before = rev (dropWhile (\<lambda>c. c \<noteq> CHR ''/'') (rev p));
          stripped = rev (dropWhile (\<lambda>c. c = CHR ''/'') (rev before))
      in if before = [] then []
         else if stripped = [] then (if path_filename p = [] then p else ''/'')
         else stripped)"

definition path_extension :: "string \<Rightarrow> string" where
  "path_extension p =
     (let f = path_filename p;
          ext = takeWhile (\<lambda>c. c \<noteq> CHR ''.'') (rev f)
      in if f = ''.'' \<or> f = ''..'' \<or> length ext = length f \<or> Suc (length ext) = length f then []
         else CHR ''.'' # rev ext)"

lemma path_split: "p = rev (dropWhile (\<lambda>c. c \<noteq> CHR ''/'') (rev p)) @ path_filename p"
  by (simp add: path_filename_def flip: rev_append)

lemma parent_shorter: "parent_path p = p \<or> length (parent_path p) < length p"
proof -
  define before where "before = rev (dropWhile (\<lambda>c. c \<noteq> CHR ''/'') (rev p))"
  define stripped where "stripped = rev (dropWhile (\<lambda>c. c = CHR ''/'') (rev before))"
  have p: "p = before @ path_filename p" unfolding before_def by (rule path_split)
  have b: "last before = CHR ''/''" if "before \<noteq> []"
  proof -
    let ?d = "dropWhile (\<lambda>c. c \<noteq> CHR ''/'') (rev p)"
    have "?d \<noteq> []" using that by (simp add: before_def)
    moreover from this have "\<not> (hd ?d \<noteq> CHR ''/'')" by (rule hd_dropWhile)
    ultimately show ?thesis by (simp add: before_def last_rev)
  qed
  show ?thesis
  proof (cases "before = []")
    case True
    then have "parent_path p = []" by (simp add: parent_path_def before_def Let_def)
    then show ?thesis by (cases p) auto
  next
    case False
    then obtain b' where b': "before = b' @ ''/''"
      using b by (cases before rule: rev_cases) auto
    have "length stripped \<le> length b'"
      by (simp add: stripped_def b' length_dropWhile_le [of _ "rev b'", simplified])
    then have "length stripped < length p" using arg_cong [OF p, of length] b' by simp
    moreover have "path_filename p \<noteq> [] \<Longrightarrow> 1 < length p"
      using arg_cong [OF p, of length] b' by (cases "path_filename p") auto
    ultimately show ?thesis
      using False by (auto simp: parent_path_def Let_def before_def [symmetric] stripped_def [symmetric])
  qed
qed

text \<open>The loop that walks from a directory to the root.\<close>

function ancestors :: "string \<Rightarrow> string list" where
  "ancestors p = (if parent_path p = p then [p] else p # ancestors (parent_path p))"
  by pat_completeness auto
termination
  by (relation "measure length") (use parent_shorter in auto)

declare ancestors.simps [simp del]

lemma path_append_absolute [simp]: "is_absolute q \<Longrightarrow> path_append p q = q"
  by (simp add: path_append_def)

lemma path_filename_after_slash: "CHR ''/'' \<notin> set q \<Longrightarrow> path_filename (p @ CHR ''/'' # q) = q"
  unfolding path_filename_def rev_append rev.simps append_assoc
  by (subst takeWhile_append2) auto

lemma path_filename_append:
  assumes "CHR ''/'' \<notin> set q" and "q \<noteq> []"
  shows "path_filename (path_append p q) = q"
proof -
  have nabs: "\<not> is_absolute q" using assms by (cases q) (auto simp: is_absolute_def)
  have alone: "path_filename q = q"
    unfolding path_filename_def using assms(1) by (subst takeWhile_eq_all_conv [THEN iffD2]) auto
  show ?thesis
  proof (cases "p = [] \<or> last p = CHR ''/''")
    case True
    then show ?thesis
    proof (cases p rule: rev_cases)
      case (snoc p' c)
      with True have "p = p' @ ''/''" by simp
      with True nabs show ?thesis
        using path_filename_after_slash [OF assms(1), of p'] by (simp add: path_append_def)
    qed (simp add: path_append_def nabs alone)
  next
    case False
    with nabs show ?thesis
      using path_filename_after_slash [OF assms(1), of p] by (simp add: path_append_def)
  qed
qed

end
