(* ===== verification/Context_Builder.thy ===== *)
theory Context_Builder
  imports Process Message Paths
begin

text \<open>
  \<open>src/engine/context_builder.h\<close> and \<open>context_builder.cpp\<close>: the system and user contexts
  with their caches, and the parts of \<open>src/util/platform.cpp\<close> and \<open>process_utils.cpp\<close> they
  read. The host (environment variables, files, date, child processes) is an argument; a
  call that waits for ever for a child is \<open>None\<close>.
\<close>

record host =
  ho_env :: "string \<rightharpoonup> string"
  ho_cwd :: "string option"
  ho_exists :: "string \<Rightarrow> bool"
  ho_read :: "string \<rightharpoonup> string"
  ho_date :: string
  ho_os :: os

section \<open>platform\<close>

definition get_home_dir :: "host \<Rightarrow> string" where
  "get_home_dir h = (case ho_env h ''HOME'' of Some d \<Rightarrow> d | None \<Rightarrow> ''/root'')"

definition get_config_dir :: "host \<Rightarrow> string" where
  "get_config_dir h =
     (case ho_env h ''XDG_CONFIG_HOME'' of Some d \<Rightarrow> d | None \<Rightarrow> get_home_dir h @ ''/.config'')
     @ ''/claude-code''"

definition get_data_dir :: "host \<Rightarrow> string" where
  "get_data_dir h =
     (case ho_env h ''XDG_DATA_HOME'' of Some d \<Rightarrow> d | None \<Rightarrow> get_home_dir h @ ''/.local/share'')
     @ ''/claude-code''"

definition get_temp_dir :: "host \<Rightarrow> string" where
  "get_temp_dir h = (case ho_env h ''TMPDIR'' of Some d \<Rightarrow> d | None \<Rightarrow> ''/tmp'')"

definition get_shell_name :: "host \<Rightarrow> string" where
  "get_shell_name h = (case ho_env h ''SHELL'' of Some s \<Rightarrow> path_filename s | None \<Rightarrow> ''sh'')"

definition current_working_directory :: "host \<Rightarrow> string" where
  "current_working_directory h = (case ho_cwd h of Some d \<Rightarrow> d | None \<Rightarrow> ''.'')"

section \<open>ContextBuilder\<close>

record context_builder =
  cb_system_context :: string
  cb_cwd :: string
  cb_system_cached :: bool
  cb_user_context :: string
  cb_user_cached :: bool

definition new_builder :: context_builder where
  "new_builder = \<lparr>cb_system_context = [], cb_cwd = [], cb_system_cached = False,
     cb_user_context = [], cb_user_cached = False\<rparr>"

definition clear_cache :: "context_builder \<Rightarrow> context_builder" where
  "clear_cache b = b\<lparr>cb_system_cached := False, cb_user_cached := False, cb_system_context := [],
     cb_user_context := [], cb_cwd := []\<rparr>"

definition newline :: string where
  "newline = [CHR 0x0A]"

text \<open>The CLAUDE.md files of a directory and its ancestors, then the one in \<open>.claude\<close>.\<close>

definition read_claude_md :: "host \<Rightarrow> string \<Rightarrow> string" where
  "read_claude_md h directory =
     (let dir = (if directory = [] then current_working_directory h else directory);
          up = filter (ho_exists h) (map (\<lambda>d. path_append d ''CLAUDE.md'') (ancestors dir));
          dot = path_append (path_append dir ''.claude'') ''CLAUDE.md'';
          mds = up @ (if ho_exists h dot then [dot] else [])
      in concat (map (\<lambda>p. case ho_read h p of
           None \<Rightarrow> []
         | Some content \<Rightarrow> ''# '' @ p @ newline @ newline @ content @ newline @ newline) mds))"

definition truncate_status :: "string \<Rightarrow> string" where
  "truncate_status s =
     (if length s > 2000
      then take 2000 s @ newline @ ''... (truncated because it exceeds 2k characters. ''
             @ ''If you need more information, run \"git status\" using BashTool)''
      else s)"

definition get_git_status :: "host \<Rightarrow> string \<Rightarrow> string option" where
  "get_git_status h cwd =
     Option.bind (is_git_repo (ho_os h) cwd) (\<lambda>repo.
       if \<not> repo then Some []
       else
         Option.bind (get_git_branch (ho_os h) cwd) (\<lambda>branch.
         Option.bind (get_default_branch (ho_os h) cwd) (\<lambda>main_branch.
         Option.bind (util_git_status (ho_os h) cwd) (\<lambda>status.
         Option.bind (get_git_log (ho_os h) cwd 5) (\<lambda>log.
         Option.bind (get_git_user (ho_os h) cwd) (\<lambda>user.
           Some (truncate_status
             (''This is the git status at the start of the conversation. ''
              @ ''Note that this status is a snapshot in time, and will not update during the conversation.''
              @ newline @ newline
              @ ''Current branch: '' @ branch @ newline
              @ ''Main branch (you will usually use this for PRs): '' @ main_branch @ newline
              @ (if user \<noteq> [] then ''Git user: '' @ user @ newline else [])
              @ newline @ ''Status:'' @ newline @ (if status = [] then ''(clean)'' else status)
              @ newline @ newline
              @ ''Recent commits:'' @ newline @ (if log = [] then ''(none)'' else log)
              @ newline))))))))"

text \<open>The build is for Linux.\<close>

definition get_environment_info :: "host \<Rightarrow> string" where
  "get_environment_info h =
     ''Working directory: '' @ current_working_directory h @ newline
     @ ''Shell: '' @ get_shell_name h @ newline
     @ ''OS: Linux'' @ newline
     @ ''Date: '' @ ho_date h @ newline"

definition session_cwd :: "host \<Rightarrow> session_config \<Rightarrow> string" where
  "session_cwd h c = (if sc_working_directory c = [] then current_working_directory h
     else sc_working_directory c)"

definition build_system_context ::
  "host \<Rightarrow> session_config \<Rightarrow> context_builder \<Rightarrow> (system_prompt \<times> context_builder) option" where
  "build_system_context h config b =
     (let cwd = session_cwd h config in
      if cb_system_cached b \<and> cb_cwd b = cwd
      then Some (\<lparr>sys_content = cb_system_context b, sys_cache_control = None\<rparr>, b)
      else map_option (\<lambda>git.
        let ctx = ''<environment_info>'' @ newline @ get_environment_info h
              @ ''</environment_info>'' @ newline @ newline
              @ (if git \<noteq> [] then ''<git_status>'' @ newline @ git @ ''</git_status>'' @ newline @ newline
                 else []);
            b1 = b\<lparr>cb_system_context := ctx, cb_cwd := cwd, cb_system_cached := True\<rparr>
        in (\<lparr>sys_content = ctx, sys_cache_control = None\<rparr>, b1))
        (get_git_status h cwd))"

definition build_user_context ::
  "host \<Rightarrow> session_config \<Rightarrow> context_builder \<Rightarrow> system_prompt \<times> context_builder" where
  "build_user_context h config b =
     (if cb_user_cached b
      then (\<lparr>sys_content = cb_user_context b, sys_cache_control = None\<rparr>, b)
      else
        (let claude_md = read_claude_md h (session_cwd h config);
             ctx = (if claude_md \<noteq> [] then claude_md @ newline else [])
                   @ ''Today'' @ [CHR 0x27] @ ''s date is '' @ ho_date h @ ''.'' @ newline
         in (\<lparr>sys_content = ctx, sys_cache_control = None\<rparr>,
             b\<lparr>cb_user_context := ctx, cb_user_cached := True\<rparr>)))"

section \<open>What the contexts contain\<close>

lemma get_git_status_empty: "get_git_status h cwd \<in> {None, Some []}"
  using is_git_repo_never_true [of "ho_os h" cwd]
  by (cases "is_git_repo (ho_os h) cwd") (auto simp: get_git_status_def)

text \<open>
  The system context never holds a git status section: built on a host, it is the
  environment section alone, and \<open>get_git_status\<close> returns the empty string whenever it
  returns, in a repository or not.
\<close>

theorem system_context_without_git:
  assumes "build_system_context h config (clear_cache b) = Some (p, b')"
  shows "sys_content p = ''<environment_info>'' @ newline @ get_environment_info h
      @ ''</environment_info>'' @ newline @ newline \<and>
    get_git_status h (session_cwd h config) = Some []"
  using assms get_git_status_empty [of h "session_cwd h config"]
  by (auto simp: build_system_context_def clear_cache_def Let_def)


definition sample_host :: "string \<Rightarrow> host" where
  "sample_host date = \<lparr>ho_env = Map.empty, ho_cwd = Some ''/w'',
     ho_exists = (\<lambda>p. p = ''/w/CLAUDE.md''), ho_read = [''/w/CLAUDE.md'' \<mapsto> ''notes''],
     ho_date = date, ho_os = (\<lambda>p a o1. sample_child [(1, ''true'')] (Some 2) (Some (3, Some 0)))\<rparr>"

definition sample_session :: "string \<Rightarrow> session_config" where
  "sample_session dir = \<lparr>sc_session_id = ''s'', sc_working_directory = dir,
     sc_additional_directories = [],
     sc_model = \<lparr>model_id = ''m'', max_tokens = 8192, thinking = Disabled, thinking_budget = 10000,
        temperature = 0, top_k = 0, top_p = 0\<rparr>,
     sc_permission_mode = ''default'', sc_theme = ''dark''\<rparr>"

lemma system_context_without_git_witness:
  "\<exists>p b'. build_system_context (sample_host ''2025-01-01'') (sample_session ''/repo'')
      (clear_cache new_builder) = Some (p, b') \<and>
    get_git_status (sample_host ''2025-01-01'') ''/repo'' = Some []"
proof -
  let ?h = "sample_host ''2025-01-01''" and ?c = "sample_session ''/repo''"
  have "is_git_repo (ho_os ?h) ''/repo'' = Some False"
    by (simp add: is_git_repo_def exec_program_def exec_fork_def git_options_def default_options_def
        open_fds_def sample_host_def sample_child_def contains_str_def Let_def)
  then obtain p b' where r: "build_system_context ?h ?c (clear_cache new_builder) = Some (p, b')"
    by (simp add: build_system_context_def get_git_status_def session_cwd_def sample_session_def
        clear_cache_def Let_def)
  from system_context_without_git [OF r] have "get_git_status ?h ''/repo'' = Some []"
    by (simp add: session_cwd_def sample_session_def)
  with r show ?thesis by blast
qed

text \<open>
  Once built, the user context (the CLAUDE.md files and the date) is returned unchanged
  for every later session configuration and on every later host state, a changed working
  directory or date included, until the cache is cleared; the system context is rebuilt when
  the directory differs.
\<close>

theorem user_context_never_refreshed:
  assumes "build_user_context h config b = (p, b')"
  shows "build_user_context h' config' b' = (p, b') \<and>
    (build_system_context h' config' b' = Some (q, b'') \<longrightarrow>
       fst (build_user_context h2 config2 b'') = p \<and> cb_cwd b'' = session_cwd h' config') \<and>
    build_user_context h' config' (clear_cache b') =
      build_user_context h' config' (clear_cache b)"
proof -
  have cached: "cb_user_cached b'" "p = \<lparr>sys_content = cb_user_context b', sys_cache_control = None\<rparr>"
    using assms by (auto simp: build_user_context_def Let_def split: if_splits)
  have "clear_cache b' = clear_cache b"
    using assms by (auto simp: build_user_context_def clear_cache_def Let_def split: if_splits)
  with cached show ?thesis
    by (auto simp: build_user_context_def build_system_context_def Let_def split: if_splits)
qed

lemma user_context_never_refreshed_witness:
  "\<exists>p b'. build_user_context (sample_host ''2025-01-01'') (sample_session ''/w'') new_builder = (p, b') \<and>
    build_user_context (sample_host ''2025-12-31'') (sample_session ''/other'') b' = (p, b') \<and>
    sys_content p \<noteq> []"
proof -
  obtain p b' where run: "build_user_context (sample_host ''2025-01-01'') (sample_session ''/w'')
      new_builder = (p, b')" by fastforce
  moreover from run have "sys_content p \<noteq> []"
    by (auto simp: build_user_context_def new_builder_def Let_def)
  ultimately show ?thesis using user_context_never_refreshed [OF run] by blast
qed

end
