(* ===== verification/Cost_Tracker.thy ===== *)
theory Cost_Tracker
  imports Tools
begin

text \<open>
  \<open>src/engine/cost_tracker.h\<close> and \<open>cost_tracker.cpp\<close>, with \<open>TokenUsage::estimate_cost_usd\<close>
  of \<open>src/engine/message.cpp\<close>. The mutex is part of the state: \<open>std::mutex\<close> is not
  recursive, so an operation that locks it while holding it never returns (\<open>Deadlock\<close>).
  A \<open>double\<close> is a rational number: rounding is not modelled.
\<close>

record cost_tracker =
  ct_locked :: bool
  ct_input :: "64 word"
  ct_output :: "64 word"
  ct_cache_creation :: "64 word"
  ct_cache_read :: "64 word"
  ct_model_usage :: "string \<rightharpoonup> token_usage"
  ct_api_duration :: rat
  ct_tool_duration :: rat
  ct_api_calls :: "32 word"
  ct_tool_calls :: "32 word"

definition new_tracker :: cost_tracker where
  "new_tracker = \<lparr>ct_locked = False, ct_input = 0, ct_output = 0, ct_cache_creation = 0,
     ct_cache_read = 0, ct_model_usage = Map.empty, ct_api_duration = 0, ct_tool_duration = 0,
     ct_api_calls = 0, ct_tool_calls = 0\<rparr>"

text \<open>\<open>std::lock_guard\<close> around a body that reads and writes the tracker.\<close>

definition locked ::
  "(cost_tracker \<Rightarrow> cpp_exn + ('a \<times> cost_tracker)) \<Rightarrow> cost_tracker \<Rightarrow> cpp_exn + ('a \<times> cost_tracker)" where
  "locked body s =
     (if ct_locked s then Inl Deadlock
      else bind_exn (body (s\<lparr>ct_locked := True\<rparr>)) (\<lambda>r. Inr (fst r, (snd r)\<lparr>ct_locked := False\<rparr>)))"

definition add_usage :: "token_usage \<Rightarrow> token_usage \<Rightarrow> token_usage" where
  "add_usage a b =
     \<lparr>input_tokens = input_tokens a + input_tokens b,
      output_tokens = output_tokens a + output_tokens b,
      cache_creation_input_tokens = cache_creation_input_tokens a + cache_creation_input_tokens b,
      cache_read_input_tokens = cache_read_input_tokens a + cache_read_input_tokens b\<rparr>"

definition record_usage :: "token_usage \<Rightarrow> cost_tracker \<Rightarrow> cpp_exn + (unit \<times> cost_tracker)" where
  "record_usage u = locked (\<lambda>s. Inr ((), s\<lparr>ct_input := ct_input s + input_tokens u,
     ct_output := ct_output s + output_tokens u,
     ct_cache_creation := ct_cache_creation s + cache_creation_input_tokens u,
     ct_cache_read := ct_cache_read s + cache_read_input_tokens u\<rparr>))"

definition record_model_usage ::
  "string \<Rightarrow> token_usage \<Rightarrow> cost_tracker \<Rightarrow> cpp_exn + (unit \<times> cost_tracker)" where
  "record_model_usage model u = locked (\<lambda>s.
     let mu = (case ct_model_usage s model of None \<Rightarrow> no_usage | Some v \<Rightarrow> v)
     in Inr ((), s\<lparr>ct_model_usage := (ct_model_usage s)(model \<mapsto> add_usage mu u)\<rparr>))"

definition record_api_duration :: "rat \<Rightarrow> cost_tracker \<Rightarrow> cpp_exn + (unit \<times> cost_tracker)" where
  "record_api_duration d = locked (\<lambda>s. Inr ((), s\<lparr>ct_api_duration := ct_api_duration s + d,
     ct_api_calls := ct_api_calls s + 1\<rparr>))"

definition record_tool_duration :: "rat \<Rightarrow> cost_tracker \<Rightarrow> cpp_exn + (unit \<times> cost_tracker)" where
  "record_tool_duration d = locked (\<lambda>s. Inr ((), s\<lparr>ct_tool_duration := ct_tool_duration s + d\<rparr>))"

definition increment_tool_calls :: "cost_tracker \<Rightarrow> cost_tracker" where
  "increment_tool_calls s = s\<lparr>ct_tool_calls := ct_tool_calls s + 1\<rparr>"

definition total_usage :: "cost_tracker \<Rightarrow> cpp_exn + (token_usage \<times> cost_tracker)" where
  "total_usage = locked (\<lambda>s. Inr (\<lparr>input_tokens = ct_input s, output_tokens = ct_output s,
     cache_creation_input_tokens = ct_cache_creation s,
     cache_read_input_tokens = ct_cache_read s\<rparr>, s))"

definition estimate_cost_usd :: "token_usage \<Rightarrow> rat" where
  "estimate_cost_usd u =
     of_int (sint (input_tokens u)) / 1000000 * 3
     + of_int (sint (cache_read_input_tokens u)) / 1000000 * (3 / 10)
     + of_int (sint (cache_creation_input_tokens u)) / 1000000 * (375 / 100)
     + of_int (sint (output_tokens u)) / 1000000 * 15"

definition total_cost_usd :: "cost_tracker \<Rightarrow> cpp_exn + (rat \<times> cost_tracker)" where
  "total_cost_usd s =
     bind_exn (total_usage s) (\<lambda>r. Inr (estimate_cost_usd (fst r), snd r))"

definition usage_by_model ::
  "cost_tracker \<Rightarrow> cpp_exn + ((string \<rightharpoonup> token_usage) \<times> cost_tracker)" where
  "usage_by_model = locked (\<lambda>s. Inr (ct_model_usage s, s))"

definition tracker_reset :: "cost_tracker \<Rightarrow> cpp_exn + (unit \<times> cost_tracker)" where
  "tracker_reset = locked (\<lambda>s. Inr ((), s\<lparr>ct_input := 0, ct_output := 0, ct_cache_creation := 0,
     ct_cache_read := 0, ct_model_usage := Map.empty, ct_api_duration := 0, ct_tool_duration := 0,
     ct_api_calls := 0, ct_tool_calls := 0\<rparr>))"

text \<open>
  \<open>format_cost\<close> holds the lock and calls \<open>total_usage\<close>, which takes it again. \<open>fixed p x\<close> is
  the library's fixed-point output with \<open>p\<close> digits.
\<close>

definition format_cost ::
  "(nat \<Rightarrow> rat \<Rightarrow> string) \<Rightarrow> cost_tracker \<Rightarrow> cpp_exn + (string \<times> cost_tracker)" where
  "format_cost fixed = locked (\<lambda>s.
     bind_exn (total_usage s) (\<lambda>r.
       let cost = estimate_cost_usd (fst r)
       in Inr (''$'' @ (if cost > 1 / 2 then fixed 2 cost else fixed 4 cost), snd r)))"

definition format_usage ::
  "string list \<Rightarrow> cost_tracker \<Rightarrow> cpp_exn + (string \<times> cost_tracker)" where
  "format_usage ks = locked (\<lambda>s.
     Inr (''Usage: '' @ word_to_string (ct_input s) @ '' input, ''
       @ word_to_string (ct_output s) @ '' output, ''
       @ word_to_string (ct_cache_read s) @ '' cache read, ''
       @ word_to_string (ct_cache_creation s) @ '' cache write''
       @ (if ks \<noteq> []
          then [CHR 0x0A, CHR 0x0A] @ ''Usage by model:''
            @ concat (map (\<lambda>k. let u = the (ct_model_usage s k) in
                [CHR 0x0A] @ ''  '' @ k @ '': ''
                @ word_to_string (input_tokens u) @ '' input, ''
                @ word_to_string (output_tokens u) @ '' output, ''
                @ word_to_string (cache_read_input_tokens u) @ '' cache read, ''
                @ word_to_string (cache_creation_input_tokens u) @ '' cache write'') ks)
          else []), s))"

section \<open>Totals\<close>

lemma locked_unlocked:
  "\<not> ct_locked s \<Longrightarrow> locked f s =
     bind_exn (f (s\<lparr>ct_locked := True\<rparr>)) (\<lambda>r. Inr (fst r, (snd r)\<lparr>ct_locked := False\<rparr>))"
  by (simp add: locked_def)

text \<open>What the query engine records for one response.\<close>

definition record_response ::
  "string \<Rightarrow> token_usage \<Rightarrow> rat \<Rightarrow> cost_tracker \<Rightarrow> cpp_exn + (unit \<times> cost_tracker)" where
  "record_response model u d s =
     bind_exn (record_usage u s) (\<lambda>r.
     bind_exn (record_model_usage model u (snd r)) (\<lambda>r.
       record_api_duration d (snd r)))"

fun record_responses ::
  "(string \<times> token_usage \<times> rat) list \<Rightarrow> cost_tracker \<Rightarrow> cpp_exn + (unit \<times> cost_tracker)" where
  "record_responses [] s = Inr ((), s)"
| "record_responses ((m, u, d) # rs) s =
     bind_exn (record_response m u d s) (\<lambda>r. record_responses rs (snd r))"

text \<open>The usage recorded in total, and for one model.\<close>

definition usage_sum :: "token_usage list \<Rightarrow> token_usage" where
  "usage_sum us = foldl add_usage no_usage us"

definition model_part :: "string \<Rightarrow> (string \<times> token_usage \<times> rat) list \<Rightarrow> token_usage list" where
  "model_part m rs = map (fst \<circ> snd) (filter (\<lambda>r. fst r = m) rs)"

definition totals :: "cost_tracker \<Rightarrow> token_usage" where
  "totals s = \<lparr>input_tokens = ct_input s, output_tokens = ct_output s,
     cache_creation_input_tokens = ct_cache_creation s, cache_read_input_tokens = ct_cache_read s\<rparr>"

lemma add_usage_zero [simp]: "add_usage no_usage u = u" "add_usage u no_usage = u"
  by (simp_all add: add_usage_def no_usage_def)

lemma add_usage_assoc: "add_usage (add_usage a b) c = add_usage a (add_usage b c)"
  by (simp add: add_usage_def)

lemma add_usage_left_commute: "add_usage a (add_usage b c) = add_usage b (add_usage a c)"
  by (simp add: add_usage_def)

lemma usage_sum_snoc: "usage_sum (us @ [u]) = add_usage (usage_sum us) u"
  by (simp add: usage_sum_def)

lemma foldl_add_usage: "foldl add_usage a us = add_usage a (usage_sum us)"
proof (induction us arbitrary: a)
  case (Cons u us)
  have "usage_sum (u # us) = add_usage u (usage_sum us)"
    using Cons.IH [of u] by (simp add: usage_sum_def)
  then show ?case using Cons.IH [of "add_usage a u"] by (simp add: add_usage_assoc)
qed (simp add: usage_sum_def)

lemma usage_sum_Cons: "usage_sum (u # us) = add_usage u (usage_sum us)"
  by (simp only: usage_sum_def [of "u # us"] foldl_Cons add_usage_zero foldl_add_usage)

lemma model_part_Cons:
  "model_part k ((m, u, d) # rs) = (if k = m then u # model_part k rs else model_part k rs)"
  by (simp add: model_part_def)

lemma record_response_eq:
  assumes "\<not> ct_locked s"
  shows "record_response m u d s = Inr ((), s\<lparr>
    ct_input := ct_input s + input_tokens u, ct_output := ct_output s + output_tokens u,
    ct_cache_creation := ct_cache_creation s + cache_creation_input_tokens u,
    ct_cache_read := ct_cache_read s + cache_read_input_tokens u,
    ct_model_usage := (ct_model_usage s)
      (m \<mapsto> add_usage (case ct_model_usage s m of None \<Rightarrow> no_usage | Some v \<Rightarrow> v) u),
    ct_api_duration := ct_api_duration s + d, ct_api_calls := ct_api_calls s + 1\<rparr>)"
  using assms
  by (simp add: record_response_def record_usage_def record_model_usage_def
      record_api_duration_def locked_def Let_def)

lemma record_responses_totals:
  assumes "\<not> ct_locked s"
  shows "\<exists>s'. record_responses rs s = Inr ((), s') \<and> \<not> ct_locked s' \<and>
    totals s' = add_usage (totals s) (usage_sum (map (fst \<circ> snd) rs)) \<and>
    (\<forall>m. ct_model_usage s' m =
      (if m \<in> fst ` set rs \<or> ct_model_usage s m \<noteq> None
       then Some (add_usage (case ct_model_usage s m of None \<Rightarrow> no_usage | Some v \<Rightarrow> v)
                    (usage_sum (model_part m rs)))
       else None)) \<and>
    ct_api_calls s' = ct_api_calls s + of_nat (length rs)"
  using assms
proof (induction rs arbitrary: s)
  case Nil
  then show ?case by (auto simp: usage_sum_def model_part_def split: option.splits)
next
  case (Cons r rs)
  obtain m u d where r: "r = (m, u, d)" by (cases r)
  let ?s = "snd (case record_response m u d s of Inr x \<Rightarrow> x)"
  from Cons.prems have step: "record_response m u d s = Inr ((), ?s)" "\<not> ct_locked ?s"
    "totals ?s = add_usage (totals s) u" "ct_api_calls ?s = ct_api_calls s + 1"
    "ct_model_usage ?s = (ct_model_usage s)
      (m \<mapsto> add_usage (case ct_model_usage s m of None \<Rightarrow> no_usage | Some v \<Rightarrow> v) u)"
    by (simp_all add: record_response_eq totals_def add_usage_def)
  from Cons.IH [OF step(2)] obtain s' where s':
    "record_responses rs ?s = Inr ((), s')" "\<not> ct_locked s'"
    "totals s' = add_usage (totals ?s) (usage_sum (map (fst \<circ> snd) rs))"
    "\<And>k. ct_model_usage s' k =
      (if k \<in> fst ` set rs \<or> ct_model_usage ?s k \<noteq> None
       then Some (add_usage (case ct_model_usage ?s k of None \<Rightarrow> no_usage | Some v \<Rightarrow> v)
                    (usage_sum (model_part k rs)))
       else None)"
    "ct_api_calls s' = ct_api_calls ?s + of_nat (length rs)"
    by blast
  show ?case
  proof (intro exI [of _ s'] conjI allI)
    show "record_responses (r # rs) s = Inr ((), s')"
      using s'(1) unfolding r record_responses.simps by (subst step(1)) simp
    show "totals s' = add_usage (totals s) (usage_sum (map (fst \<circ> snd) (r # rs)))"
      by (simp add: s'(3) step(3) r usage_sum_Cons add_usage_assoc)
    show "ct_api_calls s' = ct_api_calls s + of_nat (length (r # rs))"
      by (simp add: s'(5) step(4))
    fix k
    show "ct_model_usage s' k =
      (if k \<in> fst ` set (r # rs) \<or> ct_model_usage s k \<noteq> None
       then Some (add_usage (case ct_model_usage s k of None \<Rightarrow> no_usage | Some v \<Rightarrow> v)
                    (usage_sum (model_part k (r # rs))))
       else None)"
      unfolding s'(4) step(5)
      by (cases "k = m") (simp_all add: r model_part_Cons usage_sum_Cons add_usage_assoc)
  qed (rule s'(2))
qed

text \<open>The usages of the models, added up in any order, are the usage of all responses.\<close>

lemma usage_sum_models:
  assumes "distinct ks" and "fst ` set rs \<subseteq> set ks"
  shows "usage_sum (map (\<lambda>m. usage_sum (model_part m rs)) ks) = usage_sum (map (fst \<circ> snd) rs)"
  using assms(2)
proof (induction rs)
  case Nil
  have "usage_sum (map (\<lambda>m. usage_sum (model_part m [])) ks) = no_usage"
    by (induction ks) (simp_all add: usage_sum_Cons model_part_def, simp_all add: usage_sum_def)
  then show ?case by (simp add: usage_sum_def)
next
  case (Cons r rs)
  obtain m u d where r: "r = (m, u, d)" by (cases r)
  have "usage_sum (map (\<lambda>k. usage_sum (model_part k (r # rs))) ks) =
      add_usage u (usage_sum (map (\<lambda>k. usage_sum (model_part k rs)) ks))"
    if "distinct ks" "m \<in> set ks" for ks
    using that
  proof (induction ks)
    case (Cons k ks)
    show ?case
    proof (cases "k = m")
      case True
      with Cons.prems have eq: "map (\<lambda>k. usage_sum (model_part k (r # rs))) ks =
          map (\<lambda>k. usage_sum (model_part k rs)) ks"
        by (auto simp: model_part_Cons r)
      show ?thesis
        unfolding list.map(2) usage_sum_Cons eq
        by (simp add: True usage_sum_Cons model_part_Cons r add_usage_assoc)
    next
      case False
      with Cons have "usage_sum (map (\<lambda>k. usage_sum (model_part k (r # rs))) ks) =
          add_usage u (usage_sum (map (\<lambda>k. usage_sum (model_part k rs)) ks))" by simp
      moreover have "model_part k (r # rs) = model_part k rs"
        using False by (simp add: model_part_Cons r)
      ultimately show ?thesis
        by (simp add: usage_sum_Cons) (rule add_usage_left_commute)
    qed
  qed simp
  with Cons assms(1) show ?case by (simp add: r usage_sum_Cons)
qed

text \<open>
  C27: After any sequence of responses recorded by the query engine on a fresh tracker, the
  total usage is the sum over the responses, each model's usage is the sum over its own
  responses, the models' usages add up to the total in whatever order the table is iterated,
  and the number of calls is the number of responses (modulo the width of its counter).
\<close>

theorem tracker_totals:
  assumes "\<not> ct_locked s" and "totals s = no_usage" and "ct_model_usage s = Map.empty"
    and "ct_api_calls s = 0"
  shows "\<exists>s'. record_responses rs s = Inr ((), s') \<and>
    total_usage s' = Inr (usage_sum (map (fst \<circ> snd) rs), s') \<and>
    (\<forall>m\<in>fst ` set rs. ct_model_usage s' m = Some (usage_sum (model_part m rs))) \<and>
    (\<forall>ks. iterates ks (ct_model_usage s') \<longrightarrow>
       usage_sum (map (\<lambda>m. the (ct_model_usage s' m)) ks) = usage_sum (map (fst \<circ> snd) rs)) \<and>
    ct_api_calls s' = of_nat (length rs)"
proof -
  obtain s' where s': "record_responses rs s = Inr ((), s')" "\<not> ct_locked s'"
    "totals s' = usage_sum (map (fst \<circ> snd) rs)"
    "\<And>m. ct_model_usage s' m =
      (if m \<in> fst ` set rs then Some (usage_sum (model_part m rs)) else None)"
    "ct_api_calls s' = of_nat (length rs)"
    using record_responses_totals [OF assms(1), of rs] assms(2-4) by auto
  have "total_usage s' = Inr (totals s', s')"
    using s'(2) by (simp add: total_usage_def locked_def totals_def)
  moreover have "usage_sum (map (\<lambda>m. the (ct_model_usage s' m)) ks) =
      usage_sum (map (fst \<circ> snd) rs)" if it: "iterates ks (ct_model_usage s')" for ks
  proof -
    have ks: "distinct ks" "set ks = fst ` set rs"
      using it s'(4) by (auto simp: iterates_def dom_def split: if_splits)
    then have eq: "map (\<lambda>m. the (ct_model_usage s' m)) ks = map (\<lambda>m. usage_sum (model_part m rs)) ks"
      using s'(4) by simp
    show ?thesis unfolding eq using usage_sum_models [of ks rs] ks by simp
  qed
  ultimately show ?thesis using s' by (intro exI [of _ s']) simp
qed

lemma tracker_totals_witness:
  "\<exists>s'. record_responses [(''opus'', no_usage\<lparr>input_tokens := 3\<rparr>, 1),
      (''haiku'', no_usage\<lparr>output_tokens := 5\<rparr>, 2), (''opus'', no_usage\<lparr>input_tokens := 4\<rparr>, 1)]
     new_tracker = Inr ((), s') \<and> ct_api_calls s' = 3"
proof -
  have "\<not> ct_locked new_tracker" "totals new_tracker = no_usage"
    "ct_model_usage new_tracker = Map.empty" "ct_api_calls new_tracker = 0"
    by (simp_all add: new_tracker_def totals_def no_usage_def)
  from tracker_totals [OF this, of "[(''opus'', no_usage\<lparr>input_tokens := 3\<rparr>, 1),
      (''haiku'', no_usage\<lparr>output_tokens := 5\<rparr>, 2), (''opus'', no_usage\<lparr>input_tokens := 4\<rparr>, 1)]"]
  show ?thesis by auto
qed

text \<open>
  \<open>format_cost\<close> never returns: from any state of the mutex it ends waiting for it, since
  it calls \<open>total_usage\<close> while it holds the lock. \<open>total_cost_usd\<close>, which computes the same
  number, does return on an unlocked tracker.
\<close>

theorem format_cost_deadlocks:
  "format_cost fixed s = Inl Deadlock \<and>
   (ct_locked s \<or> total_cost_usd s = Inr (estimate_cost_usd (totals s), s))"
  by (simp add: format_cost_def total_cost_usd_def total_usage_def locked_def totals_def)

end
