(* ===== verification/Query_Engine.thy ===== *)
theory Query_Engine
  imports Query_Pipeline Context_Builder Cost_Tracker
begin

text \<open>
  The tool-call loop, \<open>src/engine/query_engine.h\<close> and \<open>query_engine.cpp\<close>, with the parts of
  \<open>AppState\<close>, the tool registry, the cost tracker, the context builder and the client it works
  on. The client's call is an argument (\<open>ee_api\<close>), and \<open>engine_api\<close> is its instance for
  \<open>create_message_stream\<close>. \<open>abort\<close> may be called from another thread: each read of the flag
  is numbered, and \<open>ee_aborts n\<close> says that a call has come in by the \<open>n\<close>-th read. Tools run
  on a world of type \<open>'w\<close>, and may throw.
\<close>

section \<open>State\<close>

record ('j, 'c, 'w) engine =
  qe_messages :: "message list"
  qe_aborted :: bool
  qe_max_iterations :: int
  qe_working_directory :: string
  qe_session :: session_config
  qe_context :: context_builder
  qe_tools :: "'w registry"
  qe_tool_order :: "string list"
  qe_costs :: cost_tracker
  qe_client :: 'c
  qe_world :: 'w
  qe_stdout :: string
  qe_delivered :: "stream_event list"
  qe_reads :: nat

record ('j, 'c) engine_env =
  ee_api :: "nat \<Rightarrow> 'j query_options \<Rightarrow> 'c \<Rightarrow> (cpp_exn + query_response) \<times> stream_event list \<times> 'c"
  ee_aborts :: "nat \<Rightarrow> bool"
  ee_now :: "nat \<Rightarrow> int"
  ee_elapsed :: "nat \<Rightarrow> rat"

text \<open>The client's part of \<open>abort\<close> sets its own flag; here it is one of the inputs of the call.\<close>

definition engine_abort :: "('j, 'c, 'w) engine \<Rightarrow> ('j, 'c, 'w) engine" where
  "engine_abort s = s\<lparr>qe_aborted := True\<rparr>"

definition read_abort :: "('j, 'c) engine_env \<Rightarrow> ('j, 'c, 'w) engine \<Rightarrow> bool \<times> ('j, 'c, 'w) engine" where
  "read_abort E s =
     (let a = qe_aborted s \<or> ee_aborts E (qe_reads s)
      in (a, s\<lparr>qe_aborted := a, qe_reads := Suc (qe_reads s)\<rparr>))"

definition clear_history :: "('j, 'c, 'w) engine \<Rightarrow> ('j, 'c, 'w) engine" where
  "clear_history s = s\<lparr>qe_messages := [], qe_context := clear_cache (qe_context s)\<rparr>"

definition set_max_iterations :: "int \<Rightarrow> ('j, 'c, 'w) engine \<Rightarrow> ('j, 'c, 'w) engine" where
  "set_max_iterations n s = s\<lparr>qe_max_iterations := n\<rparr>"

section \<open>Compaction\<close>

definition clean_boundary :: "message \<Rightarrow> bool" where
  "clean_boundary m =
     (msg_role m = User \<and> msg_content m \<noteq> [] \<and> cb_type (hd (msg_content m)) = Text)"

text \<open>The walk forward from the trim point: how far it goes.\<close>

fun walk_to_boundary :: "message list \<Rightarrow> nat" where
  "walk_to_boundary [] = 0"
| "walk_to_boundary (m # ms) = (if clean_boundary m then 0 else Suc (walk_to_boundary ms))"

definition compact_messages :: "nat \<Rightarrow> message list \<Rightarrow> nat \<times> message list" where
  "compact_messages keep_recent ms =
     (if length ms \<le> keep_recent then (0, ms)
      else (let removed = length ms - keep_recent;
                trim_start = removed + walk_to_boundary (drop removed ms)
            in if length ms \<le> trim_start then (0, ms) else (trim_start, drop trim_start ms)))"

definition compact :: "nat \<Rightarrow> ('j, 'c, 'w) engine \<Rightarrow> nat \<times> ('j, 'c, 'w) engine" where
  "compact keep_recent s =
     (let r = compact_messages keep_recent (qe_messages s)
      in (fst r, s\<lparr>qe_messages := snd r\<rparr>))"

section \<open>Building the query\<close>

definition build_query_options ::
  "('j, 'z) jlib_scheme \<Rightarrow> host \<Rightarrow> int \<Rightarrow> string \<Rightarrow> ('j, 'c, 'w) engine \<Rightarrow>
   ('j query_options \<times> ('j, 'c, 'w) engine) option" where
  "build_query_options J h now user_input s =
     (case build_system_context h (qe_session s) (qe_context s) of
        None \<Rightarrow> None
      | Some (sys_ctx, b1) \<Rightarrow>
          (let (user_ctx, b2) = build_user_context h (qe_session s) b1;
               ms = qe_messages s @ [message_user now user_input]
           in Some (\<lparr>qo_model = sc_model (qe_session s),
                qo_system_prompts = filter (\<lambda>p. sys_content p \<noteq> []) [sys_ctx, user_ctx],
                qo_messages = ms, qo_stop_sequences = [], qo_stream = True,
                qo_tools_json = tools_json_array J (qe_tool_order s) (qe_tools s)\<rparr>,
              s\<lparr>qe_context := b2, qe_messages := ms\<rparr>)))"

section \<open>Executing a tool call\<close>

definition check_tool_permission :: "('j, 'c, 'w) engine \<Rightarrow> string \<Rightarrow> string \<Rightarrow> permission_result" where
  "check_tool_permission s name input =
     (if sc_permission_mode (qe_session s) = ''bypass'' \<or> sc_permission_mode (qe_session s) = ''yolo''
      then Allowed else Allowed)"

definition tool_ctx :: "('j, 'c, 'w) engine \<Rightarrow> tool_context" where
  "tool_ctx s = \<lparr>tx_working_directory = qe_working_directory s,
     tx_session_config = qe_session s, tx_extra_env = [],
     tx_check_permission = check_tool_permission s\<rparr>"

text \<open>The marks before the tool's name and before an error are UTF-8 characters.\<close>

definition display_tool_result :: "tool_call \<Rightarrow> tool_output \<Rightarrow> string" where
  "display_tool_result call out =
     [CHR 0x0A, CHR 0xE2, CHR 0x9A, CHR 0xA1] @ '' '' @ tc_name call
     @ (if to_content out \<noteq> []
        then [CHR 0x0A] @ (if length (to_content out) > 500
                           then take 500 (to_content out) @ ''... (truncated)'' else to_content out)
        else [])
     @ (if to_is_error out
        then [CHR 0x0A, CHR 0xE2, CHR 0x9D, CHR 0x8C] @ '' Error: '' @ to_error_message out else [])
     @ [CHR 0x0A]"

definition error_result :: "string \<Rightarrow> string \<Rightarrow> tool_result" where
  "error_result i e =
     \<lparr>tr_tool_use_id = i, tr_status = Error_Status, tr_content = e, tr_is_error = True\<rparr>"

definition result_of_output :: "string \<Rightarrow> tool_output \<Rightarrow> tool_result" where
  "result_of_output i out =
     \<lparr>tr_tool_use_id = i, tr_status = (if to_is_error out then Error_Status else Success),
      tr_content = (if to_is_error out then to_error_message out else to_content out),
      tr_is_error = to_is_error out\<rparr>"

definition execute_tool_call ::
  "('j, 'c) engine_env \<Rightarrow> tool_call \<Rightarrow> ('j, 'c, 'w) engine \<Rightarrow>
   (cpp_exn + tool_result) \<times> ('j, 'c, 'w) engine" where
  "execute_tool_call E call s =
     (case find_tool (qe_tools s) (tc_name call) of
        None \<Rightarrow> (Inr (error_result (tc_id call) (''Unknown tool: '' @ tc_name call)), s)
      | Some t \<Rightarrow>
          if check_tool_permission s (tc_name call) (tc_input_json call) = Denied
          then (Inr (error_result (tc_id call) (''Tool execution denied: '' @ tc_name call)), s)
          else
            (case t_execute t (tc_input_json call) (tool_ctx s) (qe_world s) of
               (Inl e, w) \<Rightarrow> (Inl e, s\<lparr>qe_world := w\<rparr>)
             | (Inr out, w) \<Rightarrow>
                 (case record_tool_duration (ee_elapsed E (qe_reads s)) (qe_costs s) of
                    Inl e \<Rightarrow> (Inl e, s\<lparr>qe_world := w\<rparr>)
                  | Inr (u, ct) \<Rightarrow>
                      (Inr (result_of_output (tc_id call) out),
                       s\<lparr>qe_world := w, qe_costs := ct,
                         qe_stdout := qe_stdout s @ display_tool_result call out\<rparr>))))"

fun run_tools ::
  "('j, 'c) engine_env \<Rightarrow> tool_call list \<Rightarrow> ('j, 'c, 'w) engine \<Rightarrow>
   (cpp_exn + tool_result list) \<times> ('j, 'c, 'w) engine" where
  "run_tools E [] s = (Inr [], s)"
| "run_tools E (call # calls) s =
     (case read_abort E s of
        (True, s1) \<Rightarrow> (Inr [], s1)
      | (False, s1) \<Rightarrow>
          (case execute_tool_call E call s1 of
             (Inl e, s2) \<Rightarrow> (Inl e, s2)
           | (Inr r, s2) \<Rightarrow>
               (case run_tools E calls (s2\<lparr>qe_costs := increment_tool_calls (qe_costs s2)\<rparr>) of
                  (Inl e, s3) \<Rightarrow> (Inl e, s3)
                | (Inr rs, s3) \<Rightarrow> (Inr (r # rs), s3))))"

section \<open>The tool-call loop\<close>

text \<open>Each event goes to the user's callback, and a delta is printed.\<close>

definition handle_stream_event :: "stream_event \<Rightarrow> ('j, 'c, 'w) engine \<Rightarrow> ('j, 'c, 'w) engine" where
  "handle_stream_event e s =
     s\<lparr>qe_delivered := qe_delivered s @ [e],
       qe_stdout := qe_stdout s @ (case (ev_type e, ev_delta_text e) of
          (ContentBlockDelta, Some d) \<Rightarrow> d | _ \<Rightarrow> [])\<rparr>"

text \<open>
  The first argument counts the iterations left (\<open>max_iterations_\<close> at the start), the third is
  the number of this one.
\<close>

fun tool_call_loop ::
  "nat \<Rightarrow> ('j, 'c) engine_env \<Rightarrow> nat \<Rightarrow> 'j query_options \<Rightarrow> query_response \<Rightarrow> ('j, 'c, 'w) engine \<Rightarrow>
   (cpp_exn + query_response) \<times> ('j, 'c, 'w) engine" where
  "tool_call_loop 0 E iteration opts final s = (Inr final, s)"
| "tool_call_loop (Suc k) E iteration opts final s =
     (case read_abort E s of
        (True, s1) \<Rightarrow> (Inr (final\<lparr>qr_stop_reason := ''abort''\<rparr>), s1)
      | (False, s1) \<Rightarrow>
          (case ee_api E iteration opts (qe_client s1) of
             (Inl e, evs, c) \<Rightarrow> (Inl e, foldl (\<lambda>s ev. handle_stream_event ev s) (s1\<lparr>qe_client := c\<rparr>) evs)
           | (Inr resp, evs, c) \<Rightarrow>
               (let s2 = foldl (\<lambda>s ev. handle_stream_event ev s) (s1\<lparr>qe_client := c\<rparr>) evs
                in case record_response (msg_model (qr_message resp)) (qr_usage resp)
                          (ee_elapsed E (qe_reads s2)) (qe_costs s2) of
                     Inl e \<Rightarrow> (Inl e, s2)
                   | Inr (u, ct) \<Rightarrow>
                       (let s3 = s2\<lparr>qe_costs := ct, qe_messages := qe_messages s2 @ [qr_message resp]\<rparr>
                        in if \<not> qr_stopped_by_tool resp then (Inr resp, s3)
                           else (case run_tools E (tool_calls (qr_message resp)) s3 of
                                   (Inl e, s4) \<Rightarrow> (Inl e, s4)
                                 | (Inr results, s4) \<Rightarrow>
                                     if results = [] then (Inr resp, s4)
                                     else (let s5 = s4\<lparr>qe_messages := qe_messages s4 @
                                              [create_tool_result_message (ee_now E (qe_reads s4)) results]\<rparr>
                                           in tool_call_loop k E (Suc iteration)
                                                (opts\<lparr>qo_messages := qe_messages s5\<rparr>) resp s5))))))"

definition run_tool_call_loop ::
  "('j, 'c) engine_env \<Rightarrow> message_role \<Rightarrow> 'j query_options \<Rightarrow> ('j, 'c, 'w) engine \<Rightarrow>
   (cpp_exn + query_response) \<times> ('j, 'c, 'w) engine" where
  "run_tool_call_loop E junk opts s =
     (case tool_call_loop (nat (qe_max_iterations s)) E 0 opts (blank_response junk) s of
        (Inl e, s1) \<Rightarrow> (Inl e, s1)
      | (Inr r, s1) \<Rightarrow>
          (case read_abort E s1 of
             (True, s2) \<Rightarrow> (Inr (r\<lparr>qr_stop_reason := ''abort''\<rparr>), s2)
           | (False, s2) \<Rightarrow> (Inr r, s2)))"

definition execute ::
  "('j, 'z) jlib_scheme \<Rightarrow> host \<Rightarrow> ('j, 'c) engine_env \<Rightarrow> message_role \<Rightarrow> string \<Rightarrow>
   ('j, 'c, 'w) engine \<Rightarrow> ((cpp_exn + query_response) \<times> ('j, 'c, 'w) engine) option" where
  "execute J h E junk user_input s =
     map_option (\<lambda>(opts, s1). run_tool_call_loop E junk opts s1)
       (build_query_options J h (ee_now E (qe_reads s)) user_input s)"

text \<open>
  With a callback for the events, which the engine keeps in \<open>qe_delivered\<close>, and one for the
  response, which is called unless the query throws: what it is called with comes second.
\<close>

definition execute_stream ::
  "('j, 'z) jlib_scheme \<Rightarrow> host \<Rightarrow> ('j, 'c) engine_env \<Rightarrow> message_role \<Rightarrow> string \<Rightarrow>
   ('j, 'c, 'w) engine \<Rightarrow> ((cpp_exn + unit) \<times> query_response list \<times> ('j, 'c, 'w) engine) option" where
  "execute_stream J h E junk user_input s =
     map_option (\<lambda>(opts, s1). case run_tool_call_loop E junk opts s1 of
          (Inl e, s2) \<Rightarrow> (Inl e, [], s2)
        | (Inr r, s2) \<Rightarrow> (Inr (), [r], s2))
       (build_query_options J h (ee_now E (qe_reads s)) user_input s)"

definition execute_with_options ::
  "('j, 'c) engine_env \<Rightarrow> message_role \<Rightarrow> 'j query_options \<Rightarrow> ('j, 'c, 'w) engine \<Rightarrow>
   (cpp_exn + query_response) \<times> ('j, 'c, 'w) engine" where
  "execute_with_options E junk opts s = run_tool_call_loop E junk opts s"

text \<open>The client's call as the engine makes it: \<open>curl\<close> and the flag at the end, per iteration.\<close>

definition engine_api ::
  "('j, 'z) jlib_scheme \<Rightarrow> message_role \<Rightarrow> (curl_code \<Rightarrow> string) \<Rightarrow> (nat \<Rightarrow> nat \<Rightarrow> attempt) \<Rightarrow>
   (nat \<Rightarrow> bool) \<Rightarrow> nat \<Rightarrow> 'j query_options \<Rightarrow> client \<Rightarrow>
   (cpp_exn + query_response) \<times> stream_event list \<times> client" where
  "engine_api J junk strerror curl aborted_end n q c =
     create_message_stream J junk strerror (curl n) (aborted_end n) q True c"


section \<open>Pairing of tool calls and results\<close>

definition result_ids :: "message \<Rightarrow> string list" where
  "result_ids m = map (\<lambda>b. tr_tool_use_id (cb_tool_result b))
     (filter (\<lambda>b. cb_type b = ToolResult_Block) (msg_content m))"

definition call_ids :: "message \<Rightarrow> string list" where
  "call_ids m = map tc_id (tool_calls m)"

text \<open>
  What the loop may append: answers and, after an answer with tool calls, the results of a
  first part of its calls, in their order; \<open>full\<close> asks for all of them.
\<close>

fun turns_ok :: "bool \<Rightarrow> message list \<Rightarrow> bool" where
  "turns_ok full [] = True"
| "turns_ok full [a] = True"
| "turns_ok full (a # r # ms) =
     (msg_role r = User \<and> result_ids r \<noteq> [] \<and> prefix (result_ids r) (call_ids a) \<and>
      (full \<longrightarrow> result_ids r = call_ids a) \<and> turns_ok full ms)"

lemma result_ids_created [simp]:
  "result_ids (create_tool_result_message now rs) = map tr_tool_use_id rs"
  by (simp add: result_ids_def create_tool_result_message_def comp_def filter_map)

lemma created_role [simp]: "msg_role (create_tool_result_message now rs) = User"
  by (simp add: create_tool_result_message_def blank_message_def)

text \<open>What an operation leaves alone: the messages, and an abort that has been seen.\<close>

definition keeps_history :: "('j, 'c, 'w) engine \<Rightarrow> ('j, 'c, 'w) engine \<Rightarrow> bool" where
  "keeps_history s s' = (qe_messages s' = qe_messages s \<and> (qe_aborted s \<longrightarrow> qe_aborted s'))"

lemma keeps_history_refl [simp]: "keeps_history s s"
  by (simp add: keeps_history_def)

lemma keeps_history_trans: "keeps_history s t \<Longrightarrow> keeps_history t u \<Longrightarrow> keeps_history s u"
  by (simp add: keeps_history_def)

lemma read_abort_keeps: "read_abort E s = (a, s1) \<Longrightarrow> keeps_history s s1 \<and> qe_aborted s1 = a"
  by (auto simp: read_abort_def keeps_history_def Let_def)

lemma execute_tool_call_keeps: "execute_tool_call E call s = (r, s') \<Longrightarrow> keeps_history s s'"
  by (auto simp: execute_tool_call_def keeps_history_def split: option.splits prod.splits
      sum.splits if_splits)

lemma execute_tool_call_id:
  "execute_tool_call E call s = (Inr r, s') \<Longrightarrow> tr_tool_use_id r = tc_id call"
  by (auto simp: execute_tool_call_def error_result_def result_of_output_def
      split: option.splits prod.splits sum.splits if_splits)

lemma run_tools_result:
  "run_tools E calls s = (res, s') \<Longrightarrow>
   keeps_history s s' \<and>
   (\<forall>rs. res = Inr rs \<longrightarrow> prefix (map tr_tool_use_id rs) (map tc_id calls) \<and>
      (\<not> qe_aborted s' \<longrightarrow> length rs = length calls))"
proof (induction calls arbitrary: s res s')
  case (Cons call calls)
  obtain a s1 where a: "read_abort E s = (a, s1)" by fastforce
  note k1 = read_abort_keeps [OF a]
  show ?case
  proof (cases a)
    case True
    with a k1 Cons.prems show ?thesis by auto
  next
    case False
    obtain r s2 where e: "execute_tool_call E call s1 = (r, s2)" by fastforce
    have k2: "keeps_history s s2"
      using k1 execute_tool_call_keeps [OF e] keeps_history_trans by blast
    let ?s2 = "s2\<lparr>qe_costs := increment_tool_calls (qe_costs s2)\<rparr>"
    obtain q s3 where t: "run_tools E calls ?s2 = (q, s3)" by fastforce
    have k3: "keeps_history s s3"
      using k2 Cons.IH [OF t] by (auto simp: keeps_history_def)
    show ?thesis
      using Cons.prems a False e t k2 k3 Cons.IH [OF t] execute_tool_call_id [of E call s1]
      by (cases r; cases q) auto
  qed
qed simp

lemma execute_tool_call_client: "execute_tool_call E call s = (r, s') \<Longrightarrow> qe_client s' = qe_client s"
  by (auto simp: execute_tool_call_def split: option.splits prod.splits sum.splits if_splits)

lemma run_tools_client: "run_tools E calls s = (res, s') \<Longrightarrow> qe_client s' = qe_client s"
proof (induction calls arbitrary: s res s')
  case (Cons call calls)
  have "qe_client s1 = qe_client s" if "read_abort E s = (a, s1)" for a s1
    using that by (auto simp: read_abort_def Let_def)
  with Cons.prems show ?case
    by (auto split: prod.splits bool.splits sum.splits dest!: Cons.IH execute_tool_call_client)
qed simp

lemma handle_stream_events_keep:
  "keeps_history s (foldl (\<lambda>s ev. handle_stream_event ev s) s evs) \<and>
   qe_client (foldl (\<lambda>s ev. handle_stream_event ev s) s evs) = qe_client s"
  by (induction evs arbitrary: s) (auto simp: handle_stream_event_def keeps_history_def)

lemma turns_ok_snoc_single: "turns_ok c [m]"
  by simp

text \<open>The appended messages of one run of the loop.\<close>

definition appends :: "nat \<Rightarrow> ('j, 'c, 'w) engine \<Rightarrow> ('j, 'c, 'w) engine \<Rightarrow> bool" where
  "appends k s s' = (\<exists>ms. qe_messages s' = qe_messages s @ ms \<and> length ms \<le> 2 * k \<and>
     turns_ok (\<not> qe_aborted s') ms)"

lemma appends_none: "keeps_history s s' \<Longrightarrow> appends k s s'"
  unfolding appends_def keeps_history_def by (rule exI [of _ "[]"]) simp

lemma appends_one:
  "qe_messages s' = qe_messages s @ [a] \<Longrightarrow> appends (Suc k) s s'"
  unfolding appends_def by (rule exI [of _ "[a]"]) simp

lemma turns_ok_weaken: "turns_ok c ms \<Longrightarrow> (c' \<longrightarrow> c) \<Longrightarrow> turns_ok c' ms"
  by (induction c ms rule: turns_ok.induct) auto

text \<open>
  One iteration: nothing is appended, or the answer alone ends the loop, or the answer and the
  results of a first part of its calls are appended and the loop goes on.
\<close>

lemma loop_turn:
  assumes "tool_call_loop (Suc k) E iteration opts final s = (res, s')"
  obtains (unchanged) "keeps_history s s'" "(\<exists>e. res = Inl e) \<or> qe_aborted s'"
  | (answer) resp c evs c' where "ee_api E iteration opts c = (Inr resp, evs, c')"
      "qe_messages s' = qe_messages s @ [qr_message resp]" "qe_aborted s \<longrightarrow> qe_aborted s'"
      "c = qe_client s"
  | (results) resp c evs c' rs now opts' s5 where "ee_api E iteration opts c = (Inr resp, evs, c')"
      "rs \<noteq> []" "prefix (map tr_tool_use_id rs) (call_ids (qr_message resp))"
      "\<not> qe_aborted s5 \<longrightarrow> length rs = length (call_ids (qr_message resp))"
      "qe_messages s5 = qe_messages s @ [qr_message resp, create_tool_result_message now rs]"
      "qe_aborted s \<longrightarrow> qe_aborted s5" "tool_call_loop k E (Suc iteration) opts' resp s5 = (res, s')"
      "c = qe_client s" "opts' = opts\<lparr>qo_messages := qe_messages s5\<rparr>" "qe_client s5 = c'"
proof -
  obtain a s1 where a: "read_abort E s = (a, s1)" by fastforce
  note k1 = read_abort_keeps [OF a]
  from a have client1: "qe_client s1 = qe_client s" by (auto simp: read_abort_def Let_def)
  show ?thesis
  proof (cases a)
    case True
    with a assms have "s' = s1" by simp
    with k1 True show ?thesis using unchanged by blast
  next
    case False
    then have af: "a = False" by simp
    obtain r evs c where api: "ee_api E iteration opts (qe_client s1) = (r, evs, c)"
      by (metis prod_cases3)
    define s2 where "s2 = foldl (\<lambda>s ev. handle_stream_event ev s) (s1\<lparr>qe_client := c\<rparr>) evs"
    have k2: "keeps_history s s2"
      using k1 handle_stream_events_keep [of "s1\<lparr>qe_client := c\<rparr>" evs]
      by (auto simp: s2_def keeps_history_def)
    have client2: "qe_client s2 = c"
      using handle_stream_events_keep [of "s1\<lparr>qe_client := c\<rparr>" evs] by (simp add: s2_def)
    note step2 = assms [unfolded tool_call_loop.simps a af api prod.case bool.case s2_def [symmetric] Let_def]
    show ?thesis
    proof (cases r)
      case (Inl e)
      with step2 k2 show ?thesis by (auto intro: unchanged)
    next
      case (Inr resp)
      note api' = api [unfolded Inr]
      show ?thesis
      proof (cases "record_response (msg_model (qr_message resp)) (qr_usage resp)
          (ee_elapsed E (qe_reads s2)) (qe_costs s2)")
        case (Inl e)
        with step2 Inr k2 show ?thesis by (auto intro: unchanged)
      next
        case rec: (Inr x)
        obtain u ct where x: "x = (u, ct)" by (cases x)
        define s3 where "s3 = s2\<lparr>qe_costs := ct, qe_messages := qe_messages s2 @ [qr_message resp]\<rparr>"
        have m3: "qe_messages s3 = qe_messages s @ [qr_message resp]" "qe_aborted s \<longrightarrow> qe_aborted s3"
          using k2 by (simp_all add: s3_def keeps_history_def)
        note step3 = step2 [unfolded Inr sum.case rec x prod.case s3_def [symmetric]]
        show ?thesis
        proof (cases "qr_stopped_by_tool resp")
          case False
          with step3 m3 show ?thesis by (auto intro: answer [OF api'] simp: client1)
        next
          case stopped: True
          obtain q s4 where t: "run_tools E (tool_calls (qr_message resp)) s3 = (q, s4)" by fastforce
          note k4 = run_tools_result [OF t]
          have m4: "qe_messages s4 = qe_messages s @ [qr_message resp]" "qe_aborted s \<longrightarrow> qe_aborted s4"
            using k4 m3 by (auto simp: keeps_history_def)
          show ?thesis
          proof (cases "\<exists>e. q = Inl e \<or> q = Inr []")
            case True
            with step3 stopped t m4 show ?thesis by (auto intro: answer [OF api'] simp: client1)
          next
            case False
            then obtain rs where q: "q = Inr rs" "rs \<noteq> []" by (cases q) auto
            let ?s5 = "s4\<lparr>qe_messages := qe_messages s4 @
                [create_tool_result_message (ee_now E (qe_reads s4)) rs]\<rparr>"
            have "tool_call_loop k E (Suc iteration) (opts\<lparr>qo_messages := qe_messages ?s5\<rparr>) resp ?s5
                = (res, s')"
              using step3 stopped t q by simp
            moreover have "qe_client ?s5 = c"
              using run_tools_client [OF t] client2 by (simp add: s3_def)
            ultimately show ?thesis
              using results [OF api' q(2), of ?s5] k4 q(1) m4 client1 by (simp add: call_ids_def)
          qed
        qed
      qed
    qed
  qed
qed

lemma tool_call_loop_appends:
  "tool_call_loop k E iteration opts final s = (res, s') \<Longrightarrow>
   appends k s s' \<and> (qe_aborted s \<longrightarrow> qe_aborted s')"
proof (induction k arbitrary: iteration opts final s)
  case 0
  then show ?case by (auto simp: appends_none)
next
  case (Suc k)
  show ?case
  proof (cases rule: loop_turn [OF Suc.prems])
    case 1
    then show ?thesis by (auto simp: appends_none keeps_history_def)
  next
    case 2
    then show ?thesis by (auto simp: appends_one)
  next
    case (3 resp c evs c' rs now opts' s5)
    from Suc.IH [OF 3(7)] obtain ms where
      ms: "qe_messages s' = qe_messages s5 @ ms" "length ms \<le> 2 * k"
        "turns_ok (\<not> qe_aborted s') ms" and sticky: "qe_aborted s5 \<longrightarrow> qe_aborted s'"
      by (auto simp: appends_def)
    let ?ms = "qr_message resp # create_tool_result_message now rs # ms"
    have "turns_ok (\<not> qe_aborted s') ?ms"
      using ms(3) 3(2-4) sticky by (auto simp: prefix_def)
    moreover have "qe_messages s' = qe_messages s @ ?ms" using ms(1) 3(5) by simp
    ultimately have "appends (Suc k) s s'"
      unfolding appends_def using ms(2) by (intro exI [of _ ?ms]) simp
    with sticky 3(6) show ?thesis by simp
  qed
qed

text \<open>
  A property of the conversation is kept by the loop if it is kept by an answer of the API and,
  after one, by the results of a first part of its calls.
\<close>

lemma tool_call_loop_history:
  assumes answer: "\<And>n q c resp evs c' ms. ee_api E n q c = (Inr resp, evs, c') \<Longrightarrow> P ms \<Longrightarrow> P (ms @ [qr_message resp])"
    and results: "\<And>ms m rs now. P (ms @ [m]) \<Longrightarrow> rs \<noteq> [] \<Longrightarrow> prefix (map tr_tool_use_id rs) (call_ids m) \<Longrightarrow>
      P (ms @ [m, create_tool_result_message now rs])"
  shows "tool_call_loop k E iteration opts final s = (res, s') \<Longrightarrow> P (qe_messages s) \<Longrightarrow> P (qe_messages s')"
proof (induction k arbitrary: iteration opts final s)
  case (Suc k)
  show ?case
  proof (cases rule: loop_turn [OF Suc.prems(1)])
    case 1
    with Suc.prems(2) show ?thesis by (simp add: keeps_history_def)
  next
    case 2
    then show ?thesis using answer [OF 2(1) Suc.prems(2)] by simp
  next
    case (3 resp c evs c' rs now opts' s5)
    have "P (qe_messages s5)"
      unfolding 3(5) by (rule results [OF answer [OF 3(1) Suc.prems(2)] 3(2,3)])
    with Suc.IH [OF 3(7)] show ?thesis by blast
  qed
qed simp


text \<open>
  C1: Whatever the API answers and the tools do, a query that returns (or throws) has appended
  at most two messages per iteration, within the bound \<open>max_iterations\<close>: answers, each with
  tool calls followed by one user message whose results carry the ids of a first part of those
  calls, in order, and of all of them when the query was not aborted.
\<close>

theorem tool_calls_answered:
  assumes "run_tool_call_loop E junk opts s = (res, s')"
  shows "\<exists>ms. qe_messages s' = qe_messages s @ ms \<and> length ms \<le> 2 * nat (qe_max_iterations s) \<and>
    turns_ok (\<not> qe_aborted s') ms"
proof -
  obtain q s1 where loop: "tool_call_loop (nat (qe_max_iterations s)) E 0 opts (blank_response junk) s
      = (q, s1)" by fastforce
  note l = tool_call_loop_appends [OF loop]
  have "qe_messages s' = qe_messages s1 \<and> (qe_aborted s1 \<longrightarrow> qe_aborted s')"
  proof (cases q)
    case (Inl e)
    with assms loop show ?thesis by (auto simp: run_tool_call_loop_def)
  next
    case (Inr r)
    obtain a s2 where a: "read_abort E s1 = (a, s2)" by fastforce
    with assms loop Inr have "s' = s2" by (cases a) (auto simp: run_tool_call_loop_def)
    with read_abort_keeps [OF a] show ?thesis by (auto simp: keeps_history_def)
  qed
  with l show ?thesis unfolding appends_def by (metis (full_types) turns_ok_weaken)
qed

section \<open>Abort and permissions\<close>

text \<open>
  The abort flag is never cleared: once it is set, every later query only appends its user
  message, makes no API call, and returns with the stop reason \<open>abort\<close>, leaving the flag set.
\<close>

theorem abort_is_permanent:
  assumes "qe_aborted s" and "execute J h E junk user_input s = Some (res, s')"
  shows "(\<exists>r. res = Inr r \<and> qr_stop_reason r = ''abort'') \<and> qe_aborted s' \<and>
    qe_client s' = qe_client s \<and> qe_world s' = qe_world s \<and>
    qe_messages s' = qe_messages s @ [message_user (ee_now E (qe_reads s)) user_input]"
proof -
  from assms(2) obtain opts s1 where
    b: "build_query_options J h (ee_now E (qe_reads s)) user_input s = Some (opts, s1)" and
    run: "run_tool_call_loop E junk opts s1 = (res, s')"
    by (auto simp: execute_def)
  have s1: "qe_messages s1 = qe_messages s @ [message_user (ee_now E (qe_reads s)) user_input]"
    "qe_aborted s1" "qe_client s1 = qe_client s" "qe_world s1 = qe_world s"
    using b assms(1) by (auto simp: build_query_options_def Let_def split: option.splits prod.splits)
  show ?thesis
  proof (cases "nat (qe_max_iterations s1)")
    case 0
    with run s1 show ?thesis by (auto simp: run_tool_call_loop_def read_abort_def Let_def)
  next
    case (Suc k)
    with run s1 show ?thesis by (auto simp: run_tool_call_loop_def read_abort_def Let_def)
  qed
qed

text \<open>
  No permission setting stops a tool: in every session, a call of a registered tool runs
  it on the current world with the context of the session, and every check a tool makes through
  that context is answered \<open>Allowed\<close>; an unregistered name gives an error result with the
  call's id and changes nothing.
\<close>

theorem permissions_not_enforced:
  "(case find_tool (qe_tools s) (tc_name call) of
      None \<Rightarrow> execute_tool_call E call s =
        (Inr (error_result (tc_id call) (''Unknown tool: '' @ tc_name call)), s)
    | Some t \<Rightarrow> qe_world (snd (execute_tool_call E call s)) =
        snd (t_execute t (tc_input_json call) (tool_ctx s) (qe_world s))) \<and>
   tx_check_permission (tool_ctx s) name input = Allowed"
  by (auto simp: execute_tool_call_def check_tool_permission_def tool_ctx_def
      split: option.splits prod.splits sum.splits)

section \<open>Compaction\<close>

lemma walk_to_boundary_le: "walk_to_boundary ms \<le> length ms"
  by (induction ms) auto

lemma walk_to_boundary_found:
  "walk_to_boundary ms < length ms \<Longrightarrow>
   clean_boundary (ms ! walk_to_boundary ms) \<and> (\<forall>i<walk_to_boundary ms. \<not> clean_boundary (ms ! i))"
proof (induction ms)
  case (Cons m ms)
  then show ?case by (auto simp: less_Suc_eq_0_disj)
qed simp

lemma walk_to_boundary_none:
  "walk_to_boundary ms = length ms \<longleftrightarrow> (\<forall>m\<in>set ms. \<not> clean_boundary m)"
  by (induction ms) auto

text \<open>Each tool result belongs to a call of the message before it.\<close>

definition well_paired :: "message list \<Rightarrow> bool" where
  "well_paired ms =
     (\<forall>i<length ms. result_ids (ms ! i) \<noteq> [] \<longrightarrow>
        0 < i \<and> set (result_ids (ms ! i)) \<subseteq> set (call_ids (ms ! (i - 1))))"

lemma well_paired_drop:
  assumes "well_paired ms" and "n < length ms" and "result_ids (ms ! n) = []"
  shows "well_paired (drop n ms)"
  unfolding well_paired_def
proof (intro allI impI)
  fix i assume i: "i < length (drop n ms)" "result_ids (drop n ms ! i) \<noteq> []"
  then have "i \<noteq> 0" using assms(2,3) by (cases i) auto
  moreover have "set (result_ids (ms ! (n + i))) \<subseteq> set (call_ids (ms ! (n + i - 1)))"
    using assms(1) i by (simp add: well_paired_def)
  ultimately show "0 < i \<and> set (result_ids (drop n ms ! i)) \<subseteq> set (call_ids (drop n ms ! (i - 1)))"
    using i by simp
qed

text \<open>
  C8: Compaction keeps a suffix of the conversation and returns the number of messages it
  removed. When it removes any, at most \<open>keep_recent\<close> remain, they start with a user message
  of text, and no later start was skipped; when it removes none, either the conversation was
  short enough or no message of the last \<open>keep_recent\<close> could start it. A conversation in which
  every tool result follows its call stays so.
\<close>

theorem compact_keeps_pairs:
  assumes "compact_messages keep ms = (n, ms')"
  shows "ms' = drop n ms \<and> n \<le> length ms \<and>
    (n = 0 \<longrightarrow> length ms \<le> keep \<or> (\<forall>m\<in>set (drop (length ms - keep) ms). \<not> clean_boundary m)) \<and>
    (0 < n \<longrightarrow> length ms' \<le> keep \<and> ms' \<noteq> [] \<and> clean_boundary (hd ms') \<and>
       (\<forall>i. length ms - keep \<le> i \<and> i < n \<longrightarrow> \<not> clean_boundary (ms ! i))) \<and>
    (well_paired ms \<and> (\<forall>m\<in>set ms. clean_boundary m \<longrightarrow> result_ids m = []) \<longrightarrow> well_paired ms')"
proof (cases "length ms \<le> keep")
  case True
  with assms show ?thesis by (auto simp: compact_messages_def)
next
  case long: False
  define removed where "removed = length ms - keep"
  define w where "w = walk_to_boundary (drop removed ms)"
  have res: "(n, ms') = (if length ms \<le> removed + w then (0, ms) else (removed + w, drop (removed + w) ms))"
    using assms long
    unfolding compact_messages_def Let_def removed_def [symmetric] w_def [symmetric] by simp
  show ?thesis
  proof (cases "length ms \<le> removed + w")
    case True
    with res have n: "n = 0" "ms' = ms" by auto
    have "w = length (drop removed ms)"
      using True walk_to_boundary_le [of "drop removed ms"] by (simp add: w_def)
    then have "\<forall>m\<in>set (drop removed ms). \<not> clean_boundary m"
      unfolding w_def by (rule walk_to_boundary_none [THEN iffD1])
    with n show ?thesis by (simp add: removed_def)
  next
    case False
    with res have n: "n = removed + w" "ms' = drop n ms" by auto
    have w: "w < length (drop removed ms)" using False by simp
    note found = walk_to_boundary_found [OF w [unfolded w_def], folded w_def]
    have nlt: "n < length ms" using False n(1) by simp
    then have hd: "hd ms' = ms ! n" by (simp add: n(2) hd_drop_conv_nth)
    have clean: "clean_boundary (ms ! n)" using found w by (simp add: n(1) nth_drop)
    have skipped: "\<not> clean_boundary (ms ! i)" if "removed \<le> i" "i < n" for i
    proof -
      have "i - removed < w" using that n(1) by linarith
      with found have "\<not> clean_boundary (drop removed ms ! (i - removed))" by blast
      with that nlt show ?thesis by (simp add: nth_drop)
    qed
    have pairs: "well_paired ms'"
      if "well_paired ms" "\<forall>m\<in>set ms. clean_boundary m \<longrightarrow> result_ids m = []"
      using that clean nlt unfolding n(2) by (intro well_paired_drop) auto
    show ?thesis
      using n nlt hd clean skipped pairs long by (auto simp: removed_def)
  qed
qed


section \<open>A sample run\<close>

definition sample_engine :: "(jv, unit, unit) engine" where
  "sample_engine = \<lparr>qe_messages = [], qe_aborted = False, qe_max_iterations = 100,
     qe_working_directory = ''/w'', qe_session = sample_session ''/w'', qe_context = new_builder,
     qe_tools = [''Read'' \<mapsto> sample_tool ''Read'' ''file''], qe_tool_order = [''Read''],
     qe_costs = new_tracker, qe_client = (), qe_world = (), qe_stdout = [], qe_delivered = [],
     qe_reads = 0\<rparr>"

text \<open>An API that asks for one tool in its first answer and ends the turn in the second.\<close>

definition sample_answer :: "content_block list \<Rightarrow> string \<Rightarrow> query_response" where
  "sample_answer bs reason = (blank_response System)\<lparr>
     qr_message := (blank_message System)\<lparr>msg_content := bs\<rparr>, qr_stop_reason := reason,
     qr_stopped_by_tool := (reason = ''tool_use'')\<rparr>"

definition sample_env :: "(jv, unit) engine_env" where
  "sample_env = \<lparr>ee_api = (\<lambda>n q c. (Inr (if n = 0
       then sample_answer [empty_block\<lparr>cb_type := ToolUse,
              cb_tool_call := \<lparr>tc_id = ''t1'', tc_name = ''Read'', tc_input_json = ''{}''\<rparr>\<rparr>] ''tool_use''
       else sample_answer [make_text ''done''] ''end_turn''), [], c)),
     ee_aborts = (\<lambda>n. False), ee_now = (\<lambda>n. 0), ee_elapsed = (\<lambda>n. 1)\<rparr>"

definition sample_query :: "jv query_options" where
  "sample_query = sample_options"

lemma tool_calls_answered_witness:
  "\<exists>res s' ms. run_tool_call_loop sample_env System sample_query sample_engine = (res, s') \<and>
     qe_messages s' = ms \<and> length ms \<le> 200 \<and> turns_ok (\<not> qe_aborted s') ms"
proof -
  obtain res s' where run: "run_tool_call_loop sample_env System sample_query sample_engine = (res, s')"
    by fastforce
  from tool_calls_answered [OF run] run show ?thesis
    by (simp add: sample_engine_def)
qed

lemma abort_is_permanent_witness:
  "\<exists>res s'. execute (sample_jlib (\<lambda>s. Inr JNull) (\<lambda>v. [])) (sample_host ''d'') sample_env System ''hi''
      (engine_abort sample_engine) = Some (res, s') \<and>
    (\<exists>r. res = Inr r \<and> qr_stop_reason r = ''abort'')"
proof -
  let ?J = "sample_jlib (\<lambda>s. Inr JNull) (\<lambda>v. [])" and ?h = "sample_host ''d''"
  have "is_git_repo (ho_os ?h) cwd = Some False" for cwd
    by (simp add: is_git_repo_def exec_program_def exec_fork_def git_options_def default_options_def
        open_fds_def sample_host_def sample_child_def contains_str_def Let_def)
  then have "build_system_context ?h c new_builder \<noteq> None" for c
    by (simp add: build_system_context_def get_git_status_def new_builder_def Let_def)
  then have "build_query_options ?J ?h n ''hi'' (engine_abort sample_engine) \<noteq> None" for n
    by (auto simp: build_query_options_def sample_engine_def engine_abort_def Let_def
        split: option.splits prod.splits)
  then obtain x where "build_query_options ?J ?h (ee_now sample_env 0) ''hi'' (engine_abort sample_engine)
      = Some x" by blast
  then obtain res s' where run: "execute ?J ?h sample_env System ''hi'' (engine_abort sample_engine) =
      Some (res, s')"
    by (cases x; cases "run_tool_call_loop sample_env System (fst x) (snd x)")
      (auto simp: execute_def sample_engine_def engine_abort_def)
  have "qe_aborted (engine_abort sample_engine)" by (simp add: engine_abort_def)
  from abort_is_permanent [OF this run] run show ?thesis by blast
qed

lemma compact_keeps_pairs_witness:
  "compact_messages 2 [message_user 0 ''a'', message_assistant 1 ''b'' ''m'', message_user 2 ''c'',
      message_assistant 3 ''d'' ''m''] =
    (2, [message_user 2 ''c'', message_assistant 3 ''d'' ''m'']) \<and>
   clean_boundary (message_user 2 ''c'')"
proof -
  let ?ms = "[message_user 0 ''a'', message_assistant 1 ''b'' ''m'', message_user 2 ''c'',
      message_assistant 3 ''d'' ''m'']"
  have run: "compact_messages 2 ?ms = (2, [message_user 2 ''c'', message_assistant 3 ''d'' ''m''])"
    by (simp add: compact_messages_def clean_boundary_def message_user_def message_assistant_def
        make_text_block_def blank_message_def empty_block_def)
  from compact_keeps_pairs [OF run] run show ?thesis by simp
qed

end
