(* ===== verification/Team.thy ===== *)
theory Team
  imports Json
begin

text \<open>
  \<open>AgentTask\<close> of \<open>src/agent/coordinator.h\<close>, and \<open>Team\<close> of \<open>src/agent/team.h\<close> and
  \<open>team.cpp\<close>: members with their roles and the tasks given to each. The mutex is not modelled:
  no operation calls out or calls another one while it is held.
\<close>

datatype agent_status = Idle | Running | Waiting | Completed | Failed | Cancelled

record 'j agent_task =
  at_id :: string
  at_description :: string
  at_agent_type :: string
  at_input :: 'j
  at_output :: 'j
  at_status :: agent_status
  at_error_message :: string
  at_start_time_ms :: rat
  at_end_time_ms :: rat

record team_member =
  tm_agent_id :: string
  tm_role :: string

record 'j team =
  te_name :: string
  te_members :: "team_member list"
  te_task_results :: "string \<rightharpoonup> 'j agent_task list"

definition new_team :: "string \<Rightarrow> 'j team" where
  "new_team name = \<lparr>te_name = name, te_members = [], te_task_results = Map.empty\<rparr>"

definition add_member :: "string \<Rightarrow> string \<Rightarrow> 'j team \<Rightarrow> 'j team" where
  "add_member agent_id role t =
     (if list_ex (\<lambda>m. tm_agent_id m = agent_id) (te_members t) then t
      else t\<lparr>te_members := te_members t @ [\<lparr>tm_agent_id = agent_id, tm_role = role\<rparr>]\<rparr>)"

definition remove_member :: "string \<Rightarrow> 'j team \<Rightarrow> 'j team" where
  "remove_member agent_id t =
     t\<lparr>te_members := filter (\<lambda>m. tm_agent_id m \<noteq> agent_id) (te_members t),
       te_task_results := (te_task_results t)(agent_id := None)\<rparr>"

text \<open>\<open>task_results_[agent_id].push_back(task)\<close>.\<close>

definition push_task ::
  "string \<Rightarrow> 'j agent_task \<Rightarrow> (string \<rightharpoonup> 'j agent_task list) \<Rightarrow> (string \<rightharpoonup> 'j agent_task list)" where
  "push_task a task r = r(a \<mapsto> (case r a of None \<Rightarrow> [] | Some ts \<Rightarrow> ts) @ [task])"

definition assign :: "string \<Rightarrow> 'j agent_task \<Rightarrow> 'j team \<Rightarrow> string \<times> 'j team" where
  "assign agent_id task t =
     (if \<not> list_ex (\<lambda>m. tm_agent_id m = agent_id) (te_members t) then ([], t)
      else (at_id task, t\<lparr>te_task_results := push_task agent_id task (te_task_results t)\<rparr>))"

definition member_task :: "'j agent_task \<Rightarrow> string \<Rightarrow> 'j agent_task" where
  "member_task task agent_id = task\<lparr>at_id := at_id task @ ''_'' @ agent_id\<rparr>"

fun broadcast_loop ::
  "'j agent_task \<Rightarrow> team_member list \<Rightarrow> (string \<rightharpoonup> 'j agent_task list) \<Rightarrow> string list \<Rightarrow>
   string list \<times> (string \<rightharpoonup> 'j agent_task list)" where
  "broadcast_loop task [] r ids = (ids, r)"
| "broadcast_loop task (m # ms) r ids =
     (let mt = member_task task (tm_agent_id m)
      in broadcast_loop task ms (push_task (tm_agent_id m) mt r) (ids @ [at_id mt]))"

definition broadcast :: "'j agent_task \<Rightarrow> 'j team \<Rightarrow> string list \<times> 'j team" where
  "broadcast task t =
     (case broadcast_loop task (te_members t) (te_task_results t) [] of
        (ids, r) \<Rightarrow> (ids, t\<lparr>te_task_results := r\<rparr>))"

definition team_members :: "'j team \<Rightarrow> string list" where
  "team_members t = map tm_agent_id (te_members t)"

definition role_of :: "'j team \<Rightarrow> string \<Rightarrow> string" where
  "role_of t agent_id =
     (case find (\<lambda>m. tm_agent_id m = agent_id) (te_members t) of None \<Rightarrow> [] | Some m \<Rightarrow> tm_role m)"

definition team_results :: "'j team \<Rightarrow> string \<Rightarrow> 'j agent_task list" where
  "team_results t agent_id = (case te_task_results t agent_id of None \<Rightarrow> [] | Some ts \<Rightarrow> ts)"

definition clear_tasks :: "'j team \<Rightarrow> 'j team" where
  "clear_tasks t = t\<lparr>te_task_results := map_option (\<lambda>ts. []) \<circ> te_task_results t\<rparr>"

definition team_size :: "'j team \<Rightarrow> nat" where
  "team_size t = length (te_members t)"

definition set_team_name :: "string \<Rightarrow> 'j team \<Rightarrow> 'j team" where
  "set_team_name n t = t\<lparr>te_name := n\<rparr>"

section \<open>The invariant\<close>

datatype 'j team_event =
    Add_Member string string
  | Remove_Member string
  | Assign string "'j agent_task"
  | Broadcast "'j agent_task"
  | Clear_Tasks
  | Set_Name string

fun team_step :: "'j team \<Rightarrow> 'j team_event \<Rightarrow> 'j team" where
  "team_step t (Add_Member a r) = add_member a r t"
| "team_step t (Remove_Member a) = remove_member a t"
| "team_step t (Assign a task) = snd (assign a task t)"
| "team_step t (Broadcast task) = snd (broadcast task t)"
| "team_step t Clear_Tasks = clear_tasks t"
| "team_step t (Set_Name n) = set_team_name n t"

text \<open>No member twice, and tasks are kept for members only.\<close>

definition team_ok :: "'j team \<Rightarrow> bool" where
  "team_ok t = (distinct (team_members t) \<and> dom (te_task_results t) \<subseteq> set (team_members t))"

lemma member_in_team:
  "list_ex (\<lambda>m. tm_agent_id m = a) (te_members t) \<longleftrightarrow> a \<in> set (team_members t)"
  by (auto simp: list_ex_iff team_members_def)

lemma dom_push [simp]: "dom (push_task a task r) = insert a (dom r)"
  by (auto simp: push_task_def)

lemma broadcast_loop_spec:
  "distinct (map tm_agent_id ms) \<Longrightarrow>
   broadcast_loop task ms r ids =
     (ids @ map (\<lambda>m. at_id (member_task task (tm_agent_id m))) ms,
      \<lambda>a. if a \<in> tm_agent_id ` set ms then push_task a (member_task task a) r a else r a)"
proof (induction task ms r ids rule: broadcast_loop.induct)
  case (2 task m ms r ids)
  let ?r = "push_task (tm_agent_id m) (member_task task (tm_agent_id m)) r"
  have "(\<lambda>a. if a \<in> tm_agent_id ` set ms then push_task a (member_task task a) ?r a else ?r a) =
    (\<lambda>a. if a \<in> tm_agent_id ` set (m # ms) then push_task a (member_task task a) r a else r a)"
    using "2.prems" by (auto simp: push_task_def fun_eq_iff)
  with 2 show ?case by (simp add: Let_def)
qed simp

lemma broadcast_spec:
  assumes "team_ok t"
  shows "broadcast task t =
    (map (\<lambda>a. at_id (member_task task a)) (team_members t),
     t\<lparr>te_task_results := (\<lambda>a. if a \<in> set (team_members t)
        then push_task a (member_task task a) (te_task_results t) a else te_task_results t a)\<rparr>)"
  using assms by (simp add: broadcast_def team_ok_def team_members_def broadcast_loop_spec o_def)

lemma team_ok_step [keeps]: "team_ok t \<Longrightarrow> team_ok (team_step t e)"
proof (cases e)
  case (Broadcast task)
  assume ok: "team_ok t"
  then show ?thesis using Broadcast
    by (fastforce simp: broadcast_spec team_ok_def team_members_def split: if_splits)
next
  case (Add_Member a r)
  assume "team_ok t"
  then show ?thesis using Add_Member
    by (auto simp: team_ok_def add_member_def member_in_team) (auto simp: team_members_def)
next
  case (Assign a task)
  assume "team_ok t"
  then show ?thesis using Assign
    by (auto simp: team_ok_def assign_def member_in_team) (auto simp: team_members_def)
qed (auto simp: team_ok_def remove_member_def clear_tasks_def set_team_name_def team_members_def
    distinct_map_filter)

lemma team_ok_new: "team_ok (new_team n)"
  by (simp add: team_ok_def new_team_def team_members_def)

interpretation team: machine "new_team n" team_step team_ok for n
  by unfold_locales (simp_all add: team_ok_new team_ok_step)

text \<open>
  C30: A team. After any sequence of operations no agent is a member twice and only members have
  tasks; a broadcast then gives every member exactly one new task, whose identifier is that
  member's own, and returns these identifiers, all different, in the order of the members.
\<close>

theorem broadcast_reaches_each_once:
  fixes n :: string and es :: "'j team_event list"
  defines "t \<equiv> foldl team_step (new_team n) es"
  shows "distinct (team_members t) \<and> (\<forall>a. a \<notin> set (team_members t) \<longrightarrow> team_results t a = []) \<and>
    (let (ids, t') = broadcast task t in
       ids = map (\<lambda>a. at_id task @ ''_'' @ a) (team_members t) \<and> distinct ids \<and>
       te_members t' = te_members t \<and>
       (\<forall>a. team_results t' a = team_results t a @
          (if a \<in> set (team_members t) then [task\<lparr>at_id := at_id task @ ''_'' @ a\<rparr>] else [])))"
proof -
  have ok: "team_ok t" unfolding t_def by (rule team.inv_reachable)
  have "distinct (map (\<lambda>a. at_id task @ ''_'' @ a) (team_members t))"
    using ok by (auto simp: team_ok_def distinct_map inj_on_def)
  with ok show ?thesis
    by (auto simp: broadcast_spec member_task_def team_results_def push_task_def team_ok_def
        split: option.split)
qed

definition sample_task :: "unit agent_task" where
  "sample_task = \<lparr>at_id = ''t'', at_description = [], at_agent_type = [], at_input = (),
     at_output = (), at_status = Idle, at_error_message = [], at_start_time_ms = 0,
     at_end_time_ms = 0\<rparr>"

lemma broadcast_reaches_each_once_witness:
  "fst (broadcast sample_task (foldl team_step (new_team ''n'')
     [Add_Member ''x'' ''coder'', Add_Member ''y'' [], Add_Member ''x'' [], Remove_Member ''z''])) =
   [''t_x'', ''t_y'']"
  using broadcast_reaches_each_once [where task = sample_task and n = "''n''" and es = "[Add_Member ''x'' ''coder'',
      Add_Member ''y'' [], Add_Member ''x'' [], Remove_Member ''z'']"]
  by (simp add: case_prod_unfold Let_def)
    (simp add: add_member_def remove_member_def new_team_def team_members_def sample_task_def)

end
