(* ===== verification/Message_Bus.thy ===== *)
theory Message_Bus
  imports Json
begin

text \<open>
  \<open>MessageBus\<close> of \<open>src/agent/message_bus.h\<close> and \<open>message_bus.cpp\<close>: publishing, subscribing and
  polling under one mutex that is not recursive. A callback is a name of type \<open>'c\<close>; what
  calling it does to the bus and to the rest of the program, of type \<open>'w\<close>, is the argument
  \<open>run\<close>. The time stamps come from outside.
\<close>

record 'j bus_message =
  bm_id :: string
  bm_from :: string
  bm_to :: string
  bm_type :: string
  bm_payload :: 'j
  bm_timestamp :: nat

record 'c subscriber =
  sb_agent_id :: string
  sb_callback :: 'c

record ('j, 'c) bus =
  bs_locked :: bool
  bs_subscribers :: "'c subscriber list"
  bs_pending :: "'j bus_message list"
  bs_next_id :: "64 word"

type_synonym ('j, 'c, 'w) callbacks =
  "'c \<Rightarrow> 'j bus_message \<Rightarrow> ('j, 'c) bus \<times> 'w \<Rightarrow> cpp_exn + ('j, 'c) bus \<times> 'w"

definition new_bus :: "('j, 'c) bus" where
  "new_bus = \<lparr>bs_locked = False, bs_subscribers = [], bs_pending = [], bs_next_id = 1\<rparr>"

definition addressed :: "'j bus_message \<Rightarrow> string \<Rightarrow> bool" where
  "addressed m agent_id = (bm_to m = agent_id \<or> bm_to m = ''broadcast'')"

text \<open>The delivery loop, with the mutex held.\<close>

fun deliver ::
  "('j, 'c, 'w) callbacks \<Rightarrow> 'j bus_message \<Rightarrow> 'c subscriber list \<Rightarrow> ('j, 'c) bus \<times> 'w \<Rightarrow>
   cpp_exn + ('j, 'c) bus \<times> 'w" where
  "deliver run m [] bw = Inr bw"
| "deliver run m (s # ss) bw =
     (if addressed m (sb_agent_id s)
      then bind_exn (run (sb_callback s) m bw) (deliver run m ss)
      else deliver run m ss bw)"

definition stamp_message :: "nat \<Rightarrow> 'j bus_message \<Rightarrow> ('j, 'c) bus \<Rightarrow> 'j bus_message \<times> ('j, 'c) bus" where
  "stamp_message now m b =
     (if bm_id m = []
      then (m\<lparr>bm_id := ''msg_'' @ nat_to_string (unat (bs_next_id b)), bm_timestamp := now\<rparr>,
            b\<lparr>bs_next_id := bs_next_id b + 1\<rparr>)
      else (m\<lparr>bm_timestamp := now\<rparr>, b))"

definition publish ::
  "('j, 'c, 'w) callbacks \<Rightarrow> nat \<Rightarrow> 'j bus_message \<Rightarrow> ('j, 'c) bus \<times> 'w \<Rightarrow>
   cpp_exn + ('j, 'c) bus \<times> 'w" where
  "publish run now msg bw =
     (let b = fst bw in
      if bs_locked b then Inl Deadlock
      else (case stamp_message now msg (b\<lparr>bs_locked := True\<rparr>) of
        (m, b1) \<Rightarrow>
          bind_exn (deliver run m (bs_subscribers b1) (b1, snd bw)) (\<lambda>(b2, w2).
            Inr (b2\<lparr>bs_pending := bs_pending b2 @ [m], bs_locked := False\<rparr>, w2))))"

text \<open>The other operations: a body between locking and unlocking.\<close>

definition under_lock ::
  "(('j, 'c) bus \<Rightarrow> 'a \<times> ('j, 'c) bus) \<Rightarrow> ('j, 'c) bus \<Rightarrow> cpp_exn + 'a \<times> ('j, 'c) bus" where
  "under_lock body b = (if bs_locked b then Inl Deadlock else Inr (body b))"

definition subscribe :: "string \<Rightarrow> 'c \<Rightarrow> ('j, 'c) bus \<Rightarrow> cpp_exn + unit \<times> ('j, 'c) bus" where
  "subscribe agent_id callback = under_lock (\<lambda>b.
     ((), b\<lparr>bs_subscribers :=
        bs_subscribers b @ [\<lparr>sb_agent_id = agent_id, sb_callback = callback\<rparr>]\<rparr>))"

definition unsubscribe :: "string \<Rightarrow> ('j, 'c) bus \<Rightarrow> cpp_exn + unit \<times> ('j, 'c) bus" where
  "unsubscribe agent_id = under_lock (\<lambda>b.
     ((), b\<lparr>bs_subscribers := filter (\<lambda>s. sb_agent_id s \<noteq> agent_id) (bs_subscribers b)\<rparr>))"

definition poll :: "string \<Rightarrow> ('j, 'c) bus \<Rightarrow> cpp_exn + 'j bus_message list \<times> ('j, 'c) bus" where
  "poll agent_id = under_lock (\<lambda>b. (filter (\<lambda>m. addressed m agent_id) (bs_pending b), b))"

definition clear_messages :: "string \<Rightarrow> ('j, 'c) bus \<Rightarrow> cpp_exn + unit \<times> ('j, 'c) bus" where
  "clear_messages agent_id = under_lock (\<lambda>b.
     ((), b\<lparr>bs_pending :=
        filter (\<lambda>m. \<not> (bm_to m = agent_id \<or> bm_from m = agent_id)) (bs_pending b)\<rparr>))"

definition message_count :: "('j, 'c) bus \<Rightarrow> cpp_exn + nat \<times> ('j, 'c) bus" where
  "message_count = under_lock (\<lambda>b. (length (bs_pending b), b))"

definition subscriber_count :: "('j, 'c) bus \<Rightarrow> cpp_exn + nat \<times> ('j, 'c) bus" where
  "subscriber_count = under_lock (\<lambda>b. (length (bs_subscribers b), b))"

section \<open>Histories\<close>

text \<open>The calls that change the bus, as events.\<close>

datatype ('j, 'c) bus_event =
    Publish nat "'j bus_message"
  | Subscribe string 'c
  | Unsubscribe string
  | Clear string

fun bus_step ::
  "('j, 'c, 'w) callbacks \<Rightarrow> ('j, 'c) bus_event \<Rightarrow> ('j, 'c) bus \<times> 'w \<Rightarrow> cpp_exn + ('j, 'c) bus \<times> 'w" where
  "bus_step run (Publish now m) bw = publish run now m bw"
| "bus_step run (Subscribe a c) bw =
     bind_exn (subscribe a c (fst bw)) (\<lambda>r. Inr (snd r, snd bw))"
| "bus_step run (Unsubscribe a) bw =
     bind_exn (unsubscribe a (fst bw)) (\<lambda>r. Inr (snd r, snd bw))"
| "bus_step run (Clear a) bw =
     bind_exn (clear_messages a (fst bw)) (\<lambda>r. Inr (snd r, snd bw))"

fun bus_run ::
  "('j, 'c, 'w) callbacks \<Rightarrow> ('j, 'c) bus_event list \<Rightarrow> ('j, 'c) bus \<times> 'w \<Rightarrow> cpp_exn + ('j, 'c) bus \<times> 'w" where
  "bus_run run [] bw = Inr bw"
| "bus_run run (e # es) bw = bind_exn (bus_step run e bw) (bus_run run es)"

text \<open>Callbacks that return and leave the bus alone.\<close>

definition quiet :: "('j, 'c, 'w) callbacks \<Rightarrow> bool" where
  "quiet run = (\<forall>c m b w. \<exists>w'. run c m (b, w) = Inr (b, w'))"

text \<open>What a message says, without the number and the time the bus gives it.\<close>

definition envelope :: "'j bus_message \<Rightarrow> string \<times> string \<times> string \<times> 'j" where
  "envelope m = (bm_from m, bm_to m, bm_type m, bm_payload m)"

text \<open>
  The specification reads the history backwards: a message is there unless its sender or its
  addressee was cleared after it.
\<close>

fun surviving ::
  "string set \<Rightarrow> ('j, 'c) bus_event list \<Rightarrow> (string \<times> string \<times> string \<times> 'j) list" where
  "surviving cleared [] = []"
| "surviving cleared (Publish now m # past) =
     surviving cleared past @
     (if bm_to m \<in> cleared \<or> bm_from m \<in> cleared then [] else [envelope m])"
| "surviving cleared (Clear a # past) = surviving (insert a cleared) past"
| "surviving cleared (_ # past) = surviving cleared past"

lemma deliver_quiet:
  "quiet run \<Longrightarrow> \<exists>w'. deliver run m ss (b, w) = Inr (b, w')"
proof (induction ss arbitrary: w)
  case (Cons s ss)
  from Cons.prems obtain w1 where "run (sb_callback s) m (b, w) = Inr (b, w1)"
    unfolding quiet_def by blast
  with Cons show ?case by (simp add: bind_exn_def)
qed simp

lemma bus_fields_stamp [simp]:
  "bs_locked (snd (stamp_message now m b)) = bs_locked b"
  "bs_pending (snd (stamp_message now m b)) = bs_pending b"
  "bs_subscribers (snd (stamp_message now m b)) = bs_subscribers b"
  "envelope (fst (stamp_message now m b)) = envelope m"
  "bm_to (fst (stamp_message now m b)) = bm_to m"
  "bm_from (fst (stamp_message now m b)) = bm_from m"
  by (auto simp: stamp_message_def envelope_def)

lemma publish_quiet:
  assumes "quiet run" and "\<not> bs_locked b"
  shows "\<exists>w'. publish run now m (b, w) =
    (let (m', b') = stamp_message now m (b\<lparr>bs_locked := True\<rparr>)
     in Inr (b'\<lparr>bs_pending := bs_pending b @ [m'], bs_locked := False\<rparr>, w'))"
proof (cases "stamp_message now m (b\<lparr>bs_locked := True\<rparr>)")
  case (Pair m' b')
  then have "bs_pending b' = bs_pending b"
    using bus_fields_stamp(2) [of now m "b\<lparr>bs_locked := True\<rparr>"] by simp
  moreover obtain w' where "deliver run m' (bs_subscribers b') (b', w) = Inr (b', w')"
    using deliver_quiet [OF assms(1)] by blast
  ultimately show ?thesis using assms(2) Pair by (simp add: publish_def)
qed

text \<open>One step of a bus whose callbacks are quiet never blocks and does this to the messages.\<close>

lemma bus_step_quiet:
  assumes "quiet run" and "\<not> bs_locked b"
  shows "\<exists>b' w'. bus_step run e (b, w) = Inr (b', w') \<and> \<not> bs_locked b' \<and>
    map envelope (bs_pending b') =
      (case e of
         Publish now m \<Rightarrow> map envelope (bs_pending b) @ [envelope m]
       | Clear a \<Rightarrow> map envelope (filter (\<lambda>m. \<not> (bm_to m = a \<or> bm_from m = a)) (bs_pending b))
       | _ \<Rightarrow> map envelope (bs_pending b))"
proof (cases e)
  case (Publish now m)
  obtain m' b' where st: "stamp_message now m (b\<lparr>bs_locked := True\<rparr>) = (m', b')"
    by (cases "stamp_message now m (b\<lparr>bs_locked := True\<rparr>)")
  then have "envelope m' = envelope m"
    using bus_fields_stamp(4) [of now m "b\<lparr>bs_locked := True\<rparr>"] by simp
  moreover obtain w' where "publish run now m (b, w) =
      Inr (b'\<lparr>bs_pending := bs_pending b @ [m'], bs_locked := False\<rparr>, w')"
    using publish_quiet [OF assms, of now m w] st by auto
  ultimately show ?thesis using Publish by simp
next
  case (Subscribe a c)
  with assms show ?thesis by (simp add: subscribe_def under_lock_def)
next
  case (Unsubscribe a)
  with assms show ?thesis by (simp add: unsubscribe_def under_lock_def)
next
  case (Clear a)
  with assms show ?thesis by (simp add: clear_messages_def under_lock_def)
qed

lemma map_envelope_filter:
  "map envelope (filter (\<lambda>m. P (bm_to m) (bm_from m)) ms) =
   filter (\<lambda>(f, t, _). P t f) (map envelope ms)"
  by (induction ms) (auto simp: envelope_def)

lemma surviving_filter:
  "surviving C past =
   filter (\<lambda>(f, t, _). t \<notin> C \<and> f \<notin> C) (surviving {} past)"
proof (induction past arbitrary: C)
  case (Cons e past)
  show ?case
  proof (cases e)
    case (Publish now m)
    then show ?thesis using Cons [of C] by (auto simp: envelope_def)
  next
    case (Clear a)
    have "surviving (insert a C) past = filter (\<lambda>(f, t, _). t \<notin> insert a C \<and> f \<notin> insert a C) (surviving {} past)"
      by (rule Cons)
    moreover have "surviving {a} past = filter (\<lambda>(f, t, _). t \<notin> {a} \<and> f \<notin> {a}) (surviving {} past)"
      by (rule Cons)
    ultimately show ?thesis using Clear by (auto simp: filter_filter intro!: filter_cong)
  qed (simp_all add: Cons.IH [of C])
qed simp

lemma bus_run_surviving:
  assumes "quiet run"
  shows "\<exists>b' w'. bus_run run es (new_bus, w) = Inr (b', w') \<and> \<not> bs_locked b' \<and>
    map envelope (bs_pending b') = surviving {} (rev es)"
proof (induction es rule: rev_induct)
  case Nil
  then show ?case by (simp add: new_bus_def)
next
  case (snoc e es)
  then obtain b1 w1 where
    one: "bus_run run es (new_bus, w) = Inr (b1, w1)" "\<not> bs_locked b1"
      "map envelope (bs_pending b1) = surviving {} (rev es)" by blast
  have app: "bus_run run (xs @ [e]) bw = bind_exn (bus_run run xs bw) (bus_step run e)" for xs bw
    by (induction xs arbitrary: bw) (simp_all add: bind_exn_assoc bind_exn_def split: sum.split)
  obtain b2 w2 where two: "bus_step run e (b1, w1) = Inr (b2, w2)" "\<not> bs_locked b2"
    and pend: "map envelope (bs_pending b2) =
      (case e of
         Publish now m \<Rightarrow> map envelope (bs_pending b1) @ [envelope m]
       | Clear a \<Rightarrow> map envelope (filter (\<lambda>m. \<not> (bm_to m = a \<or> bm_from m = a)) (bs_pending b1))
       | _ \<Rightarrow> map envelope (bs_pending b1))"
    using bus_step_quiet [OF assms one(2)] by blast
  have "map envelope (bs_pending b2) = surviving {} (rev (es @ [e]))"
  proof (cases e)
    case (Clear a)
    have "map envelope (filter (\<lambda>m. \<not> (bm_to m = a \<or> bm_from m = a)) (bs_pending b1)) =
        filter (\<lambda>(f, t, _). \<not> (t = a \<or> f = a)) (map envelope (bs_pending b1))"
      by (rule map_envelope_filter)
    with Clear pend one(3) surviving_filter [of "{a}" "rev es"] show ?thesis by simp
  qed (use pend one(3) in simp_all)
  with one two show ?case by (simp add: app)
qed

text \<open>
  C29: Polling. When the callbacks stay away from the bus, no call blocks, and after any
  sequence of calls a poll returns, in the order of publication, the messages to the agent or
  to everyone of which neither the sender nor the addressee was cleared afterwards. Polling
  takes nothing away; clearing an agent also removes what it sent to others, and leaves it the
  broadcasts of others.
\<close>

theorem poll_history:
  assumes "quiet run"
  shows "\<exists>b w' ms. bus_run run es (new_bus, w) = Inr (b, w') \<and> poll a b = Inr (ms, b) \<and>
    map envelope ms =
      filter (\<lambda>(f, t, _). t = a \<or> t = ''broadcast'') (surviving {} (rev es))"
proof -
  obtain b w' where "bus_run run es (new_bus, w) = Inr (b, w')" "\<not> bs_locked b"
    "map envelope (bs_pending b) = surviving {} (rev es)"
    using bus_run_surviving [OF assms] by blast
  moreover have "map envelope (filter (\<lambda>m. addressed m a) (bs_pending b)) =
      filter (\<lambda>(f, t, _). t = a \<or> t = ''broadcast'') (map envelope (bs_pending b))"
    unfolding addressed_def by (rule map_envelope_filter)
  ultimately show ?thesis by (simp add: poll_def under_lock_def)
qed

definition no_callbacks :: "('j, unit, unit) callbacks" where
  "no_callbacks c m bw = Inr bw"

definition info :: "string \<Rightarrow> string \<Rightarrow> nat \<Rightarrow> nat bus_message" where
  "info f t k = \<lparr>bm_id = [], bm_from = f, bm_to = t, bm_type = ''info'', bm_payload = k,
     bm_timestamp = 0\<rparr>"

lemma poll_history_witness:
  "\<exists>b w' ms. bus_run no_callbacks [Publish 1 (info ''x'' ''y'' 1), Publish 2 (info ''y'' ''broadcast'' 2),
       Publish 3 (info ''z'' ''y'' 3), Clear ''x''] (new_bus, ()) = Inr (b, w') \<and>
     poll ''y'' b = Inr (ms, b) \<and>
     map envelope ms = [(''y'', ''broadcast'', ''info'', 2), (''z'', ''y'', ''info'', 3)]"
proof -
  have "quiet no_callbacks" by (simp add: quiet_def no_callbacks_def)
  from poll_history [OF this, of "[Publish 1 (info ''x'' ''y'' 1),
      Publish 2 (info ''y'' ''broadcast'' 2), Publish 3 (info ''z'' ''y'' 3), Clear ''x'']" "()" "''y''"]
  show ?thesis by (simp add: envelope_def info_def)
qed

section \<open>Delivery\<close>

text \<open>A callback that only takes a note of what it receives.\<close>

definition recorder :: "('j, 'c, ('c \<times> 'j bus_message) list) callbacks" where
  "recorder c m bw = Inr (fst bw, snd bw @ [(c, m)])"

lemma deliver_recorder:
  "deliver recorder m ss (b, w) =
     Inr (b, w @ map (\<lambda>s. (sb_callback s, m)) (filter (\<lambda>s. addressed m (sb_agent_id s)) ss))"
  by (induction ss arbitrary: w) (simp_all add: recorder_def)

text \<open>
  A published message reaches every subscriber it is addressed to, and no other, once per
  subscription and in the order of subscription, and it is there for polling. A callback that
  uses the bus itself, were it only to poll it, never returns: the bus calls it with its mutex
  held.
\<close>

theorem publish_delivers:
  assumes "\<not> bs_locked b"
  shows "(\<exists>m. envelope m = envelope msg \<and>
      (\<exists>b'. publish recorder now msg (b, w) =
        Inr (b', w @ map (\<lambda>s. (sb_callback s, m))
               (filter (\<lambda>s. addressed msg (sb_agent_id s)) (bs_subscribers b))) \<and>
        bs_pending b' = bs_pending b @ [m])) \<and>
    (\<forall>run k s x. bs_subscribers b = s # x \<and> addressed msg (sb_agent_id s) \<and>
        (\<forall>m bw. run (sb_callback s) m bw = bind_exn (poll (sb_agent_id s) (fst bw)) (k m (snd bw))) \<longrightarrow>
      publish run now msg (b, w) = Inl Deadlock)"
proof -
  obtain m b' where st: "stamp_message now msg (b\<lparr>bs_locked := True\<rparr>) = (m, b')"
    by (cases "stamp_message now msg (b\<lparr>bs_locked := True\<rparr>)")
  have m: "envelope m = envelope msg" "addressed m = addressed msg" "bs_subscribers b' = bs_subscribers b"
    "bs_pending b' = bs_pending b" "bs_locked b'"
    using bus_fields_stamp [of now msg "b\<lparr>bs_locked := True\<rparr>"] st
    by (simp_all add: addressed_def fun_eq_iff)
  have "publish recorder now msg (b, w) =
      Inr (b'\<lparr>bs_pending := bs_pending b @ [m], bs_locked := False\<rparr>,
        w @ map (\<lambda>s. (sb_callback s, m))
               (filter (\<lambda>s. addressed msg (sb_agent_id s)) (bs_subscribers b)))"
    using assms st m by (simp add: publish_def deliver_recorder)
  moreover have "publish run now msg (b, w) = Inl Deadlock"
    if "bs_subscribers b = s # x" "addressed msg (sb_agent_id s)"
      "\<forall>m bw. run (sb_callback s) m bw = bind_exn (poll (sb_agent_id s) (fst bw)) (k m (snd bw))"
    for run k s x
    using that assms st m by (simp add: publish_def poll_def under_lock_def)
  ultimately show ?thesis using m(1)
    by (intro conjI exI [of _ m] exI [of _ "b'\<lparr>bs_pending := bs_pending b @ [m], bs_locked := False\<rparr>"])
      auto
qed

lemma publish_delivers_witness:
  "let b = new_bus\<lparr>bs_subscribers := [\<lparr>sb_agent_id = ''y'', sb_callback = (0 :: nat)\<rparr>]\<rparr> in
     (\<exists>m b'. publish recorder 1 (info ''x'' ''y'' 5) (b, []) = Inr (b', [(0, m)]) \<and>
        bs_pending b' = [m] \<and> envelope m = (''x'', ''y'', ''info'', 5)) \<and>
     publish (\<lambda>c m bw. bind_exn (poll ''y'' (fst bw)) (\<lambda>r. Inr (snd r, snd bw))) 1
       (info ''x'' ''y'' 5) (b, [] :: (nat \<times> nat bus_message) list) = Inl Deadlock"
proof -
  let ?b = "new_bus\<lparr>bs_subscribers := [\<lparr>sb_agent_id = ''y'', sb_callback = (0 :: nat)\<rparr>]\<rparr>
    :: (nat, nat) bus"
  have "\<not> bs_locked ?b" by (simp add: new_bus_def)
  note p = publish_delivers [OF this, of "info ''x'' ''y'' 5" 1 "[]"]
  have a: "addressed (info ''x'' ''y'' 5) ''y''" by (simp add: addressed_def info_def)
  from p a obtain m b' where "envelope m = envelope (info ''x'' ''y'' 5)"
    "publish recorder 1 (info ''x'' ''y'' 5) (?b, []) = Inr (b', [(0, m)])" "bs_pending b' = [m]"
    by (auto simp: new_bus_def)
  moreover have "publish (\<lambda>c m bw. bind_exn (poll ''y'' (fst bw)) (\<lambda>r. Inr (snd r, snd bw))) 1
      (info ''x'' ''y'' 5) (?b, [] :: (nat \<times> nat bus_message) list) = Inl Deadlock"
    using p [THEN conjunct2, THEN spec, THEN spec, THEN spec, THEN spec, THEN mp,
        of "\<lparr>sb_agent_id = ''y'', sb_callback = 0\<rparr>" "[]"
          "\<lambda>c m bw. bind_exn (poll ''y'' (fst bw)) (\<lambda>r. Inr (snd r, snd bw))"
          "\<lambda>m w r. Inr (snd r, w)"] a
    by (simp add: case_prod_unfold)
  ultimately show ?thesis
    unfolding Let_def by (auto simp: envelope_def info_def)
qed

end
