(* ===== verification/Coordinator.thy ===== *)
theory Coordinator
  imports Team Message_Bus Json_Sample
begin

text \<open>
  \<open>src/agent/coordinator.h\<close> and \<open>coordinator.cpp\<close>: agent definitions, agents and submitted
  tasks; and \<open>AgentManager\<close> (\<open>agent_manager.h\<close>, \<open>agent_manager.cpp\<close>), which owns a coordinator, a
  bus and the teams. The clock is an argument of the operations that read it; the mutexes are
  not modelled, since no operation waits while it holds one.
\<close>

section \<open>Agents\<close>

record agent_capability =
  ac_name :: string
  ac_description :: string
  ac_tool_names :: "string list"

record agent_def =
  ad_name :: string
  ad_type :: string
  ad_description :: string
  ad_model_id :: string
  ad_system_prompt :: string
  ad_capabilities :: "agent_capability list"
  ad_available_tools :: "string list"

record 'j agent_instance =
  ai_def :: agent_def
  ai_status :: agent_status
  ai_task :: "'j agent_task option"
  ai_cancelled :: bool

definition new_instance :: "agent_def \<Rightarrow> 'j agent_instance" where
  "new_instance d = \<lparr>ai_def = d, ai_status = Idle, ai_task = None, ai_cancelled = False\<rparr>"

text \<open>\<open>execute\<close> runs nothing: it writes a fixed output.\<close>

definition execute_task ::
  "('j, 'z) jlib_scheme \<Rightarrow> rat \<Rightarrow> rat \<Rightarrow> 'j agent_task \<Rightarrow> 'j agent_instance \<Rightarrow>
   'j agent_task \<times> 'j agent_instance" where
  "execute_task J start_time end_time task a =
     (let output = j_set J ''message'' (j_string J (''Task completed by agent '' @ ad_name (ai_def a)))
            (j_set J ''status'' (j_string J ''completed'') (j_object J []));
          t = task\<lparr>at_start_time_ms := start_time, at_output := output,
                at_status := (if ai_cancelled a then Cancelled else Completed),
                at_end_time_ms := end_time\<rparr>
      in (t, a\<lparr>ai_status := at_status t, ai_task := Some t\<rparr>))"

definition cancel_agent :: "'j agent_instance \<Rightarrow> 'j agent_instance" where
  "cancel_agent a =
     (let a = a\<lparr>ai_cancelled := True\<rparr>
      in if ai_status a = Running
         then a\<lparr>ai_status := Cancelled, ai_task := map_option (at_status_update (\<lambda>_. Cancelled)) (ai_task a)\<rparr>
         else a)"

section \<open>The coordinator\<close>

record 'j coordinator =
  co_agent_defs :: "agent_def omap"
  co_tasks :: "'j agent_task omap"
  co_next_task_id :: int

definition new_coordinator :: "'j coordinator" where
  "new_coordinator = \<lparr>co_agent_defs = [], co_tasks = [], co_next_task_id = 1\<rparr>"

definition register_agent :: "agent_def \<Rightarrow> 'j coordinator \<Rightarrow> 'j coordinator" where
  "register_agent d c = c\<lparr>co_agent_defs := om_put (ad_type d) d (co_agent_defs c)\<rparr>"

definition create_agent :: "string \<Rightarrow> 'j coordinator \<Rightarrow> 'j agent_instance option" where
  "create_agent type c = map_option new_instance (om_get (co_agent_defs c) type)"

text \<open>\<open>next_task_id_\<close> is an \<open>int\<close>, whose overflow is undefined.\<close>

definition submit_task ::
  "('j, 'z) jlib_scheme \<Rightarrow> string \<Rightarrow> 'j \<Rightarrow> 'j coordinator \<Rightarrow> cpp_exn + string \<times> 'j coordinator" where
  "submit_task J description input c =
     (if co_next_task_id c = 2 ^ 31 - 1 then Inl Undefined_Behaviour
      else
        let task = \<lparr>at_id = ''task_'' @ int_to_string (co_next_task_id c), at_description = description,
              at_agent_type = [], at_input = input, at_output = j_null J, at_status = Idle,
              at_error_message = [], at_start_time_ms = 0, at_end_time_ms = 0\<rparr>
        in Inr (at_id task, c\<lparr>co_next_task_id := co_next_task_id c + 1,
              co_tasks := om_put (at_id task) task (co_tasks c)\<rparr>))"

definition get_task_result :: "string \<Rightarrow> 'j coordinator \<Rightarrow> 'j agent_task option" where
  "get_task_result task_id c = om_get (co_tasks c) task_id"

definition run_task ::
  "('j, 'z) jlib_scheme \<Rightarrow> rat \<Rightarrow> rat \<Rightarrow> string \<Rightarrow> 'j agent_task \<Rightarrow> 'j coordinator \<Rightarrow> 'j agent_task" where
  "run_task J start_time end_time type task c =
     (case create_agent type c of
        None \<Rightarrow> task\<lparr>at_status := Failed, at_error_message := ''Unknown agent type: '' @ type\<rparr>
      | Some a \<Rightarrow> fst (execute_task J start_time end_time task a))"

definition agent_types :: "'j coordinator \<Rightarrow> string list" where
  "agent_types c = om_keys (co_agent_defs c)"

definition get_agent_def :: "string \<Rightarrow> 'j coordinator \<Rightarrow> agent_def option" where
  "get_agent_def type c = om_get (co_agent_defs c) type"

definition capability :: "string \<Rightarrow> string \<Rightarrow> agent_capability" where
  "capability n d = \<lparr>ac_name = n, ac_description = d, ac_tool_names = []\<rparr>"

definition builtin_agents :: "agent_def list" where
  "builtin_agents =
     [\<lparr>ad_name = ''Coder'', ad_type = ''coder'', ad_description = ''General-purpose coding agent'',
       ad_model_id = ''claude-sonnet-4-20250514'',
       ad_system_prompt = ''You are a coding agent. Write clean, correct code.'',
       ad_capabilities = [capability ''code_generation'' ''Write new code'',
          capability ''code_review'' ''Review existing code''],
       ad_available_tools = [''Bash'', ''Read'', ''Write'', ''Edit'', ''Glob'', ''Grep'']\<rparr>,
      \<lparr>ad_name = ''Reviewer'', ad_type = ''reviewer'', ad_description = ''Code review agent'',
       ad_model_id = ''claude-sonnet-4-20250514'',
       ad_system_prompt = ''You are a code reviewer. Find bugs, suggest improvements.'',
       ad_capabilities = [capability ''review'' ''Review code for issues''],
       ad_available_tools = [''Read'', ''Glob'', ''Grep'']\<rparr>,
      \<lparr>ad_name = ''Tester'', ad_type = ''tester'', ad_description = ''Test writing agent'',
       ad_model_id = ''claude-sonnet-4-20250514'',
       ad_system_prompt = ''You are a testing agent. Write comprehensive tests.'',
       ad_capabilities = [capability ''testing'' ''Write unit and integration tests''],
       ad_available_tools = [''Bash'', ''Read'', ''Write'', ''Edit'', ''Glob'', ''Grep'']\<rparr>]"

definition register_builtins :: "'j coordinator \<Rightarrow> 'j coordinator" where
  "register_builtins c = foldl (\<lambda>c d. register_agent d c) c builtin_agents"

section \<open>The manager of agents\<close>

record ('j, 'c) agent_manager =
  am_coordinator :: "'j coordinator"
  am_bus :: "('j, 'c) bus"
  am_teams :: "'j team omap"

definition new_agent_manager :: "('j, 'c) agent_manager" where
  "new_agent_manager = \<lparr>am_coordinator = new_coordinator, am_bus = new_bus, am_teams = []\<rparr>"

definition create_team :: "string \<Rightarrow> ('j, 'c) agent_manager \<Rightarrow> ('j, 'c) agent_manager" where
  "create_team name m =
     (case om_get (am_teams m) name of
        Some t \<Rightarrow> m
      | None \<Rightarrow> m\<lparr>am_teams := om_put name (new_team name) (am_teams m)\<rparr>)"

definition get_team :: "string \<Rightarrow> ('j, 'c) agent_manager \<Rightarrow> 'j team option" where
  "get_team name m = om_get (am_teams m) name"

text \<open>The caller works on a team through the reference it was given.\<close>

definition update_team ::
  "string \<Rightarrow> 'j team_event \<Rightarrow> ('j, 'c) agent_manager \<Rightarrow> ('j, 'c) agent_manager" where
  "update_team name e m =
     (case get_team name m of
        None \<Rightarrow> m
      | Some t \<Rightarrow> m\<lparr>am_teams := om_put name (team_step t e) (am_teams m)\<rparr>)"

definition team_names :: "('j, 'c) agent_manager \<Rightarrow> string list" where
  "team_names m = om_keys (am_teams m)"

definition remove_team :: "string \<Rightarrow> ('j, 'c) agent_manager \<Rightarrow> ('j, 'c) agent_manager" where
  "remove_team name m = m\<lparr>am_teams := om_del name (am_teams m)\<rparr>"

definition manager_register_builtins :: "('j, 'c) agent_manager \<Rightarrow> ('j, 'c) agent_manager" where
  "manager_register_builtins m = m\<lparr>am_coordinator := register_builtins (am_coordinator m)\<rparr>"

definition shutdown :: "('j, 'c) agent_manager \<Rightarrow> ('j, 'c) agent_manager" where
  "shutdown m = m\<lparr>am_teams := []\<rparr>"

section \<open>Submitted tasks\<close>

datatype 'j coordinator_event =
    Register agent_def
  | Register_Builtins
  | Submit string 'j

fun coordinator_step ::
  "('j, 'z) jlib_scheme \<Rightarrow> 'j coordinator_event \<Rightarrow> 'j coordinator \<Rightarrow> cpp_exn + 'j coordinator" where
  "coordinator_step J (Register d) c = Inr (register_agent d c)"
| "coordinator_step J Register_Builtins c = Inr (register_builtins c)"
| "coordinator_step J (Submit d i) c = bind_exn (submit_task J d i c) (\<lambda>r. Inr (snd r))"

fun coordinator_run ::
  "('j, 'z) jlib_scheme \<Rightarrow> 'j coordinator_event list \<Rightarrow> 'j coordinator \<Rightarrow> cpp_exn + 'j coordinator" where
  "coordinator_run J [] c = Inr c"
| "coordinator_run J (e # es) c = bind_exn (coordinator_step J e c) (coordinator_run J es)"

definition coordinator_ok :: "'j coordinator \<Rightarrow> bool" where
  "coordinator_ok c =
     (1 \<le> co_next_task_id c \<and>
      (\<forall>i\<ge>co_next_task_id c. om_get (co_tasks c) (''task_'' @ int_to_string i) = None))"

lemma int_to_string_inj: "0 < i \<Longrightarrow> 0 < j \<Longrightarrow> int_to_string i = int_to_string j \<longleftrightarrow> i = j"
  by (auto simp: int_to_string_def)

lemma builtins_keep [simp]:
  "co_tasks (register_builtins c) = co_tasks c"
  "co_next_task_id (register_builtins c) = co_next_task_id c"
  by (simp_all add: register_builtins_def builtin_agents_def register_agent_def)

lemma coordinator_step_keeps:
  assumes "coordinator_ok c" and "coordinator_step J e c = Inr c'"
  shows "coordinator_ok c' \<and>
    (\<forall>k t. om_get (co_tasks c) k = Some t \<longrightarrow> om_get (co_tasks c') k = Some t)"
proof (cases e)
  case (Submit d i)
  have fresh: "om_get (co_tasks c) (''task_'' @ int_to_string (co_next_task_id c)) = None"
    using assms(1) by (simp add: coordinator_ok_def)
  have "coordinator_ok c'"
    using assms Submit
    by (auto simp: submit_task_def coordinator_ok_def Let_def int_to_string_inj split: if_splits)
  moreover have "om_get (co_tasks c') k = Some t" if "om_get (co_tasks c) k = Some t" for k t
    using that fresh assms(2) Submit
    by (auto simp: submit_task_def Let_def split: if_splits)
  ultimately show ?thesis by blast
qed (use assms in \<open>auto simp: coordinator_ok_def register_agent_def\<close>)

lemma coordinator_run_keeps:
  "coordinator_ok c \<Longrightarrow> coordinator_run J es c = Inr c' \<Longrightarrow>
   coordinator_ok c' \<and> (\<forall>k t. om_get (co_tasks c) k = Some t \<longrightarrow> om_get (co_tasks c') k = Some t)"
proof (induction es arbitrary: c)
  case (Cons e es)
  then obtain d where d: "coordinator_step J e c = Inr d" "coordinator_run J es d = Inr c'"
    by (auto simp: bind_exn_Inr)
  from coordinator_step_keeps [OF Cons.prems(1) d(1)] Cons.IH [OF _ d(2)] show ?case by blast
qed simp

lemma coordinator_ok_new: "coordinator_ok new_coordinator"
  by (simp add: coordinator_ok_def new_coordinator_def)

text \<open>
  A submitted task gets an identifier no earlier task has, and is then never run: whatever
  the coordinator does afterwards, asking for its result returns the task as it was submitted,
  idle and without output.
\<close>

theorem submitted_task_never_runs:
  assumes "coordinator_run J before new_coordinator = Inr c"
    and "submit_task J description input c = Inr (task_id, c')"
    and "coordinator_run J after c' = Inr c''"
  shows "get_task_result task_id c = None \<and>
    (\<exists>t. get_task_result task_id c'' = Some t \<and> at_id t = task_id \<and> at_status t = Idle \<and>
       at_output t = j_null J \<and> at_description t = description \<and> at_input t = input)"
proof -
  have ok: "coordinator_ok c"
    using coordinator_run_keeps [OF coordinator_ok_new assms(1)] by blast
  have step: "coordinator_step J (Submit description input) c = Inr c'" using assms(2) by simp
  have ok': "coordinator_ok c'" using coordinator_step_keeps [OF ok step] by blast
  from ok assms(2) have "get_task_result task_id c = None"
    by (auto simp: get_task_result_def submit_task_def coordinator_ok_def Let_def split: if_splits)
  moreover obtain t where t: "om_get (co_tasks c') task_id = Some t" "at_id t = task_id"
    "at_status t = Idle" "at_output t = j_null J" "at_description t = description" "at_input t = input"
    using assms(2) by (auto simp: submit_task_def Let_def split: if_splits)
  moreover have "get_task_result task_id c'' = Some t"
    using coordinator_run_keeps [OF ok' assms(3)] t(1) by (simp add: get_task_result_def)
  ultimately show ?thesis by blast
qed

lemma submitted_task_never_runs_witness:
  "\<forall>p d. \<exists>c t. submit_task (sample_jlib p d) ''fix it'' JNull new_coordinator = Inr (''task_1'', c) \<and>
     get_task_result ''task_1'' (register_builtins c) = Some t \<and> at_status t = Idle"
proof (intro allI)
  fix p d
  let ?J = "sample_jlib p d"
  have one: "int_to_string 1 = ''1''" by code_simp
  then obtain c where c: "submit_task ?J ''fix it'' JNull new_coordinator = Inr (''task_1'', c)"
    by (auto simp: submit_task_def new_coordinator_def Let_def)
  have run: "coordinator_run ?J [] new_coordinator = Inr new_coordinator"
    "coordinator_run ?J [Register_Builtins] c = Inr (register_builtins c)" by simp_all
  from submitted_task_never_runs [OF run(1) c run(2)] c
  show "\<exists>c t. submit_task ?J ''fix it'' JNull new_coordinator = Inr (''task_1'', c) \<and>
     get_task_result ''task_1'' (register_builtins c) = Some t \<and> at_status t = Idle" by blast
qed

section \<open>Running a task\<close>

lemma register_own_type: "get_agent_def k (register_agent d c) =
    (if k = ad_type d then Some d else get_agent_def k c)"
  by (simp add: get_agent_def_def register_agent_def om.get_put)

lemma builtin_types: "get_agent_def k (register_builtins c) =
    (case find (\<lambda>d. ad_type d = k) builtin_agents of Some d \<Rightarrow> Some d | None \<Rightarrow> get_agent_def k c)"
  by (simp add: register_builtins_def builtin_agents_def register_own_type)

text \<open>
  Running a task for a registered type always completes, at once and whatever the task says,
  with an output that only names the agent; for any other type it fails with a message. The
  three built-in types are registered by \<open>register_builtins\<close>. No run is ever cancelled, since
  the agent is created for it.
\<close>

theorem run_task_outcome:
  "run_task J start_time end_time type task c =
     (case get_agent_def type c of
        None \<Rightarrow> task\<lparr>at_status := Failed, at_error_message := ''Unknown agent type: '' @ type\<rparr>
      | Some d \<Rightarrow> task\<lparr>at_start_time_ms := start_time, at_end_time_ms := end_time,
          at_status := Completed,
          at_output := j_set J ''message'' (j_string J (''Task completed by agent '' @ ad_name d))
            (j_set J ''status'' (j_string J ''completed'') (j_object J []))\<rparr>) \<and>
   at_status (run_task J start_time end_time ''reviewer'' task (register_builtins c)) = Completed"
  by (auto simp: run_task_def create_agent_def execute_task_def new_instance_def
      get_agent_def_def [symmetric] builtin_types builtin_agents_def Let_def split: option.split)

section \<open>Teams of the manager\<close>

datatype 'j manager_event =
    Create_Team string
  | Update_Team string "'j team_event"
  | Remove_Team string
  | Shutdown
  | Register_Builtin_Agents

fun manager_step :: "('j, 'c) agent_manager \<Rightarrow> 'j manager_event \<Rightarrow> ('j, 'c) agent_manager" where
  "manager_step m (Create_Team n) = create_team n m"
| "manager_step m (Update_Team n e) = update_team n e m"
| "manager_step m (Remove_Team n) = remove_team n m"
| "manager_step m Shutdown = shutdown m"
| "manager_step m Register_Builtin_Agents = manager_register_builtins m"

definition manager_ok :: "('j, 'c) agent_manager \<Rightarrow> bool" where
  "manager_ok m = (om_ok (am_teams m) \<and> (\<forall>n t. get_team n m = Some t \<longrightarrow> team_ok t))"

lemma manager_ok_step [keeps]: "manager_ok m \<Longrightarrow> manager_ok (manager_step m e)"
  by (cases e)
    (auto simp: manager_ok_def create_team_def update_team_def remove_team_def shutdown_def
      manager_register_builtins_def get_team_def team_ok_new team_ok_step split: option.split)

interpretation manager: machine new_agent_manager manager_step manager_ok
  by unfold_locales
    (simp_all add: manager_ok_step, simp add: manager_ok_def new_agent_manager_def get_team_def)

text \<open>
  The manager's teams. After any sequence of operations the names are listed sorted and
  without repetition, and in every team no agent is a member twice and only members have
  tasks. Creating a team that exists returns it with its members and tasks.
\<close>

theorem manager_teams:
  fixes es :: "'j manager_event list" and name :: string
  defines "m \<equiv> foldl manager_step new_agent_manager es :: ('j, 'c) agent_manager"
  shows "sorted (team_names m) \<and> distinct (team_names m) \<and>
    set (team_names m) = {n. get_team n m \<noteq> None} \<and>
    (\<forall>n t. get_team n m = Some t \<longrightarrow> distinct (team_members t) \<and>
       (\<forall>a. a \<notin> set (team_members t) \<longrightarrow> team_results t a = [])) \<and>
    get_team name (create_team name m) =
      Some (case get_team name m of Some t \<Rightarrow> t | None \<Rightarrow> new_team name)"
proof -
  have ok: "manager_ok m" unfolding m_def by (rule manager.inv_reachable)
  then have "sorted (team_names m) \<and> distinct (team_names m)"
    by (simp add: manager_ok_def team_names_def om_ok_def om_keys_def strict_sorted_iff)
  moreover have "set (team_names m) = {n. get_team n m \<noteq> None}"
    by (auto simp: team_names_def get_team_def om_get_None)
  moreover have "distinct (team_members t) \<and> (\<forall>a. a \<notin> set (team_members t) \<longrightarrow> team_results t a = [])"
    if "get_team n m = Some t" for n t
    using ok that by (auto simp: manager_ok_def team_ok_def team_results_def split: option.split)
  ultimately show ?thesis
    by (auto simp: create_team_def get_team_def split: option.split)
qed

lemma manager_teams_witness:
  "team_names (foldl manager_step new_agent_manager [Create_Team ''b'', Create_Team ''a'',
      Update_Team ''b'' (Add_Member ''x'' []), Create_Team ''b''] :: (unit, unit) agent_manager) = [''a'', ''b''] \<and>
   (\<exists>t. get_team ''b'' (create_team ''b'' (foldl manager_step new_agent_manager [Create_Team ''b'',
      Update_Team ''b'' (Add_Member ''x'' [])] :: (unit, unit) agent_manager)) = Some t \<and>
      team_members t = [''x''])"
proof -
  let ?m = "foldl manager_step new_agent_manager [Create_Team ''b'', Update_Team ''b'' (Add_Member ''x'' [])]
    :: (unit, unit) agent_manager"
  have t: "get_team ''b'' ?m = Some ((new_team ''b'')\<lparr>te_members := [\<lparr>tm_agent_id = ''x'', tm_role = []\<rparr>]\<rparr>)"
    by (simp add: create_team_def update_team_def get_team_def new_agent_manager_def add_member_def new_team_def
        om_get_def)
  have "get_team ''b'' (create_team ''b'' ?m) =
      Some (case get_team ''b'' ?m of Some t \<Rightarrow> t | None \<Rightarrow> new_team ''b'')"
    using manager_teams [where name = "''b''" and es = "[Create_Team ''b'',
      Update_Team ''b'' (Add_Member ''x'' [])]"] by blast
  with t show ?thesis
    by (simp add: create_team_def update_team_def get_team_def new_agent_manager_def team_names_def
        om_keys_def team_members_def om_get_def)
qed

end
