(* ===== verification/Files.thy ===== *)
theory Files
  imports String_Utils Paths Json
begin

text \<open>
  The file system as the file tools see it, and the helpers of \<open>src/util/file_utils.h\<close> they
  call. A path names at most one regular file (links and directories are left out); a file is
  its content and its modification time. What the surrounding system decides during one call
  is a record of inputs: the user's home, whether opening succeeds, what other processes do
  between the steps of the call, how many bytes the disk still takes.
\<close>

record stored_file =
  f_content :: string
  f_mtime :: nat

type_synonym fsys = "string \<rightharpoonup> stored_file"

record fs_env =
  fe_home :: "string option"
  fe_readable :: bool
  fe_before_read :: "fsys \<Rightarrow> fsys"
  fe_before_check :: "fsys \<Rightarrow> fsys"
  fe_before_rename :: "fsys \<Rightarrow> fsys"
  fe_uuid :: string
  fe_temp_opens :: bool
  fe_disk_left :: "nat option"
  fe_rename_works :: bool
  fe_now :: nat
  fe_what :: "cpp_exn \<Rightarrow> string"

text \<open>No other process touches the files during the call.\<close>

definition undisturbed :: "fs_env \<Rightarrow> bool" where
  "undisturbed e = (fe_before_read e = id \<and> fe_before_check e = id \<and> fe_before_rename e = id)"

definition path_separator :: char where
  "path_separator = CHR ''/''"

definition expand_home :: "string option \<Rightarrow> string \<Rightarrow> string" where
  "expand_home home s =
     (if length s \<ge> 2 \<and> s ! 0 = CHR ''~'' \<and> (s ! 1 = CHR ''/'' \<or> s ! 1 = path_separator)
      then (case home of Some h \<Rightarrow> path_append h (drop 2 s) | None \<Rightarrow> s)
      else s)"

text \<open>The opening lines of the file tools: the home directory, then the working directory.\<close>

definition resolve_path :: "fs_env \<Rightarrow> string \<Rightarrow> string \<Rightarrow> string" where
  "resolve_path e cwd file_path =
     (let p = expand_home (fe_home e) file_path
      in if \<not> is_absolute p then path_append cwd p else p)"

definition file_exists :: "fsys \<Rightarrow> string \<Rightarrow> bool" where
  "file_exists w p = (w p \<noteq> None)"

definition read_file :: "fs_env \<Rightarrow> fsys \<Rightarrow> string \<Rightarrow> string option" where
  "read_file e w p = (if fe_readable e then map_option f_content (w p) else None)"

text \<open>\<open>fs::last_write_time\<close> throws \<open>fs::filesystem_error\<close> when the file is gone.\<close>

definition last_write_time :: "fsys \<Rightarrow> string \<Rightarrow> cpp_exn + nat" where
  "last_write_time w p =
     (case w p of None \<Rightarrow> Inl (Runtime_Error ''filesystem error'') | Some f \<Rightarrow> Inr (f_mtime f))"

text \<open>
  \<open>ofstream f(p); f << content\<close>: the state of the stream is not looked at after the write, so
  what the disk does not take is lost silently.
\<close>

definition written :: "fs_env \<Rightarrow> string \<Rightarrow> string" where
  "written e content = (case fe_disk_left e of None \<Rightarrow> content | Some n \<Rightarrow> take n content)"

definition write_stream :: "fs_env \<Rightarrow> string \<Rightarrow> string \<Rightarrow> fsys \<Rightarrow> fsys" where
  "write_stream e p content w = w(p \<mapsto> \<lparr>f_content = written e content, f_mtime = fe_now e\<rparr>)"

text \<open>\<open>fs::rename\<close> replaces its target; \<open>fs::remove\<close>.\<close>

definition rename_file :: "string \<Rightarrow> string \<Rightarrow> fsys \<Rightarrow> fsys" where
  "rename_file p q w = (if p = q then w else (w(q := w p))(p := None))"

definition remove_file :: "string \<Rightarrow> fsys \<Rightarrow> fsys" where
  "remove_file p w = w(p := None)"

text \<open>
  \<open>is_binary_file\<close>: a null byte among the first 8192 of a file that opens.
\<close>

definition is_binary_file :: "fs_env \<Rightarrow> fsys \<Rightarrow> string \<Rightarrow> bool" where
  "is_binary_file e w p =
     (case read_file e w p of None \<Rightarrow> False
      | Some s \<Rightarrow> list_ex (\<lambda>c. (of_char c :: nat) = 0) (take 8192 s))"

text \<open>\<open>read_file_lines\<close>: lines by \<open>std::getline\<close>, an offset and a limit of which 0 means none.\<close>

fun take_lines :: "int \<Rightarrow> int \<Rightarrow> int \<Rightarrow> string list \<Rightarrow> string list \<Rightarrow> string list" where
  "take_lines offset limit n acc [] = acc"
| "take_lines offset limit n acc (l # ls) =
     (if n \<ge> offset
      then (if limit > 0 \<and> int (length acc) \<ge> limit then acc
            else take_lines offset limit (n + 1) (acc @ [l]) ls)
      else take_lines offset limit (n + 1) acc ls)"

definition read_file_lines :: "fs_env \<Rightarrow> fsys \<Rightarrow> string \<Rightarrow> int \<Rightarrow> int \<Rightarrow> string list option" where
  "read_file_lines e w p offset limit =
     map_option (\<lambda>s. take_lines offset limit 0 [] (split_char s (CHR 0x0A))) (read_file e w p)"

lemma take_lines_spec:
  "take_lines offset limit n acc ls =
     acc @ (let rest = drop (nat (offset - n)) ls
            in if limit > 0 then take (nat limit - length acc) rest else rest)"
proof (induction offset limit n acc ls rule: take_lines.induct)
  case (2 offset limit n acc l ls)
  show ?case
  proof (cases "n \<ge> offset")
    case True
    show ?thesis
    proof (cases "limit > 0 \<and> int (length acc) \<ge> limit")
      case full: True
      then have "nat limit - length acc = 0" by linarith
      with True full show ?thesis by (simp add: Let_def)
    next
      case False
      then have more: "limit > 0 \<Longrightarrow> nat limit - length acc = Suc (nat limit - Suc (length acc))"
        by linarith
      show ?thesis
      proof (cases "limit > 0")
        case lim: True
        with True False more [OF lim] "2.IH"(1) [OF True False] show ?thesis
          by (simp add: Let_def)
      next
        case nolim: False
        with True "2.IH"(1) [OF True False] show ?thesis by (simp add: Let_def)
      qed
    qed
  next
    case False
    then have "nat (offset - n) = Suc (nat (offset - (n + 1)))" by linarith
    with False "2.IH"(2) [OF False] show ?thesis by (simp add: Let_def)
  qed
qed simp

lemma resolve_absolute: "is_absolute p \<Longrightarrow> resolve_path e cwd p = p"
  by (cases p) (auto simp: resolve_path_def expand_home_def is_absolute_def)

lemma undisturbed_simps:
  "undisturbed e \<Longrightarrow> fe_before_read e w = w" "undisturbed e \<Longrightarrow> fe_before_check e w = w"
  "undisturbed e \<Longrightarrow> fe_before_rename e w = w"
  by (simp_all add: undisturbed_def)

lemma rename_written:
  "p \<noteq> q \<Longrightarrow> w p = None \<Longrightarrow>
   rename_file p q (write_stream e p s w) =
     w(q \<mapsto> \<lparr>f_content = written e s, f_mtime = fe_now e\<rparr>)"
  by (auto simp: rename_file_def write_stream_def)

lemma remove_written: "w p = None \<Longrightarrow> remove_file p (write_stream e p s w) = w"
  by (auto simp: remove_file_def write_stream_def)

section \<open>A sample for the witnesses\<close>

definition sample_fs_env :: "nat option \<Rightarrow> fs_env" where
  "sample_fs_env disk =
     \<lparr>fe_home = Some ''/home/u'', fe_readable = True, fe_before_read = id, fe_before_check = id,
      fe_before_rename = id, fe_uuid = ''1'', fe_temp_opens = True, fe_disk_left = disk,
      fe_rename_works = True, fe_now = 7, fe_what = (\<lambda>x. ''exception'')\<rparr>"

definition sample_files :: fsys where
  "sample_files = [''/a'' \<mapsto> \<lparr>f_content = ''abc'', f_mtime = 3\<rparr>]"

lemma sample_undisturbed: "undisturbed (sample_fs_env d)"
  by (simp add: undisturbed_def sample_fs_env_def)

lemma sample_resolve: "resolve_path (sample_fs_env d) cwd ''/a'' = ''/a''"
  by (simp add: resolve_absolute is_absolute_def)

end
