(* ===== verification/File_Edit.thy ===== *)
theory File_Edit
  imports Files Tools Json_Sample
begin

text \<open>
  The Edit tool: \<open>src/tools/file_edit_tool.cpp\<close>. One definition per function; what happens
  around the call (other processes, the disk, the identifier drawn for the temporary file)
  comes from the \<open>fs_env\<close> of theory \<open>Files\<close>. The theorems state which replacement is made,
  that a call changes the target completely or nothing at all, what the printed diff says of
  the two contents, and where the tool departs from its own instructions.
\<close>

section \<open>Replacement\<close>

text \<open>The counting loop: each match is searched after the end of the one before.\<close>

function count_matches :: "string \<Rightarrow> string \<Rightarrow> nat \<Rightarrow> nat" where
  "count_matches content old_string pos =
     (case find_from content old_string pos of
        None \<Rightarrow> 0
      | Some p \<Rightarrow>
          if old_string = [] then 0
          else Suc (count_matches content old_string (p + length old_string)))"
  by pat_completeness auto
termination
proof (relation "measure (\<lambda>(c, s, p). Suc (length c) - p)")
  fix c s :: string and p q
  assume "find_from c s p = Some q" and "s \<noteq> []"
  then have "p \<le> q" "p \<le> length c" "0 < length s"
    by (auto simp: find_from_def split: if_splits)
  then have "Suc (length c) - (q + length s) < Suc (length c) - p" by arith
  then show "((c, s, q + length s), c, s, p) \<in> measure (\<lambda>(c, s, p). Suc (length c) - p)"
    by simp
qed simp

declare count_matches.simps [simp del]

text \<open>
  The result and the value of \<open>match_count\<close> afterwards, which an empty \<open>old_string\<close> leaves at
  the caller's value.
\<close>

definition apply_replacement :: "string \<Rightarrow> string \<Rightarrow> string \<Rightarrow> nat \<Rightarrow> string option \<times> nat" where
  "apply_replacement content old_string new_string match_count =
     (if old_string = [] then (None, match_count)
      else (let n = count_matches content old_string 0 in
        if n = 0 then (None, n)
        else if n > 1 then (if old_string = new_string then (Some content, n) else (None, n))
        else (case str_find old_string content of
                None \<Rightarrow> (None, n)
              | Some p \<Rightarrow>
                  (Some (take p content @ new_string @ drop (p + length old_string) content), n))))"

section \<open>The diff\<close>

fun common_prefix :: "'a list \<Rightarrow> 'a list \<Rightarrow> nat" where
  "common_prefix (x # xs) (y # ys) = (if x = y then Suc (common_prefix xs ys) else 0)"
| "common_prefix _ _ = 0"

definition common_suffix :: "nat \<Rightarrow> 'a list \<Rightarrow> 'a list \<Rightarrow> nat" where
  "common_suffix pre ol nl = common_prefix (rev (drop pre ol)) (rev (drop pre nl))"

definition text_line :: "string \<Rightarrow> string" where
  "text_line s = s @ [CHR 0x0A]"

definition hunk_range :: "nat \<Rightarrow> nat \<Rightarrow> string" where
  "hunk_range start count =
     nat_to_string start @ (if count \<noteq> 1 then '','' @ nat_to_string count else [])"

definition diff_text :: "string list \<Rightarrow> string list \<Rightarrow> string \<Rightarrow> string" where
  "diff_text old_lines new_lines file_path =
     (let pre = common_prefix old_lines new_lines;
          suf = common_suffix pre old_lines new_lines;
          olds = take (length old_lines - suf - pre) (drop pre old_lines);
          news = take (length new_lines - suf - pre) (drop pre new_lines)
      in text_line (''--- '' @ file_path) @ text_line (''+++ '' @ file_path)
         @ text_line (''@@ -'' @ hunk_range (pre + 1) (length old_lines - pre - suf) @
                      '' +'' @ hunk_range (pre + 1) (length new_lines - pre - suf) @ '' @@'')
         @ concat (map (\<lambda>l. text_line (''-'' @ l)) olds)
         @ concat (map (\<lambda>l. text_line (''+'' @ l)) news))"

text \<open>\<open>util::split\<close> with the delimiter \<open>"\n"\<close> always returns: see \<open>split_lines\<close>.\<close>

definition generate_diff :: "string \<Rightarrow> string \<Rightarrow> string \<Rightarrow> string" where
  "generate_diff old_content new_content file_path =
     diff_text (split_parts [CHR 0x0A] old_content) (split_parts [CHR 0x0A] new_content) file_path"

lemma split_lines: "split_str s [CHR 0x0A] = Some (split_parts [CHR 0x0A] s)"
  by (simp add: split_str_parts)

section \<open>Writing\<close>

definition signed_change :: "string \<Rightarrow> string \<Rightarrow> string" where
  "signed_change new_content old_content =
     (let change = int (length new_content) - int (length old_content)
      in (if change \<ge> 0 then ''+'' else []) @ int_to_string change)"

definition temp_path_of :: "fs_env \<Rightarrow> string \<Rightarrow> string" where
  "temp_path_of e p = p @ ''.claude_tmp_'' @ fe_uuid e"

text \<open>
  The common end of both modes: the temporary file is written and renamed over the target.
  \<open>head\<close> is the first line of the report, \<open>temp_error\<close> the message when the temporary file
  does not open.
\<close>

definition write_edited ::
  "fs_env \<Rightarrow> string \<Rightarrow> string \<Rightarrow> string \<Rightarrow> string \<Rightarrow> string \<Rightarrow> string \<Rightarrow> fsys \<Rightarrow> tool_output \<times> fsys" where
  "write_edited e file_path p head temp_error old_content new_content w =
     (if \<not> fe_temp_opens e then (tool_err temp_error, w)
      else
        let tmp = temp_path_of e p;
            w1 = fe_before_rename e (write_stream e tmp new_content w)
        in if fe_rename_works e
           then (tool_ok (head @ [CHR 0x0A] @ ''Change: '' @ signed_change new_content old_content @
                   '' bytes'' @ [CHR 0x0A, CHR 0x0A] @ generate_diff old_content new_content p),
                 rename_file tmp p w1)
           else (tool_err (''Failed to write file: '' @ file_path), remove_file tmp w1))"

definition modified_error :: string where
  "modified_error = ''File was modified externally between read and write. '' @
     ''The file may have been changed by another process. '' @
     ''Please re-read the file and try the edit again.''"

text \<open>Reading the target: path, existence, modification time, content.\<close>

definition open_target ::
  "fs_env \<Rightarrow> string \<Rightarrow> string \<Rightarrow> fsys \<Rightarrow>
   (cpp_exn + tool_output + string \<times> nat \<times> string) \<times> fsys" where
  "open_target e cwd file_path w =
     (let p = resolve_path e cwd file_path in
      if \<not> file_exists w p then (Inr (Inl (tool_err (''File not found: '' @ file_path))), w)
      else (case last_write_time w p of
          Inl x \<Rightarrow> (Inl x, w)
        | Inr mod_time \<Rightarrow>
            (let w1 = fe_before_read e w in
             case read_file e w1 p of
               None \<Rightarrow> (Inr (Inl (tool_err (''Failed to read file: '' @ file_path))), w1)
             | Some content \<Rightarrow> (Inr (Inr (p, mod_time, content)), w1))))"

definition do_single_edit ::
  "fs_env \<Rightarrow> string \<Rightarrow> string \<Rightarrow> string \<Rightarrow> string \<Rightarrow> fsys \<Rightarrow> (cpp_exn + tool_output) \<times> fsys" where
  "do_single_edit e file_path old_string new_string cwd w =
     (case open_target e cwd file_path w of
        (Inl x, w1) \<Rightarrow> (Inl x, w1)
      | (Inr (Inl out), w1) \<Rightarrow> (Inr out, w1)
      | (Inr (Inr (p, mod_time, old_content)), w1) \<Rightarrow>
        (case apply_replacement old_content old_string new_string 0 of
           (None, match_count) \<Rightarrow>
             (Inr (tool_err
                (if match_count = 0
                 then ''old_string not found in file. Ensure it matches exactly '' @
                   ''(whitespace, case, newlines). Show more context to make the match unique.''
                 else ''old_string found '' @ nat_to_string match_count @
                   '' times. The match must be unique. Add more context to disambiguate.'')), w1)
         | (Some new_content, match_count) \<Rightarrow>
             if old_content = new_content
             then (Inr (tool_ok ''No changes needed (old_string == new_string)''), w1)
             else
               (let w2 = fe_before_check e w1 in
                case last_write_time w2 p of
                  Inl x \<Rightarrow> (Inl x, w2)
                | Inr current \<Rightarrow>
                    if current \<noteq> mod_time then (Inr (tool_err modified_error), w2)
                    else
                      (case write_edited e file_path p (''Edited '' @ p)
                              ''Failed to create temp file for atomic write''
                              old_content new_content w2 of
                         (out, w3) \<Rightarrow> (Inr out, w3)))))"

section \<open>Several edits\<close>

text \<open>
  The loop over the edits, each read from its JSON object when its turn comes: the content
  after all of them and their number, or the error that ends the call.
\<close>

fun apply_edits ::
  "('j, 'z) jlib_scheme \<Rightarrow> 'j list \<Rightarrow> string \<Rightarrow> nat \<Rightarrow> cpp_exn + (tool_output + string \<times> nat)" where
  "apply_edits J [] content n = Inr (Inr (content, n))"
| "apply_edits J (edit # edits) content n =
     bind_exn (or_type_error (j_value_str J edit ''old_string'' [])) (\<lambda>old_str.
     bind_exn (or_type_error (j_value_str J edit ''new_string'' [])) (\<lambda>new_str.
       if old_str = [] then Inr (Inl (tool_err ''edits[].old_string cannot be empty''))
       else (case apply_replacement content old_str new_str 0 of
           (None, match_count) \<Rightarrow>
             Inr (Inl (tool_err
               (if match_count = 0
                then ''old_string not found in file: '' @ [CHR 0x22] @
                  (if length old_str > 80 then take 80 old_str @ ''...'' else old_str) @ [CHR 0x22]
                else ''old_string matched '' @ nat_to_string match_count @
                  '' times. Each match must be unique.'')))
         | (Some new_content, match_count) \<Rightarrow> apply_edits J edits new_content (Suc n))))"

definition do_multi_edit ::
  "('j, 'z) jlib_scheme \<Rightarrow> fs_env \<Rightarrow> string \<Rightarrow> 'j \<Rightarrow> string \<Rightarrow> fsys \<Rightarrow>
   (cpp_exn + tool_output) \<times> fsys" where
  "do_multi_edit J e file_path edits cwd w =
     (if \<not> j_is_array J edits \<or> j_elems J edits = []
      then (Inr (tool_err ''edits must be a non-empty array''), w)
      else (case open_target e cwd file_path w of
        (Inl x, w1) \<Rightarrow> (Inl x, w1)
      | (Inr (Inl out), w1) \<Rightarrow> (Inr out, w1)
      | (Inr (Inr (p, mod_time, old_content)), w1) \<Rightarrow>
        (case apply_edits J (j_elems J edits) old_content 0 of
           Inl x \<Rightarrow> (Inl x, w1)
         | Inr (Inl out) \<Rightarrow> (Inr out, w1)
         | Inr (Inr (new_content, n)) \<Rightarrow>
             (let w2 = fe_before_check e w1 in
              case last_write_time w2 p of
                Inl x \<Rightarrow> (Inl x, w2)
              | Inr current \<Rightarrow>
                  if current \<noteq> mod_time
                  then (Inr (tool_err (''File was modified externally during edit. '' @
                          ''Please re-read and retry.'')), w2)
                  else if new_content = old_content
                  then (Inr (tool_ok ''No changes made (all edits were no-ops)''), w2)
                  else
                    (case write_edited e file_path p
                            (''Edited '' @ p @ '' ('' @ nat_to_string n @ '' changes)'')
                            ''Failed to create temp file'' old_content new_content w2 of
                       (out, w3) \<Rightarrow> (Inr out, w3))))))"

text \<open>\<open>execute\<close>: every exception becomes an error result.\<close>

definition catch_all :: "fs_env \<Rightarrow> (cpp_exn + tool_output) \<times> 'w \<Rightarrow> tool_output \<times> 'w" where
  "catch_all e r =
     (case fst r of
        Inr out \<Rightarrow> (out, snd r)
      | Inl (Json_Parse_Error what) \<Rightarrow> (tool_err (''Invalid JSON input: '' @ what), snd r)
      | Inl x \<Rightarrow> (tool_err (''Error: '' @ fe_what e x), snd r))"

definition edit_body ::
  "('j, 'z) jlib_scheme \<Rightarrow> fs_env \<Rightarrow> string \<Rightarrow> tool_context \<Rightarrow> fsys \<Rightarrow>
   (cpp_exn + tool_output) \<times> fsys" where
  "edit_body J e input ctx w =
     (case j_parse J input of
        Inl what \<Rightarrow> (Inl (Json_Parse_Error what), w)
      | Inr j \<Rightarrow>
        (case j_value_str J j ''file_path'' [] of
           None \<Rightarrow> (Inl Json_Type_Error, w)
         | Some file_path \<Rightarrow>
             if file_path = [] then (Inr (tool_err ''No file path specified''), w)
             else if j_contains J j ''edits''
             then (case j_at J j ''edits'' of
                 None \<Rightarrow> (Inl Json_Type_Error, w)
               | Some edits \<Rightarrow> do_multi_edit J e file_path edits (tx_working_directory ctx) w)
             else if \<not> j_contains J j ''old_string'' \<or> \<not> j_contains J j ''new_string''
             then (Inr (tool_err ''Must provide old_string and new_string, or edits array''), w)
             else (case (j_value_str J j ''old_string'' [], j_value_str J j ''new_string'' []) of
                 (Some old_s, Some new_s) \<Rightarrow>
                   do_single_edit e file_path old_s new_s (tx_working_directory ctx) w
               | _ \<Rightarrow> (Inl Json_Type_Error, w))))"

definition edit_execute ::
  "('j, 'z) jlib_scheme \<Rightarrow> fs_env \<Rightarrow> string \<Rightarrow> tool_context \<Rightarrow> fsys \<Rightarrow> tool_output \<times> fsys" where
  "edit_execute J e input ctx w = catch_all e (edit_body J e input ctx w)"

section \<open>Which text is replaced\<close>

lemma count_matches_parts:
  "old \<noteq> [] \<Longrightarrow> p \<le> length c \<Longrightarrow>
   Suc (count_matches c old p) = length (split_parts old (drop p c))"
proof (induction c old p rule: count_matches.induct)
  case (1 c old p)
  show ?case
  proof (cases "str_find old (drop p c)")
    case None
    then have "count_matches c old p = 0"
      by (subst count_matches.simps) (simp add: find_from_def)
    with None show ?thesis by (simp add: split_parts_None)
  next
    case (Some i)
    with "1.prems" have f: "find_from c old p = Some (p + i)" by (simp add: find_from_le)
    from str_find_Some [OF Some] "1.prems" have "p + i + length old \<le> length c" by auto
    then have IH: "Suc (count_matches c old (p + i + length old)) =
        length (split_parts old (drop (p + i + length old) c))"
      using "1.IH" [OF f "1.prems"(1) "1.prems"(1)] by simp
    have "count_matches c old p = Suc (count_matches c old (p + i + length old))"
      using f "1.prems" by (subst count_matches.simps) simp
    moreover have "split_parts old (drop p c) =
        take i (drop p c) # split_parts old (drop (p + i + length old) c)"
      using split_parts_Some [OF Some "1.prems"(1)] by (simp add: add.commute add.left_commute)
    ultimately show ?thesis using IH by simp
  qed
qed

lemma split_parts_two:
  assumes "old \<noteq> []"
  shows "split_parts old c = [a, b] \<longleftrightarrow>
    c = a @ old @ b \<and> str_find old c = Some (length a) \<and> str_find old b = None"
proof (cases "str_find old c")
  case None
  then show ?thesis by (simp add: split_parts_None)
next
  case (Some i)
  note sp = split_parts_Some [OF Some assms]
  from str_find_Some [OF Some] have i: "i \<le> length c" by simp
  have "split_parts old t = [b] \<longleftrightarrow> t = b \<and> str_find old b = None" for t
    using assms by (cases "str_find old t") (auto simp: split_parts_None split_parts_Some)
  then have two: "split_parts old c = [a, b] \<longleftrightarrow>
      take i c = a \<and> drop (i + length old) c = b \<and> str_find old b = None"
    by (simp add: sp)
  show ?thesis
  proof
    assume "split_parts old c = [a, b]"
    with two have "take i c = a" "drop (i + length old) c = b" "str_find old b = None" by simp_all
    moreover from this i have "length a = i" by (simp add: min_def flip: \<open>take i c = a\<close>)
    ultimately show "c = a @ old @ b \<and> str_find old c = Some (length a) \<and> str_find old b = None"
      using str_find_split [OF Some] Some by simp
  next
    assume A: "c = a @ old @ b \<and> str_find old c = Some (length a) \<and> str_find old b = None"
    then have "str_find old c = Some (length a)" by blast
    with Some have "i = length a" by simp
    moreover from A have "take (length a) c = a" "drop (length a + length old) c = b" by simp_all
    ultimately show "split_parts old c = [a, b]" using A two by simp
  qed
qed

lemma apply_replacement_once:
  assumes "old \<noteq> []" and "split_parts old c = [a, b]"
  shows "apply_replacement c old new k = (Some (a @ new @ b), 1)"
proof -
  from count_matches_parts [OF assms(1), of 0 c] assms(2) have "count_matches c old 0 = 1" by simp
  moreover from split_parts_two [OF assms(1), THEN iffD1, OF assms(2)]
  have "c = a @ old @ b" "str_find old c = Some (length a)" by blast+
  ultimately show ?thesis using assms(1) by (simp add: apply_replacement_def)
qed

lemma apply_replacement_other:
  assumes "old \<noteq> new" and "\<nexists>a b. split_parts old c = [a, b]"
  shows "fst (apply_replacement c old new k) = None"
proof (cases "old = []")
  case False
  have "count_matches c old 0 \<noteq> 1"
  proof
    assume "count_matches c old 0 = 1"
    with count_matches_parts [OF False, of 0 c] have "length (split_parts old c) = 2" by simp
    then have "\<exists>a b. split_parts old c = [a, b]" by (auto simp: numeral_2_eq_2 length_Suc_conv)
    with assms(2) show False by blast
  qed
  with False assms(1) show ?thesis by (auto simp: apply_replacement_def Let_def)
qed (simp add: apply_replacement_def)

text \<open>
  A replacement by a different text is made exactly when the text to replace is not empty
  and one match is found, no second one after its end; then the result is the content with that
  match exchanged and everything around it kept.
\<close>

theorem replacement_needs_one_match:
  assumes "old \<noteq> new"
  shows "fst (apply_replacement c old new k) = Some r \<longleftrightarrow>
    old \<noteq> [] \<and>
    (\<exists>a b. c = a @ old @ b \<and> r = a @ new @ b \<and>
       (\<forall>j<length a. \<not> prefix old (drop j c)) \<and> \<not> contains_str b old)"
    (is "?L \<longleftrightarrow> ?R")
proof
  assume L: ?L
  then have ne: "old \<noteq> []" by (auto simp: apply_replacement_def)
  from L obtain a b where ab: "split_parts old c = [a, b]"
    using apply_replacement_other [OF assms, of c k] by fastforce
  from split_parts_two [OF ne, THEN iffD1, OF ab]
  have "c = a @ old @ b" "str_find old c = Some (length a)" "str_find old b = None" by blast+
  moreover from L apply_replacement_once [OF ne ab] have "r = a @ new @ b" by simp
  moreover have "\<forall>j<length a. \<not> prefix old (drop j c)"
    using str_find_Some [OF \<open>str_find old c = Some (length a)\<close>] by blast
  ultimately show ?R using ne unfolding contains_str_def by blast
next
  assume ?R
  then obtain a b where ab: "old \<noteq> []" "c = a @ old @ b" "r = a @ new @ b"
    "\<forall>j<length a. \<not> prefix old (drop j c)" "\<not> contains_str b old" by blast
  then have "split_parts old c = [a, b]"
    using str_find_first [of a old b] by (simp add: split_parts_two contains_str_def)
  with ab apply_replacement_once [of old c a b new k] show ?L by simp
qed

lemma replacement_needs_one_match_witness:
  "fst (apply_replacement ''let x = 1;'' ''x = 1'' ''x = 2'' 0) = Some ''let x = 2;''"
proof -
  have "\<not> contains_str '';'' ''x = 1''" by (simp add: contains_str_def)
  moreover have "\<forall>j<length ''let ''. \<not> prefix ''x = 1'' (drop j ''let x = 1;'')"
    by (simp add: All_less_Suc numeral_eq_Suc)
  moreover have "''let x = 1;'' = ''let '' @ ''x = 1'' @ '';''" "''let x = 2;'' = ''let '' @ ''x = 2'' @ '';''"
    by simp_all
  ultimately have "\<exists>a b. ''let x = 1;'' = a @ ''x = 1'' @ b \<and> ''let x = 2;'' = a @ ''x = 2'' @ b \<and>
      (\<forall>j<length a. \<not> prefix ''x = 1'' (drop j ''let x = 1;'')) \<and> \<not> contains_str b ''x = 1''"
    by blast
  moreover have "''x = 1'' \<noteq> ''x = 2''" "''x = 1'' \<noteq> []" by simp_all
  ultimately show ?thesis
    by (subst replacement_needs_one_match) blast+
qed

section \<open>What a call changes\<close>

lemma temp_path_fresh [simp]: "temp_path_of e p \<noteq> p" "p \<noteq> temp_path_of e p"
  by (simp_all add: temp_path_of_def)

text \<open>The end of both modes, when nobody else is at work: success and the new content, or an
  error and the files as they were.\<close>

lemma write_edited_cases:
  assumes "undisturbed e" and "w (temp_path_of e p) = None"
  shows "\<exists>out. write_edited e fp p head err old new w =
    (if fe_temp_opens e \<and> fe_rename_works e
     then (out, w(p \<mapsto> \<lparr>f_content = written e new, f_mtime = fe_now e\<rparr>)) else (out, w)) \<and>
    (to_is_error out = (\<not> (fe_temp_opens e \<and> fe_rename_works e)))"
  using assms
  by (auto simp: write_edited_def Let_def undisturbed_simps rename_written remove_written
      tool_ok_def tool_err_def)

lemma open_target_alone:
  assumes "undisturbed e"
  shows "(\<exists>out. open_target e cwd fp w = (Inr (Inl out), w) \<and> to_is_error out) \<or>
    (\<exists>f. w (resolve_path e cwd fp) = Some f \<and>
       open_target e cwd fp w = (Inr (Inr (resolve_path e cwd fp, f_mtime f, f_content f)), w))"
  using assms
  by (cases "w (resolve_path e cwd fp)"; cases "fe_readable e")
    (auto simp: open_target_def Let_def file_exists_def last_write_time_def read_file_def
      undisturbed_simps tool_err_def)

text \<open>The two outcomes a call may have.\<close>

definition untouched :: "fsys \<Rightarrow> (cpp_exn + tool_output) \<times> fsys \<Rightarrow> bool" where
  "untouched w r = (snd r = w)"

definition rewritten :: "fs_env \<Rightarrow> fsys \<Rightarrow> (cpp_exn + tool_output) \<times> fsys \<Rightarrow> bool" where
  "rewritten e w r =
     (\<exists>p f c out. w p = Some f \<and> c \<noteq> f_content f \<and> fst r = Inr out \<and> \<not> to_is_error out \<and>
        snd r = w(p \<mapsto> \<lparr>f_content = written e c, f_mtime = fe_now e\<rparr>))"

lemma write_edited_rewritten:
  assumes "undisturbed e" and "w (temp_path_of e p) = None"
    and "w p = Some f" and "new \<noteq> f_content f"
  shows "untouched w (case write_edited e fp p head err old new w of (out, v) \<Rightarrow> (Inr out, v)) \<or>
    rewritten e w (case write_edited e fp p head err old new w of (out, v) \<Rightarrow> (Inr out, v))"
proof (cases "fe_temp_opens e \<and> fe_rename_works e")
  case True
  with write_edited_cases [where w = w and p = p, OF assms(1,2), of fp head err old new]
  obtain out where "write_edited e fp p head err old new w =
      (out, w(p \<mapsto> \<lparr>f_content = written e new, f_mtime = fe_now e\<rparr>))" "\<not> to_is_error out"
    by auto
  with assms(3,4) show ?thesis unfolding rewritten_def by fastforce
next
  case False
  with write_edited_cases [where w = w and p = p, OF assms(1,2), of fp head err old new]
  obtain out where "write_edited e fp p head err old new w = (out, w)" by auto
  then show ?thesis by (simp add: untouched_def)
qed

lemma single_edit_outcome:
  assumes "undisturbed e" and "\<forall>p. w (temp_path_of e p) = None"
  shows "untouched w (do_single_edit e fp old new cwd w) \<or>
    rewritten e w (do_single_edit e fp old new cwd w)"
  using open_target_alone [OF assms(1), of cwd fp w]
proof (elim disjE exE conjE)
  fix out
  assume "open_target e cwd fp w = (Inr (Inl out), w)"
  then show ?thesis by (simp add: do_single_edit_def untouched_def)
next
  fix f
  let ?p = "resolve_path e cwd fp"
  assume f: "w ?p = Some f"
    and opened: "open_target e cwd fp w = (Inr (Inr (?p, f_mtime f, f_content f)), w)"
  show ?thesis
  proof (cases "apply_replacement (f_content f) old new 0")
    case (Pair r k)
    show ?thesis
    proof (cases r)
      case None
      with Pair opened show ?thesis by (simp add: do_single_edit_def untouched_def)
    next
      case (Some c)
      show ?thesis
      proof (cases "f_content f = c")
        case True
        with Some Pair opened show ?thesis by (simp add: do_single_edit_def untouched_def)
      next
        case False
        have "do_single_edit e fp old new cwd w =
          (case write_edited e fp ?p (''Edited '' @ ?p) ''Failed to create temp file for atomic write''
             (f_content f) c w of (out, v) \<Rightarrow> (Inr out, v))"
          using Some Pair opened False f
          by (simp add: do_single_edit_def undisturbed_simps [OF assms(1)] last_write_time_def Let_def)
        then show ?thesis
          using write_edited_rewritten [of e w ?p f c] assms f False by simp
      qed
    qed
  qed
qed

lemma multi_edit_outcome:
  assumes "undisturbed e" and "\<forall>p. w (temp_path_of e p) = None"
  shows "untouched w (do_multi_edit J e fp edits cwd w) \<or>
    rewritten e w (do_multi_edit J e fp edits cwd w)"
proof (cases "\<not> j_is_array J edits \<or> j_elems J edits = []")
  case True
  then show ?thesis by (simp add: do_multi_edit_def untouched_def)
next
  case ok: False
  show ?thesis
    using open_target_alone [OF assms(1), of cwd fp w]
  proof (elim disjE exE conjE)
    fix out
    assume "open_target e cwd fp w = (Inr (Inl out), w)"
    with ok show ?thesis by (simp add: do_multi_edit_def untouched_def)
  next
    fix f
    let ?p = "resolve_path e cwd fp"
    assume f: "w ?p = Some f"
      and opened: "open_target e cwd fp w = (Inr (Inr (?p, f_mtime f, f_content f)), w)"
    show ?thesis
    proof (cases "apply_edits J (j_elems J edits) (f_content f) 0")
      case (Inl x)
      with ok opened show ?thesis by (simp add: do_multi_edit_def untouched_def)
    next
      case (Inr r)
      show ?thesis
      proof (cases r)
        case (Inl out)
        with ok opened Inr show ?thesis by (simp add: do_multi_edit_def untouched_def)
      next
        case edited: (Inr cn)
        obtain c n where cn: "cn = (c, n)" by (cases cn)
        have "do_multi_edit J e fp edits cwd w =
          (if c = f_content f then (Inr (tool_ok ''No changes made (all edits were no-ops)''), w)
           else case write_edited e fp ?p (''Edited '' @ ?p @ '' ('' @ nat_to_string n @ '' changes)'')
               ''Failed to create temp file'' (f_content f) c w of (out, v) \<Rightarrow> (Inr out, v))"
          using ok opened Inr edited cn f
          by (simp add: do_multi_edit_def undisturbed_simps [OF assms(1)] last_write_time_def Let_def)
        then show ?thesis
          using write_edited_rewritten [of e w ?p f c] assms f
          by (cases "c = f_content f") (simp_all add: untouched_def)
      qed
    qed
  qed
qed

text \<open>
  C9: Without interference from other processes, and with a fresh name for the temporary file,
  a call of the tool either leaves every file as it was, the temporary file removed again, or it
  succeeds and has replaced the content of one existing file by a different one; an error
  result, exceptions included, always means that nothing changed.
\<close>

theorem edit_all_or_nothing:
  assumes "undisturbed e" and "\<forall>p. w (temp_path_of e p) = None"
  shows "let (out, w') = edit_execute J e input ctx w in
    w' = w \<or>
    (\<not> to_is_error out \<and>
     (\<exists>p f c. w p = Some f \<and> c \<noteq> f_content f \<and>
        w' = w(p \<mapsto> \<lparr>f_content = written e c, f_mtime = fe_now e\<rparr>)))"
proof -
  have caught: "let (out, w') = catch_all e r in
      w' = w \<or> (\<not> to_is_error out \<and> (\<exists>p f c. w p = Some f \<and> c \<noteq> f_content f \<and>
        w' = w(p \<mapsto> \<lparr>f_content = written e c, f_mtime = fe_now e\<rparr>)))"
    if "untouched w r \<or> rewritten e w r" for r :: "(cpp_exn + tool_output) \<times> fsys"
    using that
  proof
    assume "untouched w r"
    then have "snd (catch_all e r) = w"
      by (auto simp: catch_all_def untouched_def split: sum.split cpp_exn.split)
    then show ?thesis by (simp add: case_prod_unfold)
  next
    assume "rewritten e w r"
    then show ?thesis by (fastforce simp: catch_all_def rewritten_def)
  qed
  define Q where "Q r = (untouched w r \<or> rewritten e w r)" for r
  have leaves: "Q (x, w)" "Q (do_single_edit e fp old new cwd w)"
    "Q (do_multi_edit J e fp edits cwd w)" for x fp old new cwd edits
    using single_edit_outcome [OF assms] multi_edit_outcome [OF assms]
    by (simp_all add: Q_def) (simp add: untouched_def)
  have "Q (edit_body J e input ctx w)"
    by (simp add: edit_body_def leaves split: sum.split option.split)
  then have "untouched w (edit_body J e input ctx w) \<or> rewritten e w (edit_body J e input ctx w)"
    by (simp only: Q_def)
  from caught [OF this] show ?thesis by (simp only: edit_execute_def)
qed

text \<open>
  What a single edit does to the disk: on a readable file in which the text occurs once
  the call succeeds, and the file holds exactly as much of the edited content as the disk took.
  With room for all of it that is the content with the one match exchanged; with less the call
  still reports success, and the rest of the old file is gone although it was written to a
  temporary file first.
\<close>

theorem single_edit_effect:
  assumes "undisturbed e" and "fe_readable e" and "fe_temp_opens e" and "fe_rename_works e"
    and "w (resolve_path e cwd fp) = Some f" and "w (temp_path_of e (resolve_path e cwd fp)) = None"
    and "old \<noteq> []" and "old \<noteq> new" and "split_parts old (f_content f) = [a, b]"
  shows "\<exists>out. do_single_edit e fp old new cwd w =
      (Inr out, w(resolve_path e cwd fp \<mapsto>
         \<lparr>f_content = written e (a @ new @ b), f_mtime = fe_now e\<rparr>)) \<and>
    \<not> to_is_error out"
proof -
  let ?p = "resolve_path e cwd fp"
  have opened: "open_target e cwd fp w = (Inr (Inr (?p, f_mtime f, f_content f)), w)"
    using assms by (simp add: open_target_def Let_def file_exists_def last_write_time_def
        read_file_def undisturbed_simps)
  have "f_content f = a @ old @ b"
    using split_parts_two [OF assms(7), THEN iffD1, OF assms(9)] by blast
  with assms(8) have changed: "f_content f \<noteq> a @ new @ b" by simp
  have "do_single_edit e fp old new cwd w =
    (case write_edited e fp ?p (''Edited '' @ ?p) ''Failed to create temp file for atomic write''
       (f_content f) (a @ new @ b) w of (out, v) \<Rightarrow> (Inr out, v))"
    using opened changed assms(5) apply_replacement_once [OF assms(7,9), of new 0]
    by (simp add: do_single_edit_def undisturbed_simps [OF assms(1)] last_write_time_def Let_def)
  then show ?thesis
    using write_edited_cases [where w = w and p = ?p, OF assms(1,6), of fp "''Edited '' @ ?p"
        "''Failed to create temp file for atomic write''" "f_content f" "a @ new @ b"] assms(3,4)
    by (auto simp del: append.simps append_Cons)
qed

lemma sample_fresh: "sample_files (temp_path_of (sample_fs_env d) p) = None"
  by (simp add: sample_files_def temp_path_of_def sample_fs_env_def Cons_eq_append_conv append_eq_Cons_conv)

lemma sample_parts: "split_parts ''b'' ''abc'' = [''a'', ''c'']"
  by (simp add: split_parts.simps)

text \<open>The arguments of the sample call, as the parser gives them.\<close>

definition sample_edit_args :: jv where
  "sample_edit_args = JObj [(''file_path'', JStr ''/a''), (''old_string'', JStr ''b''),
     (''new_string'', JStr ''xy'')]"

lemma edit_all_or_nothing_witness:
  "\<forall>ctx. let (out, w') = edit_execute (sample_jlib (\<lambda>s. Inr sample_edit_args) (\<lambda>v. []))
         (sample_fs_env None) ''{}'' ctx sample_files in
     w' = sample_files \<or> \<not> to_is_error out"
proof
  fix ctx
  show "let (out, w') = edit_execute (sample_jlib (\<lambda>s. Inr sample_edit_args) (\<lambda>v. []))
         (sample_fs_env None) ''{}'' ctx sample_files in
     w' = sample_files \<or> \<not> to_is_error out"
    using edit_all_or_nothing [OF sample_undisturbed, of sample_files None
        "sample_jlib (\<lambda>s. Inr sample_edit_args) (\<lambda>v. [])" "''{}''" ctx]
    by (auto simp: sample_fresh)
qed

lemma single_edit_effect_witness:
  "\<exists>out. do_single_edit (sample_fs_env (Some 2)) ''/a'' ''b'' ''xy'' ''/'' sample_files =
      (Inr out, [''/a'' \<mapsto> \<lparr>f_content = ''ax'', f_mtime = 7\<rparr>]) \<and> \<not> to_is_error out"
proof -
  let ?e = "sample_fs_env (Some 2)"
  have "fe_readable ?e" "fe_temp_opens ?e" "fe_rename_works ?e" "fe_now ?e = 7"
    by (simp_all add: sample_fs_env_def)
  moreover have "sample_files (resolve_path ?e ''/'' ''/a'') = Some \<lparr>f_content = ''abc'', f_mtime = 3\<rparr>"
    by (simp add: sample_resolve sample_files_def)
  moreover have "written ?e (''a'' @ ''xy'' @ ''c'') = ''ax''"
    by (simp add: written_def sample_fs_env_def)
  moreover have "sample_files(''/a'' \<mapsto> x) = [''/a'' \<mapsto> x]" for x by (simp add: sample_files_def)
  moreover have "split_parts ''b'' (f_content \<lparr>f_content = ''abc'', f_mtime = 3\<rparr>) = [''a'', ''c'']"
    by (simp add: sample_parts)
  moreover have "''b'' \<noteq> []" "''b'' \<noteq> ''xy''" by simp_all
  moreover note sample_fresh [of "Some 2" "resolve_path ?e ''/'' ''/a''"]
  ultimately show ?thesis
    using single_edit_effect [OF sample_undisturbed, of "Some 2" sample_files "''/''" "''/a''"
        "\<lparr>f_content = ''abc'', f_mtime = 3\<rparr>" "''b''" "''xy''" "''a''" "''c''"]
    by (simp only: sample_resolve simp_thms)
qed

section \<open>Other processes\<close>

text \<open>
  The check of the modification time. A change of the file by another process between the
  first look at it and the check ends the call with an error and is kept; a change after the
  check is lost, the file then holds the edited content all the same.
\<close>

theorem concurrent_modification:
  assumes "open_target e cwd fp w = (Inr (Inr (p, m, c)), v)"
    and "fst (apply_replacement c old new 0) = Some c'" and "c' \<noteq> c"
    and "fe_before_check e v p = Some g"
  shows "(f_mtime g \<noteq> m \<longrightarrow>
      do_single_edit e fp old new cwd w = (Inr (tool_err modified_error), fe_before_check e v)) \<and>
    (f_mtime g = m \<and> fe_temp_opens e \<and> fe_rename_works e \<and>
     (\<forall>u. fe_before_rename e u (temp_path_of e p) = u (temp_path_of e p)) \<longrightarrow>
      snd (do_single_edit e fp old new cwd w) p =
        Some \<lparr>f_content = written e c', f_mtime = fe_now e\<rparr>)"
proof -
  obtain n where ar: "apply_replacement c old new 0 = (Some c', n)"
    using assms(2) by (cases "apply_replacement c old new 0") auto
  then have step: "do_single_edit e fp old new cwd w =
    (if f_mtime g \<noteq> m then (Inr (tool_err modified_error), fe_before_check e v)
     else case write_edited e fp p (''Edited '' @ p) ''Failed to create temp file for atomic write''
         c c' (fe_before_check e v) of (out, u) \<Rightarrow> (Inr out, u))"
    using assms by (simp add: do_single_edit_def last_write_time_def Let_def)
  have "snd (write_edited e fp p head err c c' u) p =
      Some \<lparr>f_content = written e c', f_mtime = fe_now e\<rparr>"
    if "fe_temp_opens e" "fe_rename_works e"
      "\<forall>u. fe_before_rename e u (temp_path_of e p) = u (temp_path_of e p)" for head err u
    using that by (simp add: write_edited_def Let_def rename_file_def write_stream_def)
  with step show ?thesis by (simp add: case_prod_unfold)
qed

lemma concurrent_modification_witness:
  "let touch = (\<lambda>w. w(''/a'' \<mapsto> \<lparr>f_content = ''zz'', f_mtime = 5\<rparr>)) in
   do_single_edit (sample_fs_env None\<lparr>fe_before_check := touch\<rparr>) ''/a'' ''b'' ''xy'' ''/'' sample_files =
     (Inr (tool_err modified_error), touch sample_files) \<and>
   snd (do_single_edit (sample_fs_env None\<lparr>fe_before_rename := touch\<rparr>) ''/a'' ''b'' ''xy'' ''/''
     sample_files) ''/a'' = Some \<lparr>f_content = ''axyc'', f_mtime = 7\<rparr>"
proof -
  let ?touch = "\<lambda>w. w(''/a'' \<mapsto> \<lparr>f_content = ''zz'', f_mtime = 5\<rparr>) :: fsys"
  let ?c = "sample_fs_env None\<lparr>fe_before_check := ?touch\<rparr>"
  let ?r = "sample_fs_env None\<lparr>fe_before_rename := ?touch\<rparr>"
  have opened: "open_target ?c ''/'' ''/a'' sample_files = (Inr (Inr (''/a'', 3, ''abc'')), sample_files)"
    "open_target ?r ''/'' ''/a'' sample_files = (Inr (Inr (''/a'', 3, ''abc'')), sample_files)"
    by (simp_all add: open_target_def resolve_absolute is_absolute_def sample_files_def
        file_exists_def last_write_time_def read_file_def sample_fs_env_def Let_def)
  have new: "fst (apply_replacement ''abc'' ''b'' ''xy'' 0) = Some ''axyc''"
    using apply_replacement_once [OF _ sample_parts, of "''xy''" 0] by simp
  have "written ?r ''axyc'' = ''axyc''" "fe_now ?r = 7" "fe_temp_opens ?r" "fe_rename_works ?r"
    "fe_before_check ?c = ?touch" "fe_before_check ?r = id" "fe_before_rename ?r = ?touch"
    by (simp_all add: written_def sample_fs_env_def)
  then show ?thesis
    unfolding Let_def
    using concurrent_modification [OF opened(1) new, of "\<lparr>f_content = ''zz'', f_mtime = 5\<rparr>"]
      concurrent_modification [OF opened(2) new, of "\<lparr>f_content = ''abc'', f_mtime = 3\<rparr>"]
    by (simp add: sample_files_def temp_path_of_def)
qed

section \<open>The diff of an edit\<close>

lemma common_prefix_bounds:
  "common_prefix xs ys \<le> length xs" "common_prefix xs ys \<le> length ys"
  by (induction xs ys rule: common_prefix.induct) auto

lemma common_prefix_take:
  "take (common_prefix xs ys) xs = take (common_prefix xs ys) ys"
  by (induction xs ys rule: common_prefix.induct) auto

lemma common_prefix_differ:
  "common_prefix xs ys < length xs \<Longrightarrow> common_prefix xs ys < length ys \<Longrightarrow>
   xs ! common_prefix xs ys \<noteq> ys ! common_prefix xs ys"
  by (induction xs ys rule: common_prefix.induct) (auto split: if_splits)

text \<open>Two lists without their common prefix and the common suffix of the rest.\<close>

lemma common_suffix_split:
  assumes "k = common_prefix (rev xs) (rev ys)"
    and "olds = take (length xs - k) xs" and "news = take (length ys - k) ys"
  shows "\<exists>suf. xs = olds @ suf \<and> ys = news @ suf \<and> length suf = k \<and>
    (olds \<noteq> [] \<and> news \<noteq> [] \<longrightarrow> last olds \<noteq> last news)"
proof -
  have k: "k \<le> length xs" "k \<le> length ys"
    using common_prefix_bounds [of "rev xs" "rev ys"] assms(1) by simp_all
  have "take k (rev xs) = take k (rev ys)" using common_prefix_take assms(1) by metis
  then have "rev (take k (rev xs)) = rev (take k (rev ys))" by simp
  then have suf: "drop (length xs - k) xs = drop (length ys - k) ys"
    by (simp add: take_rev)
  have "last olds \<noteq> last news" if ne: "olds \<noteq> []" "news \<noteq> []"
  proof -
    have less: "k < length xs" "k < length ys" using ne assms(2,3) by auto
    then have "rev xs ! k \<noteq> rev ys ! k"
      using common_prefix_differ [of "rev xs" "rev ys"] assms(1) by simp
    moreover have "last olds = rev xs ! k" "last news = rev ys ! k"
      using less ne by (simp_all add: assms(2,3) last_conv_nth rev_nth)
    ultimately show ?thesis by simp
  qed
  moreover have "xs = olds @ drop (length xs - k) xs" "ys = news @ drop (length xs - k) xs"
    by (simp add: assms(2)) (simp add: assms(3) suf)
  moreover have "length (drop (length xs - k) xs) = k" using k by simp
  ultimately show ?thesis by blast
qed

text \<open>
  The region in which two lists differ, as the tools compute it: what the common prefix and the
  common suffix of the rest leave of both lists.
\<close>

lemma diff_region:
  assumes "m = common_prefix ol nl" and "k = common_suffix m ol nl"
  defines "olds \<equiv> take (length ol - k - m) (drop m ol)"
  defines "news \<equiv> take (length nl - k - m) (drop m nl)"
  shows "\<exists>suf. ol = take m ol @ olds @ suf \<and> nl = take m ol @ news @ suf \<and> m \<le> length ol \<and>
    length olds = length ol - m - k \<and> length news = length nl - m - k \<and>
    (olds \<noteq> [] \<and> news \<noteq> [] \<longrightarrow> hd olds \<noteq> hd news \<and> last olds \<noteq> last news)"
proof -
  have m: "m \<le> length ol" "m \<le> length nl" "take m ol = take m nl"
    using common_prefix_bounds common_prefix_take by (simp_all add: assms(1))
  have cut: "olds = take (length (drop m ol) - k) (drop m ol)" "news = take (length (drop m nl) - k) (drop m nl)"
    by (simp_all add: olds_def news_def add.commute)
  obtain suf where suf: "drop m ol = olds @ suf" "drop m nl = news @ suf" "length suf = k"
    and last: "olds \<noteq> [] \<Longrightarrow> news \<noteq> [] \<Longrightarrow> last olds \<noteq> last news"
    using common_suffix_split [OF assms(2) [unfolded common_suffix_def] cut] by blast
  have parts: "ol = take m ol @ olds @ suf" "nl = take m ol @ news @ suf"
    using suf(1,2) m(3) by (metis append_take_drop_id)+
  have len: "length olds = length ol - m - k" "length news = length nl - m - k"
    using suf m by (metis add_diff_cancel_right' length_append length_drop)+
  have "hd olds \<noteq> hd news" if ne: "olds \<noteq> []" "news \<noteq> []"
  proof -
    have less: "m < length ol" "m < length nl" using ne len by (simp_all flip: length_greater_0_conv)
    with common_prefix_differ [of ol nl] have "ol ! m \<noteq> nl ! m" by (simp add: assms(1))
    moreover have "ol ! m = hd olds" "nl ! m = hd news"
      using less ne suf(1,2) by (simp_all flip: hd_drop_conv_nth)
    ultimately show ?thesis by simp
  qed
  with parts m(1) len last show ?thesis by blast
qed

text \<open>
  The diff in the report is exact. The two contents have the same lines before and after
  one region; the hunk's header gives the region's first line and its length on both sides, and
  its body lists the old lines of the region, then the new ones. The region is the smallest: on
  both sides not empty, it neither starts nor ends with a common line.
\<close>

theorem diff_exact:
  "\<exists>pre olds news suf.
     split_parts [CHR 0x0A] old = pre @ olds @ suf \<and> split_parts [CHR 0x0A] new = pre @ news @ suf \<and>
     \<not> (olds \<noteq> [] \<and> news \<noteq> [] \<and> (hd olds = hd news \<or> last olds = last news)) \<and>
     generate_diff old new p =
       text_line (''--- '' @ p) @ text_line (''+++ '' @ p)
       @ text_line (''@@ -'' @ hunk_range (length pre + 1) (length olds) @
           '' +'' @ hunk_range (length pre + 1) (length news) @ '' @@'')
       @ concat (map (\<lambda>l. text_line (''-'' @ l)) olds)
       @ concat (map (\<lambda>l. text_line (''+'' @ l)) news)"
proof -
  define ol nl where "ol = split_parts [CHR 0x0A] old" and "nl = split_parts [CHR 0x0A] new"
  define m k where "m = common_prefix ol nl" and "k = common_suffix m ol nl"
  let ?olds = "take (length ol - k - m) (drop m ol)" and ?news = "take (length nl - k - m) (drop m nl)"
  obtain suf where suf: "ol = take m ol @ ?olds @ suf" "nl = take m ol @ ?news @ suf" "m \<le> length ol"
    "length ?olds = length ol - m - k" "length ?news = length nl - m - k"
    "?olds \<noteq> [] \<and> ?news \<noteq> [] \<longrightarrow> hd ?olds \<noteq> hd ?news \<and> last ?olds \<noteq> last ?news"
    using diff_region [OF m_def k_def] by blast
  have "generate_diff old new p =
       text_line (''--- '' @ p) @ text_line (''+++ '' @ p)
       @ text_line (''@@ -'' @ hunk_range (length (take m ol) + 1) (length ?olds) @
           '' +'' @ hunk_range (length (take m ol) + 1) (length ?news) @ '' @@'')
       @ concat (map (\<lambda>l. text_line (''-'' @ l)) ?olds)
       @ concat (map (\<lambda>l. text_line (''+'' @ l)) ?news)"
    using suf(3) unfolding suf(4,5)
    by (simp add: generate_diff_def diff_text_def Let_def flip: ol_def nl_def m_def k_def)
  with suf(1,2,6) show ?thesis
    unfolding ol_def [symmetric] nl_def [symmetric] by blast
qed

section \<open>Edits are made one after the other\<close>

text \<open>
  The tool's instructions say that each edit is matched against the original file. It is matched
  against the result of the ones before it: an edit may find text that only an earlier one
  inserted, and one whose text an earlier edit removed fails.
\<close>

lemma edits_see_earlier_edits:
  fixes d and p
  defines "J \<equiv> sample_jlib p d"
  defines "edit \<equiv> \<lambda>x y. JObj [(''old_string'', JStr x), (''new_string'', JStr y)]"
  shows "\<not> contains_str ''abc'' ''xy'' \<and>
    apply_edits J [edit ''b'' ''xy'', edit ''xy'' ''z''] ''abc'' 0 = Inr (Inr (''azc'', 2))"
proof -
  have "split_parts ''xy'' ''axyc'' = [''a'', ''c'']" by (simp add: split_parts.simps)
  then show ?thesis
    using apply_replacement_once [OF _ sample_parts, of "''xy''" 0]
      apply_replacement_once [of "''xy''" "''axyc''" "''a''" "''c''" "''z''" 0]
    by (simp add: J_def edit_def jv_defs contains_str_def)
qed

end
