(* ===== verification/Websocket.thy ===== *)
theory Websocket
  imports Json
begin

text \<open>
  The WebSocket frames of \<open>src/bridge/bridge_server.cpp\<close>: \<open>websocket_send_frame\<close> and
  \<open>websocket_recv_frame\<close>. What a socket delivers is a list of segments: \<open>recv\<close> returns bytes of
  the first one only, at most as many as asked for, and nothing at the end of the list (the
  peer has closed, or an error). \<open>limit\<close> is the length up to which a \<open>std::string\<close> can be
  allocated; beyond it the constructor throws.
\<close>

type_synonym byte = "8 word"
type_synonym segments = "byte list list"

section \<open>Reading from a socket\<close>

fun recv :: "nat \<Rightarrow> 'a list list \<Rightarrow> 'a list \<times> 'a list list" where
  "recv k [] = ([], [])"
| "recv k (s # ss) =
     (if k = 0 then ([], s # ss)
      else (take k s, if length s \<le> k then ss else drop k s # ss))"

definition total_length :: "'a list list \<Rightarrow> nat" where
  "total_length segs = length (concat segs)"

lemma recv_concat: "recv k segs = (d, r) \<Longrightarrow> concat segs = d @ concat r"
  by (cases segs) (auto split: if_splits)

lemma recv_total: "recv k segs = (d, r) \<Longrightarrow> total_length segs = length d + total_length r"
  using recv_concat [of k segs d r] by (simp add: total_length_def)

lemma recv_length: "recv k segs = (d, r) \<Longrightarrow> length d \<le> k"
  by (cases segs) (auto split: if_splits)

text \<open>The loop that reads the payload: \<open>None\<close> when the socket ends before.\<close>

function recv_all :: "nat \<Rightarrow> segments \<Rightarrow> byte list option \<times> segments" where
  "recv_all n segs =
     (if n = 0 then (Some [], segs)
      else (case recv n segs of (d, r) \<Rightarrow>
        if d = [] then (None, r)
        else (case recv_all (n - length d) r of
            (None, r') \<Rightarrow> (None, r')
          | (Some e, r') \<Rightarrow> (Some (d @ e), r'))))"
  by pat_completeness auto
termination by (relation "measure fst") auto

declare recv_all.simps [simp del]

section \<open>Frames\<close>

definition length_field :: "nat \<Rightarrow> byte list" where
  "length_field len =
     (if len < 126 then [word_of_nat len]
      else if len < 65536
      then [126, word_of_nat (drop_bit 8 len AND 0xFF), word_of_nat (len AND 0xFF)]
      else 127 # map (\<lambda>i. word_of_nat (drop_bit i len AND 0xFF)) [56, 48, 40, 32, 24, 16, 8, 0])"

definition send_frame :: "bool \<Rightarrow> byte list \<Rightarrow> byte list" where
  "send_frame binary payload =
     (if binary then 0x82 else 0x81) # length_field (length payload) @ payload"

text \<open>The extended length: two bytes, or eight, most significant first.\<close>

definition byte_join :: "64 word \<Rightarrow> byte \<Rightarrow> 64 word" where
  "byte_join acc b = push_bit 8 acc OR ucast b"

definition extended_length :: "64 word \<Rightarrow> segments \<Rightarrow> 64 word option \<times> segments" where
  "extended_length len segs =
     (if len = 126 then
        (case recv 2 segs of (ext, r) \<Rightarrow>
          if length ext \<noteq> 2 then (None, r) else (Some (foldl byte_join 0 ext), r))
      else if len = 127 then
        (case recv 8 segs of (ext, r) \<Rightarrow>
          if length ext \<noteq> 8 then (None, r) else (Some (foldl byte_join 0 ext), r))
      else (Some len, segs))"

definition read_mask :: "bool \<Rightarrow> segments \<Rightarrow> byte list option \<times> segments" where
  "read_mask masked segs =
     (if masked then
        (case recv 4 segs of (key, r) \<Rightarrow> if length key \<noteq> 4 then (None, r) else (Some key, r))
      else (Some [0, 0, 0, 0], segs))"

definition unmask :: "byte list \<Rightarrow> byte list \<Rightarrow> byte list" where
  "unmask key payload = map (\<lambda>i. payload ! i XOR key ! (i mod 4)) [0..<length payload]"

text \<open>A data frame after its first two bytes.\<close>

definition recv_data ::
  "nat \<Rightarrow> bool \<Rightarrow> 64 word \<Rightarrow> segments \<Rightarrow> (cpp_exn + byte list) \<times> segments" where
  "recv_data limit masked len segs =
     (case extended_length len segs of
        (None, r) \<Rightarrow> (Inr [], r)
      | (Some payload_len, r) \<Rightarrow>
        (case read_mask masked r of
           (None, r') \<Rightarrow> (Inr [], r')
         | (Some key, r') \<Rightarrow>
             if unat payload_len > limit then (Inl Length_Error, r')
             else (case recv_all (unat payload_len) r' of
                 (None, r'') \<Rightarrow> (Inr [], r'')
               | (Some payload, r'') \<Rightarrow>
                   (Inr (if masked then unmask key payload else payload), r''))))"

text \<open>The echo of a ping: \<open>recv\<close> is called once, into a buffer of zeros.\<close>

definition pong_frame :: "nat \<Rightarrow> byte list \<Rightarrow> byte list" where
  "pong_frame len payload =
     (if len > 0 then 0x8A # word_of_nat len # payload @ replicate (len - length payload) 0
      else [0x8A, 0x00])"

text \<open>The result, the frames sent meanwhile, and what is left on the socket.\<close>

function recv_frame ::
  "nat \<Rightarrow> segments \<Rightarrow> (cpp_exn + byte list) \<times> byte list list \<times> segments" where
  "recv_frame limit segs =
     (case recv 2 segs of (header, r) \<Rightarrow>
        if length header < 2 then (Inr [], [], r)
        else
          let opcode = header ! 0 AND 0x0F;
              masked = (header ! 1 AND 0x80 \<noteq> 0);
              payload_len = header ! 1 AND 0x7F
          in if opcode = 0x08 then (Inr [], [[0x88, 0x00]], r)
             else if opcode = 0x09 then
               (case recv (unat payload_len) r of (payload, r1) \<Rightarrow>
                  (case recv_frame limit r1 of (res, sent, r2) \<Rightarrow>
                     (res, pong_frame (unat payload_len) payload # sent, r2)))
             else (case recv_data limit masked (ucast payload_len) r of
                 (res, r1) \<Rightarrow> (res, [], r1)))"
  by pat_completeness auto
termination
proof (relation "measure (\<lambda>(limit, segs). total_length segs)")
  fix limit :: nat and segs r r1 :: segments and header payload and h0 :: byte and m and h1 :: byte
    and x y
  assume "(header, r) = recv 2 segs" and "\<not> length header < 2"
    and "(payload, r1) = recv (unat h1) r"
  then have "total_length segs = length header + total_length r"
    "total_length r = length payload + total_length r1" "2 \<le> length header"
    using recv_total by (metis, metis, simp)
  then have "total_length r1 < total_length segs" by linarith
  then show "((limit, r1), limit, segs) \<in> measure (\<lambda>(limit, segs). total_length segs)" by simp
qed simp

declare recv_frame.simps [simp del]

section \<open>Reading what was written\<close>

definition cons_segment :: "byte list \<Rightarrow> segments \<Rightarrow> segments" where
  "cons_segment b ss = (if b = [] then ss else b # ss)"

lemma concat_cons_segment [simp]: "concat (cons_segment b ss) = b @ concat ss"
  by (simp add: cons_segment_def)

lemma cons_segment_nonempty: "[] \<notin> set ss \<Longrightarrow> [] \<notin> set (cons_segment b ss)"
  by (auto simp: cons_segment_def)

lemma recv_prefix: "k = length a \<Longrightarrow> a \<noteq> [] \<Longrightarrow> recv k ((a @ b) # ss) = (a, cons_segment b ss)"
  by (auto simp: cons_segment_def)

lemma recv_all_concat:
  "[] \<notin> set segs \<Longrightarrow> concat segs = p @ q \<Longrightarrow>
   \<exists>r. recv_all (length p) segs = (Some p, r) \<and> concat r = q"
proof (induction "length p" arbitrary: p segs rule: less_induct)
  case less
  show ?case
  proof (cases "p = []")
    case True
    with less.prems show ?thesis by (simp add: recv_all.simps)
  next
    case False
    with less.prems obtain s ss where segs: "segs = s # ss" "s \<noteq> []"
      by (cases segs) auto
    obtain d r where dr: "recv (length p) segs = (d, r)" by (cases "recv (length p) segs")
    have d: "d \<noteq> []" "d = take (length p) s" using dr segs False by auto
    have cc: "d @ concat r = p @ q" using recv_concat [OF dr] less.prems by simp
    have ld: "length d \<le> length p" by (rule recv_length [OF dr])
    define p' where "p' = drop (length d) p"
    have "take (length d) (d @ concat r) = take (length d) (p @ q)" by (simp only: cc)
    moreover have "take (length d) (p @ q) = take (length d) p" by (simp add: ld)
    ultimately have "take (length d) p = d" by simp
    then have p: "p = d @ p'" unfolding p'_def by (metis append_take_drop_id)
    have "length p = length d + length p'" using arg_cong [OF p, of length] by (simp only: length_append)
    with d(1) have less': "length p' < length p" by (cases d) simp_all
    have "[] \<notin> set r" using dr segs less.prems(1) False by (auto split: if_splits)
    moreover have "concat r = p' @ q" using cc p by simp
    ultimately obtain r' where "recv_all (length p') r = (Some p', r')" "concat r' = q"
      using less.hyps [OF less'] by blast
    then show ?thesis using dr d(1) False p
      by (subst recv_all.simps) simp
  qed
qed

lemma unmask_nth: "i < length p \<Longrightarrow> unmask k p ! i = p ! i XOR k ! (i mod 4)"
  by (simp add: unmask_def)

lemma unmask_length [simp]: "length (unmask k p) = length p"
  by (simp add: unmask_def)

lemma unmask_unmask: "unmask k (unmask k p) = p"
  by (rule nth_equalityI) (simp_all add: unmask_nth xor.assoc)

text \<open>The most significant byte first: after each byte the accumulator is the length without
  the bytes still to come.\<close>

lemma unat_length_byte: "unat (word_of_nat (drop_bit i len AND 0xFF) :: byte) = len div 2 ^ i mod 256"
proof -
  have "drop_bit i len AND 0xFF = len div 2 ^ i mod 256"
    using take_bit_eq_mask [of 8 "drop_bit i len"]
    by (simp add: mask_numeral take_bit_eq_mod drop_bit_eq_div)
  then show ?thesis by (simp add: unat_of_nat)
qed

lemma byte_join_step:
  assumes "unat acc = len div 2 ^ (i + 8)" and "len < 2 ^ 64"
  shows "unat (byte_join acc (word_of_nat (drop_bit i len AND 0xFF))) = len div 2 ^ i"
proof -
  let ?b = "word_of_nat (drop_bit i len AND 0xFF) :: byte"
  have b: "unat (ucast ?b :: 64 word) = len div 2 ^ i mod 256"
  proof -
    have "len div 2 ^ i mod 256 < 2 ^ 64" by (rule less_trans [of _ 256]) simp_all
    then show ?thesis
      using unat_length_byte [of i len] by (simp add: unsigned_ucast_eq take_bit_nat_eq_self)
  qed
  have acc: "len div 2 ^ (i + 8) = len div 2 ^ i div 256"
    by (simp add: power_add div_mult2_eq)
  have "len div 2 ^ i div 256 \<le> len div 256" by (rule div_le_mono [OF div_le_dividend])
  moreover have "len div 256 < 2 ^ 56" using assms(2) by (simp add: div_less_iff_less_mult)
  ultimately have "len div 2 ^ i div 256 < 2 ^ 56" by (rule le_less_trans)
  then have "unat (byte_join acc ?b) = 2 ^ 8 * unat acc + unat (ucast ?b :: 64 word)"
    unfolding byte_join_def using assms(1) acc b by (intro unat_push_or_word) simp_all
  with assms(1) acc b show ?thesis by simp
qed

lemma byte_join_all:
  "unat acc = len div 2 ^ (8 * k) \<Longrightarrow> len < 2 ^ 64 \<Longrightarrow>
   unat (foldl byte_join acc (map (\<lambda>j. word_of_nat (drop_bit (8 * j) len AND 0xFF)) (rev [0..<k]))) = len"
proof (induction k arbitrary: acc)
  case (Suc k)
  let ?b = "word_of_nat (drop_bit (8 * k) len AND 0xFF) :: byte"
  have e: "8 * Suc k = 8 * k + 8" by simp
  from Suc.prems(1) have "unat acc = len div 2 ^ (8 * k + 8)" by (simp only: e)
  then have "unat (byte_join acc ?b) = len div 2 ^ (8 * k)"
    using Suc.prems(2) by (rule byte_join_step)
  from Suc.IH [OF this Suc.prems(2)] show ?case by simp
qed simp

lemma bytes_join:
  "len < 2 ^ 64 \<Longrightarrow>
   unat (foldl byte_join 0 (map (\<lambda>i. word_of_nat (drop_bit i len AND 0xFF))
     [56, 48, 40, 32, 24, 16, 8, 0])) = len"
  "len < 65536 \<Longrightarrow>
   unat (foldl byte_join 0 [word_of_nat (drop_bit 8 len AND 0xFF), word_of_nat (len AND 0xFF)]) = len"
  using byte_join_all [of 0 len 8] byte_join_all [of 0 len 2]
  by (simp_all add: upt_conv_Cons)

text \<open>The length byte, with and without the mask bit.\<close>

lemma length_byte_bits:
  fixes b :: byte
  assumes "unat b < 128"
  shows "b AND 0x7F = b" "b AND 0x80 = 0" "(b OR 0x80) AND 0x80 \<noteq> 0" "(b OR 0x80) AND 0x7F = b"
proof -
  have "take_bit 7 b = b"
  proof (rule word_unat_eq_iff [THEN iffD2])
    have "unat (take_bit 7 b) = take_bit 7 (unat b)" by (rule unsigned_take_bit_eq)
    then show "unat (take_bit 7 b) = unat b" using assms by (simp add: take_bit_nat_eq_self)
  qed
  then show b: "b AND 0x7F = b" by (simp add: take_bit_eq_mask mask_numeral)
  have "b AND 0x80 = (b AND 0x7F) AND 0x80" by (simp only: b)
  also have "\<dots> = b AND (0x7F AND 0x80)" by (simp only: and.assoc)
  finally show b0: "b AND 0x80 = 0" by simp
  have "(b OR 0x80) AND 0x80 = (b AND 0x80) OR (0x80 AND 0x80)" by (simp only: bit.conj_disj_distrib2)
  then show "(b OR 0x80) AND 0x80 \<noteq> 0" by (simp add: b0)
  have "(b OR 0x80) AND 0x7F = (b AND 0x7F) OR (0x80 AND 0x7F)" by (simp only: bit.conj_disj_distrib2)
  then show "(b OR 0x80) AND 0x7F = b" by (simp add: b)
qed

text \<open>
  A frame as the standard lays it out: the opcode, the length with the mask bit, the key and the
  payload under the key. A server's frames have no key, a client's always have one.
\<close>

definition ws_frame :: "byte \<Rightarrow> byte list option \<Rightarrow> byte list \<Rightarrow> byte list" where
  "ws_frame op key p =
     (case length_field (length p) of b # bs \<Rightarrow>
        [op, (if key = None then b else b OR 0x80)] @ bs @
        (case key of None \<Rightarrow> p | Some k \<Rightarrow> k @ unmask k p))"

lemma send_frame_layout: "send_frame binary p = ws_frame (if binary then 0x82 else 0x81) None p"
  by (simp add: send_frame_def ws_frame_def length_field_def)

lemma recv_cons_segment:
  "a \<noteq> [] \<Longrightarrow> recv (length a) (cons_segment (a @ b) ss) = (a, cons_segment b ss)"
  by (auto simp: cons_segment_def)

lemma ucast_byte_unat: "unat (ucast (b :: byte) :: 64 word) = unat b"
proof -
  have "unat b < 2 ^ 64" by (rule less_trans [OF unsigned_less]) simp
  then show ?thesis by (simp add: unsigned_ucast_eq take_bit_nat_eq_self)
qed

lemma extended_length_field:
  assumes "length_field len = b # bs" and "len < 2 ^ 64"
  shows "unat b < 128 \<and>
    (\<exists>w. extended_length (ucast b) (cons_segment (bs @ x) ss) = (Some w, cons_segment x ss) \<and>
       unat w = len)"
proof -
  consider "len < 126" | "126 \<le> len" "len < 65536" | "65536 \<le> len" by linarith
  then show ?thesis
  proof cases
    case 1
    with assms(1) have b: "b = word_of_nat len" "bs = []" by (simp_all add: length_field_def)
    have ub: "unat b = len" using 1 b(1) by (simp add: unat_of_nat)
    have "ucast b \<noteq> (126 :: 64 word)" "ucast b \<noteq> (127 :: 64 word)"
      using 1 ub ucast_byte_unat [of b] by auto
    then show ?thesis using 1 b(2) ub by (simp add: extended_length_def ucast_byte_unat)
  next
    case 2
    with assms(1) have b: "b = 126" "length bs = 2"
      "bs = [word_of_nat (drop_bit 8 len AND 0xFF), word_of_nat (len AND 0xFF)]"
      by (auto simp: length_field_def)
    have "bs \<noteq> []" using b(2) by auto
    with recv_cons_segment [of bs x ss] b(2) have "recv 2 (cons_segment (bs @ x) ss) = (bs, cons_segment x ss)"
      by simp
    moreover have "unat (foldl byte_join 0 bs) = len"
      unfolding b(3) using 2(2) by (rule bytes_join(2))
    ultimately show ?thesis using b(1,2) by (simp add: extended_length_def)
  next
    case 3
    with assms(1) have b: "b = 127" "length bs = 8"
      "bs = map (\<lambda>i. word_of_nat (drop_bit i len AND 0xFF)) [56, 48, 40, 32, 24, 16, 8, 0]"
      by (auto simp: length_field_def)
    have "bs \<noteq> []" using b(2) by auto
    with recv_cons_segment [of bs x ss] b(2) have "recv 8 (cons_segment (bs @ x) ss) = (bs, cons_segment x ss)"
      by simp
    moreover have "unat (foldl byte_join 0 bs) = len"
      unfolding b(3) using assms(2) by (rule bytes_join(1))
    ultimately show ?thesis using b(1,2) by (simp add: extended_length_def)
  qed
qed

lemma recv_all_exact: "recv_all (length p) (cons_segment p ss) = (Some p, ss)"
proof (cases "p = []")
  case False
  then have "recv (length p) (cons_segment p ss) = (p, ss)"
    by (simp add: cons_segment_def)
  with False show ?thesis by (simp add: recv_all.simps)
qed (simp add: cons_segment_def recv_all.simps)

lemma recv_data_frame:
  assumes "length p \<le> limit" and "unat w = length p"
    and "extended_length len segs = (Some w, cons_segment (kk @ x) ss)"
    and "kk = (case key of None \<Rightarrow> [] | Some k \<Rightarrow> k)" and "key \<noteq> None \<Longrightarrow> length kk = 4"
    and "x @ concat ss = (case key of None \<Rightarrow> p | Some k \<Rightarrow> unmask k p) @ q" and "[] \<notin> set ss"
  shows "\<exists>r. recv_data limit (key \<noteq> None) len segs = (Inr p, r) \<and> concat r = q \<and>
    (x = (case key of None \<Rightarrow> p | Some k \<Rightarrow> unmask k p) \<longrightarrow> r = ss)"
proof -
  let ?enc = "case key of None \<Rightarrow> p | Some k \<Rightarrow> unmask k p"
  have len: "length ?enc = length p" by (simp split: option.split)
  have "[] \<notin> set (cons_segment x ss)" using assms(7) by (rule cons_segment_nonempty)
  moreover have "concat (cons_segment x ss) = ?enc @ q" using assms(6) by simp
  ultimately obtain r where r: "recv_all (length p) (cons_segment x ss) = (Some ?enc, r)" "concat r = q"
    using recv_all_concat [of "cons_segment x ss" ?enc q] len by auto
  have exact: "x = ?enc \<Longrightarrow> r = ss"
    using recv_all_exact [of ?enc ss] r(1) by (simp add: len)
  show ?thesis
  proof (cases key)
    case None
    with assms r exact show ?thesis by (simp add: recv_data_def read_mask_def)
  next
    case (Some k)
    with assms(4,5) have k: "kk = k" "length k = 4" "k \<noteq> []" by auto
    then have "recv 4 (cons_segment (kk @ x) ss) = (k, cons_segment x ss)"
      using recv_cons_segment [of k x ss] by simp
    with Some assms r k exact show ?thesis by (simp add: recv_data_def read_mask_def unmask_unmask)
  qed
qed

lemma frame_read:
  assumes "op AND 0x0F \<noteq> 8" and "op AND 0x0F \<noteq> 9"
    and "length p \<le> limit" and "length p < 2 ^ 64"
    and "\<And>k. key = Some k \<Longrightarrow> length k = 4"
    and "seg @ concat chunks = ws_frame op key p @ q"
    and "length (ws_frame op key p) \<le> length seg + length p" and "[] \<notin> set chunks"
  shows "\<exists>r. recv_frame limit (seg # chunks) = (Inr p, [], r) \<and> concat r = q \<and>
    (seg = ws_frame op key p \<longrightarrow> r = chunks)"
proof -
  obtain b bs where field: "length_field (length p) = b # bs"
    by (cases "length_field (length p)") (auto simp: length_field_def split: if_splits)
  define b' where "b' = (if key = None then b else b OR 0x80)"
  define kk where "kk = (case key of None \<Rightarrow> [] | Some k \<Rightarrow> k)"
  define enc where "enc = (case key of None \<Rightarrow> p | Some k \<Rightarrow> unmask k p)"
  define hdr where "hdr = [op, b'] @ bs @ kk"
  have l4: "key \<noteq> None \<Longrightarrow> length kk = 4" using assms(5) by (auto simp: kk_def)
  have frame: "ws_frame op key p = hdr @ enc"
    by (cases key) (simp_all add: ws_frame_def field hdr_def b'_def kk_def enc_def)
  have "length enc = length p" by (simp add: enc_def split: option.split)
  with assms(7) frame have le: "length hdr \<le> length seg" by simp
  have eq: "seg @ concat chunks = hdr @ enc @ q" using assms(6) frame by simp
  then have "take (length hdr) (seg @ concat chunks) = hdr" by (simp only: append_take_drop_id) simp
  with le have "take (length hdr) seg = hdr" by simp
  then obtain x where seg1: "seg = hdr @ x" by (metis append_take_drop_id)
  with eq have seg: "seg = hdr @ x" "x @ concat chunks = enc @ q" by simp_all
  obtain w where w: "unat b < 128" "unat w = length p"
    "extended_length (ucast b) (cons_segment (bs @ kk @ x) chunks) = (Some w, cons_segment (kk @ x) chunks)"
    using extended_length_field [OF field assms(4)] by blast
  have bits: "b' AND 0x7F = b" "(b' AND 0x80 \<noteq> 0) = (key \<noteq> None)"
    using length_byte_bits [OF w(1)] by (simp_all add: b'_def)
  have first: "recv 2 (seg # chunks) = ([op, b'], cons_segment (bs @ kk @ x) chunks)"
    using recv_prefix [of 2 "[op, b']" "bs @ kk @ x" chunks] by (simp add: seg(1) hdr_def)
  obtain r where "recv_data limit (key \<noteq> None) (ucast b) (cons_segment (bs @ kk @ x) chunks) = (Inr p, r)"
    "concat r = q" "x = enc \<Longrightarrow> r = chunks"
    using recv_data_frame [OF assms(3) w(2,3) kk_def l4 seg(2) [unfolded enc_def] assms(8)] unfolding enc_def by blast
  with first bits assms(1,2) seg(1) frame show ?thesis
    by (subst recv_frame.simps) simp
qed

interpretation server_frames: codec "\<lambda>p. [send_frame False p]"
  "\<lambda>segs. case recv_frame (2 ^ 63 - 1) segs of (Inr p, _, _) \<Rightarrow> Some p | _ \<Rightarrow> None"
  "\<lambda>p. length p < 2 ^ 63"
proof
  fix p :: "byte list"
  assume len: "length p < 2 ^ 63"
  have "\<exists>r. recv_frame (2 ^ 63 - 1) [send_frame False p] = (Inr p, [], r) \<and> concat r = []"
    unfolding send_frame_layout using len
    using frame_read [where op = "0x81" and p = p and key = None and seg = "ws_frame 0x81 None p"
        and chunks = "[]" and q = "[]" and limit = "2 ^ 63 - 1"] by (auto simp: le_add1)
  then show "(case recv_frame (2 ^ 63 - 1) [send_frame False p] of (Inr p, _, _) \<Rightarrow> Some p | _ \<Rightarrow> None) =
      Some p" by auto
qed

text \<open>
  C17: Frames are read as they are written. A data frame whose header arrives in one piece, its
  payload in any number of pieces, is returned as the payload it was made from, whatever its
  length and whether it has a key, nothing is sent meanwhile, and what follows it stays on the
  socket.
\<close>

theorem frame_roundtrip:
  assumes "op AND 0x0F \<noteq> 8" and "op AND 0x0F \<noteq> 9"
    and "length p \<le> limit" and "length p < 2 ^ 64"
    and "\<And>k. key = Some k \<Longrightarrow> length k = 4"
    and "seg @ concat chunks = ws_frame op key p @ q"
    and "length (ws_frame op key p) \<le> length seg + length p" and "[] \<notin> set chunks"
  shows "\<exists>r. recv_frame limit (seg # chunks) = (Inr p, [], r) \<and> concat r = q"
  using frame_read [OF assms] by blast

lemma frame_roundtrip_witness:
  "\<exists>r. recv_frame 100 [[0x81, 0x82, 1, 2, 3, 4, 73], [74, 0x89]] = (Inr [72, 72], [], r) \<and>
     concat r = [0x89]"
proof -
  have frame: "ws_frame 0x81 (Some [1, 2, 3, 4]) [72, 72] = [0x81, 0x82, 1, 2, 3, 4, 73, 74]"
    by (simp add: ws_frame_def length_field_def unmask_def upt_conv_Cons)
  show ?thesis
    using frame_roundtrip [of "0x81" "[72, 72]" 100 "Some [1, 2, 3, 4]" "[0x81, 0x82, 1, 2, 3, 4, 73]"
        "[[74, 0x89]]" "[0x89]"]
    by (simp add: frame)
qed

section \<open>Control frames\<close>

lemma recv_short_header:
  assumes "length_field (length p) = [b]"
  shows "recv 2 [ws_frame op key p @ q] =
    ([op, if key = None then b else b OR 0x80],
     cons_segment ((case key of None \<Rightarrow> p | Some k \<Rightarrow> k @ unmask k p) @ q) [])"
proof -
  let ?body = "(case key of None \<Rightarrow> p | Some k \<Rightarrow> k @ unmask k p) @ q"
  have "ws_frame op key p @ q = [op, if key = None then b else b OR 0x80] @ ?body"
    using assms by (simp add: ws_frame_def)
  then show ?thesis
    using recv_prefix [of 2 "[op, if key = None then b else b OR 0x80]" ?body "[]"] by simp
qed

lemma recv_take: "length x \<le> length y \<Longrightarrow> recv (length x) (cons_segment y []) =
    (take (length x) y, cons_segment (drop (length x) y) [])"
  by (auto simp: cons_segment_def)

lemma recv_ping:
  assumes "length p < 126" and "body = (case key of None \<Rightarrow> p | Some k \<Rightarrow> k @ unmask k p)"
  shows "recv_frame limit [ws_frame 0x89 key p @ q] =
    (case recv_frame limit (cons_segment (drop (length p) body @ q) []) of
       (res, sent, r) \<Rightarrow> (res, pong_frame (length p) (take (length p) body) # sent, r))"
proof -
  let ?b = "word_of_nat (length p) :: byte"
  have ub: "unat ?b = length p" using assms(1) by (simp add: unat_of_nat)
  have field: "length_field (length p) = [?b]" using assms(1) by (simp add: length_field_def)
  have bits: "(if key = None then ?b else ?b OR 0x80) AND 0x7F = ?b"
    using length_byte_bits(1,4) [of ?b] assms(1) ub by simp
  have "length p \<le> length (body @ q)" by (simp add: assms(2) split: option.split)
  from recv_take [OF this]
  have second: "recv (length p) (cons_segment (body @ q) []) =
      (take (length p) body, cons_segment (drop (length p) body @ q) [])"
    by (simp add: assms(2) split: option.split)
  show ?thesis
    using recv_short_header [OF field, of "0x89" key q] second bits ub
    by (subst recv_frame.simps) (simp add: assms(2))
qed

text \<open>
  Pings. A ping without a key is answered with its own payload, and reading goes on after
  it. The key that every client's ping carries is not read: the answer consists of the key and
  the masked payload, cut to the payload's length, and the last four bytes of the ping are
  taken for the beginning of the next frame.
\<close>

theorem ping_key_not_read:
  assumes "length p < 126" and "length k = 4"
  shows "recv_frame limit [ws_frame 0x89 None p @ q] =
      (case recv_frame limit (cons_segment q []) of
         (res, sent, r) \<Rightarrow> (res, pong_frame (length p) p # sent, r)) \<and>
    (\<exists>front tail. k @ unmask k p = front @ tail \<and> length front = length p \<and> length tail = 4 \<and>
       recv_frame limit [ws_frame 0x89 (Some k) p @ q] =
         (case recv_frame limit (cons_segment (tail @ q) []) of
            (res, sent, r) \<Rightarrow> (res, pong_frame (length p) front # sent, r)))"
proof
  show "recv_frame limit [ws_frame 0x89 None p @ q] =
      (case recv_frame limit (cons_segment q []) of
         (res, sent, r) \<Rightarrow> (res, pong_frame (length p) p # sent, r))"
    using recv_ping [OF assms(1), of p None] by simp
  show "\<exists>front tail. k @ unmask k p = front @ tail \<and> length front = length p \<and> length tail = 4 \<and>
       recv_frame limit [ws_frame 0x89 (Some k) p @ q] =
         (case recv_frame limit (cons_segment (tail @ q) []) of
            (res, sent, r) \<Rightarrow> (res, pong_frame (length p) front # sent, r))"
    using recv_ping [OF assms(1), of "k @ unmask k p" "Some k"] assms(2)
    by (intro exI [of _ "take (length p) (k @ unmask k p)"] exI [of _ "drop (length p) (k @ unmask k p)"])
      (simp only: append_take_drop_id option.case length_drop length_append unmask_length, simp)
qed

lemma ping_key_not_read_witness:
  "recv_frame 100 [ws_frame 0x89 (Some [0x81, 0x01, 65, 66]) [] @ []] =
     (Inr [65], [[0x8A, 0]], [[66]])"
proof -
  have "recv_frame 100 [[0x81, 0x01, 65, 66]] = (Inr [65], [], [[66]])"
    by (simp add: recv_frame.simps recv_data_def extended_length_def read_mask_def recv_all.simps)
  then show ?thesis
    using ping_key_not_read [of "[]" "[0x81, 0x01, 65, 66]" 100 "[]"]
    by (auto simp: cons_segment_def pong_frame_def unmask_def)
qed

text \<open>The length in a frame's header is believed: a header of at most ten bytes that announces
  more than a string can hold makes the read throw, before any payload arrives.\<close>

lemma oversized_frame_throws:
  assumes "op AND 0x0F \<noteq> 8" and "op AND 0x0F \<noteq> 9" and "limit < len" and "len < 2 ^ 64"
  shows "fst (recv_frame limit [op # length_field len]) = Inl Length_Error \<and>
    length (op # length_field len) \<le> 10"
proof
  obtain b bs where field: "length_field len = b # bs"
    by (cases "length_field len") (auto simp: length_field_def split: if_splits)
  obtain w where w: "unat b < 128" "unat w = len"
    "extended_length (ucast b) (cons_segment bs []) = (Some w, [])"
    using extended_length_field [OF field assms(4), of "[]" "[]"] by (auto simp: cons_segment_def)
  have "recv 2 [op # length_field len] = ([op, b], cons_segment bs [])"
    using recv_prefix [of 2 "[op, b]" bs "[]"] by (simp add: field)
  then show "fst (recv_frame limit [op # length_field len]) = Inl Length_Error"
    using w assms length_byte_bits [OF w(1)]
    by (subst recv_frame.simps) (simp add: recv_data_def read_mask_def)
  show "length (op # length_field len) \<le> 10" by (simp add: length_field_def)
qed

section \<open>Progress\<close>

lemma recv_all_total:
  "recv_all n segs = (x, r) \<Longrightarrow> total_length r \<le> total_length segs"
proof (induction n segs arbitrary: x r rule: recv_all.induct)
  case (1 n segs)
  show ?case
  proof (cases "n = 0")
    case False
    obtain d r1 where d: "recv n segs = (d, r1)" by (cases "recv n segs")
    note t = recv_total [OF d]
    show ?thesis
    proof (cases "d = []")
      case True
      with "1.prems" False d t show ?thesis by (simp add: recv_all.simps [of n segs])
    next
      case ne: False
      obtain y r2 where y: "recv_all (n - length d) r1 = (y, r2)" by (cases "recv_all (n - length d) r1")
      from "1.IH" [OF False d [symmetric] ne y] have "total_length r2 \<le> total_length r1" .
      with "1.prems" False d ne y t show ?thesis
        by (simp add: recv_all.simps [of n segs] split: option.splits)
    qed
  qed (use "1.prems" in \<open>simp add: recv_all.simps\<close>)
qed

lemma extended_length_total:
  "extended_length len segs = (x, r) \<Longrightarrow> total_length r \<le> total_length segs"
  by (auto simp: extended_length_def split: if_splits prod.splits dest!: recv_total)

lemma read_mask_total: "read_mask m segs = (x, r) \<Longrightarrow> total_length r \<le> total_length segs"
  by (auto simp: read_mask_def split: if_splits prod.splits dest!: recv_total)

lemma recv_data_total:
  "recv_data limit m len segs = (x, r) \<Longrightarrow> total_length r \<le> total_length segs"
  by (auto simp: recv_data_def split: if_splits prod.splits option.splits
      dest!: extended_length_total read_mask_total recv_all_total)

text \<open>A frame that is not empty has used up part of what the socket delivers.\<close>

lemma recv_frame_total:
  "recv_frame limit segs = (res, sent, r) \<Longrightarrow>
   total_length r \<le> total_length segs \<and> (res \<noteq> Inr [] \<longrightarrow> total_length r < total_length segs)"
proof (induction limit segs arbitrary: res sent r rule: recv_frame.induct)
  case (1 limit segs)
  obtain h r0 where h: "recv 2 segs = (h, r0)" by (cases "recv 2 segs")
  note t0 = recv_total [OF h]
  show ?case
  proof (cases "length h < 2")
    case True
    with "1.prems" h t0 show ?thesis by (simp add: recv_frame.simps [of limit segs])
  next
    case len: False
    show ?thesis
    proof (cases "h ! 0 AND 0x0F = 0x09")
      case True
      obtain p r1 where p: "recv (unat (h ! 1 AND 0x7F)) r0 = (p, r1)"
        by (cases "recv (unat (h ! 1 AND 0x7F)) r0")
      note t1 = recv_total [OF p]
      obtain res' sent' r2 where rec: "recv_frame limit r1 = (res', sent', r2)"
        by (cases "recv_frame limit r1") auto
      have n8: "h ! 0 AND 0x0F \<noteq> 0x08" using True by simp
      from "1.IH" [OF h [symmetric] len refl refl refl n8 True p [symmetric] rec]
      have "total_length r2 \<le> total_length r1" by blast
      then have "total_length r2 < total_length segs" using t0 t1 len by linarith
      moreover have "r2 = r" using "1.prems" h len True n8 p rec
        by (simp add: recv_frame.simps [of limit segs] Let_def)
      ultimately show ?thesis by simp
    next
      case no_ping: False
      show ?thesis
      proof (cases "h ! 0 AND 0x0F = 0x08")
        case True
        with "1.prems" h len t0 show ?thesis by (simp add: recv_frame.simps [of limit segs] Let_def)
      next
        case False
        obtain x r1 where x: "recv_data limit (h ! 1 AND 0x80 \<noteq> 0) (ucast (h ! 1 AND 0x7F)) r0 = (x, r1)"
          by (cases "recv_data limit (h ! 1 AND 0x80 \<noteq> 0) (ucast (h ! 1 AND 0x7F)) r0")
        from recv_data_total [OF x] t0 len have "total_length r1 < total_length segs" by linarith
        moreover have "r1 = r" using "1.prems" h len False no_ping x
          by (simp add: recv_frame.simps [of limit segs] Let_def)
        ultimately show ?thesis by simp
      qed
    qed
  qed
qed

end
