(* ===== verification/Bridge.thy ===== *)
theory Bridge
  imports Websocket Base64 Json_Sample
begin

text \<open>
  \<open>BridgeServer\<close> of \<open>src/bridge/bridge_server.h\<close> and \<open>bridge_server.cpp\<close>: one HTTP request per
  connection (\<open>handle_client\<close>), the WebSocket message loop (\<open>handle_websocket\<close>) and the table of
  connected clients. Connections are handled one after the other, as \<open>accept_loop\<close> does; the
  functions return what was sent and the exception, if one leaves them: nothing above catches
  it, so it ends the process. The mutex protects single accesses to the table and is not
  modelled; creating, binding and polling sockets belongs to the operating system.

  SHA-1 (OpenSSL), the message handler of the embedding program, drawing identifiers, the text
  of exceptions and the clock are inputs.
\<close>

record bridge_client =
  bc_id :: string
  bc_name :: string
  bc_version :: string
  bc_session_id :: string
  bc_connected_at :: nat
  bc_fd :: int
  bc_websocket :: bool

record bridge_message =
  bg_id :: string
  bg_method :: string
  bg_data :: string

definition no_client :: bridge_client where
  "no_client = \<lparr>bc_id = [], bc_name = [], bc_version = [], bc_session_id = [], bc_connected_at = 0,
     bc_fd = - 1, bc_websocket = False\<rparr>"

record 'w bridge_env =
  be_handler :: "(bridge_client \<Rightarrow> bridge_message \<Rightarrow> 'w \<Rightarrow> (cpp_exn + unit) \<times> 'w) option"
  be_uuid :: "nat \<Rightarrow> string"
  be_now :: nat
  be_what :: "cpp_exn \<Rightarrow> string"
  be_sha1 :: "string \<Rightarrow> string"
  be_limit :: nat
  be_fd :: int
  be_upgrade_sent :: bool

type_synonym 'w bridge_state = "bridge_client omap \<times> 'w"

section \<open>Reading a request\<close>

definition chars :: "byte list \<Rightarrow> string" where
  "chars bs = map (\<lambda>b. char_of (unat b)) bs"

text \<open>\<open>request.append(buf)\<close> takes the buffer for a C string: it ends at the first null byte.\<close>

definition c_string :: "string \<Rightarrow> string" where
  "c_string s = takeWhile (\<lambda>c. c \<noteq> CHR 0x00) s"

function read_headers :: "segments \<Rightarrow> string \<Rightarrow> string \<times> segments" where
  "read_headers segs request =
     (case recv 4095 segs of (d, r) \<Rightarrow>
        if d = [] then (request, r)
        else let request' = request @ c_string (chars d)
             in if contains_str request' (crlf @ crlf) then (request', r)
                else read_headers r request')"
  by pat_completeness auto
termination
proof (relation "measure (\<lambda>(segs, request). total_length segs)")
  fix segs :: segments and request d r x
  assume "(d, r) = recv 4095 segs" and "d \<noteq> []"
  then have "total_length segs = length d + total_length r" "0 < length d"
    using recv_total by (metis, simp)
  then show "((r, x), segs, request) \<in> measure (\<lambda>(segs, request). total_length segs)" by simp
qed simp

declare read_headers.simps [simp del]

function read_body :: "segments \<Rightarrow> int \<Rightarrow> string \<Rightarrow> string \<times> segments" where
  "read_body segs content_length body =
     (if int (length body) < content_length
      then (case recv 4095 segs of (d, r) \<Rightarrow>
        if d = [] then (body, r)
        else read_body r content_length (body @ c_string (chars d)))
      else (body, segs))"
  by pat_completeness auto
termination
proof (relation "measure (\<lambda>(segs, n, body). total_length segs)")
  fix segs :: segments and n :: int and body d r x
  assume "(d, r) = recv 4095 segs" and "d \<noteq> []"
  then have "total_length segs = length d + total_length r" "0 < length d"
    using recv_total by (metis, simp)
  then show "((r, n, x), segs, n, body) \<in> measure (\<lambda>(segs, n, body). total_length segs)" by simp
qed simp

declare read_body.simps [simp del]

definition is_blank :: "char \<Rightarrow> bool" where
  "is_blank c = (c = CHR '' '' \<or> c = CHR 0x09)"

text \<open>The rest of a header line after \<open>skip\<close> characters from \<open>pos\<close>; without an end, or with an end
  before that, everything (\<open>substr\<close> with a count that has wrapped around).\<close>

definition header_value :: "string \<Rightarrow> nat \<Rightarrow> nat \<Rightarrow> string" where
  "header_value headers pos skip =
     (let rest = drop (pos + skip) headers
      in case find_from headers crlf pos of
           None \<Rightarrow> rest
         | Some e \<Rightarrow> if e < pos + skip then rest else take (e - pos - skip) rest)"

definition content_length_of :: "string \<Rightarrow> int" where
  "content_length_of headers =
     (case (case str_find ''Content-Length:'' headers of
              None \<Rightarrow> str_find ''content-length:'' headers | Some p \<Rightarrow> Some p) of
        None \<Rightarrow> 0
      | Some pos \<Rightarrow>
          (let v = dropWhile is_blank (header_value headers pos 15);
               v' = rev (dropWhile is_blank (rev v))
           in case stoi v' of Inl _ \<Rightarrow> 0 | Inr n \<Rightarrow> n))"

text \<open>Method and path, both empty unless the first line has two blanks.\<close>

definition request_line :: "string \<Rightarrow> string \<times> string" where
  "request_line request =
     (let first_line = (case str_find crlf request of None \<Rightarrow> request | Some n \<Rightarrow> take n request)
      in case str_find '' '' first_line of
           None \<Rightarrow> ([], [])
         | Some space1 \<Rightarrow>
             (case find_from first_line '' '' (space1 + 1) of
                None \<Rightarrow> ([], [])
              | Some space2 \<Rightarrow>
                  (take space1 first_line, take (space2 - space1 - 1) (drop (space1 + 1) first_line))))"

section \<open>Routes\<close>

definition status_object :: "('j, 'z) jlib_scheme \<Rightarrow> string \<Rightarrow> string \<Rightarrow> 'j" where
  "status_object J k v = j_set J k (j_string J v) (j_null J)"

text \<open>A \<open>try\<close> block around a route: any exception is answered with status 400.\<close>

definition answer ::
  "('j, 'z) jlib_scheme \<Rightarrow> 'w bridge_env \<Rightarrow> (cpp_exn + (nat \<times> 'j)) \<times> 'w bridge_state \<Rightarrow>
   (nat \<times> 'j) \<times> 'w bridge_state" where
  "answer J e r =
     (case fst r of
        Inl x \<Rightarrow> ((400, status_object J ''error'' (be_what e x)), snd r)
      | Inr a \<Rightarrow> (a, snd r))"

definition parse_body :: "('j, 'z) jlib_scheme \<Rightarrow> string \<Rightarrow> cpp_exn + 'j" where
  "parse_body J body = (case j_parse J body of Inl w \<Rightarrow> Inl (Json_Parse_Error w) | Inr j \<Rightarrow> Inr j)"

definition route_connect ::
  "('j, 'z) jlib_scheme \<Rightarrow> 'w bridge_env \<Rightarrow> string \<Rightarrow> 'w bridge_state \<Rightarrow>
   (cpp_exn + (nat \<times> 'j)) \<times> 'w bridge_state" where
  "route_connect J e body st =
     (case bind_exn (parse_body J body) (\<lambda>j.
           bind_exn (str_value J j ''name'' ''unknown'') (\<lambda>name.
           bind_exn (str_value J j ''version'' ''0.0.0'') (\<lambda>version.
           bind_exn (str_value J j ''session_id'' []) (\<lambda>session_id.
             Inr (no_client\<lparr>bc_id := be_uuid e 0, bc_name := name, bc_version := version,
                    bc_session_id := session_id, bc_connected_at := be_now e\<rparr>))))) of
        Inl x \<Rightarrow> (Inl x, st)
      | Inr client \<Rightarrow>
          (Inr (200, j_set J ''status'' (j_string J ''connected'')
                  (status_object J ''client_id'' (bc_id client))),
           (om_put (bc_id client) client (fst st), snd st)))"

definition route_disconnect ::
  "('j, 'z) jlib_scheme \<Rightarrow> string \<Rightarrow> 'w bridge_state \<Rightarrow> (cpp_exn + (nat \<times> 'j)) \<times> 'w bridge_state" where
  "route_disconnect J body st =
     (case bind_exn (parse_body J body) (\<lambda>j. str_value J j ''client_id'' []) of
        Inl x \<Rightarrow> (Inl x, st)
      | Inr client_id \<Rightarrow>
          (Inr (200, status_object J ''status'' ''disconnected''), (om_del client_id (fst st), snd st)))"

definition read_message ::
  "('j, 'z) jlib_scheme \<Rightarrow> string \<Rightarrow> 'j \<Rightarrow> cpp_exn + bridge_message" where
  "read_message J uuid j =
     bind_exn (str_value J j ''id'' uuid) (\<lambda>id.
     bind_exn (str_value J j ''method'' []) (\<lambda>method.
     bind_exn (str_value J j ''data'' []) (\<lambda>data.
       Inr \<lparr>bg_id = id, bg_method = method, bg_data = data\<rparr>)))"

definition route_message ::
  "('j, 'z) jlib_scheme \<Rightarrow> 'w bridge_env \<Rightarrow> string \<Rightarrow> 'w bridge_state \<Rightarrow>
   (cpp_exn + (nat \<times> 'j)) \<times> 'w bridge_state" where
  "route_message J e body st =
     (case bind_exn (parse_body J body) (\<lambda>j.
           bind_exn (read_message J (be_uuid e 0) j) (\<lambda>msg.
           bind_exn (str_value J j ''client_id'' []) (\<lambda>client_id. Inr (msg, client_id)))) of
        Inl x \<Rightarrow> (Inl x, st)
      | Inr (msg, client_id) \<Rightarrow>
          (case (om_get (fst st) client_id, be_handler e) of
             (Some client, Some handler) \<Rightarrow>
               (case handler client msg (snd st) of
                  (Inl x, w) \<Rightarrow> (Inl x, (fst st, w))
                | (Inr _, w) \<Rightarrow> (Inr (200, status_object J ''status'' ''ok''), (fst st, w)))
           | _ \<Rightarrow> (Inr (404, status_object J ''error'' ''Client not found or no handler''), st)))"

definition route ::
  "('j, 'z) jlib_scheme \<Rightarrow> 'w bridge_env \<Rightarrow> string \<Rightarrow> string \<Rightarrow> string \<Rightarrow> 'w bridge_state \<Rightarrow>
   (nat \<times> 'j) \<times> 'w bridge_state" where
  "route J e method path body st =
     (if path = ''/health'' \<or> path = ''/''
      then ((200, j_set J ''connections'' (j_int J (int (length (fst st))))
                   (j_set J ''version'' (j_string J ''0.1.0'') (status_object J ''status'' ''ok''))), st)
      else if path = ''/connect'' \<and> method = ''POST'' then answer J e (route_connect J e body st)
      else if path = ''/disconnect'' \<and> method = ''POST'' then answer J e (route_disconnect J body st)
      else if path = ''/message'' \<and> method = ''POST'' then answer J e (route_message J e body st)
      else if path = ''/sessions''
      then ((200, j_set J ''sessions'' (j_array J []) (j_null J)), st)
      else ((404, status_object J ''error'' ''Not found''), st))"

definition http_response :: "nat \<Rightarrow> string \<Rightarrow> string" where
  "http_response status body =
     ''HTTP/1.1 '' @ nat_to_string status @ '' '' @ (if status = 200 then ''OK'' else ''Error'') @ crlf @
     ''Content-Type: application/json'' @ crlf @
     ''Content-Length: '' @ nat_to_string (length body) @ crlf @
     ''Access-Control-Allow-Origin: *'' @ crlf @
     ''Access-Control-Allow-Methods: GET, POST, OPTIONS'' @ crlf @
     ''Access-Control-Allow-Headers: Content-Type'' @ crlf @ crlf @ body"

section \<open>The message loop of a WebSocket\<close>

definition accept_guid :: string where
  "accept_guid = ''258EAFA5-E914-47DA-95CA-C5AB0DC85B11''"

definition websocket_accept_key :: "'w bridge_env \<Rightarrow> string \<Rightarrow> string" where
  "websocket_accept_key e client_key = encode_base64 (be_sha1 e (client_key @ accept_guid))"

definition bytes_of :: "string \<Rightarrow> byte list" where
  "bytes_of s = map (\<lambda>c. word_of_nat (of_char c)) s"

definition upgrade_response :: "'w bridge_env \<Rightarrow> string \<Rightarrow> string" where
  "upgrade_response e sec_key =
     ''HTTP/1.1 101 Switching Protocols'' @ crlf @ ''Upgrade: websocket'' @ crlf @
     ''Connection: Upgrade'' @ crlf @
     ''Sec-WebSocket-Accept: '' @ websocket_accept_key e sec_key @ crlf @ crlf"

definition pong_text :: string where
  "pong_text = ''{'' @ [CHR 0x22] @ ''type'' @ [CHR 0x22] @ '':'' @ [CHR 0x22] @ ''pong'' @
     [CHR 0x22] @ ''}''"

text \<open>
  One frame of text: the frames sent in answer, and the handler's effect. An exception, from the
  parser, the accessors or the handler, is logged and answered with nothing.
\<close>

definition handle_text ::
  "('j, 'z) jlib_scheme \<Rightarrow> 'w bridge_env \<Rightarrow> string \<Rightarrow> string \<Rightarrow> string \<Rightarrow> 'w bridge_state \<Rightarrow>
   byte list list \<times> 'w bridge_state" where
  "handle_text J e client_id uuid frame st =
     (case bind_exn (parse_body J frame) (read_message J uuid) of
        Inl x \<Rightarrow> ([], st)
      | Inr msg \<Rightarrow>
          if bg_method msg = ''ping'' then ([send_frame False (bytes_of pong_text)], st)
          else
            let ack = send_frame False (bytes_of (j_dump J
                  (j_set J ''id'' (j_string J (bg_id msg)) (status_object J ''type'' ''ack''))))
            in (case (if bg_method msg \<noteq> [] then be_handler e else None) of
                  None \<Rightarrow> ([ack], st)
                | Some handler \<Rightarrow>
                    (case handler (case om_get (fst st) client_id of None \<Rightarrow> no_client | Some c \<Rightarrow> c)
                            msg (snd st) of
                       (Inl x, w) \<Rightarrow> ([], (fst st, w))
                     | (Inr _, w) \<Rightarrow> ([ack], (fst st, w)))))"

text \<open>\<open>n\<close> counts the identifiers drawn. The loop ends with a frame that is empty.\<close>

function websocket_loop ::
  "('j, 'z) jlib_scheme \<Rightarrow> 'w bridge_env \<Rightarrow> string \<Rightarrow> nat \<Rightarrow> segments \<Rightarrow> 'w bridge_state \<Rightarrow>
   (cpp_exn + unit) \<times> byte list list \<times> 'w bridge_state" where
  "websocket_loop J e client_id n segs st =
     (case recv_frame (be_limit e) segs of
        (Inl x, sent, r) \<Rightarrow> (Inl x, sent, st)
      | (Inr frame, sent, r) \<Rightarrow>
          if frame = [] then (Inr (), sent, st)
          else (case handle_text J e client_id (be_uuid e n) (chars frame) st of
              (out, st1) \<Rightarrow>
                (case websocket_loop J e client_id (Suc n) r st1 of
                   (res, out', st2) \<Rightarrow> (res, sent @ out @ out', st2))))"
  by pat_completeness auto
termination
proof (relation "measure (\<lambda>(J, e, c, n, segs, st). total_length segs)")
qed (auto dest!: recv_frame_total [OF sym])

declare websocket_loop.simps [simp del]

text \<open>The upgrade, the registration of the client, the loop, and its removal, which an exception
  from the loop skips.\<close>

definition handle_websocket ::
  "('j, 'z) jlib_scheme \<Rightarrow> 'w bridge_env \<Rightarrow> string \<Rightarrow> segments \<Rightarrow> 'w bridge_state \<Rightarrow>
   (cpp_exn + unit) \<times> byte list list \<times> 'w bridge_state" where
  "handle_websocket J e sec_key segs st =
     (if \<not> be_upgrade_sent e then (Inr (), [], st)
      else
        let upgrade = bytes_of (upgrade_response e sec_key);
            client_id = be_uuid e 0;
            client = no_client\<lparr>bc_id := client_id, bc_name := ''websocket'', bc_version := ''ws'',
                        bc_connected_at := be_now e, bc_fd := be_fd e, bc_websocket := True\<rparr>
        in (case websocket_loop J e client_id 1 segs (om_put client_id client (fst st), snd st) of
              (Inl x, out, st1) \<Rightarrow> (Inl x, upgrade # out, st1)
            | (Inr _, out, st1) \<Rightarrow> (Inr (), upgrade # out, (om_del client_id (fst st1), snd st1))))"

section \<open>A connection\<close>

text \<open>
  The key's value is taken 19 characters after the header's start; \<open>substr\<close> throws when that is
  beyond the end of the headers.
\<close>

definition upgrade_key :: "string \<Rightarrow> cpp_exn + string option" where
  "upgrade_key headers =
     (case (str_find ''Upgrade:'' headers, str_find ''Sec-WebSocket-Key:'' headers) of
        (Some _, Some pos) \<Rightarrow>
          if pos + 19 > length headers then Inl Out_Of_Range
          else Inr (Some (rev (dropWhile (\<lambda>c. c = CHR 0x0D \<or> c = CHR '' '')
                 (rev (header_value headers pos 19)))))
      | _ \<Rightarrow> Inr None)"

definition handle_client ::
  "('j, 'z) jlib_scheme \<Rightarrow> 'w bridge_env \<Rightarrow> segments \<Rightarrow> 'w bridge_state \<Rightarrow>
   (cpp_exn + unit) \<times> byte list list \<times> 'w bridge_state" where
  "handle_client J e segs st =
     (case read_headers segs [] of (request, r) \<Rightarrow>
        case str_find (crlf @ crlf) request of
          None \<Rightarrow> (Inr (), [], st)
        | Some header_end \<Rightarrow>
            let headers = take header_end request
            in (case read_body r (content_length_of headers) (drop (header_end + 4) request) of
                  (body, r1) \<Rightarrow>
                (case request_line request of (method, path) \<Rightarrow>
                (case route J e method path body st of
                   ((status, response), st1) \<Rightarrow>
                  case dump_json J response of
                    Inl x \<Rightarrow> (Inl x, [], st1)
                  | Inr body_text \<Rightarrow>
                  let sent = bytes_of (http_response status body_text)
                  in if path = ''/ws'' \<and> method = ''GET''
                     then (case upgrade_key headers of
                         Inl x \<Rightarrow> (Inl x, [sent], st1)
                       | Inr None \<Rightarrow> (Inr (), [sent], st1)
                       | Inr (Some key) \<Rightarrow>
                           (case handle_websocket J e key r1 st1 of
                              (res, out, st2) \<Rightarrow> (res, sent # out, st2)))
                     else (Inr (), [sent], st1)))))"

text \<open>
  \<open>accept_loop\<close>: the connections one after the other; an exception ends the process.
\<close>

fun accept_connections ::
  "('j, 'z) jlib_scheme \<Rightarrow> ('w bridge_env \<times> segments) list \<Rightarrow> 'w bridge_state \<Rightarrow>
   (cpp_exn + unit) \<times> byte list list list \<times> 'w bridge_state" where
  "accept_connections J [] st = (Inr (), [], st)"
| "accept_connections J ((e, segs) # cs) st =
     (case handle_client J e segs st of
        (Inl x, out, st1) \<Rightarrow> (Inl x, [out], st1)
      | (Inr _, out, st1) \<Rightarrow>
          (case accept_connections J cs st1 of (res, outs, st2) \<Rightarrow> (res, out # outs, st2)))"

text \<open>\<open>clients\<close>, and \<open>broadcast\<close> and \<open>send\<close>, which build or look at nothing that leaves the
  server.\<close>

definition bridge_clients :: "'w bridge_state \<Rightarrow> bridge_client list" where
  "bridge_clients st = om_vals (fst st)"

definition connection_url :: "nat \<Rightarrow> string" where
  "connection_url port = ''http://localhost:'' @ nat_to_string port"

section \<open>Text frames are handled in order\<close>

text \<open>The specification of the loop on complete messages: each one handled after the other.\<close>

fun handle_texts ::
  "('j, 'z) jlib_scheme \<Rightarrow> 'w bridge_env \<Rightarrow> string \<Rightarrow> nat \<Rightarrow> byte list list \<Rightarrow> 'w bridge_state \<Rightarrow>
   byte list list \<times> 'w bridge_state" where
  "handle_texts J e client_id n [] st = ([], st)"
| "handle_texts J e client_id n (p # ps) st =
     (case handle_text J e client_id (be_uuid e n) (chars p) st of
        (out, st1) \<Rightarrow>
          (case handle_texts J e client_id (Suc n) ps st1 of (out', st2) \<Rightarrow> (out @ out', st2)))"

lemma frame_read_whole:
  assumes "length p \<le> limit" and "length p < 2 ^ 64" and "length k = 4" and "[] \<notin> set chunks"
  shows "recv_frame limit (ws_frame 0x81 (Some k) p # chunks) = (Inr p, [], chunks)"
  using frame_read [where op = "0x81" and p = p and key = "Some k" and seg = "ws_frame 0x81 (Some k) p"
      and chunks = chunks and q = "concat chunks" and limit = limit] assms by auto

lemma ws_frame_nonempty [simp]: "ws_frame op key p \<noteq> []" "[] \<noteq> ws_frame op key p"
  by (simp_all add: ws_frame_def length_field_def)

lemma websocket_loop_texts:
  "\<forall>(k, p)\<in>set fs. length k = 4 \<and> p \<noteq> [] \<and> length p \<le> be_limit e \<and> length p < 2 ^ 64 \<Longrightarrow>
   websocket_loop J e c n (map (\<lambda>(k, p). ws_frame 0x81 (Some k) p) fs) st =
     (case handle_texts J e c n (map snd fs) st of (out, st') \<Rightarrow> (Inr (), out, st'))"
proof (induction fs arbitrary: n st)
  case Nil
  have "recv_frame (be_limit e) [] = (Inr [], [], [])" by (simp add: recv_frame.simps)
  then show ?case by (simp add: websocket_loop.simps)
next
  case (Cons f fs)
  obtain k p where f: "f = (k, p)" by (cases f)
  let ?rest = "map (\<lambda>(k, p). ws_frame 0x81 (Some k) p) fs"
  have "recv_frame (be_limit e) (ws_frame 0x81 (Some k) p # ?rest) = (Inr p, [], ?rest)"
    using Cons.prems f by (intro frame_read_whole) auto
  moreover have "p \<noteq> []" using Cons.prems f by simp
  moreover have "websocket_loop J e c (Suc n) ?rest st1 =
      (case handle_texts J e c (Suc n) (map snd fs) st1 of (out, st') \<Rightarrow> (Inr (), out, st'))" for st1
    using Cons.IH Cons.prems by simp
  ultimately show ?case
    by (simp add: f websocket_loop.simps [of J e c n "ws_frame 0x81 (Some k) p # ?rest"]
        split: prod.split)
qed

text \<open>
  C25: A WebSocket client that sends complete text frames, none of them empty, has each message
  handled once and in order, with the effects and answers of handling them one after the other;
  the loop ends when the connection does.
\<close>

theorem websocket_messages_in_order:
  assumes "\<forall>(k, p)\<in>set fs. length k = 4 \<and> p \<noteq> [] \<and> length p \<le> be_limit e \<and> length p < 2 ^ 64"
  shows "websocket_loop J e c n (map (\<lambda>(k, p). ws_frame 0x81 (Some k) p) fs) st =
     (case handle_texts J e c n (map snd fs) st of (out, st') \<Rightarrow> (Inr (), out, st'))"
  using assms by (rule websocket_loop_texts)

definition sample_bridge :: "string list bridge_env" where
  "sample_bridge =
     \<lparr>be_handler = Some (\<lambda>c m w. (Inr (), w @ [bg_method m])), be_uuid = (\<lambda>n. ''u''), be_now = 0,
      be_what = (\<lambda>x. ''error''), be_sha1 = (\<lambda>s. ''hash''), be_limit = 1000, be_fd = 5,
      be_upgrade_sent = True\<rparr>"

text \<open>A parser that reads every text as a message with that method.\<close>

definition sample_json :: "jv jlib" where
  "sample_json = sample_jlib (\<lambda>s. if utf8 s then Inr (JObj [(''method'', JStr s)]) else Inl s) (\<lambda>v. ''{}'')"

lemma sample_json_laws: "law_set sample_json" "law_printable sample_json"
  unfolding sample_json_def by (rule sample_law_set sample_law_printable; force split: if_splits)+

lemma websocket_messages_in_order_witness:
  "\<exists>out. websocket_loop sample_json sample_bridge ''c'' 1
     (map (\<lambda>(k, p). ws_frame 0x81 (Some k) p) [([1, 2, 3, 4], [97]), ([5, 6, 7, 8], [98])]) ([], []) =
     (Inr (), out, ([], [''a'', ''b'']))"
proof -
  have "chars [97] = ''a''" "chars [98] = ''b''" by (code_simp, code_simp)
  then show ?thesis
    using websocket_messages_in_order [of "[([1, 2, 3, 4], [97]), ([5, 6, 7, 8], [98])]" sample_bridge
        sample_json "''c''" 1 "([], [])"]
    by (simp add: handle_text_def parse_body_def read_message_def str_value_def sample_json_def
        sample_bridge_def jv_defs om_get_def)
qed

section \<open>Connecting\<close>

lemma om_del_put: "om_ok m \<Longrightarrow> om_get m k = None \<Longrightarrow> om_del k (om_put k v m) = m"
  by (rule om_ext) (auto simp: fun_eq_iff)

text \<open>
  Connecting over HTTP and disconnecting again. The answer carries the identifier under
  which the client is registered, with the data it gave; disconnecting with that identifier
  restores the table of clients. A body that does not parse, or lacks the types expected, is
  answered with status 400 and registers nothing.
\<close>

theorem connect_disconnect:
  assumes "om_ok cs" and "om_get cs (be_uuid e 0) = None"
    and "parse_body J body = Inr j" and "parse_body J body' = Inr j'"
    and "str_value J j' ''client_id'' [] = Inr (be_uuid e 0)"
  shows "(case (str_value J j ''name'' ''unknown'', str_value J j ''version'' ''0.0.0'',
                str_value J j ''session_id'' []) of
      (Inr name, Inr version, Inr sid) \<Rightarrow>
        \<exists>cs'. route J e ''POST'' ''/connect'' body (cs, w) =
            ((200, j_set J ''status'' (j_string J ''connected'')
                 (status_object J ''client_id'' (be_uuid e 0))), (cs', w)) \<and>
          om_get cs' (be_uuid e 0) = Some (no_client\<lparr>bc_id := be_uuid e 0, bc_name := name,
             bc_version := version, bc_session_id := sid, bc_connected_at := be_now e\<rparr>) \<and>
          route J e ''POST'' ''/disconnect'' body' (cs', w) =
            ((200, status_object J ''status'' ''disconnected''), (cs, w))
    | _ \<Rightarrow> fst (fst (route J e ''POST'' ''/connect'' body (cs, w))) = 400 \<and>
        snd (route J e ''POST'' ''/connect'' body (cs, w)) = (cs, w))"
  using assms om_del_put [OF assms(1,2)]
  by (auto simp: route_def answer_def route_connect_def route_disconnect_def split: sum.split)

definition sample_client_json :: "jv jlib" where
  "sample_client_json = sample_jlib
     (\<lambda>s. Inr (JObj [(''name'', JStr ''vscode''), (''client_id'', JStr ''u'')])) (\<lambda>v. ''{}'')"

lemma connect_disconnect_witness:
  "\<exists>cs c. route sample_client_json sample_bridge ''POST'' ''/connect'' ''x'' ([], []) =
     ((200, JObj [(''client_id'', JStr ''u''), (''status'', JStr ''connected'')]), (cs, [])) \<and>
     om_get cs ''u'' = Some c \<and> bc_name c = ''vscode'' \<and>
     snd (route sample_client_json sample_bridge ''POST'' ''/disconnect'' ''x'' (cs, [])) = ([], [])"
proof -
  let ?J = "sample_client_json" and ?j = "JObj [(''name'', JStr ''vscode''), (''client_id'', JStr ''u'')]"
  have "om_get [] (be_uuid sample_bridge 0) = None" "parse_body ?J ''x'' = Inr ?j"
    "str_value ?J ?j ''client_id'' [] = Inr (be_uuid sample_bridge 0)"
    "str_value ?J ?j ''name'' ''unknown'' = Inr ''vscode''"
    "str_value ?J ?j ''version'' ''0.0.0'' = Inr ''0.0.0''" "str_value ?J ?j ''session_id'' [] = Inr []"
    by (simp_all add: parse_body_def str_value_def sample_client_json_def sample_bridge_def jv_defs)
  from connect_disconnect [OF om_ok_Nil this(1,2,2,3), of "[]"] this(4-6) show ?thesis
    by (auto simp: status_object_def sample_client_json_def sample_bridge_def)
qed

section \<open>Messages\<close>

text \<open>
  A message posted over HTTP. If the client is connected and a handler is installed, the
  handler is called once, with the client's entry and the message, and the answer is 200, or 400
  when the handler throws; otherwise the answer is 404 and nothing has happened. The table of
  clients never changes.
\<close>

theorem message_reaches_handler:
  assumes "parse_body J body = Inr j" and "read_message J (be_uuid e 0) j = Inr msg"
    and "str_value J j ''client_id'' [] = Inr cid"
  shows "(case (om_get cs cid, be_handler e) of
      (Some c, Some handler) \<Rightarrow>
        snd (route J e ''POST'' ''/message'' body (cs, w)) = (cs, snd (handler c msg w)) \<and>
        fst (fst (route J e ''POST'' ''/message'' body (cs, w))) =
          (case fst (handler c msg w) of Inl x \<Rightarrow> 400 | Inr _ \<Rightarrow> 200)
    | _ \<Rightarrow> snd (route J e ''POST'' ''/message'' body (cs, w)) = (cs, w) \<and>
        fst (fst (route J e ''POST'' ''/message'' body (cs, w))) = 404)"
  using assms
  by (auto simp: route_def answer_def route_message_def split: option.split sum.split prod.split)

lemma message_reaches_handler_witness:
  "fst (fst (route sample_client_json sample_bridge ''POST'' ''/message'' ''x'' ([], []))) = 404 \<and>
   snd (route sample_client_json sample_bridge ''POST'' ''/message'' ''x'' ([(''u'', no_client)], [])) =
     ([(''u'', no_client)], [[]])"
proof -
  let ?J = "sample_client_json" and ?j = "JObj [(''name'', JStr ''vscode''), (''client_id'', JStr ''u'')]"
  have "parse_body ?J ''x'' = Inr ?j" "str_value ?J ?j ''client_id'' [] = Inr ''u''"
    "read_message ?J (be_uuid sample_bridge 0) ?j = Inr \<lparr>bg_id = ''u'', bg_method = [], bg_data = []\<rparr>"
    by (simp_all add: parse_body_def str_value_def read_message_def sample_client_json_def
        sample_bridge_def jv_defs)
  note m = message_reaches_handler [OF this(1,3,2)]
  from m [of "[]" "[]"] m [of "[(''u'', no_client)]" "[]"] show ?thesis
    by (simp add: om_get_def sample_bridge_def)
qed

section \<open>The WebSocket handshake\<close>

text \<open>
  The answer to a WebSocket handshake. No route serves \<open>/ws\<close>, so the ordinary answer of
  status 404 is sent before the upgrade: a client receives that refusal first, and the 101
  response behind it.
\<close>

lemma status_printed:
  assumes "law_set J" and "law_printable J"
  shows "dump_json J (status_object J k v) =
    (if utf8 k \<and> utf8 v then Inr (j_dump J (status_object J k v)) else Inl Json_Type_Error)"
  using printableD [OF assms(2)] set_members [OF assms(1)]
  by (simp add: dump_json_def status_object_def)

lemma upgrade_run:
  assumes "read_headers segs [] = (request, r)" and "str_find (crlf @ crlf) request = Some n"
    and "request_line request = (''GET'', ''/ws'')" and "upgrade_key (take n request) = Inr (Some key)"
    and "law_set J" and "law_printable J"
    and "read_body r (content_length_of (take n request)) (drop (n + 4) request) = (body, r1)"
    and "handle_websocket J e key r1 st = (res, out, st2)"
  shows "handle_client J e segs st =
    (res, bytes_of (http_response 404 (j_dump J (status_object J ''error'' ''Not found''))) # out, st2)"
proof -
  have route: "route J e ''GET'' ''/ws'' body st = ((404, status_object J ''error'' ''Not found''), st)"
    by (simp add: route_def)
  have printed: "dump_json J (status_object J ''error'' ''Not found'') =
      Inr (j_dump J (status_object J ''error'' ''Not found''))"
    by (simp add: status_printed [OF assms(5,6)])
  show ?thesis
    by (simp only: handle_client_def assms(1-4,7,8) route printed Let_def prod.case option.case sum.case) simp
qed

theorem handshake_refused_first:
  assumes "read_headers segs [] = (request, r)" and "str_find (crlf @ crlf) request = Some n"
    and "request_line request = (''GET'', ''/ws'')" and "upgrade_key (take n request) = Inr (Some key)"
    and "be_upgrade_sent e" and "law_set J" and "law_printable J"
  shows "\<exists>out. fst (snd (handle_client J e segs st)) =
    bytes_of (http_response 404 (j_dump J (status_object J ''error'' ''Not found''))) #
    bytes_of (upgrade_response e key) # out"
proof -
  obtain body r1 where body: "read_body r (content_length_of (take n request)) (drop (n + 4) request) = (body, r1)"
    by (cases "read_body r (content_length_of (take n request)) (drop (n + 4) request)")
  obtain res out st2 where ws: "handle_websocket J e key r1 st = (res, out, st2)"
    by (cases "handle_websocket J e key r1 st")
  moreover have "\<exists>out. fst (snd (handle_websocket J e key r1 st)) = bytes_of (upgrade_response e key) # out"
    using assms(5) by (simp add: handle_websocket_def Let_def split: prod.split sum.split)
  ultimately show ?thesis by (simp add: upgrade_run [OF assms(1-4,6,7) body ws])
qed

definition sample_request :: string where
  "sample_request = ''GET /ws HTTP/1.1'' @ crlf @ ''Upgrade: websocket'' @ crlf @
     ''Sec-WebSocket-Key: k'' @ crlf @ crlf"

lemma sample_read: "read_headers [bytes_of sample_request] [] = (sample_request, [])"
  by code_simp

lemma sample_request_parts:
  "str_find (crlf @ crlf) sample_request = Some 58"
  "request_line sample_request = (''GET'', ''/ws'')"
  "upgrade_key (take 58 sample_request) = Inr (Some ''k'')"
  "content_length_of (take 58 sample_request) = 0"
  subgoal by code_simp
  subgoal by code_simp
  subgoal by code_simp
  subgoal by code_simp
  done

lemma handshake_refused_first_witness:
  "\<exists>out. fst (snd (handle_client sample_json sample_bridge [bytes_of sample_request] ([], []))) =
     bytes_of (http_response 404 ''{}'') # out"
proof -
  have "be_upgrade_sent sample_bridge" by (simp add: sample_bridge_def)
  from handshake_refused_first [OF sample_read sample_request_parts(1-3) this sample_json_laws, of "([], [])"]
  show ?thesis by (auto simp: sample_json_def)
qed

text \<open>
  A frame can end the process. A WebSocket client whose first frame announces more bytes
  than a string can hold, which takes ten bytes, makes the connection's handler throw; nothing
  catches the exception, so no connection after it is served.
\<close>

theorem oversized_frame_ends_process:
  assumes "read_headers segs [] = (request, [op # length_field len])"
    and "str_find (crlf @ crlf) request = Some n"
    and "request_line request = (''GET'', ''/ws'')" and "upgrade_key (take n request) = Inr (Some key)"
    and "content_length_of (take n request) \<le> 0" and "be_upgrade_sent e"
    and "op AND 0x0F \<noteq> 8" and "op AND 0x0F \<noteq> 9" and "be_limit e < len" and "len < 2 ^ 64"
    and "law_set J" and "law_printable J"
  shows "fst (accept_connections J ((e, segs) # cs) st) = Inl Length_Error \<and>
    length (fst (snd (accept_connections J ((e, segs) # cs) st))) = 1"
proof -
  let ?frame = "op # length_field len"
  obtain sent r where "recv_frame (be_limit e) [?frame] = (Inl Length_Error, sent, r)"
    using oversized_frame_throws [OF assms(7-10)] by (cases "recv_frame (be_limit e) [?frame]") auto
  then have loop: "fst (websocket_loop J e c m [?frame] st') = Inl Length_Error" for c m st'
    by (simp add: websocket_loop.simps)
  have ws: "fst (handle_websocket J e key [?frame] st') = Inl Length_Error" for st'
  proof -
    define st0 where "st0 = (om_put (be_uuid e 0) (no_client\<lparr>bc_id := be_uuid e 0, bc_name := ''websocket'',
        bc_version := ''ws'', bc_connected_at := be_now e, bc_fd := be_fd e, bc_websocket := True\<rparr>)
        (fst st'), snd st')"
    obtain out st1 where "websocket_loop J e (be_uuid e 0) 1 [?frame] st0 = (Inl Length_Error, out, st1)"
      using loop [of "be_uuid e 0" 1 st0] by (cases "websocket_loop J e (be_uuid e 0) 1 [?frame] st0") auto
    then show ?thesis using assms(6) by (simp add: handle_websocket_def Let_def st0_def)
  qed
  have body: "read_body [?frame] (content_length_of (take n request)) b = (b, [?frame])" for b
    using assms(5) by (simp add: read_body.simps)
  obtain out st1 where "handle_websocket J e key [?frame] st = (Inl Length_Error, out, st1)"
    using ws [of st] by (cases "handle_websocket J e key [?frame] st") auto
  from upgrade_run [OF assms(1-4,11,12) body this] show ?thesis by simp
qed

lemma sample_request_read: "read_headers [bytes_of sample_request, x] [] = (sample_request, [x])"
proof -
  have "recv 4095 [bytes_of sample_request, x] = (bytes_of sample_request, [x])"
    by (simp add: bytes_of_def sample_request_def crlf_def)
  moreover have "bytes_of sample_request \<noteq> []" "c_string (chars (bytes_of sample_request)) = sample_request"
    "contains_str sample_request (crlf @ crlf)"
    subgoal by (simp add: bytes_of_def sample_request_def)
    subgoal by code_simp
    subgoal by (simp add: contains_str_def sample_request_parts)
    done
  ultimately show ?thesis by (simp add: read_headers.simps [of "[_, _]"] Let_def)
qed

lemma oversized_frame_ends_process_witness:
  "fst (accept_connections sample_json
     [(sample_bridge, [bytes_of sample_request, 0x82 # length_field 5000]),
      (sample_bridge, [bytes_of ''GET / HTTP/1.1''])] ([], [])) = Inl Length_Error"
proof -
  have "be_upgrade_sent sample_bridge" "be_limit sample_bridge < 5000"
    "content_length_of (take 58 sample_request) \<le> 0"
    "(0x82 :: byte) AND 0x0F \<noteq> 8" "(0x82 :: byte) AND 0x0F \<noteq> 9"
    by (simp_all add: sample_bridge_def sample_request_parts)
  from oversized_frame_ends_process [OF sample_request_read sample_request_parts(1-3) this(3,1,4,5,2) _ sample_json_laws,
      THEN conjunct1]
  show ?thesis by simp
qed

text \<open>
  A body that does not parse can end the process too. Its error answer carries the words of the
  exception, and the parser's words quote the body: when they are not UTF-8, printing the answer
  throws, behind the \<open>try\<close> block of the route. One request with a stray byte is enough.
\<close>

theorem unreadable_body_ends_process:
  assumes "read_headers segs [] = (request, r)" and "str_find (crlf @ crlf) request = Some n"
    and "request_line request = (''POST'', ''/message'')"
    and "read_body r (content_length_of (take n request)) (drop (n + 4) request) = (body, r1)"
    and "j_parse J body = Inl w" and "\<not> utf8 (be_what e (Json_Parse_Error w))"
    and "law_set J" and "law_printable J"
  shows "accept_connections J ((e, segs) # cs) st = (Inl Json_Type_Error, [[]], st)"
proof -
  have route: "route J e ''POST'' ''/message'' body st =
      ((400, status_object J ''error'' (be_what e (Json_Parse_Error w))), st)"
    using assms(5) by (simp add: route_def route_message_def parse_body_def answer_def)
  have printed: "dump_json J (status_object J ''error'' (be_what e (Json_Parse_Error w))) = Inl Json_Type_Error"
    by (simp add: status_printed [OF assms(7,8)] assms(6))
  have "handle_client J e segs st = (Inl Json_Type_Error, [], st)"
    by (simp only: handle_client_def assms(1-4) route printed Let_def prod.case option.case sum.case)
  then show ?thesis by simp
qed

definition stray_request :: string where
  "stray_request = ''POST /message HTTP/1.1'' @ crlf @ ''Content-Length: 1'' @ crlf @ crlf @ [CHR 0xFF]"

lemma stray_request_parts:
  "read_headers [bytes_of stray_request] [] = (stray_request, [])"
  "str_find (crlf @ crlf) stray_request = Some 41"
  "request_line stray_request = (''POST'', ''/message'')"
  "read_body [] (content_length_of (take 41 stray_request)) (drop (41 + 4) stray_request) = ([CHR 0xFF], [])"
  subgoal by code_simp
  subgoal by code_simp
  subgoal by code_simp
  subgoal by code_simp
  done

lemma unreadable_body_ends_process_witness:
  "let e = sample_bridge\<lparr>be_what := \<lambda>x. case x of Json_Parse_Error w \<Rightarrow> ''parse error: '' @ w | _ \<Rightarrow> []\<rparr> in
   accept_connections sample_json [(e, [bytes_of stray_request])] ([], []) = (Inl Json_Type_Error, [[]], ([], []))"
  unfolding Let_def
  by (rule unreadable_body_ends_process [OF stray_request_parts, where w = "[CHR 0xFF]"])
    (simp_all add: sample_json_laws, simp_all add: sample_json_def byte_in_def)

end
