(* ===== verification/Session_Manager.thy ===== *)
theory Session_Manager
  imports Json
begin

text \<open>
  \<open>SessionManager\<close> of \<open>src/bridge/bridge_server.h\<close>. The repository defines its member functions
  twice, in \<open>src/bridge/session_manager.cpp\<close> and at the end of \<open>src/bridge/bridge_server.cpp\<close>,
  and the build compiles both files; the two sets differ. The functions of the first file have
  the plain names here, those of the second the prefix \<open>bridge_\<close>. Drawing an identifier and
  reading the clock are arguments; the mutex is not modelled, since nothing is called while it
  is held.
\<close>

record session =
  se_id :: string
  se_client_ids :: "string list"
  se_created_at :: string
  se_working_directory :: string

record session_manager =
  sm_sessions :: "session omap"
  sm_client_to_session :: "string \<rightharpoonup> string"

definition new_session_manager :: session_manager where
  "new_session_manager = \<lparr>sm_sessions = [], sm_client_to_session = Map.empty\<rparr>"

text \<open>The part of both \<open>create_session\<close>s that changes the state.\<close>

definition add_session :: "session \<Rightarrow> string \<Rightarrow> session_manager \<Rightarrow> session_manager" where
  "add_session s client_id m =
     (if client_id \<noteq> []
      then m\<lparr>sm_sessions := om_put (se_id s) (s\<lparr>se_client_ids := [client_id]\<rparr>) (sm_sessions m),
             sm_client_to_session := (sm_client_to_session m)(client_id \<mapsto> se_id s)\<rparr>
      else m\<lparr>sm_sessions := om_put (se_id s) s (sm_sessions m)\<rparr>)"

section \<open>The functions of session\_manager.cpp\<close>

text \<open>The result is \<open>sessions_.rbegin()->first\<close>, the greatest key of the map.\<close>

definition create_session ::
  "string \<Rightarrow> string \<Rightarrow> string \<Rightarrow> session_manager \<Rightarrow> string \<times> session_manager" where
  "create_session uuid now client_id m =
     (let m' = add_session \<lparr>se_id = uuid, se_client_ids = [], se_created_at = now,
                se_working_directory = ''.''\<rparr> client_id m
      in (last (om_keys (sm_sessions m')), m'))"

definition session_line :: "string \<Rightarrow> string \<Rightarrow> string" where
  "session_line label v = label @ v @ [CHR 0x0A]"

definition get_session :: "string \<Rightarrow> session_manager \<Rightarrow> string" where
  "get_session session_id m =
     (case om_get (sm_sessions m) session_id of
        None \<Rightarrow> []
      | Some s \<Rightarrow> session_line ''Session: '' (se_id s) @ session_line ''Created: '' (se_created_at s) @
          session_line ''Working dir: '' (se_working_directory s) @
          session_line ''Clients: '' (nat_to_string (length (se_client_ids s))))"

definition list_sessions :: "session_manager \<Rightarrow> string list" where
  "list_sessions m = om_keys (sm_sessions m)"

definition attach :: "string \<Rightarrow> string \<Rightarrow> session_manager \<Rightarrow> session_manager" where
  "attach session_id client_id m =
     (case om_get (sm_sessions m) session_id of
        None \<Rightarrow> m
      | Some s \<Rightarrow>
          m\<lparr>sm_sessions := om_put session_id
              (if client_id \<in> set (se_client_ids s) then s
               else s\<lparr>se_client_ids := se_client_ids s @ [client_id]\<rparr>) (sm_sessions m),
            sm_client_to_session := (sm_client_to_session m)(client_id \<mapsto> session_id)\<rparr>)"

definition detach :: "string \<Rightarrow> session_manager \<Rightarrow> session_manager" where
  "detach client_id m =
     (case sm_client_to_session m client_id of
        None \<Rightarrow> m
      | Some sid \<Rightarrow>
          m\<lparr>sm_sessions :=
              (case om_get (sm_sessions m) sid of
                 None \<Rightarrow> sm_sessions m
               | Some s \<Rightarrow>
                   (let clients = filter (\<lambda>c. c \<noteq> client_id) (se_client_ids s)
                    in if clients = [] then om_del sid (sm_sessions m)
                       else om_put sid (s\<lparr>se_client_ids := clients\<rparr>) (sm_sessions m))),
            sm_client_to_session := (sm_client_to_session m)(client_id := None)\<rparr>)"

definition destroy_session :: "string \<Rightarrow> session_manager \<Rightarrow> session_manager" where
  "destroy_session session_id m =
     (case om_get (sm_sessions m) session_id of
        None \<Rightarrow> m
      | Some s \<Rightarrow>
          m\<lparr>sm_sessions := om_del session_id (sm_sessions m),
            sm_client_to_session :=
              foldl (\<lambda>f c. f(c := None)) (sm_client_to_session m) (se_client_ids s)\<rparr>)"

section \<open>The functions of bridge\_server.cpp\<close>

definition bridge_create_session ::
  "string \<Rightarrow> string \<Rightarrow> string \<Rightarrow> session_manager \<Rightarrow> string \<times> session_manager" where
  "bridge_create_session uuid today client_id m =
     (uuid, add_session \<lparr>se_id = uuid, se_client_ids = [], se_created_at = today,
        se_working_directory = []\<rparr> client_id m)"

definition bridge_get_session :: "('j, 'z) jlib_scheme \<Rightarrow> string \<Rightarrow> session_manager \<Rightarrow> cpp_exn + string" where
  "bridge_get_session J session_id m =
     (case om_get (sm_sessions m) session_id of
        Some s \<Rightarrow> dump_json J (j_object J
          [(''id'', j_string J (se_id s)),
           (''clients'', j_array J (map (j_string J) (se_client_ids s))),
           (''created_at'', j_string J (se_created_at s)),
           (''working_directory'', j_string J (se_working_directory s))])
      | None \<Rightarrow> Inr ''{}'')"

definition bridge_attach :: "string \<Rightarrow> string \<Rightarrow> session_manager \<Rightarrow> session_manager" where
  "bridge_attach session_id client_id m =
     (case om_get (sm_sessions m) session_id of
        None \<Rightarrow> m
      | Some s \<Rightarrow>
          m\<lparr>sm_sessions := om_put session_id
              (s\<lparr>se_client_ids := se_client_ids s @ [client_id]\<rparr>) (sm_sessions m),
            sm_client_to_session := (sm_client_to_session m)(client_id \<mapsto> session_id)\<rparr>)"

definition bridge_detach :: "string \<Rightarrow> session_manager \<Rightarrow> session_manager" where
  "bridge_detach client_id m =
     (case sm_client_to_session m client_id of
        None \<Rightarrow> m
      | Some sid \<Rightarrow>
          m\<lparr>sm_sessions :=
              (case om_get (sm_sessions m) sid of
                 None \<Rightarrow> sm_sessions m
               | Some s \<Rightarrow> om_put sid
                   (s\<lparr>se_client_ids := filter (\<lambda>c. c \<noteq> client_id) (se_client_ids s)\<rparr>) (sm_sessions m)),
            sm_client_to_session := (sm_client_to_session m)(client_id := None)\<rparr>)"

section \<open>Runs\<close>

text \<open>
  What a client can make happen, for either set of functions (\<open>bridge = True\<close> the second one).
  A new session's identifier is one no session has.
\<close>

inductive session_step :: "bool \<Rightarrow> session_manager \<Rightarrow> session_manager \<Rightarrow> bool" for bridge where
  create: "om_get (sm_sessions m) uuid = None \<Longrightarrow>
    session_step bridge m (snd ((if bridge then bridge_create_session else create_session) uuid now c m))"
| attach: "session_step bridge m ((if bridge then bridge_attach else attach) sid c m)"
| detach: "session_step bridge m ((if bridge then bridge_detach else detach) c m)"
| destroy: "session_step bridge m (destroy_session sid m)"

inductive_cases session_stepE: "session_step bridge m m'"

inductive session_reachable :: "bool \<Rightarrow> session_manager \<Rightarrow> bool" for bridge where
  init: "session_reachable bridge new_session_manager"
| step: "session_reachable bridge m \<Longrightarrow> session_step bridge m m' \<Longrightarrow> session_reachable bridge m'"

text \<open>A client's entry leads to an existing session that lists the client.\<close>

definition sessions_ok :: "session_manager \<Rightarrow> bool" where
  "sessions_ok m =
     (om_ok (sm_sessions m) \<and>
      (\<forall>c sid. sm_client_to_session m c = Some sid \<longrightarrow>
        (\<exists>s. om_get (sm_sessions m) sid = Some s \<and> c \<in> set (se_client_ids s))))"

lemma foldl_erase: "foldl (\<lambda>f c. f(c := None)) f cs = (\<lambda>c. if c \<in> set cs then None else f c)"
  by (induction cs arbitrary: f) (auto simp: fun_eq_iff)

lemma add_session_ok:
  "sessions_ok m \<Longrightarrow> om_get (sm_sessions m) (se_id s) = None \<Longrightarrow> sessions_ok (add_session s c m)"
  by (fastforce simp: sessions_ok_def add_session_def)

lemma detach_lists:
  assumes "sessions_ok m" and "sm_client_to_session m c = Some sid"
  obtains s where "om_get (sm_sessions m) sid = Some s" "c \<in> set (se_client_ids s)"
  using assms by (auto simp: sessions_ok_def)

lemma attach_ok [keeps]: "sessions_ok m \<Longrightarrow> sessions_ok (attach sid c m)"
  by (fastforce simp: sessions_ok_def attach_def split: option.split)

lemma bridge_attach_ok [keeps]: "sessions_ok m \<Longrightarrow> sessions_ok (bridge_attach sid c m)"
  by (fastforce simp: sessions_ok_def bridge_attach_def split: option.split)

lemma destroy_session_ok [keeps]: "sessions_ok m \<Longrightarrow> sessions_ok (destroy_session sid m)"
  by (fastforce simp: sessions_ok_def destroy_session_def foldl_erase split: option.split if_splits)

lemma detach_ok [keeps]:
  assumes "sessions_ok m"
  shows "sessions_ok (detach c m)" and "sessions_ok (bridge_detach c m)"
proof -
  have "sessions_ok (detach c m) \<and> sessions_ok (bridge_detach c m)"
  proof (cases "sm_client_to_session m c")
    case None
    with assms show ?thesis by (simp add: detach_def bridge_detach_def)
  next
    case (Some sid)
    then obtain s where s: "om_get (sm_sessions m) sid = Some s" using detach_lists [OF assms] by metis
    let ?cs = "filter (\<lambda>x. x \<noteq> c) (se_client_ids s)"
    have other: "\<exists>t. om_get (sm_sessions m) sid' = Some t \<and> x \<in> set (se_client_ids t)"
      if "sm_client_to_session m x = Some sid'" for x sid'
      using that assms by (auto simp: sessions_ok_def)
    have listed: "x \<in> set ?cs" if "sm_client_to_session m x = Some sid" "x \<noteq> c" for x
      using other [OF that(1)] s that(2) by auto
    have ok: "om_ok (sm_sessions m)" using assms by (simp add: sessions_ok_def)
    have "sessions_ok (bridge_detach c m)"
      unfolding sessions_ok_def
    proof (intro conjI allI impI)
      show "om_ok (sm_sessions (bridge_detach c m))" using ok s Some by (simp add: bridge_detach_def)
    next
      fix x sid' assume "sm_client_to_session (bridge_detach c m) x = Some sid'"
      then have x: "sm_client_to_session m x = Some sid'" "x \<noteq> c"
        using Some by (auto simp: bridge_detach_def split: if_splits)
      from other [OF x(1)] listed x show
        "\<exists>t. om_get (sm_sessions (bridge_detach c m)) sid' = Some t \<and> x \<in> set (se_client_ids t)"
        using s Some by (auto simp: bridge_detach_def)
    qed
    moreover have "sessions_ok (detach c m)"
      unfolding sessions_ok_def
    proof (intro conjI allI impI)
      show "om_ok (sm_sessions (detach c m))" using ok s Some by (simp add: detach_def Let_def)
    next
      fix x sid' assume "sm_client_to_session (detach c m) x = Some sid'"
      then have x: "sm_client_to_session m x = Some sid'" "x \<noteq> c"
        using Some by (auto simp: detach_def split: if_splits)
      then have "sid' = sid \<Longrightarrow> ?cs \<noteq> []" using listed by force
      with other [OF x(1)] listed x show
        "\<exists>t. om_get (sm_sessions (detach c m)) sid' = Some t \<and> x \<in> set (se_client_ids t)"
        using s Some by (auto simp: detach_def Let_def)
    qed
    ultimately show ?thesis by simp
  qed
  then show "sessions_ok (detach c m)" and "sessions_ok (bridge_detach c m)" by simp_all
qed

lemma session_reachable_ok: "session_reachable bridge m \<Longrightarrow> sessions_ok m"
proof (induction rule: session_reachable.induct)
  case init
  then show ?case by (simp add: sessions_ok_def new_session_manager_def)
next
  case (step m m')
  from step.hyps(2) show ?case
  proof (cases rule: session_step.cases)
    case (create uuid now c)
    then show ?thesis using step.IH
      by (simp add: create_session_def bridge_create_session_def add_session_ok Let_def)
  next
    case (attach sid c)
    then show ?thesis using step.IH by (simp add: attach_ok bridge_attach_ok)
  next
    case (detach c)
    then show ?thesis using step.IH by (simp add: detach_ok)
  next
    case (destroy sid)
    then show ?thesis using step.IH by (simp add: destroy_session_ok)
  qed
qed

section \<open>Clients and their sessions\<close>

text \<open>
  C14: With either set of functions, in every reachable state the session a client is attached
  to exists and lists the client, and the sessions are listed sorted and once each.
\<close>

theorem attached_session_exists:
  assumes "session_reachable bridge m"
  shows "(\<forall>c sid. sm_client_to_session m c = Some sid \<longrightarrow>
      (\<exists>s. om_get (sm_sessions m) sid = Some s \<and> c \<in> set (se_client_ids s))) \<and>
    sorted (list_sessions m) \<and> distinct (list_sessions m)"
  using session_reachable_ok [OF assms]
  by (simp add: sessions_ok_def list_sessions_def om_ok_def om_keys_def strict_sorted_iff)

definition sample_sessions :: session_manager where
  "sample_sessions = snd (create_session ''u1'' ''now'' ''c'' new_session_manager)"

lemma sample_sessions_reachable: "session_reachable False sample_sessions"
proof -
  have "om_get (sm_sessions new_session_manager) ''u1'' = None" by (simp add: new_session_manager_def)
  from session_step.create [OF this, of False "''now''" "''c''"]
  have "session_step False new_session_manager sample_sessions" by (simp add: sample_sessions_def)
  with session_reachable.init show ?thesis by (rule session_reachable.step)
qed

lemma attached_session_exists_witness:
  "\<exists>s. om_get (sm_sessions sample_sessions) ''u1'' = Some s \<and> ''c'' \<in> set (se_client_ids s)"
  using attached_session_exists [OF sample_sessions_reachable]
  by (auto simp: sample_sessions_def create_session_def add_session_def new_session_manager_def)

text \<open>The greatest key.\<close>

lemma last_om_keys:
  assumes "om_ok m" and "m \<noteq> []"
  shows "last (om_keys m) \<in> set (om_keys m) \<and> (\<forall>k\<in>set (om_keys m). k \<le> last (om_keys m))"
proof -
  have ne: "om_keys m \<noteq> []" using assms(2) by (simp add: om_keys_def)
  have "sorted (om_keys m)" using assms(1) by (simp add: om_ok_def om_keys_def strict_sorted_iff)
  then have "\<forall>k\<in>set (om_keys m). k \<le> last (om_keys m)"
    using ne by (cases "om_keys m" rule: rev_cases) (auto simp: sorted_append)
  with ne show ?thesis by simp
qed

lemma add_session_keys: "om_ok (sm_sessions m) \<Longrightarrow>
    om_ok (sm_sessions (add_session s c m)) \<and> sm_sessions (add_session s c m) \<noteq> [] \<and>
    set (om_keys (sm_sessions (add_session s c m))) = insert (se_id s) (set (om_keys (sm_sessions m)))"
  by (auto simp: add_session_def om_keys_def set_om_put)
    (metis set_om_put insert_not_empty image_empty list.set(1))+

text \<open>
  The identifier that \<open>create_session\<close> of \<open>session_manager.cpp\<close> returns. It is the greatest
  of all identifiers, so the caller learns the new session's only if that is greater than every
  earlier one; otherwise it is given another client's session. The function of the same name
  in \<open>bridge_server.cpp\<close> returns the new one.
\<close>

theorem create_session_returns_greatest:
  assumes "om_ok (sm_sessions m)"
  shows "fst (create_session uuid now c m) \<in> insert uuid (set (list_sessions m)) \<and>
    (\<forall>k\<in>set (list_sessions m). k \<le> fst (create_session uuid now c m)) \<and>
    (fst (create_session uuid now c m) = uuid \<longleftrightarrow> (\<forall>k\<in>set (list_sessions m). k \<le> uuid)) \<and>
    fst (bridge_create_session uuid now c m) = uuid"
proof -
  let ?s = "\<lparr>se_id = uuid, se_client_ids = [], se_created_at = now, se_working_directory = ''.''\<rparr>"
  let ?m = "sm_sessions (add_session ?s c m)"
  have ok: "om_ok ?m" "?m \<noteq> []"
    and keys: "set (om_keys ?m) = insert uuid (set (list_sessions m))"
    using add_session_keys [OF assms, of ?s c] by (simp_all add: list_sessions_def)
  have r: "fst (create_session uuid now c m) = last (om_keys ?m)"
    by (simp add: create_session_def Let_def)
  from last_om_keys [OF ok] have l: "last (om_keys ?m) \<in> insert uuid (set (list_sessions m))"
    "\<forall>k\<in>insert uuid (set (list_sessions m)). k \<le> last (om_keys ?m)"
    by (simp_all add: keys)
  then have "last (om_keys ?m) = uuid \<longleftrightarrow> (\<forall>k\<in>set (list_sessions m). k \<le> uuid)"
    by (metis insertE insertI1 insertI2 order_antisym)
  with l r show ?thesis by (simp add: bridge_create_session_def)
qed

lemma create_session_returns_greatest_witness:
  "fst (create_session ''u0'' ''now'' ''d'' sample_sessions) = ''u1''"
proof -
  have m: "sm_sessions sample_sessions = [(''u1'', \<lparr>se_id = ''u1'', se_client_ids = [''c''],
      se_created_at = ''now'', se_working_directory = ''.''\<rparr>)]"
    by (simp add: sample_sessions_def create_session_def add_session_def new_session_manager_def)
  have less: "\<not> ''u1'' \<le> ''u0''" by code_simp
  have "om_ok (sm_sessions sample_sessions)" by (simp add: m om_ok_def)
  from create_session_returns_greatest [OF this, of "''u0''" "''now''" "''d''"] show ?thesis
    using less by (auto simp: list_sessions_def om_keys_def m)
qed

text \<open>
  A client that attaches to a second session stays on the first one's list for ever. When it
  is detached afterwards, only the second session lets go of it: the first still lists it and is
  never removed as empty, although the client has no session any more and detaching it again
  does nothing.
\<close>

theorem reattached_client_leaks:
  assumes "om_get (sm_sessions m) a = Some s" and "c \<in> set (se_client_ids s)"
    and "om_get (sm_sessions m) b = Some t" and "a \<noteq> b"
  shows "let m' = detach c (attach b c m) in
    om_get (sm_sessions m') a = Some s \<and> sm_client_to_session m' c = None \<and> detach c m' = m'"
  using assms by (simp add: attach_def detach_def Let_def)

lemma reattached_client_leaks_witness:
  "let m' = detach ''c'' (attach ''u2'' ''c'' (snd (create_session ''u2'' ''now'' ''d'' sample_sessions))) in
    om_get (sm_sessions m') ''u1'' \<noteq> None \<and> sm_client_to_session m' ''c'' = None"
proof -
  let ?m = "snd (create_session ''u2'' ''now'' ''d'' sample_sessions)"
  have "om_get (sm_sessions ?m) ''u1'' = Some \<lparr>se_id = ''u1'', se_client_ids = [''c''],
      se_created_at = ''now'', se_working_directory = ''.''\<rparr>"
    "om_get (sm_sessions ?m) ''u2'' = Some \<lparr>se_id = ''u2'', se_client_ids = [''d''],
      se_created_at = ''now'', se_working_directory = ''.''\<rparr>"
    by (simp_all add: sample_sessions_def create_session_def add_session_def Let_def
        new_session_manager_def om_get_def)
  from reattached_client_leaks [OF this(1) _ this(2)] show ?thesis by (simp add: Let_def)
qed

end
