(* ===== verification/Permissions.thy ===== *)
theory Permissions
  imports String_Utils
begin

text \<open>
  \<open>PermissionManager\<close> of \<open>src/permissions/permission_manager.h\<close> and
  \<open>permission_manager.cpp\<close>: an ordered list of rules, a mode, a default level, and the glob
  matcher that decides which rule applies.
\<close>

section \<open>The glob matcher\<close>

text \<open>
  \<open>match_impl\<close> works on two positions; it only looks at what follows them, so the model works
  on the two rests. The loops over positions are searches for one that succeeds.
\<close>

fun skip_trailing :: "string \<Rightarrow> string" where
  "skip_trailing (a # b # c # p) =
     (if a = CHR ''/'' \<and> b = CHR ''*'' \<and> c = CHR ''*'' then skip_trailing p else a # b # c # p)"
| "skip_trailing p = p"

definition skip_slashes :: "string \<Rightarrow> string" where
  "skip_slashes p = dropWhile (\<lambda>c. c = CHR ''/'') p"

definition segment_length :: "string \<Rightarrow> nat" where
  "segment_length t = length (takeWhile (\<lambda>c. c \<noteq> CHR ''/'') t)"

function match_impl :: "string \<Rightarrow> string \<Rightarrow> bool" where
  "match_impl [] t = (t = [])"
| "match_impl (c # p) [] = (skip_trailing (c # p) = [])"
| "match_impl (c # p) (d # t) =
     (if c = CHR ''*'' \<and> p \<noteq> [] \<and> hd p = CHR ''*''
      then list_ex (\<lambda>pos. match_impl (skip_slashes (tl p)) (drop pos (d # t)))
             [0..<Suc (length (d # t))]
      else if c = CHR ''*''
      then list_ex (\<lambda>pos. match_impl p (drop pos (d # t))) [0..<Suc (segment_length (d # t))]
      else if c = d \<or> (c = CHR ''?'' \<and> d \<noteq> CHR ''/'')
      then match_impl p t
      else False)"
  by pat_completeness auto
termination
proof (relation "measure (\<lambda>(p, t). length p)")
  fix c d :: char and p t :: string and pos :: nat
  assume "c = CHR ''*'' \<and> p \<noteq> [] \<and> hd p = CHR ''*''"
  then have "p \<noteq> []" by simp
  have "length (skip_slashes (tl p)) \<le> length (tl p)"
    by (simp only: skip_slashes_def length_dropWhile_le)
  also have "\<dots> < length (c # p)" using \<open>p \<noteq> []\<close> by simp
  finally show "((skip_slashes (tl p), drop pos (d # t)), c # p, d # t) \<in>
      measure (\<lambda>(p, t). length p)" by simp
qed auto

definition match_pattern :: "string \<Rightarrow> string \<Rightarrow> bool" where
  "match_pattern pattern s = (if pattern = ''*'' \<or> pattern = ''**'' then True else match_impl pattern s)"

section \<open>Rules and decisions\<close>

datatype permission_level = Allow | Deny | Ask

record permission_rule =
  ru_pattern :: string
  ru_level :: permission_level
  ru_description :: string

record permission_decision =
  de_level :: permission_level
  de_matched_rule :: string
  de_reason :: string

record permission_manager =
  pm_rules :: "permission_rule list"
  pm_default_level :: permission_level
  pm_mode :: string

definition new_manager :: permission_manager where
  "new_manager = \<lparr>pm_rules = [], pm_default_level = Ask, pm_mode = ''default''\<rparr>"

definition add_rule :: "permission_rule \<Rightarrow> permission_manager \<Rightarrow> permission_manager" where
  "add_rule r m = m\<lparr>pm_rules := pm_rules m @ [r]\<rparr>"

definition remove_rule :: "string \<Rightarrow> permission_manager \<Rightarrow> permission_manager" where
  "remove_rule pattern m = m\<lparr>pm_rules := filter (\<lambda>r. ru_pattern r \<noteq> pattern) (pm_rules m)\<rparr>"

definition bypass_mode :: "string \<Rightarrow> bool" where
  "bypass_mode mode = (mode = ''bypass'' \<or> mode = ''yolo'')"

fun first_match :: "permission_rule list \<Rightarrow> string \<Rightarrow> permission_rule option" where
  "first_match [] target = None"
| "first_match (r # rs) target =
     (if match_pattern (ru_pattern r) target then Some r else first_match rs target)"

definition check :: "string \<Rightarrow> string \<Rightarrow> permission_manager \<Rightarrow> permission_decision" where
  "check action target m =
     (if bypass_mode (pm_mode m)
      then \<lparr>de_level = Allow, de_matched_rule = [], de_reason = ''Bypass mode enabled''\<rparr>
      else (case first_match (pm_rules m) target of
              Some r \<Rightarrow> \<lparr>de_level = ru_level r, de_matched_rule = ru_pattern r,
                         de_reason = ru_description r\<rparr>
            | None \<Rightarrow> \<lparr>de_level = pm_default_level m, de_matched_rule = [], de_reason = []\<rparr>))"

definition set_default :: "permission_level \<Rightarrow> permission_manager \<Rightarrow> permission_manager" where
  "set_default l m = m\<lparr>pm_default_level := l\<rparr>"

definition set_mode :: "string \<Rightarrow> permission_manager \<Rightarrow> permission_manager" where
  "set_mode mode m =
     (let m1 = m\<lparr>pm_mode := mode\<rparr>
      in if bypass_mode mode then m1\<lparr>pm_default_level := Allow\<rparr> else m1)"

definition rule :: "string \<Rightarrow> permission_level \<Rightarrow> string \<Rightarrow> permission_rule" where
  "rule p l d = \<lparr>ru_pattern = p, ru_level = l, ru_description = d\<rparr>"

definition load_defaults :: "permission_manager \<Rightarrow> permission_manager" where
  "load_defaults m =
     add_rule (rule ''/dev/**'' Deny ''Device files'')
       (add_rule (rule ''/boot/**'' Deny ''Boot files'')
         (add_rule (rule ''/usr/**'' Deny ''System files'')
           (add_rule (rule ''/etc/**'' Deny ''System configuration'')
             (add_rule (rule ''**/node_modules/**'' Ask ''Dependencies'')
               (add_rule (rule ''**/.git/**'' Deny ''Git internal files'') m)))))"

section \<open>What the patterns match\<close>

definition wild :: "char \<Rightarrow> bool" where
  "wild c = (c = CHR ''*'' \<or> c = CHR ''?'')"

text \<open>A literal part of a pattern matches itself, and a text that ends inside it does not match.\<close>

lemma match_literal:
  "\<forall>c\<in>set l. \<not> wild c \<Longrightarrow> match_impl (l @ p) (l @ t) = match_impl p t"
  by (induction l) (auto simp: wild_def)

lemma match_nil_all: "match_impl [] [] = True"
  by simp

lemma match_star_star: "t \<noteq> [] \<Longrightarrow> match_impl ''**'' t"
proof -
  assume "t \<noteq> []"
  then obtain d t' where t: "t = d # t'" by (cases t) auto
  have "match_impl [] (drop (length t) t)" by simp
  then show ?thesis unfolding t by (auto simp: list_ex_iff skip_slashes_def)
qed

lemma skip_trailing_nil: "skip_trailing p = [] \<Longrightarrow> p = [] \<or> hd p = CHR ''/''"
  by (induction p rule: skip_trailing.induct) (auto split: if_splits)

lemma match_prefix_only:
  assumes "\<forall>c\<in>set l. \<not> wild c \<and> c \<noteq> CHR ''/''" and "l \<noteq> []"
  shows "\<not> match_impl (l @ p) []"
proof
  assume "match_impl (l @ p) []"
  then have "skip_trailing (l @ p) = []" using assms(2) by (cases l) auto
  then have "l @ p = [] \<or> hd (l @ p) = CHR ''/''" by (rule skip_trailing_nil)
  then show False using assms by (cases l) auto
qed

text \<open>
  A directory pattern: \<open>d/**\<close> for a directory \<open>d\<close> of one level. It matches the directory
  itself and everything below it, but not the directory written with a trailing slash.
\<close>

lemma match_directory:
  assumes n: "n \<noteq> []" "\<forall>c\<in>set n. \<not> wild c \<and> c \<noteq> CHR ''/''"
  shows "match_impl (CHR ''/'' # n @ ''/**'') t \<longleftrightarrow>
    t = CHR ''/'' # n \<or> (\<exists>r. r \<noteq> [] \<and> t = CHR ''/'' # n @ CHR ''/'' # r)"
proof -
  let ?d = "CHR ''/'' # n"
  have lit: "\<forall>c\<in>set ?d. \<not> wild c" using n by (auto simp: wild_def)
  have whole: "match_impl (?d @ ''/**'') ?d" 
    using match_literal [OF lit, of "''/**''" "[]"] by simp
  have below: "match_impl (?d @ ''/**'') (?d @ CHR ''/'' # r) \<longleftrightarrow> r \<noteq> []" for r
  proof -
    have "match_impl (?d @ ''/**'') (?d @ CHR ''/'' # r) = match_impl ''**'' r"
      using match_literal [OF lit, of "''/**''" "CHR ''/'' # r"] by (simp add: wild_def)
    also have "\<dots> \<longleftrightarrow> r \<noteq> []"
    proof (cases "r = []")
      case True
      then show ?thesis by simp
    next
      case False
      then show ?thesis using match_star_star [OF False] by blast
    qed
    finally show ?thesis .
  qed
  have only: "t = ?d \<or> (\<exists>r. t = ?d @ CHR ''/'' # r)" if "match_impl (?d @ ''/**'') t"
  proof -
    have walk: "\<exists>r. t = l @ r \<and> match_impl ''/**'' r"
      if "match_impl (l @ ''/**'') t" "\<forall>c\<in>set l. \<not> wild c \<and> c \<noteq> CHR ''/''" for l t
      using that
    proof (induction l arbitrary: t)
      case (Cons c l)
      then obtain t' where "t = c # t'" "match_impl (l @ ''/**'') t'"
        using match_prefix_only [of "c # l" "''/**''"] by (cases t) (auto simp: wild_def split: if_splits)
      with Cons show ?case by auto
    qed auto
    have "t \<noteq> []"
    proof
      assume "t = []"
      with \<open>match_impl (?d @ ''/**'') t\<close> have "skip_trailing (?d @ ''/**'') = []" by simp
      then show False using n
        by (cases n rule: list.exhaust; cases "tl n") (auto simp: wild_def split: if_splits)
    qed
    then obtain t' where t': "t = CHR ''/'' # t'" "match_impl (n @ ''/**'') t'"
      using \<open>match_impl (?d @ ''/**'') t\<close> by (cases t) (auto split: if_splits)
    with walk [OF t'(2)] n(2) obtain r where r: "t' = n @ r" "match_impl ''/**'' r" by auto
    then have "r = [] \<or> (\<exists>r'. r = CHR ''/'' # r')" by (cases r) (auto split: if_splits)
    with t' r show ?thesis by auto
  qed
  have d: "match_impl (CHR ''/'' # n @ ''/**'') t = match_impl (?d @ ''/**'') t" by simp
  show ?thesis
    unfolding d
  proof
    assume m: "match_impl (?d @ ''/**'') t"
    from only [OF m] show "t = ?d \<or> (\<exists>r. r \<noteq> [] \<and> t = CHR ''/'' # n @ CHR ''/'' # r)"
    proof
      assume "\<exists>r. t = ?d @ CHR ''/'' # r"
      then obtain r where r: "t = ?d @ CHR ''/'' # r" ..
      with m below [of r] have "r \<noteq> []" by metis
      with r show ?thesis by simp
    qed simp
  next
    assume "t = ?d \<or> (\<exists>r. r \<noteq> [] \<and> t = CHR ''/'' # n @ CHR ''/'' # r)"
    then show "match_impl (?d @ ''/**'') t"
    proof
      assume "t = ?d"
      with whole show ?thesis by metis
    next
      assume "\<exists>r. r \<noteq> [] \<and> t = CHR ''/'' # n @ CHR ''/'' # r"
      then obtain r where "r \<noteq> []" "t = ?d @ CHR ''/'' # r" by auto
      with below [of r] show ?thesis by metis
    qed
  qed
qed


text \<open>A double star finds a literal tail anywhere, in the middle of a name too.\<close>

lemma match_anywhere:
  assumes "match_impl (skip_slashes p) s" and "t = xs @ s" and "t \<noteq> []"
  shows "match_impl (''**'' @ p) t"
proof -
  obtain d t' where t: "t = d # t'" using assms(3) by (cases t) auto
  have "drop (length xs) t = s" "length xs < Suc (length t)" using assms(2) by simp_all
  then have "list_ex (\<lambda>pos. match_impl (skip_slashes p) (drop pos t)) [0..<Suc (length t)]"
    using assms(1) unfolding list_ex_iff
    by (intro bexI [of _ "length xs"]) (auto simp: less_Suc_eq)
  then show ?thesis unfolding t by simp
qed

section \<open>Decisions\<close>

lemma first_match_Some:
  "first_match rs t = Some r \<longleftrightarrow>
   (\<exists>as bs. rs = as @ r # bs \<and> match_pattern (ru_pattern r) t \<and>
      (\<forall>a\<in>set as. \<not> match_pattern (ru_pattern a) t))"
proof (induction rs)
  case (Cons x rs)
  show ?case
  proof (cases "match_pattern (ru_pattern x) t")
    case True
    then show ?thesis by (auto simp: Cons_eq_append_conv intro: exI [of _ "[]"])
  next
    case False
    then show ?thesis using Cons by (auto simp: Cons_eq_append_conv) (metis set_ConsD)
  qed
qed simp

lemma first_match_None: "first_match rs t = None \<longleftrightarrow> (\<forall>r\<in>set rs. \<not> match_pattern (ru_pattern r) t)"
  by (induction rs) auto

lemma match_pattern_directory:
  assumes "n \<noteq> []" "\<forall>c\<in>set n. \<not> wild c \<and> c \<noteq> CHR ''/''"
  shows "match_pattern (CHR ''/'' # n @ ''/**'') t \<longleftrightarrow>
    t = CHR ''/'' # n \<or> (\<exists>r. r \<noteq> [] \<and> t = CHR ''/'' # n @ CHR ''/'' # r)"
  using match_directory [OF assms] by (simp add: match_pattern_def)

definition protected_names :: "string list" where
  "protected_names = [''etc'', ''usr'', ''boot'', ''dev'']"

lemma protected_literal: "n \<in> set protected_names \<Longrightarrow> n \<noteq> [] \<and> (\<forall>c\<in>set n. \<not> wild c \<and> c \<noteq> CHR ''/'')"
  by (auto simp: protected_names_def wild_def)

definition git_rule :: permission_rule where
  "git_rule = rule ''**/.git/**'' Deny ''Git internal files''"

definition node_rule :: permission_rule where
  "node_rule = rule ''**/node_modules/**'' Ask ''Dependencies''"

lemma default_rules:
  "pm_rules (load_defaults new_manager) =
     [git_rule, node_rule, rule ''/etc/**'' Deny ''System configuration'',
      rule ''/usr/**'' Deny ''System files'', rule ''/boot/**'' Deny ''Boot files'',
      rule ''/dev/**'' Deny ''Device files'']"
  "pm_mode (load_defaults new_manager) = ''default''"
  "pm_default_level (load_defaults new_manager) = Ask"
  by (simp_all add: load_defaults_def add_rule_def new_manager_def git_rule_def node_rule_def)

lemma first_match_protected:
  assumes n: "n \<in> set protected_names" and t: "t = CHR ''/'' # n @ CHR ''/'' # r"
    and "\<not> match_pattern ''**/.git/**'' t" "\<not> match_pattern ''**/node_modules/**'' t"
  shows "first_match (pm_rules (load_defaults new_manager)) t =
    (if r = [] then None
     else Some (rule (CHR ''/'' # n @ ''/**'') Deny
       (if n = ''etc'' then ''System configuration'' else if n = ''usr'' then ''System files''
        else if n = ''boot'' then ''Boot files'' else ''Device files'')))"
proof -
  have m: "match_pattern (CHR ''/'' # k @ ''/**'') t \<longleftrightarrow> k = n \<and> r \<noteq> []"
    if k: "k \<in> set protected_names" for k
  proof -
    have slash: "CHR ''/'' \<notin> set k" "CHR ''/'' \<notin> set n"
      using protected_literal [OF k] protected_literal [OF n] by auto
    have lit: "k \<noteq> []" "\<forall>c\<in>set k. \<not> wild c \<and> c \<noteq> CHR ''/''" using protected_literal [OF k] by auto
    have "(t = CHR ''/'' # k @ CHR ''/'' # x) = (k = n \<and> x = r)" for x
      unfolding t using append_sep_eq [OF slash, of x r] by auto
    moreover have "t \<noteq> CHR ''/'' # k" unfolding t using slash by auto
    ultimately show ?thesis unfolding match_pattern_directory [OF lit] by blast
  qed
  note e = m [of "''etc''", simplified protected_names_def, simplified]
    and u = m [of "''usr''", simplified protected_names_def, simplified]
    and b = m [of "''boot''", simplified protected_names_def, simplified]
    and d = m [of "''dev''", simplified protected_names_def, simplified]
  have "n = ''etc'' \<or> n = ''usr'' \<or> n = ''boot'' \<or> n = ''dev''"
    using n by (auto simp: protected_names_def)
  then show ?thesis
    unfolding default_rules git_rule_def node_rule_def rule_def first_match.simps
      permission_rule.simps e u b d
    using assms(3,4) by (elim disjE) simp_all
qed

text \<open>
  C28: With the default rules every path below a protected directory is denied or, when a
  \<open>node_modules\<close> rule comes first, asked for, and never allowed; but the directory written
  with a trailing slash matches no rule of its own, so it gets the default level.
\<close>

theorem default_rules_protect:
  assumes "n \<in> set protected_names" and "t = CHR ''/'' # n @ CHR ''/'' # r"
  shows "(r \<noteq> [] \<longrightarrow> de_level (check a t (load_defaults new_manager)) \<in> {Deny, Ask} \<and>
      (\<not> match_pattern ''**/node_modules/**'' t \<longrightarrow>
         de_level (check a t (load_defaults new_manager)) = Deny)) \<and>
    (r = [] \<and> \<not> match_pattern ''**/.git/**'' t \<and> \<not> match_pattern ''**/node_modules/**'' t \<longrightarrow>
      check a t (load_defaults new_manager) = \<lparr>de_level = Ask, de_matched_rule = [], de_reason = []\<rparr>)"
proof -
  let ?m = "load_defaults new_manager"
  have check: "check a t ?m = (case first_match (pm_rules ?m) t of
      Some r \<Rightarrow> \<lparr>de_level = ru_level r, de_matched_rule = ru_pattern r, de_reason = ru_description r\<rparr>
    | None \<Rightarrow> \<lparr>de_level = Ask, de_matched_rule = [], de_reason = []\<rparr>)"
    by (simp add: check_def bypass_mode_def default_rules)
  consider (git) "match_pattern ''**/.git/**'' t"
    | (node) "\<not> match_pattern ''**/.git/**'' t" "match_pattern ''**/node_modules/**'' t"
    | (none) "\<not> match_pattern ''**/.git/**'' t" "\<not> match_pattern ''**/node_modules/**'' t" by blast
  then show ?thesis
  proof cases
    case git
    then have "first_match (pm_rules ?m) t = Some git_rule"
      by (simp add: default_rules git_rule_def rule_def)
    with git show ?thesis by (simp add: check git_rule_def rule_def)
  next
    case node
    then have "first_match (pm_rules ?m) t = Some node_rule"
      by (simp add: default_rules git_rule_def node_rule_def rule_def)
    with node show ?thesis by (simp add: check node_rule_def rule_def)
  next
    case none
    then show ?thesis using first_match_protected [OF assms none] by (simp add: check rule_def)
  qed
qed

lemma default_rules_protect_witness:
  "de_level (check ''write'' ''/etc/passwd'' (load_defaults new_manager)) \<in> {Deny, Ask}"
  using default_rules_protect [of "''etc''" "''/etc/passwd''" "''passwd''" "''write''"]
  by (simp add: protected_names_def)

text \<open>
  Outside the bypass modes the first rule whose pattern matches decides, and without one the
  default level; switching a bypass mode on and off again leaves the default level at
  \<open>Allow\<close>, so what no rule matches is then allowed.
\<close>

theorem bypass_leaves_allow:
  assumes "\<not> bypass_mode mode" and "bypass_mode bypass"
  shows "check a t (set_mode mode (set_mode bypass m)) =
    (case first_match (pm_rules m) t of
       Some r \<Rightarrow> \<lparr>de_level = ru_level r, de_matched_rule = ru_pattern r, de_reason = ru_description r\<rparr>
     | None \<Rightarrow> \<lparr>de_level = Allow, de_matched_rule = [], de_reason = []\<rparr>) \<and>
    check a t (set_mode mode m) =
    (case first_match (pm_rules m) t of
       Some r \<Rightarrow> \<lparr>de_level = ru_level r, de_matched_rule = ru_pattern r, de_reason = ru_description r\<rparr>
     | None \<Rightarrow> \<lparr>de_level = pm_default_level m, de_matched_rule = [], de_reason = []\<rparr>)"
  using assms by (simp add: check_def set_mode_def Let_def split: option.splits)

lemma bypass_leaves_allow_witness:
  "check ''run'' ''make'' (set_mode ''default'' (set_mode ''yolo'' new_manager)) =
     \<lparr>de_level = Allow, de_matched_rule = [], de_reason = []\<rparr>"
  using bypass_leaves_allow [of "''default''" "''yolo''" "''run''" "''make''" new_manager]
  by (simp add: bypass_mode_def new_manager_def)

end
