(* ===== verification/Sandbox.thy ===== *)
theory Sandbox
  imports String_Utils Paths
begin

text \<open>
  \<open>Sandbox\<close> of \<open>src/permissions/permission_manager.h\<close> and \<open>src/permissions/sandbox.cpp\<close>:
  the checks of paths and commands. \<open>std::filesystem::absolute\<close> prepends the working
  directory, an argument here, and changes nothing else of the path.
\<close>

datatype sandbox_level = No_Sandbox | Restricted | Full

record sandbox =
  sb_level :: sandbox_level
  sb_allowed_paths :: "string list"
  sb_blocked_paths :: "string list"
  sb_allowed_commands :: "string list"
  sb_blocked_commands :: "string list"

definition new_sandbox :: "sandbox_level \<Rightarrow> sandbox" where
  "new_sandbox l = \<lparr>sb_level = l, sb_allowed_paths = [], sb_blocked_paths = [],
     sb_allowed_commands = [], sb_blocked_commands = []\<rparr>"

definition allow_path :: "string \<Rightarrow> sandbox \<Rightarrow> sandbox" where
  "allow_path p s = s\<lparr>sb_allowed_paths := sb_allowed_paths s @ [p]\<rparr>"

definition block_path :: "string \<Rightarrow> sandbox \<Rightarrow> sandbox" where
  "block_path p s = s\<lparr>sb_blocked_paths := sb_blocked_paths s @ [p]\<rparr>"

definition allow_command :: "string \<Rightarrow> sandbox \<Rightarrow> sandbox" where
  "allow_command p s = s\<lparr>sb_allowed_commands := sb_allowed_commands s @ [p]\<rparr>"

definition block_command :: "string \<Rightarrow> sandbox \<Rightarrow> sandbox" where
  "block_command p s = s\<lparr>sb_blocked_commands := sb_blocked_commands s @ [p]\<rparr>"

section \<open>Checks\<close>

definition absolute :: "string \<Rightarrow> string \<Rightarrow> string" where
  "absolute cwd p = path_append cwd p"

definition is_path_allowed :: "string \<Rightarrow> string \<Rightarrow> sandbox \<Rightarrow> bool" where
  "is_path_allowed cwd path s =
     (if sb_level s = No_Sandbox then True
      else (let norm_path = absolute cwd path in
        if list_ex (\<lambda>b. starts_with norm_path (absolute cwd b)) (sb_blocked_paths s) then False
        else if sb_level s = Restricted
        then list_ex (\<lambda>a. starts_with norm_path (absolute cwd a)) (sb_allowed_paths s)
        else True))"

text \<open>
  Only the first star of a pattern is a wildcard; \<open>find_last_of\<close> and \<open>substr\<close> leave the part
  after the last slash.
\<close>

definition match_glob :: "string \<Rightarrow> string \<Rightarrow> bool" where
  "match_glob s pattern =
     (if pattern = ''*'' then True
      else if pattern = s then True
      else (case str_find ''*'' pattern of
              None \<Rightarrow> s = pattern
            | Some star \<Rightarrow>
                (let pre = take star pattern; suf = drop (Suc star) pattern
                 in if suf = [] then starts_with s pre
                    else starts_with s pre \<and> ends_with s suf \<and> length s \<ge> length pre + length suf)))"

definition command_name :: "string \<Rightarrow> string" where
  "command_name command = path_filename (takeWhile (\<lambda>c. c \<noteq> CHR '' '') command)"

definition is_command_allowed :: "string \<Rightarrow> sandbox \<Rightarrow> bool" where
  "is_command_allowed command s =
     (if sb_level s = No_Sandbox then True
      else (let name = command_name command in
        if list_ex (match_glob name) (sb_blocked_commands s) then False
        else if sb_level s = Restricted \<and> sb_allowed_commands s \<noteq> []
        then list_ex (match_glob name) (sb_allowed_commands s)
        else True))"

section \<open>Commands\<close>

text \<open>
  A pattern with a star matches exactly the names that start with what is before its first
  star and end with what is after it, without overlap; further stars are literal. A pattern
  without a star matches only itself.
\<close>

theorem match_glob_spec:
  "(CHR ''*'' \<notin> set pre \<longrightarrow>
      match_glob s (pre @ CHR ''*'' # suf) = (\<exists>mid. s = pre @ mid @ suf)) \<and>
   (CHR ''*'' \<notin> set pat \<longrightarrow> match_glob s pat = (s = pat))"
proof (intro conjI impI)
  assume pre: "CHR ''*'' \<notin> set pre"
  have find: "str_find ''*'' (pre @ CHR ''*'' # suf) = Some (length pre)"
    using pre by (rule str_find_char)
  have over: "starts_with s pre \<and> ends_with s suf \<and> length s \<ge> length pre + length suf \<longleftrightarrow>
      (\<exists>mid. s = pre @ mid @ suf)"
  proof
    assume A: "starts_with s pre \<and> ends_with s suf \<and> length s \<ge> length pre + length suf"
    then obtain x where x: "s = pre @ x" by (auto simp: starts_with_prefix prefix_def)
    from A have "suffix suf s" by (simp add: ends_with_suffix)
    moreover have "suffix x s" by (auto simp: x suffix_def)
    moreover have "length suf \<le> length x" using A x by simp
    ultimately have "suffix suf x" by (metis suffix_length_suffix)
    then have "\<exists>mid. x = mid @ suf" by (auto simp: suffix_def)
    with x show "\<exists>mid. s = pre @ mid @ suf" by auto
  next
    assume "\<exists>mid. s = pre @ mid @ suf"
    then show "starts_with s pre \<and> ends_with s suf \<and> length s \<ge> length pre + length suf"
      by (auto simp: starts_with_prefix ends_with_suffix suffix_def)
  qed
  show "match_glob s (pre @ CHR ''*'' # suf) = (\<exists>mid. s = pre @ mid @ suf)"
  proof (cases "pre @ CHR ''*'' # suf = ''*''")
    case True
    then have "pre = []" "suf = []" by (cases pre; auto)+
    then show ?thesis by (simp add: match_glob_def)
  next
    case False
    have "suf = [] \<Longrightarrow> starts_with s pre \<longleftrightarrow> (\<exists>mid. s = pre @ mid @ suf)"
      by (auto simp: starts_with_prefix prefix_def)
    with over False show ?thesis
      by (auto simp: match_glob_def find Let_def)
  qed
next
  assume "CHR ''*'' \<notin> set pat"
  then show "match_glob s pat = (s = pat)"
    by (auto simp: match_glob_def str_find_char_None [THEN iffD2])
qed

lemma match_glob_spec_witness:
  "match_glob ''git-log'' ''git*log'' \<and> match_glob ''rm'' ''rm'' \<and> \<not> match_glob ''rmdir'' ''rm''"
proof -
  have "\<exists>mid. ''git-log'' = ''git'' @ mid @ ''log''" by (rule exI [of _ "''-''"]) simp
  moreover have "CHR ''*'' \<notin> set ''git''" "CHR ''*'' \<notin> set ''rm''" "''rmdir'' \<noteq> ''rm''" by simp_all
  ultimately have "match_glob ''git-log'' (''git'' @ CHR ''*'' # ''log'')" "match_glob ''rm'' ''rm''"
    "\<not> match_glob ''rmdir'' ''rm''"
    using match_glob_spec [of "''git''" "''git-log''" "''log''" "''rm''"]
      match_glob_spec [of "''git''" "''rm''" "''log''" "''rm''"]
      match_glob_spec [of "''git''" "''rmdir''" "''log''" "''rm''"] by blast+
  then show ?thesis by simp
qed

lemma takeWhile_no_space: "CHR '' '' \<notin> set w \<Longrightarrow> takeWhile (\<lambda>c. c \<noteq> CHR '' '') (w @ CHR '' '' # rest) = w"
  by (subst takeWhile_append2) auto

lemma takeWhile_word: "CHR '' '' \<notin> set w \<Longrightarrow> takeWhile (\<lambda>c. c \<noteq> CHR '' '') w = w"
  by (rule takeWhile_eq_all_conv [THEN iffD2]) auto

lemma command_name_first_word:
  "CHR '' '' \<notin> set w \<Longrightarrow> command_name (w @ CHR '' '' # rest) = command_name w"
  by (simp only: command_name_def takeWhile_no_space takeWhile_word simp_thms)

text \<open>
  In every sandbox the decision on a command looks at the name of its first word alone (the
  part after the last slash): whatever follows the first space, another command after a
  separator included, changes nothing. An unblocked name therefore lets a blocked one through
  behind it.
\<close>

theorem command_check_first_word:
  assumes "CHR '' '' \<notin> set w"
  shows "is_command_allowed (w @ CHR '' '' # rest) s = is_command_allowed w s \<and>
    (sb_level s \<noteq> No_Sandbox \<and> (\<exists>b\<in>set (sb_blocked_commands s). match_glob (path_filename w) b) \<longrightarrow>
      \<not> is_command_allowed (w @ CHR '' '' # rest) s)"
proof -
  have "command_name w = path_filename w" by (simp only: command_name_def takeWhile_word [OF assms])
  then show ?thesis
    using command_name_first_word [OF assms]
    by (auto simp: is_command_allowed_def Let_def list_ex_iff)
qed

lemma command_check_first_word_witness:
  "let s = block_command ''rm'' (new_sandbox Restricted) in
     is_command_allowed ''ls ; rm -rf /'' s \<and> \<not> is_command_allowed ''/bin/rm -rf /'' s"
proof -
  let ?s = "block_command ''rm'' (new_sandbox Restricted)"
  have "is_command_allowed ''ls'' ?s"
    by (simp add: is_command_allowed_def command_name_def path_filename_def block_command_def
        new_sandbox_def match_glob_def Let_def)
  moreover have "\<exists>b\<in>set (sb_blocked_commands ?s). match_glob (path_filename ''/bin/rm'') b"
    by (simp add: block_command_def new_sandbox_def match_glob_def path_filename_def)
  moreover have "sb_level ?s \<noteq> No_Sandbox" by (simp add: block_command_def new_sandbox_def)
  moreover have "CHR '' '' \<notin> set ''ls''" "CHR '' '' \<notin> set ''/bin/rm''" by simp_all
  ultimately show ?thesis
    unfolding Let_def
    using command_check_first_word [of "''ls''" "''; rm -rf /''" ?s, simplified append.simps]
      command_check_first_word [of "''/bin/rm''" "''-rf /''" ?s, simplified append.simps]
    by blast
qed

section \<open>Paths\<close>

text \<open>
  Prefixes are compared as strings and paths are not normalised. A blocked prefix blocks
  everything that continues it, over any allowed one; and an allowed prefix allows every
  continuation that no blocked prefix covers, whether a file below it, a sibling whose name
  starts the same, or a path that leaves it through \<open>..\<close>.
\<close>

theorem path_check_is_prefix:
  assumes "sb_level s = Restricted" and "is_absolute p"
  shows "(p \<in> set (sb_blocked_paths s) \<longrightarrow> \<not> is_path_allowed cwd (p @ x) s) \<and>
    (p \<in> set (sb_allowed_paths s) \<and>
       (\<forall>b\<in>set (sb_blocked_paths s). \<not> starts_with (p @ x) (absolute cwd b)) \<longrightarrow>
     is_path_allowed cwd (p @ x) s)"
proof -
  have "absolute cwd (p @ x) = p @ x" "absolute cwd p = p"
    using assms(2) by (simp_all add: absolute_def is_absolute_def)
  moreover have "starts_with (p @ x) p" by (simp add: starts_with_prefix)
  ultimately show ?thesis
    using assms(1) by (auto simp: is_path_allowed_def Let_def list_ex_iff intro!: bexI [of _ p])
qed

lemma path_check_is_prefix_witness:
  "let s = allow_path ''/home/u'' (block_path ''/etc'' (new_sandbox Restricted)) in
     is_path_allowed ''/'' ''/home/u/../../etc/shadow'' s \<and> is_path_allowed ''/'' ''/home/u2/key'' s"
proof -
  let ?s = "allow_path ''/home/u'' (block_path ''/etc'' (new_sandbox Restricted))"
  have "sb_level ?s = Restricted" "is_absolute ''/home/u''"
    by (simp_all add: allow_path_def block_path_def new_sandbox_def is_absolute_def)
  note pc = path_check_is_prefix [OF this, of "''/''"]
  from pc [of "''/../../etc/shadow''"] pc [of "''2/key''"] show ?thesis
    by (simp add: Let_def allow_path_def block_path_def new_sandbox_def absolute_def
        path_append_def is_absolute_def starts_with_prefix)
qed

end
