(* ===== verification/Json_Rpc.thy ===== *)
theory Json_Rpc
  imports Json_Sample
begin

text \<open>
  \<open>JsonRpc\<close> of \<open>src/protocol/json_rpc.h\<close> and \<open>json_rpc.cpp\<close>: the messages of JSON-RPC 2.0 and
  the dispatch of requests, single or in batches, to registered methods. A method's handler
  is a function of its parameters and of a world \<open>'w\<close> that it may change; \<open>what\<close> gives the text
  of an exception.
\<close>

section \<open>Messages\<close>

record 'j rpc_error =
  er_code :: int
  er_message :: string
  er_data :: "'j option"

record 'j rpc_request =
  rq_jsonrpc :: string
  rq_id :: string
  rq_method :: string
  rq_params :: 'j

record 'j rpc_response =
  rs_jsonrpc :: string
  rs_id :: string
  rs_result :: "'j option"
  rs_error :: "'j rpc_error option"

definition parse_error_code :: int where "parse_error_code = -32700"
definition invalid_request_code :: int where "invalid_request_code = -32600"
definition method_not_found_code :: int where "method_not_found_code = -32601"
definition internal_error_code :: int where "internal_error_code = -32603"

section \<open>Building messages\<close>

definition rpc_object :: "('j, 'z) jlib_scheme \<Rightarrow> 'j" where
  "rpc_object J = j_set J ''jsonrpc'' (j_string J ''2.0'') (j_null J)"

definition with_params :: "('j, 'z) jlib_scheme \<Rightarrow> 'j \<Rightarrow> 'j \<Rightarrow> 'j" where
  "with_params J params req = (if \<not> j_is_null J params then j_set J ''params'' params req else req)"

text \<open>A text that is not UTF-8 throws.\<close>

definition build_request ::
  "('j, 'z) jlib_scheme \<Rightarrow> string \<Rightarrow> string \<Rightarrow> 'j \<Rightarrow> cpp_exn + string" where
  "build_request J i method params =
     dump_json J (with_params J params
       (j_set J ''method'' (j_string J method) (j_set J ''id'' (j_string J i) (rpc_object J))))"

definition build_notification :: "('j, 'z) jlib_scheme \<Rightarrow> string \<Rightarrow> 'j \<Rightarrow> cpp_exn + string" where
  "build_notification J method params =
     dump_json J (with_params J params (j_set J ''method'' (j_string J method) (rpc_object J)))"

definition build_response :: "('j, 'z) jlib_scheme \<Rightarrow> string \<Rightarrow> 'j \<Rightarrow> cpp_exn + string" where
  "build_response J i result =
     dump_json J (j_set J ''result'' result (j_set J ''id'' (j_string J i) (rpc_object J)))"

definition error_object :: "('j, 'z) jlib_scheme \<Rightarrow> int \<Rightarrow> string \<Rightarrow> 'j" where
  "error_object J code message =
     j_object J [(''code'', j_int J code), (''message'', j_string J message)]"

definition build_error ::
  "('j, 'z) jlib_scheme \<Rightarrow> string \<Rightarrow> int \<Rightarrow> string \<Rightarrow> 'j \<Rightarrow> cpp_exn + string" where
  "build_error J i code message data =
     (let err = error_object J code message
      in dump_json J (j_set J ''error'' (if \<not> j_is_null J data then j_set J ''data'' data err else err)
                    (j_set J ''id'' (j_string J i) (rpc_object J))))"

section \<open>Parsing messages\<close>

definition member_string :: "('j, 'z) jlib_scheme \<Rightarrow> 'j \<Rightarrow> string \<Rightarrow> string \<Rightarrow> string option" where
  "member_string J msg k d =
     (if j_contains J msg k then Option.bind (j_at J msg k) (j_get_str J) else Some d)"

definition member_id :: "('j, 'z) jlib_scheme \<Rightarrow> 'j \<Rightarrow> string option" where
  "member_id J msg =
     (if j_contains J msg ''id''
      then Option.bind (j_at J msg ''id'') (\<lambda>v.
             if j_is_string J v then j_get_str J v
             else if j_is_number J v then map_option int_to_string (j_get_int J v)
             else Some [])
      else Some [])"

text \<open>Every exception is caught and answered with \<open>nullopt\<close>.\<close>

definition parse_request :: "('j, 'z) jlib_scheme \<Rightarrow> string \<Rightarrow> 'j rpc_request option" where
  "parse_request J raw =
     (case j_parse J raw of
        Inl e \<Rightarrow> None
      | Inr msg \<Rightarrow>
          Option.bind (member_string J msg ''jsonrpc'' ''2.0'') (\<lambda>version.
          Option.bind (member_id J msg) (\<lambda>i.
          Option.bind (member_string J msg ''method'' []) (\<lambda>method.
          Option.bind (if j_contains J msg ''params'' then j_at J msg ''params'' else Some (j_null J))
            (\<lambda>params.
              if method = [] then None
              else Some \<lparr>rq_jsonrpc = version, rq_id = i, rq_method = method, rq_params = params\<rparr>)))))"

definition parse_rpc_error :: "('j, 'z) jlib_scheme \<Rightarrow> 'j \<Rightarrow> 'j rpc_error option" where
  "parse_rpc_error J e =
     Option.bind (Option.bind (j_at J e ''code'') (j_get_int J)) (\<lambda>code.
     Option.bind (Option.bind (j_at J e ''message'') (j_get_str J)) (\<lambda>message.
       Some \<lparr>er_code = code, er_message = message,
             er_data = (if j_contains J e ''data'' then j_at J e ''data'' else None)\<rparr>))"

definition parse_response :: "('j, 'z) jlib_scheme \<Rightarrow> string \<Rightarrow> 'j rpc_response option" where
  "parse_response J raw =
     (case j_parse J raw of
        Inl e \<Rightarrow> None
      | Inr msg \<Rightarrow>
          Option.bind (member_string J msg ''jsonrpc'' ''2.0'') (\<lambda>version.
          Option.bind (member_id J msg) (\<lambda>i.
          Option.bind (if j_contains J msg ''error''
                       then map_option Some (Option.bind (j_at J msg ''error'') (parse_rpc_error J))
                       else Some None) (\<lambda>error.
            Some \<lparr>rs_jsonrpc = version, rs_id = i,
                  rs_result = (if j_contains J msg ''result'' then j_at J msg ''result'' else None),
                  rs_error = error\<rparr>))))"

section \<open>The dispatcher\<close>

type_synonym ('j, 'w) rpc_handler = "'j \<Rightarrow> 'w \<Rightarrow> (cpp_exn + 'j) \<times> 'w"

record ('j, 'w) json_rpc =
  jr_handlers :: "('j, 'w) rpc_handler omap"
  jr_next_id :: "64 word"

definition new_json_rpc :: "('j, 'w) json_rpc" where
  "new_json_rpc = \<lparr>jr_handlers = [], jr_next_id = 1\<rparr>"

definition register_method :: "string \<Rightarrow> ('j, 'w) rpc_handler \<Rightarrow> ('j, 'w) json_rpc \<Rightarrow> ('j, 'w) json_rpc" where
  "register_method method h s = s\<lparr>jr_handlers := om_put method h (jr_handlers s)\<rparr>"

definition unregister_method :: "string \<Rightarrow> ('j, 'w) json_rpc \<Rightarrow> ('j, 'w) json_rpc" where
  "unregister_method method s = s\<lparr>jr_handlers := om_del method (jr_handlers s)\<rparr>"

definition has_method :: "string \<Rightarrow> ('j, 'w) json_rpc \<Rightarrow> bool" where
  "has_method method s = (om_get (jr_handlers s) method \<noteq> None)"

definition method_count :: "('j, 'w) json_rpc \<Rightarrow> nat" where
  "method_count s = length (jr_handlers s)"

definition generate_id :: "('j, 'w) json_rpc \<Rightarrow> string \<times> ('j, 'w) json_rpc" where
  "generate_id s = (nat_to_string (unat (jr_next_id s)), s\<lparr>jr_next_id := jr_next_id s + 1\<rparr>)"

text \<open>A request's response; \<open>null\<close> for a notification, whose handler's exceptions are dropped.\<close>

definition error_reply :: "('j, 'z) jlib_scheme \<Rightarrow> 'j \<Rightarrow> int \<Rightarrow> string \<Rightarrow> 'j" where
  "error_reply J i code message =
     j_set J ''error'' (error_object J code message) (j_set J ''id'' i (rpc_object J))"

definition handle_single_raw ::
  "('j, 'z) jlib_scheme \<Rightarrow> (cpp_exn \<Rightarrow> string) \<Rightarrow> ('j, 'w) json_rpc \<Rightarrow> string \<Rightarrow> 'w \<Rightarrow> 'j \<times> 'w" where
  "handle_single_raw J what s raw w =
     (case parse_request J raw of
        None \<Rightarrow> (error_reply J (j_null J) invalid_request_code ''Invalid request'', w)
      | Some req \<Rightarrow>
          if rq_id req = []
          then (j_null J,
                case om_get (jr_handlers s) (rq_method req) of
                  None \<Rightarrow> w | Some h \<Rightarrow> snd (h (rq_params req) w))
          else
            (case om_get (jr_handlers s) (rq_method req) of
               None \<Rightarrow> (error_reply J (j_string J (rq_id req)) method_not_found_code
                          (''Method not found: '' @ rq_method req), w)
             | Some h \<Rightarrow>
                 (case h (rq_params req) w of
                    (Inr result, w') \<Rightarrow>
                      (j_set J ''result'' result (j_set J ''id'' (j_string J (rq_id req)) (rpc_object J)), w')
                  | (Inl e, w') \<Rightarrow>
                      (error_reply J (j_string J (rq_id req)) internal_error_code (what e), w'))))"

fun process_batch ::
  "('j, 'z) jlib_scheme \<Rightarrow> (cpp_exn \<Rightarrow> string) \<Rightarrow> ('j, 'w) json_rpc \<Rightarrow> 'j list \<Rightarrow> 'w \<Rightarrow> 'j list \<times> 'w" where
  "process_batch J what s [] w = ([], w)"
| "process_batch J what s (item # items) w =
     (case handle_single_raw J what s (j_dump J item) w of (resp, w1) \<Rightarrow>
        case process_batch J what s items w1 of (rs, w2) \<Rightarrow>
          (if \<not> j_is_null J resp then resp # rs else rs, w2))"

text \<open>
  The exception of printing an answer is not caught: a handler's result may hold a text that is
  not UTF-8, and the text of a parse error quotes the message.
\<close>

definition process ::
  "('j, 'z) jlib_scheme \<Rightarrow> (cpp_exn \<Rightarrow> string) \<Rightarrow> ('j, 'w) json_rpc \<Rightarrow> string \<Rightarrow> 'w \<Rightarrow>
   (cpp_exn + string) \<times> 'w" where
  "process J what s raw w =
     (case j_parse J raw of
        Inl e \<Rightarrow> (build_error J [] parse_error_code (''Parse error: '' @ e) (j_null J), w)
      | Inr msg \<Rightarrow>
          if j_is_array J msg
          then (if j_elems J msg = []
                then (build_error J [] invalid_request_code ''Empty batch'' (j_null J), w)
                else (case process_batch J what s (j_elems J msg) w of
                        (rs, w') \<Rightarrow> (dump_json J (j_array J rs), w')))
          else (case handle_single_raw J what s raw w of
                  (resp, w') \<Rightarrow> (if j_is_null J resp then Inr [] else dump_json J resp, w')))"

interpretation rpc_methods: erasable_registry "new_json_rpc"
  register_method "\<lambda>s. om_get (jr_handlers s)" unregister_method
  by unfold_locales (simp_all add: new_json_rpc_def register_method_def unregister_method_def)

section \<open>What is built is parsed back\<close>

definition rpc_laws :: "('j, 'z) jlib_scheme \<Rightarrow> bool" where
  "rpc_laws J =
     (law_parse_dump J \<and> law_set J \<and> law_strings J \<and> law_null J \<and> law_ints J \<and> law_object J \<and>
      law_printable J)"

lemma rpc_members:
  assumes "rpc_laws J"
  shows "j_printable J v \<Longrightarrow> j_parse J (j_dump J v) = Inr v" and "j_get_str J (j_string J x) = Some x"
    and "j_is_string J (j_string J x)" and "j_is_null J v = (v = j_null J)"
    and "settable J (j_null J)" and "\<not> j_contains J (j_null J) k"
    and "settable J v \<Longrightarrow> settable J (j_set J k w v)"
    and "settable J v \<Longrightarrow> j_contains J (j_set J k w v) k' = (k' = k \<or> j_contains J v k')"
    and "settable J v \<Longrightarrow> k' = k \<or> j_contains J v k' \<Longrightarrow>
      j_at J (j_set J k w v) k' = (if k' = k then Some w else j_at J v k')"
  using assms set_members [of J]
  by (simp_all add: rpc_laws_def law_parse_dump_def law_strings_def law_null_def)

lemma error_members:
  assumes "rpc_laws J"
  shows "settable J (error_object J code message)"
    and "j_contains J (error_object J code message) k = (k = ''code'' \<or> k = ''message'')"
    and "j_at J (error_object J code message) ''code'' = Some (j_int J code)"
    and "j_at J (error_object J code message) ''message'' = Some (j_string J message)"
  using assms by (auto simp: error_object_def rpc_laws_def law_object_def settable_def)

text \<open>
  Every message that is built is parsed back: requests and notifications with their
  identifier, method and parameters, responses with their result, errors with their code, their
  text and what data they carry.
\<close>

lemma rpc_printable:
  assumes "rpc_laws J"
  shows "build_request J i method params =
      (if utf8 i \<and> utf8 method \<and> (params = j_null J \<or> j_printable J params)
       then Inr (j_dump J (with_params J params
         (j_set J ''method'' (j_string J method) (j_set J ''id'' (j_string J i) (rpc_object J)))))
       else Inl Json_Type_Error)"
    and "build_notification J method params =
      (if utf8 method \<and> (params = j_null J \<or> j_printable J params)
       then Inr (j_dump J (with_params J params (j_set J ''method'' (j_string J method) (rpc_object J))))
       else Inl Json_Type_Error)"
    and "build_response J i result =
      (if utf8 i \<and> j_printable J result
       then Inr (j_dump J (j_set J ''result'' result (j_set J ''id'' (j_string J i) (rpc_object J))))
       else Inl Json_Type_Error)"
proof -
  have "law_printable J" using assms by (simp add: rpc_laws_def)
  note printable = printableD(1,5,8) [OF this]
  show "build_request J i method params =
      (if utf8 i \<and> utf8 method \<and> (params = j_null J \<or> j_printable J params)
       then Inr (j_dump J (with_params J params
         (j_set J ''method'' (j_string J method) (j_set J ''id'' (j_string J i) (rpc_object J)))))
       else Inl Json_Type_Error)"
    by (auto simp: build_request_def dump_json_def with_params_def rpc_object_def rpc_members [OF assms] printable)
  show "build_notification J method params =
      (if utf8 method \<and> (params = j_null J \<or> j_printable J params)
       then Inr (j_dump J (with_params J params (j_set J ''method'' (j_string J method) (rpc_object J))))
       else Inl Json_Type_Error)"
    by (auto simp: build_notification_def dump_json_def with_params_def rpc_object_def rpc_members [OF assms]
        printable)
  show "build_response J i result =
      (if utf8 i \<and> j_printable J result
       then Inr (j_dump J (j_set J ''result'' result (j_set J ''id'' (j_string J i) (rpc_object J))))
       else Inl Json_Type_Error)"
    by (auto simp: build_response_def dump_json_def rpc_object_def rpc_members [OF assms] printable)
qed

lemma built_parses:
  "rpc_laws J \<Longrightarrow> dump_json J v = Inr raw \<Longrightarrow> j_parse J raw = Inr v"
  by (auto simp: dump_json_def rpc_laws_def law_parse_dump_def split: if_splits)

theorem rpc_messages_roundtrip:
  assumes "rpc_laws J" and "method \<noteq> []" and "- (2 ^ 31) \<le> code" and "code < 2 ^ 31"
  shows "(build_request J i method params = Inr raw \<longrightarrow> parse_request J raw =
      Some \<lparr>rq_jsonrpc = ''2.0'', rq_id = i, rq_method = method, rq_params = params\<rparr>) \<and>
    (build_notification J method params = Inr raw \<longrightarrow> parse_request J raw =
      Some \<lparr>rq_jsonrpc = ''2.0'', rq_id = [], rq_method = method, rq_params = params\<rparr>) \<and>
    (build_response J i result = Inr raw \<longrightarrow> parse_response J raw =
      Some \<lparr>rs_jsonrpc = ''2.0'', rs_id = i, rs_result = Some result, rs_error = None\<rparr>) \<and>
    (build_error J i code message data = Inr raw \<longrightarrow> parse_response J raw =
      Some \<lparr>rs_jsonrpc = ''2.0'', rs_id = i, rs_result = None,
            rs_error = Some \<lparr>er_code = code, er_message = message,
              er_data = (if data = j_null J then None else Some data)\<rparr>\<rparr>)"
proof -
  note members = rpc_members(2-9) [OF assms(1)] error_members [OF assms(1)]
  have code: "j_get_int J (j_int J code) = Some code"
    using assms(1,3,4) by (simp add: rpc_laws_def law_ints_def)
  note defs = parse_request_def parse_response_def with_params_def rpc_object_def member_string_def
    member_id_def parse_rpc_error_def
  note parses = built_parses [OF assms(1)]
  show ?thesis
  proof (intro conjI impI)
    assume "build_request J i method params = Inr raw"
    from parses [OF this [unfolded build_request_def]] show "parse_request J raw =
        Some \<lparr>rq_jsonrpc = ''2.0'', rq_id = i, rq_method = method, rq_params = params\<rparr>"
      using assms(2) by (simp add: defs members)
  next
    assume "build_notification J method params = Inr raw"
    from parses [OF this [unfolded build_notification_def]] show "parse_request J raw =
        Some \<lparr>rq_jsonrpc = ''2.0'', rq_id = [], rq_method = method, rq_params = params\<rparr>"
      using assms(2) by (simp add: defs members)
  next
    assume "build_response J i result = Inr raw"
    from parses [OF this [unfolded build_response_def]] show "parse_response J raw =
        Some \<lparr>rs_jsonrpc = ''2.0'', rs_id = i, rs_result = Some result, rs_error = None\<rparr>"
      by (simp add: defs members)
  next
    assume "build_error J i code message data = Inr raw"
    from parses [OF this [unfolded build_error_def Let_def]] show "parse_response J raw =
        Some \<lparr>rs_jsonrpc = ''2.0'', rs_id = i, rs_result = None,
            rs_error = Some \<lparr>er_code = code, er_message = message,
              er_data = (if data = j_null J then None else Some data)\<rparr>\<rparr>"
      by (simp add: defs members code)
  qed
qed

lemma rpc_messages_roundtrip_witness:
  "\<exists>raw. build_request coding_jlib ''7'' ''m'' (JInt 1) = Inr raw \<and> parse_request coding_jlib raw =
    Some \<lparr>rq_jsonrpc = ''2.0'', rq_id = ''7'', rq_method = ''m'', rq_params = JInt 1\<rparr>"
proof -
  have laws: "rpc_laws coding_jlib" by (simp add: rpc_laws_def coding_laws)
  have "\<exists>raw. build_request coding_jlib ''7'' ''m'' (JInt 1) = Inr raw"
    using rpc_printable(1) [OF laws, of "''7''" "''m''" "JInt 1"] by (simp add: coding_simps(3))
  with rpc_messages_roundtrip [OF laws, of "''m''" 0] show ?thesis by fastforce
qed

section \<open>Batches\<close>

text \<open>
  What a batch should do, item by item: an item is answered unless it is a notification, under
  its own identifier (\<open>null\<close> for an invalid one), and a valid one calls its method's handler.
\<close>

definition reply_id :: "('j, 'z) jlib_scheme \<Rightarrow> 'j \<Rightarrow> 'j option" where
  "reply_id J item =
     (case parse_request J (j_dump J item) of
        None \<Rightarrow> Some (j_null J)
      | Some req \<Rightarrow> if rq_id req = [] then None else Some (j_string J (rq_id req)))"

definition effect_of :: "('j, 'z) jlib_scheme \<Rightarrow> ('j, 'w) json_rpc \<Rightarrow> 'w \<Rightarrow> 'j \<Rightarrow> 'w" where
  "effect_of J s w item =
     (case parse_request J (j_dump J item) of
        None \<Rightarrow> w
      | Some req \<Rightarrow>
          (case om_get (jr_handlers s) (rq_method req) of
             None \<Rightarrow> w | Some h \<Rightarrow> snd (h (rq_params req) w)))"

definition valid_reply :: "('j, 'z) jlib_scheme \<Rightarrow> 'j \<Rightarrow> 'j \<Rightarrow> bool" where
  "valid_reply J i r =
     (j_at J r ''jsonrpc'' = Some (j_string J ''2.0'') \<and> j_contains J r ''id'' \<and> j_at J r ''id'' = Some i \<and>
      j_contains J r ''result'' \<noteq> j_contains J r ''error'')"

lemma reply_members:
  assumes "rpc_laws J"
  shows "valid_reply J i (error_reply J i code message)"
    and "valid_reply J i (j_set J ''result'' x (j_set J ''id'' i (rpc_object J)))"
    and "error_reply J i code message \<noteq> j_null J"
    and "j_set J ''result'' x (j_set J ''id'' i (rpc_object J)) \<noteq> j_null J"
  using rpc_members(5-9) [OF assms] set_members(4) [of J] assms
  by (auto simp: valid_reply_def error_reply_def rpc_object_def rpc_laws_def) metis+

lemma handle_single_spec:
  assumes "rpc_laws J" and "handle_single_raw J what s (j_dump J item) w = (r, w')"
  shows "w' = effect_of J s w item \<and>
    (case reply_id J item of None \<Rightarrow> r = j_null J | Some i \<Rightarrow> r \<noteq> j_null J \<and> valid_reply J i r)"
  using assms(2) reply_members [OF assms(1)]
  by (auto simp: handle_single_raw_def effect_of_def reply_id_def split: option.splits if_splits prod.splits sum.splits)

lemma process_batch_spec:
  assumes "rpc_laws J"
  shows "process_batch J what s items w = (rs, w') \<Longrightarrow>
    w' = foldl (effect_of J s) w items \<and>
    list_all2 (valid_reply J) (List.map_filter (reply_id J) items) rs"
proof (induction items arbitrary: w rs w')
  case Nil
  then show ?case by (simp add: map_filter_simps)
next
  case (Cons item items)
  obtain r w1 where one: "handle_single_raw J what s (j_dump J item) w = (r, w1)" by force
  obtain rs2 w2 where rest: "process_batch J what s items w1 = (rs2, w2)" by force
  have "w' = w2" "rs = (if r \<noteq> j_null J then r # rs2 else rs2)"
    using Cons.prems one rest assms by (auto simp: rpc_laws_def law_null_def)
  with Cons.IH [OF rest] handle_single_spec [OF assms one] show ?case
    by (auto simp: map_filter_simps split: option.splits)
qed

text \<open>
  C11: A batch. The valid items that name a registered method call its handler, one after the
  other and in order, notifications included; the answer is the list of the replies, one for
  each item that is no notification and in their order, each under its item's identifier (a
  number written as a string) and with either a result or an error. A batch of notifications is
  answered with the empty list. When one reply holds a text that is not UTF-8, the whole batch
  ends in an exception instead, after its handlers have run.
\<close>

theorem batch_answered:
  assumes "rpc_laws J" and "j_parse J raw = Inr msg" and "j_is_array J msg" and "j_elems J msg \<noteq> []"
  shows "\<exists>rs. process J what s raw w =
      (if list_all (j_printable J) rs then Inr (j_dump J (j_array J rs)) else Inl Json_Type_Error,
       foldl (effect_of J s) w (j_elems J msg)) \<and>
    list_all2 (valid_reply J) (List.map_filter (reply_id J) (j_elems J msg)) rs"
proof -
  obtain rs w' where batch: "process_batch J what s (j_elems J msg) w = (rs, w')" by force
  have "law_printable J" using assms(1) by (simp add: rpc_laws_def)
  with process_batch_spec [OF assms(1) batch] batch assms(2-4) show ?thesis
    by (intro exI [of _ rs]) (simp add: process_def dump_json_def printableD(6))
qed

definition sample_methods :: "(jv, int list) json_rpc" where
  "sample_methods = register_method ''add'' (\<lambda>v w. case v of JInt i \<Rightarrow> (Inr JNull, w @ [i])
     | _ \<Rightarrow> (Inl Json_Type_Error, w)) new_json_rpc"

definition sample_batch :: "jv list" where
  "sample_batch = [JObj [(''method'', JStr ''add''), (''params'', JInt 1)],
     JObj [(''id'', JInt 5), (''method'', JStr ''add''), (''params'', JInt 2)]]"

lemma batch_answered_witness:
  "\<exists>rs. process coding_jlib (\<lambda>e. []) sample_methods (j_dump coding_jlib (JArr sample_batch)) [] =
      (if list_all jv_printable rs then Inr (j_dump coding_jlib (JArr rs)) else Inl Json_Type_Error, [1, 2]) \<and>
    list_all2 (valid_reply coding_jlib) [JStr ''5''] rs"
proof -
  have five: "int_to_string 5 = ''5''" by code_simp
  have laws: "rpc_laws coding_jlib" by (simp add: rpc_laws_def coding_laws)
  have parse: "jv_printable v \<Longrightarrow> j_parse coding_jlib (j_dump coding_jlib v) = Inr v" for v
    by simp
  note fields = coding_simps(3-)
  have req: "parse_request coding_jlib (j_dump coding_jlib (sample_batch ! 0)) =
      Some \<lparr>rq_jsonrpc = ''2.0'', rq_id = [], rq_method = ''add'', rq_params = JInt 1\<rparr>"
    "parse_request coding_jlib (j_dump coding_jlib (sample_batch ! 1)) =
      Some \<lparr>rq_jsonrpc = ''2.0'', rq_id = ''5'', rq_method = ''add'', rq_params = JInt 2\<rparr>"
    by (simp_all add: parse_request_def parse member_string_def member_id_def fields sample_batch_def
        jv_defs five)
  have batch: "j_elems coding_jlib (JArr sample_batch) = [sample_batch ! 0, sample_batch ! 1]"
    by (simp add: fields sample_batch_def)
  have run: "foldl (effect_of coding_jlib sample_methods) [] (j_elems coding_jlib (JArr sample_batch)) = [1, 2]"
    and ids: "List.map_filter (reply_id coding_jlib) (j_elems coding_jlib (JArr sample_batch)) = [JStr ''5'']"
    unfolding batch using req by (simp_all add: effect_of_def reply_id_def sample_methods_def
        register_method_def new_json_rpc_def om_get_def map_filter_simps fields)
  have array: "j_is_array coding_jlib (JArr sample_batch)" by (simp add: fields jv_is_array_def)
  show ?thesis
    using batch_answered [OF laws parse array, of "\<lambda>e. []" sample_methods "[]", unfolded run ids]
    by (simp add: batch fields parse cong: if_cong split del: if_split)
      (simp add: sample_batch_def cong: if_cong split del: if_split)
qed

text \<open>
  A message that does not parse is answered with the parser's own words, which quote it: when
  they are not UTF-8, as for a message that is not, there is no answer but an exception.
\<close>

theorem unreadable_message_throws:
  assumes "rpc_laws J" and "j_parse J raw = Inl e" and "\<not> utf8 e"
  shows "process J what s raw w = (Inl Json_Type_Error, w)"
proof -
  have "law_printable J" "law_object J" using assms(1) by (simp_all add: rpc_laws_def)
  note printable = printableD(1,2,7,8) [OF this(1)]
  have "\<not> utf8 (''Parse error: '' @ e)" using assms(3) by simp
  then show ?thesis
    using assms(2)
    by (simp add: process_def build_error_def dump_json_def error_object_def rpc_object_def
        rpc_members(4-9) [OF assms(1)] printable)
qed

lemma unreadable_message_throws_witness:
  "\<exists>J :: jv jlib. process J (\<lambda>e. []) new_json_rpc [CHR 0xFF] () = (Inl Json_Type_Error, ())"
proof -
  let ?J = "sample_jlib (\<lambda>s. if s = [CHR 0xFF] then Inl s else coding_parse s)
      (\<lambda>v. replicate (to_nat v) CHR ''1'')"
  have "law_printable ?J"
    by (rule sample_law_printable) (auto simp: coding_parse_def Let_def split: if_splits)
  moreover have "replicate n CHR ''1'' \<noteq> [CHR 0xFF]" for n by (cases n) simp_all
  then have "law_parse_dump ?J" by (simp add: law_parse_dump_def coding_parse_def)
  ultimately have "rpc_laws ?J" by (simp add: rpc_laws_def sample_laws sample_law_set)
  from unreadable_message_throws [OF this, of "[CHR 0xFF]" "[CHR 0xFF]"] show ?thesis
    by (intro exI [of _ ?J]) (simp add: byte_in_def)
qed

section \<open>Identifiers\<close>

lemma generate_id_run:
  "((\<lambda>s. snd (generate_id s)) ^^ k) s = s\<lparr>jr_next_id := jr_next_id s + of_nat k\<rparr>"
  by (induction k) (simp_all add: generate_id_def algebra_simps)

text \<open>The identifiers of up to \<open>2 ^ 64\<close> calls in a row are different.\<close>

theorem generated_ids_distinct:
  assumes "n \<le> 2 ^ 64"
  shows "distinct (map (\<lambda>k. fst (generate_id (((\<lambda>s. snd (generate_id s)) ^^ k) s))) [0..<n])"
proof -
  have small: "unat (of_nat j :: 64 word) = j" if "j < n" for j
    using that assms by (simp add: unsigned_of_nat take_bit_nat_eq_self)
  have "j = k" if "j < n" "k < n" "(of_nat j :: 64 word) = of_nat k" for j k
    using small [OF that(1)] small [OF that(2)] that(3) by metis
  then have "inj_on (\<lambda>k. nat_to_string (unat (jr_next_id s + of_nat k))) (set [0..<n])"
    by (intro inj_onI) (auto simp: word_unat_eq_iff [symmetric])
  moreover have "fst (generate_id (((\<lambda>s. snd (generate_id s)) ^^ k) s)) =
      nat_to_string (unat (jr_next_id s + of_nat k))" for k
    unfolding generate_id_run by (simp add: generate_id_def)
  ultimately show ?thesis by (simp add: distinct_map)
qed

end
