(* ===== verification/Effects.thy ===== *)
theory Effects
  imports Json
begin

text \<open>
  Computations that change a state and may throw: what is thrown leaves the state as it was
  changed up to there. Used for the protocol clients, whose operations make several calls one
  after the other.
\<close>

type_synonym ('a, 's) effect = "'s \<Rightarrow> (cpp_exn + 'a) \<times> 's"

definition ret :: "'a \<Rightarrow> ('a, 's) effect" where
  "ret x s = (Inr x, s)"

definition throw :: "cpp_exn \<Rightarrow> ('a, 's) effect" where
  "throw e s = (Inl e, s)"

definition pure_exn :: "cpp_exn + 'a \<Rightarrow> ('a, 's) effect" where
  "pure_exn r s = (r, s)"

definition modify :: "('s \<Rightarrow> 's) \<Rightarrow> (unit, 's) effect" where
  "modify f s = (Inr (), f s)"

definition look :: "('s \<Rightarrow> 'a) \<Rightarrow> ('a, 's) effect" where
  "look f s = (Inr (f s), s)"

definition andthen :: "('a, 's) effect \<Rightarrow> ('a \<Rightarrow> ('b, 's) effect) \<Rightarrow> ('b, 's) effect" where
  "andthen m f s = (case m s of (Inl e, s') \<Rightarrow> (Inl e, s') | (Inr x, s') \<Rightarrow> f x s')"

text \<open>A handler for every exception.\<close>

definition catch_with :: "('a, 's) effect \<Rightarrow> (cpp_exn \<Rightarrow> ('a, 's) effect) \<Rightarrow> ('a, 's) effect" where
  "catch_with m h s = (case m s of (Inl e, s') \<Rightarrow> h e s' | (Inr x, s') \<Rightarrow> (Inr x, s'))"

lemma effect_simps [simp]:
  "ret x s = (Inr x, s)" "throw e s = (Inl e, s)" "pure_exn r s = (r, s)"
  "modify f s = (Inr (), f s)" "look g s = (Inr (g s), s)"
  by (simp_all add: ret_def throw_def pure_exn_def modify_def look_def)

lemma andthen_simps [simp]:
  "andthen (ret x) f = f x" "andthen (throw e) f = throw e"
  "andthen (pure_exn (Inr x)) f = f x"
  by (rule ext, simp add: andthen_def)+

lemma andthen_eq:
  "andthen m f s = (r, s'') \<longleftrightarrow>
    (\<exists>e. m s = (Inl e, s'') \<and> r = Inl e) \<or> (\<exists>x s'. m s = (Inr x, s') \<and> f x s' = (r, s''))"
  by (auto simp: andthen_def split: prod.splits sum.splits)

lemma andthen_run: "m s = (Inr x, s') \<Longrightarrow> andthen m f s = f x s'"
  by (simp add: andthen_def)

lemma andthen_fails: "m s = (Inl e, s') \<Longrightarrow> andthen m f s = (Inl e, s')"
  by (simp add: andthen_def)

section \<open>Relations between the states before and after\<close>

text \<open>\<open>relates R m\<close>: whatever \<open>m\<close> returns or throws, \<open>R\<close> relates its states.\<close>

definition relates :: "('s \<Rightarrow> 's \<Rightarrow> bool) \<Rightarrow> ('a, 's) effect \<Rightarrow> bool" where
  "relates R m = (\<forall>s. R s (snd (m s)))"

lemma relatesD: "relates R m \<Longrightarrow> m s = (r, s') \<Longrightarrow> R s s'"
  unfolding relates_def by (metis snd_conv)

named_theorems relates "rules for relates"

lemma relates_simple [relates]:
  assumes "reflp R"
  shows "relates R (ret x)" "relates R (throw e)" "relates R (pure_exn r)" "relates R (look f)"
  using assms by (simp_all add: relates_def reflp_def)

lemma relates_modify: "(\<And>s. R s (f s)) \<Longrightarrow> relates R (modify f)"
  by (simp add: relates_def)

lemma relates_andthen [relates]:
  assumes "transp R" and "relates R m" and "\<And>x. relates R (f x)"
  shows "relates R (andthen m f)"
proof -
  have "R s (snd (andthen m f s))" for s
  proof (cases "m s")
    case (Pair r s')
    with assms(2) have "R s s'" by (rule relatesD)
    moreover have "R s' (snd (f x s'))" for x using assms(3) by (simp add: relates_def)
    ultimately show ?thesis
      using assms(1) by (cases r) (auto simp: andthen_def Pair dest: transpD)
  qed
  then show ?thesis by (simp add: relates_def)
qed

lemma relates_catch [relates]:
  assumes "transp R" and "relates R m" and "\<And>e. relates R (h e)"
  shows "relates R (catch_with m h)"
proof -
  have "R s (snd (catch_with m h s))" for s
  proof (cases "m s")
    case (Pair r s')
    with assms(2) have "R s s'" by (rule relatesD)
    moreover have "R s' (snd (h e s'))" for e using assms(3) by (simp add: relates_def)
    ultimately show ?thesis
      using assms(1) by (cases r) (auto simp: catch_with_def Pair dest: transpD)
  qed
  then show ?thesis by (simp add: relates_def)
qed

lemma relates_if [relates]:
  "relates R m \<Longrightarrow> relates R m' \<Longrightarrow> relates R (if b then m else m')"
  by simp

lemma relates_option [relates]:
  "relates R m \<Longrightarrow> (\<And>x. relates R (f x)) \<Longrightarrow> relates R (case o' of None \<Rightarrow> m | Some x \<Rightarrow> f x)"
  by (simp split: option.split)

end
