(* ===== verification/Framing.thy ===== *)
theory Framing
  imports Json
begin

text \<open>
  Messages framed by a \<open>Content-Length\<close> header, as the MCP client, the MCP connection and the
  LSP client write them to a child process and read them back: \<open>write_message\<close> and
  \<open>read_response\<close> of \<open>src/protocol/mcp/mcp_client.cpp\<close>, \<open>McpConnection::send\<close> and
  \<open>receive\<close> of \<open>mcp_transport.cpp\<close>, \<open>send_message\<close> and \<open>receive_message\<close> of
  \<open>src/protocol/lsp/lsp_client.cpp\<close>.

  What arrives from the child is a list of events. A list that is used up means that nothing
  arrives any more: a reader that waits with \<open>poll\<close> then times out, one that just reads never
  returns (\<open>None\<close>).
\<close>

section \<open>Frames\<close>

definition length_header :: string where
  "length_header = ''Content-Length: ''"

definition frame :: "string \<Rightarrow> string" where
  "frame message = length_header @ nat_to_string (length message) @ crlf @ crlf @ message"

text \<open>
  The header in a buffer: where the content starts, and its length as \<open>std::stoi\<close> reads it. It
  is there only when a length precedes the first empty line.
\<close>

definition find_header :: "string \<Rightarrow> (cpp_exn + nat \<times> int) option" where
  "find_header buf =
     (case (str_find (crlf @ crlf) buf, str_find length_header buf) of
        (Some header_end, Some cl_pos) \<Rightarrow>
          if cl_pos < header_end
          then Some (case stoi (case find_from buf crlf cl_pos of
                       None \<Rightarrow> drop (cl_pos + 16) buf
                     | Some cl_end \<Rightarrow> take (cl_end - cl_pos - 16) (drop (cl_pos + 16) buf)) of
                  Inl e \<Rightarrow> Inl (Stoi_Exn e)
                | Inr n \<Rightarrow> Inr (header_end + 4, n))
          else None
      | _ \<Rightarrow> None)"

text \<open>\<open>s.substr(pos, n)\<close> with a signed count, which converts to \<open>size_t\<close>.\<close>

definition size_of_int :: "int \<Rightarrow> nat" where
  "size_of_int n = unat (word_of_int n :: 64 word)"

definition substr_int :: "string \<Rightarrow> nat \<Rightarrow> int \<Rightarrow> string" where
  "substr_int s pos n = take (size_of_int n) (drop pos s)"

text \<open>The test of the MCP readers: the bytes after the header, as an \<open>int\<close>, are enough.\<close>

definition enough_bytes :: "string \<Rightarrow> nat \<Rightarrow> int \<Rightarrow> bool" where
  "enough_bytes buf start n = (n \<le> sint (word_of_nat (length buf - start) :: 32 word))"

section \<open>Reading without a buffer between calls\<close>

datatype input =
    Chunk string
  | Last_Chunk string
  | Silence
  | Interrupted
  | Closed

text \<open>
  \<open>Last_Chunk\<close> is a chunk after which the deadline has passed when the loop looks at the clock.
\<close>

definition take_message :: "string \<Rightarrow> (cpp_exn + string) option" where
  "take_message buf =
     (case find_header buf of
        None \<Rightarrow> None
      | Some (Inl e) \<Rightarrow> Some (Inl e)
      | Some (Inr (start, n)) \<Rightarrow>
          if enough_bytes buf start n then Some (Inr (substr_int buf start n)) else None)"

fun read_response :: "input list \<Rightarrow> string \<Rightarrow> ((cpp_exn + string) \<times> input list) option" where
  "read_response [] buf = None"
| "read_response (Silence # evs) buf = read_response evs buf"
| "read_response (Interrupted # evs) buf = read_response evs buf"
| "read_response (Closed # evs) buf = Some (Inr [], Closed # evs)"
| "read_response (Chunk s # evs) buf =
     (case take_message (buf @ s) of
        Some r \<Rightarrow> Some (r, evs)
      | None \<Rightarrow> read_response evs (buf @ s))"
| "read_response (Last_Chunk s # evs) buf =
     (case take_message (buf @ s) of
        Some r \<Rightarrow> Some (r, evs)
      | None \<Rightarrow> Some (Inr (buf @ s), evs))"

section \<open>Reading with a buffer\<close>

text \<open>
  \<open>McpConnection::receive\<close>: the buffer is looked at after a read only. The rest of the buffer
  starts at \<open>content_start + content_length\<close> in \<open>size_t\<close>, and \<open>substr\<close> throws behind the end.
\<close>

definition split_message :: "string \<Rightarrow> (cpp_exn + string \<times> string) option" where
  "split_message buf =
     (case find_header buf of
        None \<Rightarrow> None
      | Some (Inl e) \<Rightarrow> Some (Inl e)
      | Some (Inr (start, n)) \<Rightarrow>
          if enough_bytes buf start n
          then (let rest = size_of_int (int start + n)
                in Some (if length buf < rest then Inl Out_Of_Range
                         else Inr (substr_int buf start n, drop rest buf)))
          else None)"

fun connection_receive :: "input list \<Rightarrow> string \<Rightarrow> (cpp_exn + string) \<times> input list \<times> string" where
  "connection_receive (Chunk s # evs) buf =
     (case split_message (buf @ s) of
        Some (Inl e) \<Rightarrow> (Inl e, evs, buf @ s)
      | Some (Inr (m, rest)) \<Rightarrow> (Inr m, evs, rest)
      | None \<Rightarrow> connection_receive evs (buf @ s))"
| "connection_receive (Last_Chunk s # evs) buf =
     (case split_message (buf @ s) of
        Some (Inl e) \<Rightarrow> (Inl e, evs, buf @ s)
      | Some (Inr (m, rest)) \<Rightarrow> (Inr m, evs, rest)
      | None \<Rightarrow> (Inr [], evs, buf @ s))"
| "connection_receive (Closed # evs) buf = (Inr [], Closed # evs, buf)"
| "connection_receive (_ # evs) buf = (Inr [], evs, buf)"
| "connection_receive [] buf = (Inr [], [], buf)"

text \<open>
  \<open>LspClient::receive_message\<close>: the buffer is looked at before every read, and the test adds
  the length to the start in \<open>size_t\<close>.
\<close>

definition split_buffered :: "string \<Rightarrow> (cpp_exn + string \<times> string) option" where
  "split_buffered buf =
     (case find_header buf of
        None \<Rightarrow> None
      | Some (Inl e) \<Rightarrow> Some (Inl e)
      | Some (Inr (start, n)) \<Rightarrow>
          (let rest = size_of_int (int start + n)
           in if rest \<le> length buf then Some (Inr (substr_int buf start n, drop rest buf))
              else None))"

fun receive_message :: "input list \<Rightarrow> string \<Rightarrow> (cpp_exn + string) \<times> input list \<times> string" where
  "receive_message evs buf =
     (case split_buffered buf of
        Some (Inl e) \<Rightarrow> (Inl e, evs, buf)
      | Some (Inr (m, rest)) \<Rightarrow> (Inr m, evs, rest)
      | None \<Rightarrow>
          (case evs of
             Chunk s # evs' \<Rightarrow> receive_message evs' (buf @ s)
           | Last_Chunk s # evs' \<Rightarrow> (Inr [], evs', buf @ s)
           | Closed # evs' \<Rightarrow> (Inr [], Closed # evs', buf)
           | _ # evs' \<Rightarrow> (Inr [], evs', buf)
           | [] \<Rightarrow> (Inr [], [], buf)))"

declare receive_message.simps [simp del]

section \<open>Headers that are found\<close>

definition header :: "nat \<Rightarrow> string" where
  "header n = length_header @ nat_to_string n @ crlf @ crlf"

lemma frame_header: "frame m = header (length m) @ m"
  by (simp add: frame_def header_def)

lemma str_find_cons_notin:
  "c \<notin> set p \<Longrightarrow> str_find (c # pat) (p @ c # pat @ r) = Some (length p)"
  by (induction p) auto

lemma no_return: "CHR 0x0D \<notin> set (length_header @ nat_to_string n)"
  using nat_to_string_digits [of n] by (auto simp: is_digit_def length_header_def)

text \<open>
  Output of the child before a frame does no harm if it has no carriage return and does not
  contain the text of the header itself.
\<close>

definition harmless :: "string \<Rightarrow> bool" where
  "harmless noise = (CHR 0x0D \<notin> set noise \<and> \<not> contains_str noise length_header)"

lemma harmless_Nil [simp]: "harmless []"
proof -
  have "\<not> contains_str [] length_header" by code_simp
  then show ?thesis by (simp add: harmless_def)
qed

lemma header_marker:
  assumes "0 < i" and "i < 16"
  shows "length_header ! i \<noteq> CHR ''C''"
proof -
  have "\<forall>i\<in>set [1..<16]. length_header ! i \<noteq> CHR ''C''" by code_simp
  with assms show ?thesis by auto
qed

lemma length_length_header [simp]: "length length_header = 16"
  by (simp add: length_header_def)

lemma take_of_prefix: "prefix p s \<Longrightarrow> take (length p) s = p"
  by (auto simp: prefix_def)

lemma find_length_header:
  assumes "harmless noise"
  shows "str_find length_header (noise @ length_header @ x) = Some (length noise)"
proof (rule str_find_first, intro allI impI notI)
  fix j assume j: "j < length noise" and p: "prefix length_header (drop j (noise @ length_header @ x))"
  show False
  proof (cases "j + 16 \<le> length noise")
    case True
    then have "take 16 (drop j (noise @ length_header @ x)) = take 16 (drop j noise)" by simp
    moreover have "take 16 (drop j (noise @ length_header @ x)) = length_header"
      using take_of_prefix [OF p] by simp
    ultimately have "noise = take j noise @ length_header @ drop 16 (drop j noise)"
      by (metis append_take_drop_id)
    then have "contains_str noise length_header" by (auto simp: contains_str_iff)
    with assms show False by (simp add: harmless_def)
  next
    case False
    define i where "i = length noise - j"
    have i: "0 < i" "i < 16" using j False by (simp_all add: i_def)
    have "drop j (noise @ length_header @ x) ! i = CHR ''C''"
      using j by (simp add: i_def nth_append length_header_def)
    moreover have "drop j (noise @ length_header @ x) ! i = length_header ! i"
      using take_of_prefix [OF p] i by (metis length_length_header nth_take)
    ultimately show False using header_marker [OF i] by simp
  qed
qed

lemma find_empty_line:
  assumes "CHR 0x0D \<notin> set noise"
  shows "str_find (crlf @ crlf) (noise @ header n @ x) =
    Some (length noise + length (header n) - 4)"
  using str_find_cons_notin [of "CHR 0x0D" "noise @ length_header @ nat_to_string n" "CHR 0x0A # crlf" x]
    assms no_return [of n]
  by (simp add: header_def crlf_def)

lemma find_header_frame:
  assumes "harmless noise" and "n < 2 ^ 31"
  shows "find_header (noise @ header n @ x) =
    Some (Inr (length noise + length (header n), int n))"
proof -
  define ds where "ds = nat_to_string n"
  have cl: "str_find length_header (noise @ header n @ x) = Some (length noise)"
    using find_length_header [OF assms(1), of "ds @ crlf @ crlf @ x"] by (simp add: header_def ds_def)
  have line: "find_from (noise @ header n @ x) crlf (length noise) = Some (length noise + (16 + length ds))"
    using str_find_cons_notin [of "CHR 0x0D" "length_header @ ds" "[CHR 0x0A]" "crlf @ x"] no_return [of n]
    by (simp add: find_from_def header_def crlf_def ds_def)
  have digits: "take (length ds) (drop (length noise + 16) (noise @ header n @ x)) = ds"
    by (simp add: header_def ds_def)
  have val: "stoi ds = Inr (int n)"
    using stoi_nat_to_string [OF assms(2), of "[]"] by (simp add: ds_def)
  have empty: "str_find (crlf @ crlf) (noise @ header n @ x) = Some (length noise + (16 + length ds))"
    using find_empty_line [of noise n x] assms(1) by (simp add: harmless_def header_def ds_def crlf_def)
  show ?thesis
    using val by (simp add: find_header_def empty cl line digits) (simp add: header_def ds_def crlf_def)
qed

lemma find_header_partial:
  assumes "harmless noise" and k: "k < length (noise @ header n)"
  shows "find_header (take k (noise @ header n)) = None"
proof -
  let ?X = "noise @ header n" and ?E = "crlf @ crlf"
  have len: "length ?E = 4" by (simp add: crlf_def)
  have "str_find ?E ?X = Some (length ?X - 4)"
    using find_empty_line [of noise n "[]"] assms(1) by (simp add: harmless_def)
  from str_find_Some [OF this] have first: "\<forall>j<length ?X - 4. \<not> prefix ?E (drop j ?X)" by blast
  have "str_find ?E (take k ?X) = None"
  proof (rule ccontr)
    assume "str_find ?E (take k ?X) \<noteq> None"
    then obtain i where i: "str_find ?E (take k ?X) = Some i" by auto
    from str_find_Some [OF i] have "i + 4 \<le> length (take k ?X)" and p: "prefix ?E (drop i (take k ?X))"
      unfolding len by blast+
    then have "i < length ?X - 4" using k by simp
    moreover have "prefix ?E (drop i ?X)"
      using p by (metis append_take_drop_id drop_take prefix_def prefix_order.trans)
    ultimately show False using first by blast
  qed
  then show ?thesis by (simp add: find_header_def)
qed

section \<open>Frames are read back\<close>

lemma size_of_nat: "k < 2 ^ 64 \<Longrightarrow> size_of_int (int k) = k"
  by (simp add: size_of_int_def unsigned_of_nat take_bit_nat_eq_self)

lemma length_nat_to_string: "n < 10 ^ Suc k \<Longrightarrow> length (nat_to_string n) \<le> Suc k"
proof (induction k arbitrary: n)
  case 0
  then show ?case by (subst nat_to_string.simps) simp
next
  case (Suc k)
  have "n div 10 < 10 ^ Suc k" using Suc.prems by (simp add: less_mult_imp_div_less)
  with Suc.IH have "length (nat_to_string (n div 10)) \<le> Suc k" by blast
  then show ?case by (subst nat_to_string.simps) simp
qed

lemma length_header_bound: "n < 2 ^ 31 \<Longrightarrow> length (header n) \<le> 30"
  using length_nat_to_string [of n 9] by (simp add: header_def crlf_def)

lemma split_buffered_frame:
  assumes "harmless noise" and "length m < 2 ^ 31" and "length noise < 2 ^ 63"
  shows "split_buffered (noise @ frame m @ q) = Some (Inr (m, q))"
proof -
  define start where "start = length noise + length (header (length m))"
  have "start + length m < 2 ^ 64"
    using length_header_bound [OF assms(2)] assms(2,3) by (simp add: start_def)
  then have size: "size_of_int (int start + int (length m)) = start + length m"
    "size_of_int (int (length m)) = length m"
    using size_of_nat [of "start + length m"] size_of_nat [of "length m"] by simp_all
  have find: "find_header (noise @ frame m @ q) = Some (Inr (start, int (length m)))"
    using find_header_frame [OF assms(1,2), of "m @ q"] by (simp add: frame_header start_def)
  show ?thesis
    unfolding split_buffered_def find using size
    by (simp add: Let_def substr_int_def start_def) (simp add: frame_header)
qed

lemma split_buffered_partial:
  assumes "harmless noise" and "length m < 2 ^ 31" and "length noise < 2 ^ 63"
    and k: "k < length (noise @ frame m)"
  shows "split_buffered (take k (noise @ frame m)) = None"
proof (cases "k < length (noise @ header (length m))")
  case True
  then have "take k (noise @ frame m) = take k (noise @ header (length m))"
    by (simp add: frame_header)
  then show ?thesis
    using find_header_partial [OF assms(1) True] by (simp add: split_buffered_def)
next
  case False
  define start where "start = length noise + length (header (length m))"
  have "start + length m < 2 ^ 64"
    using length_header_bound [OF assms(2)] assms(2,3) by (simp add: start_def)
  then have size: "size_of_int (int start + int (length m)) = start + length m"
    using size_of_nat [of "start + length m"] by simp
  have "take k (noise @ frame m) = noise @ header (length m) @ take (k - start) m"
    using False by (simp add: frame_header start_def)
  with find_header_frame [OF assms(1,2)]
  have "find_header (take k (noise @ frame m)) = Some (Inr (start, int (length m)))"
    by (simp add: start_def)
  with size k show ?thesis
    by (simp add: split_buffered_def Let_def start_def frame_header)
qed

lemma enough_bytes_frame:
  assumes "length buf < 2 ^ 31" and "start \<le> length buf"
  shows "enough_bytes buf start (int n) = (n \<le> length buf - start)"
proof -
  define d where "d = length buf - start"
  have "d < 2 ^ 31" using assms by (simp add: d_def)
  then have "sint (word_of_nat d :: 32 word) = int d"
    by (simp add: signed_of_nat signed_take_bit_int_eq_self)
  then show ?thesis by (simp add: enough_bytes_def d_def)
qed

lemma receive_one:
  assumes "harmless noise" and "length noise < 2 ^ 63" and "length m < 2 ^ 31"
    and "buf @ concat cs = noise @ frame m @ q"
  shows "\<exists>cs' b. receive_message (map Chunk cs @ evs) buf = (Inr m, map Chunk cs' @ evs, b) \<and>
    b @ concat cs' = q"
  using assms(4)
proof (induction cs arbitrary: buf)
  case Nil
  with split_buffered_frame [OF assms(1,3,2)] show ?case
    by (intro exI [of _ "[]"] exI [of _ q]) (simp add: receive_message.simps)
next
  case (Cons c cs)
  have "buf @ concat (c # cs) = (noise @ frame m) @ q" using Cons.prems by simp
  then show ?case
  proof (cases rule: append_eq_cases)
    case (whole r)
    with split_buffered_frame [OF assms(1,3,2), of r] show ?thesis
      by (intro exI [of _ "c # cs"] exI [of _ r]) (simp add: receive_message.simps)
  next
    case (part r)
    then have "buf = take (length buf) (noise @ frame m)" "length buf < length (noise @ frame m)"
      by simp_all
    with split_buffered_partial [OF assms(1,3,2)] have "split_buffered buf = None" by metis
    moreover from Cons.IH [of "buf @ c"] Cons.prems
    obtain cs' b where "receive_message (map Chunk cs @ evs) (buf @ c) = (Inr m, map Chunk cs' @ evs, b)"
      "b @ concat cs' = q" by auto
    ultimately show ?thesis
      by (intro exI [of _ cs'] exI [of _ b]) (simp add: receive_message.simps [of _ buf])
  qed
qed

fun receive_many :: "nat \<Rightarrow> input list \<Rightarrow> string \<Rightarrow> (cpp_exn + string) list \<times> input list \<times> string" where
  "receive_many 0 evs buf = ([], evs, buf)"
| "receive_many (Suc n) evs buf =
     (case receive_message evs buf of (m, evs1, buf1) \<Rightarrow>
        case receive_many n evs1 buf1 of (ms, r) \<Rightarrow> (m # ms, r))"

definition on_the_wire :: "(string \<times> string) list \<Rightarrow> string" where
  "on_the_wire ms = concat (map (\<lambda>(noise, m). noise @ frame m) ms)"

lemma receive_many_frames:
  assumes "\<forall>(noise, m)\<in>set ms. harmless noise \<and> length noise < 2 ^ 63 \<and> length m < 2 ^ 31"
    and "buf @ concat cs = on_the_wire ms @ q"
  shows "\<exists>cs' b. receive_many (length ms) (map Chunk cs @ evs) buf =
      (map (Inr \<circ> snd) ms, map Chunk cs' @ evs, b) \<and> b @ concat cs' = q"
  using assms
proof (induction ms arbitrary: buf cs)
  case Nil
  then show ?case by (auto simp: on_the_wire_def)
next
  case (Cons p ms)
  obtain noise m where p: "p = (noise, m)" by force
  from Cons.prems(2) have "buf @ concat cs = noise @ frame m @ on_the_wire ms @ q"
    by (simp add: on_the_wire_def p)
  with receive_one [of noise m buf cs "on_the_wire ms @ q" evs] Cons.prems(1)
  obtain cs1 b1 where one: "receive_message (map Chunk cs @ evs) buf = (Inr m, map Chunk cs1 @ evs, b1)"
    "b1 @ concat cs1 = on_the_wire ms @ q" by (auto simp: p)
  from Cons.IH [OF _ one(2)] Cons.prems(1) one(1) show ?case by (auto simp: p)
qed

text \<open>
  C16: The LSP reader. Messages written one after the other, each possibly after harmless output,
  are returned one per call and in order, in whatever pieces the bytes arrive; what follows them
  is kept.
\<close>

theorem buffered_messages_in_order:
  assumes "\<forall>(noise, m)\<in>set ms. harmless noise \<and> length noise < 2 ^ 63 \<and> length m < 2 ^ 31"
    and "concat cs = on_the_wire ms @ q"
  shows "\<exists>cs' b. receive_many (length ms) (map Chunk cs @ evs) [] =
      (map (Inr \<circ> snd) ms, map Chunk cs' @ evs, b) \<and> b @ concat cs' = q"
  using receive_many_frames [of ms "[]" cs q evs] assms by simp

lemma buffered_messages_in_order_witness:
  "\<exists>cs' b. receive_many (Suc (Suc 0)) (map Chunk [''log '' @ frame ''a'' @ ''Con'', drop 3 (frame ''bc'') @ ''x'']) [] =
     ([Inr ''a'', Inr ''bc''], map Chunk cs', b) \<and> b @ concat cs' = ''x''"
proof -
  have "harmless ''log ''" unfolding harmless_def by code_simp
  moreover have "frame ''bc'' = ''Con'' @ drop 3 (frame ''bc'')" by code_simp
  ultimately show ?thesis
    using buffered_messages_in_order [of "[(''log '', ''a''), ([], ''bc'')]"
        "[''log '' @ frame ''a'' @ ''Con'', drop 3 (frame ''bc'') @ ''x'']" "''x''" "[]"]
    by (simp add: on_the_wire_def)
qed

text \<open>
  An empty line before any length, and every later frame is lost: whatever arrives, the reader
  answers with nothing.
\<close>

lemma find_header_blocked:
  assumes "harmless p"
  shows "find_header (p @ crlf @ crlf @ x) = None"
proof -
  have e: "str_find (crlf @ crlf) (p @ crlf @ crlf @ x) = Some (length p)"
    using str_find_cons_notin [of "CHR 0x0D" p "CHR 0x0A # crlf" x] assms
    by (simp add: harmless_def crlf_def)
  have "\<not> i < length p" if i: "str_find length_header (p @ crlf @ crlf @ x) = Some i" for i
  proof
    assume "i < length p"
    from str_find_Some [OF i] have pre: "prefix length_header (drop i (p @ crlf @ crlf @ x))" by blast
    show False
    proof (cases "i + 16 \<le> length p")
      case True
      then have "take 16 (drop i (p @ crlf @ crlf @ x)) = take 16 (drop i p)" by simp
      with take_of_prefix [OF pre] have "p = take i p @ length_header @ drop 16 (drop i p)"
        by (metis append_take_drop_id length_length_header)
      then have "contains_str p length_header" by (auto simp: contains_str_iff)
      with assms show False by (simp add: harmless_def)
    next
      case False
      define k where "k = length p - i"
      have k: "k < 16" "i + k = length p" using False \<open>i < length p\<close> by (simp_all add: k_def)
      have "length_header ! k = drop i (p @ crlf @ crlf @ x) ! k"
        using take_of_prefix [OF pre] k(1) by (metis length_length_header nth_take)
      also have "\<dots> = CHR 0x0D"
        by (simp add: crlf_def nth_append flip: k(2))
      finally have "length_header ! k = CHR 0x0D" .
      moreover have "\<forall>k\<in>set [0..<16]. length_header ! k \<noteq> CHR 0x0D" by code_simp
      ultimately show False using k(1) by auto
    qed
  qed
  then show ?thesis by (auto simp: find_header_def e split: option.split)
qed

text \<open>An empty line in the child's other output is the end of all messages.\<close>

theorem empty_line_blocks_reader:
  assumes "harmless p"
  shows "\<exists>evs' y. receive_message evs (p @ crlf @ crlf @ x) = (Inr [], evs', p @ crlf @ crlf @ x @ y)"
proof -
  have blocked: "split_buffered (p @ crlf @ crlf @ z) = None" for z
    using find_header_blocked [OF assms] by (simp add: split_buffered_def)
  show ?thesis
  proof (induction evs arbitrary: x)
    case Nil
    then show ?case by (simp add: receive_message.simps blocked)
  next
    case (Cons e evs)
    show ?case
      using Cons.IH [of "x @ s" for s]
      by (cases e) (fastforce simp: receive_message.simps [of "_ # _"] blocked)+
  qed
qed

lemma empty_line_blocks_reader_witness:
  "\<exists>evs' y. receive_message [Chunk (frame ''a'')] (''warning'' @ crlf @ crlf) =
     (Inr [], evs', ''warning'' @ crlf @ crlf @ y)"
proof -
  have "harmless ''warning''" unfolding harmless_def by code_simp
  from empty_line_blocks_reader [OF this, of "[Chunk (frame ''a'')]" "[]"] show ?thesis by simp
qed

section \<open>The MCP readers\<close>

lemma header_of_frame:
  assumes "length (frame m @ q) < 2 ^ 31"
  shows "find_header (frame m @ q) = Some (Inr (length (header (length m)), int (length m)))"
    and "enough_bytes (frame m @ q) (length (header (length m))) (int (length m))"
    and "substr_int (frame m @ q) (length (header (length m))) (int (length m)) = m"
    and "size_of_int (int (length (header (length m))) + int (length m)) = length (frame m)"
proof -
  have m: "length m < 2 ^ 31" using assms by (simp add: frame_header)
  from find_header_frame [OF harmless_Nil this, of "m @ q"]
  show "find_header (frame m @ q) = Some (Inr (length (header (length m)), int (length m)))"
    by (simp add: frame_header)
  show "enough_bytes (frame m @ q) (length (header (length m))) (int (length m))"
    using enough_bytes_frame [OF assms, of "length (header (length m))"] by (simp add: frame_header)
  show "substr_int (frame m @ q) (length (header (length m))) (int (length m)) = m"
    using size_of_nat [of "length m"] m by (simp add: substr_int_def frame_header)
  show "size_of_int (int (length (header (length m))) + int (length m)) = length (frame m)"
    using size_of_nat [of "length (frame m)"] assms by (simp add: frame_header)
qed

lemma part_of_frame:
  assumes "k < length (frame m)" and "length (frame m) < 2 ^ 31"
  shows "case find_header (take k (frame m)) of
      None \<Rightarrow> True
    | Some (Inl e) \<Rightarrow> False
    | Some (Inr (start, n)) \<Rightarrow> \<not> enough_bytes (take k (frame m)) start n"
proof (cases "k < length (header (length m))")
  case True
  then show ?thesis
    using find_header_partial [OF harmless_Nil, of k "length m"] by (simp add: frame_header)
next
  case False
  have m: "length m < 2 ^ 31" using assms by (simp add: frame_header)
  have t: "take k (frame m) = header (length m) @ take (k - length (header (length m))) m"
    using False by (simp add: frame_header)
  have "find_header (take k (frame m)) = Some (Inr (length (header (length m)), int (length m)))"
    using find_header_frame [OF harmless_Nil m] by (simp add: t)
  moreover have "\<not> enough_bytes (take k (frame m)) (length (header (length m))) (int (length m))"
    using enough_bytes_frame [of "take k (frame m)" "length (header (length m))"] assms False
    by (simp add: frame_header)
  ultimately show ?thesis by simp
qed

lemma take_message_frame: "length (frame m @ q) < 2 ^ 31 \<Longrightarrow> take_message (frame m @ q) = Some (Inr m)"
  using header_of_frame [of m q] by (simp add: take_message_def)

lemma split_message_frame:
  "length (frame m @ q) < 2 ^ 31 \<Longrightarrow> split_message (frame m @ q) = Some (Inr (m, q))"
  using header_of_frame [of m q] by (simp add: split_message_def)

lemma take_message_part:
  "k < length (frame m) \<Longrightarrow> length (frame m) < 2 ^ 31 \<Longrightarrow> take_message (take k (frame m)) = None"
  using part_of_frame [of k m] by (auto simp: take_message_def split: option.splits sum.splits)

text \<open>
  \<open>McpClient::read_response\<close>. A frame is returned as soon as its last piece is read, but its
  reader has no buffer of its own to keep: what came with that piece after the frame, a whole
  second message included, is lost; and a read on a silent child never returns, whatever the
  timeout.
\<close>

theorem response_drops_rest:
  assumes "concat cs @ c = frame m @ q" and "length (concat cs) < length (frame m)"
    and "length (frame m @ q) < 2 ^ 31" and "set quiet \<subseteq> {Silence, Interrupted}"
  shows "read_response (map Chunk cs @ Chunk c # evs) [] = Some (Inr m, evs) \<and>
    read_response quiet [] = None"
proof
  have parts: "take_message (take k (frame m)) = None" if "k < length (frame m)" for k
    using that take_message_part [of k m] assms(3) by simp
  have "read_response (map Chunk cs @ Chunk c # evs) buf = Some (Inr m, evs)"
    if "buf @ concat cs @ c = frame m @ q" "length (buf @ concat cs) < length (frame m)" for buf
    using that
  proof (induction cs arbitrary: buf)
    case Nil
    then have "buf @ c = frame m @ q" by simp
    with take_message_frame [OF assms(3)] show ?case by simp
  next
    case (Cons x cs)
    have "(buf @ x) @ concat cs @ c = frame m @ q" using Cons.prems(1) by simp
    then have "buf @ x = take (length (buf @ x)) (frame m)"
    proof (cases rule: append_eq_cases)
      case (whole r)
      then have "length (frame m) \<le> length (buf @ x)" by simp
      with Cons.prems(2) show ?thesis by simp
    qed simp
    with parts [of "length (buf @ x)"] Cons.prems(2) have "take_message (buf @ x) = None" by simp
    with Cons.IH [of "buf @ x"] Cons.prems show ?case by simp
  qed
  from this [of "[]"] assms(1,2)
  show "read_response (map Chunk cs @ Chunk c # evs) [] = Some (Inr m, evs)" by simp
  have "read_response quiet buf = None" for buf
    using assms(4) by (induction quiet) auto
  then show "read_response quiet [] = None" .
qed

lemma response_drops_rest_witness:
  "read_response (map Chunk [''Content-'', ''Length: 1''] @ Chunk (drop 17 (frame ''a'' @ frame ''b'')) # []) []
     = Some (Inr ''a'', []) \<and> read_response [] [] = None"
proof (rule response_drops_rest)
  show "concat [''Content-'', ''Length: 1''] @ drop 17 (frame ''a'' @ frame ''b'') = frame ''a'' @ frame ''b''"
    and "length (concat [''Content-'', ''Length: 1'']) < length (frame ''a'')"
    by code_simp+
  have "length (frame ''a'' @ frame ''b'') = 44" by code_simp
  then show "length (frame ''a'' @ frame ''b'') < 2 ^ 31" by simp
qed simp

text \<open>
  \<open>McpConnection::receive\<close>. Of two messages that arrive together the first is returned and
  the second kept; but as it is looked for after a read only, the next call times out on it as
  long as nothing else arrives, and returns it with the next bytes that do.
\<close>

theorem connection_waits_for_more:
  assumes "length (frame m @ frame m' @ s) < 2 ^ 31"
  shows "connection_receive (Chunk (frame m @ frame m') # evs) [] = (Inr m, evs, frame m') \<and>
    connection_receive (Silence # evs) (frame m') = (Inr [], evs, frame m') \<and>
    connection_receive (Chunk s # evs) (frame m') = (Inr m', evs, s)"
  using assms split_message_frame [of m "frame m'"] split_message_frame [of m' s] by simp

lemma connection_waits_for_more_witness:
  "connection_receive (Silence # [Closed]) (frame ''b'') = (Inr [], [Closed], frame ''b'')"
proof -
  have "length (frame ''a'' @ frame ''b'' @ ''x'') = 45" by code_simp
  then have "length (frame ''a'' @ frame ''b'' @ ''x'') < 2 ^ 31" by simp
  from connection_waits_for_more [OF this, of "[Closed]"] show ?thesis by blast
qed

end
