(* ===== verification/Lsp_Client.thy ===== *)
theory Lsp_Client
  imports Effects Framing Json_Sample
begin

text \<open>
  \<open>LspClient\<close> and the LSP types of \<open>src/protocol/lsp/lsp_types.h\<close> and \<open>lsp_client.cpp\<close>: starting
  a language server, the requests and notifications sent to it, and how the answers are read.

  The server is the list of what arrives from it (\<open>lc_in\<close>, see \<open>Framing\<close>); \<open>lc_out\<close> collects what
  is written to it. Every operation of the operating system is an argument or a field: whether
  pipes and the fork succeed, the process identifier, whether writes reach the server. Signals
  and waiting for the child's end are not modelled. \<open>root_uri\<close> is ignored by the code.
\<close>

section \<open>Types\<close>

record position =
  po_line :: int
  po_character :: int

record lsp_range =
  ra_start :: position
  ra_end :: position

record location =
  lo_uri :: string
  lo_range :: lsp_range

record hover_result =
  hv_contents :: string
  hv_range :: "lsp_range option"

record text_edit =
  te_range :: lsp_range
  te_new_text :: string

type_synonym workspace_edit = "text_edit list omap"

record diagnostic =
  dg_range :: lsp_range
  dg_message :: string
  dg_severity :: int
  dg_code :: string
  dg_source :: string

datatype sync_kind = Sync_None | Sync_Full | Sync_Incremental | Sync_Other int

definition sync_of_int :: "int \<Rightarrow> sync_kind" where
  "sync_of_int i = (if i = 0 then Sync_None else if i = 1 then Sync_Full
     else if i = 2 then Sync_Incremental else Sync_Other i)"

record server_capabilities =
  ca_sync :: sync_kind
  ca_hover :: bool
  ca_definition :: bool
  ca_references :: bool
  ca_rename :: bool
  ca_diagnostic :: bool

definition position_to_json :: "('j, 'z) jlib_scheme \<Rightarrow> position \<Rightarrow> 'j" where
  "position_to_json J p =
     j_object J [(''line'', j_int J (po_line p)), (''character'', j_int J (po_character p))]"

definition position_from_json :: "('j, 'z) jlib_scheme \<Rightarrow> 'j \<Rightarrow> cpp_exn + position" where
  "position_from_json J j =
     bind_exn (int_value J j ''line'' 0) (\<lambda>l.
     bind_exn (int_value J j ''character'' 0) (\<lambda>c. Inr \<lparr>po_line = l, po_character = c\<rparr>))"

definition range_to_json :: "('j, 'z) jlib_scheme \<Rightarrow> lsp_range \<Rightarrow> 'j" where
  "range_to_json J r =
     j_object J [(''start'', position_to_json J (ra_start r)), (''end'', position_to_json J (ra_end r))]"

definition location_to_json :: "('j, 'z) jlib_scheme \<Rightarrow> location \<Rightarrow> 'j" where
  "location_to_json J l =
     j_object J [(''uri'', j_string J (lo_uri l)), (''range'', range_to_json J (lo_range l))]"

text \<open>The argument of \<open>Location::from_json\<close> is constant, so a missing member is undefined.\<close>

definition const_range :: "('j, 'z) jlib_scheme \<Rightarrow> 'j \<Rightarrow> cpp_exn + lsp_range" where
  "const_range J r =
     bind_exn (bind_exn (const_at J r ''start'') (position_from_json J)) (\<lambda>s.
     bind_exn (bind_exn (const_at J r ''end'') (position_from_json J)) (\<lambda>e.
       Inr \<lparr>ra_start = s, ra_end = e\<rparr>))"

definition location_from_json :: "('j, 'z) jlib_scheme \<Rightarrow> 'j \<Rightarrow> cpp_exn + location" where
  "location_from_json J j =
     bind_exn (str_value J j ''uri'' []) (\<lambda>uri.
     bind_exn (bind_exn (const_at J j ''range'') (const_range J)) (\<lambda>r.
       Inr \<lparr>lo_uri = uri, lo_range = r\<rparr>))"

section \<open>The client\<close>

record lsp_client =
  lc_open :: bool
  lc_child :: bool
  lc_running :: bool
  lc_initialized :: bool
  lc_capabilities :: server_capabilities
  lc_diagnostics :: "diagnostic list omap"
  lc_buffer :: string
  lc_next_id :: int
  lc_writable :: bool
  lc_in :: "input list"
  lc_out :: "string list"

text \<open>\<open>lc_open\<close>: both descriptors; they are opened and closed together.\<close>

definition default_capabilities :: server_capabilities where
  "default_capabilities = \<lparr>ca_sync = Sync_Full, ca_hover = False, ca_definition = False,
     ca_references = False, ca_rename = False, ca_diagnostic = False\<rparr>"

definition new_lsp_client :: "bool \<Rightarrow> input list \<Rightarrow> lsp_client" where
  "new_lsp_client writable server = \<lparr>lc_open = False, lc_child = False, lc_running = False,
     lc_initialized = False, lc_capabilities = default_capabilities, lc_diagnostics = [],
     lc_buffer = [], lc_next_id = 1, lc_writable = writable, lc_in = server, lc_out = []\<rparr>"

type_synonym 'a lsp = "('a, lsp_client) effect"

definition send_message :: "string \<Rightarrow> bool lsp" where
  "send_message message s =
     (if \<not> lc_open s then (Inr False, s)
      else if lc_writable s then (Inr True, s\<lparr>lc_out := lc_out s @ [frame message]\<rparr>)
      else (Inr False, s))"

definition lsp_receive :: "string lsp" where
  "lsp_receive s =
     (if \<not> lc_open s then (Inr [], s)
      else case receive_message (lc_in s) (lc_buffer s) of
             (r, evs, buf) \<Rightarrow> (r, s\<lparr>lc_in := evs, lc_buffer := buf\<rparr>))"

definition rpc_base :: "('j, 'z) jlib_scheme \<Rightarrow> 'j" where
  "rpc_base J = j_set J ''jsonrpc'' (j_string J ''2.0'') (j_null J)"

definition take_id :: "int lsp" where
  "take_id s = (Inr (lc_next_id s), s\<lparr>lc_next_id := lc_next_id s + 1\<rparr>)"

definition result_of :: "('j, 'z) jlib_scheme \<Rightarrow> string \<Rightarrow> 'j" where
  "result_of J response =
     (case j_parse J response of
        Inl e \<Rightarrow> j_null J
      | Inr j \<Rightarrow>
          if j_contains J j ''result''
          then (case j_at J j ''result'' of None \<Rightarrow> j_null J | Some v \<Rightarrow> v)
          else j_null J)"

definition lsp_request :: "('j, 'z) jlib_scheme \<Rightarrow> int \<Rightarrow> string \<Rightarrow> 'j \<Rightarrow> 'j" where
  "lsp_request J i method params =
     j_set J ''params'' params (j_set J ''method'' (j_string J method)
       (j_set J ''id'' (j_int J i) (rpc_base J)))"

definition send_request :: "('j, 'z) jlib_scheme \<Rightarrow> string \<Rightarrow> 'j \<Rightarrow> 'j lsp" where
  "send_request J method params =
     andthen take_id (\<lambda>i.
     andthen (pure_exn (dump_json J (lsp_request J i method params))) (\<lambda>message.
     andthen (send_message message) (\<lambda>sent.
       if \<not> sent then ret (j_null J)
       else andthen lsp_receive (\<lambda>response.
              ret (if response = [] then j_null J else result_of J response)))))"

definition send_notification :: "('j, 'z) jlib_scheme \<Rightarrow> string \<Rightarrow> 'j \<Rightarrow> unit lsp" where
  "send_notification J method params =
     andthen (pure_exn (dump_json J (j_set J ''params'' params
         (j_set J ''method'' (j_string J method) (rpc_base J))))) (\<lambda>message.
     andthen (send_message message) (\<lambda>sent. ret ()))"

section \<open>Starting and stopping\<close>

definition set_caps :: "(server_capabilities \<Rightarrow> server_capabilities) \<Rightarrow> unit lsp" where
  "set_caps f = modify (\<lambda>s. s\<lparr>lc_capabilities := f (lc_capabilities s)\<rparr>)"

definition read_sync :: "('j, 'z) jlib_scheme \<Rightarrow> 'j \<Rightarrow> unit lsp" where
  "read_sync J sync =
     (if j_is_number J sync
      then andthen (pure_exn (or_type_error (j_get_int J sync)))
             (\<lambda>k. set_caps (\<lambda>c. c\<lparr>ca_sync := sync_of_int k\<rparr>))
      else if j_is_object J sync
      then andthen (pure_exn (int_value J sync ''change'' 1))
             (\<lambda>k. set_caps (\<lambda>c. c\<lparr>ca_sync := sync_of_int k\<rparr>))
      else ret ())"

definition initialize :: "('j, 'z) jlib_scheme \<Rightarrow> int \<Rightarrow> bool lsp" where
  "initialize J pid =
     andthen (send_request J ''initialize''
       (j_set J ''capabilities'' (j_object J []) (j_set J ''rootUri'' (j_null J)
         (j_set J ''processId'' (j_int J pid) (j_null J))))) (\<lambda>result.
     if j_is_null J result then ret False
     else
       andthen (pure_exn (json_value J result ''capabilities'' (j_object J []))) (\<lambda>caps.
       andthen (pure_exn (json_value J caps ''textDocumentSync'' (j_object J []))) (\<lambda>sync.
       andthen (read_sync J sync) (\<lambda>_.
       andthen (pure_exn (bool_value J caps ''hoverProvider'' False)) (\<lambda>b.
       andthen (set_caps (\<lambda>c. c\<lparr>ca_hover := b\<rparr>)) (\<lambda>_.
       andthen (pure_exn (bool_value J caps ''definitionProvider'' False)) (\<lambda>b.
       andthen (set_caps (\<lambda>c. c\<lparr>ca_definition := b\<rparr>)) (\<lambda>_.
       andthen (pure_exn (bool_value J caps ''referencesProvider'' False)) (\<lambda>b.
       andthen (set_caps (\<lambda>c. c\<lparr>ca_references := b\<rparr>)) (\<lambda>_.
       andthen (pure_exn (bool_value J caps ''renameProvider'' False)) (\<lambda>b.
       andthen (set_caps (\<lambda>c. c\<lparr>ca_rename := b\<rparr>)) (\<lambda>_.
       andthen (pure_exn (json_value J caps ''diagnosticProvider'' (j_null J))) (\<lambda>d.
       andthen (set_caps (\<lambda>c. c\<lparr>ca_diagnostic := \<not> j_is_null J d\<rparr>)) (\<lambda>_.
       andthen (modify (\<lambda>s. s\<lparr>lc_initialized := True\<rparr>)) (\<lambda>_.
       andthen (send_notification J ''initialized'' (j_null J)) (\<lambda>_.
         ret True))))))))))))))))"

definition cleanup :: "unit lsp" where
  "cleanup = modify (\<lambda>s. s\<lparr>lc_running := False, lc_initialized := False, lc_child := False,
     lc_open := False, lc_buffer := []\<rparr>)"

text \<open>\<open>spawn\<close>: whether the pipes and the child can be made.\<close>

definition initialize_lsp :: "('j, 'z) jlib_scheme \<Rightarrow> bool \<Rightarrow> int \<Rightarrow> string list \<Rightarrow> bool lsp" where
  "initialize_lsp J spawn pid command =
     (if command = [] \<or> \<not> spawn then ret False
      else andthen (modify (\<lambda>s. s\<lparr>lc_open := True, lc_child := True, lc_running := True\<rparr>)) (\<lambda>_.
           andthen (initialize J pid) (\<lambda>ok.
             if \<not> ok then andthen cleanup (\<lambda>_. ret False) else ret True)))"

definition lsp_start :: "('j, 'z) jlib_scheme \<Rightarrow> bool \<Rightarrow> int \<Rightarrow> string list \<Rightarrow> bool lsp" where
  "lsp_start J spawn pid command =
     andthen (look lc_running) (\<lambda>r. if r then ret False else initialize_lsp J spawn pid command)"

definition lsp_shutdown :: "('j, 'z) jlib_scheme \<Rightarrow> unit lsp" where
  "lsp_shutdown J =
     andthen (look lc_initialized) (\<lambda>i.
       if \<not> i then ret ()
       else andthen (send_request J ''shutdown'' (j_null J)) (\<lambda>_.
            andthen (send_notification J ''exit'' (j_null J)) (\<lambda>_.
              modify (\<lambda>s. s\<lparr>lc_initialized := False\<rparr>))))"

definition lsp_stop :: "('j, 'z) jlib_scheme \<Rightarrow> unit lsp" where
  "lsp_stop J =
     andthen (look lc_running) (\<lambda>r.
       if \<not> r then ret () else andthen (lsp_shutdown J) (\<lambda>_. cleanup))"

section \<open>Documents\<close>

definition text_document :: "('j, 'z) jlib_scheme \<Rightarrow> (string \<times> 'j) list \<Rightarrow> 'j" where
  "text_document J ms = j_set J ''textDocument'' (j_object J ms) (j_null J)"

definition did_open :: "('j, 'z) jlib_scheme \<Rightarrow> string \<Rightarrow> string \<Rightarrow> string \<Rightarrow> int \<Rightarrow> unit lsp" where
  "did_open J uri language_id content version =
     send_notification J ''textDocument/didOpen''
       (j_set J ''textDocument'' (j_set J ''text'' (j_string J content)
           (j_object J [(''uri'', j_string J uri), (''languageId'', j_string J language_id),
              (''version'', j_int J version)])) (j_null J))"

definition did_change :: "('j, 'z) jlib_scheme \<Rightarrow> string \<Rightarrow> string \<Rightarrow> int \<Rightarrow> unit lsp" where
  "did_change J uri content version =
     andthen (look (\<lambda>s. ca_sync (lc_capabilities s))) (\<lambda>sync.
       send_notification J ''textDocument/didChange''
         (j_set J ''contentChanges''
            (j_array J [j_object J ((if sync = Sync_Incremental then [(''range'', j_null J)] else [])
                          @ [(''text'', j_string J content)])])
            (text_document J [(''uri'', j_string J uri), (''version'', j_int J version)])))"

definition did_close :: "('j, 'z) jlib_scheme \<Rightarrow> string \<Rightarrow> unit lsp" where
  "did_close J uri =
     send_notification J ''textDocument/didClose'' (text_document J [(''uri'', j_string J uri)])"

section \<open>Language features\<close>

definition document_position :: "('j, 'z) jlib_scheme \<Rightarrow> string \<Rightarrow> position \<Rightarrow> 'j" where
  "document_position J uri p =
     j_set J ''position'' (position_to_json J p) (text_document J [(''uri'', j_string J uri)])"

definition supported :: "(server_capabilities \<Rightarrow> bool) \<Rightarrow> bool lsp" where
  "supported cap = look (\<lambda>s. cap (lc_capabilities s))"

definition go_to_definition ::
  "('j, 'z) jlib_scheme \<Rightarrow> string \<Rightarrow> position \<Rightarrow> location list lsp" where
  "go_to_definition J uri p =
     andthen (supported ca_definition) (\<lambda>ok.
       if \<not> ok then ret []
       else andthen (send_request J ''textDocument/definition'' (document_position J uri p)) (\<lambda>result.
         if j_is_array J result then pure_exn (map_exn (location_from_json J) (j_elems J result))
         else if j_is_object J result then pure_exn (map_exn (location_from_json J) [result])
         else ret []))"

definition find_references ::
  "('j, 'z) jlib_scheme \<Rightarrow> string \<Rightarrow> position \<Rightarrow> bool \<Rightarrow> location list lsp" where
  "find_references J uri p include_declaration =
     andthen (supported ca_references) (\<lambda>ok.
       if \<not> ok then ret []
       else andthen (send_request J ''textDocument/references''
           (j_set J ''context'' (j_object J [(''includeDeclaration'', j_bool J include_declaration)])
             (document_position J uri p))) (\<lambda>result.
         if j_is_array J result then pure_exn (map_exn (location_from_json J) (j_elems J result))
         else ret []))"

text \<open>
  The members of a range in a value that is not constant: a missing one reads as \<open>null\<close>, on
  which \<open>value\<close> throws.
\<close>

definition open_range :: "('j, 'z) jlib_scheme \<Rightarrow> 'j \<Rightarrow> cpp_exn + lsp_range" where
  "open_range J r =
     bind_exn (bind_exn (or_type_error (j_at J r ''start'')) (position_from_json J)) (\<lambda>s.
     bind_exn (bind_exn (or_type_error (j_at J r ''end'')) (position_from_json J)) (\<lambda>e.
       Inr \<lparr>ra_start = s, ra_end = e\<rparr>))"

definition hover_contents :: "('j, 'z) jlib_scheme \<Rightarrow> 'j \<Rightarrow> cpp_exn + string" where
  "hover_contents J contents =
     (if j_is_string J contents then or_type_error (j_get_str J contents)
      else if j_is_object J contents \<and> j_contains J contents ''value''
      then or_type_error (Option.bind (j_at J contents ''value'') (j_get_str J))
      else Inr (j_dump J contents))"

definition hover_of :: "('j, 'z) jlib_scheme \<Rightarrow> 'j \<Rightarrow> cpp_exn + hover_result" where
  "hover_of J result =
     bind_exn (bind_exn (json_value J result ''contents'' (j_null J)) (hover_contents J)) (\<lambda>contents.
     if j_contains J result ''range''
     then bind_exn (bind_exn (or_type_error (j_at J result ''range'')) (open_range J))
            (\<lambda>r. Inr \<lparr>hv_contents = contents, hv_range = Some r\<rparr>)
     else Inr \<lparr>hv_contents = contents, hv_range = None\<rparr>)"

definition hover :: "('j, 'z) jlib_scheme \<Rightarrow> string \<Rightarrow> position \<Rightarrow> hover_result option lsp" where
  "hover J uri p =
     andthen (supported ca_hover) (\<lambda>ok.
       if \<not> ok then ret None
       else andthen (send_request J ''textDocument/hover'' (document_position J uri p)) (\<lambda>result.
         if j_is_null J result then ret None
         else pure_exn (bind_exn (hover_of J result) (\<lambda>h. Inr (Some h)))))"

definition edit_from_json :: "('j, 'z) jlib_scheme \<Rightarrow> 'j \<Rightarrow> cpp_exn + text_edit" where
  "edit_from_json J e =
     bind_exn (bind_exn (const_at J e ''range'') (const_range J)) (\<lambda>r.
     bind_exn (str_value J e ''newText'' []) (\<lambda>t. Inr \<lparr>te_range = r, te_new_text = t\<rparr>))"

fun changes_from :: "('j, 'z) jlib_scheme \<Rightarrow> (string \<times> 'j) list \<Rightarrow> workspace_edit \<Rightarrow> cpp_exn + workspace_edit" where
  "changes_from J [] m = Inr m"
| "changes_from J ((uri, edits) # r) m =
     bind_exn (map_exn (edit_from_json J) (j_elems J edits)) (\<lambda>es. changes_from J r (om_put uri es m))"

definition lsp_rename ::
  "('j, 'z) jlib_scheme \<Rightarrow> string \<Rightarrow> position \<Rightarrow> string \<Rightarrow> workspace_edit option lsp" where
  "lsp_rename J uri p new_name =
     andthen (supported ca_rename) (\<lambda>ok.
       if \<not> ok then ret None
       else andthen (send_request J ''textDocument/rename''
           (j_set J ''newName'' (j_string J new_name) (document_position J uri p))) (\<lambda>result.
         if j_is_null J result then ret None
         else pure_exn (bind_exn (json_value J result ''changes'' (j_object J [])) (\<lambda>changes.
                bind_exn (changes_from J (j_items J changes) []) (\<lambda>m. Inr (Some m))))))"

definition get_diagnostics :: "string \<Rightarrow> lsp_client \<Rightarrow> diagnostic list" where
  "get_diagnostics uri s =
     (case om_get (lc_diagnostics s) uri of None \<Rightarrow> [] | Some ds \<Rightarrow> ds)"

section \<open>What no operation changes\<close>

text \<open>
  No operation stores diagnostics or takes back an identifier, and what was written stays
  written.
\<close>

definition lsp_after :: "lsp_client \<Rightarrow> lsp_client \<Rightarrow> bool" where
  "lsp_after s s' = (lc_diagnostics s' = lc_diagnostics s \<and> lc_next_id s \<le> lc_next_id s' \<and>
     prefix (lc_out s) (lc_out s') \<and> lc_writable s' = lc_writable s)"

lemma lsp_after_order [simp]: "reflp lsp_after" "transp lsp_after"
  by (auto simp: lsp_after_def intro!: reflpI transpI intro: prefix_order.trans)

lemma lsp_after_steps [relates]:
  "relates lsp_after (send_message m)" "relates lsp_after lsp_receive" "relates lsp_after take_id"
  "relates lsp_after (set_caps f)" "relates lsp_after cleanup" "relates lsp_after (supported c)"
  "relates lsp_after (modify (\<lambda>s. s\<lparr>lc_initialized := b\<rparr>))"
  "relates lsp_after (modify (\<lambda>s. s\<lparr>lc_open := o', lc_child := c', lc_running := r'\<rparr>))"
  by (auto simp: relates_def lsp_after_def send_message_def lsp_receive_def take_id_def set_caps_def
      cleanup_def supported_def split: prod.splits)

lemma lsp_after_requests [relates]:
  "relates lsp_after (send_request J method params)"
  "relates lsp_after (send_notification J method params)"
  by (auto simp: send_request_def send_notification_def intro!: relates)

lemma lsp_after_initialize [relates]: "relates lsp_after (initialize J pid)"
  unfolding initialize_def read_sync_def by (intro relates lsp_after_order)

lemma lsp_after_operations:
  "relates lsp_after (lsp_start J spawn pid command)" "relates lsp_after (lsp_stop J)"
  "relates lsp_after (did_open J uri lang content v)" "relates lsp_after (did_change J uri content v)"
  "relates lsp_after (did_close J uri)" "relates lsp_after (go_to_definition J uri p)"
  "relates lsp_after (find_references J uri p b)" "relates lsp_after (hover J uri p)"
  "relates lsp_after (lsp_rename J uri p new_name)"
  unfolding lsp_start_def initialize_lsp_def lsp_stop_def lsp_shutdown_def did_open_def did_change_def
    did_close_def go_to_definition_def find_references_def hover_def lsp_rename_def
  by (intro relates lsp_after_order)+

datatype lsp_event =
    Ev_Start bool int "string list"
  | Ev_Stop
  | Ev_Open string string string int
  | Ev_Change string string int
  | Ev_Close string
  | Ev_Definition string position
  | Ev_References string position bool
  | Ev_Hover string position
  | Ev_Rename string position string

fun lsp_step :: "('j, 'z) jlib_scheme \<Rightarrow> lsp_client \<Rightarrow> lsp_event \<Rightarrow> lsp_client" where
  "lsp_step J s (Ev_Start spawn pid command) = snd (lsp_start J spawn pid command s)"
| "lsp_step J s Ev_Stop = snd (lsp_stop J s)"
| "lsp_step J s (Ev_Open uri lang content v) = snd (did_open J uri lang content v s)"
| "lsp_step J s (Ev_Change uri content v) = snd (did_change J uri content v s)"
| "lsp_step J s (Ev_Close uri) = snd (did_close J uri s)"
| "lsp_step J s (Ev_Definition uri p) = snd (go_to_definition J uri p s)"
| "lsp_step J s (Ev_References uri p b) = snd (find_references J uri p b s)"
| "lsp_step J s (Ev_Hover uri p) = snd (hover J uri p s)"
| "lsp_step J s (Ev_Rename uri p n) = snd (lsp_rename J uri p n s)"

lemma lsp_after_step: "lsp_after s (lsp_step J s e)"
  using lsp_after_operations [where J = J] by (cases e) (simp_all add: relates_def)

interpretation lsp: machine "new_lsp_client writable server" "lsp_step J"
    "\<lambda>s. lc_diagnostics s = [] \<and> 1 \<le> lc_next_id s" for writable server J
proof unfold_locales
  show "lc_diagnostics (new_lsp_client writable server) = [] \<and> 1 \<le> lc_next_id (new_lsp_client writable server)"
    by (simp add: new_lsp_client_def)
  fix s :: lsp_client and e
  assume "lc_diagnostics s = [] \<and> 1 \<le> lc_next_id s"
  then show "lc_diagnostics (lsp_step J s e) = [] \<and> 1 \<le> lc_next_id (lsp_step J s e)"
    using lsp_after_step [of s J e] by (simp add: lsp_after_def)
qed

text \<open>
  A client has no diagnostics, whatever it was used for and whatever the server sent: the
  notifications that carry them are never read as such.
\<close>

theorem diagnostics_never_arrive:
  "get_diagnostics uri (foldl (lsp_step J) (new_lsp_client writable server) es) = []"
  using lsp.inv_reachable [of J writable server es] by (simp add: get_diagnostics_def)

section \<open>Which answer a request gets\<close>

lemma request_takes_next:
  assumes "lc_open s" and "lc_writable s" and "lc_in s = map Chunk cs @ evs"
    and "lc_buffer s @ concat cs = frame m @ q" and "m \<noteq> []" and "length m < 2 ^ 31"
    and "j_printable J (lsp_request J (lc_next_id s) method params)"
  shows "\<exists>s' cs'. send_request J method params s = (Inr (result_of J m), s') \<and>
    lc_open s' \<and> lc_writable s' \<and> lc_in s' = map Chunk cs' @ evs \<and> lc_buffer s' @ concat cs' = q \<and>
    lc_next_id s' = lc_next_id s + 1 \<and>
    lc_out s' = lc_out s @ [frame (j_dump J (lsp_request J (lc_next_id s) method params))] \<and>
    lc_running s' = lc_running s \<and> lc_child s' = lc_child s \<and> lc_initialized s' = lc_initialized s \<and>
    lc_capabilities s' = lc_capabilities s"
proof -
  from receive_one [OF harmless_Nil _ assms(6), of "lc_buffer s" cs q evs] assms(4)
  obtain cs' b where "receive_message (map Chunk cs @ evs) (lc_buffer s) = (Inr m, map Chunk cs' @ evs, b)"
    "b @ concat cs' = q" by auto
  with assms show ?thesis
    by (intro exI [of _ "s\<lparr>lc_next_id := lc_next_id s + 1,
          lc_out := lc_out s @ [frame (j_dump J (lsp_request J (lc_next_id s) method params))],
          lc_in := map Chunk cs' @ evs, lc_buffer := b\<rparr>"] exI [of _ cs'])
      (simp add: send_request_def andthen_def take_id_def send_message_def lsp_receive_def
        dump_json_def)
qed

text \<open>A request is sent when its method is UTF-8 and its parameters can be printed.\<close>

lemma request_printable:
  assumes "law_set J" and "law_printable J"
  shows "j_printable J (lsp_request J i method params) = (utf8 method \<and> j_printable J params)"
  using printableD [OF assms(2)] set_members [OF assms(1)]
  by (auto simp: lsp_request_def rpc_base_def)

fun send_all ::
  "('j, 'z) jlib_scheme \<Rightarrow> (string \<times> 'j) list \<Rightarrow> lsp_client \<Rightarrow> (cpp_exn + 'j) list \<times> lsp_client" where
  "send_all J [] s = ([], s)"
| "send_all J ((method, params) # rs) s =
     (case send_request J method params s of (x, s1) \<Rightarrow>
        case send_all J rs s1 of (xs, s2) \<Rightarrow> (x # xs, s2))"

text \<open>
  C33: Requests are answered by position. When their parameters can be printed, the first request gets the result of the first message
  the server sends, the second that of the second, and so on, whatever their identifiers, and
  \<open>null\<close> from one without a result: a single notification shifts every answer after it to the
  next request.
\<close>

theorem answers_by_position:
  assumes "lc_open s" and "lc_writable s" and "lc_in s = map Chunk cs @ evs"
    and "lc_buffer s @ concat cs = concat (map frame ms) @ q" and "length ms = length requests"
    and "\<forall>m\<in>set ms. m \<noteq> [] \<and> length m < 2 ^ 31"
    and "\<forall>(method, params)\<in>set requests. \<forall>i. j_printable J (lsp_request J i method params)"
  shows "fst (send_all J requests s) = map (Inr \<circ> result_of J) ms"
  using assms
proof (induction requests arbitrary: s cs ms)
  case (Cons r requests)
  then obtain m ms' where ms: "ms = m # ms'" by (cases ms) auto
  obtain name args where r: "r = (name, args)" by force
  from request_takes_next [OF Cons.prems(1-3), of m "concat (map frame ms') @ q" J name args]
    Cons.prems(4,6,7) ms r
  obtain s1 cs1 where step: "send_request J name args s = (Inr (result_of J m), s1)"
    "lc_open s1" "lc_writable s1" "lc_in s1 = map Chunk cs1 @ evs"
    "lc_buffer s1 @ concat cs1 = concat (map frame ms') @ q" by auto
  from Cons.IH [OF step(2-5)] Cons.prems(5-7) ms
  have "fst (send_all J requests s1) = map (Inr \<circ> result_of J) ms'" by simp
  then show ?case by (cases "send_all J requests s1") (simp add: r ms step(1))
qed simp

definition sample_lsp_jlib :: "jv jlib" where
  "sample_lsp_jlib = sample_jlib (\<lambda>s. Inr (if s = ''n'' then JObj [(''method'', JStr ''log'')]
       else if s = ''c'' then JObj [(''result'', JObj [(''capabilities'',
              JObj [(''hoverProvider'', JObj [])])])]
       else JObj [(''result'', JInt 1)])) (\<lambda>v. ''d'')"

definition sample_server :: "string list \<Rightarrow> lsp_client" where
  "sample_server ms = (new_lsp_client True [Chunk (concat (map frame ms))])\<lparr>lc_open := True\<rparr>"

lemma sample_lsp_laws: "law_set sample_lsp_jlib" "law_object sample_lsp_jlib" "law_printable sample_lsp_jlib"
  unfolding sample_lsp_jlib_def
  by (rule sample_law_set sample_laws sample_law_printable; force split: if_splits)+

lemma answers_by_position_witness:
  "fst (send_all sample_lsp_jlib [(''a'', JNull), (''b'', JNull)] (sample_server [''n'', ''r''])) =
     [Inr JNull, Inr (JInt 1)]"
proof -
  have "fst (send_all sample_lsp_jlib [(''a'', JNull), (''b'', JNull)] (sample_server [''n'', ''r''])) =
      map (Inr \<circ> result_of sample_lsp_jlib) [''n'', ''r'']"
    by (rule answers_by_position [of _ "[frame ''n'' @ frame ''r'']" "[]" _ "[]"])
      (simp_all add: sample_server_def new_lsp_client_def lsp_request_def rpc_base_def sample_lsp_jlib_def)
  also have "\<dots> = [Inr JNull, Inr (JInt 1)]"
    by (simp add: result_of_def sample_lsp_jlib_def jv_defs)
  finally show ?thesis .
qed

section \<open>Starting a server\<close>

text \<open>
  A server that describes its hover support by an object, as the protocol allows, cannot be
  started: reading the capability as a truth value throws, and \<open>start\<close> leaves the child running
  and the client marked as running, not initialised, with the flags after it unread.
\<close>

theorem capability_object_throws:
  assumes "\<not> lc_running s" and "lc_writable s" and "lc_in s = map Chunk cs @ evs"
    and "lc_buffer s @ concat cs = frame m @ q" and "m \<noteq> []" and "length m < 2 ^ 31"
    and "\<not> j_is_null J (result_of J m)"
    and "json_value J (result_of J m) ''capabilities'' (j_object J []) = Inr caps"
    and "json_value J caps ''textDocumentSync'' (j_object J []) = Inr sync"
    and "\<not> j_is_number J sync" and "j_is_object J sync" and "j_value_int J sync ''change'' 1 \<noteq> None"
    and "j_value_bool J caps ''hoverProvider'' False = None" and "command \<noteq> []"
    and "law_set J" and "law_object J" and "law_printable J"
  shows "\<exists>s'. lsp_start J True pid command s = (Inl Json_Type_Error, s') \<and>
    lc_running s' \<and> lc_child s' \<and> lc_initialized s' = lc_initialized s \<and>
    ca_definition (lc_capabilities s') = ca_definition (lc_capabilities s)"
proof -
  define s0 where "s0 = s\<lparr>lc_open := True, lc_child := True, lc_running := True\<rparr>"
  define params where "params = j_set J ''capabilities'' (j_object J []) (j_set J ''rootUri'' (j_null J)
         (j_set J ''processId'' (j_int J pid) (j_null J)))"
  have s0: "lc_open s0" "lc_writable s0" "lc_in s0 = map Chunk cs @ evs"
      "lc_buffer s0 @ concat cs = frame m @ q"
    using assms(2-4) by (simp_all add: s0_def)
  have "j_printable J (lsp_request J (lc_next_id s0) ''initialize'' params)"
    using request_printable [OF assms(15,17), of "lc_next_id s0" "''initialize''" params]
      printableD [OF assms(17)] set_members [OF assms(15)]
    by (simp add: params_def)
  from request_takes_next [OF s0 assms(5,6) this]
  obtain s1 where s1: "send_request J ''initialize'' params s0 = (Inr (result_of J m), s1)"
    "lc_running s1" "lc_initialized s1 = lc_initialized s" "lc_capabilities s1 = lc_capabilities s"
    "lc_child s1"
    by (force simp: s0_def)
  obtain k where k: "j_value_int J sync ''change'' 1 = Some k" using assms(12) by auto
  have "initialize J pid s0 = (Inl Json_Type_Error,
      s1\<lparr>lc_capabilities := (lc_capabilities s1)\<lparr>ca_sync := sync_of_int k\<rparr>\<rparr>)"
    unfolding initialize_def using s1(1) assms(7-11,13) k
    by (simp add: params_def [symmetric] andthen_def read_sync_def int_value_def bool_value_def set_caps_def)
  then have "lsp_start J True pid command s = (Inl Json_Type_Error,
      s1\<lparr>lc_capabilities := (lc_capabilities s1)\<lparr>ca_sync := sync_of_int k\<rparr>\<rparr>)"
    using assms(1,14) by (simp add: lsp_start_def initialize_lsp_def andthen_def s0_def)
  then show ?thesis using s1 by simp
qed

lemma capability_object_throws_witness:
  "\<exists>s'. lsp_start sample_lsp_jlib True 7 [''clangd''] (sample_server [''c'']) = (Inl Json_Type_Error, s') \<and>
    lc_running s'"
proof -
  let ?s = "sample_server [''c'']"
  have "\<exists>s'. lsp_start sample_lsp_jlib True 7 [''clangd''] ?s = (Inl Json_Type_Error, s') \<and>
    lc_running s' \<and> lc_child s' \<and> lc_initialized s' = lc_initialized ?s \<and>
    ca_definition (lc_capabilities s') = ca_definition (lc_capabilities ?s)"
    by (rule capability_object_throws [of _ "[frame ''c'']" "[]" "''c''" "[]" _
          "JObj [(''hoverProvider'', JObj [])]" "JObj []"])
      (simp_all add: sample_server_def new_lsp_client_def result_of_def sample_lsp_jlib_def
        json_value_def jv_defs sample_lsp_laws [unfolded sample_lsp_jlib_def])
  then show ?thesis by blast
qed

section \<open>Locations\<close>

definition small_int :: "int \<Rightarrow> bool" where
  "small_int i = (- (2 ^ 31) \<le> i \<and> i < 2 ^ 31)"

definition small_position :: "position \<Rightarrow> bool" where
  "small_position p = (small_int (po_line p) \<and> small_int (po_character p))"

lemma position_roundtrip:
  assumes "law_object J" and "law_value_int J" and "law_ints J" and "small_position p"
  shows "position_from_json J (position_to_json J p) = Inr p"
  using assms
  by (simp add: position_from_json_def position_to_json_def int_value_def law_object_def
      law_value_int_def law_ints_def small_position_def small_int_def)

text \<open>A location survives being written as JSON and read again.\<close>

theorem location_roundtrip:
  assumes "law_object J" and "law_value_int J" and "law_ints J" and "law_value J" and "law_strings J"
    and "small_position (ra_start (lo_range l))" and "small_position (ra_end (lo_range l))"
  shows "location_from_json J (location_to_json J l) = Inr l"
proof -
  note position = position_roundtrip [OF assms(1-3)]
  have "const_range J (range_to_json J (lo_range l)) = Inr (lo_range l)"
    using assms(1,6,7) position
    by (simp add: const_range_def range_to_json_def const_at_def law_object_def)
  with assms(1,4,5) show ?thesis
    by (simp add: location_from_json_def location_to_json_def const_at_def str_value_def
        law_object_def law_value_def law_strings_def)
qed

lemma location_roundtrip_witness:
  "location_from_json coding_jlib (location_to_json coding_jlib
     \<lparr>lo_uri = ''file:///a'', lo_range = \<lparr>ra_start = \<lparr>po_line = 1, po_character = 2\<rparr>,
        ra_end = \<lparr>po_line = 1, po_character = 5\<rparr>\<rparr>\<rparr>) =
   Inr \<lparr>lo_uri = ''file:///a'', lo_range = \<lparr>ra_start = \<lparr>po_line = 1, po_character = 2\<rparr>,
        ra_end = \<lparr>po_line = 1, po_character = 5\<rparr>\<rparr>\<rparr>"
  by (rule location_roundtrip) (simp_all add: coding_laws small_position_def small_int_def)

end
