(* ===== verification/Lsp_Tool.thy ===== *)
theory Lsp_Tool
  imports Lsp_Client Tools
begin

text \<open>
  \<open>LspToolManager\<close> and the five LSP tools of \<open>src/tools/lsp_tool.h\<close> and \<open>lsp_tool.cpp\<close>: one
  language server per language, and the tools that ask it. The state of the tools is the
  manager; \<open>what\<close> gives the text of an exception.
\<close>

section \<open>The manager\<close>

type_synonym lsp_manager = "lsp_client omap"

type_synonym 'a managed = "('a, lsp_manager) effect"

text \<open>
  A new server is the client made for it; it is stored only when it starts, and destroyed
  otherwise.
\<close>

definition start_server ::
  "('j, 'z) jlib_scheme \<Rightarrow> bool \<Rightarrow> int \<Rightarrow> lsp_client \<Rightarrow> string \<Rightarrow> string list \<Rightarrow> bool managed" where
  "start_server J spawn pid client language command m =
     (if om_get m language \<noteq> None then (Inr True, m)
      else (case lsp_start J spawn pid command client of
              (Inr True, c) \<Rightarrow> (Inr True, om_put language c m)
            | (r, c) \<Rightarrow> (r, m)))"

definition stop_server :: "('j, 'z) jlib_scheme \<Rightarrow> string \<Rightarrow> unit managed" where
  "stop_server J language m =
     (case om_get m language of
        None \<Rightarrow> (Inr (), m)
      | Some c \<Rightarrow>
          (case lsp_stop J c of
             (Inl e, c') \<Rightarrow> (Inl e, om_put language c' m)
           | (Inr _, c') \<Rightarrow> (Inr (), om_del language m)))"

definition is_running :: "string \<Rightarrow> lsp_manager \<Rightarrow> bool" where
  "is_running language m =
     (case om_get m language of None \<Rightarrow> False | Some c \<Rightarrow> lc_running c)"

text \<open>An operation of a language's server; \<open>d\<close> is the answer when there is none.\<close>

definition with_server :: "string \<Rightarrow> 'a \<Rightarrow> 'a lsp \<Rightarrow> 'a managed" where
  "with_server language d f m =
     (case om_get m language of
        None \<Rightarrow> (Inr d, m)
      | Some c \<Rightarrow> (case f c of (r, c') \<Rightarrow> (r, om_put language c' m)))"

definition open_document ::
  "('j, 'z) jlib_scheme \<Rightarrow> string \<Rightarrow> string \<Rightarrow> string \<Rightarrow> int \<Rightarrow> bool managed" where
  "open_document J language uri content version =
     with_server language False (andthen (did_open J uri language content version) (\<lambda>_. ret True))"

definition update_document ::
  "('j, 'z) jlib_scheme \<Rightarrow> string \<Rightarrow> string \<Rightarrow> string \<Rightarrow> int \<Rightarrow> bool managed" where
  "update_document J language uri content version =
     with_server language False (andthen (did_change J uri content version) (\<lambda>_. ret True))"

definition close_document :: "('j, 'z) jlib_scheme \<Rightarrow> string \<Rightarrow> string \<Rightarrow> bool managed" where
  "close_document J language uri =
     with_server language False (andthen (did_close J uri) (\<lambda>_. ret True))"

definition diagnostic_texts :: "string \<Rightarrow> string \<Rightarrow> string list managed" where
  "diagnostic_texts language uri =
     with_server language [] (look (\<lambda>c. map dg_message (get_diagnostics uri c)))"

definition server_definition ::
  "('j, 'z) jlib_scheme \<Rightarrow> string \<Rightarrow> string \<Rightarrow> int \<Rightarrow> int \<Rightarrow> location list managed" where
  "server_definition J language uri line character =
     with_server language []
       (go_to_definition J uri \<lparr>po_line = line, po_character = character\<rparr>)"

definition server_references ::
  "('j, 'z) jlib_scheme \<Rightarrow> string \<Rightarrow> string \<Rightarrow> int \<Rightarrow> int \<Rightarrow> location list managed" where
  "server_references J language uri line character =
     with_server language []
       (find_references J uri \<lparr>po_line = line, po_character = character\<rparr> True)"

definition server_hover ::
  "('j, 'z) jlib_scheme \<Rightarrow> string \<Rightarrow> string \<Rightarrow> int \<Rightarrow> int \<Rightarrow> hover_result option managed" where
  "server_hover J language uri line character =
     with_server language None (hover J uri \<lparr>po_line = line, po_character = character\<rparr>)"

definition server_rename ::
  "('j, 'z) jlib_scheme \<Rightarrow> string \<Rightarrow> string \<Rightarrow> int \<Rightarrow> int \<Rightarrow> string \<Rightarrow> workspace_edit option managed" where
  "server_rename J language uri line character new_name =
     with_server language None
       (lsp_rename J uri \<lparr>po_line = line, po_character = character\<rparr> new_name)"

section \<open>The tools\<close>

definition read_document :: "('j, 'z) jlib_scheme \<Rightarrow> 'j \<Rightarrow> cpp_exn + string \<times> string" where
  "read_document J input =
     bind_exn (str_value J input ''language'' []) (\<lambda>lang.
     bind_exn (str_value J input ''uri'' []) (\<lambda>uri. Inr (lang, uri)))"

definition read_place :: "('j, 'z) jlib_scheme \<Rightarrow> 'j \<Rightarrow> cpp_exn + string \<times> string \<times> int \<times> int" where
  "read_place J input =
     bind_exn (read_document J input) (\<lambda>(lang, uri).
     bind_exn (int_value J input ''line'' 0) (\<lambda>line.
     bind_exn (int_value J input ''character'' 0) (\<lambda>character. Inr (lang, uri, line, character))))"

definition lsp_tool :: "(cpp_exn \<Rightarrow> string) \<Rightarrow> tool_output managed \<Rightarrow> tool_output managed" where
  "lsp_tool what body m = (case body m of (r, m') \<Rightarrow> (caught what ''LSP error: '' r, m'))"

definition definition_line :: "location \<Rightarrow> string" where
  "definition_line l =
     lo_uri l @ '':'' @ int_to_string (po_line (ra_start (lo_range l)) + 1) @ '':'' @
     int_to_string (po_character (ra_start (lo_range l)) + 1) @ [CHR 0x0A]"

definition definition_execute ::
  "('j, 'z) jlib_scheme \<Rightarrow> (cpp_exn \<Rightarrow> string) \<Rightarrow> string \<Rightarrow> tool_output managed" where
  "definition_execute J what input_json =
     lsp_tool what
       (andthen (pure_exn (bind_exn (parse_json J input_json) (read_place J))) (\<lambda>(lang, uri, line, character).
        andthen (server_definition J lang uri line character) (\<lambda>locations.
          ret (if locations = [] then tool_ok ''No definition found''
               else tool_ok (concat (map definition_line locations))))))"

definition reference_line :: "location \<Rightarrow> string" where
  "reference_line l =
     lo_uri l @ '':'' @ int_to_string (po_line (ra_start (lo_range l)) + 1) @ [CHR 0x0A]"

definition references_execute ::
  "('j, 'z) jlib_scheme \<Rightarrow> (cpp_exn \<Rightarrow> string) \<Rightarrow> string \<Rightarrow> tool_output managed" where
  "references_execute J what input_json =
     lsp_tool what
       (andthen (pure_exn (bind_exn (parse_json J input_json) (read_place J))) (\<lambda>(lang, uri, line, character).
        andthen (server_references J lang uri line character) (\<lambda>locations.
          ret (if locations = [] then tool_ok ''No references found''
               else tool_ok (concat (map reference_line locations))))))"

definition diagnostics_execute ::
  "('j, 'z) jlib_scheme \<Rightarrow> (cpp_exn \<Rightarrow> string) \<Rightarrow> string \<Rightarrow> tool_output managed" where
  "diagnostics_execute J what input_json =
     lsp_tool what
       (andthen (pure_exn (bind_exn (parse_json J input_json) (read_document J))) (\<lambda>(lang, uri).
        andthen (diagnostic_texts lang uri) (\<lambda>diags.
          ret (if diags = [] then tool_ok ''No diagnostics''
               else tool_ok (concat (map (\<lambda>d. d @ [CHR 0x0A]) diags))))))"

definition hover_execute ::
  "('j, 'z) jlib_scheme \<Rightarrow> (cpp_exn \<Rightarrow> string) \<Rightarrow> string \<Rightarrow> tool_output managed" where
  "hover_execute J what input_json =
     lsp_tool what
       (andthen (pure_exn (bind_exn (parse_json J input_json) (read_place J))) (\<lambda>(lang, uri, line, character).
        andthen (server_hover J lang uri line character) (\<lambda>h.
          ret (case h of None \<Rightarrow> tool_ok ''No hover information''
               | Some x \<Rightarrow> tool_ok (hv_contents x)))))"

definition rename_execute ::
  "('j, 'z) jlib_scheme \<Rightarrow> (cpp_exn \<Rightarrow> string) \<Rightarrow> string \<Rightarrow> tool_output managed" where
  "rename_execute J what input_json =
     lsp_tool what
       (andthen (pure_exn (bind_exn (parse_json J input_json) (\<lambda>input.
          bind_exn (read_place J input) (\<lambda>place.
          bind_exn (str_value J input ''new_name'' []) (\<lambda>new_name. Inr (place, new_name))))))
            (\<lambda>((lang, uri, line, character), new_name).
        andthen (server_rename J lang uri line character new_name) (\<lambda>edit.
          ret (case edit of None \<Rightarrow> tool_err ''Rename failed or not supported''
               | Some changes \<Rightarrow> tool_ok (''Rename would affect '' @
                   nat_to_string (length changes) @ '' file(s)'')))))"

text \<open>The tools as they are registered; a tool whose name is taken is left out.\<close>

definition place_properties :: "string \<Rightarrow> string \<Rightarrow> string \<Rightarrow> (string \<times> property_schema) list" where
  "place_properties language line column =
     [(''language'', property ''string'' language), (''uri'', property ''string'' ''File URI''),
      (''line'', property ''number'' line), (''character'', property ''number'' column)]"

definition make_lsp_tool ::
  "string \<Rightarrow> string \<Rightarrow> (string \<times> property_schema) list \<Rightarrow> string list \<Rightarrow> string \<Rightarrow>
   (string \<Rightarrow> tool_output managed) \<Rightarrow> lsp_manager tool" where
  "make_lsp_tool name description properties required prompt execute =
     \<lparr>t_name = name, t_description = description,
      t_input_schema = \<lparr>is_type = ''object'', is_properties = properties, is_required = required\<rparr>,
      t_system_prompt = prompt, t_execute = (\<lambda>input ctx. execute input),
      t_supports_progress = False, t_requires_confirmation = False, t_category = ''lsp''\<rparr>"

definition definition_tool :: "('j, 'z) jlib_scheme \<Rightarrow> (cpp_exn \<Rightarrow> string) \<Rightarrow> lsp_manager tool" where
  "definition_tool J what =
     make_lsp_tool ''lsp_definition'' ''Go to definition of symbol at position''
       (place_properties ''Language (e.g., cpp, python, typescript)'' ''Line number (0-based)'' ''Column (0-based)'')
       [''language'', ''uri'', ''line'', ''character'']
       (''Use '' @ [CHR 0x27] @ ''lsp_definition'' @ [CHR 0x27] @ '' to find where a symbol is defined.'')
       (definition_execute J what)"

definition references_tool :: "('j, 'z) jlib_scheme \<Rightarrow> (cpp_exn \<Rightarrow> string) \<Rightarrow> lsp_manager tool" where
  "references_tool J what =
     make_lsp_tool ''lsp_references'' ''Find all references to a symbol''
       (place_properties ''Language'' ''Line number (0-based)'' ''Column (0-based)'')
       [''language'', ''uri'', ''line'', ''character'']
       (''Use '' @ [CHR 0x27] @ ''lsp_references'' @ [CHR 0x27] @ '' to find all usages of a symbol.'')
       (references_execute J what)"

definition diagnostics_tool :: "('j, 'z) jlib_scheme \<Rightarrow> (cpp_exn \<Rightarrow> string) \<Rightarrow> lsp_manager tool" where
  "diagnostics_tool J what =
     make_lsp_tool ''lsp_diagnostics'' ''Get diagnostics (errors, warnings) for a file''
       [(''language'', property ''string'' ''Language''), (''uri'', property ''string'' ''File URI'')]
       [''language'', ''uri'']
       (''Use '' @ [CHR 0x27] @ ''lsp_diagnostics'' @ [CHR 0x27] @ '' to check for errors and warnings in a file.'')
       (diagnostics_execute J what)"

definition hover_tool :: "('j, 'z) jlib_scheme \<Rightarrow> (cpp_exn \<Rightarrow> string) \<Rightarrow> lsp_manager tool" where
  "hover_tool J what =
     make_lsp_tool ''lsp_hover'' ''Get hover documentation for a symbol''
       (place_properties ''Language'' ''Line (0-based)'' ''Column (0-based)'')
       [''language'', ''uri'', ''line'', ''character'']
       (''Use '' @ [CHR 0x27] @ ''lsp_hover'' @ [CHR 0x27] @ '' to get documentation for a symbol at a position.'')
       (hover_execute J what)"

definition rename_tool :: "('j, 'z) jlib_scheme \<Rightarrow> (cpp_exn \<Rightarrow> string) \<Rightarrow> lsp_manager tool" where
  "rename_tool J what =
     make_lsp_tool ''lsp_rename'' ''Rename a symbol across the project''
       (place_properties ''Language'' ''Line (0-based)'' ''Column (0-based)'' @
        [(''new_name'', property ''string'' ''New symbol name'')])
       [''language'', ''uri'', ''line'', ''character'', ''new_name'']
       (''Use '' @ [CHR 0x27] @ ''lsp_rename'' @ [CHR 0x27] @ '' to rename a symbol across all files in the project.'')
       (rename_execute J what)"

definition add_missing :: "'w tool \<Rightarrow> 'w registry \<Rightarrow> 'w registry" where
  "add_missing t r = (if has_tool r (t_name t) then r else register_tool (Some t) r)"

definition register_tools ::
  "('j, 'z) jlib_scheme \<Rightarrow> (cpp_exn \<Rightarrow> string) \<Rightarrow> lsp_manager registry \<Rightarrow> lsp_manager registry" where
  "register_tools J what r =
     add_missing (rename_tool J what) (add_missing (hover_tool J what)
       (add_missing (diagnostics_tool J what) (add_missing (references_tool J what)
         (add_missing (definition_tool J what) r))))"

section \<open>No server ever has diagnostics\<close>

datatype manager_event =
    Start_Server bool int bool "input list" string "string list"
  | Stop_Server string
  | Use_Server string lsp_event

fun manager_step :: "('j, 'z) jlib_scheme \<Rightarrow> lsp_manager \<Rightarrow> manager_event \<Rightarrow> lsp_manager" where
  "manager_step J m (Start_Server spawn pid writable server language command) =
     snd (start_server J spawn pid (new_lsp_client writable server) language command m)"
| "manager_step J m (Stop_Server language) = snd (stop_server J language m)"
| "manager_step J m (Use_Server language e) =
     snd (with_server language () (\<lambda>c. (Inr (), lsp_step J c e)) m)"

definition no_diagnostics :: "lsp_manager \<Rightarrow> bool" where
  "no_diagnostics m = (\<forall>l c. om_get m l = Some c \<longrightarrow> lc_diagnostics c = [])"

lemma start_keeps_diagnostics:
  assumes "lsp_start J spawn pid command c = (r, c')"
  shows "lc_diagnostics c' = lc_diagnostics c"
  using lsp_after_step [of c J "Ev_Start spawn pid command"] assms by (simp add: lsp_after_def)

lemma stop_keeps_diagnostics:
  assumes "lsp_stop J c = (r, c')"
  shows "lc_diagnostics c' = lc_diagnostics c"
  using lsp_after_step [of c J Ev_Stop] assms by (simp add: lsp_after_def)

interpretation lsp_servers: machine "[] :: lsp_manager" "manager_step J" no_diagnostics for J
proof unfold_locales
  show "no_diagnostics []" by (simp add: no_diagnostics_def)
  fix m e
  assume m: "no_diagnostics m"
  show "no_diagnostics (manager_step J m e)"
  proof (cases e)
    case (Start_Server spawn pid writable server language command)
    have new: "lc_diagnostics (new_lsp_client writable server) = []" by (simp add: new_lsp_client_def)
    show ?thesis
      using m new by (auto simp: Start_Server no_diagnostics_def start_server_def
          dest: start_keeps_diagnostics split: prod.splits sum.splits bool.splits)
  next
    case (Stop_Server language)
    then show ?thesis
      using m by (auto simp: no_diagnostics_def stop_server_def
          dest: stop_keeps_diagnostics split: option.splits prod.splits sum.splits if_splits)
  next
    case (Use_Server language f)
    then show ?thesis
      using m lsp_after_step [of _ J f]
      by (auto simp: no_diagnostics_def with_server_def lsp_after_def split: option.splits)
  qed
qed

text \<open>
  The diagnostics tool reports no problem, whatever the servers have sent about the document
  and whatever was done before.
\<close>

theorem diagnostics_tool_empty:
  assumes "parse_json J input = Inr j" and "read_document J j = Inr (lang, uri)"
  shows "fst (diagnostics_execute J what input (foldl (manager_step J) [] es)) =
    Inr (tool_ok ''No diagnostics'')"
proof -
  define m where "m = foldl (manager_step J) [] es"
  obtain r m' where r: "diagnostic_texts lang uri m = (r, m')" by force
  have "no_diagnostics m" unfolding m_def by (rule lsp_servers.inv_reachable)
  then have "fst (diagnostic_texts lang uri m) = Inr []"
    by (auto simp: diagnostic_texts_def with_server_def no_diagnostics_def get_diagnostics_def
        split: option.splits)
  with r have "r = Inr []" by simp
  with r show ?thesis
    using assms by (simp add: diagnostics_execute_def lsp_tool_def andthen_def caught_def m_def [symmetric])
qed

lemma diagnostics_tool_empty_witness:
  "fst (diagnostics_execute (sample_jlib (\<lambda>s. Inr (JObj [(''language'', JStr ''cpp'')])) (\<lambda>v. [])) (\<lambda>e. []) ''x''
     (foldl (manager_step (sample_jlib (\<lambda>s. Inr (JObj [(''language'', JStr ''cpp'')])) (\<lambda>v. []))) []
        [Start_Server True 1 True [Chunk (frame ''r'')] ''cpp'' [''clangd'']])) =
     Inr (tool_ok ''No diagnostics'')"
  by (rule diagnostics_tool_empty [of _ _ "JObj [(''language'', JStr ''cpp'')]" "''cpp''" "[]"])
    (simp_all add: parse_json_def read_document_def str_value_def jv_defs)

end
