(* ===== verification/Mcp_Transport.thy ===== *)
theory Mcp_Transport
  imports Effects Framing String_Utils Json_Sample
begin

text \<open>
  \<open>src/protocol/mcp/mcp_transport.h\<close> and \<open>mcp_transport.cpp\<close>: \<open>McpSseTransport\<close>, which finds out
  from a server's event stream where to post messages, and \<open>McpConnection\<close>, which speaks to a
  server over pipes or over such a transport.

  The network is an argument: what a \<open>GET\<close> and a \<open>POST\<close> by curl return. The callbacks, when
  they are installed, change the world \<open>'w\<close>; \<open>what\<close> gives the text of an exception. Starting,
  stopping and waiting for child processes is not modelled.
\<close>

section \<open>The network\<close>

text \<open>\<open>Response\<close>: the status, the text of the headers, and the body.\<close>

datatype http_result = No_Handle | Transfer_Failed | Response int string string

record 'w net =
  nt_get :: "string \<Rightarrow> string list \<Rightarrow> 'w \<Rightarrow> http_result \<times> 'w"
  nt_post :: "string \<Rightarrow> string list \<Rightarrow> string \<Rightarrow> 'w \<Rightarrow> http_result \<times> 'w"

definition header_lines :: "string omap \<Rightarrow> string list" where
  "header_lines headers = map (\<lambda>(k, v). k @ '': '' @ v) headers"

section \<open>McpSseTransport\<close>

record 'w sse_transport =
  st_url :: string
  st_session_url :: string
  st_post_endpoint :: string
  st_headers :: "string omap"
  st_connected :: bool
  st_on_message :: "(string \<Rightarrow> 'w \<Rightarrow> 'w) option"
  st_on_error :: "(string \<Rightarrow> 'w \<Rightarrow> 'w) option"
  st_on_event :: "(string \<Rightarrow> string \<Rightarrow> 'w \<Rightarrow> 'w) option"

definition new_transport :: "'w sse_transport" where
  "new_transport = \<lparr>st_url = [], st_session_url = [], st_post_endpoint = [], st_headers = [],
     st_connected = False, st_on_message = None, st_on_error = None, st_on_event = None\<rparr>"

definition run_callback :: "('a \<Rightarrow> 'w \<Rightarrow> 'w) option \<Rightarrow> 'a \<Rightarrow> 'w \<Rightarrow> 'w" where
  "run_callback cb x w = (case cb of None \<Rightarrow> w | Some f \<Rightarrow> f x w)"

text \<open>\<open>find("://") + 3\<close> wraps to 2 when there is no scheme.\<close>

definition resolve_endpoint :: "string \<Rightarrow> string \<Rightarrow> string option" where
  "resolve_endpoint url endpoint =
     (if starts_with endpoint ''/''
      then (let base_end = (case str_find ''://'' url of None \<Rightarrow> 2 | Some i \<Rightarrow> i + 3)
            in map_option (\<lambda>p. take p url @ endpoint) (find_from url ''/'' base_end))
      else Some endpoint)"

definition read_endpoint :: "('j, 'z) jlib_scheme \<Rightarrow> string \<Rightarrow> 'w sse_transport \<Rightarrow> cpp_exn + 'w sse_transport" where
  "read_endpoint J data t =
     bind_exn (parse_json J data) (\<lambda>j.
     if j_contains J j ''endpoint''
     then bind_exn (or_type_error (Option.bind (j_at J j ''endpoint'') (j_get_str J))) (\<lambda>endpoint.
            Inr (case resolve_endpoint (st_url t) endpoint of
                   None \<Rightarrow> t | Some e \<Rightarrow> t\<lparr>st_post_endpoint := e\<rparr>))
     else Inr t)"

definition parse_sse_line ::
  "('j, 'z) jlib_scheme \<Rightarrow> (cpp_exn \<Rightarrow> string) \<Rightarrow> string \<Rightarrow> 'w sse_transport \<times> 'w \<Rightarrow> 'w sse_transport \<times> 'w" where
  "parse_sse_line J what line = (\<lambda>(t, w).
     if line = [] \<or> take 6 line = ''event:'' then (t, w)
     else if take 5 line = ''data:''
     then (let rest = drop 5 line;
               data = (if rest \<noteq> [] \<and> hd rest = CHR '' '' then tl rest else rest)
           in case read_endpoint J data t of
                Inr t' \<Rightarrow> (t', run_callback (st_on_message t') data w)
              | Inl e \<Rightarrow> (t, run_callback (st_on_error t) (''SSE parse error: '' @ what e) w))
     else (t, w))"

definition process_sse_event :: "string \<Rightarrow> string \<Rightarrow> 'w sse_transport \<times> 'w \<Rightarrow> 'w sse_transport \<times> 'w" where
  "process_sse_event event_type data = (\<lambda>(t, w).
     (t, case st_on_event t of None \<Rightarrow> w | Some f \<Rightarrow> f event_type data w))"

definition drop_cr :: "string \<Rightarrow> string" where
  "drop_cr line = (if line \<noteq> [] \<and> last line = CHR 0x0D then butlast line else line)"

text \<open>The lines of the body, with the type and the data of the event that is being read.\<close>

fun sse_lines ::
  "('j, 'z) jlib_scheme \<Rightarrow> (cpp_exn \<Rightarrow> string) \<Rightarrow> string list \<Rightarrow> string \<Rightarrow> string \<Rightarrow>
   'w sse_transport \<times> 'w \<Rightarrow> 'w sse_transport \<times> 'w" where
  "sse_lines J what [] event_type data s = s"
| "sse_lines J what (raw # lines) event_type data s =
     (let line = drop_cr raw in
      if starts_with line ''event: '' then sse_lines J what lines (drop 7 line) data s
      else if starts_with line ''data: '' then sse_lines J what lines event_type (drop 6 line) s
      else if line = [] \<and> data \<noteq> []
      then sse_lines J what lines [] []
             (process_sse_event event_type data (parse_sse_line J what (''data: '' @ data) s))
      else sse_lines J what lines event_type data (parse_sse_line J what line s))"

fun session_lines :: "string list \<Rightarrow> 'w sse_transport \<Rightarrow> 'w sse_transport" where
  "session_lines [] t = t"
| "session_lines (raw # lines) t =
     (let line = drop_cr raw in
      session_lines lines
        (if contains_str (to_lower line) ''mcp-session-id''
         then (case str_find '':'' line of None \<Rightarrow> t
               | Some pos \<Rightarrow> t\<lparr>st_session_url := trim (drop (pos + 1) line)\<rparr>)
         else t))"

definition http_get_sse ::
  "('j, 'z) jlib_scheme \<Rightarrow> (cpp_exn \<Rightarrow> string) \<Rightarrow> 'w net \<Rightarrow> string \<Rightarrow> string omap \<Rightarrow>
   'w sse_transport \<times> 'w \<Rightarrow> bool \<times> 'w sse_transport \<times> 'w" where
  "http_get_sse J what net url headers = (\<lambda>(t, w).
     case nt_get net url ([''Accept: text/event-stream'', ''Cache-Control: no-cache'']
            @ header_lines headers) w of
       (Response code head body, w1) \<Rightarrow>
         if code \<ge> 400 then (False, t, w1)
         else (case sse_lines J what (split_char body (CHR 0x0A)) [] [] (t, w1) of
                 (t1, w2) \<Rightarrow>
                   let t2 = session_lines (split_char head (CHR 0x0A)) t1
                   in (True, if st_post_endpoint t2 = [] then t2\<lparr>st_post_endpoint := url\<rparr> else t2, w2))
     | (_, w1) \<Rightarrow> (False, t, w1))"

definition transport_connect ::
  "('j, 'z) jlib_scheme \<Rightarrow> (cpp_exn \<Rightarrow> string) \<Rightarrow> 'w net \<Rightarrow> string \<Rightarrow> string omap \<Rightarrow>
   'w sse_transport \<times> 'w \<Rightarrow> bool \<times> 'w sse_transport \<times> 'w" where
  "transport_connect J what net url headers = (\<lambda>(t, w).
     case http_get_sse J what net url headers (t\<lparr>st_url := url, st_headers := headers\<rparr>, w) of
       (ok, t1, w1) \<Rightarrow> (ok, if ok then t1\<lparr>st_connected := True\<rparr> else t1, w1))"

definition transport_disconnect :: "'w sse_transport \<Rightarrow> 'w sse_transport" where
  "transport_disconnect t = (if st_connected t then t\<lparr>st_connected := False\<rparr> else t)"

definition http_post :: "'w net \<Rightarrow> string \<Rightarrow> string \<Rightarrow> string omap \<Rightarrow> 'w \<Rightarrow> bool \<times> 'w" where
  "http_post net url body headers w =
     (case nt_post net url (header_lines headers) body w of
        (Response code head b, w1) \<Rightarrow> (code < 400, w1)
      | (_, w1) \<Rightarrow> (False, w1))"

definition auth_header :: "string \<Rightarrow> bool" where
  "auth_header k = (to_lower k = ''authorization'' \<or> to_lower k = ''x-api-key'')"

definition transport_send :: "'w net \<Rightarrow> string \<Rightarrow> 'w sse_transport \<Rightarrow> 'w \<Rightarrow> bool \<times> 'w" where
  "transport_send net message t w =
     (if \<not> st_connected t \<or> st_post_endpoint t = [] then (False, w)
      else http_post net (st_post_endpoint t) message
             (foldl (\<lambda>m (k, v). if auth_header k then om_put k v m else m)
                (om_put ''Content-Type'' ''application/json''
                   (om_put ''Accept'' ''application/json, text/event-stream'' []))
                (st_headers t)) w)"

section \<open>McpConnection\<close>

datatype connection_type = Over_Stdio | Over_Sse

text \<open>\<open>cn_open\<close>: both pipes and the child, which are opened and closed together.\<close>

record 'w mcp_connection =
  cn_type :: connection_type
  cn_server_name :: string
  cn_open :: bool
  cn_buffer :: string
  cn_transport :: "'w sse_transport option"
  cn_queue :: "string list"
  cn_writable :: bool
  cn_in :: "input list"
  cn_out :: "string list"

definition create_stdio :: "bool \<Rightarrow> bool \<Rightarrow> input list \<Rightarrow> string \<Rightarrow> 'w mcp_connection option" where
  "create_stdio spawn writable server name =
     (if \<not> spawn then None
      else Some \<lparr>cn_type = Over_Stdio, cn_server_name = name, cn_open = True, cn_buffer = [],
             cn_transport = None, cn_queue = [], cn_writable = writable, cn_in = server, cn_out = []\<rparr>)"

definition create_sse ::
  "('j, 'z) jlib_scheme \<Rightarrow> (cpp_exn \<Rightarrow> string) \<Rightarrow> 'w net \<Rightarrow> string \<Rightarrow> string omap \<Rightarrow> 'w \<Rightarrow>
   'w mcp_connection \<times> 'w" where
  "create_sse J what net url headers w =
     (case transport_connect J what net url headers (new_transport, w) of
        (ok, t, w1) \<Rightarrow>
          (\<lparr>cn_type = Over_Sse, cn_server_name = url, cn_open = False, cn_buffer = [],
            cn_transport = (if ok then Some t else None), cn_queue = [], cn_writable = False,
            cn_in = [], cn_out = []\<rparr>, w1))"

definition connection_send ::
  "'w net \<Rightarrow> string \<Rightarrow> 'w mcp_connection \<times> 'w \<Rightarrow> bool \<times> 'w mcp_connection \<times> 'w" where
  "connection_send net message = (\<lambda>(c, w).
     case cn_type c of
       Over_Sse \<Rightarrow>
         (case cn_transport c of
            None \<Rightarrow> (False, c, w)
          | Some t \<Rightarrow> (case transport_send net message t w of (ok, w1) \<Rightarrow> (ok, c, w1)))
     | Over_Stdio \<Rightarrow>
         if cn_open c \<and> cn_writable c then (True, c\<lparr>cn_out := cn_out c @ [frame message]\<rparr>, w)
         else (False, c, w))"

definition receive :: "(string, 'w mcp_connection) effect" where
  "receive c =
     (case cn_type c of
        Over_Sse \<Rightarrow>
          (case cn_queue c of
             [] \<Rightarrow> (Inr [], c)
           | m # q \<Rightarrow> (Inr m, c\<lparr>cn_queue := q\<rparr>))
      | Over_Stdio \<Rightarrow>
          if \<not> cn_open c then (Inr [], c)
          else case connection_receive (cn_in c) (cn_buffer c) of
                 (r, evs, buf) \<Rightarrow> (r, c\<lparr>cn_in := evs, cn_buffer := buf\<rparr>))"

definition connection_disconnect :: "'w mcp_connection \<Rightarrow> 'w mcp_connection" where
  "connection_disconnect c =
     (case cn_type c of
        Over_Sse \<Rightarrow> c\<lparr>cn_transport := None\<rparr>
      | Over_Stdio \<Rightarrow> c\<lparr>cn_open := False\<rparr>)"

definition connection_is_connected :: "'w mcp_connection \<Rightarrow> bool" where
  "connection_is_connected c =
     (case cn_type c of
        Over_Sse \<Rightarrow> (case cn_transport c of None \<Rightarrow> False | Some t \<Rightarrow> st_connected t)
      | Over_Stdio \<Rightarrow> cn_open c)"

section \<open>Where messages are posted\<close>

lemma split_char_line: "d \<notin> set a \<Longrightarrow> split_char (a @ d # b) d = a # split_char b d"
proof -
  assume d: "d \<notin> set a"
  then have "takeWhile (\<lambda>c. c \<noteq> d) (a @ d # b) = a" "dropWhile (\<lambda>c. c \<noteq> d) (a @ d # b) = d # b"
    by (auto simp: takeWhile_append dropWhile_append)
  then show ?thesis by (subst split_char.simps) simp
qed

lemma split_char_Nil [simp]: "split_char [] d = []"
  by (simp add: split_char.simps)

lemma session_lines_endpoint [simp]: "st_post_endpoint (session_lines ls t) = st_post_endpoint t"
  by (induction ls arbitrary: t) (simp_all add: Let_def split: option.split)

lemma transport_connect_endpoint:
  fixes net :: "'w net"
  assumes "nt_get net url ([''Accept: text/event-stream'', ''Cache-Control: no-cache''] @ header_lines headers) w
      = (Response code head (''event: endpoint'' @ [CHR 0x0A] @ ''data: '' @ data @ [CHR 0x0A, CHR 0x0A]), w1)"
    and "code < 400" and "CHR 0x0A \<notin> set data" and "data \<noteq> []" and "last data \<noteq> CHR 0x0D"
  shows "\<exists>t. transport_connect J what net url headers (new_transport, w) = (True, t, w1) \<and>
    st_connected t \<and>
    st_post_endpoint t = (case read_endpoint J data ((new_transport :: 'w sse_transport)\<lparr>st_url := url, st_headers := headers\<rparr>) of
        Inl e \<Rightarrow> url
      | Inr t' \<Rightarrow> if st_post_endpoint t' = [] then url else st_post_endpoint t')"
proof -
  define t0 where "t0 = (new_transport :: 'w sse_transport)\<lparr>st_url := url, st_headers := headers\<rparr>"
  define body where "body = ''event: endpoint'' @ [CHR 0x0A] @ ''data: '' @ data @ [CHR 0x0A, CHR 0x0A]"
  have lines: "split_char body (CHR 0x0A) = [''event: endpoint'', ''data: '' @ data, []]"
    unfolding body_def
    using split_char_line [of "CHR 0x0A" "''event: endpoint''" "''data: '' @ data @ [CHR 0x0A, CHR 0x0A]"]
      split_char_line [of "CHR 0x0A" "''data: '' @ data" "[CHR 0x0A]"] assms(3)
      split_char_line [of "CHR 0x0A" "[]" "[]"] by simp
  have fields: "st_on_message t0 = None" "st_on_error t0 = None" "st_on_event t0 = None"
    "st_post_endpoint t0 = []" by (simp_all add: t0_def new_transport_def)
  have keep: "st_on_event t' = None" "st_on_message t' = None" if "read_endpoint J data t0 = Inr t'" for t'
    using that fields by (auto simp: read_endpoint_def bind_exn_Inr split: if_splits option.splits)
  define t1 where "t1 = (case read_endpoint J data t0 of Inl e \<Rightarrow> t0 | Inr t' \<Rightarrow> t')"
  have "sse_lines J what (split_char body (CHR 0x0A)) [] [] (t0, w1) = (t1, w1)"
    unfolding lines using assms(4,5) fields keep
    by (simp add: Let_def drop_cr_def starts_with_def parse_sse_line_def process_sse_event_def
        run_callback_def t1_def split: sum.split)
  then have "http_get_sse J what net url headers (t0, w) =
      (True, let t2 = session_lines (split_char head (CHR 0x0A)) t1
             in if st_post_endpoint t2 = [] then t2\<lparr>st_post_endpoint := url\<rparr> else t2, w1)"
    using assms(1) [folded body_def] assms(2) by (simp add: http_get_sse_def Let_def)
  then show ?thesis
    using fields(4)
    by (simp add: transport_connect_def t0_def [symmetric] t1_def Let_def split: sum.split)
qed

text \<open>
  Connecting to a server that announces its endpoint as the MCP protocol says, by an event
  whose data is the path itself: the path is no JSON, so it is reported as a parse error and
  messages are posted to the URL of the stream. Only a server that wraps the path in a JSON
  object gets its messages where it wants them, below the host of that URL.
\<close>

theorem endpoint_selection:
  fixes net :: "'w net"
  assumes "nt_get net url ([''Accept: text/event-stream'', ''Cache-Control: no-cache''] @ header_lines headers) w
      = (Response code head (''event: endpoint'' @ [CHR 0x0A] @ ''data: '' @ data @ [CHR 0x0A, CHR 0x0A]), w1)"
    and "code < 400" and "CHR 0x0A \<notin> set data" and "data \<noteq> []" and "last data \<noteq> CHR 0x0D"
    and "url = scheme @ ''://'' @ host @ CHR ''/'' # rest"
    and "CHR '':'' \<notin> set scheme" and "CHR ''/'' \<notin> set host"
  shows "\<exists>t. transport_connect J what net url headers (new_transport, w) = (True, t, w1) \<and>
    st_connected t \<and>
    (\<forall>e. j_parse J data = Inl e \<longrightarrow> st_post_endpoint t = url) \<and>
    (\<forall>j v path. j_parse J data = Inr j \<and> j_contains J j ''endpoint'' \<and> j_at J j ''endpoint'' = Some v \<and>
        j_get_str J v = Some (CHR ''/'' # path) \<longrightarrow>
      st_post_endpoint t = scheme @ ''://'' @ host @ CHR ''/'' # path)"
proof -
  have "str_find ''://'' url = Some (length scheme)"
    using str_find_cons_notin [of "CHR '':''" scheme "''//''" "host @ CHR ''/'' # rest"] assms(6,7) by simp
  moreover have "find_from url ''/'' (length scheme + 3) = Some (length scheme + 3 + length host)"
    using str_find_char [of "CHR ''/''" host rest] assms(6,8) by (simp add: find_from_def)
  moreover have "take (length scheme + 3 + length host) url = scheme @ ''://'' @ host"
  proof -
    have "length scheme + 3 + length host = length (scheme @ ''://'' @ host)" by simp
    moreover have "url = (scheme @ ''://'' @ host) @ CHR ''/'' # rest" using assms(6) by simp
    ultimately show ?thesis by (metis append_eq_conv_conj)
  qed
  ultimately have resolve: "resolve_endpoint url (CHR ''/'' # path) =
      Some (scheme @ ''://'' @ host @ CHR ''/'' # path)" for path
    by (simp add: resolve_endpoint_def starts_with_def)
  from transport_connect_endpoint [where J = J and what = what, OF assms(1-5)] obtain t where
    t: "transport_connect J what net url headers (new_transport, w) = (True, t, w1)" "st_connected t"
    "st_post_endpoint t = (case read_endpoint J data ((new_transport :: 'w sse_transport)\<lparr>st_url := url, st_headers := headers\<rparr>) of
        Inl e \<Rightarrow> url
      | Inr t' \<Rightarrow> if st_post_endpoint t' = [] then url else st_post_endpoint t')" by blast
  then show ?thesis by (auto simp: read_endpoint_def parse_json_def resolve)
qed

definition sample_net :: "string \<Rightarrow> unit net" where
  "sample_net body = \<lparr>nt_get = (\<lambda>url hs w. (Response 200 [] body, w)),
     nt_post = (\<lambda>url hs b w. (Response 202 [] [], w))\<rparr>"

lemma endpoint_selection_witness:
  "\<exists>t. transport_connect (sample_jlib (\<lambda>s. Inl ''bad'') (\<lambda>v. [])) (\<lambda>e. [])
      (sample_net (''event: endpoint'' @ [CHR 0x0A] @ ''data: '' @ ''/post'' @ [CHR 0x0A, CHR 0x0A]))
      ''http://h/sse'' [] (new_transport, ()) = (True, t, ()) \<and>
    st_post_endpoint t = ''http://h/sse''"
proof -
  let ?net = "sample_net (''event: endpoint'' @ [CHR 0x0A] @ ''data: '' @ ''/post'' @ [CHR 0x0A, CHR 0x0A])"
  let ?J = "sample_jlib (\<lambda>s. Inl ''bad'') (\<lambda>v. [])"
  have "\<exists>t. transport_connect ?J (\<lambda>e. []) ?net ''http://h/sse'' [] (new_transport, ()) = (True, t, ()) \<and>
      st_connected t \<and>
      (\<forall>e. j_parse ?J ''/post'' = Inl e \<longrightarrow> st_post_endpoint t = ''http://h/sse'') \<and>
      (\<forall>j v path. j_parse ?J ''/post'' = Inr j \<and> j_contains ?J j ''endpoint'' \<and> j_at ?J j ''endpoint'' = Some v \<and>
          j_get_str ?J v = Some (CHR ''/'' # path) \<longrightarrow>
        st_post_endpoint t = ''http'' @ ''://'' @ ''h'' @ CHR ''/'' # path)"
    by (rule endpoint_selection [where code = 200 and head = "[]" and rest = "''sse''"])
      (simp_all add: sample_net_def)
  then show ?thesis by auto
qed

section \<open>A connection over events receives nothing\<close>

datatype connection_event = Send string | Receive | Disconnect

fun connection_step :: "'w net \<Rightarrow> 'w mcp_connection \<times> 'w \<Rightarrow> connection_event \<Rightarrow> 'w mcp_connection \<times> 'w" where
  "connection_step net s (Send m) = snd (connection_send net m s)"
| "connection_step net s Receive = (snd (receive (fst s)), snd s)"
| "connection_step net s Disconnect = (connection_disconnect (fst s), snd s)"

definition silent :: "'w mcp_connection \<times> 'w \<Rightarrow> bool" where
  "silent s = (cn_type (fst s) = Over_Sse \<and> cn_queue (fst s) = [])"

interpretation sse_connection: machine "create_sse J what net url headers w" "connection_step net" silent
  for J what net url headers w
proof unfold_locales
  show "silent (create_sse J what net url headers w)"
    by (simp add: silent_def create_sse_def split: prod.split)
  fix s :: "'c mcp_connection \<times> 'c" and e
  assume "silent s"
  then show "silent (connection_step net s e)"
    by (cases e; cases s) (auto simp: silent_def connection_send_def receive_def
        connection_disconnect_def split: option.splits prod.splits)
qed

text \<open>
  A connection over server-sent events never returns a message, whatever the server sends and
  whatever was sent: nothing fills its queue.
\<close>

theorem sse_connection_never_receives:
  "fst (receive (fst (foldl (connection_step net) (create_sse J what net url headers w) es))) = Inr []"
  using sse_connection.inv_reachable [of net J what url headers w es]
  by (simp add: silent_def receive_def)

end
