(* ===== verification/Mcp_Client.thy ===== *)
theory Mcp_Client
  imports Mcp_Transport
begin

text \<open>
  \<open>JsonRpcMessage\<close> and \<open>McpClient\<close> of \<open>src/protocol/mcp/mcp_client.h\<close> and \<open>mcp_client.cpp\<close>: a
  client of one MCP server, which is a child process read through pipes or a remote server
  reached over HTTP.

  Arguments: the network and the starting of child processes (\<open>mcp_env\<close>), each with the world
  \<open>'w\<close>, and the text of exceptions. What a child sends is the list \<open>cm_in\<close> (see \<open>Framing\<close>);
  \<open>cm_out\<close> collects what is written to it. Waiting and signals are not modelled.
\<close>

section \<open>Messages\<close>

record 'j rpc_message =
  jm_jsonrpc :: string
  jm_id :: string
  jm_method :: string
  jm_params :: 'j
  jm_result :: 'j
  jm_error :: 'j

definition blank_rpc :: "('j, 'z) jlib_scheme \<Rightarrow> 'j rpc_message" where
  "blank_rpc J = \<lparr>jm_jsonrpc = ''2.0'', jm_id = [], jm_method = [], jm_params = j_null J,
     jm_result = j_null J, jm_error = j_null J\<rparr>"

definition message_json :: "('j, 'z) jlib_scheme \<Rightarrow> 'j rpc_message \<Rightarrow> 'j" where
  "message_json J m =
     obj_from J
       ([(''jsonrpc'', j_string J ''2.0'')]
        @ (if jm_id m \<noteq> [] then [(''id'', j_string J (jm_id m))] else [])
        @ (if jm_method m \<noteq> [] then [(''method'', j_string J (jm_method m))] else [])
        @ (if \<not> j_is_null J (jm_params m) then [(''params'', jm_params m)] else [])
        @ (if \<not> j_is_null J (jm_result m) then [(''result'', jm_result m)] else [])
        @ (if \<not> j_is_null J (jm_error m) then [(''error'', jm_error m)] else []))"

definition message_to_string :: "('j, 'z) jlib_scheme \<Rightarrow> 'j rpc_message \<Rightarrow> cpp_exn + string" where
  "message_to_string J m = dump_json J (message_json J m)"

definition member_or_null :: "('j, 'z) jlib_scheme \<Rightarrow> 'j \<Rightarrow> string \<Rightarrow> 'j" where
  "member_or_null J j k =
     (if j_contains J j k then (case j_at J j k of None \<Rightarrow> j_null J | Some v \<Rightarrow> v) else j_null J)"

text \<open>Only \<open>json::parse_error\<close> is caught, so a member of another type throws.\<close>

definition parse_message :: "('j, 'z) jlib_scheme \<Rightarrow> string \<Rightarrow> cpp_exn + 'j rpc_message" where
  "parse_message J raw =
     (case j_parse J raw of
        Inl e \<Rightarrow> Inr (blank_rpc J)
      | Inr j \<Rightarrow>
          bind_exn (str_value J j ''jsonrpc'' ''2.0'') (\<lambda>version.
          bind_exn (str_value J j ''id'' []) (\<lambda>i.
          bind_exn (str_value J j ''method'' []) (\<lambda>method.
            Inr \<lparr>jm_jsonrpc = version, jm_id = i, jm_method = method,
              jm_params = member_or_null J j ''params'', jm_result = member_or_null J j ''result'',
              jm_error = member_or_null J j ''error''\<rparr>))))"

section \<open>The client\<close>

record mcp_config =
  mc_name :: string
  mc_command :: string
  mc_args :: "string list"
  mc_env :: "string omap"
  mc_url :: string
  mc_transport :: string
  mc_timeout_seconds :: int
  mc_enabled :: bool

definition default_config :: mcp_config where
  "default_config = \<lparr>mc_name = [], mc_command = [], mc_args = [], mc_env = [], mc_url = [],
     mc_transport = ''stdio'', mc_timeout_seconds = 30, mc_enabled = True\<rparr>"

record 'j mcp_tool_def =
  td_name :: string
  td_description :: string
  td_input_schema :: 'j

record mcp_resource =
  re_uri :: string
  re_name :: string
  re_description :: string
  re_mime_type :: string

record 'j mcp_tool_result =
  tu_success :: bool
  tu_content :: 'j
  tu_is_error :: bool
  tu_error_message :: string

text \<open>
  \<open>cm_open\<close>: both pipes; \<open>cm_child\<close>: the child process is running. \<open>cm_serial\<close> stands for the
  address of the object: two clients that are made have different ones.
\<close>

record 'w mcp_client =
  cm_serial :: nat
  cm_config :: mcp_config
  cm_connected :: bool
  cm_server_name :: string
  cm_server_version :: string
  cm_child :: bool
  cm_open :: bool
  cm_next_id :: int
  cm_post_endpoint :: string
  cm_sse :: "'w sse_transport option"
  cm_writable :: bool
  cm_in :: "input list"
  cm_out :: "string list"

definition new_mcp_client :: "mcp_config \<Rightarrow> 'w mcp_client" where
  "new_mcp_client config = \<lparr>cm_serial = 0, cm_config = config, cm_connected = False, cm_server_name = [],
     cm_server_version = [], cm_child = False, cm_open = False, cm_next_id = 1,
     cm_post_endpoint = [], cm_sse = None, cm_writable = False, cm_in = [], cm_out = []\<rparr>"

text \<open>
  Starting a child: whether it can be started, whether writes reach it, and what it sends.
\<close>

record 'w mcp_env =
  me_net :: "'w net"
  me_launch :: "mcp_config \<Rightarrow> 'w \<Rightarrow> (bool \<times> bool \<times> input list) \<times> 'w"
  me_what :: "cpp_exn \<Rightarrow> string"

type_synonym ('a, 'w) mcp = "('a, 'w mcp_client) effect"

type_synonym ('a, 'w) mcp_io = "('a, 'w mcp_client \<times> 'w) effect"

definition on_client :: "('a, 'w) mcp \<Rightarrow> ('a, 'w) mcp_io" where
  "on_client m = (\<lambda>(c, w). case m c of (r, c') \<Rightarrow> (r, c', w))"

section \<open>Requests over pipes\<close>

definition write_message :: "string \<Rightarrow> (unit, 'w) mcp" where
  "write_message message = modify (\<lambda>c.
     if cm_open c \<and> cm_writable c then c\<lparr>cm_out := cm_out c @ [frame message]\<rparr> else c)"

text \<open>A read that never returns is \<open>Blocked\<close>.\<close>

definition read_reply :: "(string, 'w) mcp" where
  "read_reply c =
     (if \<not> cm_open c \<or> mc_timeout_seconds (cm_config c) \<le> 0 then (Inr [], c)
      else case read_response (cm_in c) [] of
             None \<Rightarrow> (Inl Blocked, c)
           | Some (r, evs) \<Rightarrow> (r, c\<lparr>cm_in := evs\<rparr>))"

definition send_request :: "('j, 'z) jlib_scheme \<Rightarrow> string \<Rightarrow> 'j \<Rightarrow> ('j rpc_message, 'w) mcp" where
  "send_request J method params =
     andthen (look cm_next_id) (\<lambda>n.
     andthen (modify (\<lambda>c. c\<lparr>cm_next_id := n + 1\<rparr>)) (\<lambda>_.
     (let msg = (blank_rpc J)\<lparr>jm_id := int_to_string n, jm_method := method, jm_params := params\<rparr>
      in andthen (pure_exn (message_to_string J msg)) (\<lambda>message.
         andthen (write_message message) (\<lambda>_.
         andthen read_reply (\<lambda>response.
           if response = [] then ret msg else pure_exn (parse_message J response)))))))"

definition send_notification :: "('j, 'z) jlib_scheme \<Rightarrow> string \<Rightarrow> 'j \<Rightarrow> (unit, 'w) mcp" where
  "send_notification J method params =
     andthen (pure_exn (message_to_string J ((blank_rpc J)\<lparr>jm_method := method, jm_params := params\<rparr>)))
       write_message"

section \<open>Connecting\<close>

definition client_info :: "('j, 'z) jlib_scheme \<Rightarrow> 'j" where
  "client_info J =
     j_object J [(''name'', j_string J ''claude-code-cpp''), (''version'', j_string J ''0.1.0'')]"

definition initialize_params :: "('j, 'z) jlib_scheme \<Rightarrow> 'j \<Rightarrow> 'j" where
  "initialize_params J capabilities =
     j_object J [(''protocolVersion'', j_string J ''2024-11-05''), (''capabilities'', capabilities),
       (''clientInfo'', client_info J)]"

definition read_server_info :: "('j, 'z) jlib_scheme \<Rightarrow> 'j \<Rightarrow> (unit, 'w) mcp" where
  "read_server_info J result =
     (if j_contains J result ''serverInfo''
      then andthen (pure_exn (or_type_error (j_at J result ''serverInfo''))) (\<lambda>info.
           andthen (pure_exn (str_value J info ''name'' [])) (\<lambda>name.
           andthen (modify (\<lambda>c. c\<lparr>cm_server_name := name\<rparr>)) (\<lambda>_.
           andthen (pure_exn (str_value J info ''version'' [])) (\<lambda>version.
             modify (\<lambda>c. c\<lparr>cm_server_version := version\<rparr>)))))
      else ret ())"

definition client_disconnect :: "'w mcp_client \<Rightarrow> 'w mcp_client" where
  "client_disconnect c =
     (if \<not> cm_connected c then c
      else c\<lparr>cm_child := False, cm_open := False, cm_sse := None, cm_post_endpoint := [],
             cm_connected := False\<rparr>)"

text \<open>After the child has been started. The empty braces of the capabilities are \<open>null\<close>.\<close>

definition initialize_stdio :: "('j, 'z) jlib_scheme \<Rightarrow> (bool, 'w) mcp" where
  "initialize_stdio J =
     andthen (send_request J ''initialize'' (initialize_params J (j_null J))) (\<lambda>init_result.
     if j_is_null J (jm_result init_result) \<and> \<not> j_is_null J (jm_error init_result)
     then andthen (modify client_disconnect) (\<lambda>_. ret False)
     else
       andthen (read_server_info J (jm_result init_result)) (\<lambda>_.
       andthen (send_notification J ''notifications/initialized'' (j_null J)) (\<lambda>_.
       andthen (modify (\<lambda>c. c\<lparr>cm_connected := True\<rparr>)) (\<lambda>_. ret True))))"

definition connect_stdio :: "('j, 'z) jlib_scheme \<Rightarrow> 'w mcp_env \<Rightarrow> (bool, 'w) mcp_io" where
  "connect_stdio J e = (\<lambda>(c, w).
     case me_launch e (cm_config c) w of
       ((spawned, writable, server), w1) \<Rightarrow>
         if \<not> spawned then (Inr False, c, w1)
         else on_client (initialize_stdio J)
                (c\<lparr>cm_open := True, cm_child := True, cm_writable := writable, cm_in := server\<rparr>, w1))"

definition auth_token :: "mcp_config \<Rightarrow> string option" where
  "auth_token config =
     (case om_get (mc_env config) ''MCP_AUTH_TOKEN'' of
        Some t \<Rightarrow> if t \<noteq> [] then Some t else None
      | None \<Rightarrow> None)"

definition with_auth :: "mcp_config \<Rightarrow> string omap \<Rightarrow> string omap" where
  "with_auth config headers =
     (case auth_token config of
        None \<Rightarrow> headers | Some t \<Rightarrow> om_put ''Authorization'' (''Bearer '' @ t) headers)"

definition sse_active :: "'w mcp_client \<Rightarrow> bool" where
  "sse_active c = (case cm_sse c of None \<Rightarrow> False | Some t \<Rightarrow> st_connected t)"

text \<open>The status is not looked at, and what does not parse is returned as it is.\<close>

definition send_sse_request ::
  "('j, 'z) jlib_scheme \<Rightarrow> 'w mcp_env \<Rightarrow> string \<Rightarrow> 'w mcp_client \<Rightarrow> 'w \<Rightarrow> string \<times> 'w" where
  "send_sse_request J e message c w =
     (if \<not> sse_active c then ([], w)
      else case nt_post (me_net e) (cm_post_endpoint c)
                  (header_lines (with_auth (cm_config c) (om_put ''Content-Type'' ''application/json'' [])))
                  message w of
             (Response code head body, w1) \<Rightarrow>
               (case j_parse J body of
                  Inl _ \<Rightarrow> body
                | Inr j \<Rightarrow>
                    if j_contains J j ''result''
                    then (case j_at J j ''result'' of None \<Rightarrow> body | Some r \<Rightarrow> j_dump J r)
                    else body, w1)
           | (_, w1) \<Rightarrow> ([], w1))"

definition send_sse_notification ::
  "'w mcp_env \<Rightarrow> string \<Rightarrow> 'w mcp_client \<Rightarrow> 'w \<Rightarrow> bool \<times> 'w" where
  "send_sse_notification e message c w =
     (case cm_sse c of
        None \<Rightarrow> (False, w)
      | Some t \<Rightarrow> if st_connected t then transport_send (me_net e) message t w else (False, w))"

definition post_url :: "string \<Rightarrow> string \<Rightarrow> string" where
  "post_url endpoint url =
     (if endpoint \<noteq> [] then endpoint
      else (case str_find ''/sse'' url of None \<Rightarrow> url | Some p \<Rightarrow> take p url @ ''/message''))"

definition initialize_sse :: "('j, 'z) jlib_scheme \<Rightarrow> 'w mcp_env \<Rightarrow> (bool, 'w) mcp_io" where
  "initialize_sse J e = (\<lambda>(c, w).
     case send_sse_request J e (j_dump J (j_object J [(''jsonrpc'', j_string J ''2.0''),
            (''id'', j_int J 1), (''method'', j_string J ''initialize''),
            (''params'', initialize_params J (j_object J []))])) c w of
       (response, w1) \<Rightarrow>
         if response = []
         then (Inr False, c\<lparr>cm_sse := map_option transport_disconnect (cm_sse c), cm_connected := False\<rparr>, w1)
         else
           (case (case j_parse J response of
                    Inl _ \<Rightarrow> ret () c
                  | Inr result \<Rightarrow> read_server_info J result c) of
              (Inl x, c1) \<Rightarrow> (Inl x, c1, w1)
            | (Inr _, c1) \<Rightarrow>
                (case send_sse_notification e (j_dump J (j_object J [(''jsonrpc'', j_string J ''2.0''),
                        (''method'', j_string J ''notifications/initialized'')])) c1 w1 of
                   (_, w2) \<Rightarrow> (Inr True, c1, w2))))"

definition connect_sse :: "('j, 'z) jlib_scheme \<Rightarrow> 'w mcp_env \<Rightarrow> (bool, 'w) mcp_io" where
  "connect_sse J e = (\<lambda>(c, w).
     let t0 = (case cm_sse c of None \<Rightarrow> new_transport | Some t \<Rightarrow> t);
         url = mc_url (cm_config c);
         headers = om_put ''Accept'' ''text/event-stream'' (with_auth (cm_config c) [])
     in case transport_connect J (me_what e) (me_net e) url headers (t0, w) of
          (False, t1, w1) \<Rightarrow> (Inr False, c\<lparr>cm_sse := Some t1\<rparr>, w1)
        | (True, t1, w1) \<Rightarrow>
            initialize_sse J e
              (c\<lparr>cm_sse := Some t1, cm_post_endpoint := post_url (st_post_endpoint t1) url,
                 cm_connected := True\<rparr>, w1))"

definition connect :: "('j, 'z) jlib_scheme \<Rightarrow> 'w mcp_env \<Rightarrow> (bool, 'w) mcp_io" where
  "connect J e = (\<lambda>(c, w).
     if cm_connected c then (Inr True, c, w)
     else if mc_transport (cm_config c) = ''sse'' \<and> mc_url (cm_config c) \<noteq> []
     then connect_sse J e (c, w)
     else connect_stdio J e (c, w))"

section \<open>Tools, resources and prompts\<close>

definition array_member :: "('j, 'z) jlib_scheme \<Rightarrow> 'j \<Rightarrow> string \<Rightarrow> 'j list option" where
  "array_member J j k =
     (if j_contains J j k
      then (case j_at J j k of
              None \<Rightarrow> None
            | Some v \<Rightarrow> if j_is_array J v then Some (j_elems J v) else None)
      else None)"

definition tool_def_of :: "('j, 'z) jlib_scheme \<Rightarrow> 'j \<Rightarrow> cpp_exn + 'j mcp_tool_def" where
  "tool_def_of J t =
     bind_exn (str_value J t ''name'' []) (\<lambda>name.
     bind_exn (str_value J t ''description'' []) (\<lambda>description.
       Inr \<lparr>td_name = name, td_description = description,
             td_input_schema = member_or_null J t ''inputSchema''\<rparr>))"

definition list_tools :: "('j, 'z) jlib_scheme \<Rightarrow> ('j mcp_tool_def list, 'w) mcp" where
  "list_tools J =
     andthen (look cm_connected) (\<lambda>ok.
     if \<not> ok then ret []
     else andthen (send_request J ''tools/list'' (j_null J)) (\<lambda>result.
       case array_member J (jm_result result) ''tools'' of
         None \<Rightarrow> ret []
       | Some ts \<Rightarrow> pure_exn (bind_exn (map_exn (tool_def_of J) ts)
                              (\<lambda>ds. Inr (filter (\<lambda>d. td_name d \<noteq> []) ds)))))"

definition blank_result :: "('j, 'z) jlib_scheme \<Rightarrow> 'j mcp_tool_result" where
  "blank_result J = \<lparr>tu_success = False, tu_content = j_null J, tu_is_error = False,
     tu_error_message = []\<rparr>"

definition result_of_response :: "('j, 'z) jlib_scheme \<Rightarrow> 'j rpc_message \<Rightarrow> cpp_exn + 'j mcp_tool_result" where
  "result_of_response J response =
     (if \<not> j_is_null J (jm_error response)
      then bind_exn (str_value J (jm_error response) ''message'' ''Unknown error'') (\<lambda>text.
             Inr ((blank_result J)\<lparr>tu_is_error := True, tu_error_message := text\<rparr>))
      else
        (let r = (if j_contains J (jm_result response) ''content''
                  then (blank_result J)\<lparr>tu_content := member_or_null J (jm_result response) ''content'',
                         tu_success := True\<rparr>
                  else blank_result J)
         in bind_exn (bool_value J (jm_result response) ''isError'' False)
              (\<lambda>b. Inr (r\<lparr>tu_is_error := b\<rparr>))))"

definition call_tool ::
  "('j, 'z) jlib_scheme \<Rightarrow> string \<Rightarrow> 'j \<Rightarrow> ('j mcp_tool_result, 'w) mcp" where
  "call_tool J name arguments =
     andthen (look cm_connected) (\<lambda>ok.
     if \<not> ok then ret ((blank_result J)\<lparr>tu_error_message := ''Server not connected''\<rparr>)
     else andthen (send_request J ''tools/call'' (j_object J [(''name'', j_string J name),
              (''arguments'', if j_is_null J arguments then j_object J [] else arguments)]))
            (\<lambda>response. pure_exn (result_of_response J response)))"

definition resource_of :: "('j, 'z) jlib_scheme \<Rightarrow> 'j \<Rightarrow> cpp_exn + mcp_resource" where
  "resource_of J r =
     bind_exn (str_value J r ''uri'' []) (\<lambda>uri.
     bind_exn (str_value J r ''name'' []) (\<lambda>name.
     bind_exn (str_value J r ''description'' []) (\<lambda>description.
     bind_exn (str_value J r ''mimeType'' []) (\<lambda>mime.
       Inr \<lparr>re_uri = uri, re_name = name, re_description = description, re_mime_type = mime\<rparr>))))"

definition list_resources :: "('j, 'z) jlib_scheme \<Rightarrow> (mcp_resource list, 'w) mcp" where
  "list_resources J =
     andthen (look cm_connected) (\<lambda>ok.
     if \<not> ok then ret []
     else andthen (send_request J ''resources/list'' (j_null J)) (\<lambda>result.
       case array_member J (jm_result result) ''resources'' of
         None \<Rightarrow> ret []
       | Some rs \<Rightarrow> pure_exn (bind_exn (map_exn (resource_of J) rs)
                              (\<lambda>ds. Inr (filter (\<lambda>d. re_uri d \<noteq> []) ds)))))"

definition read_resource :: "('j, 'z) jlib_scheme \<Rightarrow> string \<Rightarrow> (string option, 'w) mcp" where
  "read_resource J uri =
     andthen (look cm_connected) (\<lambda>ok.
     if \<not> ok then ret None
     else andthen (send_request J ''resources/read'' (j_object J [(''uri'', j_string J uri)])) (\<lambda>result.
       case array_member J (jm_result result) ''contents'' of
         None \<Rightarrow> ret None
       | Some [] \<Rightarrow> ret None
       | Some (content # _) \<Rightarrow>
           pure_exn (bind_exn (str_value J content ''text'' []) (\<lambda>t. Inr (Some t)))))"

definition list_prompts :: "('j, 'z) jlib_scheme \<Rightarrow> ('j, 'w) mcp" where
  "list_prompts J =
     andthen (look cm_connected) (\<lambda>ok.
     if \<not> ok then ret (j_array J [])
     else andthen (send_request J ''prompts/list'' (j_null J)) (\<lambda>result.
       pure_exn (json_value J (jm_result result) ''prompts'' (j_array J []))))"

definition get_prompt :: "('j, 'z) jlib_scheme \<Rightarrow> string \<Rightarrow> 'j \<Rightarrow> ('j, 'w) mcp" where
  "get_prompt J name arguments =
     andthen (look cm_connected) (\<lambda>ok.
     if \<not> ok then ret (j_object J [])
     else andthen (send_request J ''prompts/get'' (j_object J [(''name'', j_string J name),
              (''arguments'', arguments)])) (\<lambda>result. ret (jm_result result)))"

section \<open>Connections that are of no use\<close>

text \<open>A request over pipes is answered by the next frame, whatever its identifier.\<close>

definition request_json :: "('j, 'z) jlib_scheme \<Rightarrow> int \<Rightarrow> string \<Rightarrow> 'j \<Rightarrow> 'j" where
  "request_json J n method params = message_json J
     ((blank_rpc J)\<lparr>jm_id := int_to_string n, jm_method := method, jm_params := params\<rparr>)"

lemma request_json_printable:
  assumes "law_set J" and "law_printable J" and "utf8 method" and "j_printable J params"
  shows "j_printable J (request_json J n method params)"
  unfolding request_json_def message_json_def
  by (subst obj_printable [OF assms(1,2)]) (use assms(3,4) in \<open>simp_all add: printableD [OF assms(2)] blank_rpc_def\<close>)

lemma notification_printed:
  assumes "law_set J" and "law_printable J" and "utf8 method" and "j_printable J params"
  shows "\<exists>out. message_to_string J ((blank_rpc J)\<lparr>jm_method := method, jm_params := params\<rparr>) = Inr out"
proof -
  have "j_printable J (message_json J ((blank_rpc J)\<lparr>jm_method := method, jm_params := params\<rparr>))"
    unfolding message_json_def
    by (subst obj_printable [OF assms(1,2)]) (use assms(3,4) in \<open>simp_all add: printableD [OF assms(2)] blank_rpc_def\<close>)
  then show ?thesis by (simp add: message_to_string_def dump_json_def)
qed

lemma initialize_printable:
  assumes "law_set J" and "law_printable J"
  shows "j_printable J (request_json J n ''initialize'' (initialize_params J (j_null J)))"
proof (rule request_json_printable [OF assms])
  show "j_printable J (initialize_params J (j_null J))"
    by (simp add: initialize_params_def client_info_def printableD [OF assms(2)])
qed simp

lemma request_answered:
  assumes "cm_open c" and "cm_writable c" and "0 < mc_timeout_seconds (cm_config c)"
    and "read_response (cm_in c) [] = Some (Inr m, rest)" and "m \<noteq> []"
    and "j_printable J (request_json J (cm_next_id c) method params)"
  shows "send_request J method params c =
    (parse_message J m, c\<lparr>cm_next_id := cm_next_id c + 1,
       cm_out := cm_out c @ [frame (j_dump J (request_json J (cm_next_id c) method params))], cm_in := rest\<rparr>)"
  using assms
  by (simp add: send_request_def andthen_def write_message_def read_reply_def Let_def message_to_string_def
      dump_json_def request_json_def)

text \<open>
  A child that answers the initialisation with an error: \<open>connect\<close> returns false and leaves the
  child running and the pipes open, since \<open>disconnect\<close> does nothing for a client that is not
  connected, neither then nor when the client is destroyed.
\<close>

theorem initialize_error_leaks_child:
  fixes e :: "'w mcp_env"
  assumes "me_launch e config w = ((True, True, server), w1)" and "0 < mc_timeout_seconds config"
    and "mc_transport config \<noteq> ''sse''"
    and "read_response server [] = Some (Inr m, rest)" and "m \<noteq> []"
    and "parse_message J m = Inr reply"
    and "j_is_null J (jm_result reply)" and "\<not> j_is_null J (jm_error reply)"
    and "law_set J" and "law_printable J"
  shows "\<exists>c. connect J e (new_mcp_client config, w) = (Inr False, c, w1) \<and>
    cm_child c \<and> cm_open c \<and> client_disconnect c = c"
proof -
  define c0 where "c0 = (new_mcp_client config :: 'w mcp_client)\<lparr>cm_open := True, cm_child := True, cm_writable := True,
      cm_in := server\<rparr>"
  define c1 where "c1 = c0\<lparr>cm_next_id := cm_next_id c0 + 1, cm_out := cm_out c0 @
      [frame (j_dump J (request_json J (cm_next_id c0) ''initialize'' (initialize_params J (j_null J))))], cm_in := rest\<rparr>"
  have c0: "cm_open c0" "cm_writable c0" "0 < mc_timeout_seconds (cm_config c0)"
      "read_response (cm_in c0) [] = Some (Inr m, rest)"
    using assms(2,4) by (simp_all add: c0_def new_mcp_client_def)
  have c1: "cm_child c1" "cm_open c1" "\<not> cm_connected c1"
    by (simp_all add: c1_def c0_def new_mcp_client_def)
  have "send_request J ''initialize'' (initialize_params J (j_null J)) c0 = (Inr reply, c1)"
    using request_answered [OF c0 assms(5) initialize_printable [OF assms(9,10)]] assms(6) by (simp add: c1_def)
  with assms(7,8) c1(3) have "initialize_stdio J c0 = (Inr False, c1)"
    by (simp add: initialize_stdio_def andthen_def client_disconnect_def)
  moreover have "connect J e (new_mcp_client config, w) = on_client (initialize_stdio J) (c0, w1)"
    using assms(1,3) by (simp add: connect_def connect_stdio_def c0_def new_mcp_client_def)
  ultimately show ?thesis
    using c1 by (simp add: on_client_def client_disconnect_def)
qed

definition sample_config :: "string \<Rightarrow> string \<Rightarrow> mcp_config" where
  "sample_config transport url = default_config\<lparr>mc_name := ''s'', mc_command := ''server'',
     mc_transport := transport, mc_url := url\<rparr>"

definition sample_mcp_env :: "input list \<Rightarrow> unit mcp_env" where
  "sample_mcp_env server = \<lparr>me_net = \<lparr>nt_get = (\<lambda>url hs w. (Response 200 [] [], w)),
       nt_post = (\<lambda>url hs b w. (Response 200 [] ''r'', w))\<rparr>,
     me_launch = (\<lambda>c w. ((True, True, server), w)), me_what = (\<lambda>e. [])\<rparr>"

definition sample_mcp_jlib :: "jv jlib" where
  "sample_mcp_jlib = sample_jlib (\<lambda>s. Inr (if s = ''e'' then JObj [(''error'', JStr ''no'')]
       else JObj [(''result'', JObj [])])) (\<lambda>v. ''d'')"

lemma sample_mcp_laws: "law_set sample_mcp_jlib" "law_null sample_mcp_jlib" "law_absent sample_mcp_jlib"
    "law_printable sample_mcp_jlib"
  unfolding sample_mcp_jlib_def
  by (rule sample_law_set sample_laws sample_law_printable; force split: if_splits)+

lemma read_one_frame:
  assumes "length (frame m) < 2 ^ 31"
  shows "read_response (Chunk (frame m) # evs) [] = Some (Inr m, evs)"
  using take_message_frame [of m "[]"] assms by simp

lemma initialize_error_leaks_child_witness:
  "\<exists>c. connect sample_mcp_jlib (sample_mcp_env [Chunk (frame ''e'')])
        (new_mcp_client (sample_config ''stdio'' []), ()) = (Inr False, c, ()) \<and>
    cm_child c \<and> cm_open c \<and> client_disconnect c = c"
proof (rule initialize_error_leaks_child [where m = "''e''" and server = "[Chunk (frame ''e'')]" and rest = "[]"])
  have "length (frame ''e'') = 22" by code_simp
  then show "read_response [Chunk (frame ''e'')] [] = Some (Inr ''e'', [])"
    by (intro read_one_frame) simp
  show "parse_message sample_mcp_jlib ''e'' = Inr ((blank_rpc sample_mcp_jlib)\<lparr>jm_error := JStr ''no''\<rparr>)"
    by (simp add: parse_message_def sample_mcp_jlib_def str_value_def member_or_null_def blank_rpc_def jv_defs)
qed (simp_all add: sample_mcp_env_def sample_config_def default_config_def sample_mcp_jlib_def blank_rpc_def
    sample_mcp_laws [unfolded sample_mcp_jlib_def])

text \<open>
  A server reached over HTTP: once connected it has no tools, and calling one throws. Requests
  after the first go to the pipes, which such a client does not have, and the message that is
  sent is taken for its own reply.
\<close>

lemma client_sse_pipes:
  assumes "connect_sse J e (new_mcp_client config, w) = (Inr True, c, w1)"
  shows "cm_connected c \<and> \<not> cm_open c"
  using assms
  by (auto simp: connect_sse_def initialize_sse_def new_mcp_client_def read_server_info_def Let_def
      andthen_eq split: prod.splits bool.splits sum.splits if_splits)

lemma request_without_pipes:
  assumes "\<not> cm_open c" and "j_printable J (request_json J (cm_next_id c) method params)"
  shows "send_request J method params c =
    (Inr ((blank_rpc J)\<lparr>jm_id := int_to_string (cm_next_id c), jm_method := method, jm_params := params\<rparr>),
     c\<lparr>cm_next_id := cm_next_id c + 1\<rparr>)"
  using assms by (simp add: send_request_def andthen_def write_message_def read_reply_def Let_def
      message_to_string_def dump_json_def request_json_def)

lemma request_not_printable:
  assumes "\<not> j_printable J (request_json J (cm_next_id c) method params)"
  shows "fst (send_request J method params c) = Inl Json_Type_Error"
  using assms by (simp add: send_request_def andthen_def Let_def message_to_string_def dump_json_def request_json_def)

theorem sse_server_unusable:
  assumes "connect J e (new_mcp_client config, w) = (Inr True, c, w1)"
    and "mc_transport config = ''sse''" and "mc_url config \<noteq> []"
    and "law_null J" and "law_absent J" and "law_set J" and "law_printable J"
  shows "fst (list_tools J c) = Inr [] \<and> fst (call_tool J name arguments c) = Inl Json_Type_Error"
proof -
  have "connect_sse J e (new_mcp_client config, w) = (Inr True, c, w1)"
    using assms(1-3) by (simp add: connect_def new_mcp_client_def)
  from client_sse_pipes [OF this] have c: "cm_connected c" "\<not> cm_open c" by auto
  note request = request_without_pipes [OF c(2), of J]
  have null: "j_is_null J (j_null J)" "\<not> j_contains J (j_null J) k" "j_value_bool J (j_null J) k b = None"
    for k b using assms(4,5) by (auto simp: law_null_def law_absent_def)
  have "j_printable J (request_json J (cm_next_id c) ''tools/list'' (j_null J))"
    by (rule request_json_printable [OF assms(6,7)]) (simp_all add: printableD [OF assms(7)])
  then have "fst (list_tools J c) = Inr []"
    using c(1) by (simp add: list_tools_def andthen_def request blank_rpc_def array_member_def null)
  moreover define params where "params = j_object J [(''name'', j_string J name),
      (''arguments'', if j_is_null J arguments then j_object J [] else arguments)]"
  have "fst (call_tool J name arguments c) = Inl Json_Type_Error"
  proof (cases "j_printable J (request_json J (cm_next_id c) ''tools/call'' params)")
    case True
    from request [OF this] show ?thesis
      unfolding call_tool_def params_def [symmetric]
      using c(1) by (simp add: andthen_def blank_rpc_def result_of_response_def bool_value_def null)
  next
    case False
    from request_not_printable [OF this] obtain c' where
      "send_request J ''tools/call'' params c = (Inl Json_Type_Error, c')"
      by (cases "send_request J ''tools/call'' params c") auto
    then show ?thesis
      unfolding call_tool_def params_def [symmetric] using c(1) by (simp add: andthen_def)
  qed
  ultimately show ?thesis ..
qed

lemma sse_server_unusable_witness:
  "\<exists>c. connect sample_mcp_jlib (sample_mcp_env []) (new_mcp_client (sample_config ''sse'' ''u''), ()) =
      (Inr True, c, ()) \<and>
    fst (list_tools sample_mcp_jlib c) = Inr [] \<and>
    fst (call_tool sample_mcp_jlib ''t'' JNull c) = Inl Json_Type_Error"
proof -
  obtain c where c: "connect sample_mcp_jlib (sample_mcp_env []) (new_mcp_client (sample_config ''sse'' ''u''), ()) =
      (Inr True, c, ())"
    by (simp add: connect_def new_mcp_client_def sample_config_def default_config_def connect_sse_def
        transport_connect_def http_get_sse_def sample_mcp_env_def initialize_sse_def send_sse_request_def
        sse_active_def new_transport_def sample_mcp_jlib_def read_server_info_def
        with_auth_def auth_token_def split_char_Nil Let_def jv_defs split: prod.split)
  from sse_server_unusable [OF this _ _ sample_mcp_laws(2,3,1,4)] c show ?thesis
    by (auto simp: sample_config_def)
qed

end
