(* ===== verification/Mcp_Manager.thy ===== *)
theory Mcp_Manager
  imports Mcp_Client
begin

text \<open>
  \<open>McpManager\<close> of \<open>src/protocol/mcp/mcp_client.h\<close> and \<open>mcp_client.cpp\<close>: the configured servers,
  the clients connected to them, the tools each of them lists, and the calls routed by the name
  of the tool. Its mutex is recursive, so an operation may call another one. \<open>mm_made\<close> counts the
  clients that were made and numbers the next one.
\<close>

section \<open>Operations\<close>

record ('j, 'w) mcp_manager =
  mm_configs :: "mcp_config omap"
  mm_clients :: "'w mcp_client omap"
  mm_tools :: "'j mcp_tool_def list omap"
  mm_made :: nat

definition new_mcp_manager :: "('j, 'w) mcp_manager" where
  "new_mcp_manager = \<lparr>mm_configs = [], mm_clients = [], mm_tools = [], mm_made = 0\<rparr>"

type_synonym ('a, 'j, 'w) mcp_managed = "('a, ('j, 'w) mcp_manager \<times> 'w) effect"

definition add_server :: "mcp_config \<Rightarrow> ('j, 'w) mcp_manager \<Rightarrow> ('j, 'w) mcp_manager" where
  "add_server config m = m\<lparr>mm_configs := om_put (mc_name config) config (mm_configs m)\<rparr>"

definition disconnect_server :: "string \<Rightarrow> ('j, 'w) mcp_manager \<Rightarrow> ('j, 'w) mcp_manager" where
  "disconnect_server name m =
     m\<lparr>mm_clients := om_del name (mm_clients m), mm_tools := om_del name (mm_tools m)\<rparr>"

definition remove_server :: "string \<Rightarrow> ('j, 'w) mcp_manager \<Rightarrow> bool \<times> ('j, 'w) mcp_manager" where
  "remove_server name m =
     (let m1 = disconnect_server name m
      in (True, m1\<lparr>mm_configs := om_del name (mm_configs m1),
            mm_clients := om_del name (mm_clients m1), mm_tools := om_del name (mm_tools m1)\<rparr>))"

definition server_names :: "('j, 'w) mcp_manager \<Rightarrow> string list" where
  "server_names m = om_keys (mm_configs m)"

text \<open>
  The client is stored before its tools are listed, so an exception then leaves it without
  an entry among the tools.
\<close>

definition connect_server ::
  "('j, 'z) jlib_scheme \<Rightarrow> 'w mcp_env \<Rightarrow> string \<Rightarrow> (bool, 'j, 'w) mcp_managed" where
  "connect_server J e name = (\<lambda>(m, w).
     case om_get (mm_configs m) name of
       None \<Rightarrow> (Inr False, m, w)
     | Some config \<Rightarrow>
         (let m1 = m\<lparr>mm_made := mm_made m + 1\<rparr> in
          case connect J e ((new_mcp_client config)\<lparr>cm_serial := mm_made m\<rparr>, w) of
            (Inl x, c, w1) \<Rightarrow> (Inl x, m1, w1)
          | (Inr False, c, w1) \<Rightarrow> (Inr False, m1, w1)
          | (Inr True, c, w1) \<Rightarrow>
              (case list_tools J c of
                 (Inl x, c1) \<Rightarrow> (Inl x, m1\<lparr>mm_clients := om_put name c1 (mm_clients m1)\<rparr>, w1)
               | (Inr tools, c1) \<Rightarrow>
                   (Inr True, m1\<lparr>mm_clients := om_put name c1 (mm_clients m1),
                      mm_tools := om_put name tools (mm_tools m1)\<rparr>, w1))))"

fun connect_each ::
  "('j, 'z) jlib_scheme \<Rightarrow> 'w mcp_env \<Rightarrow> (string \<times> mcp_config) list \<Rightarrow> bool \<Rightarrow>
   (bool, 'j, 'w) mcp_managed" where
  "connect_each J e [] all_ok s = (Inr all_ok, s)"
| "connect_each J e ((name, config) # r) all_ok s =
     (if \<not> mc_enabled config then connect_each J e r all_ok s
      else andthen (connect_server J e name) (\<lambda>ok. connect_each J e r (all_ok \<and> ok)) s)"

definition connect_all :: "('j, 'z) jlib_scheme \<Rightarrow> 'w mcp_env \<Rightarrow> (bool, 'j, 'w) mcp_managed" where
  "connect_all J e s = connect_each J e (mm_configs (fst s)) True s"

definition disconnect_all :: "('j, 'w) mcp_manager \<Rightarrow> ('j, 'w) mcp_manager" where
  "disconnect_all m = m\<lparr>mm_clients := [], mm_tools := []\<rparr>"

definition list_all_tools :: "('j, 'w) mcp_manager \<Rightarrow> 'j mcp_tool_def list" where
  "list_all_tools m = concat (om_vals (mm_tools m))"

definition server_tools :: "string \<Rightarrow> ('j, 'w) mcp_manager \<Rightarrow> 'j mcp_tool_def list" where
  "server_tools name m = (case om_get (mm_tools m) name of None \<Rightarrow> [] | Some ts \<Rightarrow> ts)"

definition get_client :: "string \<Rightarrow> ('j, 'w) mcp_manager \<Rightarrow> 'w mcp_client option" where
  "get_client name m = om_get (mm_clients m) name"

definition offers :: "'j mcp_tool_def list \<Rightarrow> string \<Rightarrow> bool" where
  "offers tools tool_name = list_ex (\<lambda>t. td_name t = tool_name) tools"

fun find_owner ::
  "(string \<times> 'j mcp_tool_def list) list \<Rightarrow> 'w mcp_client omap \<Rightarrow> string \<Rightarrow> string option" where
  "find_owner [] clients tool_name = None"
| "find_owner ((name, tools) # r) clients tool_name =
     (if offers tools tool_name \<and> om_get clients name \<noteq> None then Some name
      else find_owner r clients tool_name)"

definition manager_call_tool ::
  "('j, 'z) jlib_scheme \<Rightarrow> string \<Rightarrow> 'j \<Rightarrow> ('j mcp_tool_result, ('j, 'w) mcp_manager) effect" where
  "manager_call_tool J tool_name arguments m =
     (case find_owner (mm_tools m) (mm_clients m) tool_name of
        None \<Rightarrow> (Inr ((blank_result J)\<lparr>tu_error_message := ''Tool not found: '' @ tool_name\<rparr>), m)
      | Some name \<Rightarrow>
          (case om_get (mm_clients m) name of
             None \<Rightarrow> (Inr ((blank_result J)\<lparr>tu_error_message := ''Tool not found: '' @ tool_name\<rparr>), m)
           | Some c \<Rightarrow>
               (case call_tool J tool_name arguments c of
                  (r, c') \<Rightarrow> (r, m\<lparr>mm_clients := om_put name c' (mm_clients m)\<rparr>))))"

fun first_offering :: "(string \<times> 'j mcp_tool_def list) list \<Rightarrow> string \<Rightarrow> string" where
  "first_offering [] tool_name = []"
| "first_offering ((server, tools) # r) tool_name =
     (if offers tools tool_name then server else first_offering r tool_name)"

definition tool_server :: "string \<Rightarrow> ('j, 'w) mcp_manager \<Rightarrow> string" where
  "tool_server tool_name m = first_offering (mm_tools m) tool_name"

definition get_tool :: "string \<Rightarrow> ('j, 'w) mcp_manager \<Rightarrow> 'j mcp_tool_def option" where
  "get_tool name m = find (\<lambda>t. td_name t = name) (list_all_tools m)"

definition is_server_connected :: "string \<Rightarrow> ('j, 'w) mcp_manager \<Rightarrow> bool" where
  "is_server_connected name m =
     (case om_get (mm_clients m) name of None \<Rightarrow> False | Some c \<Rightarrow> cm_connected c)"

definition connected_count :: "('j, 'w) mcp_manager \<Rightarrow> nat" where
  "connected_count m = length (filter cm_connected (om_vals (mm_clients m)))"

section \<open>The configuration file\<close>

text \<open>What has been read when something throws is kept.\<close>

definition read_args :: "('j, 'z) jlib_scheme \<Rightarrow> 'j \<Rightarrow> cpp_exn + string list" where
  "read_args J config =
     (case array_member J config ''args'' of
        None \<Rightarrow> Inr []
      | Some vs \<Rightarrow> map_exn (\<lambda>v. or_type_error (j_get_str J v)) vs)"

fun read_env :: "('j, 'z) jlib_scheme \<Rightarrow> (string \<times> 'j) list \<Rightarrow> string omap \<Rightarrow> cpp_exn + string omap" where
  "read_env J [] env = Inr env"
| "read_env J ((k, v) # r) env =
     bind_exn (or_type_error (j_get_str J v)) (\<lambda>x. read_env J r (om_put k x env))"

definition env_items :: "('j, 'z) jlib_scheme \<Rightarrow> 'j \<Rightarrow> (string \<times> 'j) list" where
  "env_items J config =
     (if j_contains J config ''env'' \<and> j_is_object J (member_or_null J config ''env'')
      then j_items J (member_or_null J config ''env'') else [])"

definition server_of :: "('j, 'z) jlib_scheme \<Rightarrow> string \<Rightarrow> 'j \<Rightarrow> cpp_exn + mcp_config" where
  "server_of J name config =
     bind_exn (str_value J config ''command'' []) (\<lambda>command.
     bind_exn (str_value J config ''url'' []) (\<lambda>url.
     bind_exn (read_args J config) (\<lambda>args.
     bind_exn (read_env J (env_items J config) []) (\<lambda>env.
       Inr (default_config\<lparr>mc_name := name, mc_command := command, mc_url := url, mc_args := args,
              mc_env := env, mc_transport := (if url \<noteq> [] then ''sse'' else ''stdio'')\<rparr>)))))"

fun load_servers :: "('j, 'z) jlib_scheme \<Rightarrow> (string \<times> 'j) list \<Rightarrow> mcp_config list" where
  "load_servers J [] = []"
| "load_servers J ((name, config) # r) =
     (case server_of J name config of Inl _ \<Rightarrow> [] | Inr s \<Rightarrow> s # load_servers J r)"

text \<open>\<open>content\<close>: what the file holds, \<open>None\<close> when it does not open.\<close>

definition load_config :: "('j, 'z) jlib_scheme \<Rightarrow> string option \<Rightarrow> mcp_config list" where
  "load_config J content =
     (case content of
        None \<Rightarrow> []
      | Some text \<Rightarrow>
          (case j_parse J text of
             Inl _ \<Rightarrow> []
           | Inr j \<Rightarrow>
               if j_contains J j ''mcpServers'' \<and> j_is_object J (member_or_null J j ''mcpServers'')
               then load_servers J (j_items J (member_or_null J j ''mcpServers''))
               else []))"

section \<open>The tables agree\<close>

text \<open>Requests leave the client connected, and it stays the same object.\<close>

definition same_connection :: "'w mcp_client \<Rightarrow> 'w mcp_client \<Rightarrow> bool" where
  "same_connection c c' = (cm_connected c' = cm_connected c \<and> cm_serial c' = cm_serial c)"

lemma same_connection_order [simp]: "reflp same_connection" "transp same_connection"
  by (auto simp: same_connection_def intro!: reflpI transpI)

lemma same_connection_request [relates]:
  "relates same_connection (send_request J method params)"
  "relates same_connection (send_notification J method params)"
  by (auto simp: relates_def same_connection_def send_request_def send_notification_def andthen_def
      write_message_def read_reply_def Let_def split: option.splits prod.splits sum.splits)

lemma same_connection_calls [relates]:
  "relates same_connection (list_tools J)" "relates same_connection (call_tool J name arguments)"
  unfolding list_tools_def call_tool_def by (intro relates same_connection_order)+

lemma same_connection_info [relates]: "relates same_connection (read_server_info J j)"
  unfolding read_server_info_def
  by (intro relates same_connection_order) (auto intro: relates_modify simp: same_connection_def)

lemma same_connection_steps:
  "send_request J method params c = (r, c') \<Longrightarrow> same_connection c c'"
  "send_notification J method params c = (r', c') \<Longrightarrow> same_connection c c'"
  "read_server_info J j c = (r', c') \<Longrightarrow> same_connection c c'"
  by (blast intro: relatesD same_connection_request same_connection_info)+

lemma initialize_stdio_connected:
  assumes "initialize_stdio J c = (Inr True, c')"
  shows "cm_connected c' \<and> cm_serial c' = cm_serial c"
  using assms
  by (auto simp: initialize_stdio_def andthen_eq same_connection_def
      dest!: same_connection_steps split: if_splits)

lemma initialize_sse_connected:
  assumes "initialize_sse J e (c, w) = (Inr True, c', w1)"
  shows "cm_connected c' = cm_connected c \<and> cm_serial c' = cm_serial c"
  using assms
  by (auto simp: initialize_sse_def same_connection_def dest!: same_connection_steps
      split: prod.splits sum.splits if_splits)

lemma connect_connected:
  assumes "connect J e ((new_mcp_client config)\<lparr>cm_serial := n\<rparr>, w) = (Inr True, c, w1)"
  shows "cm_connected c \<and> cm_serial c = n"
  using assms
  by (auto simp: connect_def new_mcp_client_def connect_sse_def connect_stdio_def on_client_def Let_def
      dest!: initialize_sse_connected initialize_stdio_connected
      split: prod.splits bool.splits if_splits)

definition manager_ok :: "('j, 'w) mcp_manager \<Rightarrow> bool" where
  "manager_ok m =
     (om_ok (mm_configs m) \<and> om_ok (mm_clients m) \<and> om_ok (mm_tools m) \<and>
      (\<forall>n. om_get (mm_clients m) n \<noteq> None \<longrightarrow> om_get (mm_configs m) n \<noteq> None) \<and>
      (\<forall>n. om_get (mm_tools m) n \<noteq> None \<longrightarrow> om_get (mm_clients m) n \<noteq> None) \<and>
      (\<forall>n c. om_get (mm_clients m) n = Some c \<longrightarrow> cm_connected c \<and> cm_serial c < mm_made m))"

lemma connect_server_ok:
  assumes "manager_ok m"
  shows "manager_ok (fst (snd (connect_server J e name (m, w))))"
proof (cases "om_get (mm_configs m) name")
  case (Some config)
  obtain r c w1 where con: "connect J e ((new_mcp_client config)\<lparr>cm_serial := mm_made m\<rparr>, w) = (r, c, w1)"
    by (metis prod_cases3)
  show ?thesis
  proof (cases "r = Inr True")
    case True
    obtain r1 c1 where tools: "list_tools J c = (r1, c1)" by force
    have "cm_connected c \<and> cm_serial c = mm_made m"
      using connect_connected [OF con [unfolded True]] .
    moreover have "same_connection c c1"
      using same_connection_calls(1) [of J] tools by (metis relates_def snd_conv)
    ultimately have "cm_connected c1 \<and> cm_serial c1 = mm_made m"
      by (simp add: same_connection_def)
    with assms Some con True tools show ?thesis
      by (auto simp: connect_server_def manager_ok_def Let_def less_Suc_eq split: sum.splits)
  next
    case False
    with assms Some con show ?thesis
      by (auto simp: connect_server_def manager_ok_def Let_def less_Suc_eq split: sum.splits bool.splits)
  qed
qed (use assms in \<open>simp add: connect_server_def\<close>)

lemma connect_each_ok:
  "manager_ok (fst s) \<Longrightarrow> manager_ok (fst (snd (connect_each J e cs all_ok s)))"
proof (induction cs arbitrary: all_ok s)
  case (Cons p cs)
  obtain name config where p: "p = (name, config)" by force
  obtain m w where s: "s = (m, w)" by force
  obtain r s1 where con: "connect_server J e name s = (r, s1)" by (rule prod.exhaust)
  have "manager_ok (fst s1)"
    using connect_server_ok [of m J e name w] Cons.prems con by (simp add: s)
  with Cons.IH Cons.prems con show ?case
    by (cases r) (simp_all add: p andthen_def)
qed simp

lemma call_tool_ok:
  assumes "manager_ok m"
  shows "manager_ok (snd (manager_call_tool J t args m))"
proof -
  have "cm_connected c' \<and> cm_serial c' < mm_made m"
    if "om_get (mm_clients m) n = Some c" "call_tool J t args c = (r, c')" for n c r c'
  proof -
    have "same_connection c c'"
      using same_connection_calls(2) [of J t args] that(2) by (metis relates_def snd_conv)
    with that(1) assms show ?thesis by (auto simp: same_connection_def manager_ok_def)
  qed
  with assms show ?thesis
    by (auto simp: manager_call_tool_def manager_ok_def split: option.splits prod.splits)
qed

datatype 'j mcp_event =
    Add_Server mcp_config
  | Remove_Server string
  | Connect_Server string
  | Connect_All
  | Disconnect_Server string
  | Disconnect_All
  | Call_Tool string 'j

fun mcp_step ::
  "('j, 'z) jlib_scheme \<Rightarrow> 'w mcp_env \<Rightarrow> ('j, 'w) mcp_manager \<times> 'w \<Rightarrow> 'j mcp_event \<Rightarrow>
   ('j, 'w) mcp_manager \<times> 'w" where
  "mcp_step J e s (Add_Server config) = (add_server config (fst s), snd s)"
| "mcp_step J e s (Remove_Server n) = (snd (remove_server n (fst s)), snd s)"
| "mcp_step J e s (Connect_Server n) = snd (connect_server J e n s)"
| "mcp_step J e s Connect_All = snd (connect_all J e s)"
| "mcp_step J e s (Disconnect_Server n) = (disconnect_server n (fst s), snd s)"
| "mcp_step J e s Disconnect_All = (disconnect_all (fst s), snd s)"
| "mcp_step J e s (Call_Tool t args) = (snd (manager_call_tool J t args (fst s)), snd s)"

lemma mcp_step_ok:
  assumes "manager_ok (fst s)"
  shows "manager_ok (fst (mcp_step J e s ev))"
proof (cases ev)
  case (Connect_Server n)
  then show ?thesis using connect_server_ok [of "fst s" J e n "snd s"] assms by simp
next
  case Connect_All
  then show ?thesis using connect_each_ok [OF assms] by (simp add: connect_all_def)
next
  case (Call_Tool t args)
  then show ?thesis using call_tool_ok [OF assms] by simp
qed (use assms in \<open>auto simp: manager_ok_def add_server_def remove_server_def disconnect_server_def
       disconnect_all_def Let_def\<close>)

interpretation mcp: machine "(new_mcp_manager, w)" "mcp_step J e" "\<lambda>s. manager_ok (fst s)" for w J e
  by unfold_locales (simp_all add: mcp_step_ok, simp add: manager_ok_def new_mcp_manager_def)

text \<open>
  C13: In every reachable state the three tables agree: a server with tools has a client, a client a
  configuration, and every client in the table is connected, so the number of connected servers
  is that of the clients.
\<close>

theorem manager_tables_agree:
  fixes e :: "'w mcp_env" and J :: "('j, 'z) jlib_scheme" and w :: 'w and es :: "'j mcp_event list"
  defines "m \<equiv> fst (foldl (mcp_step J e) (new_mcp_manager, w) es)"
  shows "(\<forall>n. server_tools n m \<noteq> [] \<longrightarrow> is_server_connected n m) \<and>
    (\<forall>n. is_server_connected n m \<longleftrightarrow> get_client n m \<noteq> None) \<and>
    (\<forall>n. is_server_connected n m \<longrightarrow> n \<in> set (server_names m)) \<and>
    sorted (server_names m) \<and> distinct (server_names m) \<and>
    connected_count m = length (mm_clients m)"
proof -
  have ok: "manager_ok m" unfolding m_def by (rule mcp.inv_reachable)
  then have connected: "is_server_connected n m \<longleftrightarrow> get_client n m \<noteq> None" for n
    by (auto simp: is_server_connected_def get_client_def manager_ok_def split: option.splits)
  moreover have "server_tools n m \<noteq> [] \<Longrightarrow> get_client n m \<noteq> None" for n
    using ok by (auto simp: server_tools_def get_client_def manager_ok_def split: option.splits)
  moreover have "get_client n m \<noteq> None \<Longrightarrow> n \<in> set (server_names m)" for n
    using ok om_get_None [of "mm_configs m" n]
    by (auto simp: server_names_def get_client_def manager_ok_def)
  moreover have "sorted (server_names m)" "distinct (server_names m)"
    using ok by (auto simp: manager_ok_def server_names_def om_ok_def om_keys_def strict_sorted_iff)
  moreover have "\<forall>c\<in>set (om_vals (mm_clients m)). cm_connected c"
    using ok om_get_in [of "mm_clients m"] by (auto simp: manager_ok_def om_vals_def)
  then have "connected_count m = length (mm_clients m)"
    by (simp add: connected_count_def om_vals_def)
  ultimately show ?thesis by blast
qed

section \<open>Routing\<close>

lemma find_owner_first:
  assumes "\<forall>(n, ts)\<in>set tools. om_get clients n \<noteq> None"
  shows "find_owner tools clients t = map_option fst (find (\<lambda>(n, ts). offers ts t) tools)"
  using assms by (induction tools) auto

text \<open>
  C34: A tool is called on the first server, in the order of the names, that lists it: its client
  gets the call and no other client changes. A tool of the same name on a later server cannot
  be reached, and one that no server lists is answered with an error.
\<close>

theorem calls_routed_by_name:
  fixes e :: "'w mcp_env" and J :: "('j, 'z) jlib_scheme" and w :: 'w and es :: "'j mcp_event list"
  defines "m \<equiv> fst (foldl (mcp_step J e) (new_mcp_manager, w) es)"
  shows "sorted (map fst (mm_tools m)) \<and>
    (case find (\<lambda>(n, ts). offers ts t) (mm_tools m) of
      None \<Rightarrow> manager_call_tool J t args m =
        (Inr ((blank_result J)\<lparr>tu_error_message := ''Tool not found: '' @ t\<rparr>), m)
    | Some (n, ts) \<Rightarrow> (\<exists>c. get_client n m = Some c \<and>
        fst (manager_call_tool J t args m) = fst (call_tool J t args c) \<and>
        get_client n (snd (manager_call_tool J t args m)) = Some (snd (call_tool J t args c)) \<and>
        (\<forall>k. k \<noteq> n \<longrightarrow> get_client k (snd (manager_call_tool J t args m)) = get_client k m)))"
    (is "?S \<and> ?R")
proof -
  have ok: "manager_ok m" unfolding m_def by (rule mcp.inv_reachable)
  then have clients: "\<forall>(n, ts)\<in>set (mm_tools m). om_get (mm_clients m) n \<noteq> None"
    using om_get_in [of "mm_tools m"] by (fastforce simp: manager_ok_def)
  note owner = find_owner_first [OF clients, of t]
  have ?S
    using ok by (simp add: manager_ok_def om_ok_def strict_sorted_iff)
  moreover have ?R
  proof (cases "find (\<lambda>(n, ts). offers ts t) (mm_tools m)")
    case (Some p)
    then have "p \<in> set (mm_tools m)" by (auto simp: find_Some_iff) (metis nth_mem)
    then obtain n ts c where p: "p = (n, ts)" "om_get (mm_clients m) n = Some c"
      using clients by (cases p) auto
    obtain r c' where "call_tool J t args c = (r, c')" by (rule prod.exhaust)
    with p Some owner show ?thesis by (simp add: manager_call_tool_def get_client_def)
  qed (simp add: manager_call_tool_def owner)
  ultimately show ?thesis ..
qed

section \<open>Witnesses\<close>

definition sample_tools_json :: "jv jlib" where
  "sample_tools_json = sample_jlib (\<lambda>s. Inr (JObj [(''result'',
     JObj [(''tools'', JArr [JObj [(''name'', JStr ''t'')]])])])) (\<lambda>v. ''d'')"

definition sample_server_env :: "unit mcp_env" where
  "sample_server_env = sample_mcp_env (replicate 3 (Chunk (frame ''e'')))"

definition sample_mcp_events :: "jv mcp_event list" where
  "sample_mcp_events = [Add_Server (sample_config ''stdio'' []), Connect_Server ''s'']"

abbreviation sample_connected :: "(jv, unit) mcp_manager" where
  "sample_connected \<equiv>
     fst (foldl (mcp_step sample_tools_json sample_server_env) (new_mcp_manager, ()) sample_mcp_events)"

lemma sample_tools_laws: "law_set sample_tools_json" "law_printable sample_tools_json"
  unfolding sample_tools_json_def by (rule sample_law_set sample_law_printable; force split: if_splits)+

lemma sample_request:
  assumes "cm_open c" and "cm_in c = Chunk (frame ''e'') # evs" and "0 < mc_timeout_seconds (cm_config c)"
    and "j_printable sample_tools_json (request_json sample_tools_json (cm_next_id c) method params)"
  shows "\<exists>c'. send_request sample_tools_json method params c =
      (Inr ((blank_rpc sample_tools_json)\<lparr>jm_result := JObj [(''tools'', JArr [JObj [(''name'', JStr ''t'')]])]\<rparr>), c') \<and>
    cm_open c' \<and> cm_in c' = evs \<and> cm_config c' = cm_config c \<and> cm_connected c' = cm_connected c"
proof -
  have "length (frame ''e'') = 22" by code_simp
  then have "read_response (Chunk (frame ''e'') # evs) [] = Some (Inr ''e'', evs)"
    by (intro read_one_frame) simp
  moreover have "parse_message sample_tools_json ''e'' = Inr ((blank_rpc sample_tools_json)
      \<lparr>jm_result := JObj [(''tools'', JArr [JObj [(''name'', JStr ''t'')]])]\<rparr>)"
    by (simp add: parse_message_def sample_tools_json_def str_value_def member_or_null_def blank_rpc_def jv_defs)
  ultimately show ?thesis
    using assms by (simp add: send_request_def andthen_def look_def modify_def write_message_def
        read_reply_def Let_def pure_exn_def message_to_string_def dump_json_def request_json_def)
qed

lemma sample_connects:
  assumes "cm_open c" and "cm_in c = replicate 3 (Chunk (frame ''e''))" and "0 < mc_timeout_seconds (cm_config c)"
  shows "\<exists>c'. initialize_stdio sample_tools_json c = (Inr True, c') \<and> cm_connected c' \<and>
    cm_open c' \<and> cm_in c' = replicate 2 (Chunk (frame ''e'')) \<and> cm_config c' = cm_config c"
proof -
  have "cm_in c = Chunk (frame ''e'') # replicate 2 (Chunk (frame ''e''))"
    using assms(2) by (simp add: numeral_eq_Suc)
  from sample_request [OF assms(1) this assms(3) initialize_printable [OF sample_tools_laws]] obtain c1 where
    "send_request sample_tools_json ''initialize'' (initialize_params sample_tools_json (j_null sample_tools_json)) c =
      (Inr ((blank_rpc sample_tools_json)\<lparr>jm_result := JObj [(''tools'', JArr [JObj [(''name'', JStr ''t'')]])]\<rparr>), c1)"
    and "cm_open c1" "cm_in c1 = replicate 2 (Chunk (frame ''e''))" "cm_config c1 = cm_config c" by blast
  note step = this
  have keys: "\<not> j_is_null sample_tools_json (JObj kvs)"
    "j_contains sample_tools_json (JObj [(''tools'', v)]) ''serverInfo'' = False" for kvs v
    by (simp_all add: sample_tools_json_def jv_defs)
  obtain out where "message_to_string sample_tools_json ((blank_rpc sample_tools_json)
      \<lparr>jm_method := ''notifications/initialized'', jm_params := j_null sample_tools_json\<rparr>) = Inr out"
    using notification_printed [OF sample_tools_laws, of "''notifications/initialized''" "j_null sample_tools_json"]
      printableD(5) [OF sample_tools_laws(2)] by auto
  then show ?thesis
    using step by (simp add: initialize_stdio_def keys andthen_def read_server_info_def ret_def modify_def
        send_notification_def write_message_def)
qed

lemma sample_lists:
  assumes "cm_open c" and "cm_in c = replicate 2 (Chunk (frame ''e''))" and "0 < mc_timeout_seconds (cm_config c)"
    and "cm_connected c"
  shows "\<exists>c'. list_tools sample_tools_json c =
    (Inr [\<lparr>td_name = ''t'', td_description = [], td_input_schema = JNull\<rparr>], c')"
proof -
  have in_first: "cm_in c = Chunk (frame ''e'') # replicate 1 (Chunk (frame ''e''))"
    using assms(2) by (simp add: numeral_eq_Suc)
  have "j_printable sample_tools_json
      (request_json sample_tools_json (cm_next_id c) ''tools/list'' (j_null sample_tools_json))"
    by (rule request_json_printable [OF sample_tools_laws]) (simp_all add: printableD(5) [OF sample_tools_laws(2)])
  from sample_request [OF assms(1) in_first assms(3) this] assms(4) show ?thesis
    by (auto simp: list_tools_def andthen_def look_def array_member_def pure_exn_def tool_def_of_def
        str_value_def member_or_null_def sample_tools_json_def jv_defs)
qed

lemma sample_connected_state:
  "\<exists>c. get_client ''s'' sample_connected = Some c \<and>
    mm_tools sample_connected = [(''s'', [\<lparr>td_name = ''t'', td_description = [], td_input_schema = JNull\<rparr>])]"
proof -
  define c :: "unit mcp_client" where "c = (new_mcp_client (sample_config ''stdio'' []))\<lparr>cm_serial := 0,
     cm_open := True, cm_child := True, cm_writable := True, cm_in := replicate 3 (Chunk (frame ''e''))\<rparr>"
  have c: "cm_open c" "cm_in c = replicate 3 (Chunk (frame ''e''))" "0 < mc_timeout_seconds (cm_config c)"
    by (simp_all add: c_def new_mcp_client_def sample_config_def default_config_def)
  from sample_connects [OF this] obtain c1 where c1: "initialize_stdio sample_tools_json c = (Inr True, c1)"
    "cm_connected c1" "cm_open c1" "cm_in c1 = replicate 2 (Chunk (frame ''e''))" "cm_config c1 = cm_config c" by blast
  moreover have "0 < mc_timeout_seconds (cm_config c1)" using c(3) c1(5) by simp
  ultimately obtain c2 where c2: "list_tools sample_tools_json c1 =
      (Inr [\<lparr>td_name = ''t'', td_description = [], td_input_schema = JNull\<rparr>], c2)"
    using sample_lists by blast
  have config: "mc_name (sample_config ''stdio'' []) = ''s''" "mc_transport (sample_config ''stdio'' []) = ''stdio''"
    by (simp_all add: sample_config_def)
  have new: "cm_config (new_mcp_client f) = f" "\<not> cm_connected (new_mcp_client f)" for f
    by (simp_all add: new_mcp_client_def)
  have "connect sample_tools_json sample_server_env
      ((new_mcp_client (sample_config ''stdio'' []))\<lparr>cm_serial := 0\<rparr>, ()) = (Inr True, c1, ())"
    using c1(1) by (simp add: c_def connect_def connect_stdio_def on_client_def new config
        sample_server_env_def sample_mcp_env_def)
  with c2 show ?thesis
    by (simp add: om_get_def sample_mcp_events_def add_server_def connect_server_def new_mcp_manager_def config
        get_client_def Let_def)
qed

lemma manager_tables_agree_witness:
  "connected_count sample_connected = length (mm_clients sample_connected) \<and> ''s'' \<in> set (server_names sample_connected) \<and>
   is_server_connected ''s'' sample_connected"
proof -
  obtain c where client: "get_client ''s'' sample_connected = Some c" using sample_connected_state by blast
  note tables = manager_tables_agree [of sample_tools_json sample_server_env "()" sample_mcp_events]
  from tables client have "is_server_connected ''s'' sample_connected" by simp
  with tables show ?thesis by blast
qed

lemma calls_routed_by_name_witness:
  "\<exists>c. get_client ''s'' sample_connected = Some c \<and>
    fst (manager_call_tool sample_tools_json ''t'' JNull sample_connected) = fst (call_tool sample_tools_json ''t'' JNull c)"
  using sample_connected_state
    calls_routed_by_name [of sample_tools_json sample_server_env "()" sample_mcp_events "''t''" JNull]
  by (auto simp: offers_def)

end
