(* ===== verification/Mcp_Tool.thy ===== *)
theory Mcp_Tool
  imports Mcp_Manager Tools
begin

text \<open>
  \<open>src/tools/mcp_tool.h\<close> and \<open>mcp_tool.cpp\<close>: the proxy of a server's tool, and the manager that
  enters such proxies into the tool registry and keeps track of them.

  A proxy holds a pointer to its client: the server's name and the number of the object. The
  pointer is good as long as the manager's client of that server is that object.
\<close>

section \<open>McpTool\<close>

record 'j mcp_tool =
  mt_server_name :: string
  mt_def :: "'j mcp_tool_def"
  mt_client :: "nat option"

definition mcp_tool_name :: "'j mcp_tool \<Rightarrow> string" where
  "mcp_tool_name t = mt_server_name t @ ''__'' @ td_name (mt_def t)"

definition mcp_description :: "'j mcp_tool \<Rightarrow> string" where
  "mcp_description t = td_description (mt_def t)"

fun schema_properties ::
  "('j, 'z) jlib_scheme \<Rightarrow> (string \<times> 'j) list \<Rightarrow> property_schema omap \<Rightarrow> cpp_exn + property_schema omap" where
  "schema_properties J [] m = Inr m"
| "schema_properties J ((key, val) # r) m =
     (if j_is_object J val
      then bind_exn (str_value J val ''type'' ''string'') (\<lambda>t.
           bind_exn (str_value J val ''description'' []) (\<lambda>d.
             schema_properties J r (om_put key (property t d) m)))
      else schema_properties J r (om_put key (property ''string'' []) m))"

definition mcp_input_schema :: "('j, 'z) jlib_scheme \<Rightarrow> 'j mcp_tool \<Rightarrow> cpp_exn + input_schema" where
  "mcp_input_schema J t =
     (let s = td_input_schema (mt_def t) in
      if j_is_object J s
      then bind_exn (json_value J s ''properties'' (j_object J [])) (\<lambda>props.
           bind_exn (schema_properties J (j_items J props) []) (\<lambda>m.
           bind_exn (json_value J s ''required'' (j_array J [])) (\<lambda>req.
             Inr \<lparr>is_type = ''object'', is_properties = m,
                   is_required = List.map_filter (\<lambda>r. if j_is_string J r then j_get_str J r else None)
                     (j_elems J req)\<rparr>)))
      else Inr \<lparr>is_type = ''object'', is_properties = [], is_required = []\<rparr>)"

definition block_text :: "('j, 'z) jlib_scheme \<Rightarrow> 'j \<Rightarrow> cpp_exn + string" where
  "block_text J b =
     (if j_is_object J b
      then bind_exn (str_value J b ''type'' []) (\<lambda>type.
             if type = ''text'' then str_value J b ''text'' []
             else if type = ''image''
             then bind_exn (str_value J b ''mimeType'' ''unknown'') (\<lambda>m. Inr (''[Image: '' @ m @ '']''))
             else if type = ''resource'' then str_value J b ''text'' (j_dump J b)
             else Inr [])
      else if j_is_string J b then or_type_error (j_get_str J b)
      else Inr [])"

definition result_text :: "('j, 'z) jlib_scheme \<Rightarrow> 'j \<Rightarrow> cpp_exn + string" where
  "result_text J content =
     (if j_is_array J content
      then bind_exn (map_exn (block_text J) (j_elems J content)) (\<lambda>ts. Inr (concat ts))
      else if j_is_string J content then or_type_error (j_get_str J content)
      else if \<not> j_is_null J content then Inr (j_dump J content)
      else Inr [])"

definition output_of_result :: "('j, 'z) jlib_scheme \<Rightarrow> 'j mcp_tool_result \<Rightarrow> cpp_exn + tool_output" where
  "output_of_result J r =
     (if tu_is_error r then Inr (tool_err (tu_error_message r))
      else if \<not> tu_success r then Inr (tool_err (''MCP tool call failed: '' @ tu_error_message r))
      else bind_exn (result_text J (tu_content r)) (\<lambda>t. Inr (tool_ok t)))"

text \<open>The call through the pointer: undefined when the object is gone.\<close>

definition deref_call ::
  "('j, 'z) jlib_scheme \<Rightarrow> string \<Rightarrow> nat \<Rightarrow> string \<Rightarrow> 'j \<Rightarrow>
   ('j mcp_tool_result, ('j, 'w) mcp_manager) effect" where
  "deref_call J server serial name input m =
     (case get_client server m of
        None \<Rightarrow> (Inl Undefined_Behaviour, m)
      | Some c \<Rightarrow>
          if cm_serial c \<noteq> serial then (Inl Undefined_Behaviour, m)
          else (case call_tool J name input c of
                  (r, c') \<Rightarrow> (r, m\<lparr>mm_clients := om_put server c' (mm_clients m)\<rparr>)))"

definition mcp_execute ::
  "('j, 'z) jlib_scheme \<Rightarrow> (cpp_exn \<Rightarrow> string) \<Rightarrow> string \<Rightarrow> 'j mcp_tool \<Rightarrow>
   (tool_output, ('j, 'w) mcp_manager) effect" where
  "mcp_execute J what input_json t m =
     (case mt_client t of
        None \<Rightarrow> (Inr (tool_err (''MCP server '' @ [CHR 0x27] @ mt_server_name t @ [CHR 0x27] @
                   '' is not connected'')), m)
      | Some serial \<Rightarrow>
          (case andthen (pure_exn (parse_json J input_json)) (\<lambda>input.
                andthen (deref_call J (mt_server_name t) serial (td_name (mt_def t)) input) (\<lambda>r.
                  pure_exn (output_of_result J r))) m of
             (r, m') \<Rightarrow> (caught what ''MCP tool error: '' r, m')))"

definition update_definition :: "'j mcp_tool_def \<Rightarrow> 'j mcp_tool \<Rightarrow> 'j mcp_tool" where
  "update_definition d t = t\<lparr>mt_def := d\<rparr>"

section \<open>McpToolManager\<close>

text \<open>The registry, as far as it matters here: which names it has, and which are proxies.\<close>

datatype 'j entry = Native | Proxy "'j mcp_tool"

record 'j tool_sync =
  ts_registry :: "string \<rightharpoonup> 'j entry"
  ts_tool_to_server :: "string omap"
  ts_server_to_tools :: "string list omap"

definition forget_server :: "string \<Rightarrow> 'j tool_sync \<Rightarrow> 'j tool_sync" where
  "forget_server server s =
     (case om_get (ts_server_to_tools s) server of
        None \<Rightarrow> s
      | Some names \<Rightarrow>
          s\<lparr>ts_tool_to_server := foldl (\<lambda>m n. om_del n m) (ts_tool_to_server s) names,
            ts_server_to_tools := om_del server (ts_server_to_tools s)\<rparr>)"

fun register_proxies ::
  "string \<Rightarrow> nat \<Rightarrow> 'j mcp_tool_def list \<Rightarrow> string list \<Rightarrow> 'j tool_sync \<Rightarrow> string list \<times> 'j tool_sync" where
  "register_proxies server serial [] names s = (names, s)"
| "register_proxies server serial (d # ds) names s =
     (let t = \<lparr>mt_server_name = server, mt_def = d, mt_client = Some serial\<rparr>;
          n = mcp_tool_name t
      in if ts_registry s n \<noteq> None then register_proxies server serial ds names s
         else register_proxies server serial ds (names @ [n])
                (s\<lparr>ts_registry := (ts_registry s)(n \<mapsto> Proxy t),
                   ts_tool_to_server := om_put n server (ts_tool_to_server s)\<rparr>))"

definition sync_server :: "('j, 'w) mcp_manager \<Rightarrow> string \<Rightarrow> 'j tool_sync \<Rightarrow> 'j tool_sync" where
  "sync_server m server s =
     (let s1 = forget_server server s; tools = server_tools server m in
      if tools = [] then s1
      else case get_client server m of
             None \<Rightarrow> s1
           | Some c \<Rightarrow>
               (case register_proxies server (cm_serial c) tools [] s1 of
                  (names, s2) \<Rightarrow>
                    s2\<lparr>ts_server_to_tools := om_put server names (ts_server_to_tools s2)\<rparr>))"

definition sync_tools :: "('j, 'w) mcp_manager \<Rightarrow> 'j tool_sync \<Rightarrow> 'j tool_sync" where
  "sync_tools m s = foldl (\<lambda>s n. sync_server m n s) s (server_names m)"

definition tool_count :: "'j tool_sync \<Rightarrow> nat" where
  "tool_count s = length (ts_tool_to_server s)"

definition is_mcp_tool :: "string \<Rightarrow> 'j tool_sync \<Rightarrow> bool" where
  "is_mcp_tool n s = (om_get (ts_tool_to_server s) n \<noteq> None)"

definition server_of_tool :: "string \<Rightarrow> 'j tool_sync \<Rightarrow> string option" where
  "server_of_tool n s = om_get (ts_tool_to_server s) n"


section \<open>Synchronising twice\<close>

text \<open>
  The two tables agree, and every name that is tracked belongs to one of the given servers and is
  in the registry.
\<close>

definition sync_ok :: "string set \<Rightarrow> 'j tool_sync \<Rightarrow> bool" where
  "sync_ok servers s =
     (\<forall>n srv. om_get (ts_tool_to_server s) n = Some srv \<longrightarrow>
        srv \<in> servers \<and> ts_registry s n \<noteq> None \<and>
        (\<exists>ns. om_get (ts_server_to_tools s) srv = Some ns \<and> n \<in> set ns))"

lemma forget_simps:
  "ts_registry (forget_server server s) = ts_registry s"
  "om_get (ts_tool_to_server (forget_server server s)) n =
     (case om_get (ts_server_to_tools s) server of
        None \<Rightarrow> om_get (ts_tool_to_server s) n
      | Some ns \<Rightarrow> if n \<in> set ns then None else om_get (ts_tool_to_server s) n)"
  "om_get (ts_server_to_tools (forget_server server s)) srv =
     (if srv = server then None else om_get (ts_server_to_tools s) srv)"
  by (auto simp: forget_server_def om.get_foldl_erase split: option.splits)

lemma forget_ok:
  assumes "sync_ok servers s"
  shows "sync_ok (servers - {server}) (forget_server server s)"
  using assms by (fastforce simp: sync_ok_def forget_simps split: option.splits if_splits)

text \<open>What registering the tools of one server does.\<close>

lemma register_proxies_effect:
  assumes "register_proxies server serial ds names s = (names', s')"
  shows "ts_server_to_tools s' = ts_server_to_tools s \<and> set names \<subseteq> set names' \<and>
    (\<forall>n. ts_registry s n \<noteq> None \<longrightarrow> ts_registry s' n = ts_registry s n) \<and>
    (\<forall>d\<in>set ds. ts_registry s' (server @ ''__'' @ td_name d) \<noteq> None) \<and>
    (\<forall>n. om_get (ts_tool_to_server s') n =
       (if ts_registry s n = None \<and> ts_registry s' n \<noteq> None then Some server
        else om_get (ts_tool_to_server s) n)) \<and>
    (\<forall>n. ts_registry s n = None \<and> ts_registry s' n \<noteq> None \<longrightarrow>
       n \<in> set names' \<and> (\<exists>t. ts_registry s' n = Some (Proxy t)))"
  using assms
proof (induction ds arbitrary: names s)
  case (Cons d ds)
  define t where "t = \<lparr>mt_server_name = server, mt_def = d, mt_client = Some serial\<rparr>"
  have name: "mcp_tool_name t = server @ ''__'' @ td_name d" by (simp add: t_def mcp_tool_name_def)
  show ?case
  proof (cases "ts_registry s (mcp_tool_name t) = None")
    case True
    define s1 where "s1 = s\<lparr>ts_registry := (ts_registry s)(mcp_tool_name t \<mapsto> Proxy t),
      ts_tool_to_server := om_put (mcp_tool_name t) server (ts_tool_to_server s)\<rparr>"
    have "register_proxies server serial ds (names @ [mcp_tool_name t]) s1 = (names', s')"
      using Cons.prems True by (simp add: Let_def t_def s1_def)
    note IH = Cons.IH [OF this]
    have s1: "ts_registry s1 n = (if n = mcp_tool_name t then Some (Proxy t) else ts_registry s n)"
      "om_get (ts_tool_to_server s1) n = (if n = mcp_tool_name t then Some server
        else om_get (ts_tool_to_server s) n)"
      "ts_server_to_tools s1 = ts_server_to_tools s" for n
      by (simp_all add: s1_def)
    have per: "(ts_registry s n \<noteq> None \<longrightarrow> ts_registry s' n = ts_registry s n) \<and>
      om_get (ts_tool_to_server s') n =
        (if ts_registry s n = None \<and> ts_registry s' n \<noteq> None then Some server
         else om_get (ts_tool_to_server s) n) \<and>
      (ts_registry s n = None \<and> ts_registry s' n \<noteq> None \<longrightarrow>
         n \<in> set names' \<and> (\<exists>t. ts_registry s' n = Some (Proxy t)))" for n
      using IH True s1(1,2) [of n] by (cases "n = mcp_tool_name t") auto
    moreover have "ts_registry s' (mcp_tool_name t) \<noteq> None" using IH s1(1) by auto
    ultimately show ?thesis using IH s1(3) by (simp add: name)
  next
    case False
    then have "register_proxies server serial ds names s = (names', s')"
      using Cons.prems by (simp add: Let_def t_def)
    from Cons.IH [OF this] False show ?thesis by (simp add: name)
  qed
qed auto

lemma sync_server_cases:
  obtains (none) "sync_server m server s = forget_server server s"
      "server_tools server m = [] \<or> get_client server m = None"
  | (some) c names s2 where "get_client server m = Some c"
      "register_proxies server (cm_serial c) (server_tools server m) [] (forget_server server s) = (names, s2)"
      "sync_server m server s = s2\<lparr>ts_server_to_tools := om_put server names (ts_server_to_tools s2)\<rparr>"
proof -
  show thesis
  proof (cases "get_client server m")
    case (Some c)
    obtain names s2 where "register_proxies server (cm_serial c) (server_tools server m) []
        (forget_server server s) = (names, s2)"
      by (rule prod.exhaust)
    with Some none some show thesis
      by (cases "server_tools server m = []") (auto simp: sync_server_def Let_def)
  qed (use none in \<open>auto simp: sync_server_def Let_def\<close>)
qed

definition offered :: "('j, 'w) mcp_manager \<Rightarrow> string \<Rightarrow> string set" where
  "offered m server =
     (if get_client server m = None then {}
      else (\<lambda>d. server @ ''__'' @ td_name d) ` set (server_tools server m))"

lemma sync_server_effect:
  assumes "sync_ok servers s"
  shows "sync_ok (insert server servers) (sync_server m server s)"
    and "\<And>n. ts_registry s n \<noteq> None \<Longrightarrow> ts_registry (sync_server m server s) n = ts_registry s n"
    and "\<And>n. n \<in> offered m server \<Longrightarrow> ts_registry (sync_server m server s) n \<noteq> None"
    and "\<And>n. ts_registry s n = None \<Longrightarrow> ts_registry (sync_server m server s) n \<noteq> None \<Longrightarrow>
      is_mcp_tool n (sync_server m server s) \<and> (\<exists>t. ts_registry (sync_server m server s) n = Some (Proxy t))"
    and "\<And>n. om_get (ts_server_to_tools s) server = None \<Longrightarrow> is_mcp_tool n s \<Longrightarrow>
      is_mcp_tool n (sync_server m server s)"
    and "\<And>n. n \<noteq> server \<Longrightarrow>
      om_get (ts_server_to_tools (sync_server m server s)) n = om_get (ts_server_to_tools s) n"
proof -
  note forgotten = forget_ok [OF assms, of server]
  show "sync_ok (insert server servers) (sync_server m server s)"
  proof (cases rule: sync_server_cases [of m server s])
    case none
    then show ?thesis using forgotten by (auto simp: sync_ok_def)
  next
    case (some c names s2)
    note eff = register_proxies_effect [OF some(2)]
    show ?thesis unfolding sync_ok_def
    proof (intro allI impI)
      fix n srv assume n: "om_get (ts_tool_to_server (sync_server m server s)) n = Some srv"
      show "srv \<in> insert server servers \<and> ts_registry (sync_server m server s) n \<noteq> None \<and>
        (\<exists>ns. om_get (ts_server_to_tools (sync_server m server s)) srv = Some ns \<and> n \<in> set ns)"
      proof (cases "ts_registry (forget_server server s) n = None \<and> ts_registry s2 n \<noteq> None")
        case True
        then show ?thesis using eff n some(3) by auto
      next
        case False
        then have "om_get (ts_tool_to_server (forget_server server s)) n = Some srv"
          using eff n some(3) by auto
        with forgotten have "srv \<in> servers - {server}" "ts_registry (forget_server server s) n \<noteq> None"
            "\<exists>ns. om_get (ts_server_to_tools (forget_server server s)) srv = Some ns \<and> n \<in> set ns"
          by (auto simp: sync_ok_def)
        then show ?thesis using eff some(3) by auto
      qed
    qed
  qed
  show "ts_registry (sync_server m server s) n = ts_registry s n" if "ts_registry s n \<noteq> None" for n
    using that register_proxies_effect
    by (cases rule: sync_server_cases [of m server s]) (fastforce simp: forget_simps)+
  show "ts_registry (sync_server m server s) n \<noteq> None" if "n \<in> offered m server" for n
    using that register_proxies_effect
    by (cases rule: sync_server_cases [of m server s]) (fastforce simp: offered_def split: if_splits)+
  show "is_mcp_tool n (sync_server m server s) \<and> (\<exists>t. ts_registry (sync_server m server s) n = Some (Proxy t))"
    if "ts_registry s n = None" "ts_registry (sync_server m server s) n \<noteq> None" for n
    using that register_proxies_effect
    by (cases rule: sync_server_cases [of m server s]) (fastforce simp: forget_simps is_mcp_tool_def)+
  show "is_mcp_tool n (sync_server m server s)"
    if "om_get (ts_server_to_tools s) server = None" "is_mcp_tool n s" for n
    using that register_proxies_effect
    by (cases rule: sync_server_cases [of m server s])
      (fastforce simp: forget_simps is_mcp_tool_def)+
  show "om_get (ts_server_to_tools (sync_server m server s)) n = om_get (ts_server_to_tools s) n"
    if "n \<noteq> server" for n
    using that register_proxies_effect
    by (cases rule: sync_server_cases [of m server s]) (fastforce simp: forget_simps)+
qed

text \<open>When the registry has all the names already, nothing is registered.\<close>

lemma register_proxies_known:
  assumes "\<forall>d\<in>set ds. ts_registry s (server @ ''__'' @ td_name d) \<noteq> None"
  shows "register_proxies server serial ds names s = (names, s)"
  using assms by (induction ds) (auto simp: mcp_tool_name_def Let_def)

lemma sync_server_known:
  assumes "\<forall>n\<in>offered m server. ts_registry s n \<noteq> None" and "sync_ok servers s"
  shows "ts_registry (sync_server m server s) = ts_registry s"
    and "sync_ok (servers - {server}) (sync_server m server s)"
proof -
  have "ts_registry (sync_server m server s) = ts_registry s \<and>
    ts_tool_to_server (sync_server m server s) = ts_tool_to_server (forget_server server s) \<and>
    (\<forall>srv. srv \<noteq> server \<longrightarrow> om_get (ts_server_to_tools (sync_server m server s)) srv =
       om_get (ts_server_to_tools (forget_server server s)) srv)"
  proof (cases rule: sync_server_cases [of m server s])
    case (some c names s2)
    then show ?thesis
      using assms(1) register_proxies_known [of "server_tools server m" "forget_server server s" server]
      by (auto simp: offered_def forget_simps)
  qed (simp add: forget_simps)
  then have same: "ts_registry (sync_server m server s) = ts_registry s"
      "ts_tool_to_server (sync_server m server s) = ts_tool_to_server (forget_server server s)"
      "srv \<noteq> server \<Longrightarrow> om_get (ts_server_to_tools (sync_server m server s)) srv =
       om_get (ts_server_to_tools (forget_server server s)) srv" for srv
    by simp_all
  show "ts_registry (sync_server m server s) = ts_registry s" by (rule same)
  show "sync_ok (servers - {server}) (sync_server m server s)"
    unfolding sync_ok_def
  proof (intro allI impI)
    fix n srv assume "om_get (ts_tool_to_server (sync_server m server s)) n = Some srv"
    with forget_ok [OF assms(2), of server]
    have "srv \<in> servers - {server}" "ts_registry s n \<noteq> None"
      "\<exists>ns. om_get (ts_server_to_tools (forget_server server s)) srv = Some ns \<and> n \<in> set ns"
      by (auto simp: sync_ok_def same(2) forget_simps(1))
    then show "srv \<in> servers - {server} \<and> ts_registry (sync_server m server s) n \<noteq> None \<and>
      (\<exists>ns. om_get (ts_server_to_tools (sync_server m server s)) srv = Some ns \<and> n \<in> set ns)"
      by (simp add: same)
  qed
qed

lemma sync_each_effect:
  assumes "sync_ok servers s"
  shows "sync_ok (servers \<union> set ns) (foldl (\<lambda>s n. sync_server m n s) s ns) \<and>
    (\<forall>n. ts_registry s n \<noteq> None \<longrightarrow> ts_registry (foldl (\<lambda>s n. sync_server m n s) s ns) n = ts_registry s n) \<and>
    (\<forall>server\<in>set ns. \<forall>n\<in>offered m server. ts_registry (foldl (\<lambda>s n. sync_server m n s) s ns) n \<noteq> None)"
  using assms
proof (induction ns arbitrary: servers s)
  case (Cons a ns)
  note eff = sync_server_effect [OF Cons.prems, where server = a and m = m]
  from Cons.IH [OF eff(1)] eff(2,3) show ?case by (simp add: insert_commute Un_commute)
qed simp

lemma sync_each_tracks:
  assumes "sync_ok servers s" and "distinct ns" and "\<forall>n\<in>set ns. om_get (ts_server_to_tools s) n = None"
  shows "(is_mcp_tool n s \<longrightarrow> is_mcp_tool n (foldl (\<lambda>s n. sync_server m n s) s ns)) \<and>
    (ts_registry s n = None \<and> ts_registry (foldl (\<lambda>s n. sync_server m n s) s ns) n \<noteq> None \<longrightarrow>
      is_mcp_tool n (foldl (\<lambda>s n. sync_server m n s) s ns) \<and>
      (\<exists>t. ts_registry (foldl (\<lambda>s n. sync_server m n s) s ns) n = Some (Proxy t)))"
  using assms
proof (induction ns arbitrary: servers s)
  case (Cons a ns)
  note eff = sync_server_effect [OF Cons.prems(1), where server = a and m = m]
  have "\<forall>n\<in>set ns. om_get (ts_server_to_tools (sync_server m a s)) n = None"
    using Cons.prems(2,3) by (metis distinct.simps(2) eff(6) list.set_intros(2))
  note IH = Cons.IH [OF eff(1) _ this]
  have "ts_registry (foldl (\<lambda>s n. sync_server m n s) (sync_server m a s) ns) n =
      ts_registry (sync_server m a s) n" if "ts_registry (sync_server m a s) n \<noteq> None"
    using sync_each_effect [OF eff(1)] that by blast
  with IH eff(4,5) [of n] Cons.prems show ?case
    by (cases "ts_registry (sync_server m a s) n = None") auto
qed auto

lemma sync_each_known:
  assumes "sync_ok servers s"
    and "\<forall>server\<in>set ns. \<forall>n\<in>offered m server. ts_registry s n \<noteq> None"
  shows "ts_registry (foldl (\<lambda>s n. sync_server m n s) s ns) = ts_registry s \<and>
    sync_ok (servers - set ns) (foldl (\<lambda>s n. sync_server m n s) s ns)"
  using assms
proof (induction ns arbitrary: servers s)
  case (Cons a ns)
  have "ts_registry (sync_server m a s) = ts_registry s" "sync_ok (servers - {a}) (sync_server m a s)"
    using sync_server_known [of m a s] Cons.prems by auto
  with Cons.IH [of "servers - {a}" "sync_server m a s"] Cons.prems(2) show ?case
    by (simp add: set_diff_eq)
qed simp

text \<open>
  The first synchronisation enters a proxy for every name that is not taken and tracks it. A
  second one, with the same servers, enters nothing, since the names are taken by the proxies of
  the first, and tracks nothing any more: the proxies stay in the registry and none of them is
  known as a tool of a server.
\<close>

theorem resync_forgets:
  fixes m :: "('j, 'w) mcp_manager" and r :: "string \<rightharpoonup> 'j entry"
  assumes "distinct (server_names m)"
    and "s1 = sync_tools m \<lparr>ts_registry = r, ts_tool_to_server = [], ts_server_to_tools = []\<rparr>"
    and "s2 = sync_tools m s1"
  shows "(\<forall>n t. ts_registry s1 n = Some t \<and> r n = None \<longrightarrow> is_mcp_tool n s1 \<and> (\<exists>p. t = Proxy p)) \<and>
    (\<forall>server\<in>set (server_names m). \<forall>n\<in>offered m server. ts_registry s1 n \<noteq> None) \<and>
    ts_registry s2 = ts_registry s1 \<and> tool_count s2 = 0 \<and> \<not> is_mcp_tool n s2"
proof -
  let ?s = "\<lparr>ts_registry = r, ts_tool_to_server = [], ts_server_to_tools = []\<rparr>"
  have empty: "sync_ok {} ?s" by (simp add: sync_ok_def)
  note first = sync_each_effect [OF empty, of "server_names m" m, folded sync_tools_def assms(2)]
  note tracks = sync_each_tracks [OF empty assms(1), where m = m, folded sync_tools_def assms(2)]
  have "ts_registry s2 = ts_registry s1 \<and> sync_ok {} s2"
    using sync_each_known [of "set (server_names m)" s1 "server_names m" m] first
    unfolding sync_tools_def [symmetric] assms(3) [symmetric] by simp
  moreover from this have gone: "om_get (ts_tool_to_server s2) n = None" for n
    by (cases "om_get (ts_tool_to_server s2) n") (auto simp: sync_ok_def)
  moreover have "ts_tool_to_server s2 = []"
  proof (cases "ts_tool_to_server s2")
    case (Cons p ps)
    with gone [of "fst p"] show ?thesis by (simp add: om_get_def)
  qed simp
  moreover have "is_mcp_tool n s1 \<and> (\<exists>p. t = Proxy p)" if "ts_registry s1 n = Some t" "r n = None" for n t
    using tracks [of n] that by auto
  ultimately show ?thesis using first by (simp add: tool_count_def is_mcp_tool_def) blast
qed

definition sample_manager :: "(jv, unit) mcp_manager" where
  "sample_manager = \<lparr>mm_configs = [(''s'', sample_config ''stdio'' [])],
     mm_clients = [(''s'', (new_mcp_client (sample_config ''stdio'' []))\<lparr>cm_connected := True\<rparr>)],
     mm_tools = [(''s'', [\<lparr>td_name = ''t'', td_description = [], td_input_schema = JNull\<rparr>])], mm_made = 1\<rparr>"

lemma resync_forgets_witness:
  "\<exists>s1 s2. s1 = sync_tools sample_manager
      \<lparr>ts_registry = Map.empty, ts_tool_to_server = [], ts_server_to_tools = []\<rparr> \<and>
    s2 = sync_tools sample_manager s1 \<and>
    tool_count s1 = 1 \<and> ts_registry s2 ''s__t'' \<noteq> None \<and> tool_count s2 = 0"
proof -
  let ?s = "\<lparr>ts_registry = Map.empty, ts_tool_to_server = [], ts_server_to_tools = []\<rparr> :: jv tool_sync"
  have "distinct (server_names sample_manager)" by (simp add: sample_manager_def server_names_def om_keys_def)
  note resync = resync_forgets [OF this refl refl, of Map.empty "[]"]
  have "tool_count (sync_tools sample_manager ?s) = 1"
    by (simp add: sample_manager_def server_names_def om_keys_def sync_tools_def sync_server_def Let_def
        forget_server_def server_tools_def get_client_def om_get_def tool_count_def mcp_tool_name_def)
  moreover have "''s__t'' \<in> offered sample_manager ''s''" "''s'' \<in> set (server_names sample_manager)"
    by (simp_all add: sample_manager_def server_names_def om_keys_def offered_def server_tools_def
        get_client_def om_get_def)
  ultimately show ?thesis using resync by metis
qed

section \<open>Proxies of a client that is gone\<close>

lemma deref_gone:
  assumes "parse_json J input_json = Inr input" and "mt_client t = Some serial"
    and "\<forall>c. get_client (mt_server_name t) m = Some c \<longrightarrow> cm_serial c \<noteq> serial"
  shows "fst (mcp_execute J what input_json t m) = Inl Undefined_Behaviour"
  using assms by (cases "get_client (mt_server_name t) m")
    (auto simp: mcp_execute_def deref_call_def andthen_def caught_def std_exception_def)

lemma reconnected_serial:
  assumes "connect_server J e server (m, w) = (Inr True, m', w')" and "get_client server m' = Some c"
  shows "cm_serial c = mm_made m"
proof -
  obtain config where config: "om_get (mm_configs m) server = Some config"
    using assms(1) by (cases "om_get (mm_configs m) server") (auto simp: connect_server_def)
  obtain r c0 w1 where con: "connect J e ((new_mcp_client config)\<lparr>cm_serial := mm_made m\<rparr>, w) = (r, c0, w1)"
    by (metis prod_cases3)
  have r: "r = Inr True"
    using assms(1) config con by (auto simp: connect_server_def Let_def split: sum.splits bool.splits)
  obtain r1 c1 where tools: "list_tools J c0 = (r1, c1)" by force
  have "same_connection c0 c1"
    using same_connection_calls(1) [of J] tools by (metis relates_def snd_conv)
  then have "cm_serial c1 = mm_made m"
    using connect_connected [OF con [unfolded r]] by (simp add: same_connection_def)
  moreover have "c = c1"
    using assms config con r tools by (cases r1) (auto simp: connect_server_def Let_def get_client_def)
  ultimately show ?thesis by simp
qed

text \<open>
  A proxy made for the client of a connected server, in any reachable state: once the server is
  disconnected, or connected once more, executing the proxy is undefined behaviour, since it
  calls through the pointer to the client that was destroyed.
\<close>

theorem stale_proxy_dangles:
  fixes e :: "'w mcp_env" and J :: "('j, 'z) jlib_scheme" and w :: 'w and es :: "'j mcp_event list"
  assumes "m = fst (foldl (mcp_step J e) (new_mcp_manager, w) es)"
    and "get_client server m = Some c"
    and "t = \<lparr>mt_server_name = server, mt_def = d, mt_client = Some (cm_serial c)\<rparr>"
    and "parse_json J input_json = Inr input"
  shows "fst (mcp_execute J what input_json t (disconnect_server server m)) = Inl Undefined_Behaviour \<and>
    (\<forall>w0 w1 m'. connect_server J e server (m, w0) = (Inr True, m', w1) \<longrightarrow>
      fst (mcp_execute J what input_json t m') = Inl Undefined_Behaviour)"
proof (intro conjI allI impI)
  have "manager_ok m" unfolding assms(1) by (rule mcp.inv_reachable)
  then have old: "cm_serial c < mm_made m" using assms(2) by (auto simp: manager_ok_def get_client_def)
  show "fst (mcp_execute J what input_json t (disconnect_server server m)) = Inl Undefined_Behaviour"
    using assms(3) by (intro deref_gone [OF assms(4)]) (auto simp: disconnect_server_def get_client_def)
  fix w0 w1 m' assume "connect_server J e server (m, w0) = (Inr True, m', w1)"
  from reconnected_serial [OF this] old assms(3)
  show "fst (mcp_execute J what input_json t m') = Inl Undefined_Behaviour"
    by (intro deref_gone [OF assms(4)]) auto
qed

end
