(* ===== verification/App_Config.thy ===== *)
theory App_Config
  imports Json_Sample
begin

text \<open>
  \<open>src/app/config.h\<close> and \<open>config.cpp\<close>: the configuration of the program, read from the
  environment and from a file, and written to a file.

  Arguments: the environment, the content of the file (\<open>None\<close> when it does not exist or does not
  open), and the library's reading from a stream (\<open>f >> j\<close>), which stops after the first value,
  and printing with an indentation (\<open>dump(2)\<close>).
\<close>

section \<open>AppConfig\<close>

record app_config =
  ac_api_key :: string
  ac_model_id :: string
  ac_base_url :: string
  ac_max_tokens :: int
  ac_timeout_seconds :: int
  ac_permission_mode :: string
  ac_auto_compact :: bool
  ac_max_context_messages :: int
  ac_max_tool_iterations :: int
  ac_thinking_enabled :: bool
  ac_thinking_budget :: int
  ac_theme :: string
  ac_verbose :: bool
  ac_color :: bool
  ac_no_color :: bool
  ac_working_directory :: string
  ac_prompt :: string
  ac_config_path :: string

definition default_app_config :: app_config where
  "default_app_config = \<lparr>ac_api_key = [], ac_model_id = ''claude-sonnet-4-20250514'',
     ac_base_url = ''https://api.anthropic.com'', ac_max_tokens = 8192, ac_timeout_seconds = 120,
     ac_permission_mode = ''default'', ac_auto_compact = True, ac_max_context_messages = 100,
     ac_max_tool_iterations = 100, ac_thinking_enabled = False, ac_thinking_budget = 10000,
     ac_theme = ''dark'', ac_verbose = False, ac_color = True, ac_no_color = False,
     ac_working_directory = [], ac_prompt = [], ac_config_path = []\<rparr>"

section \<open>The environment\<close>

type_synonym environment = "string \<Rightarrow> string option"

definition from_env :: "environment \<Rightarrow> string \<Rightarrow> string \<Rightarrow> string" where
  "from_env env k d = (case env k of None \<Rightarrow> d | Some v \<Rightarrow> v)"

text \<open>\<open>std::stoi\<close> of a text that is no number throws, and nothing here catches it.\<close>

definition load_from_env :: "environment \<Rightarrow> cpp_exn + app_config" where
  "load_from_env env =
     (let c = default_app_config;
          c1 = c\<lparr>ac_api_key := from_env env ''ANTHROPIC_API_KEY'' (ac_api_key c),
                 ac_base_url := from_env env ''ANTHROPIC_BASE_URL'' (ac_base_url c),
                 ac_model_id := from_env env ''CLAUDE_CODE_MODEL'' (ac_model_id c)\<rparr>
      in bind_exn (case env ''CLAUDE_CODE_MAX_TOKENS'' of
                     None \<Rightarrow> Inr (ac_max_tokens c1)
                   | Some v \<Rightarrow> (case stoi v of Inl e \<Rightarrow> Inl (Stoi_Exn e) | Inr n \<Rightarrow> Inr n))
           (\<lambda>n. Inr (c1\<lparr>ac_max_tokens := n,
              ac_permission_mode := from_env env ''CLAUDE_CODE_PERMISSION_MODE'' (ac_permission_mode c1),
              ac_theme := from_env env ''CLAUDE_CODE_THEME'' (ac_theme c1),
              ac_verbose := (env ''CLAUDE_CODE_VERBOSE'' = Some ''1'' \<or> ac_verbose c1)\<rparr>)))"

section \<open>The file\<close>

text \<open>A member and what its value sets; \<open>None\<close> when \<open>get\<close> throws.\<close>

type_synonym 'j setter = "string \<times> ('j \<Rightarrow> app_config \<Rightarrow> app_config option)"

definition set_str ::
  "('j, 'z) jlib_scheme \<Rightarrow> ((string \<Rightarrow> string) \<Rightarrow> app_config \<Rightarrow> app_config) \<Rightarrow>
   'j \<Rightarrow> app_config \<Rightarrow> app_config option" where
  "set_str J upd v c = map_option (\<lambda>x. upd (\<lambda>_. x) c) (j_get_str J v)"

definition set_int ::
  "('j, 'z) jlib_scheme \<Rightarrow> ((int \<Rightarrow> int) \<Rightarrow> app_config \<Rightarrow> app_config) \<Rightarrow>
   'j \<Rightarrow> app_config \<Rightarrow> app_config option" where
  "set_int J upd v c = map_option (\<lambda>x. upd (\<lambda>_. x) c) (j_get_int J v)"

definition set_bool ::
  "('j, 'z) jlib_scheme \<Rightarrow> ((bool \<Rightarrow> bool) \<Rightarrow> app_config \<Rightarrow> app_config) \<Rightarrow>
   'j \<Rightarrow> app_config \<Rightarrow> app_config option" where
  "set_bool J upd v c = map_option (\<lambda>x. upd (\<lambda>_. x) c) (j_get_bool J v)"

definition file_setters :: "('j, 'z) jlib_scheme \<Rightarrow> 'j setter list" where
  "file_setters J =
     [(''api_key'', set_str J ac_api_key_update), (''model_id'', set_str J ac_model_id_update),
      (''base_url'', set_str J ac_base_url_update), (''max_tokens'', set_int J ac_max_tokens_update),
      (''timeout_seconds'', set_int J ac_timeout_seconds_update),
      (''permission_mode'', set_str J ac_permission_mode_update),
      (''auto_compact'', set_bool J ac_auto_compact_update),
      (''max_context_messages'', set_int J ac_max_context_messages_update),
      (''max_tool_iterations'', set_int J ac_max_tool_iterations_update),
      (''thinking_enabled'', set_bool J ac_thinking_enabled_update),
      (''thinking_budget'', set_int J ac_thinking_budget_update),
      (''theme'', set_str J ac_theme_update), (''verbose'', set_bool J ac_verbose_update),
      (''color'', set_bool J ac_color_update)]"

text \<open>An exception ends the reading and keeps what was set before it.\<close>

fun apply_setters :: "('j, 'z) jlib_scheme \<Rightarrow> 'j \<Rightarrow> 'j setter list \<Rightarrow> app_config \<Rightarrow> app_config" where
  "apply_setters J j [] c = c"
| "apply_setters J j ((k, f) # r) c =
     (if j_contains J j k
      then (case Option.bind (j_at J j k) (\<lambda>v. f v c) of
              None \<Rightarrow> c
            | Some c' \<Rightarrow> apply_setters J j r c')
      else apply_setters J j r c)"

definition load_from_file ::
  "('j, 'z) jlib_scheme \<Rightarrow> (string \<Rightarrow> string + 'j) \<Rightarrow> string option \<Rightarrow> app_config" where
  "load_from_file J read content =
     (case content of
        None \<Rightarrow> default_app_config
      | Some s \<Rightarrow>
          (case read s of
             Inl _ \<Rightarrow> default_app_config
           | Inr j \<Rightarrow> apply_setters J j (file_setters J) default_app_config))"

definition saved_kvs :: "('j, 'z) jlib_scheme \<Rightarrow> app_config \<Rightarrow> (string \<times> 'j) list" where
  "saved_kvs J c =
       ((if ac_api_key c \<noteq> [] then [(''api_key'', j_string J (ac_api_key c))] else [])
        @ [(''model_id'', j_string J (ac_model_id c)), (''base_url'', j_string J (ac_base_url c)),
           (''max_tokens'', j_int J (ac_max_tokens c)),
           (''timeout_seconds'', j_int J (ac_timeout_seconds c)),
           (''permission_mode'', j_string J (ac_permission_mode c)),
           (''auto_compact'', j_bool J (ac_auto_compact c)),
           (''max_context_messages'', j_int J (ac_max_context_messages c)),
           (''max_tool_iterations'', j_int J (ac_max_tool_iterations c)),
           (''thinking_enabled'', j_bool J (ac_thinking_enabled c)),
           (''thinking_budget'', j_int J (ac_thinking_budget c)),
           (''theme'', j_string J (ac_theme c)), (''verbose'', j_bool J (ac_verbose c)),
           (''color'', j_bool J (ac_color c))])"

definition saved_json :: "('j, 'z) jlib_scheme \<Rightarrow> app_config \<Rightarrow> 'j" where
  "saved_json J c = obj_from J (saved_kvs J c)"

text \<open>What the file holds after \<open>save_to_file\<close>, when it opens; a text that is not UTF-8 throws.\<close>

definition save_to_file ::
  "('j, 'z) jlib_scheme \<Rightarrow> ('j \<Rightarrow> string) \<Rightarrow> app_config \<Rightarrow> cpp_exn + string" where
  "save_to_file J print c = pretty_json J print (saved_json J c)"

section \<open>Loading\<close>

definition merge :: "string \<Rightarrow> string \<Rightarrow> string \<Rightarrow> string" where
  "merge target file_val env_val =
     (if env_val = [] then (if file_val = [] then target else file_val) else env_val)"

definition merged :: "app_config \<Rightarrow> app_config \<Rightarrow> app_config \<Rightarrow> app_config" where
  "merged c f e =
     c\<lparr>ac_api_key := merge (ac_api_key c) (ac_api_key f) (ac_api_key e),
       ac_base_url := merge (ac_base_url c) (ac_base_url f) (ac_base_url e),
       ac_model_id := merge (ac_model_id c) (ac_model_id f) (ac_model_id e),
       ac_permission_mode := merge (ac_permission_mode c) (ac_permission_mode f) (ac_permission_mode e),
       ac_theme := merge (ac_theme c) (ac_theme f) (ac_theme e),
       ac_max_tokens := (if ac_max_tokens e > 0 then ac_max_tokens e
         else if ac_max_tokens f > 0 then ac_max_tokens f else ac_max_tokens c),
       ac_timeout_seconds := (if ac_timeout_seconds e > 0 then ac_timeout_seconds e
         else if ac_timeout_seconds f > 0 then ac_timeout_seconds f else ac_timeout_seconds c),
       ac_verbose := (if ac_verbose e then True else if ac_verbose f then True else ac_verbose c)\<rparr>"

definition load ::
  "('j, 'z) jlib_scheme \<Rightarrow> (string \<Rightarrow> string + 'j) \<Rightarrow> environment \<Rightarrow> string \<Rightarrow> string option \<Rightarrow>
   cpp_exn + app_config" where
  "load J read env cwd content =
     bind_exn (load_from_env env) (\<lambda>e.
       (let c = merged default_app_config (load_from_file J read content) e
        in Inr (if ac_working_directory c = [] then c\<lparr>ac_working_directory := cwd\<rparr> else c)))"

section \<open>Saving and loading\<close>

text \<open>
  What is saved is loaded again, when the integers fit in 32 bits, as the \<open>int\<close>s of the code do;
  the options of the command line are not saved.
\<close>

theorem config_roundtrip:
  assumes "law_set J" and "law_strings J" and "law_ints J" and "law_bools J"
    and "\<forall>v. j_printable J v \<longrightarrow> read (print v) = Inr v"
    and "\<forall>i\<in>{ac_max_tokens c, ac_timeout_seconds c, ac_max_context_messages c,
      ac_max_tool_iterations c, ac_thinking_budget c}. - (2 ^ 31) \<le> i \<and> i < 2 ^ 31"
    and "save_to_file J print c = Inr text"
  shows "load_from_file J read (Some text) =
    c\<lparr>ac_no_color := False, ac_working_directory := [], ac_prompt := [], ac_config_path := []\<rparr>"
proof -
  have get: "j_get_str J (j_string J s) = Some s" "j_get_bool J (j_bool J b) = Some b"
    "- (2 ^ 31) \<le> i \<and> i < 2 ^ 31 \<longrightarrow> j_get_int J (j_int J i) = Some i" for s b i
    using assms(2-4) by (auto simp: law_strings_def law_ints_def law_bools_def)
  have "distinct (map fst (saved_kvs J c))" by (simp add: saved_kvs_def)
  note members = obj_members(1,2) [OF assms(1) this, folded saved_json_def]
  have "read text = Inr (saved_json J c)"
    using assms(5,7) by (auto simp: save_to_file_def pretty_json_def split: if_splits)
  then show ?thesis
    using assms(6) get(3)
    by (cases "ac_api_key c = []")
      (simp_all add: load_from_file_def file_setters_def members get
        saved_kvs_def set_str_def set_int_def set_bool_def default_app_config_def)
qed

lemma config_roundtrip_witness:
  "let c = default_app_config\<lparr>ac_api_key := ''key'', ac_max_tokens := 7, ac_prompt := ''p''\<rparr>
   in \<exists>text. save_to_file coding_jlib (j_dump coding_jlib) c = Inr text \<and>
     load_from_file coding_jlib (j_parse coding_jlib) (Some text) = c\<lparr>ac_prompt := []\<rparr>"
proof -
  let ?c = "default_app_config\<lparr>ac_api_key := ''key'', ac_max_tokens := 7, ac_prompt := ''p''\<rparr>"
  have parse: "\<forall>v. j_printable coding_jlib v \<longrightarrow> j_parse coding_jlib (j_dump coding_jlib v) = Inr v"
    using coding_laws(1) by (simp add: law_parse_dump_def)
  have "distinct (map fst (saved_kvs coding_jlib ?c))" by (simp add: saved_kvs_def)
  from obj_printable [OF coding_laws(2,13) this] obtain out
    where "save_to_file coding_jlib (j_dump coding_jlib) ?c = Inr out"
    by (auto simp: save_to_file_def pretty_json_def saved_json_def saved_kvs_def default_app_config_def
        printableD [OF coding_laws(13)] byte_in_def)
  with config_roundtrip [OF coding_laws(2,5,9,11) parse, of ?c out] show ?thesis
    by (simp add: default_app_config_def)
qed

section \<open>Precedence\<close>

lemma env_fields:
  assumes "load_from_env env = Inr e"
  shows "ac_api_key e = from_env env ''ANTHROPIC_API_KEY'' []"
    and "ac_base_url e = from_env env ''ANTHROPIC_BASE_URL'' (ac_base_url default_app_config)"
    and "ac_model_id e = from_env env ''CLAUDE_CODE_MODEL'' (ac_model_id default_app_config)"
    and "ac_permission_mode e =
      from_env env ''CLAUDE_CODE_PERMISSION_MODE'' (ac_permission_mode default_app_config)"
    and "ac_theme e = from_env env ''CLAUDE_CODE_THEME'' (ac_theme default_app_config)"
    and "env ''CLAUDE_CODE_MAX_TOKENS'' = None \<Longrightarrow> ac_max_tokens e = 8192"
    and "ac_timeout_seconds e = 120" and "ac_verbose e = (env ''CLAUDE_CODE_VERBOSE'' = Some ''1'')"
  using assms by (auto simp: load_from_env_def Let_def bind_exn_Inr default_app_config_def)

lemma load_fields:
  assumes "load J read env cwd content = Inr c" and "load_from_env env = Inr e"
  defines "m \<equiv> merged default_app_config (load_from_file J read content) e"
  shows "ac_api_key c = ac_api_key m" "ac_base_url c = ac_base_url m" "ac_model_id c = ac_model_id m"
    "ac_permission_mode c = ac_permission_mode m" "ac_theme c = ac_theme m"
    "ac_max_tokens c = ac_max_tokens m" "ac_timeout_seconds c = ac_timeout_seconds m"
    "ac_verbose c = ac_verbose m" "ac_auto_compact c = ac_auto_compact m"
    "ac_max_tool_iterations c = ac_max_tool_iterations m"
    "ac_thinking_enabled c = ac_thinking_enabled m" "ac_thinking_budget c = ac_thinking_budget m"
proof -
  have "c = (if ac_working_directory m = [] then m\<lparr>ac_working_directory := cwd\<rparr> else m)"
    using assms(1,2) by (auto simp: load_def Let_def m_def)
  then show "ac_api_key c = ac_api_key m" "ac_base_url c = ac_base_url m" "ac_model_id c = ac_model_id m"
    "ac_permission_mode c = ac_permission_mode m" "ac_theme c = ac_theme m"
    "ac_max_tokens c = ac_max_tokens m" "ac_timeout_seconds c = ac_timeout_seconds m"
    "ac_verbose c = ac_verbose m" "ac_auto_compact c = ac_auto_compact m"
    "ac_max_tool_iterations c = ac_max_tool_iterations m"
    "ac_thinking_enabled c = ac_thinking_enabled m" "ac_thinking_budget c = ac_thinking_budget m"
    by simp_all
qed

text \<open>
  The environment is said to go before the file and the file before the defaults. Since what is
  read from the environment starts from the defaults, a variable that is not set hides the file:
  the model, the address, the permission mode, the theme and the token limit of the file are
  never used then, its timeout never at all; the key and \<open>verbose\<close> are. A text of the file
  counts only where the variable is set to the empty text.
\<close>

definition effective :: "string option \<Rightarrow> string \<Rightarrow> string \<Rightarrow> string" where
  "effective var file_val d =
     (case var of
        None \<Rightarrow> d
      | Some v \<Rightarrow> if v \<noteq> [] then v else if file_val \<noteq> [] then file_val else d)"

theorem file_settings_hidden:
  fixes read :: "string \<Rightarrow> string + 'j"
  assumes "load J read env cwd content = Inr c"
  defines "d \<equiv> default_app_config" and "f \<equiv> load_from_file J read content"
  shows "ac_model_id c = effective (env ''CLAUDE_CODE_MODEL'') (ac_model_id f) (ac_model_id d) \<and>
    ac_base_url c = effective (env ''ANTHROPIC_BASE_URL'') (ac_base_url f) (ac_base_url d) \<and>
    ac_permission_mode c =
      effective (env ''CLAUDE_CODE_PERMISSION_MODE'') (ac_permission_mode f) (ac_permission_mode d) \<and>
    ac_theme c = effective (env ''CLAUDE_CODE_THEME'') (ac_theme f) (ac_theme d) \<and>
    (env ''CLAUDE_CODE_MAX_TOKENS'' = None \<longrightarrow> ac_max_tokens c = ac_max_tokens d) \<and>
    ac_timeout_seconds c = ac_timeout_seconds d \<and>
    ac_auto_compact c = ac_auto_compact d \<and> ac_max_tool_iterations c = ac_max_tool_iterations d \<and>
    ac_thinking_enabled c = ac_thinking_enabled d \<and> ac_thinking_budget c = ac_thinking_budget d \<and>
    ac_api_key c = (case env ''ANTHROPIC_API_KEY'' of None \<Rightarrow> ac_api_key f
      | Some k \<Rightarrow> if k \<noteq> [] then k else ac_api_key f) \<and>
    ac_verbose c = (env ''CLAUDE_CODE_VERBOSE'' = Some ''1'' \<or> ac_verbose f)"
proof -
  obtain e where e: "load_from_env env = Inr e"
    using assms(1) by (cases "load_from_env env") (auto simp: load_def)
  note env = env_fields [OF e] and loaded = load_fields [OF assms(1) e, folded d_def f_def]
  have set_var: "merge d' f' (from_env env k d') = effective (env k) f' d'" if "d' \<noteq> []" for d' f' k
    using that by (simp add: merge_def from_env_def effective_def split: option.split)
  have key: "merge [] f' (from_env env k []) = (case env k of None \<Rightarrow> f' | Some v \<Rightarrow> if v \<noteq> [] then v else f')"
    for f' k by (simp add: merge_def from_env_def split: option.split)
  have defaults: "ac_api_key d = []" "ac_base_url d \<noteq> []" "ac_model_id d \<noteq> []"
      "ac_permission_mode d \<noteq> []" "ac_theme d \<noteq> []" "ac_max_tokens d = 8192" "ac_timeout_seconds d = 120"
      "\<not> ac_verbose d"
    by (simp_all add: d_def default_app_config_def)
  show ?thesis
    using defaults env
    by (simp add: loaded merged_def set_var key d_def [symmetric] cong: option.case_cong)
qed

text \<open>A configuration file that names another model, and no variable: the default model is used.\<close>

lemma file_settings_hidden_witness:
  "\<exists>c. load (sample_jlib Inl (\<lambda>v. [])) (\<lambda>s. Inr (JObj [(''model_id'', JStr ''other'')])) (\<lambda>v. None) ''/'' (Some ''{}'') = Inr c \<and>
    ac_model_id (load_from_file (sample_jlib Inl (\<lambda>v. [])) (\<lambda>s. Inr (JObj [(''model_id'', JStr ''other'')])) (Some ''{}'')) =
      ''other'' \<and>
    ac_model_id c = ''claude-sonnet-4-20250514''"
proof -
  let ?J = "sample_jlib Inl (\<lambda>v. [])" and ?read = "\<lambda>s. Inr (JObj [(''model_id'', JStr ''other'')]) :: string + jv"
  have "\<exists>c. load ?J ?read (\<lambda>v. None) ''/'' (Some ''{}'') = Inr c"
    by (simp add: load_def load_from_env_def Let_def)
  then obtain c where c: "load ?J ?read (\<lambda>v. None) ''/'' (Some ''{}'') = Inr c" ..
  moreover have "ac_model_id (load_from_file ?J ?read (Some ''{}'')) = ''other''"
    by (simp add: load_from_file_def file_setters_def set_str_def jv_defs default_app_config_def)
  moreover have "ac_model_id c = ''claude-sonnet-4-20250514''"
    using file_settings_hidden [OF c] by (simp add: effective_def default_app_config_def)
  ultimately show ?thesis by blast
qed

section \<open>AuthManager\<close>

text \<open>
  \<open>src/api/auth.h\<close> and \<open>auth.cpp\<close>: where the API key comes from. OAuth is not implemented there.
\<close>

datatype auth_type = ApiKey | OAuth

record auth_result =
  ar_success :: bool
  ar_token :: string
  ar_error :: string

record auth_manager =
  am_auth_type :: auth_type
  am_current_token :: string

definition load_api_key_from_env :: "environment \<Rightarrow> string" where
  "load_api_key_from_env env =
     (case env ''ANTHROPIC_API_KEY'' of None \<Rightarrow> [] | Some key \<Rightarrow> if key \<noteq> [] then key else [])"

definition load_api_key_from_config ::
  "('j, 'z) jlib_scheme \<Rightarrow> (string \<Rightarrow> string + 'j) \<Rightarrow> string option \<Rightarrow> string" where
  "load_api_key_from_config J read content =
     (case content of
        None \<Rightarrow> []
      | Some s \<Rightarrow>
          (case read s of
             Inl _ \<Rightarrow> []
           | Inr j \<Rightarrow>
               if j_contains J j ''api_key''
               then (case Option.bind (j_at J j ''api_key'') (j_get_str J) of None \<Rightarrow> [] | Some k \<Rightarrow> k)
               else []))"

definition no_key_error :: string where
  "no_key_error = ''No API key found. Set ANTHROPIC_API_KEY environment variable or configure in config file.''"

definition no_oauth_error :: string where
  "no_oauth_error = ''OAuth 2.0 is not yet supported. '' @
     ''Please use API key authentication by setting ANTHROPIC_API_KEY.''"

definition authenticate ::
  "('j, 'z) jlib_scheme \<Rightarrow> (string \<Rightarrow> string + 'j) \<Rightarrow> environment \<Rightarrow> string option \<Rightarrow> auth_type \<Rightarrow>
   auth_manager \<Rightarrow> auth_result \<times> auth_manager" where
  "authenticate J read env content type m =
     (let m1 = m\<lparr>am_auth_type := type\<rparr> in
      case type of
        ApiKey \<Rightarrow>
          (let key0 = load_api_key_from_env env;
               key = (if key0 = [] then load_api_key_from_config J read content else key0)
           in if key = [] then (\<lparr>ar_success = False, ar_token = [], ar_error = no_key_error\<rparr>, m1)
              else (\<lparr>ar_success = True, ar_token = key, ar_error = []\<rparr>, m1\<lparr>am_current_token := key\<rparr>))
      | OAuth \<Rightarrow> (\<lparr>ar_success = False, ar_token = [], ar_error = no_oauth_error\<rparr>, m1))"

definition get_valid_token ::
  "('j, 'z) jlib_scheme \<Rightarrow> (string \<Rightarrow> string + 'j) \<Rightarrow> environment \<Rightarrow> string option \<Rightarrow>
   auth_manager \<Rightarrow> string \<times> auth_manager" where
  "get_valid_token J read env content m =
     (if am_current_token m = []
      then (case authenticate J read env content (am_auth_type m) m of
              (r, m') \<Rightarrow> (if \<not> ar_success r then [] else ar_token r, m'))
      else (am_current_token m, m))"

definition set_api_key :: "string \<Rightarrow> auth_manager \<Rightarrow> auth_manager" where
  "set_api_key key m = m\<lparr>am_current_token := key, am_auth_type := ApiKey\<rparr>"

text \<open>
  A key that was found is kept: later changes of the environment or of the file do not matter.
\<close>

lemma token_kept:
  assumes "get_valid_token J read env content m = (t, m')" and "t \<noteq> []"
  shows "get_valid_token J read env' content' m' = (t, m')"
  using assms
  by (auto simp: get_valid_token_def authenticate_def Let_def split: if_splits auth_type.splits)

end
