(* ===== verification/App_State.thy ===== *)
theory App_State
  imports Cost_Tracker Files Effects Json_Sample
begin

text \<open>
  \<open>src/state/app_state.h\<close> and \<open>app_state.cpp\<close>: the session's configuration, statistics and
  messages, and the file a session is saved to and restored from. The two mutexes (that of the
  state and that of the cost tracker) are only held together in \<open>new_session\<close>; the callbacks
  are called with neither.

  Arguments: the identifiers drawn, the clock, the file system (\<open>Files\<close>), and whether the
  directory of the file can be created.
\<close>

section \<open>AppState\<close>

record session_stats =
  ss_input_tokens :: "64 word"
  ss_output_tokens :: "64 word"
  ss_cost_cents :: "64 word"
  ss_turns :: int
  ss_tool_calls :: int
  ss_session_start :: int
  ss_last_activity :: int

definition fresh_stats :: "int \<Rightarrow> session_stats" where
  "fresh_stats now = \<lparr>ss_input_tokens = 0, ss_output_tokens = 0, ss_cost_cents = 0, ss_turns = 0,
     ss_tool_calls = 0, ss_session_start = now, ss_last_activity = now\<rparr>"

record 'w app_state =
  as_messages :: "message list"
  as_session :: session_config
  as_stats :: session_stats
  as_costs :: cost_tracker
  as_callbacks :: "(unit, 'w) effect list"

definition push_message :: "message \<Rightarrow> 'w app_state \<Rightarrow> 'w app_state" where
  "push_message m s = s\<lparr>as_messages := as_messages s @ [m]\<rparr>"

definition clear_messages :: "'w app_state \<Rightarrow> 'w app_state" where
  "clear_messages s = s\<lparr>as_messages := []\<rparr>"

definition on_config_change :: "(unit, 'w) effect \<Rightarrow> 'w app_state \<Rightarrow> 'w app_state" where
  "on_config_change cb s = s\<lparr>as_callbacks := as_callbacks s @ [cb]\<rparr>"

text \<open>The callbacks registered at the time, in order; an exception of one is logged.\<close>

fun call_callbacks :: "(unit, 'w) effect list \<Rightarrow> (unit, 'w) effect" where
  "call_callbacks [] = ret ()"
| "call_callbacks (cb # cbs) =
     andthen (catch_with cb (\<lambda>e. if std_exception e then ret () else throw e)) (\<lambda>_. call_callbacks cbs)"

definition notify_config_change :: "'w app_state \<Rightarrow> (unit, 'w) effect" where
  "notify_config_change s = call_callbacks (as_callbacks s)"

definition new_session :: "string \<Rightarrow> int \<Rightarrow> 'w app_state \<Rightarrow> cpp_exn + 'w app_state" where
  "new_session uuid now s =
     bind_exn (tracker_reset (as_costs s)) (\<lambda>r.
       Inr (s\<lparr>as_messages := [], as_session := (as_session s)\<lparr>sc_session_id := uuid\<rparr>,
              as_stats := fresh_stats now, as_costs := snd r\<rparr>))"

definition update_stats :: "token_usage \<Rightarrow> int \<Rightarrow> 'w app_state \<Rightarrow> 'w app_state" where
  "update_stats u now s =
     s\<lparr>as_stats := (as_stats s)\<lparr>ss_input_tokens := ss_input_tokens (as_stats s) + total_input u,
         ss_output_tokens := ss_output_tokens (as_stats s) + output_tokens u,
         ss_last_activity := now\<rparr>\<rparr>"

definition increment_tool_calls :: "int \<Rightarrow> 'w app_state \<Rightarrow> 'w app_state" where
  "increment_tool_calls now s =
     s\<lparr>as_stats := (as_stats s)\<lparr>ss_tool_calls := ss_tool_calls (as_stats s) + 1, ss_last_activity := now\<rparr>\<rparr>"

definition increment_turns :: "int \<Rightarrow> 'w app_state \<Rightarrow> 'w app_state" where
  "increment_turns now s =
     s\<lparr>as_stats := (as_stats s)\<lparr>ss_turns := ss_turns (as_stats s) + 1, ss_last_activity := now\<rparr>\<rparr>"

definition set_working_directory :: "string \<Rightarrow> 'w app_state \<Rightarrow> 'w app_state" where
  "set_working_directory dir s =
     s\<lparr>as_session := (as_session s)\<lparr>sc_working_directory := dir\<rparr>\<rparr>"

section \<open>Saving\<close>

definition saved_message :: "('j, 'z) jlib_scheme \<Rightarrow> message \<Rightarrow> 'j" where
  "saved_message J m =
     obj_from J [(''role'', j_int J (int (role_value (msg_role m)))),
       (''content'', j_string J (text_content m))]"

definition saved_stats :: "('j, 'z) jlib_scheme \<Rightarrow> session_stats \<Rightarrow> 'j" where
  "saved_stats J st =
     j_object J [(''total_input_tokens'', j_int J (sint (ss_input_tokens st))),
       (''total_output_tokens'', j_int J (sint (ss_output_tokens st))),
       (''total_tool_calls'', j_int J (ss_tool_calls st)), (''total_turns'', j_int J (ss_turns st))]"

definition session_json :: "('j, 'z) jlib_scheme \<Rightarrow> 'w app_state \<Rightarrow> 'j" where
  "session_json J s =
     obj_from J [(''session_id'', j_string J (sc_session_id (as_session s))),
       (''working_directory'', j_string J (sc_working_directory (as_session s))),
       (''messages'', j_array J (map (saved_message J)
          (drop (length (as_messages s) - 200) (as_messages s)))),
       (''stats'', saved_stats J (as_stats s))]"

definition session_path :: "string \<Rightarrow> string \<Rightarrow> string" where
  "session_path dir i = path_append (path_append dir ''.claude'') (''session_'' @ i @ ''.json'')"

text \<open>
  Every exception is caught, that of a text that is not UTF-8 included; the temporary file has
  been opened by then. The writing is not checked.
\<close>

definition save_session ::
  "('j, 'z) jlib_scheme \<Rightarrow> ('j \<Rightarrow> string) \<Rightarrow> fs_env \<Rightarrow> bool \<Rightarrow> 'w app_state \<Rightarrow> fsys \<Rightarrow> fsys" where
  "save_session J print e mkdir s w =
     (let path = session_path (sc_working_directory (as_session s)) (sc_session_id (as_session s));
          tmp = path @ ''.tmp''
      in if \<not> mkdir \<or> \<not> fe_temp_opens e then w
         else (case pretty_json J print (session_json J s) of
             Inl _ \<Rightarrow> write_stream e tmp [] w
           | Inr text \<Rightarrow>
               (let w1 = write_stream e tmp text w
                in if fe_rename_works e then rename_file tmp path w1 else w1)))"

section \<open>Restoring\<close>

definition role_of :: "int \<Rightarrow> message_role option" where
  "role_of i = (if i = 0 then Some System else if i = 1 then Some User
     else if i = 2 then Some Assistant else if i = 3 then Some Tool else None)"

text \<open>
  The messages are appended one by one, up to the first that throws. A number that is no role
  is kept by the code as it is; that is outside the model (\<open>None\<close>).
\<close>

fun restore_messages ::
  "('j, 'z) jlib_scheme \<Rightarrow> 'j list \<Rightarrow> message list \<Rightarrow> ((cpp_exn + unit) \<times> message list) option" where
  "restore_messages J [] ms = Some (Inr (), ms)"
| "restore_messages J (v # r) ms =
     (case int_value J v ''role'' 0 of
        Inl e \<Rightarrow> Some (Inl e, ms)
      | Inr i \<Rightarrow>
          (case str_value J v ''content'' [] of
             Inl e \<Rightarrow> Some (Inl e, ms)
           | Inr t \<Rightarrow>
               (case role_of i of
                  None \<Rightarrow> None
                | Some role \<Rightarrow>
                    restore_messages J r (ms @ [(blank_message role)\<lparr>msg_content := [make_text t]\<rparr>]))))"

definition restore_stats ::
  "('j, 'z) jlib_scheme \<Rightarrow> 'j \<Rightarrow> session_stats \<Rightarrow> session_stats" where
  "restore_stats J v st =
     (case int_value J v ''total_input_tokens'' 0 of
        Inl e \<Rightarrow> st
      | Inr a \<Rightarrow>
          (let st1 = st\<lparr>ss_input_tokens := word_of_int a\<rparr> in
           case int_value J v ''total_output_tokens'' 0 of
             Inl e \<Rightarrow> st1
           | Inr b \<Rightarrow>
               (let st2 = st1\<lparr>ss_output_tokens := word_of_int b\<rparr> in
                case int_value J v ''total_tool_calls'' 0 of
                  Inl e \<Rightarrow> st2
                | Inr c \<Rightarrow>
                    (let st3 = st2\<lparr>ss_tool_calls := c\<rparr> in
                     case int_value J v ''total_turns'' 0 of
                       Inl e \<Rightarrow> st3
                     | Inr d \<Rightarrow> st3\<lparr>ss_turns := d\<rparr>))))"

definition restore_data ::
  "('j, 'z) jlib_scheme \<Rightarrow> 'j \<Rightarrow> 'w app_state \<Rightarrow> 'w app_state option" where
  "restore_data J v s =
     (let s1 = s\<lparr>as_messages := []\<rparr>;
          stats = (\<lambda>s. if j_contains J v ''stats''
                       then (case j_at J v ''stats'' of
                               None \<Rightarrow> s | Some x \<Rightarrow> s\<lparr>as_stats := restore_stats J x (as_stats s)\<rparr>)
                       else s)
      in if j_contains J v ''messages''
         then (case j_at J v ''messages'' of
                 None \<Rightarrow> Some s1
               | Some x \<Rightarrow>
                   map_option (\<lambda>(r, ms). case r of
                       Inl e \<Rightarrow> s1\<lparr>as_messages := ms\<rparr>
                     | Inr _ \<Rightarrow> stats (s1\<lparr>as_messages := ms\<rparr>))
                     (restore_messages J (j_elems J x) []))
         else Some (stats s1))"

definition restore_session ::
  "('j, 'z) jlib_scheme \<Rightarrow> fs_env \<Rightarrow> string \<Rightarrow> fsys \<Rightarrow> 'w app_state \<Rightarrow> 'w app_state option" where
  "restore_session J e i w s =
     (let path = session_path (sc_working_directory (as_session s)) i;
          named = s\<lparr>as_session := (as_session s)\<lparr>sc_session_id := i\<rparr>\<rparr>
      in if \<not> file_exists w path then Some named
         else (case read_file e w path of
             None \<Rightarrow> Some s
           | Some text \<Rightarrow>
               (case j_parse J text of
                  Inl _ \<Rightarrow> Some s
                | Inr v \<Rightarrow>
                    (case str_value J v ''working_directory'' (sc_working_directory (as_session s)) of
                       Inl _ \<Rightarrow> Some named
                     | Inr dir \<Rightarrow>
                         restore_data J v (named\<lparr>as_session := (as_session named)\<lparr>sc_working_directory := dir\<rparr>\<rparr>)))))"

section \<open>A saved session comes back without its tool calls\<close>

definition flattened :: "message \<Rightarrow> message" where
  "flattened m = (blank_message (msg_role m))\<lparr>msg_content := [make_text (text_content m)]\<rparr>"

definition session_laws :: "('j, 'z) jlib_scheme \<Rightarrow> bool" where
  "session_laws J = (law_set J \<and> law_object J \<and> law_strings J \<and> law_ints J \<and> law_value J \<and>
     law_value_int J \<and> law_arrays J \<and> law_printable J)"

text \<open>What is written can be printed.\<close>

definition utf8_session :: "'w app_state \<Rightarrow> bool" where
  "utf8_session s =
     (utf8 (sc_session_id (as_session s)) \<and> utf8 (sc_working_directory (as_session s)) \<and>
      (\<forall>m\<in>set (drop (length (as_messages s) - 200) (as_messages s)). utf8 (text_content m)))"

lemma session_printable:
  assumes "session_laws J"
  shows "j_printable J (session_json J s) = utf8_session s"
proof -
  have laws: "law_set J" "law_printable J" using assms by (simp_all add: session_laws_def)
  have "j_printable J (saved_message J m) = utf8 (text_content m)" for m
    unfolding saved_message_def by (subst obj_printable [OF laws]) (simp_all add: printableD [OF laws(2)] byte_in_def)
  moreover have "j_printable J (saved_stats J st)" for st
    unfolding saved_stats_def by (subst printableD(7) [OF laws(2)]) (simp_all add: printableD [OF laws(2)] byte_in_def)
  ultimately show ?thesis
    unfolding session_json_def
    by (subst obj_printable [OF laws])
      (simp_all add: printableD [OF laws(2)] utf8_session_def list_all_iff byte_in_def)
qed

lemma role_of_value [simp]: "role_of (int (role_value r)) = Some r"
  by (cases r) (simp_all add: role_of_def)

lemma saved_message_read:
  assumes "session_laws J"
  shows "int_value J (saved_message J m) ''role'' 0 = Inr (int (role_value (msg_role m))) \<and>
    str_value J (saved_message J m) ''content'' [] = Inr (text_content m)"
proof -
  let ?kvs = "[(''role'', j_int J (int (role_value (msg_role m)))), (''content'', j_string J (text_content m))]"
  have laws: "law_set J" "law_strings J" "law_ints J" "law_value J" "law_value_int J"
    using assms by (simp_all add: session_laws_def)
  note members = obj_members [OF laws(1), of ?kvs, folded saved_message_def]
  have "int (role_value (msg_role m)) < 2 ^ 31" by (cases "msg_role m") simp_all
  then have "j_get_int J (j_int J (int (role_value (msg_role m)))) = Some (int (role_value (msg_role m)))"
    using laws(3) by (simp add: law_ints_def)
  then show ?thesis
    using members laws(2,4,5)
    by (simp add: int_value_def str_value_def law_value_def law_value_int_def law_strings_def)
qed

lemma restore_saved_messages:
  assumes "session_laws J"
  shows "restore_messages J (map (saved_message J) ms) acc = Some (Inr (), acc @ map flattened ms)"
  by (induction ms arbitrary: acc) (simp_all add: saved_message_read [OF assms] flattened_def)

lemma int_of_members:
  assumes "session_laws J" and "j_is_object J v" and "j_contains J v k" and "j_at J v k = Some (j_int J i)"
    and "- (2 ^ 31) \<le> i" and "i < 2 ^ 31"
  shows "int_value J v k d = Inr i"
  using assms by (simp add: session_laws_def int_value_def law_value_int_def law_ints_def)

definition small :: "int \<Rightarrow> bool" where
  "small i = (- (2 ^ 31) \<le> i \<and> i < 2 ^ 31)"

lemma restore_saved_stats:
  assumes "session_laws J" and "small (sint (ss_input_tokens st))" and "small (sint (ss_output_tokens st))"
    and "small (ss_tool_calls st)" and "small (ss_turns st)"
  shows "restore_stats J (saved_stats J st) st' =
    st'\<lparr>ss_input_tokens := ss_input_tokens st, ss_output_tokens := ss_output_tokens st,
        ss_tool_calls := ss_tool_calls st, ss_turns := ss_turns st\<rparr>"
proof -
  have "law_object J" using assms(1) by (simp add: session_laws_def)
  then have obj: "j_is_object J (saved_stats J st)"
      "j_contains J (saved_stats J st) k = (k \<in> {''total_input_tokens'', ''total_output_tokens'', ''total_tool_calls'', ''total_turns''})"
      "j_at J (saved_stats J st) ''total_input_tokens'' = Some (j_int J (sint (ss_input_tokens st)))"
      "j_at J (saved_stats J st) ''total_output_tokens'' = Some (j_int J (sint (ss_output_tokens st)))"
      "j_at J (saved_stats J st) ''total_tool_calls'' = Some (j_int J (ss_tool_calls st))"
      "j_at J (saved_stats J st) ''total_turns'' = Some (j_int J (ss_turns st))" for k
    by (simp_all add: law_object_def saved_stats_def)
  note ints = int_of_members [OF assms(1) obj(1)]
  have "int_value J (saved_stats J st) ''total_input_tokens'' 0 = Inr (sint (ss_input_tokens st))"
    "int_value J (saved_stats J st) ''total_output_tokens'' 0 = Inr (sint (ss_output_tokens st))"
    "int_value J (saved_stats J st) ''total_tool_calls'' 0 = Inr (ss_tool_calls st)"
    "int_value J (saved_stats J st) ''total_turns'' 0 = Inr (ss_turns st)"
    using assms(2-5) by (auto intro!: ints simp: obj small_def)
  then show ?thesis by (simp add: restore_stats_def)
qed

text \<open>
  C35: A session whose texts are UTF-8 that was saved, with room on the disk, and is restored by its identifier in the same
  directory: the last two hundred messages come back with their roles, each cut down to the text
  of its text blocks, so that no tool call and no tool result is left; identifier, directory and
  the counts come back as they were, as long as these fit in 32 bits.
\<close>

theorem session_roundtrip:
  fixes s s' :: "'w app_state"
  assumes "session_laws J" and "\<forall>v. j_printable J v \<longrightarrow> j_parse J (print v) = Inr v" and "utf8_session s"
    and "mkdir" and "fe_temp_opens e" and "fe_disk_left e = None" and "fe_rename_works e" and "fe_readable e"
    and "sc_working_directory (as_session s') = sc_working_directory (as_session s)"
    and "small (sint (ss_input_tokens (as_stats s)))" and "small (sint (ss_output_tokens (as_stats s)))"
    and "small (ss_tool_calls (as_stats s))" and "small (ss_turns (as_stats s))"
  shows "\<exists>r. restore_session J e (sc_session_id (as_session s)) (save_session J print e mkdir s w) s' = Some r \<and>
    as_messages r = map flattened (drop (length (as_messages s) - 200) (as_messages s)) \<and>
    (\<forall>m\<in>set (as_messages r). tool_calls m = [] \<and> (\<exists>t. msg_content m = [make_text t])) \<and>
    sc_session_id (as_session r) = sc_session_id (as_session s) \<and>
    sc_working_directory (as_session r) = sc_working_directory (as_session s) \<and>
    as_stats r = (as_stats s')\<lparr>ss_input_tokens := ss_input_tokens (as_stats s),
      ss_output_tokens := ss_output_tokens (as_stats s), ss_tool_calls := ss_tool_calls (as_stats s),
      ss_turns := ss_turns (as_stats s)\<rparr>"
proof -
  define path where "path = session_path (sc_working_directory (as_session s)) (sc_session_id (as_session s))"
  define ms where "ms = drop (length (as_messages s) - 200) (as_messages s)"
  let ?w = "save_session J print e mkdir s w"
  have printed: "pretty_json J print (session_json J s) = Inr (print (session_json J s))"
    and reads: "j_parse J (print (session_json J s)) = Inr (session_json J s)"
    using session_printable [OF assms(1), of s] assms(2,3) by (simp_all add: pretty_json_def)
  have "?w path = Some \<lparr>f_content = print (session_json J s), f_mtime = fe_now e\<rparr>"
    using assms(4-7) printed by (simp add: save_session_def Let_def path_def [symmetric] rename_file_def
        write_stream_def written_def)
  then have saved: "file_exists ?w path" "read_file e ?w path = Some (print (session_json J s))"
    using assms(8) by (simp_all add: file_exists_def read_file_def)
  have laws: "law_set J" "law_strings J" "law_value J" "law_arrays J"
    using assms(1) by (simp_all add: session_laws_def)
  let ?kvs = "[(''session_id'', j_string J (sc_session_id (as_session s))),
       (''working_directory'', j_string J (sc_working_directory (as_session s))),
       (''messages'', j_array J (map (saved_message J) ms)), (''stats'', saved_stats J (as_stats s))]"
  have json: "session_json J s = obj_from J ?kvs" by (simp add: session_json_def ms_def)
  note members = obj_members [OF laws(1), of ?kvs, folded json]
  have dir: "str_value J (session_json J s) ''working_directory'' d = Inr (sc_working_directory (as_session s))" for d
    using members laws(2,3) by (simp add: str_value_def law_value_def law_strings_def)
  have data: "restore_data J (session_json J s) t =
      Some (t\<lparr>as_messages := map flattened ms, as_stats := restore_stats J (saved_stats J (as_stats s)) (as_stats t)\<rparr>)"
    for t :: "'w app_state"
    using members laws(4) by (simp add: restore_data_def Let_def law_arrays_def restore_saved_messages [OF assms(1)])
  let ?r = "s'\<lparr>as_session := (as_session s')\<lparr>sc_session_id := sc_session_id (as_session s),
       sc_working_directory := sc_working_directory (as_session s)\<rparr>, as_messages := map flattened ms,
     as_stats := restore_stats J (saved_stats J (as_stats s)) (as_stats s')\<rparr>"
  have "restore_session J e (sc_session_id (as_session s)) ?w s' = Some ?r"
    using saved reads assms(9) by (simp add: restore_session_def Let_def path_def [symmetric] dir data)
  moreover have "tool_calls (flattened m) = [] \<and> (\<exists>t. msg_content (flattened m) = [make_text t])" for m
    by (auto simp: flattened_def tool_calls_eq)
  ultimately show ?thesis
    using restore_saved_stats [OF assms(1,10-13)] by (intro exI [of _ ?r]) (auto simp: ms_def)
qed

definition sample_session :: "message list \<Rightarrow> unit app_state" where
  "sample_session ms = \<lparr>as_messages = ms, as_session = \<lparr>sc_session_id = ''i'', sc_working_directory = ''/d'',
       sc_additional_directories = [], sc_model = \<lparr>model_id = [], max_tokens = 0, thinking = Disabled,
         thinking_budget = 0, temperature = 0, top_k = 0, top_p = 0\<rparr>,
       sc_permission_mode = [], sc_theme = []\<rparr>,
     as_stats = fresh_stats 0, as_costs = new_tracker, as_callbacks = []\<rparr>"

text \<open>A message with a text and a tool call.\<close>

lemma session_roundtrip_witness:
  "let m = (blank_message Assistant)\<lparr>msg_content := [make_text ''hi'', empty_block\<lparr>cb_type := ToolUse\<rparr>]\<rparr>
   in length (tool_calls m) = 1 \<and>
     (\<exists>r. restore_session coding_jlib (sample_fs_env None) ''i''
         (save_session coding_jlib (j_dump coding_jlib) (sample_fs_env None) True (sample_session [m]) Map.empty)
         (sample_session []) = Some r \<and>
       map text_content (as_messages r) = [''hi''] \<and> map tool_calls (as_messages r) = [[]])"
proof -
  let ?m = "(blank_message Assistant)\<lparr>msg_content := [make_text ''hi'', empty_block\<lparr>cb_type := ToolUse\<rparr>]\<rparr>"
  have "session_laws coding_jlib" using coding_laws by (simp add: session_laws_def)
  moreover have "\<forall>v. j_printable coding_jlib v \<longrightarrow> j_parse coding_jlib (j_dump coding_jlib v) = Inr v"
    using coding_laws by (simp add: law_parse_dump_def)
  ultimately obtain r where r: "restore_session coding_jlib (sample_fs_env None) ''i''
       (save_session coding_jlib (j_dump coding_jlib) (sample_fs_env None) True (sample_session [?m]) Map.empty)
       (sample_session []) = Some r"
    "as_messages r = map flattened [?m]"
    using session_roundtrip [where J = coding_jlib and print = "j_dump coding_jlib" and mkdir = True and
        e = "sample_fs_env None" and s' = "sample_session []" and s = "sample_session [?m]" and w = Map.empty]
    by (auto simp: sample_session_def sample_fs_env_def fresh_stats_def small_def utf8_session_def
        text_content_eq empty_block_def byte_in_def)
  then show ?thesis by (simp add: flattened_def text_content_eq tool_calls_eq empty_block_def)
qed

text \<open>
  A file without a directory of the right type: the state has taken the identifier by then, and
  keeps its own messages.
\<close>

lemma failed_restore_renames:
  assumes "file_exists w (session_path (sc_working_directory (as_session s)) i)"
    and "read_file e w (session_path (sc_working_directory (as_session s)) i) = Some t"
    and "j_parse J t = Inr v"
    and "str_value J v ''working_directory'' (sc_working_directory (as_session s)) = Inl x"
  shows "\<exists>r. restore_session J e i w s = Some r \<and> sc_session_id (as_session r) = i \<and>
    as_messages r = as_messages s"
  using assms by (simp add: restore_session_def Let_def)

end
