(* ===== verification/Bash_Tool.thy ===== *)
theory Bash_Tool
  imports Process Files Query_Engine Json_Sample
begin

text \<open>
  The Bash tool: \<open>src/tools/bash_tool.h\<close> and \<open>bash_tool.cpp\<close>. Its state is the directory of the
  last \<open>cd\<close>. Arguments: the directories that exist, with their canonical names; the operating
  system and the temporary file of theory \<open>Process\<close>; and the formatted time of the run, which
  the code computes with floating-point numbers. A call that never returns is \<open>None\<close>.
\<close>

section \<open>Checks\<close>

definition dangerous_patterns :: "string list" where
  "dangerous_patterns =
     [''rm -rf /'', ''rm -rf /*'', ''mkfs.'', ''dd if=/dev/zero'', '':(){ :|:& };:'', ''> /dev/sda'',
      ''> /dev/sdb'', ''chmod -r 777 /'', ''mv / /dev/null'', ''> /etc/passwd'', ''shutdown '',
      ''reboot '', ''halt '', ''poweroff '', ''iptables -F'', '':(){}'', [CHR 0x5C] @ ''nc / '']"

definition strip_comment :: "string \<Rightarrow> string" where
  "strip_comment s = (case str_find ''#'' s of None \<Rightarrow> s | Some p \<Rightarrow> take p s)"

definition is_dangerous :: "string \<Rightarrow> bool" where
  "is_dangerous command =
     list_ex (contains_str (strip_comment (to_lower command))) dangerous_patterns"

definition danger_warning :: string where
  "danger_warning = ''This command appears to be potentially dangerous. Execution denied for safety.''"

definition truncate_output :: "string \<Rightarrow> nat \<Rightarrow> string" where
  "truncate_output s max_bytes =
     (if length s \<le> max_bytes then s
      else take max_bytes s @ [CHR 0x0A, CHR 0x0A] @ ''[Output truncated: '' @ nat_to_string (length s) @
        '' chars total, showing first '' @ nat_to_string max_bytes @ '']'')"

section \<open>Execution\<close>

record bash_env =
  be_home :: "string option"
  be_directory :: "string \<Rightarrow> string option"
  be_os :: "string \<Rightarrow> os"
  be_tmp :: "string option"
  be_time :: "process_result \<Rightarrow> string"
  be_what :: "cpp_exn \<Rightarrow> string"

definition clamp_timeout :: "int \<Rightarrow> int" where
  "clamp_timeout timeout = (let t = min timeout 600 in if t < 1 then 120 else t)"

definition base_directory :: "string \<Rightarrow> tool_context \<Rightarrow> string" where
  "base_directory cwd ctx = (if cwd = [] then tx_working_directory ctx else cwd)"

text \<open>\<open>util::trim(target)\<close> returns the trimmed text and is ignored.\<close>

definition change_directory :: "bash_env \<Rightarrow> tool_context \<Rightarrow> string \<Rightarrow> string \<Rightarrow> tool_output \<times> string" where
  "change_directory e ctx trimmed cwd =
     (let target = drop 3 trimmed;
          d0 = expand_home (be_home e) target;
          d = (if is_absolute d0 then d0 else path_append (base_directory cwd ctx) d0)
      in case be_directory e d of
           None \<Rightarrow> (tool_err (''No such directory: '' @ target), cwd)
         | Some p \<Rightarrow> (tool_ok (''Changed directory to '' @ p), p))"

definition run_options :: "int \<Rightarrow> tool_context \<Rightarrow> string \<Rightarrow> process_options" where
  "run_options timeout ctx cwd =
     default_options\<lparr>po_working_directory := base_directory cwd ctx, po_timeout_seconds := timeout,
       po_max_output_bytes := 50000, po_merge_stderr := False, po_extra_env := tx_extra_env ctx\<rparr>"

definition run_output :: "process_result \<Rightarrow> string" where
  "run_output r =
     (let out = (if pr_stdout r \<noteq> [] then truncate_output (pr_stdout r) 50000 else [])
      in if pr_stderr r \<noteq> []
         then out @ (if out \<noteq> [] then [CHR 0x0A] else []) @ ''[stderr]'' @ [CHR 0x0A] @
           truncate_output (pr_stderr r) 10000
         else out)"

definition format_run :: "int \<Rightarrow> (process_result \<Rightarrow> string) \<Rightarrow> process_result \<Rightarrow> tool_output" where
  "format_run timeout time r =
     (if pr_timed_out r
      then \<lparr>to_success = True,
             to_content = run_output r @ [CHR 0x0A, CHR 0x0A] @ ''Command timed out after '' @
               int_to_string timeout @ '' seconds'',
             to_error_message = ''Timeout'', to_is_error = True\<rparr>
      else if pr_exit_code r \<noteq> 0
      then \<lparr>to_success = True,
             to_content = run_output r @ [CHR 0x0A, CHR 0x0A] @ ''Command exited with code '' @
               int_to_string (pr_exit_code r) @ '' ('' @ time r @ '')'',
             to_error_message = [], to_is_error = True\<rparr>
      else tool_ok (run_output r @ [CHR 0x0A] @ ''('' @ time r @ '')''))"

definition bash_run ::
  "bash_env \<Rightarrow> tool_context \<Rightarrow> string \<Rightarrow> string \<Rightarrow> int \<Rightarrow> string \<Rightarrow> (tool_output \<times> string) option" where
  "bash_run e ctx input_json command timeout0 cwd =
     (if command = [] then Some (tool_err ''No command specified'', cwd)
      else (let timeout = clamp_timeout timeout0; trimmed = trim command in
        if is_dangerous command \<and> tx_check_permission ctx ''Bash'' input_json = Denied
        then Some (tool_err danger_warning, cwd)
        else if starts_with trimmed ''cd '' then Some (change_directory e ctx trimmed cwd)
        else map_option (\<lambda>r. (format_run timeout (be_time e) r, cwd))
               (exec_command (be_os e) (be_tmp e) command (run_options timeout ctx cwd))))"

definition bash_execute ::
  "('j, 'z) jlib_scheme \<Rightarrow> bash_env \<Rightarrow> string \<Rightarrow> tool_context \<Rightarrow> string \<Rightarrow>
   ((cpp_exn + tool_output) \<times> string) option" where
  "bash_execute J e input_json ctx cwd =
     (case bind_exn (parse_json J input_json) (\<lambda>j.
           bind_exn (str_value J j ''command'' []) (\<lambda>command.
           bind_exn (int_value J j ''timeout'' 120) (\<lambda>timeout. Inr (command, timeout)))) of
        Inl x \<Rightarrow> Some (caught_json (be_what e) (Inl x), cwd)
      | Inr (command, timeout) \<Rightarrow>
          map_option (\<lambda>(out, cwd'). (Inr out, cwd')) (bash_run e ctx input_json command timeout cwd))"

section \<open>The output of a failing command\<close>

text \<open>
  A command that exits with another code than zero: the tool returns its output and the code,
  but as an error without a message, and the engine passes only the message of an error on. What
  the assistant is told is the empty text. After a timeout it is told \<open>Timeout\<close> alone.
\<close>

lemma format_run_failed:
  "pr_timed_out r \<or> pr_exit_code r \<noteq> 0 \<Longrightarrow>
   result_of_output i (format_run timeout time r) =
     error_result i (if pr_timed_out r then ''Timeout'' else [])"
  by (auto simp: format_run_def result_of_output_def error_result_def)

theorem failing_output_lost:
  assumes "bash_run e ctx input_json command timeout cwd = Some (out, cwd')"
    and "\<not> is_dangerous command" and "\<not> starts_with (trim command) ''cd ''" and "command \<noteq> []"
    and "exec_command (be_os e) (be_tmp e) command (run_options (clamp_timeout timeout) ctx cwd) = Some r"
  shows "cwd' = cwd \<and>
    (\<not> pr_timed_out r \<and> pr_exit_code r = 0 \<longrightarrow> tr_content (result_of_output i out) = to_content out) \<and>
    (\<not> pr_timed_out r \<and> pr_exit_code r \<noteq> 0 \<longrightarrow>
       to_content out \<noteq> [] \<and> result_of_output i out = error_result i []) \<and>
    (pr_timed_out r \<longrightarrow> result_of_output i out = error_result i ''Timeout'')"
proof -
  have out: "out = format_run (clamp_timeout timeout) (be_time e) r" "cwd' = cwd"
    using assms by (auto simp: bash_run_def Let_def)
  then show ?thesis
    using format_run_failed [of r i "clamp_timeout timeout" "be_time e"]
    by (auto simp: format_run_def result_of_output_def tool_ok_def)
qed

section \<open>Output that is cut off inside a character\<close>

text \<open>
  A command that succeeds and prints more than 50000 bytes of UTF-8, of which the first left out is
  the rest of a character: the content of its result is not UTF-8, and no request that holds it can
  be built (see \<open>Sendable\<close>).
\<close>

theorem cut_output_unsendable:
  assumes "bash_run e ctx input_json command timeout cwd = Some (out, cwd')"
    and "\<not> is_dangerous command" and "\<not> starts_with (trim command) ''cd ''" and "command \<noteq> []"
    and "be_tmp e = Some name"
  defines "os \<equiv> be_os e (command_script command)" and "opts \<equiv> run_options (clamp_timeout timeout) ctx cwd"
  assumes "exec_fork os ''/bin/bash'' [name] opts = Some (r, t)" and "success r"
    and "written (os ''/bin/bash'' [name] opts) Out = s"
    and "utf8 s" and "50000 < length s" and "byte_in 0x80 0xBF (s ! 50000)"
  shows "\<not> utf8 (tr_content (result_of_output i out)) \<and>
    \<not> sendable (create_tool_result_message now (before @ result_of_output i out # after))"
proof -
  have out: "out = format_run (clamp_timeout timeout) (be_time e) r"
    using assms(1-5,8) by (auto simp: bash_run_def exec_command_def os_def opts_def Let_def)
  have "pr_stdout r = take 50000 s"
    using success_output [OF assms(8,9)] assms(10)
    by (simp add: opts_def run_options_def default_options_def)
  moreover from this assms(12) have "length (pr_stdout r) = 50000" "pr_stdout r \<noteq> []" by auto
  ultimately have "\<exists>u. run_output r @ [CHR 0x0A] @ v = take 50000 s @ CHR 0x0A # u" for v
    by (auto simp: run_output_def truncate_output_def Let_def simp del: take_eq_Nil)
  then have "\<not> utf8 (run_output r @ [CHR 0x0A] @ v)" for v
    using utf8_cut [OF assms(11-13)] by metis
  then have "\<not> utf8 (tr_content (result_of_output i out))"
    using assms(9) by (simp add: out format_run_def success_def result_of_output_def tool_ok_def)
  then show ?thesis
    by (simp add: sendable_def create_tool_result_message_def blank_message_def utf8_block_def empty_block_def)
qed

section \<open>The check for dangerous commands\<close>

lemma to_lower_append: "to_lower (xs @ ys) = to_lower xs @ to_lower ys"
  by (simp add: to_lower_def)

lemma strip_comment_append: "strip_comment (xs @ CHR ''#'' # ys) = strip_comment xs"
proof (cases "CHR ''#'' \<in> set xs")
  case True
  then obtain us vs where "xs = us @ CHR ''#'' # vs" "CHR ''#'' \<notin> set us"
    by (metis split_list_first)
  then show ?thesis by (simp add: strip_comment_def str_find_char)
next
  case False
  moreover from this have "str_find ''#'' xs = None" by (simp only: str_find_char_None not_False_eq_True)
  ultimately show ?thesis by (simp add: strip_comment_def str_find_char)
qed

text \<open>
  Nothing after the first number sign is checked, wherever it stands: quoted, it starts no
  comment for the shell. And the rule for \<open>iptables -F\<close> never applies, since the text it is looked
  for in has no capital letters.
\<close>

lemma lower_no_capital: "CHR ''F'' \<notin> set (to_lower s)"
proof -
  have "char_lower c \<noteq> CHR ''F''" for c
  proof (cases "65 \<le> (of_char c :: nat) \<and> (of_char c :: nat) \<le> 90")
    case True
    then have "(of_char (char_lower c) :: nat) = of_char c + 32"
      by (simp add: char_lower_def Let_def)
    moreover have "(of_char CHR ''F'' :: nat) = 70" by simp
    ultimately have "(of_char (char_lower c) :: nat) \<noteq> of_char CHR ''F''"
      using True by linarith
    then show ?thesis by metis
  next
    case False
    moreover have "(of_char CHR ''F'' :: nat) = 70" by simp
    ultimately show ?thesis by (auto simp: char_lower_def Let_def)
  qed
  then show ?thesis unfolding to_lower_def set_map by (metis imageE)
qed

theorem danger_check_evaded:
  "is_dangerous (xs @ CHR ''#'' # ys) = is_dangerous xs \<and>
   \<not> contains_str (strip_comment (to_lower s)) ''iptables -F''"
proof
  have "to_lower (xs @ CHR ''#'' # ys) = to_lower xs @ CHR ''#'' # to_lower ys"
    by (simp add: to_lower_def char_lower_def)
  then show "is_dangerous (xs @ CHR ''#'' # ys) = is_dangerous xs"
    by (simp only: is_dangerous_def strip_comment_append)
  have "set (strip_comment t) \<subseteq> set t" for t
    by (auto simp: strip_comment_def dest: in_set_takeD split: option.splits)
  then have "CHR ''F'' \<notin> set (strip_comment (to_lower s))" using lower_no_capital by blast
  then show "\<not> contains_str (strip_comment (to_lower s)) ''iptables -F''"
    by (auto simp: contains_str_iff)
qed

section \<open>Changing the directory\<close>

text \<open>
  A command that starts with \<open>cd\<close> is never run, whatever follows: the rest of the line is the
  name of the directory. The directory found is that of the later calls, and any other call
  leaves it as it is.
\<close>

theorem cd_runs_nothing:
  assumes "bash_run e ctx input_json command timeout cwd = Some (out, cwd')"
  shows "(starts_with (trim command) ''cd '' \<longrightarrow>
      bash_run (e\<lparr>be_os := os'\<rparr>) ctx input_json command timeout cwd = Some (out, cwd')) \<and>
    (cwd' \<noteq> cwd \<longrightarrow> starts_with (trim command) ''cd '' \<and>
      out = tool_ok (''Changed directory to '' @ cwd') \<and> (\<exists>d. be_directory e d = Some cwd'))"
  using assms
  by (auto simp: bash_run_def change_directory_def Let_def split: if_splits option.splits)

section \<open>Witnesses\<close>

definition sample_run :: "int \<Rightarrow> bash_env" where
  "sample_run code =
     \<lparr>be_home = None, be_directory = (\<lambda>d. if d = ''/w/src'' then Some d else None),
      be_os = (\<lambda>script program args opts. \<lparr>ch_pipes_ok = True, ch_stdin_ok = True, ch_fork_ok = True,
        ch_strerror = [], ch_stdout = \<lparr>ps_chunks = [(1, ''out'')], ps_closed = Some 2\<rparr>,
        ch_stderr = \<lparr>ps_chunks = [], ps_closed = Some 2\<rparr>, ch_exit = Some (2, Some code),
        ch_terminated = None, ch_late = (\<lambda>_. 0)\<rparr>),
      be_tmp = Some ''t'', be_time = (\<lambda>r. ''1s''), be_what = (\<lambda>x. [])\<rparr>"

definition sample_ctx :: tool_context where
  "sample_ctx = \<lparr>tx_working_directory = ''/w'', tx_session_config = undefined, tx_extra_env = [],
     tx_check_permission = (\<lambda>n i. Allowed)\<rparr>"

text \<open>A compiler that fails: what it printed does not reach the assistant.\<close>

lemma failing_output_lost_witness:
  "\<exists>out. bash_run (sample_run 2) sample_ctx [] ''make'' 120 [] = Some (out, []) \<and>
    prefix ''out'' (to_content out) \<and> result_of_output ''1'' out = error_result ''1'' []"
proof -
  let ?opts = "run_options (clamp_timeout 120) sample_ctx []"
  let ?r = "\<lparr>pr_exit_code = 2, pr_stdout = ''out'', pr_stderr = [], pr_timed_out = False\<rparr>"
  have harmless: "\<not> is_dangerous ''make''" "\<not> starts_with (trim ''make'') ''cd ''" by code_simp+
  have run: "exec_command (be_os (sample_run 2)) (be_tmp (sample_run 2)) ''make'' ?opts = Some ?r"
    by (simp add: exec_command_def exec_fork_def sample_run_def sample_ctx_def run_options_def
        default_options_def clamp_timeout_def open_fds_def deadline_of_def remaining_def ready_by_def
        ready_time_def stream_of_def store_def Let_def)
  have "tx_check_permission sample_ctx ''Bash'' [] \<noteq> Denied" by (simp add: sample_ctx_def)
  then have bash: "bash_run (sample_run 2) sample_ctx [] ''make'' 120 [] =
      Some (format_run (clamp_timeout 120) (be_time (sample_run 2)) ?r, [])"
    using harmless run by (simp add: bash_run_def)
  have "prefix ''out'' (to_content (format_run (clamp_timeout 120) (be_time (sample_run 2)) ?r))"
    by (simp add: format_run_def run_output_def truncate_output_def)
  with bash failing_output_lost [OF bash harmless _ run] show ?thesis by simp
qed

lemma cd_runs_nothing_witness:
  "bash_run (sample_run 0) sample_ctx [] ''cd src'' 120 [] =
     Some (tool_ok ''Changed directory to /w/src'', ''/w/src'') \<and>
   bash_run (sample_run 1) sample_ctx [] ''cd src'' 120 [] =
     Some (tool_ok ''Changed directory to /w/src'', ''/w/src'')"
proof -
  have harmless: "\<not> is_dangerous ''cd src''" and cd: "trim ''cd src'' = ''cd src''"
    and is_cd: "starts_with ''cd src'' ''cd ''" and target: "drop 3 ''cd src'' = ''src''"
    and home: "expand_home None ''src'' = ''src''" and relative: "\<not> is_absolute ''src''"
    and joined: "path_append ''/w'' ''src'' = ''/w/src''" by code_simp+
  have env: "be_home (sample_run c) = None" "be_directory (sample_run c) ''/w/src'' = Some ''/w/src''"
    "base_directory [] sample_ctx = ''/w''" for c
    by (simp_all add: sample_run_def sample_ctx_def base_directory_def)
  have change: "change_directory (sample_run 0) sample_ctx ''cd src'' [] =
      (tool_ok ''Changed directory to /w/src'', ''/w/src'')"
    by (simp only: change_directory_def target env home relative joined Let_def if_False
        option.case append.simps)
  have run: "bash_run (sample_run 0) sample_ctx [] ''cd src'' 120 [] =
     Some (tool_ok ''Changed directory to /w/src'', ''/w/src'')"
    by (simp only: bash_run_def Let_def harmless cd is_cd change list.distinct simp_thms if_True if_False)
  have other: "sample_run 1 = (sample_run 0)\<lparr>be_os := be_os (sample_run 1)\<rparr>"
    by (simp add: sample_run_def)
  have "bash_run (sample_run 1) sample_ctx [] ''cd src'' 120 [] =
     Some (tool_ok ''Changed directory to /w/src'', ''/w/src'')"
    using cd_runs_nothing [OF run, of "be_os (sample_run 1)"]
    by (simp only: other [symmetric] cd is_cd simp_thms)
  with run show ?thesis by blast
qed

text \<open>A listing of 50001 bytes that ends with an accented letter.\<close>

lemma accented_text:
  "let s = replicate n CHR ''a'' @ [CHR 0xC3, CHR 0xA9] in
   utf8 s \<and> length s = n + 2 \<and> byte_in 0x80 0xBF (s ! (n + 1))"
proof -
  have "utf8 (replicate n CHR ''a'' @ s) = utf8 s" for s by (induction n) simp_all
  then show ?thesis by (simp add: nth_append byte_in_def utf8_second_def)
qed

lemma cut_output_unsendable_witness:
  "\<exists>s out. let e = (sample_run 0)\<lparr>be_os := \<lambda>script program args opts. sample_child [(1, s)] (Some 2) (Some (2, Some 0))\<rparr>
    in bash_run e sample_ctx [] ''ls'' 120 [] = Some (out, []) \<and>
      \<not> utf8 (tr_content (result_of_output ''1'' out))"
proof -
  obtain n where n: "n = (49999 :: nat)" by simp
  define s where "s = replicate n CHR ''a'' @ [CHR 0xC3, CHR 0xA9]"
  have s: "utf8 s" "length s = 50001" "byte_in 0x80 0xBF (s ! 50000)"
    using accented_text [of n, unfolded Let_def, folded s_def] unfolding n by simp_all
  let ?e = "(sample_run 0)\<lparr>be_os := \<lambda>script program args opts. sample_child [(1, s)] (Some 2) (Some (2, Some 0))\<rparr>"
  let ?opts = "run_options (clamp_timeout 120) sample_ctx []"
  have harmless: "\<not> is_dangerous ''ls''" "\<not> starts_with (trim ''ls'') ''cd ''" by code_simp+
  have tmp: "be_tmp ?e = Some ''t''" by (simp add: sample_run_def)
  have "\<exists>r t. exec_fork (be_os ?e (command_script ''ls'')) ''/bin/bash'' [''t''] ?opts = Some (r, t) \<and> success r"
    by (simp add: exec_fork_def sample_child_def sample_ctx_def run_options_def
        default_options_def clamp_timeout_def open_fds_def deadline_of_def remaining_def ready_by_def
        ready_time_def stream_of_def store_def success_def Let_def s(2))
  then obtain r t where run:
    "exec_fork (be_os ?e (command_script ''ls'')) ''/bin/bash'' [''t''] ?opts = Some (r, t)" "success r" by blast
  have "tx_check_permission sample_ctx ''Bash'' [] \<noteq> Denied" by (simp add: sample_ctx_def)
  then have bash: "bash_run ?e sample_ctx [] ''ls'' 120 [] =
      Some (format_run (clamp_timeout 120) (be_time ?e) r, [])"
    using harmless run(1) tmp by (simp add: bash_run_def exec_command_def)
  have "written (be_os ?e (command_script ''ls'') ''/bin/bash'' [''t''] ?opts) Out = s"
    by (simp add: written_def sample_child_def stream_of_def)
  from cut_output_unsendable [OF bash harmless _ tmp run this] s bash show ?thesis
    by (intro exI [of _ s]) (simp add: Let_def)
qed

end
