(* ===== verification/Commands.thy ===== *)
theory Commands
  imports String_Utils Effects
begin

text \<open>
  \<open>src/commands\<close>: the slash commands of the prompt with their aliases (\<open>CommandSystem\<close>), and the
  simpler \<open>CommandRegistry\<close>. A handler acts on a world \<open>'w\<close> and may throw; one that is not set is
  \<open>None\<close>. The texts of the help are bytes, in UTF-8.
\<close>

section \<open>CommandSystem\<close>

record 'w slash_command =
  sc_name :: string
  sc_description :: string
  sc_usage :: string
  sc_category :: string
  sc_aliases :: "string list"
  sc_handler :: "(string list \<Rightarrow> (int, 'w) effect) option"

definition matches :: "'w slash_command \<Rightarrow> string \<Rightarrow> bool" where
  "matches c input =
     (input = sc_name c \<or> input = CHR ''/'' # sc_name c \<or>
      list_ex (\<lambda>a. input = a \<or> input = CHR ''/'' # a) (sc_aliases c))"

type_synonym 'w command_table = "'w slash_command omap"

definition register_command :: "'w slash_command \<Rightarrow> 'w command_table \<Rightarrow> 'w command_table" where
  "register_command c cs = om_put (sc_name c) c cs"

text \<open>The first command, in the order of the names, with the alias.\<close>

fun find_alias :: "string \<Rightarrow> 'w command_table \<Rightarrow> 'w slash_command option" where
  "find_alias n [] = None"
| "find_alias n ((k, c) # cs) = (if n \<in> set (sc_aliases c) then Some c else find_alias n cs)"

definition lookup_command :: "string \<Rightarrow> 'w command_table \<Rightarrow> 'w slash_command option" where
  "lookup_command n cs =
     (case om_get cs n of Some c \<Rightarrow> Some c | None \<Rightarrow> find_alias n cs)"

definition command_parts :: "string \<Rightarrow> string \<times> string" where
  "command_parts s =
     (case str_find '' '' s of
        None \<Rightarrow> (s, [])
      | Some p \<Rightarrow> (take p s, drop (p + 1) s))"

definition command_args :: "string \<Rightarrow> string list" where
  "command_args args = (if args = [] then [] else split_char args CHR '' '')"

definition execute :: "'w command_table \<Rightarrow> string \<Rightarrow> (int, 'w) effect" where
  "execute cs input =
     (let trimmed = trim input in
      if trimmed = [] \<or> trimmed ! 0 \<noteq> CHR ''/'' then ret (-1)
      else (case command_parts (drop 1 trimmed) of (cmd_name, args) \<Rightarrow>
        (case lookup_command cmd_name cs of
           None \<Rightarrow> ret (-1)
         | Some c \<Rightarrow>
             (case sc_handler c of None \<Rightarrow> ret (-1) | Some h \<Rightarrow> h (command_args args)))))"

definition clipboard_sign :: string where
  "clipboard_sign = [CHR 0xF0, CHR 0x9F, CHR 0x93, CHR 0x8B]"

definition long_dash :: string where
  "long_dash = [CHR 0xE2, CHR 0x80, CHR 0x94]"

definition command_line :: "'w slash_command \<Rightarrow> string" where
  "command_line c =
     ''  /'' @ sc_name c @ concat (map (\<lambda>a. '', /'' @ a) (sc_aliases c)) @ '' '' @ long_dash @ '' '' @
     sc_description c @ [CHR 0x0A]"

definition group_by_category :: "'w command_table \<Rightarrow> 'w slash_command list omap" where
  "group_by_category cs =
     foldl (\<lambda>g kc. om_put (sc_category (snd kc))
         ((case om_get g (sc_category (snd kc)) of None \<Rightarrow> [] | Some l \<Rightarrow> l) @ [snd kc]) g) [] cs"

definition help_text :: "'w command_table \<Rightarrow> string" where
  "help_text cs =
     concat (map (\<lambda>(category, l). [CHR 0x0A] @ clipboard_sign @ '' '' @ category @ '':'' @ [CHR 0x0A] @
       concat (map command_line l)) (group_by_category cs))"

definition commands :: "'w command_table \<Rightarrow> 'w slash_command list" where
  "commands cs = om_vals cs"

definition find_command :: "'w command_table \<Rightarrow> string \<Rightarrow> 'w slash_command option" where
  "find_command cs n = om_get cs n"

section \<open>The commands of the program\<close>

definition builtin :: "string \<Rightarrow> string \<Rightarrow> string \<Rightarrow> string \<Rightarrow> string list \<Rightarrow> int \<Rightarrow> 'w slash_command" where
  "builtin name description usage category aliases code =
     \<lparr>sc_name = name, sc_description = description, sc_usage = usage, sc_category = category,
      sc_aliases = aliases, sc_handler = Some (\<lambda>args. ret code)\<rparr>"

definition builtins :: "'w slash_command list" where
  "builtins =
     [builtin ''help'' ''Show available commands'' ''/help'' ''general'' [''h''] 0,
      builtin ''quit'' ''Exit the application'' ''/quit'' ''general'' [''exit'', ''q''] 1,
      builtin ''clear'' ''Clear conversation history'' ''/clear'' ''session'' [] 100,
      builtin ''compact'' ''Compact conversation context'' ''/compact'' ''session'' [] 101,
      builtin ''status'' ''Show session statistics'' ''/status'' ''session'' [] 102,
      builtin ''model'' ''Show or change the model'' ''/model [model_id]'' ''config'' [] 103,
      builtin ''tools'' ''List available tools'' ''/tools'' ''info'' [] 104,
      builtin ''cost'' ''Show token usage and cost'' ''/cost'' ''info'' [] 105,
      builtin ''mcp'' ''Manage MCP servers'' ''/mcp [list|add|remove]'' ''mcp'' [] 106,
      builtin ''doctor'' ''Check system health and configuration'' ''/doctor'' ''debug'' [] 107,
      builtin ''bug'' ''Report a bug'' ''/bug'' ''general'' [] 108]"

definition register_builtins :: "'w command_table \<Rightarrow> 'w command_table" where
  "register_builtins cs = foldl (\<lambda>cs c. register_command c cs) cs builtins"

section \<open>CommandRegistry\<close>

record 'w simple_command =
  sm_name :: string
  sm_description :: string
  sm_handler :: "(string list \<Rightarrow> (int, 'w) effect) option"

definition registry_register ::
  "string \<Rightarrow> string \<Rightarrow> (string list \<Rightarrow> (int, 'w) effect) option \<Rightarrow> 'w simple_command list \<Rightarrow>
   'w simple_command list" where
  "registry_register name description handler cs =
     cs @ [\<lparr>sm_name = name, sm_description = description, sm_handler = handler\<rparr>]"

definition registry_names :: "'w simple_command list \<Rightarrow> string list" where
  "registry_names cs = map sm_name cs"

fun registry_execute :: "'w simple_command list \<Rightarrow> string \<Rightarrow> string list \<Rightarrow> (int, 'w) effect" where
  "registry_execute [] name args = ret 1"
| "registry_execute (c # cs) name args =
     (if sm_name c = name
      then (case sm_handler c of Some h \<Rightarrow> h args | None \<Rightarrow> ret 1)
      else registry_execute cs name args)"

section \<open>Dispatch\<close>

lemma register_all_commands:
  "om_get (foldl (\<lambda>cs c. register_command c cs) t cs) n =
     (case map_of (rev (map (\<lambda>c. (sc_name c, c)) cs)) n of Some c \<Rightarrow> Some c | None \<Rightarrow> om_get t n)"
proof -
  have "foldl (\<lambda>cs c. register_command c cs) t cs =
      foldl (\<lambda>t p. om_put (fst p) (snd p) t) t (map (\<lambda>c. (sc_name c, c)) cs)"
    by (induction cs arbitrary: t) (simp_all add: register_command_def)
  then show ?thesis using om.get_foldl_put [of t "map (\<lambda>c. (sc_name c, c)) cs" n] by simp
qed

text \<open>Words without spaces, joined with single spaces, are the arguments the handler gets.\<close>

lemma split_char_join:
  assumes "ws \<noteq> []" and "\<forall>w\<in>set ws. d \<notin> set w" and "last ws \<noteq> []"
  shows "split_char (join ws [d]) d = ws"
  using assms
proof (induction ws)
  case (Cons w ws)
  show ?case
  proof (cases ws)
    case Nil
    with Cons.prems have "takeWhile (\<lambda>c. c \<noteq> d) w = w" "dropWhile (\<lambda>c. c \<noteq> d) w = []" "w \<noteq> []"
      by (auto simp: takeWhile_eq_all_conv)
    moreover have "split_char [] d = []" by (subst split_char.simps) simp
    ultimately have "split_char w d = [w]"
      by (subst split_char.simps) (metis drop_Nil)
    with Nil show ?thesis by simp
  next
    case (Cons v vs)
    have "split_char (join ws [d]) d = ws" using Cons.IH Cons.prems Cons by simp
    moreover have "join (w # ws) [d] = w @ d # join ws [d]" using Cons by simp
    moreover have "takeWhile (\<lambda>c. c \<noteq> d) (w @ d # x) = w" "dropWhile (\<lambda>c. c \<noteq> d) (w @ d # x) = d # x" for x
      using Cons.prems by (auto simp: takeWhile_append dropWhile_append)
    ultimately show ?thesis by (simp add: split_char.simps [of "w @ d # join ws [d]"])
  qed
qed simp

lemma trim_padded:
  assumes "\<forall>c\<in>set pre \<union> set post. is_trim_ws c" and "x \<noteq> []"
    and "\<not> is_trim_ws (hd x)" and "\<not> is_trim_ws (last x)"
  shows "trim (pre @ x @ post) = x"
proof -
  have "dropWhile is_trim_ws (pre @ x @ post) = x @ post"
    using assms by (cases x) (simp_all add: dropWhile_append)
  moreover have "dropWhile is_trim_ws (rev (x @ post)) = rev x"
    using assms by (cases x rule: rev_cases) (simp_all add: dropWhile_append)
  ultimately show ?thesis by (simp add: trim_eq ltrim_dropWhile rtrim_dropWhile)
qed

lemma find_alias_find: "find_alias n cs = find (\<lambda>c. n \<in> set (sc_aliases c)) (commands cs)"
  by (induction cs) (auto simp: commands_def om_vals_def)

definition plain_word :: "string \<Rightarrow> bool" where
  "plain_word w = (w \<noteq> [] \<and> (\<forall>c\<in>set w. \<not> is_trim_ws c))"

lemma plain_word_space: "plain_word w \<Longrightarrow> CHR '' '' \<notin> set w"
  by (auto simp: plain_word_def is_trim_ws_def)

lemma join_last: "ws \<noteq> [] \<Longrightarrow> last ws \<noteq> [] \<Longrightarrow> join ws d \<noteq> [] \<and> last (join ws d) = last (last ws)"
  by (induction ws) (auto simp: join_Cons)

lemma execute_words:
  assumes "plain_word n" and "\<forall>w\<in>set ws. plain_word w" and "\<forall>c\<in>set pre \<union> set post. is_trim_ws c"
    and "lookup_command n cs = Some c" and "sc_handler c = Some h"
  shows "execute cs (pre @ (CHR ''/'' # join (n # ws) '' '') @ post) = h ws"
proof -
  let ?x = "CHR ''/'' # join (n # ws) '' ''"
  have words: "\<forall>w\<in>set (n # ws). plain_word w" using assms(1,2) by simp
  then have "last (n # ws) \<in> set (n # ws)" "plain_word (last (n # ws))"
    using last_in_set [of "n # ws"] by blast+
  then have "last (n # ws) \<noteq> []" "\<not> is_trim_ws (last (last (n # ws)))"
    by (auto simp: plain_word_def simp del: last.simps)
  then have "\<not> is_trim_ws (last ?x)" using join_last [of "n # ws" "'' ''"] by simp
  then have trimmed: "trim (pre @ ?x @ post) = ?x"
    using assms(3) by (intro trim_padded) (simp_all add: is_trim_ws_def)
  have parts: "command_parts (join (n # ws) '' '') = (n, join ws '' '')"
  proof (cases ws)
    case Nil
    have "str_find '' '' n = None"
      using plain_word_space [OF assms(1)] by (simp only: str_find_char_None not_False_eq_True)
    with Nil show ?thesis by (simp add: command_parts_def)
  next
    case (Cons w ws')
    then show ?thesis using str_find_char [OF plain_word_space [OF assms(1)], of "join ws '' ''"]
      by (simp add: command_parts_def)
  qed
  have "command_args (join ws '' '') = ws"
  proof (cases ws rule: rev_cases)
    case (snoc vs v)
    with words have "last ws \<noteq> []" by (auto simp: plain_word_def)
    with snoc show ?thesis
      using split_char_join [of ws "CHR '' ''"] words plain_word_space join_last [of ws "'' ''"]
      by (auto simp: command_args_def)
  qed (simp add: command_args_def)
  with trimmed parts assms(4,5) show ?thesis by (simp add: execute_def)
qed

text \<open>
  C36: Whatever commands were registered: a line of plain words that starts with a slash, with white
  space around it, calls the handler of the command registered last under the first word, or,
  when no command has that name, of the first one in the order of the names that has it as an
  alias; the other words are its arguments.
\<close>

theorem command_dispatch:
  assumes "plain_word n" and "\<forall>w\<in>set ws. plain_word w" and "\<forall>c\<in>set pre \<union> set post. is_trim_ws c"
    and "cs = foldl (\<lambda>cs c. register_command c cs) [] registered"
    and "(case find (\<lambda>c. sc_name c = n) (rev registered) of
        Some c \<Rightarrow> Some c | None \<Rightarrow> find (\<lambda>c. n \<in> set (sc_aliases c)) (commands cs)) = Some c"
    and "sc_handler c = Some h"
  shows "execute cs (pre @ (CHR ''/'' # join (n # ws) '' '') @ post) = h ws"
proof -
  have "map_of (map (\<lambda>c. (sc_name c, c)) l) n = find (\<lambda>c. sc_name c = n) l" for l :: "'a slash_command list"
    by (induction l) auto
  then have "om_get cs n = find (\<lambda>c. sc_name c = n) (rev registered)"
    using register_all_commands [of "[]" registered n]
    by (simp add: assms(4) rev_map split: option.splits)
  with assms(5) have "lookup_command n cs = Some c"
    by (simp add: lookup_command_def find_alias_find split: option.splits)
  from execute_words [OF assms(1-3) this assms(6)] show ?thesis .
qed

lemma command_dispatch_witness:
  "execute (register_builtins [] :: unit command_table) (''  /exit'' @ [CHR 0x0A]) () = (Inr 1, ()) \<and>
   execute (register_command (builtin ''q'' [] [] [] [] 7) (register_builtins [])) ''/q'' () = (Inr 7, ())"
proof -
  let ?cs = "register_builtins [] :: unit command_table"
  let ?q = "builtin ''q'' [] [] [] [] 7 :: unit slash_command"
  have "execute ?cs (''  '' @ (CHR ''/'' # join (''exit'' # []) '' '') @ [CHR 0x0A]) = (\<lambda>args. ret 1) []"
    by (rule command_dispatch [where registered = builtins and c = "builtins ! 1"])
      (simp_all add: register_builtins_def builtins_def builtin_def plain_word_def is_trim_ws_def
        commands_def om_vals_def register_command_def fun_eq_iff)
  moreover have "execute (register_command ?q ?cs) ([] @ (CHR ''/'' # join (''q'' # []) '' '') @ []) = (\<lambda>args. ret 7) []"
    by (rule command_dispatch [where registered = "builtins @ [?q]" and c = ?q])
      (simp_all add: register_builtins_def builtin_def plain_word_def is_trim_ws_def fun_eq_iff)
  ultimately show ?thesis by simp
qed

text \<open>
  The two tables differ in what a second registration of a name does: the one replaces the first
  command, the other never reaches the second.
\<close>

lemma registered_twice:
  assumes "sc_name c = n" and "sc_name c' = n"
  shows "find_command (register_command c' (register_command c cs)) n = Some c'"
    and "registry_execute (registry_register n d' h' (registry_register n d (Some h) [])) n args = h args"
  using assms by (simp_all add: find_command_def register_command_def registry_register_def)

end
