(* ===== verification/Std_Sort.thy ===== *)
theory Std_Sort
  imports Interfaces "HOL-Library.Multiset"
begin

text \<open>
  What \<open>std::sort\<close> guarantees of a comparison that is a strict weak order: a rearrangement in
  which no element comes before a smaller one. The order of equivalent elements is left open.
\<close>

definition law_sort :: "('a \<Rightarrow> 'a \<Rightarrow> bool) \<Rightarrow> ('a list \<Rightarrow> 'a list) \<Rightarrow> bool" where
  "law_sort before sorting =
     (\<forall>xs. mset (sorting xs) = mset xs \<and> sorted_wrt (\<lambda>a b. \<not> before b a) (sorting xs))"

end
