(* ===== verification/Local_Time.thy ===== *)
theory Local_Time
  imports Json
begin

text \<open>
  The conversions \<open>to_str\<close> and \<open>from_str\<close> of \<open>src/memory/memory_store.cpp\<close>: times, in nanoseconds
  since the epoch, as texts of the local time. The format is that of the code, as \<open>strftime\<close>
  prints it and \<open>std::get_time\<close> reads it. The time zone is an argument: what \<open>localtime_r\<close> and
  \<open>mktime\<close> do with it.
\<close>

record broken_time =
  tm_sec :: int
  tm_min :: int
  tm_hour :: int
  tm_mday :: int
  tm_mon :: int
  tm_year :: int
  tm_wday :: int
  tm_yday :: int
  tm_isdst :: int

definition zero_time :: broken_time where
  "zero_time = \<lparr>tm_sec = 0, tm_min = 0, tm_hour = 0, tm_mday = 0, tm_mon = 0, tm_year = 0,
     tm_wday = 0, tm_yday = 0, tm_isdst = 0\<rparr>"

record time_zone =
  tz_local :: "int \<Rightarrow> broken_time"
  tz_mktime :: "broken_time \<Rightarrow> int"

section \<open>Printing\<close>

text \<open>The last \<open>k\<close> digits of a number.\<close>

fun digits :: "nat \<Rightarrow> int \<Rightarrow> string" where
  "digits 0 n = []"
| "digits (Suc k) n = digits k (n div 10) @ [digit (nat (n mod 10))]"

text \<open>The years of a clock of 64-bit nanoseconds, 1677 to 2262, have four digits.\<close>

definition print_time :: "broken_time \<Rightarrow> string" where
  "print_time t = digits 4 (tm_year t + 1900) @ ''-'' @ digits 2 (tm_mon t + 1) @ ''-'' @
     digits 2 (tm_mday t) @ ''T'' @ digits 2 (tm_hour t) @ '':'' @ digits 2 (tm_min t) @ '':'' @
     digits 2 (tm_sec t)"

text \<open>\<open>to_time_t\<close> rounds towards the epoch.\<close>

definition to_time_t :: "int \<Rightarrow> int" where
  "to_time_t t = (if t < 0 then - (- t div 10 ^ 9) else t div 10 ^ 9)"

definition to_str :: "time_zone \<Rightarrow> int \<Rightarrow> string" where
  "to_str Z t = print_time (tz_local Z (to_time_t t))"

section \<open>Reading\<close>

text \<open>
  The items of the format: a number of so many digits, between two bounds, and what it sets; or a
  character. At the first that does not fit, the reading ends; what has been set stays.
\<close>

datatype time_item = Number nat int int "int \<Rightarrow> broken_time \<Rightarrow> broken_time" | Literal char

definition time_items :: "time_item list" where
  "time_items =
     [Number 4 0 9999 (\<lambda>v t. t\<lparr>tm_year := v - 1900\<rparr>), Literal (CHR ''-''),
      Number 2 1 12 (\<lambda>v t. t\<lparr>tm_mon := v - 1\<rparr>), Literal (CHR ''-''),
      Number 2 1 31 (\<lambda>v t. t\<lparr>tm_mday := v\<rparr>), Literal (CHR ''T''),
      Number 2 0 23 (\<lambda>v t. t\<lparr>tm_hour := v\<rparr>), Literal (CHR '':''),
      Number 2 0 59 (\<lambda>v t. t\<lparr>tm_min := v\<rparr>), Literal (CHR '':''),
      Number 2 0 60 (\<lambda>v t. t\<lparr>tm_sec := v\<rparr>)]"

definition read_number :: "nat \<Rightarrow> string \<Rightarrow> int option" where
  "read_number k s =
     (if length (take k s) = k \<and> list_all is_digit (take k s) then Some (int (dec_val (take k s))) else None)"

fun read_items :: "time_item list \<Rightarrow> string \<Rightarrow> broken_time \<Rightarrow> broken_time" where
  "read_items [] s t = t"
| "read_items (Literal c # items) s t =
     (case s of c' # r \<Rightarrow> if c' = c then read_items items r t else t | [] \<Rightarrow> t)"
| "read_items (Number k low high f # items) s t =
     (case read_number k s of
        Some v \<Rightarrow> if low \<le> v \<and> v \<le> high then read_items items (drop k s) (f v t) else t
      | None \<Rightarrow> t)"

definition get_time :: "string \<Rightarrow> broken_time" where
  "get_time s = read_items time_items (dropWhile is_space s) zero_time"

definition from_str :: "time_zone \<Rightarrow> string \<Rightarrow> int" where
  "from_str Z s = tz_mktime Z (get_time s) * 10 ^ 9"

section \<open>What is read back\<close>

text \<open>The text holds the date and the time of day, and nothing of the rest.\<close>

definition calendar :: "broken_time \<Rightarrow> bool" where
  "calendar t = (0 \<le> tm_year t + 1900 \<and> tm_year t + 1900 \<le> 9999 \<and> 0 \<le> tm_mon t \<and> tm_mon t \<le> 11 \<and>
     1 \<le> tm_mday t \<and> tm_mday t \<le> 31 \<and> 0 \<le> tm_hour t \<and> tm_hour t \<le> 23 \<and>
     0 \<le> tm_min t \<and> tm_min t \<le> 59 \<and> 0 \<le> tm_sec t \<and> tm_sec t \<le> 60)"

definition printed_part :: "broken_time \<Rightarrow> broken_time" where
  "printed_part t = t\<lparr>tm_wday := 0, tm_yday := 0, tm_isdst := 0\<rparr>"

lemma digits_length [simp]: "length (digits k n) = k"
  by (induction k n rule: digits.induct) simp_all

lemma digits_2: "digits 2 n = [digit (nat (n div 10 mod 10)), digit (nat (n mod 10))]"
proof -
  have "digits (Suc (Suc 0)) n = [digit (nat (n div 10 mod 10)), digit (nat (n mod 10))]" by simp
  then show ?thesis by (simp only: numeral_2_eq_2)
qed

lemma digits_add: "digits (i + j) n = digits i (n div 10 ^ j) @ digits j n"
  by (induction j arbitrary: n) (simp_all add: zdiv_zmult2_eq)

lemma digits_4: "digits 4 n = digits 2 (n div 100) @ digits 2 n"
  using digits_add [of 2 2 n] by (simp only: numeral_plus_numeral) simp

lemma digits_are_digits: "list_all is_digit (digits k n)"
  by (induction k n rule: digits.induct) (simp_all add: nat_less_iff)

lemma dec_val_digits: "0 \<le> n \<Longrightarrow> n < 10 ^ k \<Longrightarrow> int (dec_val (digits k n)) = n"
proof (induction k n rule: digits.induct)
  case (2 k n)
  then have "n div 10 < 10 ^ k" by (simp add: int_div_less_self div_less_iff_less_mult)
  with 2 show ?case by (simp add: dec_val_snoc nat_less_iff pos_imp_zdiv_nonneg_iff)
qed (simp add: dec_val_def)

lemma read_digits [simp]:
  "0 \<le> n \<Longrightarrow> n < 10 ^ k \<Longrightarrow> read_number k (digits k n @ rest) = Some n"
  by (simp add: read_number_def digits_are_digits dec_val_digits)

lemma digits_not_space: "dropWhile is_space (digits (Suc k) n @ rest) = digits (Suc k) n @ rest"
proof -
  obtain c s where "digits (Suc k) n = c # s" by (metis digits_length length_Suc_conv)
  moreover from this digits_are_digits [of "Suc k" n] have "is_digit c" by simp
  ultimately show ?thesis by (simp add: is_digit_not_space)
qed

lemma get_print_time:
  assumes "calendar t"
  shows "get_time (print_time t) = printed_part t"
proof -
  have "dropWhile is_space (print_time t) = print_time t"
    unfolding print_time_def using digits_not_space [of 3] by (simp add: numeral_eq_Suc del: digits.simps)
  moreover have "read_items time_items (print_time t) zero_time = printed_part t"
    using assms read_digits [of "tm_sec t" 2 "[]"]
    by (simp add: time_items_def print_time_def calendar_def printed_part_def zero_time_def
        del: digits.simps)
  ultimately show ?thesis by (simp add: get_time_def)
qed

lemma utf8_print_time [simp]: "utf8 (print_time t)"
proof -
  have "byte_in 0 0x7F c" if "c \<in> set (digits k n)" for c k n
    using that digits_are_digits [of k n] by (auto simp: list_all_iff is_digit_def byte_in_def)
  then have "\<forall>c\<in>set (print_time t). byte_in 0 0x7F c"
    by (auto simp: print_time_def byte_in_def simp del: digits.simps)
  then show ?thesis by (rule utf8_ascii)
qed

text \<open>A time after it has been printed and read.\<close>

definition reread :: "time_zone \<Rightarrow> int \<Rightarrow> int" where
  "reread Z t = tz_mktime Z (printed_part (tz_local Z (to_time_t t))) * 10 ^ 9"

lemma from_to_str: "calendar (tz_local Z (to_time_t t)) \<Longrightarrow> from_str Z (to_str Z t) = reread Z t"
  by (simp add: from_str_def to_str_def get_print_time reread_def)

text \<open>A time that \<open>mktime\<close> finds again from its date and time of day, the summer time flag being off.\<close>

definition standard_time :: "time_zone \<Rightarrow> int \<Rightarrow> bool" where
  "standard_time Z s = (tz_mktime Z (printed_part (tz_local Z s)) = s)"

definition whole_second :: "int \<Rightarrow> int" where
  "whole_second t = to_time_t t * 10 ^ 9"

lemma reread_standard: "standard_time Z (to_time_t t) \<Longrightarrow> reread Z t = whole_second t"
  by (simp add: reread_def standard_time_def whole_second_def)

text \<open>
  A time of summer time is taken for one of standard time when it is read, an hour later: each time
  a store is saved and loaded, its times move on by an hour.
\<close>

theorem summer_time_moves:
  assumes "\<forall>k<n. tz_mktime Z (printed_part (tz_local Z (s + 3600 * int k))) = s + 3600 * int k + 3600"
    and "0 \<le> s"
  shows "(reread Z ^^ n) (s * 10 ^ 9) = (s + 3600 * int n) * 10 ^ 9"
  using assms(1)
proof (induction n)
  case (Suc n)
  have "to_time_t ((s + 3600 * int n) * 10 ^ 9) = s + 3600 * int n"
    using assms(2) by (simp add: to_time_t_def not_less)
  with Suc show ?case by (simp add: reread_def algebra_simps)
qed simp

section \<open>A zone\<close>

text \<open>
  The Gregorian calendar, from days since the epoch and back, and a zone of a whole number of hours,
  with summer time all the year or never.
\<close>

definition civil :: "int \<Rightarrow> int \<times> int \<times> int" where
  "civil days =
     (let z = days + 719468; era = z div 146097; doe = z mod 146097;
          yoe = (doe - doe div 1460 + doe div 36524 - doe div 146096) div 365;
          doy = doe - (365 * yoe + yoe div 4 - yoe div 100);
          mp = (5 * doy + 2) div 153;
          d = doy - (153 * mp + 2) div 5 + 1;
          m = (if mp < 10 then mp + 3 else mp - 9)
      in (yoe + era * 400 + (if m \<le> 2 then 1 else 0), m, d))"

definition days_of :: "int \<Rightarrow> int \<Rightarrow> int \<Rightarrow> int" where
  "days_of year m d =
     (let y = (if m \<le> 2 then year - 1 else year); era = y div 400; yoe = y mod 400;
          doy = (153 * (if m > 2 then m - 3 else m + 9) + 2) div 5 + d - 1;
          doe = yoe * 365 + yoe div 4 - yoe div 100 + doy
      in era * 146097 + doe - 719468)"

definition hours_zone :: "int \<Rightarrow> int \<Rightarrow> time_zone" where
  "hours_zone off dst =
     \<lparr>tz_local = (\<lambda>t. let s = t + 3600 * (off + dst); r = s mod 86400 in
        case civil (s div 86400) of (y, m, d) \<Rightarrow>
          zero_time\<lparr>tm_sec := r mod 60, tm_min := r div 60 mod 60, tm_hour := r div 3600,
            tm_mday := d, tm_mon := m - 1, tm_year := y - 1900, tm_wday := (4 + s div 86400) mod 7,
            tm_isdst := dst\<rparr>),
      tz_mktime = (\<lambda>b. days_of (tm_year b + 1900) (tm_mon b + 1) (tm_mday b) * 86400 + tm_hour b * 3600 +
        tm_min b * 60 + tm_sec b - 3600 * (off + tm_isdst b))\<rparr>"

text \<open>Noon of the first of July 2024, in a zone an hour ahead: it is printed as two in the afternoon.\<close>

lemma summer_time_moves_witness:
  "to_str (hours_zone 1 1) (1719835200 * 10 ^ 9) = ''2024-07-01T14:00:00'' \<and>
   (reread (hours_zone 1 1) ^^ 2) (1719835200 * 10 ^ 9) = 1719842400 * 10 ^ 9 \<and>
   reread (hours_zone 1 0) (1719835200 * 10 ^ 9) = 1719835200 * 10 ^ 9"
proof (intro conjI)
  have civil: "civil 19905 = (2024, 7, 1)" and days: "days_of 2024 7 1 = 19905" by code_simp+
  have "digit 0 = CHR ''0''" "digit 1 = CHR ''1''" "digit 2 = CHR ''2''" "digit 4 = CHR ''4''"
    "digit 7 = CHR ''7''" by code_simp+
  then have "digits 4 2024 = ''2024''" "digits 2 7 = ''07''" "digits 2 1 = ''01''" "digits 2 14 = ''14''"
    "digits 2 0 = ''00''" by (simp_all add: digits_4 digits_2)
  moreover have "print_time (zero_time\<lparr>tm_hour := 14, tm_mday := 1, tm_mon := 6, tm_year := 124, tm_wday := 1,
      tm_isdst := 1\<rparr>) = digits 4 2024 @ ''-'' @ digits 2 7 @ ''-'' @ digits 2 1 @ ''T'' @ digits 2 14 @
      '':'' @ digits 2 0 @ '':'' @ digits 2 0"
    by (simp add: print_time_def zero_time_def del: digits.simps)
  ultimately have "print_time (zero_time\<lparr>tm_hour := 14, tm_mday := 1, tm_mon := 6, tm_year := 124,
      tm_wday := 1, tm_isdst := 1\<rparr>) = ''2024-07-01T14:00:00''"
    by (simp only: append.simps)
  moreover have "tz_local (hours_zone 1 1) 1719835200 = zero_time\<lparr>tm_hour := 14, tm_mday := 1, tm_mon := 6,
      tm_year := 124, tm_wday := 1, tm_isdst := 1\<rparr>"
    by (simp add: hours_zone_def civil zero_time_def Let_def)
  moreover have "to_time_t (1719835200 * 10 ^ 9) = 1719835200" by (simp add: to_time_t_def)
  ultimately show "to_str (hours_zone 1 1) (1719835200 * 10 ^ 9) = ''2024-07-01T14:00:00''"
    by (simp only: to_str_def)
  have at_noon: "tz_mktime (hours_zone 1 1) (printed_part (tz_local (hours_zone 1 1) 1719835200)) = 1719838800"
    and at_one: "tz_mktime (hours_zone 1 1) (printed_part (tz_local (hours_zone 1 1) 1719838800)) = 1719842400"
    by (simp_all add: hours_zone_def civil days printed_part_def zero_time_def Let_def)
  have "\<forall>k<2. tz_mktime (hours_zone 1 1) (printed_part (tz_local (hours_zone 1 1) (1719835200 + 3600 * int k))) =
      1719835200 + 3600 * int k + 3600"
    by (simp add: at_noon at_one numeral_2_eq_2 All_less_Suc)
  then show "(reread (hours_zone 1 1) ^^ 2) (1719835200 * 10 ^ 9) = 1719842400 * 10 ^ 9"
    using summer_time_moves [of 2 "hours_zone 1 1" 1719835200] by simp
  have "standard_time (hours_zone 1 0) (to_time_t (1719835200 * 10 ^ 9))"
    by (simp add: standard_time_def hours_zone_def civil days printed_part_def zero_time_def
        to_time_t_def Let_def)
  then show "reread (hours_zone 1 0) (1719835200 * 10 ^ 9) = 1719835200 * 10 ^ 9"
    using reread_standard by (simp add: whole_second_def to_time_t_def)
qed

end
