(* ===== verification/Memory_Store.thy ===== *)
theory Memory_Store
  imports Files Json_Sample Std_Sort Local_Time
begin

text \<open>
  \<open>src/memory/memory_store.h\<close> and \<open>memory_store.cpp\<close>: the memories of the assistant, in a map by
  identifier, kept in a JSON file. The mutex guards every operation and none calls another with
  it held, so each is one step.

  Arguments: the clock, in nanoseconds since the epoch, the time zone (\<open>Local_Time\<close> has the
  conversion of times to texts and back), the identifiers drawn, \<open>std::sort\<close>,
  \<open>std::tolower\<close> as in \<open>String_Utils\<close>, and printing with an indentation. Access counts stay
  below \<open>2 ^ 31\<close>.
\<close>

section \<open>Entries\<close>

datatype memory_type = Fact | Preference | Context | Lesson | Decision

fun memory_type_to_string :: "memory_type \<Rightarrow> string" where
  "memory_type_to_string Fact = ''fact''"
| "memory_type_to_string Preference = ''preference''"
| "memory_type_to_string Context = ''context''"
| "memory_type_to_string Lesson = ''lesson''"
| "memory_type_to_string Decision = ''decision''"

definition string_to_memory_type :: "string \<Rightarrow> memory_type" where
  "string_to_memory_type s =
     (if s = ''preference'' then Preference else if s = ''context'' then Context
      else if s = ''lesson'' then Lesson else if s = ''decision'' then Decision else Fact)"

record memory_entry =
  me_id :: string
  me_content :: string
  me_type :: memory_type
  me_tags :: string
  me_created :: int
  me_last_accessed :: int
  me_access_count :: int
  me_relevance_score :: rat

definition new_entry :: memory_entry where
  "new_entry = \<lparr>me_id = [], me_content = [], me_type = Fact, me_tags = [], me_created = 0,
     me_last_accessed = 0, me_access_count = 0, me_relevance_score = 0\<rparr>"

definition entry_kvs :: "('j, 'z) jlib_scheme \<Rightarrow> time_zone \<Rightarrow> memory_entry \<Rightarrow> (string \<times> 'j) list" where
  "entry_kvs J Z e =
     [(''id'', j_string J (me_id e)), (''content'', j_string J (me_content e)),
      (''type'', j_string J (memory_type_to_string (me_type e))), (''tags'', j_string J (me_tags e)),
      (''access_count'', j_int J (me_access_count e)),
      (''relevance_score'', j_double J (me_relevance_score e)),
      (''created'', j_string J (to_str Z (me_created e))),
      (''last_accessed'', j_string J (to_str Z (me_last_accessed e)))]"

definition entry_json :: "('j, 'z) jlib_scheme \<Rightarrow> time_zone \<Rightarrow> memory_entry \<Rightarrow> 'j" where
  "entry_json J Z e = obj_from J (entry_kvs J Z e)"

definition entry_to_json ::
  "('j, 'z) jlib_scheme \<Rightarrow> time_zone \<Rightarrow> memory_entry \<Rightarrow> cpp_exn + string" where
  "entry_to_json J Z e = dump_json J (entry_json J Z e)"

definition time_member ::
  "('j, 'z) jlib_scheme \<Rightarrow> time_zone \<Rightarrow> 'j \<Rightarrow> string \<Rightarrow> int \<Rightarrow> cpp_exn + int" where
  "time_member J Z j k d =
     (if j_contains J j k
      then bind_exn (or_type_error (Option.bind (j_at J j k) (j_get_str J))) (\<lambda>s. Inr (from_str Z s))
      else Inr d)"

definition entry_of_json :: "('j, 'z) jlib_scheme \<Rightarrow> time_zone \<Rightarrow> 'j \<Rightarrow> cpp_exn + memory_entry" where
  "entry_of_json J Z j =
     bind_exn (str_value J j ''id'' []) (\<lambda>i.
     bind_exn (str_value J j ''content'' []) (\<lambda>content.
     bind_exn (str_value J j ''type'' ''fact'') (\<lambda>type.
     bind_exn (str_value J j ''tags'' []) (\<lambda>tags.
     bind_exn (int_value J j ''access_count'' 0) (\<lambda>count.
     bind_exn (double_value J j ''relevance_score'' 0) (\<lambda>score.
     bind_exn (time_member J Z j ''created'' 0) (\<lambda>created.
     bind_exn (time_member J Z j ''last_accessed'' 0) (\<lambda>accessed.
       Inr \<lparr>me_id = i, me_content = content, me_type = string_to_memory_type type, me_tags = tags,
             me_created = created, me_last_accessed = accessed, me_access_count = count,
             me_relevance_score = score\<rparr>))))))))"

definition entry_from_json ::
  "('j, 'z) jlib_scheme \<Rightarrow> time_zone \<Rightarrow> string \<Rightarrow> cpp_exn + memory_entry" where
  "entry_from_json J Z s = bind_exn (parse_json J s) (entry_of_json J Z)"

section \<open>The store\<close>

record memory_store =
  ms_storage_path :: string
  ms_entries :: "memory_entry omap"
  ms_dirty :: bool

definition new_memory_store :: memory_store where
  "new_memory_store = \<lparr>ms_storage_path = [], ms_entries = [], ms_dirty = False\<rparr>"

definition store :: "string \<Rightarrow> int \<Rightarrow> memory_entry \<Rightarrow> memory_store \<Rightarrow> memory_store" where
  "store uuid now entry s =
     (let e1 = (if me_id entry = [] then entry\<lparr>me_id := uuid\<rparr> else entry);
          e2 = (if me_created e1 = 0 then e1\<lparr>me_created := now\<rparr> else e1);
          e3 = e2\<lparr>me_last_accessed := now\<rparr>
      in s\<lparr>ms_entries := om_put (me_id e3) e3 (ms_entries s), ms_dirty := True\<rparr>)"

definition store_content ::
  "string \<Rightarrow> int \<Rightarrow> string \<Rightarrow> memory_type \<Rightarrow> string \<Rightarrow> memory_store \<Rightarrow> memory_store" where
  "store_content uuid now content type tags s =
     store uuid now (new_entry\<lparr>me_content := content, me_type := type, me_tags := tags\<rparr>) s"

text \<open>\<open>resize\<close> with a negative limit asks for more than a vector can hold.\<close>

definition limited :: "int \<Rightarrow> 'a list \<Rightarrow> cpp_exn + 'a list" where
  "limited limit l =
     (if int (length l) > limit
      then (if limit < 0 then Inl Length_Error else Inr (take (nat limit) l))
      else Inr l)"

definition used_more :: "memory_entry \<Rightarrow> memory_entry \<Rightarrow> bool" where
  "used_more a b = (me_access_count a > me_access_count b)"

definition recall ::
  "(memory_entry list \<Rightarrow> memory_entry list) \<Rightarrow> memory_type \<Rightarrow> int \<Rightarrow> memory_store \<Rightarrow>
   cpp_exn + memory_entry list" where
  "recall sorting type limit s =
     limited limit (sorting (filter (\<lambda>e. me_type e = type) (om_vals (ms_entries s))))"

definition search :: "string \<Rightarrow> int \<Rightarrow> memory_store \<Rightarrow> cpp_exn + memory_entry list" where
  "search query limit s =
     limited limit (filter (\<lambda>e. contains_str (map char_lower (me_content e)) (map char_lower query))
       (om_vals (ms_entries s)))"

definition get :: "string \<Rightarrow> memory_store \<Rightarrow> memory_entry option" where
  "get i s = om_get (ms_entries s) i"

definition erase :: "string \<Rightarrow> memory_store \<Rightarrow> memory_store" where
  "erase i s = s\<lparr>ms_entries := om_del i (ms_entries s), ms_dirty := True\<rparr>"

definition touch :: "string \<Rightarrow> int \<Rightarrow> memory_store \<Rightarrow> memory_store" where
  "touch i now s =
     (case om_get (ms_entries s) i of
        None \<Rightarrow> s
      | Some e \<Rightarrow>
          s\<lparr>ms_entries := om_put i (e\<lparr>me_last_accessed := now, me_access_count := me_access_count e + 1\<rparr>)
              (ms_entries s), ms_dirty := True\<rparr>)"

definition all_entries :: "memory_store \<Rightarrow> memory_entry list" where
  "all_entries s = om_vals (ms_entries s)"

section \<open>The file\<close>

definition stored_json ::
  "('j, 'z) jlib_scheme \<Rightarrow> time_zone \<Rightarrow> memory_entry list \<Rightarrow> cpp_exn + 'j" where
  "stored_json J Z es =
     bind_exn (map_exn (\<lambda>e. bind_exn (entry_to_json J Z e) (parse_json J)) es) (\<lambda>vs. Inr (j_array J vs))"

text \<open>
  The mark \<open>dirty_\<close> is not reset, and neither the writing nor the renaming is checked. A text
  that is not UTF-8 throws.
\<close>

definition save ::
  "('j, 'z) jlib_scheme \<Rightarrow> ('j \<Rightarrow> string) \<Rightarrow> time_zone \<Rightarrow> fs_env \<Rightarrow> memory_store \<Rightarrow> fsys \<Rightarrow>
   (cpp_exn + unit) \<times> fsys" where
  "save J print Z e s w =
     (if ms_storage_path s = [] \<or> \<not> ms_dirty s then (Inr (), w)
      else (case stored_json J Z (om_vals (ms_entries s)) of
          Inl x \<Rightarrow> (Inl x, w)
        | Inr arr \<Rightarrow>
            (let tmp = ms_storage_path s @ ''.tmp'' in
             if \<not> fe_temp_opens e then (Inr (), w)
             else (case pretty_json J print arr of
                 Inl x \<Rightarrow> (Inl x, write_stream e tmp [] w)
               | Inr text \<Rightarrow>
                   (let w1 = write_stream e tmp text w in
                    (Inr (), if fe_rename_works e then rename_file tmp (ms_storage_path s) w1 else w1))))))"

text \<open>The items before the one that throws are kept.\<close>

fun load_items ::
  "('j, 'z) jlib_scheme \<Rightarrow> time_zone \<Rightarrow> 'j list \<Rightarrow> memory_entry omap \<Rightarrow> memory_entry omap" where
  "load_items J Z [] m = m"
| "load_items J Z (item # r) m =
     (case entry_from_json J Z (j_dump J item) of
        Inl _ \<Rightarrow> m
      | Inr e \<Rightarrow> load_items J Z r (om_put (me_id e) e m))"

definition load ::
  "('j, 'z) jlib_scheme \<Rightarrow> time_zone \<Rightarrow> fs_env \<Rightarrow> fsys \<Rightarrow> memory_store \<Rightarrow> memory_store" where
  "load J Z e w s =
     (if ms_storage_path s = [] then s
      else (case read_file e w (ms_storage_path s) of
          None \<Rightarrow> s
        | Some text \<Rightarrow>
            (case j_parse J text of
               Inl _ \<Rightarrow> s
             | Inr arr \<Rightarrow>
                 if \<not> j_is_array J arr then s
                 else s\<lparr>ms_entries := load_items J Z (j_elems J arr) (ms_entries s)\<rparr>)))"

definition init ::
  "('j, 'z) jlib_scheme \<Rightarrow> time_zone \<Rightarrow> fs_env \<Rightarrow> string \<Rightarrow> fsys \<Rightarrow> memory_store \<Rightarrow> memory_store" where
  "init J Z e path w s =
     (let s1 = s\<lparr>ms_storage_path := path\<rparr> in if path \<noteq> [] then load J Z e w s1 else s1)"

section \<open>Saving and loading\<close>

lemma memory_type_roundtrip: "string_to_memory_type (memory_type_to_string t) = t"
  by (cases t) (simp_all add: string_to_memory_type_def)

text \<open>What an entry is after it has been in the file: its times are the ones read back.\<close>

definition reread_entry :: "time_zone \<Rightarrow> memory_entry \<Rightarrow> memory_entry" where
  "reread_entry Z e = e\<lparr>me_created := reread Z (me_created e),
     me_last_accessed := reread Z (me_last_accessed e)\<rparr>"

definition whole_seconds :: "memory_entry \<Rightarrow> memory_entry" where
  "whole_seconds e = e\<lparr>me_created := whole_second (me_created e),
     me_last_accessed := whole_second (me_last_accessed e)\<rparr>"

text \<open>
  \<open>localtime_r\<close> gives a date and a time of day for the times of the entry, as it does for every
  time of the clock.
\<close>

definition entry_dated :: "time_zone \<Rightarrow> memory_entry \<Rightarrow> bool" where
  "entry_dated Z e =
     (calendar (tz_local Z (to_time_t (me_created e))) \<and> calendar (tz_local Z (to_time_t (me_last_accessed e))))"

definition in_standard_time :: "time_zone \<Rightarrow> memory_entry \<Rightarrow> bool" where
  "in_standard_time Z e =
     (standard_time Z (to_time_t (me_created e)) \<and> standard_time Z (to_time_t (me_last_accessed e)))"

lemma reread_in_standard_time: "in_standard_time Z e \<Longrightarrow> reread_entry Z e = whole_seconds e"
  by (simp add: in_standard_time_def reread_entry_def whole_seconds_def reread_standard)

definition json_laws :: "('j, 'z) jlib_scheme \<Rightarrow> bool" where
  "json_laws J = (law_set J \<and> law_strings J \<and> law_ints J \<and> law_doubles J \<and> law_value J \<and>
     law_value_int J \<and> law_parse_dump J \<and> law_arrays J \<and> law_printable J)"

definition utf8_entry :: "memory_entry \<Rightarrow> bool" where
  "utf8_entry e = (utf8 (me_id e) \<and> utf8 (me_content e) \<and> utf8 (me_tags e))"

lemma entry_printable:
  assumes "json_laws J"
  shows "j_printable J (entry_json J Z e) = utf8_entry e"
proof -
  have "distinct (map fst (entry_kvs J Z e))" by (simp add: entry_kvs_def)
  moreover have "utf8 (memory_type_to_string (me_type e))" by (cases "me_type e") simp_all
  ultimately show ?thesis
    using assms obj_printable [of J "entry_kvs J Z e"]
    by (auto simp: json_laws_def entry_json_def entry_kvs_def printableD utf8_entry_def to_str_def)
qed

lemma entry_roundtrip:
  assumes "json_laws J" and "entry_dated Z e" and "0 \<le> me_access_count e \<and> me_access_count e < 2 ^ 31"
  shows "entry_of_json J Z (entry_json J Z e) = Inr (reread_entry Z e)"
proof -
  have laws: "law_set J" "law_strings J" "law_ints J" "law_doubles J" "law_value J" "law_value_int J"
    using assms(1) by (simp_all add: json_laws_def)
  have "distinct (map fst (entry_kvs J Z e))" by (simp add: entry_kvs_def)
  note members = obj_members [OF laws(1) this, folded entry_json_def]
  have get: "j_get_str J (j_string J s) = Some s" "j_get_double J (j_double J x) = Some x"
    "j_get_int J (j_int J (me_access_count e)) = Some (me_access_count e)" for s x
    using laws(2,3,4) assms(3) by (simp_all add: law_strings_def law_ints_def law_doubles_def)
  have obj: "j_is_object J (entry_json J Z e)" by (rule members(3)) (simp add: entry_kvs_def)
  have lookup: "j_value_str J v k d = (if j_contains J v k then Option.bind (j_at J v k) (j_get_str J) else Some d)"
    "j_value_int J v k i = (if j_contains J v k then Option.bind (j_at J v k) (j_get_int J) else Some i)"
    "j_value_double J v k x = (if j_contains J v k then Option.bind (j_at J v k) (j_get_double J) else Some x)"
    if "j_is_object J v" for v k d i x
    using that laws(4,5,6) by (simp_all add: law_value_def law_value_int_def law_doubles_def)
  show ?thesis
    using assms(2)
    by (simp add: entry_of_json_def str_value_def int_value_def double_value_def time_member_def
        lookup [OF obj] members(1,2) get entry_kvs_def memory_type_roundtrip reread_entry_def entry_dated_def from_to_str)
qed

text \<open>Every entry is in the map under its identifier, and is read back from the file.\<close>

definition storable :: "time_zone \<Rightarrow> memory_store \<Rightarrow> bool" where
  "storable Z s =
     (om_ok (ms_entries s) \<and>
      (\<forall>(i, e)\<in>set (ms_entries s). me_id e = i \<and> entry_dated Z e \<and> utf8_entry e \<and>
         0 \<le> me_access_count e \<and> me_access_count e < 2 ^ 31))"

lemma om_put_last:
  assumes "om_ok (m @ [(k, v)])"
  shows "om_put k v m = m @ [(k, v)]"
proof -
  have "\<forall>p\<in>set m. fst p < k" using assms by (auto simp: om_ok_def sorted_wrt_append)
  then show ?thesis by (induction k v m rule: om_put.induct) (auto dest: less_asym)
qed

lemma load_items_stored:
  assumes "json_laws J" and "om_ok (m @ map (\<lambda>(i, e). (i, reread_entry Z e)) es)"
    and "\<forall>(i, e)\<in>set es. me_id e = i \<and> entry_dated Z e \<and> utf8_entry e \<and>
      0 \<le> me_access_count e \<and> me_access_count e < 2 ^ 31"
  shows "load_items J Z (map (\<lambda>(i, e). entry_json J Z e) es) m = m @ map (\<lambda>(i, e). (i, reread_entry Z e)) es"
  using assms(2,3)
proof (induction es arbitrary: m)
  case (Cons p es)
  obtain i e where p: "p = (i, e)" by force
  have "entry_of_json J Z (entry_json J Z e) = Inr (reread_entry Z e)"
    using entry_roundtrip [OF assms(1)] Cons.prems(2) p by auto
  moreover have "j_parse J (j_dump J (entry_json J Z e)) = Inr (entry_json J Z e)"
    using assms(1) Cons.prems(2) p entry_printable [OF assms(1), of Z e]
    by (auto simp: json_laws_def law_parse_dump_def)
  ultimately have read: "entry_from_json J Z (j_dump J (entry_json J Z e)) = Inr (reread_entry Z e)"
    by (simp add: entry_from_json_def parse_json_def)
  have "me_id (reread_entry Z e) = i" using Cons.prems(2) p by (auto simp: reread_entry_def)
  moreover have "om_put i (reread_entry Z e) m = m @ [(i, reread_entry Z e)]"
    using Cons.prems(1) p by (intro om_put_last) (simp add: om_ok_def sorted_wrt_append)
  ultimately show ?case
    using Cons.IH [of "m @ [(i, reread_entry Z e)]"] Cons.prems p read by simp
qed simp

text \<open>
  C21: A changed store whose texts are UTF-8 that is saved, with room on the disk, and loaded into
  a new one has the same entries under the same identifiers. Their times come back as what
  \<open>mktime\<close> makes of the date and time of day that was printed: the same time cut to whole seconds
  if it was one of standard time. (One of summer time comes back an hour later, see
  \<open>summer_time_moves\<close>.)
\<close>

theorem memories_roundtrip:
  assumes "json_laws J" and "\<forall>v. j_printable J v \<longrightarrow> j_parse J (print v) = Inr v" and "storable Z s"
    and "ms_storage_path s \<noteq> []" and "ms_dirty s"
    and "fe_temp_opens e" and "fe_disk_left e = None" and "fe_rename_works e" and "fe_readable e"
    and "save J print Z e s w = (r, w')"
  shows "r = Inr () \<and>
    ms_entries (init J Z e (ms_storage_path s) w' new_memory_store) =
      map (\<lambda>(i, x). (i, reread_entry Z x)) (ms_entries s) \<and>
    (\<forall>x. in_standard_time Z x \<longrightarrow> reread_entry Z x = whole_seconds x)"
proof -
  let ?p = "ms_storage_path s" and ?vs = "map (\<lambda>(i, x). entry_json J Z x) (ms_entries s)"
  have entries: "\<forall>x\<in>set (om_vals (ms_entries s)). j_printable J (entry_json J Z x)"
    using assms(3) by (auto simp: storable_def om_vals_def entry_printable [OF assms(1)])
  then have "map_exn (\<lambda>x. bind_exn (entry_to_json J Z x) (parse_json J)) (om_vals (ms_entries s)) =
      Inr (map (entry_json J Z) (om_vals (ms_entries s)))"
    using assms(1) by (intro map_exn_all)
      (simp add: entry_to_json_def dump_json_def parse_json_def json_laws_def law_parse_dump_def)
  then have "stored_json J Z (om_vals (ms_entries s)) = Inr (j_array J ?vs)"
    by (simp add: stored_json_def om_vals_def case_prod_unfold comp_def)
  moreover have printable: "j_printable J (j_array J ?vs)"
    using entries assms(1) by (auto simp: json_laws_def printableD list_all_iff om_vals_def)
  ultimately have w': "r = Inr ()" "w' = rename_file (?p @ ''.tmp'') ?p (write_stream e (?p @ ''.tmp'') (print (j_array J ?vs)) w)"
    using assms(4-10) by (auto simp: save_def pretty_json_def Let_def)
  then have "read_file e w' ?p = Some (print (j_array J ?vs))"
    using assms(7,9) by (simp add: read_file_def rename_file_def write_stream_def written_def)
  moreover have "om_ok ([] @ map (\<lambda>(i, x). (i, reread_entry Z x)) (ms_entries s))"
    using assms(3) by (simp add: storable_def om_ok_def case_prod_unfold comp_def)
  then have "load_items J Z ?vs [] = map (\<lambda>(i, x). (i, reread_entry Z x)) (ms_entries s)"
    using load_items_stored [OF assms(1)] assms(3) by (simp add: storable_def)
  ultimately show ?thesis
    using w'(1) assms(1,2,4) printable reread_in_standard_time by (simp add: init_def load_def new_memory_store_def json_laws_def law_arrays_def)
qed

text \<open>A memory of a July noon, in a zone an hour ahead of the universal time and without summer time.\<close>

lemma memories_roundtrip_witness:
  "let s = store ''u'' (1719835200 * 10 ^ 9 + 5) (new_entry\<lparr>me_content := ''tea''\<rparr>) (new_memory_store\<lparr>ms_storage_path := ''m''\<rparr>)
   in \<exists>r w'. save coding_jlib (j_dump coding_jlib) (hours_zone 1 0) (sample_fs_env None) s Map.empty = (r, w') \<and>
     map (\<lambda>(i, x). (me_content x, me_created x))
       (ms_entries (init coding_jlib (hours_zone 1 0) (sample_fs_env None) ''m'' w' new_memory_store)) =
       [(''tea'', 1719835200 * 10 ^ 9)]"
proof -
  let ?Z = "hours_zone 1 0" and ?now = "1719835200 * 10 ^ 9 + 5 :: int"
  let ?s = "store ''u'' ?now (new_entry\<lparr>me_content := ''tea''\<rparr>) (new_memory_store\<lparr>ms_storage_path := ''m''\<rparr>)"
  let ?e = "new_entry\<lparr>me_id := ''u'', me_content := ''tea'', me_created := ?now, me_last_accessed := ?now\<rparr>"
  obtain r w' where run: "save coding_jlib (j_dump coding_jlib) ?Z (sample_fs_env None) ?s Map.empty = (r, w')"
    by (rule prod.exhaust)
  have s: "ms_entries ?s = [(''u'', ?e)]" "ms_storage_path ?s = ''m''" "ms_dirty ?s"
    by (simp_all add: store_def new_entry_def new_memory_store_def)
  have civil: "civil 19905 = (2024, 7, 1)" and days: "days_of 2024 7 1 = 19905" by code_simp+
  have secs: "to_time_t ?now = 1719835200" by (simp add: to_time_t_def)
  have "calendar (tz_local ?Z 1719835200)" "standard_time ?Z 1719835200"
    by (simp_all add: calendar_def standard_time_def hours_zone_def civil days printed_part_def zero_time_def Let_def)
  moreover have "me_created ?e = ?now" "me_last_accessed ?e = ?now" by simp_all
  ultimately have e: "entry_dated ?Z ?e" "in_standard_time ?Z ?e"
    by (simp_all only: entry_dated_def in_standard_time_def secs simp_thms)
  have "storable ?Z ?s"
    unfolding storable_def s using e(1) by (simp add: om_ok_def utf8_entry_def new_entry_def byte_in_def)
  moreover have "\<forall>v. j_printable coding_jlib v \<longrightarrow> j_parse coding_jlib (j_dump coding_jlib v) = Inr v"
    using coding_laws by (simp add: law_parse_dump_def)
  moreover have "json_laws coding_jlib" using coding_laws by (simp add: json_laws_def)
  moreover have "fe_temp_opens (sample_fs_env None)" "fe_disk_left (sample_fs_env None) = None"
      "fe_rename_works (sample_fs_env None)" "fe_readable (sample_fs_env None)"
    by (simp_all add: sample_fs_env_def)
  ultimately have "ms_entries (init coding_jlib ?Z (sample_fs_env None) ''m'' w' new_memory_store) =
      map (\<lambda>(i, x). (i, reread_entry ?Z x)) (ms_entries ?s) \<and>
      (\<forall>x. in_standard_time ?Z x \<longrightarrow> reread_entry ?Z x = whole_seconds x)"
    using memories_roundtrip [of coding_jlib "j_dump coding_jlib" ?Z ?s "sample_fs_env None" Map.empty r w'] run s(2,3)
    by simp
  then have "ms_entries (init coding_jlib ?Z (sample_fs_env None) ''m'' w' new_memory_store) =
      [(''u'', whole_seconds ?e)]"
    using e(2) by (simp only: s list.map prod.case)
  with run show ?thesis
    by (simp only: Let_def) (auto simp: whole_seconds_def whole_second_def to_time_t_def new_entry_def)
qed

text \<open>
  One memory with a text that is not UTF-8 keeps the whole store from being saved: every attempt
  throws and leaves the files as they were.
\<close>

theorem one_memory_blocks_saving:
  assumes "json_laws J" and "ms_storage_path s \<noteq> []" and "ms_dirty s"
    and "(i, e) \<in> set (ms_entries s)" and "\<not> utf8_entry e"
  shows "\<exists>x. save J print Z fe s w = (Inl x, w)"
proof -
  let ?f = "\<lambda>x. bind_exn (entry_to_json J Z x) (parse_json J)"
  have "?f e = Inl Json_Type_Error"
    using entry_printable [OF assms(1), of Z e] assms(5) by (simp add: entry_to_json_def dump_json_def)
  moreover have "e \<in> set (om_vals (ms_entries s))" using assms(4) by (force simp: om_vals_def)
  ultimately obtain x where "map_exn ?f (om_vals (ms_entries s)) = Inl x"
    using map_exn_fails [of e _ ?f] by blast
  then show ?thesis using assms(2,3) by (simp add: save_def stored_json_def)
qed

lemma one_memory_blocks_saving_witness:
  "let s = store ''u'' 1 (new_entry\<lparr>me_content := [CHR 0xFF]\<rparr>) (new_memory_store\<lparr>ms_storage_path := ''m''\<rparr>)
   in \<exists>x. save coding_jlib (j_dump coding_jlib) (hours_zone 1 0) (sample_fs_env None) s Map.empty = (Inl x, Map.empty)"
proof -
  let ?e = "new_entry\<lparr>me_id := ''u'', me_content := [CHR 0xFF], me_created := 1, me_last_accessed := 1\<rparr>"
  have "json_laws coding_jlib" using coding_laws by (simp add: json_laws_def)
  moreover have "\<not> utf8_entry ?e" by (simp add: utf8_entry_def byte_in_def)
  ultimately show ?thesis
    using one_memory_blocks_saving [where J = coding_jlib and e = ?e and i = "''u''" and Z = "hours_zone 1 0"
        and s = "store ''u'' 1 (new_entry\<lparr>me_content := [CHR 0xFF]\<rparr>) (new_memory_store\<lparr>ms_storage_path := ''m''\<rparr>)"
        and print = "j_dump coding_jlib" and fe = "sample_fs_env None" and w = Map.empty]
    by (simp add: store_def new_memory_store_def new_entry_def)
qed

section \<open>Recalling\<close>

text \<open>
  \<open>recall\<close> returns entries of the type only, the most used first; when it leaves some out, they
  are used no more than those it returns. A negative limit throws, also when there is no entry.
\<close>

theorem recall_most_used:
  assumes "law_sort used_more sorting" and "found = filter (\<lambda>e. me_type e = type) (all_entries s)"
  shows "(limit < 0 \<longrightarrow> recall sorting type limit s = Inl Length_Error) \<and>
    (0 \<le> limit \<longrightarrow> (\<exists>l rest. recall sorting type limit s = Inr l \<and> mset l + mset rest = mset found \<and>
      length l = min (nat limit) (length found) \<and>
      sorted_wrt (\<lambda>a b. me_access_count a \<ge> me_access_count b) l \<and>
      (\<forall>a\<in>set l. \<forall>b\<in>set rest. me_access_count a \<ge> me_access_count b)))"
proof (intro conjI impI)
  assume "limit < 0"
  then show "recall sorting type limit s = Inl Length_Error"
    by (simp add: recall_def limited_def)
next
  assume limit: "0 \<le> limit"
  let ?l = "sorting found"
  have ms: "mset ?l = mset found" and "sorted_wrt (\<lambda>a b. \<not> used_more b a) ?l"
    using assms(1) by (simp_all add: law_sort_def)
  then have sorted: "sorted_wrt (\<lambda>a b. me_access_count a \<ge> me_access_count b) ?l"
    by (simp add: used_more_def not_less)
  then have sorted_parts: "sorted_wrt (\<lambda>a b. me_access_count a \<ge> me_access_count b) (take (nat limit) ?l @ drop (nat limit) ?l)"
    by simp
  have "length ?l = length found" using ms by (metis size_mset)
  moreover have "recall sorting type limit s = Inr (take (nat limit) ?l)"
    using limit by (simp add: recall_def limited_def assms(2) all_entries_def)
  moreover have "mset (take (nat limit) ?l) + mset (drop (nat limit) ?l) = mset found"
    using ms by (metis append_take_drop_id mset_append)
  ultimately show "\<exists>l rest. recall sorting type limit s = Inr l \<and> mset l + mset rest = mset found \<and>
      length l = min (nat limit) (length found) \<and>
      sorted_wrt (\<lambda>a b. me_access_count a \<ge> me_access_count b) l \<and>
      (\<forall>a\<in>set l. \<forall>b\<in>set rest. me_access_count a \<ge> me_access_count b)"
    using sorted_parts unfolding sorted_wrt_append
    by (intro exI [of _ "take (nat limit) ?l"] exI [of _ "drop (nat limit) ?l"]) (auto simp: min.commute)
qed

lemma recall_most_used_witness:
  "let s = store ''b'' 1 (new_entry\<lparr>me_access_count := 3\<rparr>) (store ''a'' 1 new_entry new_memory_store)
   in \<exists>l. recall (sort_key (\<lambda>e. - me_access_count e)) Fact 1 s = Inr l \<and> length l = 1"
proof -
  let ?s = "store ''b'' 1 (new_entry\<lparr>me_access_count := 3\<rparr>) (store ''a'' 1 new_entry new_memory_store)"
  have "sorted_wrt (\<lambda>a b. \<not> used_more b a) (sort_key (\<lambda>e. - me_access_count e) xs)" for xs
  proof -
    have "sorted (map (\<lambda>e. - me_access_count e) (sort_key (\<lambda>e. - me_access_count e) xs))"
      by (rule sorted_sort_key)
    then show ?thesis
      unfolding sorted_map by (rule sorted_wrt_mono_rel [rotated]) (simp add: used_more_def)
  qed
  then have "law_sort used_more (sort_key (\<lambda>e. - me_access_count e))" by (simp add: law_sort_def)
  from recall_most_used [OF this refl, of 1 Fact ?s] show ?thesis
    by (auto simp: store_def new_memory_store_def new_entry_def all_entries_def om_vals_def)
qed

text \<open>
  A file with an item that cannot be read does not start afresh, as the comment in the code says:
  the entries before the item are kept.
\<close>

lemma corrupt_file_keeps_prefix:
  assumes "\<forall>i<length good. entry_from_json J Z (j_dump J (good ! i)) = Inr (es ! i)"
    and "length es = length good" and "entry_from_json J Z (j_dump J bad) = Inl x"
  shows "load_items J Z (good @ bad # rest) m = foldl (\<lambda>m e. om_put (me_id e) e m) m es"
  using assms(1,2)
proof (induction good arbitrary: m es)
  case (Cons g good)
  then obtain e es' where es: "es = e # es'" by (cases es) auto
  have "\<forall>i<length good. entry_from_json J Z (j_dump J (good ! i)) = Inr (es' ! i)"
    using Cons.prems(1) es by (auto dest: spec [of _ "Suc _"])
  with Cons es show ?case using spec [OF Cons.prems(1), of 0] by simp
qed (simp add: assms(3))

text \<open>
  With the disk full, what is saved is cut off and replaces the old file; when the rest does not
  parse, the next program starts without memories.
\<close>

lemma full_disk_loses_memories:
  assumes "ms_storage_path s \<noteq> []" and "ms_dirty s" and "stored_json J Z (om_vals (ms_entries s)) = Inr arr"
    and "fe_temp_opens e" and "fe_rename_works e" and "fe_disk_left e = Some n" and "fe_readable e'"
    and "j_printable J arr" and "j_parse J (take n (print arr)) = Inl m"
  shows "\<exists>w'. save J print Z e s w = (Inr (), w') \<and>
    ms_entries (init J Z e' (ms_storage_path s) w' new_memory_store) = []"
  using assms
  by (simp add: save_def pretty_json_def Let_def init_def load_def new_memory_store_def read_file_def rename_file_def
      write_stream_def written_def)

end
