(* ===== verification/Todo_Write.thy ===== *)
theory Todo_Write
  imports Tools Json_Sample Std_Sort "HOL-Library.Product_Lexorder"
begin

text \<open>
  The TodoWrite tool: \<open>src/tools/todo_write_tool.h\<close> and \<open>todo_write_tool.cpp\<close>. Its state is the
  list of the items. Arguments: the identifiers \<open>generate_uuid\<close> draws, and \<open>std::sort\<close>, which
  yields a sorted rearrangement and leaves the order of equivalent items open.
\<close>

section \<open>The tool\<close>

record todo_item =
  ti_id :: string
  ti_content :: string
  ti_status :: string
  ti_priority :: int

definition known_status :: "string \<Rightarrow> bool" where
  "known_status s = (s = ''pending'' \<or> s = ''in_progress'' \<or> s = ''completed'')"

definition read_todo :: "('j, 'z) jlib_scheme \<Rightarrow> string \<Rightarrow> 'j \<Rightarrow> cpp_exn + todo_item" where
  "read_todo J uuid item =
     bind_exn (str_value J item ''id'' []) (\<lambda>i.
     bind_exn (str_value J item ''content'' []) (\<lambda>content.
     bind_exn (str_value J item ''status'' ''pending'') (\<lambda>status.
     bind_exn (int_value J item ''priority'' 0) (\<lambda>priority.
       Inr \<lparr>ti_id = (if i = [] then uuid else i), ti_content = content,
             ti_status = (if known_status status then status else ''pending''),
             ti_priority = priority\<rparr>))))"

text \<open>The loop over the items: the list as it is when an item throws is kept.\<close>

fun read_todos ::
  "('j, 'z) jlib_scheme \<Rightarrow> (nat \<Rightarrow> string) \<Rightarrow> nat \<Rightarrow> 'j list \<Rightarrow> todo_item list \<Rightarrow>
   (cpp_exn + unit) \<times> todo_item list" where
  "read_todos J uuid n [] todos = (Inr (), todos)"
| "read_todos J uuid n (item # r) todos =
     (case read_todo J (uuid n) item of
        Inl e \<Rightarrow> (Inl e, todos)
      | Inr t \<Rightarrow> read_todos J uuid (n + 1) r (if ti_content t \<noteq> [] then todos @ [t] else todos))"

text \<open>The comparison; texts compare byte by byte.\<close>

definition todo_before :: "todo_item \<Rightarrow> todo_item \<Rightarrow> bool" where
  "todo_before a b =
     (if ti_priority a \<noteq> ti_priority b then ti_priority a > ti_priority b
      else if ti_status a \<noteq> ti_status b then ti_status a < ti_status b
      else False)"

definition with_status :: "string \<Rightarrow> todo_item list \<Rightarrow> nat" where
  "with_status s todos = length (filter (\<lambda>t. ti_status t = s) todos)"

definition status_icon :: "string \<Rightarrow> string" where
  "status_icon s =
     (if s = ''completed'' then [CHR 0xE2, CHR 0x9C, CHR 0x85]
      else if s = ''in_progress'' then [CHR 0xF0, CHR 0x9F, CHR 0x94, CHR 0x84]
      else [CHR 0xE2, CHR 0xAC, CHR 0x9C])"

definition todo_line :: "todo_item \<Rightarrow> string" where
  "todo_line t =
     ''  '' @ status_icon (ti_status t) @ '' '' @ ti_content t @
     (if ti_priority t > 0 then '' [priority:'' @ int_to_string (ti_priority t) @ '']'' else []) @ [CHR 0x0A]"

definition todo_report :: "todo_item list \<Rightarrow> string" where
  "todo_report todos =
     ''Todo list updated ('' @ nat_to_string (length todos) @ '' items):'' @ [CHR 0x0A] @
     concat (map todo_line todos) @ [CHR 0x0A] @ ''  Summary: '' @
     nat_to_string (with_status ''completed'' todos) @ '' completed, '' @
     nat_to_string (with_status ''in_progress'' todos) @ '' in progress, '' @
     nat_to_string (length todos - with_status ''completed'' todos - with_status ''in_progress'' todos) @
     '' pending''"

definition todo_execute ::
  "('j, 'z) jlib_scheme \<Rightarrow> (cpp_exn \<Rightarrow> string) \<Rightarrow> (todo_item list \<Rightarrow> todo_item list) \<Rightarrow> (nat \<Rightarrow> string) \<Rightarrow>
   string \<Rightarrow> todo_item list \<Rightarrow> (cpp_exn + tool_output) \<times> todo_item list" where
  "todo_execute J what sorting uuid input_json todos =
     (case parse_json J input_json of
        Inl e \<Rightarrow> (caught_json what (Inl e), todos)
      | Inr j \<Rightarrow>
          if \<not> j_contains J j ''todos'' then (Inr (tool_err ''todos must be an array''), todos)
          else (case j_at J j ''todos'' of
              None \<Rightarrow> (caught_json what (Inl Json_Type_Error), todos)
            | Some v \<Rightarrow>
                if \<not> j_is_array J v then (Inr (tool_err ''todos must be an array''), todos)
                else (case read_todos J uuid 0 (j_elems J v) [] of
                    (Inl e, new) \<Rightarrow> (caught_json what (Inl e), new)
                  | (Inr _, new) \<Rightarrow>
                      (let s = sorting new in (Inr (tool_ok (todo_report s)), s)))))"

section \<open>What a call does to the list\<close>

lemma read_todos_good:
  assumes "\<forall>i<length items. read_todo J (uuid (n + i)) (items ! i) = Inr (ts ! i)"
    and "length ts = length items"
  shows "read_todos J uuid n (items @ rest) acc =
    read_todos J uuid (n + length items) rest (acc @ filter (\<lambda>t. ti_content t \<noteq> []) ts)"
  using assms
proof (induction items arbitrary: n ts acc)
  case (Cons item items)
  then obtain t ts' where ts: "ts = t # ts'" by (cases ts) auto
  have "\<forall>i<length items. read_todo J (uuid (n + 1 + i)) (items ! i) = Inr (ts' ! i)"
    using Cons.prems(1) ts by (auto dest: spec [of _ "Suc _"])
  from Cons.IH [OF this] Cons.prems ts show ?case
    using spec [OF Cons.prems(1), of 0] by simp
qed simp

text \<open>A status of three comes in the order completed, in progress, pending.\<close>

lemma status_order:
  assumes "known_status a" and "known_status b"
  shows "a < b \<longleftrightarrow> (a = ''completed'' \<and> b \<noteq> ''completed'') \<or> (a = ''in_progress'' \<and> b = ''pending'')"
proof -
  have "''completed'' < ''in_progress''" and "''in_progress'' < ''pending''" by code_simp+
  moreover from this have "''completed'' < ''pending''" by (rule less_trans)
  moreover have "\<not> ''in_progress'' < ''completed''" "\<not> ''pending'' < ''in_progress''"
      "\<not> ''pending'' < ''completed''"
    using calculation by (meson less_asym)+
  moreover have "''completed'' \<noteq> ''in_progress''" "''in_progress'' \<noteq> ''pending''" "''completed'' \<noteq> ''pending''"
      "''in_progress'' \<noteq> ''completed''" "''pending'' \<noteq> ''in_progress''" "''pending'' \<noteq> ''completed''"
    by simp_all
  ultimately show ?thesis using assms unfolding known_status_def
    by (elim disjE) (simp_all only: less_irrefl simp_thms)
qed

lemma read_todo_known: "read_todo J uuid item = Inr t \<Longrightarrow> known_status (ti_status t)"
  by (auto simp: read_todo_def bind_exn_Inr known_status_def split: if_splits)

text \<open>The items are read: the state is a sorted rearrangement of those with a content.\<close>

lemma todo_execute_good:
  assumes "parse_json J input_json = Inr j" and "j_contains J j ''todos''"
    and "j_at J j ''todos'' = Some v" and "j_is_array J v"
    and "\<forall>i<length (j_elems J v). read_todo J (uuid i) (j_elems J v ! i) = Inr (ts ! i)"
    and "length ts = length (j_elems J v)"
  shows "todo_execute J what sorting uuid input_json todos =
    (let s = sorting (filter (\<lambda>t. ti_content t \<noteq> []) ts) in (Inr (tool_ok (todo_report s)), s))"
  using assms read_todos_good [of "j_elems J v" J uuid 0 ts "[]" "[]"]
  by (simp add: todo_execute_def Let_def)

text \<open>
  C20: A call whose items are all read replaces the list by exactly the items that have a content,
  higher priorities first and, among equal ones, the completed before those in progress before
  the pending (the comment in the code has the reverse); every status is one of the three, and
  the three counts of the report add up to the number of the items.
\<close>

theorem todo_list_replaced:
  assumes "parse_json J input_json = Inr j" and "j_contains J j ''todos''"
    and "j_at J j ''todos'' = Some v" and "j_is_array J v"
    and "\<forall>i<length (j_elems J v). read_todo J (uuid i) (j_elems J v ! i) = Inr (ts ! i)"
    and "length ts = length (j_elems J v)"
    and "law_sort todo_before sorting"
    and "todo_execute J what sorting uuid input_json todos = (r, s)"
  shows "r = Inr (tool_ok (todo_report s)) \<and>
    mset s = mset (filter (\<lambda>t. ti_content t \<noteq> []) ts) \<and>
    (\<forall>i k. i < k \<and> k < length s \<longrightarrow> ti_priority (s ! i) \<ge> ti_priority (s ! k) \<and>
      (ti_priority (s ! i) = ti_priority (s ! k) \<longrightarrow>
        (ti_status (s ! k) = ''completed'' \<longrightarrow> ti_status (s ! i) = ''completed'') \<and>
        (ti_status (s ! i) = ''pending'' \<longrightarrow> ti_status (s ! k) = ''pending''))) \<and>
    (\<forall>t\<in>set s. known_status (ti_status t)) \<and>
    with_status ''completed'' s + with_status ''in_progress'' s + with_status ''pending'' s = length s"
proof -
  have s: "s = sorting (filter (\<lambda>t. ti_content t \<noteq> []) ts)" "r = Inr (tool_ok (todo_report s))"
    using todo_execute_good [OF assms(1-6), of what sorting todos] assms(8) by (auto simp: Let_def)
  have ms: "mset s = mset (filter (\<lambda>t. ti_content t \<noteq> []) ts)"
    and sorted: "sorted_wrt (\<lambda>a b. \<not> todo_before b a) s"
    using assms(7) s(1) by (simp_all add: law_sort_def)
  have "known_status (ti_status t)" if "t \<in> set ts" for t
    using that assms(5,6) read_todo_known by (metis in_set_conv_nth)
  moreover have "set s \<subseteq> set ts" using ms by (metis filter_is_subset set_mset_mset)
  ultimately have known: "\<forall>t\<in>set s. known_status (ti_status t)" by blast
  have "ti_priority (s ! i) \<ge> ti_priority (s ! k) \<and>
      (ti_priority (s ! i) = ti_priority (s ! k) \<longrightarrow>
        (ti_status (s ! k) = ''completed'' \<longrightarrow> ti_status (s ! i) = ''completed'') \<and>
        (ti_status (s ! i) = ''pending'' \<longrightarrow> ti_status (s ! k) = ''pending''))"
    if "i < k" "k < length s" for i k
  proof -
    have "\<not> todo_before (s ! k) (s ! i)" using sorted that by (simp add: sorted_wrt_iff_nth_less)
    moreover have "known_status (ti_status (s ! i))" "known_status (ti_status (s ! k))"
      using known that by simp_all
    ultimately show ?thesis
      using status_order [of "ti_status (s ! k)" "ti_status (s ! i)"]
      unfolding todo_before_def known_status_def by (auto split: if_splits)
  qed
  moreover have "with_status ''completed'' l + with_status ''in_progress'' l + with_status ''pending'' l = length l"
    if "\<forall>t\<in>set l. known_status (ti_status t)" for l
    using that by (induction l) (auto simp: with_status_def known_status_def)
  ultimately show ?thesis using s(2) ms known by blast
qed

text \<open>
  An item that cannot be read, one that is no object for instance: the call fails, and the items
  before it are the whole list from then on. The old list is lost; the copy the code makes of it
  is never used.
\<close>

theorem todo_failure_loses_list:
  assumes "parse_json J input_json = Inr j" and "j_contains J j ''todos''"
    and "j_at J j ''todos'' = Some v" and "j_is_array J v" and "j_elems J v = good @ bad # rest"
    and "\<forall>i<length good. read_todo J (uuid i) (good ! i) = Inr (ts ! i)" and "length ts = length good"
    and "read_todo J (uuid (length good)) bad = Inl Json_Type_Error"
  shows "todo_execute J what sorting uuid input_json todos =
    (Inr (tool_err (''Error: '' @ what Json_Type_Error)), filter (\<lambda>t. ti_content t \<noteq> []) ts)"
  using assms read_todos_good [of good J uuid 0 ts "bad # rest" "[]"]
  by (simp add: todo_execute_def caught_json_def std_exception_def)

definition sample_todos :: "jv list \<Rightarrow> jv jlib" where
  "sample_todos items = sample_jlib (\<lambda>s. Inr (JObj [(''todos'', JArr items)])) (\<lambda>v. [])"

definition sorting_todos :: "todo_item list \<Rightarrow> todo_item list" where
  "sorting_todos = sort_key (\<lambda>t. (- ti_priority t, ti_status t))"

lemma sorting_todos_law: "law_sort todo_before sorting_todos"
proof -
  have "sorted_wrt (\<lambda>a b. \<not> todo_before b a) (sorting_todos xs)" for xs
  proof -
    have "sorted (map (\<lambda>t. (- ti_priority t, ti_status t)) (sorting_todos xs))"
      unfolding sorting_todos_def by (rule sorted_sort_key)
    then show ?thesis
      unfolding sorted_map by (rule sorted_wrt_mono_rel [rotated]) (auto simp: todo_before_def)
  qed
  then show ?thesis by (simp add: law_sort_def sorting_todos_def)
qed

lemma todo_list_replaced_witness:
  "let J = sample_todos [JObj [(''content'', JStr ''a'')], JObj [(''content'', JStr ''b''), (''priority'', JInt 2)]]
   in \<exists>s. todo_execute J (\<lambda>e. []) sorting_todos (\<lambda>n. ''u'') [] [] = (Inr (tool_ok (todo_report s)), s) \<and>
     length s = 2 \<and> ti_priority (s ! 0) \<ge> ti_priority (s ! 1)"
proof -
  let ?items = "[JObj [(''content'', JStr ''a'')], JObj [(''content'', JStr ''b''), (''priority'', JInt 2)]]"
  let ?ts = "[\<lparr>ti_id = ''u'', ti_content = ''a'', ti_status = ''pending'', ti_priority = 0\<rparr>,
    \<lparr>ti_id = ''u'', ti_content = ''b'', ti_status = ''pending'', ti_priority = 2\<rparr>]"
  let ?J = "sample_todos ?items"
  obtain r s where run: "todo_execute ?J (\<lambda>e. []) sorting_todos (\<lambda>n. ''u'') [] [] = (r, s)"
    by (rule prod.exhaust)
  have "\<forall>i<length ?items. read_todo ?J ''u'' (?items ! i) = Inr (?ts ! i)"
    by (simp add: less_Suc_eq sample_todos_def read_todo_def str_value_def
        int_value_def known_status_def jv_defs nth_Cons')
  then have "r = Inr (tool_ok (todo_report s)) \<and> mset s = mset (filter (\<lambda>t. ti_content t \<noteq> []) ?ts) \<and>
      (\<forall>i k. i < k \<and> k < length s \<longrightarrow> ti_priority (s ! i) \<ge> ti_priority (s ! k))"
    using todo_list_replaced [OF _ _ _ _ _ _ sorting_todos_law run,
        of "JObj [(''todos'', JArr ?items)]" "JArr ?items" ?ts]
    by (simp add: sample_todos_def parse_json_def jv_defs)
  moreover from this have "length s = length (filter (\<lambda>t. ti_content t \<noteq> []) ?ts)"
    using mset_eq_length [of s "filter (\<lambda>t. ti_content t \<noteq> []) ?ts"] by blast
  ultimately show ?thesis using run by auto
qed

lemma todo_failure_loses_list_witness:
  "todo_execute (sample_todos [JNull]) (\<lambda>e. ''no object'') sorting_todos (\<lambda>n. ''u'') []
     [\<lparr>ti_id = ''1'', ti_content = ''old'', ti_status = ''pending'', ti_priority = 0\<rparr>] =
   (Inr (tool_err ''Error: no object''), [])"
  using todo_failure_loses_list [of "sample_todos [JNull]" "[]" "JObj [(''todos'', JArr [JNull])]" "JArr [JNull]" "[]" JNull "[]"
      "\<lambda>n. ''u''" "[]" "\<lambda>e. ''no object''" sorting_todos]
  by (simp add: sample_todos_def parse_json_def jv_defs read_todo_def str_value_def)

end
