(* ===== verification/Agent_Tool.thy ===== *)
theory Agent_Tool
  imports Coordinator Tools
begin

text \<open>
  The agent tool: \<open>src/tools/agent_tool.cpp\<close>, the way the assistant reaches the coordinator of
  theory \<open>Coordinator\<close>. The JSON library's indented printer, \<open>dump(2)\<close>, is an argument.
\<close>

definition new_task :: "('j, 'z) jlib_scheme \<Rightarrow> string \<Rightarrow> string \<Rightarrow> 'j \<Rightarrow> string \<Rightarrow> 'j agent_task" where
  "new_task J task_desc agent_type input context =
     \<lparr>at_id = [], at_description = task_desc, at_agent_type = agent_type,
      at_input = (if context \<noteq> [] then j_set J ''context'' (j_string J context) input else input),
      at_output = j_null J, at_status = Idle, at_error_message = [], at_start_time_ms = 0,
      at_end_time_ms = 0\<rparr>"

definition task_output :: "('j, 'z) jlib_scheme \<Rightarrow> ('j \<Rightarrow> string) \<Rightarrow> 'j agent_task \<Rightarrow> tool_output" where
  "task_output J dump2 result =
     (if at_status result = Failed then tool_err (''Agent failed: '' @ at_error_message result)
      else if at_status result = agent_status.Cancelled then tool_err ''Agent task was cancelled''
      else tool_ok
        (case (if j_is_string J (at_output result) then j_get_str J (at_output result) else None) of
           Some s \<Rightarrow> s
         | None \<Rightarrow> if \<not> j_is_null J (at_output result) then dump2 (at_output result) else []))"

definition list_names :: "string list \<Rightarrow> string" where
  "list_names names = foldl (\<lambda>a t. (if a \<noteq> [] then a @ '', '' else a) @ t) [] names"

definition agent_run ::
  "('j, 'z) jlib_scheme \<Rightarrow> ('j \<Rightarrow> string) \<Rightarrow> rat \<Rightarrow> rat \<Rightarrow> tool_context \<Rightarrow> 'j coordinator \<Rightarrow>
   'j \<Rightarrow> string \<Rightarrow> string \<Rightarrow> string \<Rightarrow> tool_output" where
  "agent_run J dump2 start_time end_time ctx c input agent_type task_desc context =
     (if task_desc = [] then tool_err '''task' field is required''
      else if tx_check_permission ctx ''agent_execute'' agent_type = Denied
      then tool_err ''Agent execution denied by permission system''
      else if \<not> list_ex (\<lambda>t. t = agent_type) (agent_types c)
      then tool_err (''Unknown agent type '' @ [CHR 0x27] @ agent_type @ [CHR 0x27] @ ''. Available: '' @
             list_names (agent_types c))
      else task_output J dump2
        (run_task J start_time end_time agent_type (new_task J task_desc agent_type input context) c))"

definition agent_execute ::
  "('j, 'z) jlib_scheme \<Rightarrow> (cpp_exn \<Rightarrow> string) \<Rightarrow> ('j \<Rightarrow> string) \<Rightarrow> rat \<Rightarrow> rat \<Rightarrow> 'j coordinator \<Rightarrow>
   string \<Rightarrow> tool_context \<Rightarrow> cpp_exn + tool_output" where
  "agent_execute J what dump2 start_time end_time c input_json ctx =
     caught what ''Agent tool error: ''
       (bind_exn (parse_json J input_json) (\<lambda>input.
        bind_exn (str_value J input ''agent_type'' ''coder'') (\<lambda>agent_type.
        bind_exn (str_value J input ''task'' []) (\<lambda>task_desc.
        bind_exn (str_value J input ''context'' []) (\<lambda>context.
          Inr (agent_run J dump2 start_time end_time ctx c input agent_type task_desc context))))))"

section \<open>The answer\<close>

text \<open>
  What a call answers. It never fails because of the agent, and neither the task nor its context
  reaches one: the answer is the same fixed text for every task given to an agent of a type.
\<close>

theorem agent_ignores_task:
  assumes "task_desc \<noteq> []" and "tx_check_permission ctx ''agent_execute'' agent_type \<noteq> Denied"
    and "\<not> j_is_string J out" and "\<not> j_is_null J out"
    and "get_agent_def agent_type c = Some d"
    and "out = j_set J ''message'' (j_string J (''Task completed by agent '' @ ad_name d))
      (j_set J ''status'' (j_string J ''completed'') (j_object J []))"
  shows "agent_run J dump2 s t ctx c input agent_type task_desc context = tool_ok (dump2 out)"
proof -
  have create: "create_agent agent_type c = Some (new_instance d)"
    using assms(5) by (simp add: create_agent_def get_agent_def_def)
  let ?task = "new_task J task_desc agent_type input context"
  have "at_status (run_task J s t agent_type ?task c) = Completed"
    "at_output (run_task J s t agent_type ?task c) = out"
    using create assms(6) by (simp_all add: run_task_def execute_task_def new_instance_def Let_def)
  then have "task_output J dump2 (run_task J s t agent_type ?task c) = tool_ok (dump2 out)"
    using assms(3,4) by (simp add: task_output_def)
  moreover have "agent_type \<in> set (agent_types c)"
    using assms(5) by (force simp: agent_types_def get_agent_def_def om_keys_def om_get_def dest: map_of_SomeD)
  ultimately show ?thesis
    using assms(1,2) by (simp add: agent_run_def list_ex_iff)
qed

definition sample_agent :: agent_def where
  "sample_agent = \<lparr>ad_name = ''Tester'', ad_type = ''tester'', ad_description = [], ad_model_id = [],
     ad_system_prompt = [], ad_capabilities = [], ad_available_tools = []\<rparr>"

lemma agent_ignores_task_witness:
  "agent_run (sample_jlib (\<lambda>s. Inl []) (\<lambda>v. [])) (\<lambda>v. ''{..}'') 0 1 sample_context
     (register_agent sample_agent new_coordinator) JNull ''tester'' ''test it'' [] = tool_ok ''{..}''"
  by (rule agent_ignores_task [OF _ _ _ _ _ refl, of _ _ _ _ sample_agent])
    (simp_all add: sample_context_def get_agent_def_def register_agent_def sample_agent_def
      new_coordinator_def om_get_def)

end
