(* ===== verification/Terminal.thy ===== *)
theory Terminal
  imports String_Utils Json
begin

text \<open>
  Text for the terminal: \<open>src/ui/terminal.h\<close> and \<open>terminal.cpp\<close>, and the renderer of
  \<open>output_renderer.h\<close> and \<open>output_renderer.cpp\<close>. What is printed is appended to a text; what is
  typed is a list of lines, empty at the end of the input. Arguments: whether colours are used,
  the width of the terminal, and the printed forms of cost and duration, which the code computes
  with floating-point numbers.
\<close>

definition newline :: char where
  "newline = CHR 0x0A"

section \<open>Styled text\<close>

definition escape_code :: "string \<Rightarrow> string" where
  "escape_code code = [CHR 0x1B, CHR ''[''] @ code @ ''m''"

definition has_color :: "bool \<Rightarrow> string option \<Rightarrow> bool" where
  "has_color tty term_name = (tty \<and> (case term_name of None \<Rightarrow> False | Some t \<Rightarrow> t \<noteq> ''dumb''))"

definition styled :: "bool \<Rightarrow> string \<Rightarrow> string \<Rightarrow> string" where
  "styled color code t = (if color then escape_code code @ t @ escape_code ''0'' else t)"

definition bold :: "bool \<Rightarrow> string \<Rightarrow> string" where "bold color = styled color ''1''"
definition dim :: "bool \<Rightarrow> string \<Rightarrow> string" where "dim color = styled color ''2''"
definition red :: "bool \<Rightarrow> string \<Rightarrow> string" where "red color = styled color ''31''"
definition green :: "bool \<Rightarrow> string \<Rightarrow> string" where "green color = styled color ''32''"
definition yellow :: "bool \<Rightarrow> string \<Rightarrow> string" where "yellow color = styled color ''33''"
definition blue :: "bool \<Rightarrow> string \<Rightarrow> string" where "blue color = styled color ''34''"
definition cyan :: "bool \<Rightarrow> string \<Rightarrow> string" where "cyan color = styled color ''36''"
definition gray :: "bool \<Rightarrow> string \<Rightarrow> string" where "gray color = styled color ''90''"

section \<open>Markdown\<close>

definition markdown_line :: "bool \<Rightarrow> string \<Rightarrow> string" where
  "markdown_line color line =
     (if prefix ''# '' line then bold color (yellow color (drop 2 line))
      else if prefix ''## '' line then bold color (drop 3 line)
      else if prefix ''### '' line then bold color (cyan color (drop 4 line))
      else if prefix ''- '' line \<or> prefix ''* '' line then ''  '' @ line
      else line) @ [newline]"

fun markdown_loop :: "bool \<Rightarrow> string list \<Rightarrow> bool \<Rightarrow> string \<Rightarrow> string" where
  "markdown_loop color [] in_code_block result = result"
| "markdown_loop color (line # ls) in_code_block result =
     (if prefix ''```'' line
      then markdown_loop color ls (\<not> in_code_block) (result @ dim color line @ [newline])
      else if in_code_block
      then markdown_loop color ls in_code_block (result @ dim color (''  '' @ line) @ [newline])
      else markdown_loop color ls in_code_block (result @ markdown_line color line))"

definition render_markdown :: "bool \<Rightarrow> string \<Rightarrow> string" where
  "render_markdown color s = markdown_loop color (split_char s newline) False []"

section \<open>ProgressSpinner\<close>

record spinner =
  sp_message :: string
  sp_running :: bool

definition hourglass :: string where
  "hourglass = [CHR 0xE2, CHR 0x8F, CHR 0xB3]"

definition spinner_line :: "string \<Rightarrow> string" where
  "spinner_line message = escape_code ''33'' @ hourglass @ '' '' @ message @ escape_code ''0''"

definition blank_line :: string where
  "blank_line = [CHR 0x0D] @ replicate 80 (CHR '' '') @ [CHR 0x0D]"

definition spinner_start :: "spinner \<Rightarrow> string \<Rightarrow> spinner \<times> string" where
  "spinner_start s out =
     (if sp_running s then (s, out)
      else (s\<lparr>sp_running := True\<rparr>, out @ spinner_line (sp_message s)))"

definition spinner_stop :: "spinner \<Rightarrow> string \<Rightarrow> spinner \<times> string" where
  "spinner_stop s out =
     (if \<not> sp_running s then (s, out) else (s\<lparr>sp_running := False\<rparr>, out @ blank_line))"

definition set_message :: "string \<Rightarrow> spinner \<Rightarrow> string \<Rightarrow> spinner \<times> string" where
  "set_message message s out =
     (s\<lparr>sp_message := message\<rparr>,
      if sp_running s then out @ blank_line @ spinner_line message else out)"

section \<open>Input\<close>

text \<open>The value read, what is left of the input, and the output.\<close>

definition read_line :: "string \<Rightarrow> string list \<Rightarrow> string \<Rightarrow> string \<times> string list \<times> string" where
  "read_line prompt input out =
     (case input of [] \<Rightarrow> ([], [], out @ prompt) | l # ls \<Rightarrow> (l, ls, out @ prompt))"

definition confirm :: "string \<Rightarrow> string list \<Rightarrow> string \<Rightarrow> bool \<times> string list \<times> string" where
  "confirm question input out =
     (let out1 = out @ question @ '' (y/n) '' in
      case input of
        [] \<Rightarrow> (False, [], out1)
      | answer # ls \<Rightarrow>
          (let c = (if answer = [] then CHR ''n'' else hd answer)
           in (c = CHR ''y'' \<or> c = CHR ''Y'', ls, out1)))"

definition select_menu :: "bool \<Rightarrow> string list \<Rightarrow> string" where
  "select_menu color options =
     concat (map (\<lambda>i. ''  '' @ cyan color (nat_to_string (i + 1) @ ''.'') @ '' '' @ options ! i @ [newline])
       [0..<length options])"

definition select ::
  "bool \<Rightarrow> string \<Rightarrow> string list \<Rightarrow> string list \<Rightarrow> string \<Rightarrow> int \<times> string list \<times> string" where
  "select color question options input out =
     (if options = [] then (-1, input, out)
      else if length options = 1 then (0, input, out)
      else let out1 = out @ question @ [newline] @ select_menu color options @ ''> '' in
        case input of
          [] \<Rightarrow> (-1, [], out1)
        | answer # ls \<Rightarrow>
            ((case stoi answer of
                Inr choice \<Rightarrow> if choice \<ge> 1 \<and> nat choice \<le> length options then choice - 1 else -1
              | Inl e \<Rightarrow> -1), ls, out1))"

text \<open>The answer of a menu is a place in it, or -1.\<close>

lemma select_in_menu:
  "fst (select color question options input out) = -1 \<or>
   0 \<le> fst (select color question options input out) \<and>
   nat (fst (select color question options input out)) < length options"
  by (auto simp: select_def Let_def split: list.split sum.split)

definition clear_screen :: string where
  "clear_screen = [CHR 0x1B] @ ''[2J'' @ [CHR 0x1B] @ ''[H''"

definition move_cursor :: "int \<Rightarrow> int \<Rightarrow> string" where
  "move_cursor row col = [CHR 0x1B, CHR ''[''] @ int_to_string row @ '';'' @ int_to_string col @ ''H''"

section \<open>Wrapping\<close>

definition wrap_width :: "int \<Rightarrow> int \<Rightarrow> nat" where
  "wrap_width terminal width =
     (let w = (if width \<le> 0 then terminal - 2 else width) in nat (if w < 20 then 20 else w))"

text \<open>A word longer than a line is broken: the result and the column so far.\<close>

function break_word :: "nat \<Rightarrow> string \<Rightarrow> string \<times> nat \<Rightarrow> string \<times> nat" where
  "break_word width w (result, col) =
     (if w = [] \<or> width = 0 then (result, col)
      else break_word width (drop width w)
        ((if col > 0 then result @ [newline] else result) @ take width w, length (take width w)))"
  by pat_completeness auto
termination
  by (relation "measure (\<lambda>(width, w, r). length w)") auto

declare break_word.simps [simp del]

definition wrap_word :: "nat \<Rightarrow> string \<times> nat \<Rightarrow> string \<Rightarrow> string \<times> nat" where
  "wrap_word width rc w =
     (let (result, col) = rc in
      if length w > width then break_word width w (result, col)
      else let (result1, col1) =
             (if col + length w > width \<and> col > 0 then (result @ [newline], 0) else (result, col));
             (result2, col2) = (if col1 > 0 then (result1 @ '' '', col1 + 1) else (result1, col1))
           in (result2 @ w, col2 + length w))"

definition word_wrap :: "int \<Rightarrow> string \<Rightarrow> int \<Rightarrow> string" where
  "word_wrap terminal s width = fst (foldl (wrap_word (wrap_width terminal width)) ([], 0) (words_of s))"

text \<open>The position \<open>max_width - 3\<close> is converted to an unsigned number.\<close>

definition truncate_line :: "int \<Rightarrow> string \<Rightarrow> int \<Rightarrow> string" where
  "truncate_line terminal s max_width =
     (let w = (if max_width \<le> 0 then terminal - 2 else max_width)
      in if int (length s) \<le> w then s
         else take (nat ((w - 3) mod 2 ^ 64)) s @ ''...'')"

section \<open>OutputRenderer\<close>

record renderer =
  rd_show_thinking :: bool
  rd_in_thinking_block :: bool
  rd_pending_thinking :: string
  rd_out :: string

definition print :: "string \<Rightarrow> renderer \<Rightarrow> renderer" where
  "print s r = r\<lparr>rd_out := rd_out r @ s\<rparr>"

definition render_thinking_end :: "renderer \<Rightarrow> renderer" where
  "render_thinking_end r =
     (let r1 = r\<lparr>rd_in_thinking_block := False, rd_pending_thinking := []\<rparr>
      in if rd_show_thinking r1 then print [newline] r1 else r1)"

definition render_text :: "string \<Rightarrow> renderer \<Rightarrow> renderer" where
  "render_text s r = print s (if rd_in_thinking_block r then render_thinking_end r else r)"

definition render_tool_start :: "bool \<Rightarrow> string \<Rightarrow> renderer \<Rightarrow> renderer" where
  "render_tool_start color tool_name =
     print (gray color ([newline, CHR 0xE2, CHR 0x9A, CHR 0xA1] @ '' '' @ tool_name @ ''...''))"

definition is_timing :: "string \<Rightarrow> bool" where
  "is_timing line =
     (let t = trim line in prefix ''('' t \<and> contains_str t '')'' \<and> contains_str t ''ms'')"

text \<open>
  The loop over the lines. At the ninth, the text so far is replaced, not extended, by the note.
\<close>

fun shown_lines :: "bool \<Rightarrow> nat \<Rightarrow> string list \<Rightarrow> nat \<Rightarrow> string \<Rightarrow> string" where
  "shown_lines color all [] shown truncated = truncated"
| "shown_lines color all (line # ls) shown truncated =
     (if shown \<ge> 8
      then [newline] @ ''  ... ('' @ nat_to_string all @ '' total lines)''
      else shown_lines color all ls (Suc shown) (truncated @ dim color (''  '' @ line) @ [newline]))"

definition tool_result_lines :: "string \<Rightarrow> string list" where
  "tool_result_lines output =
     (let ls = split_parts [newline] output
      in if ls \<noteq> [] \<and> is_timing (last ls) then butlast ls else ls)"

definition tool_result_text :: "bool \<Rightarrow> string \<Rightarrow> bool \<Rightarrow> string \<Rightarrow> string" where
  "tool_result_text color tool_name ok output =
     (if ok then green color ([CHR 0xE2, CHR 0x9C, CHR 0x85] @ '' '' @ tool_name)
      else yellow color ([CHR 0xE2, CHR 0x9A, CHR 0xA0, CHR 0xEF, CHR 0xB8, CHR 0x8F] @ '' '' @ tool_name @
        '' (non-zero exit)'')) @ [newline] @
     (if output \<noteq> []
      then (let ls = tool_result_lines output in shown_lines color (length ls) ls 0 []) else [])"

definition render_tool_result :: "bool \<Rightarrow> string \<Rightarrow> bool \<Rightarrow> string \<Rightarrow> renderer \<Rightarrow> renderer" where
  "render_tool_result color tool_name ok output = print (tool_result_text color tool_name ok output)"

definition render_tool_error :: "bool \<Rightarrow> string \<Rightarrow> string \<Rightarrow> renderer \<Rightarrow> renderer" where
  "render_tool_error color tool_name e =
     print (red color ([CHR 0xE2, CHR 0x9D, CHR 0x8C] @ '' '' @ tool_name @ '': '' @ e) @ [newline])"

definition render_thinking_start :: "bool \<Rightarrow> renderer \<Rightarrow> renderer" where
  "render_thinking_start color r =
     (if \<not> rd_show_thinking r then r\<lparr>rd_in_thinking_block := True, rd_pending_thinking := []\<rparr>
      else (print (dim color ([CHR 0xF0, CHR 0x9F, CHR 0x92, CHR 0xAD] @ '' Thinking...'') @ [newline]) r)
        \<lparr>rd_in_thinking_block := True\<rparr>)"

definition render_thinking_chunk :: "bool \<Rightarrow> string \<Rightarrow> renderer \<Rightarrow> renderer" where
  "render_thinking_chunk color s r =
     (if \<not> rd_show_thinking r then r\<lparr>rd_pending_thinking := rd_pending_thinking r @ s\<rparr>
      else print (dim color s) r)"

definition rule_bytes :: string where
  "rule_bytes = concat (replicate 5 [CHR 0xE2, CHR 0x94, CHR 0x80])"

definition dot :: string where
  "dot = '' '' @ [CHR 0xC2, CHR 0xB7] @ '' ''"

text \<open>\<open>cost\<close> and \<open>duration\<close> are the printed forms, \<open>None\<close> when not positive.\<close>

definition render_cost_summary ::
  "bool \<Rightarrow> string option \<Rightarrow> int \<Rightarrow> int \<Rightarrow> string option \<Rightarrow> int \<Rightarrow> renderer \<Rightarrow> renderer" where
  "render_cost_summary color cost input_tokens output_tokens duration tool_calls =
     print (gray color rule_bytes @
       gray color ('' Tokens: '' @ int_to_string input_tokens @ '' in, '' @ int_to_string output_tokens @ '' out'') @
       (case cost of None \<Rightarrow> [] | Some c \<Rightarrow> dot @ ''$'' @ c) @
       (case duration of None \<Rightarrow> [] | Some d \<Rightarrow> dot @ d) @
       (if tool_calls > 0 then dot @ int_to_string tool_calls @ '' tool calls'' else []) @
       gray color ('' '' @ rule_bytes) @ [newline])"

definition render_error :: "bool \<Rightarrow> string \<Rightarrow> renderer \<Rightarrow> renderer" where
  "render_error color message = print (red color (''Error: '' @ message) @ [newline])"

definition set_show_thinking :: "bool \<Rightarrow> renderer \<Rightarrow> renderer" where
  "set_show_thinking b r = r\<lparr>rd_show_thinking := b\<rparr>"

section \<open>The lines of a wrapped text\<close>

text \<open>\<open>k\<close> characters into a line, no line of the text is longer than \<open>n\<close>; the column at its end.\<close>

fun fits :: "nat \<Rightarrow> nat \<Rightarrow> string \<Rightarrow> bool" where
  "fits n k [] = (k \<le> n)"
| "fits n k (c # cs) = (if c = newline then k \<le> n \<and> fits n 0 cs else fits n (Suc k) cs)"

fun end_col :: "nat \<Rightarrow> string \<Rightarrow> nat" where
  "end_col k [] = k"
| "end_col k (c # cs) = (if c = newline then end_col 0 cs else end_col (Suc k) cs)"

lemma fits_append: "fits n k (s @ t) \<longleftrightarrow> fits n k s \<and> fits n (end_col k s) t"
proof (induction n k s rule: fits.induct)
  case (1 n k)
  have "fits n j t \<Longrightarrow> j \<le> n" for j
    by (induction t arbitrary: j) (auto split: if_splits dest: Suc_leD)
  then show ?case by auto
qed auto

lemma end_col_append: "end_col k (s @ t) = end_col (end_col k s) t"
  by (induction k s rule: end_col.induct) auto

lemma no_newline_line:
  "newline \<notin> set w \<Longrightarrow> (fits n k w \<longleftrightarrow> k + length w \<le> n) \<and> end_col k w = k + length w"
  by (induction w arbitrary: k) auto

lemma fits_lines: "fits n 0 s \<Longrightarrow> \<forall>l \<in> set (split_char s newline). length l \<le> n"
proof (induction s rule: length_induct)
  case (1 s)
  let ?l = "takeWhile (\<lambda>c. c \<noteq> newline) s" and ?r = "dropWhile (\<lambda>c. c \<noteq> newline) s"
  show ?case
  proof (cases "s = []")
    case True
    then show ?thesis by (subst split_char.simps) simp
  next
    case False
    have free: "newline \<notin> set ?l" by (auto dest: set_takeWhileD)
    have "fits n 0 (?l @ ?r)" using "1.prems" by (simp only: takeWhile_dropWhile_id)
    then have line: "length ?l \<le> n" and rest: "fits n (length ?l) ?r"
      unfolding fits_append using no_newline_line [OF free, of n 0] by (simp_all only: add_0)
    have "fits n 0 (drop 1 ?r)"
    proof (cases ?r)
      case (Cons c cs)
      then have "c = newline" using hd_dropWhile [of "\<lambda>c. c \<noteq> newline" s] by auto
      with rest Cons show ?thesis by simp
    next
      case Nil
      then show ?thesis by (simp only: drop_Nil fits.simps le0)
    qed
    moreover have "length (drop 1 ?r) < length s"
      using False length_dropWhile_le [of "\<lambda>c. c \<noteq> newline" s] by (cases ?r; cases s) auto
    ultimately have "\<forall>l \<in> set (split_char (drop 1 ?r) newline). length l \<le> n"
      using "1.IH" by blast
    with line show ?thesis
      using False by (subst split_char.simps) simp
  qed
qed

definition wrap_state :: "nat \<Rightarrow> string list \<Rightarrow> string \<times> nat \<Rightarrow> bool" where
  "wrap_state n done_words rc =
     (fits (Suc n) 0 (fst rc) \<and> end_col 0 (fst rc) = snd rc \<and> snd rc \<le> Suc n \<and>
      (if done_words = [] then fst rc = [] else snd rc > 0) \<and>
      (list_all (\<lambda>w. length w \<le> n) done_words \<longrightarrow> words_of (fst rc) = done_words))"

lemma word_no_newline: "word w \<Longrightarrow> newline \<notin> set w"
proof -
  have "is_space newline" by (simp add: is_space_def newline_def)
  then show "word w \<Longrightarrow> ?thesis" by (auto simp: word_def)
qed

lemma break_word_lines:
  "newline \<notin> set w \<Longrightarrow> 0 < n \<Longrightarrow> fits (Suc n) 0 r \<Longrightarrow> end_col 0 r = c \<Longrightarrow> c \<le> Suc n \<Longrightarrow>
   c > 0 \<or> r = [] \<Longrightarrow> w \<noteq> [] \<or> c > 0 \<Longrightarrow>
   (case break_word n w (r, c) of (r', c') \<Rightarrow>
      fits (Suc n) 0 r' \<and> end_col 0 r' = c' \<and> c' \<le> Suc n \<and> 0 < c')"
proof (induction w arbitrary: r c rule: length_induct)
  case (1 w)
  show ?case
  proof (cases "w = []")
    case True
    then have "break_word n w (r, c) = (r, c)" by (subst break_word.simps) simp
    with 1 True show ?thesis by simp
  next
    case False
    let ?r = "(if c > 0 then r @ [newline] else r) @ take n w" and ?c = "length (take n w)"
    have free: "newline \<notin> set (take n w)" "newline \<notin> set (drop n w)"
      using "1.prems"(1) by (auto dest: in_set_takeD in_set_dropD)
    have c: "0 < ?c" "?c \<le> Suc n" using False "1.prems"(2) by auto
    have r: "fits (Suc n) 0 ?r" "end_col 0 ?r = ?c"
      using "1.prems"(3-6) no_newline_line [OF free(1), of "Suc n" 0] c(2)
      by (cases "c > 0"; simp add: fits_append end_col_append)+
    have shorter: "length (drop n w) < length w" using False "1.prems"(2) by simp
    have "break_word n w (r, c) = break_word n (drop n w) (?r, ?c)"
      using False "1.prems"(2) by (subst break_word.simps) simp
    then show ?thesis
      using "1.IH" [rule_format, OF shorter free(2) "1.prems"(2) r c(2)] c(1) by (simp only: simp_thms)
  qed
qed

lemma wrap_state_step:
  assumes "wrap_state n ws rc" and "word w" and "0 < n"
  shows "wrap_state n (ws @ [w]) (wrap_word n rc w)"
proof -
  obtain r c where rc: "rc = (r, c)" by (rule prod.exhaust)
  have st: "fits (Suc n) 0 r" "end_col 0 r = c" "c \<le> Suc n" "c > 0 \<or> r = []"
    "ws \<noteq> [] \<Longrightarrow> c > 0" "ws = [] \<Longrightarrow> r = []"
    "list_all (\<lambda>w. length w \<le> n) ws \<longrightarrow> words_of r = ws"
    using assms(1) by (auto simp: wrap_state_def rc split: if_splits)
  have w: "newline \<notin> set w" "w \<noteq> []" using word_no_newline [OF assms(2)] assms(2) by (simp_all add: word_def)
  show ?thesis
  proof (cases "length w > n")
    case True
    with break_word_lines [OF w(1) assms(3) st(1-4)] w(2) show ?thesis
      by (auto simp: wrap_word_def rc wrap_state_def)
  next
    case False
    consider (start) "c = 0" | (same) "c > 0" "c + length w \<le> n" | (next_line) "c > 0" "c + length w > n"
      by linarith
    then show ?thesis
    proof cases
      case start
      then have "r = []" "ws = []" using st(4,5) by auto
      with start False w no_newline_line [OF w(1), of "Suc n" 0] show ?thesis
        by (simp add: wrap_word_def rc wrap_state_def words_of_word [OF assms(2)])
    next
      case same
      have "words_of (r @ CHR '' '' # w) = words_of r @ [w]"
        by (rule words_of_snoc [OF _ assms(2)]) (simp add: is_space_def)
      with same False w st no_newline_line [OF w(1), of "Suc n" "Suc c"] show ?thesis
        by (auto simp: wrap_word_def rc wrap_state_def fits_append end_col_append newline_def)
    next
      case next_line
      have "words_of (r @ newline # w) = words_of r @ [w]"
        by (rule words_of_snoc [OF _ assms(2)]) (simp add: is_space_def newline_def)
      with next_line False w st no_newline_line [OF w(1), of "Suc n" 0] show ?thesis
        by (auto simp: wrap_word_def rc wrap_state_def fits_append end_col_append)
    qed
  qed
qed

lemma wrap_state_all:
  "list_all word ws \<Longrightarrow> 0 < n \<Longrightarrow> wrap_state n us rc \<Longrightarrow>
   wrap_state n (us @ ws) (foldl (wrap_word n) rc ws)"
proof (induction ws arbitrary: us rc)
  case (Cons w ws)
  with wrap_state_step [of n us rc w] Cons.IH [of "us @ [w]"] show ?case by simp
qed simp



lemma word_wrap_too_long:
  "word_wrap 80 (replicate 10 (CHR ''a'') @ '' '' @ replicate 10 (CHR ''b'')) 20 =
     replicate 10 (CHR ''a'') @ '' '' @ replicate 10 (CHR ''b'')"
  by code_simp

section \<open>Cutting a line\<close>

text \<open>
  A line that is too long is cut to the width with an ellipsis, if the width is at least three.
  For a width of one or two nothing is cut off, and the ellipsis is added to the whole line.
\<close>

theorem truncate_line_width:
  assumes "w = (if max_width \<le> 0 then terminal - 2 else max_width)" and "int (length s) < 2 ^ 63"
  shows "(int (length s) \<le> w \<longrightarrow> truncate_line terminal s max_width = s) \<and>
    (3 \<le> w \<and> w < int (length s) \<longrightarrow>
       truncate_line terminal s max_width = take (nat w - 3) s @ ''...'' \<and>
       length (truncate_line terminal s max_width) = nat w) \<and>
    (- (2 ^ 31) \<le> w \<and> w < 3 \<and> w < int (length s) \<longrightarrow> truncate_line terminal s max_width = s @ ''...'')"
proof (intro conjI impI)
  show "int (length s) \<le> w \<Longrightarrow> truncate_line terminal s max_width = s"
    by (simp add: truncate_line_def assms(1) [symmetric])
  assume long: "3 \<le> w \<and> w < int (length s)"
  then have "(w - 3) mod 2 ^ 64 = w - 3" using assms(2) by (intro mod_pos_pos_trivial) auto
  moreover have "nat (w - 3) = nat w - 3" by (simp add: nat_diff_distrib)
  ultimately show r: "truncate_line terminal s max_width = take (nat w - 3) s @ ''...''"
    using long by (simp add: truncate_line_def assms(1) [symmetric])
  have "nat w - 3 \<le> length s" "3 \<le> nat w" using long by linarith+
  then show "length (truncate_line terminal s max_width) = nat w" unfolding r by simp
next
  assume short: "- (2 ^ 31) \<le> w \<and> w < 3 \<and> w < int (length s)"
  have "(w - 3) mod 2 ^ 64 = (w - 3 + 2 ^ 64) mod 2 ^ 64" by (rule mod_add_self2 [symmetric])
  also have "\<dots> = w - 3 + 2 ^ 64" using short by (intro mod_pos_pos_trivial) auto
  finally have "int (length s) \<le> (w - 3) mod 2 ^ 64" using short assms(2) by simp
  then have "length s \<le> nat ((w - 3) mod 2 ^ 64)" using nat_mono nat_int by metis
  then show "truncate_line terminal s max_width = s @ ''...''"
    using short by (simp add: truncate_line_def assms(1) [symmetric])
qed

lemma truncate_line_width_witness:
  "truncate_line 80 ''abcdef'' 5 = ''ab...'' \<and> truncate_line 80 ''abcdef'' 2 = ''abcdef...''"
  using truncate_line_width [of 5 5 80 "''abcdef''"] truncate_line_width [of 2 2 80 "''abcdef''"]
  by simp

section \<open>The output of a tool\<close>

lemma shown_lines_all:
  "k + length ls \<le> 8 \<Longrightarrow>
   shown_lines color n ls k t = t @ concat (map (\<lambda>l. dim color (''  '' @ l) @ [newline]) ls)"
  by (induction ls arbitrary: k t) simp_all

lemma shown_lines_note:
  "8 < k + length ls \<Longrightarrow> k \<le> 8 \<Longrightarrow>
   shown_lines color n ls k t = [newline] @ ''  ... ('' @ nat_to_string n @ '' total lines)''"
  by (induction ls arbitrary: k t) auto

text \<open>
  The lines of a tool's output are shown, each indented, if there are at most eight. Of a longer
  output not the first eight are shown, as the code means to, but none: only the note of their
  number.
\<close>

theorem long_output_hidden:
  assumes "output \<noteq> []" and "ls = tool_result_lines output"
  shows "\<exists>heading. \<forall>r.
    (length ls \<le> 8 \<longrightarrow> rd_out (render_tool_result color name ok output r) =
       rd_out r @ heading @ concat (map (\<lambda>l. dim color (''  '' @ l) @ [newline]) ls)) \<and>
    (8 < length ls \<longrightarrow> rd_out (render_tool_result color name ok output r) =
       rd_out r @ heading @ [newline] @ ''  ... ('' @ nat_to_string (length ls) @ '' total lines)'')"
proof -
  define heading where "heading =
     (if ok then green color ([CHR 0xE2, CHR 0x9C, CHR 0x85] @ '' '' @ name)
      else yellow color ([CHR 0xE2, CHR 0x9A, CHR 0xA0, CHR 0xEF, CHR 0xB8, CHR 0x8F] @ '' '' @ name @
        '' (non-zero exit)'')) @ [newline]"
  have "rd_out (render_tool_result color name ok output r) = rd_out r @ heading @ shown_lines color (length ls) ls 0 []" for r
    using assms by (simp only: render_tool_result_def print_def tool_result_text_def heading_def Let_def) simp
  then show ?thesis
    using shown_lines_all [of 0 ls color "length ls" "[]"] shown_lines_note [of 0 ls color "length ls" "[]"]
    by (intro exI [of _ heading]) simp
qed

lemma long_output_hidden_witness:
  "\<exists>heading. rd_out (render_tool_result False ''Read'' True ''x''
     \<lparr>rd_show_thinking = False, rd_in_thinking_block = False, rd_pending_thinking = [], rd_out = []\<rparr>) =
     heading @ ''  x'' @ [newline]"
proof -
  have "split_parts [newline] ''x'' = [''x'']" by (simp add: split_parts.simps newline_def)
  moreover have "\<not> is_timing ''x''" by code_simp
  ultimately have "tool_result_lines ''x'' = [''x'']" by (simp add: tool_result_lines_def)
  with long_output_hidden [of "''x''", OF _ refl, of False "''Read''" True] show ?thesis
    by (auto simp: dim_def styled_def)
qed

text \<open>With thinking hidden, a block of thinking prints nothing and leaves nothing behind.\<close>

lemma thinking_hidden:
  "\<not> rd_show_thinking r \<Longrightarrow>
   render_thinking_end (foldl (\<lambda>r s. render_thinking_chunk color s r) (render_thinking_start color r) chunks) =
     r\<lparr>rd_in_thinking_block := False, rd_pending_thinking := []\<rparr>"
proof -
  assume hidden: "\<not> rd_show_thinking r"
  have "\<exists>p b. foldl (\<lambda>r s. render_thinking_chunk color s r) (render_thinking_start color r) chunks =
      r\<lparr>rd_in_thinking_block := b, rd_pending_thinking := p\<rparr>"
  proof (induction chunks rule: rev_induct)
    case Nil
    from hidden show ?case by (auto simp: render_thinking_start_def intro!: exI)
  next
    case (snoc x chunks)
    then obtain p b where "foldl (\<lambda>r s. render_thinking_chunk color s r) (render_thinking_start color r) chunks =
        r\<lparr>rd_in_thinking_block := b, rd_pending_thinking := p\<rparr>" by blast
    with hidden show ?case
      by (intro exI [of _ "p @ x"] exI [of _ b]) (simp add: render_thinking_chunk_def)
  qed
  with hidden show ?thesis by (auto simp: render_thinking_end_def Let_def)
qed

end
