(* ===== verification/Plugins.thy ===== *)
theory Plugins
  imports Paths Json_Sample
begin

text \<open>
  Plugins: the loader of \<open>src/plugins/plugin_loader.h\<close> and \<open>plugin_loader.cpp\<close>, and the manager of
  \<open>plugin_api.h\<close> and \<open>plugin_api.cpp\<close>. The dynamic linker counts how often a library is open; the
  handle it gives is the same for every opening of a path, and is the path here. Arguments: the
  files that can be read, the libraries that can be opened with the functions they export, what
  \<open>dlerror\<close> reports after several lookups, and what an iteration over a directory yields. No library function throws or calls back.
\<close>

section \<open>Shared libraries\<close>

record shared_library =
  lb_name :: "string option"
  lb_version :: "string option"
  lb_description :: "string option"
  lb_init :: "int option"
  lb_cleanup :: bool

datatype library_call = Init_Called string | Cleanup_Called string

record linker =
  li_open :: "string \<Rightarrow> nat"
  li_calls :: "library_call list"

record plugin_env =
  pe_file :: "string \<Rightarrow> string option"
  pe_library :: "string \<Rightarrow> shared_library option"
  pe_directory :: "string \<Rightarrow> string list option"
  pe_regular :: "string \<Rightarrow> bool"
  pe_keeps_error :: bool

definition dl_open :: "string \<Rightarrow> linker \<Rightarrow> linker" where
  "dl_open p l = l\<lparr>li_open := (li_open l)(p := Suc (li_open l p))\<rparr>"

definition dl_close :: "string \<Rightarrow> linker \<Rightarrow> linker" where
  "dl_close p l = l\<lparr>li_open := (li_open l)(p := li_open l p - 1)\<rparr>"

definition called :: "library_call \<Rightarrow> linker \<Rightarrow> linker" where
  "called c l = l\<lparr>li_calls := li_calls l @ [c]\<rparr>"

text \<open>The cleanup function, if the library has one, then \<open>dlclose\<close>.\<close>

definition release :: "plugin_env \<Rightarrow> string \<Rightarrow> linker \<Rightarrow> linker" where
  "release e p l =
     dl_close p (case pe_library e p of
         Some lib \<Rightarrow> if lb_cleanup lib then called (Cleanup_Called p) l else l
       | None \<Rightarrow> l)"

section \<open>PluginLoader\<close>

datatype plugin_type = Json_Plugin | SharedLib | Wasm

record plugin_descriptor =
  pd_name :: string
  pd_version :: string
  pd_description :: string
  pd_type :: plugin_type
  pd_path :: string
  pd_loaded :: bool

record loaded_plugin =
  lp_descriptor :: plugin_descriptor
  lp_handle :: "string option"

record loader =
  ld_plugins :: "loaded_plugin omap"
  ld_search_paths :: "string list"
  ld_linker :: linker

definition empty_descriptor :: plugin_descriptor where
  "empty_descriptor = \<lparr>pd_name = [], pd_version = [], pd_description = [], pd_type = Json_Plugin,
     pd_path = [], pd_loaded = False\<rparr>"

definition add_search_path :: "string \<Rightarrow> loader \<Rightarrow> loader" where
  "add_search_path p s = s\<lparr>ld_search_paths := ld_search_paths s @ [p]\<rparr>"

definition validate_json_manifest :: "('j, 'z) jlib_scheme \<Rightarrow> 'j \<Rightarrow> bool" where
  "validate_json_manifest J m =
     (j_is_object J m \<and> j_contains J m ''name'' \<and>
      (case j_at J m ''name'' of None \<Rightarrow> False | Some v \<Rightarrow> j_is_string J v))"

definition manifest_descriptor ::
  "('j, 'z) jlib_scheme \<Rightarrow> string \<Rightarrow> 'j \<Rightarrow> cpp_exn + plugin_descriptor option" where
  "manifest_descriptor J path manifest =
     (if \<not> validate_json_manifest J manifest then Inr None
      else bind_exn (str_value J manifest ''name'' []) (\<lambda>name.
        bind_exn (str_value J manifest ''version'' ''0.0.0'') (\<lambda>version.
        bind_exn (str_value J manifest ''description'' []) (\<lambda>description.
          if name = [] then Inr None
          else Inr (Some \<lparr>pd_name = name, pd_version = version, pd_description = description,
            pd_type = Json_Plugin, pd_path = path, pd_loaded = True\<rparr>)))))"

text \<open>The result is whether the plugin was loaded; every exception ends in false.\<close>

definition load_json_manifest ::
  "('j, 'z) jlib_scheme \<Rightarrow> plugin_env \<Rightarrow> string \<Rightarrow> loader \<Rightarrow> bool \<times> loader" where
  "load_json_manifest J e path s =
     (case pe_file e path of
        None \<Rightarrow> (False, s)
      | Some content \<Rightarrow>
          (case bind_exn (parse_json J content) (manifest_descriptor J path) of
             Inr (Some d) \<Rightarrow>
               (True, s\<lparr>ld_plugins := om_put (pd_name d) \<lparr>lp_descriptor = d, lp_handle = None\<rparr> (ld_plugins s)\<rparr>)
           | _ \<Rightarrow> (False, s)))"

definition library_descriptor :: "string \<Rightarrow> string \<Rightarrow> shared_library \<Rightarrow> plugin_descriptor" where
  "library_descriptor path name lib =
     \<lparr>pd_name = name, pd_version = (case lb_version lib of Some v \<Rightarrow> v | None \<Rightarrow> ''0.0.0''),
      pd_description = (case lb_description lib of Some v \<Rightarrow> v | None \<Rightarrow> []),
      pd_type = SharedLib, pd_path = path, pd_loaded = True\<rparr>"

text \<open>The init function, if the library has one: whether it succeeded.\<close>

definition run_init :: "string \<Rightarrow> shared_library \<Rightarrow> linker \<Rightarrow> bool \<times> linker" where
  "run_init path lib l =
     (case lb_init lib of None \<Rightarrow> (True, l) | Some r \<Rightarrow> (r = 0, called (Init_Called path) l))"

definition path_stem :: "string \<Rightarrow> string" where
  "path_stem p =
     (let f = path_filename p in take (length f - length (path_extension p)) f)"

text \<open>
  Whether \<open>dlerror\<close> reports an error after the four lookups: of any of them (as POSIX has it), or only
  of the last, the one of the init function, since a lookup that succeeds clears the error (as glibc
  does).
\<close>

definition lookup_error :: "plugin_env \<Rightarrow> shared_library \<Rightarrow> bool" where
  "lookup_error e lib =
     (lb_init lib = None \<or>
      pe_keeps_error e \<and> (lb_name lib = None \<or> lb_version lib = None \<or> lb_description lib = None))"

definition library_name :: "string \<Rightarrow> shared_library \<Rightarrow> string" where
  "library_name path lib = (case lb_name lib of Some name \<Rightarrow> name | None \<Rightarrow> path_stem path)"

definition load_shared_library :: "plugin_env \<Rightarrow> string \<Rightarrow> loader \<Rightarrow> bool \<times> loader" where
  "load_shared_library e path s =
     (case pe_library e path of
        None \<Rightarrow> (False, s)
      | Some lib \<Rightarrow>
          (let l1 = dl_open path (ld_linker s); name = library_name path lib in
           if lookup_error e lib \<and> lb_name lib = None then (False, s\<lparr>ld_linker := dl_close path l1\<rparr>)
           else (case run_init path lib l1 of
                  (False, l2) \<Rightarrow> (False, s\<lparr>ld_linker := dl_close path l2\<rparr>)
                | (True, l2) \<Rightarrow>
                    (True, s\<lparr>ld_linker := l2,
                       ld_plugins := om_put name \<lparr>lp_descriptor = library_descriptor path name lib,
                         lp_handle = Some path\<rparr> (ld_plugins s)\<rparr>))))"

definition load_plugin ::
  "('j, 'z) jlib_scheme \<Rightarrow> plugin_env \<Rightarrow> string \<Rightarrow> loader \<Rightarrow> bool \<times> loader" where
  "load_plugin J e path s =
     (if path_extension path = ''.json'' then load_json_manifest J e path s
      else if path_extension path = ''.so'' then load_shared_library e path s
      else (False, s))"

text \<open>\<open>plugins_[stem]\<close> adds an empty entry if there is none.\<close>

definition entry_at :: "string \<Rightarrow> loader \<Rightarrow> plugin_descriptor \<times> loader" where
  "entry_at stem s =
     (case om_get (ld_plugins s) stem of
        Some p \<Rightarrow> (lp_descriptor p, s)
      | None \<Rightarrow> (empty_descriptor,
          s\<lparr>ld_plugins := om_put stem \<lparr>lp_descriptor = empty_descriptor, lp_handle = None\<rparr> (ld_plugins s)\<rparr>))"

fun load_entries ::
  "('j, 'z) jlib_scheme \<Rightarrow> plugin_env \<Rightarrow> string list \<Rightarrow> plugin_descriptor list \<Rightarrow> loader \<Rightarrow>
   plugin_descriptor list \<times> loader" where
  "load_entries J e [] loaded s = (loaded, s)"
| "load_entries J e (path # paths) loaded s =
     (case load_plugin J e path s of
        (True, s1) \<Rightarrow>
          (case entry_at (path_stem path) s1 of
             (d, s2) \<Rightarrow> load_entries J e paths (loaded @ [d]) s2)
      | (False, s1) \<Rightarrow> load_entries J e paths loaded s1)"

definition load_directory ::
  "('j, 'z) jlib_scheme \<Rightarrow> plugin_env \<Rightarrow> string \<Rightarrow> loader \<Rightarrow> plugin_descriptor list \<times> loader" where
  "load_directory J e dir s =
     (case pe_directory e dir of None \<Rightarrow> ([], s) | Some paths \<Rightarrow> load_entries J e paths [] s)"

definition release_entry :: "plugin_env \<Rightarrow> linker \<Rightarrow> loaded_plugin \<Rightarrow> linker" where
  "release_entry e l p = (case lp_handle p of None \<Rightarrow> l | Some h \<Rightarrow> release e h l)"

definition unload_plugin :: "plugin_env \<Rightarrow> string \<Rightarrow> loader \<Rightarrow> bool \<times> loader" where
  "unload_plugin e name s =
     (case om_get (ld_plugins s) name of
        None \<Rightarrow> (False, s)
      | Some p \<Rightarrow>
          (True, s\<lparr>ld_linker := release_entry e (ld_linker s) p, ld_plugins := om_del name (ld_plugins s)\<rparr>))"

definition unload_all :: "plugin_env \<Rightarrow> loader \<Rightarrow> loader" where
  "unload_all e s =
     s\<lparr>ld_linker := foldl (release_entry e) (ld_linker s) (om_vals (ld_plugins s)), ld_plugins := []\<rparr>"

definition loaded_plugins :: "loader \<Rightarrow> plugin_descriptor list" where
  "loaded_plugins s = map lp_descriptor (om_vals (ld_plugins s))"

definition is_loaded :: "string \<Rightarrow> loader \<Rightarrow> bool" where
  "is_loaded name s = (om_get (ld_plugins s) name \<noteq> None)"

section \<open>PluginManager\<close>

record plugin_info =
  pi_name :: string
  pi_version :: string
  pi_description :: string
  pi_author :: string
  pi_tools :: "string list"
  pi_commands :: "string list"

record plugin_manager =
  pm_plugins :: "plugin_info omap"
  pm_handles :: "string omap"
  pm_linker :: linker

definition provided :: "('j, 'z) jlib_scheme \<Rightarrow> 'j \<Rightarrow> string \<Rightarrow> cpp_exn + string list" where
  "provided J manifest k =
     (if \<not> j_contains J manifest k then Inr []
      else bind_exn (or_type_error (j_at J manifest k)) (\<lambda>v.
        map_exn (\<lambda>t. or_type_error (j_get_str J t)) (j_elems J v)))"

definition manifest_info :: "('j, 'z) jlib_scheme \<Rightarrow> 'j \<Rightarrow> cpp_exn + plugin_info option" where
  "manifest_info J manifest =
     bind_exn (str_value J manifest ''name'' []) (\<lambda>name.
       if name = [] then Inr None
       else bind_exn (str_value J manifest ''version'' ''0.0.0'') (\<lambda>version.
         bind_exn (str_value J manifest ''description'' []) (\<lambda>description.
         bind_exn (str_value J manifest ''author'' []) (\<lambda>author.
         bind_exn (provided J manifest ''provides_tools'') (\<lambda>tools.
         bind_exn (provided J manifest ''provides_commands'') (\<lambda>commands.
           Inr (Some \<lparr>pi_name = name, pi_version = version, pi_description = description,
             pi_author = author, pi_tools = tools, pi_commands = commands\<rparr>)))))))"

definition manager_load_manifest ::
  "('j, 'z) jlib_scheme \<Rightarrow> plugin_env \<Rightarrow> string \<Rightarrow> plugin_manager \<Rightarrow> bool \<times> plugin_manager" where
  "manager_load_manifest J e path s =
     (case pe_file e path of
        None \<Rightarrow> (False, s)
      | Some content \<Rightarrow>
          (case bind_exn (parse_json J content) (manifest_info J) of
             Inr (Some i) \<Rightarrow> (True, s\<lparr>pm_plugins := om_put (pi_name i) i (pm_plugins s)\<rparr>)
           | _ \<Rightarrow> (False, s)))"

definition manager_load_library ::
  "plugin_env \<Rightarrow> string \<Rightarrow> plugin_manager \<Rightarrow> bool \<times> plugin_manager" where
  "manager_load_library e path s =
     (case pe_library e path of
        None \<Rightarrow> (False, s)
      | Some lib \<Rightarrow>
          (let l1 = dl_open path (pm_linker s) in
           case lb_name lib of
             None \<Rightarrow> (False, s\<lparr>pm_linker := dl_close path l1\<rparr>)
           | Some name \<Rightarrow>
               (let l2 = (case lb_init lib of None \<Rightarrow> l1 | Some r \<Rightarrow> called (Init_Called path) l1);
                    i = \<lparr>pi_name = name,
                      pi_version = (case lb_version lib of Some v \<Rightarrow> v | None \<Rightarrow> ''0.0.0''),
                      pi_description = (case lb_description lib of Some v \<Rightarrow> v | None \<Rightarrow> []),
                      pi_author = [], pi_tools = [], pi_commands = []\<rparr>
                in (True, s\<lparr>pm_plugins := om_put name i (pm_plugins s),
                     pm_handles := om_put name path (pm_handles s), pm_linker := l2\<rparr>))))"

definition manager_load ::
  "('j, 'z) jlib_scheme \<Rightarrow> plugin_env \<Rightarrow> string \<Rightarrow> plugin_manager \<Rightarrow> bool \<times> plugin_manager" where
  "manager_load J e path s =
     (if suffix ''.json'' path then manager_load_manifest J e path s
      else if suffix ''.so'' path then manager_load_library e path s
      else (False, s))"

definition manager_unload :: "plugin_env \<Rightarrow> string \<Rightarrow> plugin_manager \<Rightarrow> plugin_manager" where
  "manager_unload e name s =
     (case om_get (pm_handles s) name of
        None \<Rightarrow> s\<lparr>pm_plugins := om_del name (pm_plugins s)\<rparr>
      | Some h \<Rightarrow> s\<lparr>pm_linker := release e h (pm_linker s), pm_handles := om_del name (pm_handles s),
          pm_plugins := om_del name (pm_plugins s)\<rparr>)"

definition manager_plugins :: "plugin_manager \<Rightarrow> plugin_info list" where
  "manager_plugins s = om_vals (pm_plugins s)"

definition scan_directory ::
  "('j, 'z) jlib_scheme \<Rightarrow> plugin_env \<Rightarrow> string \<Rightarrow> plugin_manager \<Rightarrow> plugin_manager" where
  "scan_directory J e dir s =
     (case pe_directory e dir of
        None \<Rightarrow> s
      | Some paths \<Rightarrow>
          foldl (\<lambda>s path. if pe_regular e path \<and> (suffix ''.json'' path \<or> suffix ''.so'' path)
            then snd (manager_load J e path s) else s) s paths)"

definition get_plugin :: "string \<Rightarrow> plugin_manager \<Rightarrow> plugin_info option" where
  "get_plugin name s = om_get (pm_plugins s) name"

definition manager_destroy :: "plugin_env \<Rightarrow> plugin_manager \<Rightarrow> linker" where
  "manager_destroy e s = foldl (\<lambda>l h. release e h l) (pm_linker s) (om_vals (pm_handles s))"

section \<open>The table of the loader\<close>

datatype loader_event = Load string | Load_Directory string | Unload string | Unload_All
  | Add_Search_Path string

fun loader_step :: "('j, 'z) jlib_scheme \<Rightarrow> plugin_env \<Rightarrow> loader \<Rightarrow> loader_event \<Rightarrow> loader" where
  "loader_step J e s (Load path) = snd (load_plugin J e path s)"
| "loader_step J e s (Load_Directory dir) = snd (load_directory J e dir s)"
| "loader_step J e s (Unload name) = snd (unload_plugin e name s)"
| "loader_step J e s Unload_All = unload_all e s"
| "loader_step J e s (Add_Search_Path p) = add_search_path p s"

definition new_loader :: loader where
  "new_loader = \<lparr>ld_plugins = [], ld_search_paths = [], ld_linker = \<lparr>li_open = (\<lambda>p. 0), li_calls = []\<rparr>\<rparr>"

definition entry_ok :: "string \<Rightarrow> loaded_plugin \<Rightarrow> bool" where
  "entry_ok k p =
     (pd_name (lp_descriptor p) = k \<and> pd_loaded (lp_descriptor p) \<and>
      (case lp_handle p of
         None \<Rightarrow> pd_type (lp_descriptor p) = Json_Plugin \<and> k \<noteq> []
       | Some h \<Rightarrow> pd_type (lp_descriptor p) = SharedLib \<and> pd_path (lp_descriptor p) = h))"

definition handle_count :: "string \<Rightarrow> loaded_plugin list \<Rightarrow> nat" where
  "handle_count h ps = length (filter (\<lambda>p. lp_handle p = Some h) ps)"

text \<open>The entry that loading a directory adds for a file whose plugin has another name.\<close>

definition empty_entry :: loaded_plugin where
  "empty_entry = \<lparr>lp_descriptor = empty_descriptor, lp_handle = None\<rparr>"

definition stem_in :: "plugin_env \<Rightarrow> string set \<Rightarrow> string \<Rightarrow> bool" where
  "stem_in e dirs k =
     (\<exists>dir paths path. dir \<in> dirs \<and> pe_directory e dir = Some paths \<and> path \<in> set paths \<and> k = path_stem path)"

lemma stem_inI:
  "dir \<in> dirs \<Longrightarrow> pe_directory e dir = Some paths \<Longrightarrow> path \<in> set paths \<Longrightarrow> stem_in e dirs (path_stem path)"
  by (auto simp: stem_in_def)

definition loader_ok :: "plugin_env \<Rightarrow> string set \<Rightarrow> loader \<Rightarrow> bool" where
  "loader_ok e dirs s =
     ((\<forall>k p. (k, p) \<in> set (ld_plugins s) \<longrightarrow> entry_ok k p \<or> p = empty_entry \<and> stem_in e dirs k) \<and>
      (\<forall>h. handle_count h (om_vals (ld_plugins s)) \<le> li_open (ld_linker s) h))"

lemma handle_count_simps [simp]:
  "handle_count h [] = 0"
  "handle_count h (p # ps) = (if lp_handle p = Some h then Suc (handle_count h ps) else handle_count h ps)"
  by (simp_all add: handle_count_def)

lemma om_vals_simps [simp]: "om_vals [] = []" "om_vals ((k, v) # m) = v # om_vals m"
  by (simp_all add: om_vals_def)

lemma om_put_member: "(k', p') \<in> set (om_put k p m) \<Longrightarrow> (k', p') = (k, p) \<or> (k', p') \<in> set m"
  by (induction k p m rule: om_put.induct) (auto split: if_splits)

lemma handle_count_put:
  "handle_count h (om_vals (om_put k p m)) \<le>
     (if lp_handle p = Some h then 1 else 0) + handle_count h (om_vals m)"
  by (induction k p m rule: om_put.induct) auto

lemma handle_count_del: "handle_count h (om_vals (om_del k m)) \<le> handle_count h (om_vals m)"
  by (induction m) (auto simp: om_del_def)

lemma handle_count_del_found:
  "om_get m k = Some p \<Longrightarrow> lp_handle p = Some h \<Longrightarrow>
   Suc (handle_count h (om_vals (om_del k m))) \<le> handle_count h (om_vals m)"
proof (induction m)
  case (Cons a m)
  obtain k' p' where a: "a = (k', p')" by (rule prod.exhaust)
  show ?case
  proof (cases "k' = k")
    case True
    then have "om_del k (a # m) = om_del k m" by (simp add: a om_del_def)
    with True Cons.prems a handle_count_del [of h k m] show ?thesis by (simp add: om_get_def)
  next
    case False
    with Cons a show ?thesis by (simp add: om_get_def om_del_def)
  qed
qed (simp add: om_get_def)

lemma linker_simps [simp]:
  "li_open (dl_open p l) h = (if h = p then Suc (li_open l h) else li_open l h)"
  "li_open (dl_close p l) h = (if h = p then li_open l h - 1 else li_open l h)"
  "li_open (called c l) = li_open l"
  by (simp_all add: dl_open_def dl_close_def called_def)

lemma release_open:
  "li_open (release e p l) h = (if h = p then li_open l h - 1 else li_open l h)"
  by (simp add: release_def split: option.split)

lemma release_all_open:
  "li_open (foldl (release_entry e) l ps) h = li_open l h - handle_count h ps"
  by (induction ps arbitrary: l) (auto simp: release_entry_def release_open split: option.split)

lemma manifest_descriptor_ok:
  "bind_exn (parse_json J content) (manifest_descriptor J path) = Inr (Some d) \<Longrightarrow>
   entry_ok (pd_name d) \<lparr>lp_descriptor = d, lp_handle = None\<rparr>"
  by (auto simp: bind_exn_Inr manifest_descriptor_def entry_ok_def split: if_splits)

lemma loader_ok_put:
  assumes "loader_ok e dirs s" and "entry_ok k p \<or> p = empty_entry \<and> stem_in e dirs k"
    and "\<forall>h. li_open (ld_linker s) h + (if lp_handle p = Some h then 1 else 0) \<le> li_open l h"
  shows "loader_ok e dirs (s\<lparr>ld_linker := l, ld_plugins := om_put k p (ld_plugins s)\<rparr>)"
proof -
  have "handle_count h (om_vals (om_put k p (ld_plugins s))) \<le> li_open l h" for h
    using handle_count_put [of h k p "ld_plugins s"] assms(1,3) [unfolded loader_ok_def]
    by (smt (verit) add.commute add_le_mono1 le_trans)
  moreover have "entry_ok k' p' \<or> p' = empty_entry \<and> stem_in e dirs k'"
    if "(k', p') \<in> set (om_put k p (ld_plugins s))" for k' p'
    using om_put_member [OF that] assms(1,2) by (auto simp: loader_ok_def)
  ultimately show ?thesis by (simp add: loader_ok_def)
qed

lemma loader_ok_load: "loader_ok e dirs s \<Longrightarrow> loader_ok e dirs (snd (load_plugin J e path s))"
proof -
  assume ok: "loader_ok e dirs s"
  have "loader_ok e dirs (snd (load_json_manifest J e path s))"
    using ok loader_ok_put [OF ok disjI1 [OF manifest_descriptor_ok], of J _ path _ "ld_linker s"]
    by (auto simp: load_json_manifest_def split: option.split sum.split)
  moreover have "loader_ok e dirs (snd (load_shared_library e path s))"
  proof -
    have closed: "loader_ok e dirs (s\<lparr>ld_linker := dl_close path l\<rparr>)"
      if "li_open l = li_open (dl_open path (ld_linker s))" for l
      using ok that by (simp add: loader_ok_def)
    have init: "li_open (snd (run_init path lib l)) = li_open l" for lib l
      by (simp add: run_init_def split: option.split)
    show ?thesis
    proof (cases "pe_library e path")
      case (Some lib)
      show ?thesis
      proof (cases "lookup_error e lib \<and> lb_name lib = None")
        case True
        with Some show ?thesis by (simp add: load_shared_library_def closed)
      next
        case named: False
        let ?n = "library_name path lib"
        obtain b l where run: "run_init path lib (dl_open path (ld_linker s)) = (b, l)" by (rule prod.exhaust)
        then have l: "li_open l = li_open (dl_open path (ld_linker s))"
          using init [of lib "dl_open path (ld_linker s)"] by simp
        have "entry_ok ?n \<lparr>lp_descriptor = library_descriptor path ?n lib, lp_handle = Some path\<rparr>"
          by (simp add: entry_ok_def library_descriptor_def)
        from loader_ok_put [OF ok disjI1 [OF this], of l] closed [OF l] show ?thesis
          using Some named run by (cases b) (auto simp add: load_shared_library_def l Let_def)
      qed
    qed (simp add: load_shared_library_def ok)
  qed
  ultimately show ?thesis using ok by (simp add: load_plugin_def)
qed

lemma loader_ok_unload: "loader_ok e dirs s \<Longrightarrow> loader_ok e dirs (snd (unload_plugin e name s))"
proof (cases "om_get (ld_plugins s) name")
  case (Some p)
  assume ok: "loader_ok e dirs s"
  have "handle_count h (om_vals (om_del name (ld_plugins s))) \<le> li_open (release_entry e (ld_linker s) p) h" for h
  proof (cases "lp_handle p = Some h")
    case True
    have "handle_count h (om_vals (ld_plugins s)) \<le> li_open (ld_linker s) h"
      using ok by (simp add: loader_ok_def)
    with handle_count_del_found [OF Some True] True show ?thesis
      by (simp add: release_entry_def release_open)
  next
    case False
    have "handle_count h (om_vals (ld_plugins s)) \<le> li_open (ld_linker s) h"
      using ok by (simp add: loader_ok_def)
    with handle_count_del [of h name "ld_plugins s"] False show ?thesis
      by (auto simp: release_entry_def release_open split: option.split)
  qed
  with ok Some show ?thesis by (auto simp: unload_plugin_def loader_ok_def om_del_def)
qed (simp add: unload_plugin_def)

lemma loader_ok_entries:
  "loader_ok e dirs s \<Longrightarrow> \<forall>path\<in>set paths. stem_in e dirs (path_stem path) \<Longrightarrow>
   loader_ok e dirs (snd (load_entries J e paths loaded s))"
proof (induction paths arbitrary: loaded s)
  case (Cons path paths)
  obtain b s1 where load: "load_plugin J e path s = (b, s1)" by (rule prod.exhaust)
  with loader_ok_load [OF Cons.prems(1), of J path] have s1: "loader_ok e dirs s1" by simp
  have "loader_ok e dirs (snd (entry_at (path_stem path) s1))"
    using s1 loader_ok_put [OF s1, of "path_stem path" empty_entry "ld_linker s1"] Cons.prems(2)
    by (auto simp: entry_at_def empty_entry_def split: option.split)
  with Cons s1 load show ?case by (cases b) (auto split: prod.split)
qed simp

lemma loader_ok_step:
  "loader_ok e dirs s \<Longrightarrow> \<forall>dir. ev = Load_Directory dir \<longrightarrow> dir \<in> dirs \<Longrightarrow> loader_ok e dirs (loader_step J e s ev)"
proof (cases ev)
  case (Load_Directory dir)
  assume "loader_ok e dirs s" and "\<forall>dir. ev = Load_Directory dir \<longrightarrow> dir \<in> dirs"
  with Load_Directory show ?thesis
    by (auto simp: load_directory_def intro!: loader_ok_entries intro: stem_inI split: option.split)
qed (auto simp: loader_ok_load loader_ok_unload, auto simp: loader_ok_def unload_all_def add_search_path_def)

lemma loader_ok_run:
  "loader_ok e dirs s \<Longrightarrow> \<forall>dir. Load_Directory dir \<in> set events \<longrightarrow> dir \<in> dirs \<Longrightarrow>
   loader_ok e dirs (foldl (loader_step J e) s events)"
proof (induction events arbitrary: s)
  case (Cons ev events)
  then have "loader_ok e dirs (loader_step J e s ev)" by (intro loader_ok_step) auto
  with Cons show ?case by simp
qed simp

text \<open>
  C38: What the loader's table says is so, whatever is loaded, one plugin or directory at a time, and
  unloaded. An entry is under its own name and marked as loaded, a manifest's has no library and a
  library's has the one at its path; or it is the empty one under the name of a file of a directory
  that has been loaded. Each library is open at least as often as entries refer to it, and unloading
  everything closes it as often.
\<close>

theorem loader_table:
  assumes "s = foldl (loader_step J e) new_loader events"
  shows "(om_get (ld_plugins s) k = Some p \<longrightarrow>
      pd_name (lp_descriptor p) = k \<and> pd_loaded (lp_descriptor p) \<and>
        (lp_handle p = (if pd_type (lp_descriptor p) = SharedLib then Some (pd_path (lp_descriptor p)) else None)) \<or>
      p = \<lparr>lp_descriptor = empty_descriptor, lp_handle = None\<rparr> \<and>
        (\<exists>dir paths path. Load_Directory dir \<in> set events \<and> pe_directory e dir = Some paths \<and>
           path \<in> set paths \<and> k = path_stem path)) \<and>
    handle_count h (om_vals (ld_plugins s)) \<le> li_open (ld_linker s) h \<and>
    li_open (ld_linker (unload_all e s)) h = li_open (ld_linker s) h - handle_count h (om_vals (ld_plugins s))"
proof -
  let ?dirs = "{dir. Load_Directory dir \<in> set events}"
  have "loader_ok e ?dirs new_loader" by (simp add: loader_ok_def new_loader_def)
  then have ok: "loader_ok e ?dirs s" unfolding assms by (rule loader_ok_run) simp
  have "entry_ok k p \<or> p = empty_entry \<and> stem_in e ?dirs k" if "om_get (ld_plugins s) k = Some p"
    using ok map_of_SomeD [OF that [unfolded om_get_def]] by (simp add: loader_ok_def)
  with ok show ?thesis
    by (auto simp: loader_ok_def entry_ok_def empty_entry_def stem_in_def unload_all_def release_all_open
        split: option.splits)
qed

section \<open>Two plugins of one name\<close>

lemma load_library_ok:
  assumes "pe_library e p = Some lib" and "lb_name lib = Some n" and "lb_init lib = None"
  shows "\<exists>d. load_shared_library e p s = (True,
    s\<lparr>ld_linker := dl_open p (ld_linker s),
      ld_plugins := om_put n \<lparr>lp_descriptor = d, lp_handle = Some p\<rparr> (ld_plugins s)\<rparr>)"
  using assms by (simp add: load_shared_library_def library_name_def run_init_def) (rule exI, rule refl)

text \<open>
  A second library whose plugin has the name of the first takes its place in the table, and the
  first stays open for good: it is not cleaned up, and when everything is unloaded only the
  second is closed.
\<close>

theorem overwritten_library_stays_open:
  assumes "pe_library e p = Some a" and "pe_library e q = Some b" and "p \<noteq> q"
    and "lb_name a = Some n" and "lb_name b = Some n" and "lb_init a = None" and "lb_init b = None"
    and "s = snd (load_shared_library e q (snd (load_shared_library e p new_loader)))"
  shows "length (loaded_plugins s) = 1 \<and> li_open (ld_linker (unload_all e s)) p = 1 \<and>
    li_open (ld_linker (unload_all e s)) q = 0 \<and>
    Cleanup_Called p \<notin> set (li_calls (ld_linker (unload_all e s)))"
proof -
  obtain d where d: "snd (load_shared_library e p new_loader) = new_loader
      \<lparr>ld_linker := dl_open p (ld_linker new_loader),
       ld_plugins := om_put n \<lparr>lp_descriptor = d, lp_handle = Some p\<rparr> (ld_plugins new_loader)\<rparr>"
    using load_library_ok [OF assms(1,4,6), of new_loader] by auto
  obtain d' where s: "s = snd (load_shared_library e p new_loader)
      \<lparr>ld_linker := dl_open q (ld_linker (snd (load_shared_library e p new_loader))),
       ld_plugins := om_put n \<lparr>lp_descriptor = d', lp_handle = Some q\<rparr>
         (ld_plugins (snd (load_shared_library e p new_loader)))\<rparr>"
    using load_library_ok [OF assms(2,5,7), of "snd (load_shared_library e p new_loader)"] assms(8) by auto
  have plugins: "ld_plugins s = [(n, \<lparr>lp_descriptor = d', lp_handle = Some q\<rparr>)]"
    unfolding s d by (simp add: new_loader_def)
  have linker: "ld_linker s = dl_open q (dl_open p \<lparr>li_open = (\<lambda>p. 0), li_calls = []\<rparr>)"
    unfolding s d by (simp add: new_loader_def)
  have "li_calls (release e q (ld_linker s)) = (if lb_cleanup b then [Cleanup_Called q] else [])"
    using assms(2) linker by (simp add: release_def dl_close_def dl_open_def called_def)
  with assms(3) show ?thesis
    by (auto simp: loaded_plugins_def unload_all_def plugins release_entry_def release_open linker
        split: if_splits)
qed

definition sample_library :: shared_library where
  "sample_library = \<lparr>lb_name = Some ''x'', lb_version = None, lb_description = None, lb_init = None,
     lb_cleanup = True\<rparr>"

definition sample_plugins :: plugin_env where
  "sample_plugins = \<lparr>pe_file = [''/p/a.json'' \<mapsto> ''m''], pe_library = (\<lambda>p. Some sample_library),
     pe_directory = [''/p'' \<mapsto> [''/p/a.json'']], pe_regular = (\<lambda>p. True), pe_keeps_error = False\<rparr>"

lemma overwritten_library_stays_open_witness:
  "li_open (ld_linker (unload_all sample_plugins (snd (load_shared_library sample_plugins ''b.so''
     (snd (load_shared_library sample_plugins ''a.so'' new_loader)))))) ''a.so'' = 1"
proof -
  have "pe_library sample_plugins p = Some sample_library" for p by (simp add: sample_plugins_def)
  moreover have "lb_name sample_library = Some ''x''" "lb_init sample_library = None"
    by (simp_all add: sample_library_def)
  ultimately show ?thesis
    using overwritten_library_stays_open [of sample_plugins "''a.so''" sample_library "''b.so''"
        sample_library "''x''", OF _ _ _ _ _ _ _ refl] by simp
qed

lemma loader_table_witness:
  "let s = foldl (loader_step (sample_jlib (\<lambda>s. Inl []) (\<lambda>v. [])) sample_plugins) new_loader
       [Load ''/p/x.so'', Load_Directory ''/p'', Load ''/p/x.so'']
   in handle_count ''/p/x.so'' (om_vals (ld_plugins s)) \<le> li_open (ld_linker s) ''/p/x.so''"
  unfolding Let_def using loader_table [OF refl] by blast

section \<open>A library without a name\<close>

text \<open>
  The error that is looked at is the one after all four lookups. If a lookup that succeeds clears it, a
  library that does not say its name, and so is no plugin, is started and listed under the name of its
  file when it has an init function.
\<close>

theorem nameless_library_loaded:
  assumes "pe_library e path = Some lib" and "lb_name lib = None" and "lb_init lib = Some 0"
  shows "fst (load_shared_library e path s) = (\<not> pe_keeps_error e) \<and>
    is_loaded (path_stem path) (snd (load_shared_library e path s)) =
      (\<not> pe_keeps_error e \<or> is_loaded (path_stem path) s)"
  using assms by (simp add: load_shared_library_def lookup_error_def library_name_def run_init_def is_loaded_def Let_def)

lemma nameless_library_loaded_witness:
  "is_loaded ''tool'' (snd (load_shared_library (sample_plugins\<lparr>pe_library :=
     (\<lambda>p. Some (sample_library\<lparr>lb_name := None, lb_init := Some 0\<rparr>))\<rparr>) ''/lib/tool.so'' new_loader))"
proof -
  have stem: "path_stem ''/lib/tool.so'' = ''tool''" by code_simp
  show ?thesis
    using nameless_library_loaded [of "sample_plugins\<lparr>pe_library :=
       (\<lambda>p. Some (sample_library\<lparr>lb_name := None, lb_init := Some 0\<rparr>))\<rparr>" "''/lib/tool.so''" _ new_loader]
    by (simp add: stem) (simp add: sample_plugins_def)
qed

section \<open>Directories\<close>

text \<open>
  A directory is loaded by the names of its files, the table is by the names of the plugins.
  If they differ, what is reported for a file is an empty descriptor, and the table has gained an
  entry under the name of the file that no plugin stands for.
\<close>

theorem directory_adds_empty_entry:
  assumes "pe_directory e dir = Some [path]" and "path_extension path = ''.json''"
    and "pe_file e path = Some content" and "parse_json J content = Inr m"
    and "manifest_descriptor J path m = Inr (Some d)" and "pd_name d \<noteq> path_stem path"
    and "load_directory J e dir new_loader = (reported, s)"
  shows "reported = [empty_descriptor] \<and> is_loaded (path_stem path) s \<and> is_loaded (pd_name d) s \<and>
    om_get (ld_plugins s) (path_stem path) = Some \<lparr>lp_descriptor = empty_descriptor, lp_handle = None\<rparr> \<and>
    length (loaded_plugins s) = 2"
proof -
  let ?p = "\<lparr>lp_descriptor = d, lp_handle = None\<rparr>"
    and ?q = "\<lparr>lp_descriptor = empty_descriptor, lp_handle = None\<rparr>"
  have "load_plugin J e path new_loader = (True, new_loader\<lparr>ld_plugins := [(pd_name d, ?p)]\<rparr>)"
    using assms(2-5) by (simp add: load_plugin_def load_json_manifest_def new_loader_def)
  moreover have "om_get [(pd_name d, ?p)] (path_stem path) = None"
    using assms(6) by (simp add: om_get_def)
  ultimately have "load_directory J e dir new_loader =
      ([empty_descriptor], new_loader\<lparr>ld_plugins := om_put (path_stem path) ?q [(pd_name d, ?p)]\<rparr>)"
    using assms(1) by (simp add: load_directory_def entry_at_def)
  then have r: "reported = [empty_descriptor]"
    "ld_plugins s = om_put (path_stem path) ?q [(pd_name d, ?p)]"
    using assms(7) by simp_all
  have "om_get (ld_plugins s) k = (if k = path_stem path then Some ?q else om_get [(pd_name d, ?p)] k)" for k
    by (simp only: r(2) om_get_put)
  then have "is_loaded (path_stem path) s" "is_loaded (pd_name d) s" "om_get (ld_plugins s) (path_stem path) = Some ?q"
    by (simp_all add: is_loaded_def om_get_def)
  moreover have "length (loaded_plugins s) = 2"
    using assms(6) by (simp add: loaded_plugins_def r(2))
  ultimately show ?thesis using r(1) by blast
qed

lemma directory_adds_empty_entry_witness:
  "let J = sample_jlib (\<lambda>s. Inr (JObj [(''name'', JStr ''other'')])) (\<lambda>v. []);
       s = snd (load_directory J sample_plugins ''/p'' new_loader)
   in is_loaded ''a'' s \<and> is_loaded ''other'' s"
proof -
  let ?J = "sample_jlib (\<lambda>s. Inr (JObj [(''name'', JStr ''other'')])) (\<lambda>v. [])"
  let ?d = "\<lparr>pd_name = ''other'', pd_version = ''0.0.0'', pd_description = [], pd_type = Json_Plugin,
    pd_path = ''/p/a.json'', pd_loaded = True\<rparr>"
  have "path_extension ''/p/a.json'' = ''.json''" "path_stem ''/p/a.json'' = ''a''" by code_simp+
  moreover have "manifest_descriptor ?J ''/p/a.json'' (JObj [(''name'', JStr ''other'')]) = Inr (Some ?d)"
    by (simp add: manifest_descriptor_def validate_json_manifest_def str_value_def jv_defs)
  moreover have "parse_json ?J ''m'' = Inr (JObj [(''name'', JStr ''other'')])"
    by (simp add: parse_json_def)
  moreover have "pe_directory sample_plugins ''/p'' = Some [''/p/a.json'']"
    "pe_file sample_plugins ''/p/a.json'' = Some ''m''" by (simp_all add: sample_plugins_def)
  ultimately show ?thesis
    unfolding Let_def
    using directory_adds_empty_entry [of sample_plugins "''/p''" "''/p/a.json''" "''m''" ?J _ ?d,
        OF _ _ _ _ _ _ prod.collapse [symmetric]] by simp
qed

section \<open>The manager's tables\<close>

datatype manager_event = Manager_Load string | Manager_Unload string | Scan string

fun manager_step :: "('j, 'z) jlib_scheme \<Rightarrow> plugin_env \<Rightarrow> plugin_manager \<Rightarrow> manager_event \<Rightarrow> plugin_manager" where
  "manager_step J e s (Manager_Load path) = snd (manager_load J e path s)"
| "manager_step J e s (Manager_Unload name) = manager_unload e name s"
| "manager_step J e s (Scan dir) = scan_directory J e dir s"

definition new_plugin_manager :: plugin_manager where
  "new_plugin_manager = \<lparr>pm_plugins = [], pm_handles = [], pm_linker = \<lparr>li_open = (\<lambda>p. 0), li_calls = []\<rparr>\<rparr>"

definition plugin_tables_ok :: "plugin_manager \<Rightarrow> bool" where
  "plugin_tables_ok s =
     ((\<forall>k. om_get (pm_handles s) k \<noteq> None \<longrightarrow> om_get (pm_plugins s) k \<noteq> None) \<and>
      (\<forall>k i. om_get (pm_plugins s) k = Some i \<longrightarrow> pi_name i = k))"

lemma tables_load: "plugin_tables_ok s \<Longrightarrow> plugin_tables_ok (snd (manager_load J e path s))"
  by (auto simp: plugin_tables_ok_def manager_load_def manager_load_manifest_def manager_load_library_def
      Let_def split: option.splits sum.splits)

lemma tables_unload: "plugin_tables_ok s \<Longrightarrow> plugin_tables_ok (manager_unload e name s)"
  by (auto simp: plugin_tables_ok_def manager_unload_def split: option.splits)

lemma tables_scan: "plugin_tables_ok s \<Longrightarrow> plugin_tables_ok (scan_directory J e dir s)"
proof -
  have "plugin_tables_ok (foldl (\<lambda>s path. if pe_regular e path \<and> (suffix ''.json'' path \<or> suffix ''.so'' path)
      then snd (manager_load J e path s) else s) s ps)" if "plugin_tables_ok s" for ps
    using that by (induction ps arbitrary: s) (simp_all add: tables_load)
  then show "plugin_tables_ok s \<Longrightarrow> ?thesis" by (simp add: scan_directory_def split: option.split)
qed

interpretation plugin_tables: machine new_plugin_manager "manager_step J e" plugin_tables_ok for J e
proof unfold_locales
  show "plugin_tables_ok new_plugin_manager" by (simp add: plugin_tables_ok_def new_plugin_manager_def)
  show "plugin_tables_ok s \<Longrightarrow> plugin_tables_ok (manager_step J e s ev)" for s ev
    by (cases ev) (simp_all add: tables_load tables_unload tables_scan)
qed

text \<open>
  The manager keeps its two tables together, directories included: every library it holds belongs
  to a plugin it lists, and each plugin is listed under its own name.
\<close>

theorem plugin_tables_agree:
  assumes "s = foldl (manager_step J e) new_plugin_manager events"
  shows "(om_get (pm_handles s) k \<noteq> None \<longrightarrow> get_plugin k s \<noteq> None) \<and>
    (get_plugin k s = Some i \<longrightarrow> pi_name i = k)"
proof -
  have "plugin_tables_ok s" unfolding assms by (rule plugin_tables.inv_reachable)
  then show ?thesis by (simp add: plugin_tables_ok_def get_plugin_def)
qed

lemma plugin_tables_agree_witness:
  "let s = foldl (manager_step (sample_jlib (\<lambda>s. Inl []) (\<lambda>v. [])) sample_plugins) new_plugin_manager
       [Manager_Load ''a.so'']
   in om_get (pm_handles s) ''x'' \<noteq> None \<longrightarrow> get_plugin ''x'' s \<noteq> None"
  unfolding Let_def using plugin_tables_agree [OF refl] by blast

end
