(* ===== verification/Format.thy ===== *)
theory Format
  imports String_Utils
begin

text \<open>
  Numbers in messages: \<open>format_bytes\<close> of \<open>src/util/string_utils.h\<close>, and \<open>std::setw\<close> with its
  default fill. The \<open>double\<close> of \<open>format_bytes\<close> is exact for sizes below \<open>2 ^ 53\<close>, since it is only
  divided by 1024; it is printed rounded to the nearest tenth, a tie to the even one.
\<close>

definition pad_left :: "nat \<Rightarrow> string \<Rightarrow> string" where
  "pad_left w s = replicate (w - length s) (CHR '' '') @ s"

definition round_div :: "nat \<Rightarrow> nat \<Rightarrow> nat" where
  "round_div a b =
     (let q = a div b; r = a mod b
      in if 2 * r < b \<or> (2 * r = b \<and> even q) then q else Suc q)"

definition byte_units :: "string list" where
  "byte_units = [''B'', ''KB'', ''MB'', ''GB'', ''TB'']"

function byte_unit :: "nat \<Rightarrow> nat \<Rightarrow> nat" where
  "byte_unit i bytes = (if 1024 * 1024 ^ i \<le> bytes \<and> i < 4 then byte_unit (Suc i) bytes else i)"
  by pat_completeness auto
termination
  by (relation "measure (\<lambda>(i, bytes). 4 - i)") auto

declare byte_unit.simps [simp del]

definition byte_tenths :: "nat \<Rightarrow> nat" where
  "byte_tenths bytes = round_div (10 * bytes) (1024 ^ byte_unit 0 bytes)"

definition format_bytes :: "nat \<Rightarrow> string" where
  "format_bytes bytes =
     (let i = byte_unit 0 bytes; t = byte_tenths bytes
      in (if i > 0 then nat_to_string (t div 10) @ ''.'' @ nat_to_string (t mod 10)
          else nat_to_string bytes) @ '' '' @ byte_units ! i)"

lemma round_div_near: "b > 0 \<Longrightarrow> 2 * a \<le> (2 * round_div a b + 1) * b \<and> 2 * round_div a b * b \<le> 2 * a + b"
proof -
  assume b: "b > 0"
  define q r where "q = a div b" and "r = a mod b"
  have a: "a = q * b + r" "r < b" using b by (simp_all add: q_def r_def)
  have "round_div a b = (if 2 * r < b \<or> (2 * r = b \<and> even q) then q else Suc q)"
    by (simp add: round_div_def q_def r_def Let_def)
  moreover have "2 * (q * b + r) \<le> (2 * q + 1) * b" if "2 * r \<le> b"
    using that by (simp add: algebra_simps)
  moreover have "2 * Suc q * b \<le> 2 * (q * b + r) + b" if "b \<le> 2 * r"
    using that by (simp add: algebra_simps)
  ultimately show ?thesis using a by (auto simp: algebra_simps)
qed

lemma byte_unit_bounds:
  "i \<le> 4 \<Longrightarrow> 1024 ^ i \<le> bytes \<or> i = 0 \<Longrightarrow>
   byte_unit i bytes \<le> 4 \<and> (1024 ^ byte_unit i bytes \<le> bytes \<or> byte_unit i bytes = 0) \<and>
   (byte_unit i bytes = 4 \<or> bytes < 1024 * 1024 ^ byte_unit i bytes)"
proof (induction i bytes rule: byte_unit.induct)
  case (1 i bytes)
  show ?case
  proof (cases "1024 * 1024 ^ i \<le> bytes \<and> i < 4")
    case True
    then have "byte_unit i bytes = byte_unit (Suc i) bytes" by (subst byte_unit.simps) simp
    with True 1 show ?thesis by simp
  next
    case False
    then have "byte_unit i bytes = i" by (subst byte_unit.simps) (simp only: if_False)
    with False 1 show ?thesis by auto
  qed
qed

text \<open>
  The unit is the largest that the size reaches, and the number printed is within half a tenth
  of it. A size just below a unit is still printed in the smaller one: 1048575 bytes are
  \<open>1024.0 KB\<close>.
\<close>

theorem format_bytes_near:
  "let i = byte_unit 0 bytes; t = byte_tenths bytes
   in i \<le> 4 \<and> (i = 0 \<and> bytes < 1024 \<and> format_bytes bytes = nat_to_string bytes @ '' B'' \<or>
        i > 0 \<and> 1024 ^ i \<le> bytes \<and> (bytes < 1024 ^ Suc i \<or> i = 4) \<and>
        20 * bytes \<le> (2 * t + 1) * 1024 ^ i \<and> 2 * t * 1024 ^ i \<le> 20 * bytes + 1024 ^ i \<and>
        format_bytes bytes =
          nat_to_string (t div 10) @ ''.'' @ nat_to_string (t mod 10) @ '' '' @ byte_units ! i)"
proof -
  have near: "20 * bytes \<le> (2 * byte_tenths bytes + 1) * 1024 ^ byte_unit 0 bytes"
    "2 * byte_tenths bytes * 1024 ^ byte_unit 0 bytes \<le> 20 * bytes + 1024 ^ byte_unit 0 bytes"
    using round_div_near [of "1024 ^ byte_unit 0 bytes" "10 * bytes"]
    by (simp_all add: byte_tenths_def)
  have "byte_unit 0 bytes = 0 \<Longrightarrow> bytes < 1024" and
    "format_bytes bytes = nat_to_string bytes @ '' B''" if "byte_unit 0 bytes = 0"
    using byte_unit_bounds [of 0 bytes] that by (auto simp: format_bytes_def byte_units_def)
  moreover have "format_bytes bytes = nat_to_string (byte_tenths bytes div 10) @ ''.'' @
      nat_to_string (byte_tenths bytes mod 10) @ '' '' @ byte_units ! byte_unit 0 bytes"
    if "byte_unit 0 bytes > 0"
    using that by (simp add: format_bytes_def Let_def)
  moreover have "byte_unit 0 bytes \<le> 4" "1024 ^ byte_unit 0 bytes \<le> bytes \<or> byte_unit 0 bytes = 0"
    "byte_unit 0 bytes = 4 \<or> bytes < 1024 * 1024 ^ byte_unit 0 bytes"
    using byte_unit_bounds [of 0 bytes] by simp_all
  ultimately show ?thesis
    using near unfolding Let_def power_Suc by (cases "byte_unit 0 bytes = 0") auto
qed

lemma format_bytes_sample: "format_bytes 1048575 = ''1024.0 KB'' \<and> format_bytes 1536 = ''1.5 KB''"
proof -
  have "byte_unit 0 1048575 = 1" "byte_unit 0 1536 = 1" by (simp_all add: byte_unit.simps)
  moreover from this have "byte_tenths 1048575 = 10240" "byte_tenths 1536 = 15"
    by (simp_all add: byte_tenths_def round_div_def)
  moreover have "nat_to_string 1024 = ''1024''" "nat_to_string 0 = ''0''" "nat_to_string 1 = ''1''"
    "nat_to_string 5 = ''5''" by code_simp+
  ultimately show ?thesis by (simp add: format_bytes_def byte_units_def)
qed

end
