(* ===== verification/File_Read.thy ===== *)
theory File_Read
  imports Files Tools Format Base64 Json_Sample
begin

text \<open>
  The Read tool: \<open>src/tools/file_read_tool.cpp\<close>. What a call needs beside the \<open>fs_env\<close> of theory
  \<open>Files\<close> is how the system resolves a path (\<open>fs::canonical\<close>) and which names exist without
  being regular files. Line numbers are computed in \<open>size_t\<close>, modulo \<open>2 ^ 64\<close>.
\<close>

record read_env = fs_env +
  re_canonical :: "string \<Rightarrow> string option"
  re_other :: "string \<Rightarrow> bool"

section \<open>The type of a file\<close>

definition image_extensions :: "(string \<times> string) list" where
  "image_extensions =
     [(''.png'', ''image/png''), (''.jpg'', ''image/jpeg''), (''.jpeg'', ''image/jpeg''),
      (''.gif'', ''image/gif''), (''.webp'', ''image/webp''), (''.svg'', ''image/svg+xml''),
      (''.bmp'', ''image/bmp''), (''.ico'', ''image/x-icon'')]"

definition magic_bytes :: "(nat list \<times> string) list" where
  "magic_bytes =
     [([0x89, 0x50, 0x4E, 0x47], ''image/png''), ([0xFF, 0xD8, 0xFF], ''image/jpeg''),
      ([0x47, 0x49, 0x46, 0x38], ''image/gif''), ([0x52, 0x49, 0x46, 0x46], ''image/webp''),
      ([0x42, 0x4D], ''image/bmp''), ([0x25, 0x50, 0x44, 0x46], ''application/pdf''),
      ([0x50, 0x4B, 0x03, 0x04], ''application/zip'')]"

definition header_bytes :: "string \<Rightarrow> nat list" where
  "header_bytes s = map of_char (take 16 s)"

definition octet_stream :: string where
  "octet_stream = ''application/octet-stream''"

text \<open>
  The result of \<open>util::to_lower(ext)\<close> is not used: only extensions in lower case are in the
  table.
\<close>

definition detect_mime_type :: "fs_env \<Rightarrow> fsys \<Rightarrow> string \<Rightarrow> string" where
  "detect_mime_type e w p =
     (case map_of image_extensions (path_extension p) of
        Some mime \<Rightarrow> mime
      | None \<Rightarrow>
          (case read_file e w p of
             None \<Rightarrow> octet_stream
           | Some s \<Rightarrow>
               (case find (\<lambda>mm. prefix (fst mm) (header_bytes s)) magic_bytes of
                  Some mm \<Rightarrow> snd mm
                | None \<Rightarrow> if 0 \<in> set (header_bytes s) then octet_stream else ''text/plain'')))"

section \<open>The three readers\<close>

definition file_size :: "fsys \<Rightarrow> string \<Rightarrow> nat" where
  "file_size w p = (case w p of None \<Rightarrow> 0 | Some f \<Rightarrow> length (f_content f))"

definition read_image :: "fs_env \<Rightarrow> fsys \<Rightarrow> string \<Rightarrow> tool_output" where
  "read_image e w p =
     (case read_file e w p of
        None \<Rightarrow> tool_err (''Failed to read file: '' @ p)
      | Some content \<Rightarrow>
          (let mime = detect_mime_type e w p; base64 = base64_encode content
           in tool_ok (''[Image: '' @ p @ '']'' @ [CHR 0x0A] @ ''Type: '' @ mime @ [CHR 0x0A] @
                ''Size: '' @ format_bytes (file_size w p) @ [CHR 0x0A] @
                ''Base64 length: '' @ nat_to_string (length base64) @ '' chars'' @ [CHR 0x0A] @
                ''data:'' @ mime @ '';base64,'' @ base64)))"

definition max_lines :: nat where
  "max_lines = 2000"

definition numbered_line :: "int \<Rightarrow> nat \<Rightarrow> string \<Rightarrow> string" where
  "numbered_line offset i line =
     pad_left 6 (nat_to_string (nat ((offset + int i + 1) mod 2 ^ 64))) @ '' | '' @ line @ [CHR 0x0A]"

definition truncation_note :: string where
  "truncation_note = [CHR 0x0A] @ ''[Output truncated: showing first 2000 of total lines. '' @
     ''Use offset/limit to paginate.]''"

definition read_text :: "fs_env \<Rightarrow> fsys \<Rightarrow> string \<Rightarrow> int \<Rightarrow> int \<Rightarrow> tool_output" where
  "read_text e w p offset limit =
     (case read_file_lines e w p offset limit of
        None \<Rightarrow> tool_err (''Failed to read file: '' @ p)
      | Some all_lines \<Rightarrow>
          (let truncated = length all_lines > max_lines; shown = take max_lines all_lines
           in tool_ok (concat (map (\<lambda>i. numbered_line offset i (shown ! i)) [0..<length shown]) @
                (if truncated then truncation_note else []))))"

definition read_binary :: "fs_env \<Rightarrow> fsys \<Rightarrow> string \<Rightarrow> tool_output" where
  "read_binary e w p =
     tool_ok (''[Binary file: '' @ p @ '']'' @ [CHR 0x0A] @
       ''Type: '' @ detect_mime_type e w p @ [CHR 0x0A] @
       ''Size: '' @ format_bytes (file_size w p) @ [CHR 0x0A] @ ''Cannot display binary content.'')"

section \<open>Calls\<close>

definition read_single_file ::
  "read_env \<Rightarrow> fsys \<Rightarrow> string \<Rightarrow> int \<Rightarrow> int \<Rightarrow> tool_context \<Rightarrow> tool_output" where
  "read_single_file e w file_path offset limit ctx =
     (let fe = fs_env.truncate e in
      case re_canonical e (resolve_path fe (tx_working_directory ctx) file_path) of
        None \<Rightarrow> tool_err (''File not found: '' @ file_path)
      | Some p \<Rightarrow>
          if w p = None \<and> \<not> re_other e p then tool_err (''File not found: '' @ file_path)
          else if w p = None then tool_err (''Not a regular file: '' @ file_path)
          else if file_size w p > 100 * 1024 * 1024
          then tool_err (''File too large: '' @ format_bytes (file_size w p) @ '' (max 100MB)'')
          else (let mime = detect_mime_type fe w p in
            if starts_with mime ''image/'' then read_image fe w p
            else if mime = octet_stream \<or> is_binary_file fe w p then read_binary fe w p
            else read_text fe w p offset limit))"

text \<open>The loop over several files: the text so far and the two counters.\<close>

fun read_batch ::
  "(string \<Rightarrow> tool_output) \<Rightarrow> string list \<Rightarrow> string \<Rightarrow> nat \<Rightarrow> nat \<Rightarrow> string \<times> nat \<times> nat" where
  "read_batch rd [] combined ok_count error_count = (combined, ok_count, error_count)"
| "read_batch rd (p # ps) combined ok_count error_count =
     (let c = combined @ ''=== '' @ p @ '' ==='' @ [CHR 0x0A]; result = rd p in
      if to_is_error result
      then read_batch rd ps (c @ ''Error: '' @ to_error_message result @ [CHR 0x0A, CHR 0x0A])
             ok_count (Suc error_count)
      else read_batch rd ps (c @ to_content result @ [CHR 0x0A, CHR 0x0A]) (Suc ok_count) error_count)"

definition batch_output :: "string \<times> nat \<times> nat \<Rightarrow> tool_output" where
  "batch_output r =
     (case r of (combined, ok_count, error_count) \<Rightarrow>
        tool_ok (combined @ ''[Read '' @ nat_to_string ok_count @ '' files'' @
          (if error_count > 0 then '', '' @ nat_to_string error_count @ '' errors'' else []) @
          '']'' @ [CHR 0x0A]))"

definition requested_paths :: "('j, 'z) jlib_scheme \<Rightarrow> 'j \<Rightarrow> string \<Rightarrow> string list" where
  "requested_paths J j file_path =
     (let paths = (case j_at J j ''file_paths'' of
            Some ps \<Rightarrow> if j_contains J j ''file_paths'' \<and> j_is_array J ps
                      then List.map_filter (\<lambda>p. if j_is_string J p then j_get_str J p else None) (j_elems J ps)
                      else []
          | None \<Rightarrow> [])
      in if paths = [] \<and> file_path \<noteq> [] then [file_path] else paths)"

definition read_paths ::
  "read_env \<Rightarrow> fsys \<Rightarrow> string list \<Rightarrow> int \<Rightarrow> int \<Rightarrow> tool_context \<Rightarrow> tool_output" where
  "read_paths e w paths offset limit ctx =
     (case paths of
        [] \<Rightarrow> tool_err ''No file path specified. Use 'file_path' or 'file_paths'.''
      | [p] \<Rightarrow> read_single_file e w p offset limit ctx
      | _ \<Rightarrow> batch_output (read_batch (\<lambda>p. read_single_file e w p offset limit ctx) paths [] 0 0))"

definition read_execute ::
  "('j, 'z) jlib_scheme \<Rightarrow> read_env \<Rightarrow> fsys \<Rightarrow> string \<Rightarrow> tool_context \<Rightarrow> cpp_exn + tool_output" where
  "read_execute J e w input_json ctx =
     caught_json (fe_what e)
       (bind_exn (parse_json J input_json) (\<lambda>j.
        bind_exn (str_value J j ''file_path'' []) (\<lambda>file_path.
        bind_exn (int_value J j ''offset'' 0) (\<lambda>offset.
        bind_exn (int_value J j ''limit'' 0) (\<lambda>limit.
          Inr (read_paths e w (requested_paths J j file_path) offset limit ctx))))))"

section \<open>What is shown of a text file\<close>

text \<open>The lines of the window, the number of each, and whether the note follows.\<close>

lemma read_text_window:
  fixes limit :: int
  assumes "read_file e w p = Some s" and "0 \<le> offset"
  defines "ls \<equiv> split_char s (CHR 0x0A)"
  defines "window \<equiv> (if 0 < limit then take (nat limit) (drop (nat offset) ls) else drop (nat offset) ls)"
  shows "read_text e w p offset limit =
    tool_ok (concat (map (\<lambda>i. numbered_line offset i (ls ! (nat offset + i)))
        [0..<min max_lines (length window)]) @
      (if length window > max_lines then truncation_note else []))"
proof -
  have "read_file_lines e w p offset limit = Some window"
    using assms(1) by (simp add: read_file_lines_def take_lines_spec window_def ls_def Let_def)
  moreover have "take max_lines window ! i = ls ! (nat offset + i)"
    if "i < min max_lines (length window)" for i
    using that assms(2) by (auto simp: window_def nth_drop split: if_splits)
  then have "map (\<lambda>i. numbered_line offset i (take max_lines window ! i)) [0..<min max_lines (length window)] =
      map (\<lambda>i. numbered_line offset i (ls ! (nat offset + i))) [0..<min max_lines (length window)]"
    by simp
  moreover have "length (take max_lines window) = min max_lines (length window)"
    by (simp add: min.commute)
  ultimately show ?thesis
    by (simp only: read_text_def option.case Let_def)
qed

definition plain_bytes :: "string \<Rightarrow> bool" where
  "plain_bytes s = (\<forall>c \<in> set (take 8192 s). (of_char c :: nat) \<noteq> 0)"

definition has_magic :: "string \<Rightarrow> bool" where
  "has_magic s = list_ex (\<lambda>mm. prefix (fst mm) (header_bytes s)) magic_bytes"

lemma magic_find: "find (\<lambda>mm. prefix (fst mm) (header_bytes s)) magic_bytes = None \<longleftrightarrow> \<not> has_magic s"
  unfolding has_magic_def find_None_iff list_ex_iff by blast

lemma plain_text_mime:
  assumes "map_of image_extensions (path_extension p) = None" and "read_file e w p = Some s"
    and "plain_bytes s" and "\<not> has_magic s"
  shows "detect_mime_type e w p = ''text/plain''"
proof -
  have "0 \<notin> set (header_bytes s)"
    using assms(3) set_take_subset_set_take [of 16 8192 s]
    by (fastforce simp: plain_bytes_def header_bytes_def)
  with assms magic_find [of s] show ?thesis by (simp add: detect_mime_type_def)
qed

lemma bm_mime:
  assumes "map_of image_extensions (path_extension p) = None"
    and "read_file e w p = Some (''BM'' @ s)"
  shows "detect_mime_type e w p = ''image/bmp''"
  using assms by (simp add: detect_mime_type_def magic_bytes_def header_bytes_def)

definition readable_at :: "read_env \<Rightarrow> fsys \<Rightarrow> tool_context \<Rightarrow> string \<Rightarrow> string \<Rightarrow> string \<Rightarrow> bool" where
  "readable_at e w ctx file_path p s =
     (re_canonical e (resolve_path (fs_env.truncate e) (tx_working_directory ctx) file_path) = Some p \<and>
      read_file (fs_env.truncate e) w p = Some s \<and> length s \<le> 100 * 1024 * 1024)"

lemma read_single_found:
  assumes "readable_at e w ctx fp p s"
  shows "read_single_file e w fp offset limit ctx =
    (let fe = fs_env.truncate e; mime = detect_mime_type fe w p in
     if starts_with mime ''image/'' then read_image fe w p
     else if mime = octet_stream \<or> is_binary_file fe w p then read_binary fe w p
     else read_text fe w p offset limit)"
  using assms
  by (auto simp: readable_at_def read_single_file_def read_file_def file_size_def Let_def
      split: if_splits option.splits)

lemma text_file_shown:
  assumes "readable_at e w ctx fp p s" and "map_of image_extensions (path_extension p) = None"
    and "plain_bytes s" and "0 \<le> offset" and "ls = split_char s (CHR 0x0A)"
    and "n = (if 0 < limit then min (nat limit) (length ls - nat offset) else length ls - nat offset)"
  shows "(\<not> has_magic s \<longrightarrow>
      read_single_file e w fp offset limit ctx =
        tool_ok (concat (map (\<lambda>i. numbered_line offset i (ls ! (nat offset + i))) [0..<min 2000 n]) @
          (if n > 2000 then truncation_note else []))) \<and>
    (prefix ''BM'' s \<longrightarrow>
      read_single_file e w fp offset limit ctx = read_image (fs_env.truncate e) w p \<and>
      prefix ''[Image: '' (to_content (read_single_file e w fp offset limit ctx)))"
proof (intro conjI impI)
  let ?e = "fs_env.truncate e"
  have s: "read_file ?e w p = Some s" using assms(1) by (simp add: readable_at_def)
  note found = read_single_found [OF assms(1), of offset limit]
  {
    assume "\<not> has_magic s"
    then have mime: "detect_mime_type ?e w p = ''text/plain''"
      using plain_text_mime assms(2,3) s by blast
    have "\<not> is_binary_file ?e w p"
      using assms(3) s by (auto simp: is_binary_file_def plain_bytes_def list_ex_iff)
    with mime found have "read_single_file e w fp offset limit ctx = read_text ?e w p offset limit"
      by (simp add: starts_with_def octet_stream_def)
    also have "\<dots> = tool_ok (concat (map (\<lambda>i. numbered_line offset i (ls ! (nat offset + i)))
          [0..<min 2000 n]) @ (if n > 2000 then truncation_note else []))"
    proof -
      have "length (if 0 < limit then take (nat limit) (drop (nat offset) ls) else drop (nat offset) ls) = n"
        by (simp add: assms(6) min.commute)
      then show ?thesis
        using read_text_window [OF s assms(4), of limit]
        by (simp only: assms(5) max_lines_def)
    qed
    finally show "read_single_file e w fp offset limit ctx =
        tool_ok (concat (map (\<lambda>i. numbered_line offset i (ls ! (nat offset + i))) [0..<min 2000 n]) @
          (if n > 2000 then truncation_note else []))" .
  }
  {
    assume "prefix ''BM'' s"
    then obtain rest where "s = ''BM'' @ rest" by (auto elim: prefixE)
    then have "detect_mime_type ?e w p = ''image/bmp''" using bm_mime assms(2) s by simp
    with found show "read_single_file e w fp offset limit ctx = read_image ?e w p"
      by (simp add: starts_with_def)
    then show "prefix ''[Image: '' (to_content (read_single_file e w fp offset limit ctx))"
      using s by (simp add: read_image_def tool_ok_def Let_def)
  }
qed

text \<open>
  C37: What the tool shows of a file that is text: without null bytes at the start and without the
  extension of an image. If it does not begin like one of the known formats, the answer is the
  requested lines, each after its number from the start of the file, at most 2000 of them, and a
  note if there were more. The offset counts from 0, as the schema of the tool says (its
  description says from 1: a model that asks for line 10 on, as the description has it, gets the lines
  from number 11 on). A text that begins with the letters \<open>BM\<close> is taken for a bitmap and shown in
  base64 instead.
\<close>

theorem text_file_read:
  assumes "readable_at e w ctx fp p s" and "map_of image_extensions (path_extension p) = None"
    and "plain_bytes s" and "0 \<le> offset" and "ls = split_char s (CHR 0x0A)"
    and "n = (if 0 < limit then min (nat limit) (length ls - nat offset) else length ls - nat offset)"
  shows "(\<not> has_magic s \<longrightarrow>
      read_single_file e w fp offset limit ctx =
        tool_ok (concat (map (\<lambda>i. numbered_line offset i (ls ! (nat offset + i))) [0..<min 2000 n]) @
          (if n > 2000 then truncation_note else []))) \<and>
    (prefix ''BM'' s \<longrightarrow>
      read_single_file e w fp offset limit ctx = read_image (fs_env.truncate e) w p \<and>
      prefix ''[Image: '' (to_content (read_single_file e w fp offset limit ctx)))"
  using assms by (rule text_file_shown)

text \<open>A negative offset shows the whole file, with the numbers of its lines wrapped around.\<close>

lemma negative_offset_numbers:
  "numbered_line (-3) 0 line = ''18446744073709551614 | '' @ line @ [CHR 0x0A]"
proof -
  have "nat ((-3 + int 0 + 1) mod 2 ^ 64) = 18446744073709551614" by simp
  moreover have "nat_to_string 18446744073709551614 = ''18446744073709551614''"
    by (simp add: nat_to_string.simps digit_def) code_simp
  ultimately show ?thesis by (simp add: numbered_line_def pad_left_def)
qed

section \<open>Several files\<close>

lemma read_batch_spec:
  "read_batch rd ps c n k =
     (c @ concat (map (\<lambda>p. ''=== '' @ p @ '' ==='' @ [CHR 0x0A] @
           (if to_is_error (rd p) then ''Error: '' @ to_error_message (rd p) else to_content (rd p)) @
           [CHR 0x0A, CHR 0x0A]) ps),
      n + length (filter (\<lambda>p. \<not> to_is_error (rd p)) ps), k + length (filter (\<lambda>p. to_is_error (rd p)) ps))"
  by (induction ps arbitrary: c n k) (simp_all add: Let_def)

text \<open>
  Several files: each is read as it would be alone, in the order asked for, and the answer is
  never an error, whatever happened to the single files.
\<close>

theorem batch_reads_each:
  assumes "2 \<le> length ps" and "rd = (\<lambda>p. read_single_file e w p offset limit ctx)"
  shows "read_paths e w ps offset limit ctx =
    tool_ok (concat (map (\<lambda>p. ''=== '' @ p @ '' ==='' @ [CHR 0x0A] @
           (if to_is_error (rd p) then ''Error: '' @ to_error_message (rd p) else to_content (rd p)) @
           [CHR 0x0A, CHR 0x0A]) ps) @
      ''[Read '' @ nat_to_string (length (filter (\<lambda>p. \<not> to_is_error (rd p)) ps)) @ '' files'' @
      (if list_ex (\<lambda>p. to_is_error (rd p)) ps
       then '', '' @ nat_to_string (length (filter (\<lambda>p. to_is_error (rd p)) ps)) @ '' errors'' else []) @
      '']'' @ [CHR 0x0A])"
proof -
  have "read_paths e w ps offset limit ctx = batch_output (read_batch rd ps [] 0 0)"
    using assms by (cases ps; cases "tl ps") (simp_all add: read_paths_def)
  moreover have "list_ex (\<lambda>p. to_is_error (rd p)) ps = (0 < length (filter (\<lambda>p. to_is_error (rd p)) ps))"
    by (auto simp: list_ex_iff filter_empty_conv)
  ultimately show ?thesis by (simp add: batch_output_def read_batch_spec)
qed

section \<open>Witnesses\<close>

definition sample_read_env :: read_env where
  "sample_read_env = fs_env.extend (sample_fs_env None)
     \<lparr>re_canonical = Some, re_other = (\<lambda>p. False)\<rparr>"

definition sample_text :: "string \<Rightarrow> fsys" where
  "sample_text s = [''/a'' \<mapsto> \<lparr>f_content = s, f_mtime = 3\<rparr>]"

lemma sample_readable:
  "length s \<le> 100 \<Longrightarrow> readable_at sample_read_env (sample_text s) ctx ''/a'' ''/a'' s"
  by (simp add: readable_at_def sample_read_env_def fs_env.defs sample_fs_env_def sample_text_def
      read_file_def resolve_absolute is_absolute_def)

lemma text_file_read_witness:
  "(\<exists>out. read_single_file sample_read_env (sample_text ''x'') ''/a'' 0 0 sample_context = tool_ok out \<and>
     out = numbered_line 0 0 ''x'') \<and>
   prefix ''[Image: '' (to_content (read_single_file sample_read_env (sample_text ''BMW'') ''/a'' 0 0 sample_context))"
proof -
  have "path_extension ''/a'' = []" by code_simp
  then have ext: "map_of image_extensions (path_extension ''/a'') = None"
    by (simp add: image_extensions_def)
  have "split_char ''x'' (CHR 0x0A) = [''x'']" by (simp add: split_char.simps)
  moreover have "plain_bytes ''x''" "\<not> has_magic ''x''" "plain_bytes ''BMW''"
    by (simp_all add: plain_bytes_def has_magic_def magic_bytes_def header_bytes_def)
  ultimately have plain: "read_single_file sample_read_env (sample_text ''x'') ''/a'' 0 0 sample_context =
      tool_ok (numbered_line 0 0 ''x'')"
    and image: "plain_bytes ''BMW''"
    using text_file_read [OF sample_readable [of "''x''"] ext _ _ refl refl, of 0 0 sample_context] by simp_all
  have "prefix ''[Image: '' (to_content (read_single_file sample_read_env (sample_text ''BMW'') ''/a'' 0 0 sample_context))"
    by (rule text_file_read [OF sample_readable [of "''BMW''"] ext image _ refl refl,
          THEN conjunct2, THEN mp, THEN conjunct2]) simp_all
  with plain show ?thesis by blast
qed

lemma batch_reads_each_witness:
  "\<exists>out. read_paths sample_read_env (sample_text ''x'') [''/a'', ''/a''] 0 0 sample_context = tool_ok out \<and>
     prefix ''=== /a ==='' out"
  by (rule exI, rule conjI, rule batch_reads_each [OF _ refl]) simp_all

end
