(* ===== verification/File_Write.thy ===== *)
theory File_Write
  imports File_Edit Format
begin

text \<open>
  The Write tool: \<open>src/tools/file_write_tool.cpp\<close>, on the file system of theory \<open>Files\<close>. Beside
  the \<open>fs_env\<close>, a call depends on the size from which the stream writes at once instead of when
  it is closed, and on how a time is printed. Directories are left out, so the one that creates
  the parent directories has no effect here.
\<close>

record write_env = fs_env +
  we_buffer :: nat
  we_time :: "nat \<Rightarrow> string"

text \<open>
  \<open>f << content; f.good()\<close>: what the disk refuses is noticed only if the stream has already
  written it; the destructor closes the stream without a look at the result.
\<close>

definition write_noticed :: "write_env \<Rightarrow> string \<Rightarrow> bool" where
  "write_noticed e content =
     (written (fs_env.truncate e) content \<noteq> content \<and> we_buffer e \<le> length content)"

definition changed_lines :: "string \<Rightarrow> string \<Rightarrow> string" where
  "changed_lines original content =
     (let ol = split_parts [CHR 0x0A] original; nl = split_parts [CHR 0x0A] content;
          pre = common_prefix ol nl; suf = common_suffix pre ol nl;
          old_count = length ol - suf - pre; new_count = length nl - suf - pre
      in if old_count > 0 \<or> new_count > 0
         then [CHR 0x0A] @ text_line ''Changes:'' @
           text_line (''@@ -'' @ nat_to_string (pre + 1) @ '','' @ nat_to_string old_count @
             '' +'' @ nat_to_string (pre + 1) @ '','' @ nat_to_string new_count @ '' @@'') @
           concat (map (\<lambda>l. text_line (''-'' @ l)) (take old_count (drop pre ol))) @
           concat (map (\<lambda>l. text_line (''+'' @ l)) (take new_count (drop pre nl)))
         else [])"

definition write_report :: "bool \<Rightarrow> string \<Rightarrow> string \<Rightarrow> string \<Rightarrow> string" where
  "write_report is_new p original content =
     (if is_new
      then text_line (''Created new file: '' @ p) @ text_line (''Size: '' @ format_bytes (length content))
      else text_line (''Updated file: '' @ p) @
        text_line (''Size: '' @ format_bytes (length content) @ '' ('' @ signed_change content original @ '' bytes)'') @
        (if original \<noteq> content then changed_lines original content else []))"

definition original_content :: "write_env \<Rightarrow> bool \<Rightarrow> string \<Rightarrow> fsys \<Rightarrow> string" where
  "original_content e is_new p w =
     (if is_new then []
      else (case read_file (fs_env.truncate e) w p of None \<Rightarrow> [] | Some s \<Rightarrow> s))"

definition do_write ::
  "write_env \<Rightarrow> string \<Rightarrow> string \<Rightarrow> string \<Rightarrow> fsys \<Rightarrow> (cpp_exn + tool_output) \<times> fsys" where
  "do_write e file_path content cwd w =
     (let fe = fs_env.truncate e; p = resolve_path fe cwd file_path; tmp = temp_path_of fe p;
          is_new = \<not> file_exists w p; w1 = fe_before_read e w;
          original = original_content e is_new p w1
      in if \<not> fe_temp_opens e
         then (Inr (tool_err (''Failed to create temp file: '' @ file_path)), w1)
         else let w2 = write_stream fe tmp content w1 in
         if write_noticed e content
         then (Inr (tool_err (''Failed to write content: '' @ file_path)), remove_file tmp w2)
         else let w3 = fe_before_rename e w2 in
         if \<not> fe_rename_works e
         then (Inr (tool_err (''Failed to write file (rename error): '' @ file_path)), remove_file tmp w3)
         else let w4 = rename_file tmp p w3 in
         (bind_exn (last_write_time w4 p) (\<lambda>mtime.
            Inr (tool_ok (write_report is_new p original content @
              text_line (''Modified: '' @ we_time e mtime)))), w4))"

definition write_body ::
  "('j, 'z) jlib_scheme \<Rightarrow> write_env \<Rightarrow> string \<Rightarrow> tool_context \<Rightarrow> fsys \<Rightarrow>
   (cpp_exn + tool_output) \<times> fsys" where
  "write_body J e input ctx w =
     (case bind_exn (parse_json J input) (\<lambda>j.
           bind_exn (str_value J j ''file_path'' []) (\<lambda>file_path.
           bind_exn (str_value J j ''content'' []) (\<lambda>content. Inr (file_path, content)))) of
        Inl x \<Rightarrow> (Inl x, w)
      | Inr (file_path, content) \<Rightarrow>
          if file_path = [] then (Inr (tool_err ''No file path specified''), w)
          else do_write e file_path content (tx_working_directory ctx) w)"

definition write_execute ::
  "('j, 'z) jlib_scheme \<Rightarrow> write_env \<Rightarrow> string \<Rightarrow> tool_context \<Rightarrow> fsys \<Rightarrow> tool_output \<times> fsys" where
  "write_execute J e input ctx w = catch_all (fs_env.truncate e) (write_body J e input ctx w)"

section \<open>All or nothing\<close>

lemma truncate_env [simp]:
  "fe_before_read (fs_env.truncate e) = fe_before_read e"
  "fe_before_rename (fs_env.truncate e) = fe_before_rename e"
  "fe_now (fs_env.truncate e) = fe_now e" "fe_uuid (fs_env.truncate e) = fe_uuid e"
  "fe_disk_left (fs_env.truncate e) = fe_disk_left e"
  by (simp_all add: fs_env.defs)

lemma temp_path_other: "temp_path_of e p \<noteq> p"
  by (simp add: temp_path_of_def)

lemma write_result:
  assumes "undisturbed (fs_env.truncate e)" and "p = resolve_path (fs_env.truncate e) cwd file_path"
    and "w (temp_path_of (fs_env.truncate e) p) = None"
    and "do_write e file_path content cwd w = (Inr out, w')"
  shows "(to_is_error out \<longrightarrow> w' = w) \<and>
    (\<not> to_is_error out \<longrightarrow>
       w' = w(p \<mapsto> \<lparr>f_content = written (fs_env.truncate e) content, f_mtime = fe_now e\<rparr>)) \<and>
    (\<not> to_is_error out \<longrightarrow> written (fs_env.truncate e) content = content \<or> length content < we_buffer e)"
proof -
  let ?fe = "fs_env.truncate e"
  note quiet = undisturbed_simps(1,3) [OF assms(1), simplified]
  have moved: "rename_file (temp_path_of ?fe p) p (write_stream ?fe (temp_path_of ?fe p) content w) =
      w(p \<mapsto> \<lparr>f_content = written ?fe content, f_mtime = fe_now e\<rparr>)"
    using rename_written [of "temp_path_of ?fe p" p w ?fe content, OF temp_path_other assms(3)] by simp
  have removed: "remove_file (temp_path_of ?fe p) (write_stream ?fe (temp_path_of ?fe p) content w) = w"
    using assms(3) by (rule remove_written)
  consider (closed_disk) "\<not> fe_temp_opens e" | (noticed) "fe_temp_opens e" "write_noticed e content"
    | (kept) "fe_temp_opens e" "\<not> write_noticed e content" "\<not> fe_rename_works e"
    | (done_) "fe_temp_opens e" "\<not> write_noticed e content" "fe_rename_works e" by blast
  then show ?thesis
  proof cases
    case done_
    then have "w' = w(p \<mapsto> \<lparr>f_content = written ?fe content, f_mtime = fe_now e\<rparr>)" "\<not> to_is_error out"
      using assms(4) moved quiet
      by (auto simp: do_write_def Let_def assms(2) [symmetric] bind_exn_Inr tool_ok_def)
    with done_(2) show ?thesis by (auto simp: write_noticed_def)
  qed (use assms(4) removed quiet in \<open>auto simp: do_write_def Let_def assms(2) [symmetric] tool_err_def\<close>)
qed

text \<open>
  A call that reports an error leaves every file as it was. One that reports success has replaced
  exactly the target, by what the disk took of the content: if the content is shorter than the
  buffer and the disk is full, a truncated file and a report of success.
\<close>

theorem write_all_or_nothing:
  assumes "undisturbed (fs_env.truncate e)" and "p = resolve_path (fs_env.truncate e) cwd file_path"
    and "w (temp_path_of (fs_env.truncate e) p) = None"
    and "do_write e file_path content cwd w = (Inr out, w')"
  shows "(to_is_error out \<longrightarrow> w' = w) \<and>
    (\<not> to_is_error out \<longrightarrow>
       w' = w(p \<mapsto> \<lparr>f_content = written (fs_env.truncate e) content, f_mtime = fe_now e\<rparr>)) \<and>
    (\<not> to_is_error out \<longrightarrow> written (fs_env.truncate e) content = content \<or> length content < we_buffer e)"
  using assms by (rule write_result)

section \<open>The report\<close>

lemma split_parts_inj: "d \<noteq> [] \<Longrightarrow> split_parts d s = split_parts d t \<Longrightarrow> s = t"
  using join_split_parts by metis

lemma changed_lines_region:
  assumes "old \<noteq> new"
  shows "\<exists>pre olds news suf.
    split_parts [CHR 0x0A] old = pre @ olds @ suf \<and> split_parts [CHR 0x0A] new = pre @ news @ suf \<and>
    changed_lines old new = [CHR 0x0A] @ text_line ''Changes:'' @
      text_line (''@@ -'' @ nat_to_string (length pre + 1) @ '','' @ nat_to_string (length olds) @
        '' +'' @ nat_to_string (length pre + 1) @ '','' @ nat_to_string (length news) @ '' @@'') @
      concat (map (\<lambda>l. text_line (''-'' @ l)) olds) @ concat (map (\<lambda>l. text_line (''+'' @ l)) news)"
proof -
  define ol nl where "ol = split_parts [CHR 0x0A] old" and "nl = split_parts [CHR 0x0A] new"
  define m k where "m = common_prefix ol nl" and "k = common_suffix m ol nl"
  define olds news where "olds = take (length ol - k - m) (drop m ol)"
    and "news = take (length nl - k - m) (drop m nl)"
  obtain suf where suf: "ol = take m ol @ olds @ suf" "nl = take m ol @ news @ suf" "m \<le> length ol"
    "length olds = length ol - m - k" "length news = length nl - m - k"
    using diff_region [OF m_def k_def, folded olds_def news_def] by blast
  have "ol \<noteq> nl" using split_parts_inj assms by (auto simp: ol_def nl_def)
  then have "\<not> (olds = [] \<and> news = [])" using suf(1,2) by metis
  moreover have counts: "length ol - k - m = length olds" "length nl - k - m = length news"
    using suf(4,5) by (simp_all add: diff_right_commute)
  moreover have cut: "take (length olds) (drop m ol) = olds" "take (length news) (drop m nl) = news"
    using counts by (metis olds_def, metis news_def)
  ultimately have more: "0 < length ol - k - m \<or> 0 < length nl - k - m"
    unfolding counts length_greater_0_conv by blast
  have "changed_lines old new = [CHR 0x0A] @ text_line ''Changes:'' @
      text_line (''@@ -'' @ nat_to_string (m + 1) @ '','' @ nat_to_string (length olds) @
        '' +'' @ nat_to_string (m + 1) @ '','' @ nat_to_string (length news) @ '' @@'') @
      concat (map (\<lambda>l. text_line (''-'' @ l)) olds) @ concat (map (\<lambda>l. text_line (''+'' @ l)) news)"
    using more unfolding changed_lines_def ol_def [symmetric] nl_def [symmetric] Let_def
      m_def [symmetric] k_def [symmetric] counts cut
    by (simp only: if_True)
  moreover have "length (take m ol) = m" using suf(3) by simp
  ultimately show ?thesis
    using suf(1,2) unfolding ol_def [symmetric] nl_def [symmetric] by metis
qed

text \<open>
  C18: What a call that nothing disturbs does and says. The target holds exactly the content. The
  report names it as new if it did not exist; otherwise it gives the change of its size and, if
  the content changed, the one region outside of which both versions have the same lines, with
  its place, its old and its new lines.
\<close>

theorem write_replaces:
  assumes "undisturbed (fs_env.truncate e)" and "p = resolve_path (fs_env.truncate e) cwd file_path"
    and "w (temp_path_of (fs_env.truncate e) p) = None" and "fe_temp_opens e" and "fe_rename_works e"
    and "fe_disk_left e = None" and "fe_readable e"
  shows "\<exists>diff. do_write e file_path content cwd w =
      (Inr (tool_ok ((case w p of
           None \<Rightarrow> text_line (''Created new file: '' @ p) @ text_line (''Size: '' @ format_bytes (length content))
         | Some f \<Rightarrow> text_line (''Updated file: '' @ p) @ text_line (''Size: '' @ format_bytes (length content) @
             '' ('' @ signed_change content (f_content f) @ '' bytes)'')) @
         diff @ text_line (''Modified: '' @ we_time e (fe_now e)))),
       w(p \<mapsto> \<lparr>f_content = content, f_mtime = fe_now e\<rparr>)) \<and>
    (case w p of
       None \<Rightarrow> diff = []
     | Some f \<Rightarrow> if f_content f = content then diff = []
         else \<exists>pre olds news suf.
           split_parts [CHR 0x0A] (f_content f) = pre @ olds @ suf \<and>
           split_parts [CHR 0x0A] content = pre @ news @ suf \<and>
           diff = [CHR 0x0A] @ text_line ''Changes:'' @
             text_line (''@@ -'' @ nat_to_string (length pre + 1) @ '','' @ nat_to_string (length olds) @
               '' +'' @ nat_to_string (length pre + 1) @ '','' @ nat_to_string (length news) @ '' @@'') @
             concat (map (\<lambda>l. text_line (''-'' @ l)) olds) @ concat (map (\<lambda>l. text_line (''+'' @ l)) news))"
proof -
  let ?fe = "fs_env.truncate e" and ?tmp = "temp_path_of (fs_env.truncate e) p"
  note quiet = undisturbed_simps(1,3) [OF assms(1), simplified]
  have all: "written ?fe content = content" "\<not> write_noticed e content"
    using assms(6) by (simp_all add: written_def write_noticed_def)
  have moved: "rename_file ?tmp p (write_stream ?fe ?tmp content w) =
      w(p \<mapsto> \<lparr>f_content = content, f_mtime = fe_now e\<rparr>)"
    using rename_written [of ?tmp p w ?fe content, OF temp_path_other assms(3)] all by simp
  define original where "original = (case w p of None \<Rightarrow> [] | Some f \<Rightarrow> f_content f)"
  have original: "original_content e (\<not> file_exists w p) p w = original"
    using assms(7)
    by (cases "w p") (simp_all add: original_content_def file_exists_def read_file_def original_def fs_env.defs)
  have new: "(\<not> file_exists w p) = (w p = None)" by (simp add: file_exists_def)
  have run: "do_write e file_path content cwd w =
      (Inr (tool_ok (write_report (w p = None) p original content @
         text_line (''Modified: '' @ we_time e (fe_now e)))),
       w(p \<mapsto> \<lparr>f_content = content, f_mtime = fe_now e\<rparr>))"
    using assms(4,5) all(2) moved quiet original [unfolded new]
    by (simp add: do_write_def Let_def assms(2) [symmetric] last_write_time_def new)
  show ?thesis
  proof (cases "w p")
    case None
    with run show ?thesis by (simp add: write_report_def)
  next
    case (Some f)
    show ?thesis
    proof (cases "f_content f = content")
      case True
      with run Some show ?thesis by (simp add: write_report_def original_def)
    next
      case False
      then have "write_report (w p = None) p original content =
          (text_line (''Updated file: '' @ p) @ text_line (''Size: '' @ format_bytes (length content) @
             '' ('' @ signed_change content (f_content f) @ '' bytes)'')) @ changed_lines (f_content f) content"
        using Some by (simp only: write_report_def original_def) simp
      with run Some False changed_lines_region [OF False] show ?thesis
        by (intro exI [of _ "changed_lines (f_content f) content"])
          (simp only: option.case append_assoc if_False)
    qed
  qed
qed

section \<open>Witnesses\<close>

definition sample_write_env :: "nat option \<Rightarrow> write_env" where
  "sample_write_env disk = fs_env.extend (sample_fs_env disk)
     \<lparr>we_buffer = 1024, we_time = (\<lambda>t. ''today'')\<rparr>"

lemma sample_write_env:
  "fs_env.truncate (sample_write_env d) = sample_fs_env d" "fe_temp_opens (sample_write_env d)"
  "fe_rename_works (sample_write_env d)" "fe_disk_left (sample_write_env d) = d"
  "fe_readable (sample_write_env d)" "fe_now (sample_write_env d) = 7" "we_buffer (sample_write_env d) = 1024"
  by (simp_all add: sample_write_env_def sample_fs_env_def fs_env.defs)

text \<open>A full disk: the report is a success, the file has two characters.\<close>

lemma write_all_or_nothing_witness:
  "\<exists>out. do_write (sample_write_env (Some 2)) ''/a'' ''wxyz'' ''/'' sample_files =
     (Inr out, sample_files(''/a'' \<mapsto> \<lparr>f_content = ''wx'', f_mtime = 7\<rparr>)) \<and> \<not> to_is_error out"
proof -
  let ?e = "sample_write_env (Some 2)"
  have env: "undisturbed (fs_env.truncate ?e)" "resolve_path (fs_env.truncate ?e) ''/'' ''/a'' = ''/a''"
    "sample_files (temp_path_of (fs_env.truncate ?e) ''/a'') = None"
    by (simp_all add: sample_write_env sample_undisturbed sample_resolve sample_files_def temp_path_of_def)
  have "\<not> write_noticed ?e ''wxyz''" by (simp add: write_noticed_def sample_write_env)
  then obtain out where out: "fst (do_write ?e ''/a'' ''wxyz'' ''/'' sample_files) = Inr out" "\<not> to_is_error out"
    using env(1,2) undisturbed_simps(1,3) [OF env(1), simplified]
    by (simp add: do_write_def sample_write_env Let_def rename_file_def write_stream_def
        last_write_time_def temp_path_of_def tool_ok_def)
  then have "do_write ?e ''/a'' ''wxyz'' ''/'' sample_files =
      (Inr out, snd (do_write ?e ''/a'' ''wxyz'' ''/'' sample_files))" by (metis prod.collapse)
  from write_all_or_nothing [where w = sample_files, OF env(1) env(2) [symmetric] env(3) this] out this show ?thesis
    by (auto simp: sample_write_env written_def sample_fs_env_def)
qed

lemma write_replaces_witness:
  "snd (do_write (sample_write_env None) ''/a'' ''wxyz'' ''/'' sample_files) =
     sample_files(''/a'' \<mapsto> \<lparr>f_content = ''wxyz'', f_mtime = 7\<rparr>)"
proof -
  let ?e = "sample_write_env None"
  have "undisturbed (fs_env.truncate ?e)" "''/a'' = resolve_path (fs_env.truncate ?e) ''/'' ''/a''"
    "sample_files (temp_path_of (fs_env.truncate ?e) ''/a'') = None"
    by (simp_all add: sample_write_env sample_undisturbed sample_resolve sample_files_def temp_path_of_def)
  from write_replaces [where w = sample_files, OF this, of "''wxyz''"] show ?thesis
    by (auto simp: sample_write_env)
qed

end
