(* ===== verification/Glob_Tool.thy ===== *)
theory Glob_Tool
  imports Std_Sort Files Tools Json_Sample
begin

text \<open>
  The Glob tool: \<open>src/tools/glob_tool.cpp\<close>. Arguments: which directories exist, with their
  canonical names; what an iteration over a directory yields, in its unspecified order, each
  entry with its path relative to the directory where that can be computed; \<open>fnmatch\<close> of the C
  library; and \<open>std::sort\<close>. An iteration that throws halfway is left out.
\<close>

record dir_entry =
  en_path :: string
  en_regular :: bool
  en_relative :: "string list option"
  en_mtime :: int

record glob_env =
  ge_home :: "string option"
  ge_canonical_dir :: "string \<Rightarrow> string option"
  ge_is_directory :: "string \<Rightarrow> bool"
  ge_entries :: "bool \<Rightarrow> string \<Rightarrow> dir_entry list"
  ge_fnmatch :: "string \<Rightarrow> string \<Rightarrow> bool"
  ge_sort :: "dir_entry list \<Rightarrow> dir_entry list"

section \<open>Patterns\<close>

definition exclude_patterns :: "string list" where
  "exclude_patterns =
     [''.git'', ''node_modules'', ''__pycache__'', ''.hg'', ''.svn'', ''.DS_Store'', ''Thumbs.db'',
      ''.venv'', ''venv'', ''.env'', ''dist'', ''build'', ''.cache'', ''target'', ''vendor'']"

definition is_excluded_component :: "string \<Rightarrow> string list \<Rightarrow> bool" where
  "is_excluded_component component excludes = list_ex (\<lambda>exc. component = exc) excludes"

fun split_loop :: "string \<Rightarrow> string \<Rightarrow> string list \<Rightarrow> string list" where
  "split_loop [] current parts = (if current \<noteq> [] then parts @ [current] else parts)"
| "split_loop (c # cs) current parts =
     (if c = CHR ''/'' \<or> c = CHR 0x5C
      then (if current \<noteq> [] then split_loop cs [] (parts @ [current]) else split_loop cs current parts)
      else split_loop cs (current @ [c]) parts)"

definition split_path_pattern :: "string \<Rightarrow> string list" where
  "split_path_pattern pattern = split_loop pattern [] []"

fun dir_prefix_loop :: "string list \<Rightarrow> string \<Rightarrow> string" where
  "dir_prefix_loop [] prefix_so_far = prefix_so_far"
| "dir_prefix_loop (part # parts) prefix_so_far =
     dir_prefix_loop parts
       (if part \<noteq> ''**''
        then (if prefix_so_far \<noteq> [] then prefix_so_far @ ''/'' else prefix_so_far) @ part
        else prefix_so_far)"

definition file_pattern :: "string \<Rightarrow> string" where
  "file_pattern pattern =
     (let parts = split_path_pattern pattern in if parts = [] then ''*'' else last parts)"

definition dir_prefix :: "string \<Rightarrow> string" where
  "dir_prefix pattern = dir_prefix_loop (butlast (split_path_pattern pattern)) []"

definition is_recursive :: "string \<Rightarrow> bool" where
  "is_recursive pattern = (contains_str pattern ''**'' \<or> contains_str (file_pattern pattern) ''**'')"

section \<open>The search\<close>

definition max_results :: nat where
  "max_results = 500"

definition should_exclude :: "string list \<Rightarrow> bool" where
  "should_exclude components = list_ex (\<lambda>c. is_excluded_component c exclude_patterns) components"

definition is_match :: "glob_env \<Rightarrow> string \<Rightarrow> dir_entry \<Rightarrow> bool" where
  "is_match e pat entry =
     (en_regular entry \<and>
      (case en_relative entry of None \<Rightarrow> False | Some components \<Rightarrow> \<not> should_exclude components) \<and>
      ge_fnmatch e pat (path_filename (en_path entry)))"

fun iterate :: "glob_env \<Rightarrow> string \<Rightarrow> dir_entry list \<Rightarrow> dir_entry list \<Rightarrow> dir_entry list" where
  "iterate e pat [] matches = matches"
| "iterate e pat (entry # entries) matches =
     (if length matches \<ge> max_results * 2 then matches
      else iterate e pat entries (if is_match e pat entry then matches @ [entry] else matches))"

definition start_dir :: "glob_env \<Rightarrow> string \<Rightarrow> string \<Rightarrow> string" where
  "start_dir e cwd search_path =
     (let d = (if search_path = [] then cwd else expand_home (ge_home e) search_path)
      in if is_absolute d then d else path_append cwd d)"

definition with_prefix :: "glob_env \<Rightarrow> string \<Rightarrow> string \<Rightarrow> string" where
  "with_prefix e dir pattern =
     (let new_base = path_append dir (dir_prefix pattern)
      in if dir_prefix pattern \<noteq> [] \<and> ge_is_directory e new_base then new_base else dir)"

definition glob_output :: "dir_entry list \<Rightarrow> bool \<Rightarrow> string" where
  "glob_output shown truncated =
     nat_to_string (length shown) @ '' files matched'' @
     (if truncated then '' (showing first 500)'' else []) @ '':'' @ [CHR 0x0A] @
     concat (map (\<lambda>m. en_path m @ [CHR 0x0A]) shown)"

definition newer :: "dir_entry \<Rightarrow> dir_entry \<Rightarrow> bool" where
  "newer a b = (en_mtime a > en_mtime b)"

definition glob_run :: "glob_env \<Rightarrow> string \<Rightarrow> string \<Rightarrow> string \<Rightarrow> tool_output" where
  "glob_run e cwd pattern search_path =
     (if pattern = [] then tool_err ''No pattern specified''
      else case ge_canonical_dir e (start_dir e cwd search_path) of
        None \<Rightarrow> tool_err (''Directory not found: '' @ search_path)
      | Some dir \<Rightarrow>
          (let matches = iterate e (file_pattern pattern)
                 (ge_entries e (is_recursive pattern) (with_prefix e dir pattern)) []
           in if matches = [] then tool_ok (''No files matched pattern: '' @ pattern)
              else tool_ok (glob_output (take max_results (ge_sort e matches))
                (length matches > max_results))))"

definition glob_execute ::
  "('j, 'z) jlib_scheme \<Rightarrow> (cpp_exn \<Rightarrow> string) \<Rightarrow> glob_env \<Rightarrow> string \<Rightarrow> tool_context \<Rightarrow> cpp_exn + tool_output" where
  "glob_execute J what e input_json ctx =
     caught_json what
       (bind_exn (parse_json J input_json) (\<lambda>j.
        bind_exn (str_value J j ''pattern'' []) (\<lambda>pattern.
        bind_exn (str_value J j ''path'' []) (\<lambda>search_path.
          Inr (glob_run e (tx_working_directory ctx) pattern search_path)))))"

section \<open>Which files are listed\<close>

lemma iterate_spec:
  "length matches \<le> 2 * max_results \<Longrightarrow>
   iterate e pat entries matches =
     take (2 * max_results) (matches @ filter (is_match e pat) entries)"
  by (induction entries arbitrary: matches) (auto simp: max_results_def take_Cons')

text \<open>
  C19: What a search lists. Every file listed is a regular file of the directory searched whose name
  matches the last part of the pattern and no part of whose path is excluded; there are at most
  500, the newest first. If at most 1000 files match, every match that is not listed is at least
  as old as those listed. Of more, the ones met after the first 1000 are not considered, however
  new they are.
\<close>

theorem glob_lists:
  assumes "law_sort newer (ge_sort e)" and "pattern \<noteq> []"
    and "ge_canonical_dir e (start_dir e cwd search_path) = Some dir"
    and "found = filter (is_match e (file_pattern pattern))
      (ge_entries e (is_recursive pattern) (with_prefix e dir pattern))" and "found \<noteq> []"
  shows "\<exists>shown. glob_run e cwd pattern search_path = tool_ok (glob_output shown (length found > 500)) \<and>
    set shown \<subseteq> set (take 1000 found) \<and> length shown = min 500 (length found) \<and>
    sorted_wrt (\<lambda>a b. en_mtime a \<ge> en_mtime b) shown \<and>
    (\<forall>m \<in> set (take 1000 found) - set shown. \<forall>s \<in> set shown. en_mtime m \<le> en_mtime s)"
proof -
  let ?m = "take 1000 found"
  have m: "iterate e (file_pattern pattern)
      (ge_entries e (is_recursive pattern) (with_prefix e dir pattern)) [] = ?m"
    using assms(4) by (simp add: iterate_spec max_results_def)
  have sort: "mset (ge_sort e ?m) = mset ?m" "sorted_wrt (\<lambda>a b. \<not> newer b a) (ge_sort e ?m)"
    using assms(1) by (simp_all add: law_sort_def)
  then have sorted: "sorted_wrt (\<lambda>a b. en_mtime a \<ge> en_mtime b) (ge_sort e ?m)"
    by (simp add: newer_def not_less)
  have set: "set (ge_sort e ?m) = set ?m" and len: "length (ge_sort e ?m) = length ?m"
    using sort(1) by (metis mset_eq_setD, metis mset_eq_length)
  let ?shown = "take 500 (ge_sort e ?m)"
  have "?m \<noteq> []" using assms(5) by simp
  then have "glob_run e cwd pattern search_path = tool_ok (glob_output ?shown (length ?m > 500))"
    using assms(2,3) m by (simp add: glob_run_def max_results_def Let_def)
  moreover have "(length ?m > 500) = (length found > 500)" by auto
  moreover have "set ?shown \<subseteq> set ?m" using set set_take_subset by metis
  moreover have "length ?shown = min 500 (length found)" using len by auto
  moreover have "sorted_wrt (\<lambda>a b. en_mtime a \<ge> en_mtime b) ?shown"
    using sorted by (rule sorted_wrt_take)
  moreover have "en_mtime x \<le> en_mtime s" if "x \<in> set ?m - set ?shown" "s \<in> set ?shown" for x s
  proof -
    have "x \<in> set (drop 500 (ge_sort e ?m))"
      using that(1) set by (metis DiffE Un_iff append_take_drop_id set_append)
    moreover have "sorted_wrt (\<lambda>a b. en_mtime a \<ge> en_mtime b) (?shown @ drop 500 (ge_sort e ?m))"
      using sorted by (simp only: append_take_drop_id)
    ultimately show ?thesis using that(2) unfolding sorted_wrt_append by blast
  qed
  ultimately show ?thesis by auto
qed

text \<open>
  The directories of a pattern only say where the search starts. One that does not exist is
  ignored, and the search starts above it; where the double asterisk stands makes no difference.
\<close>

lemma missing_prefix_ignored:
  "\<not> ge_is_directory e (path_append dir ''lib'') \<Longrightarrow>
   with_prefix e dir ''lib/*.c'' = dir \<and> file_pattern ''lib/*.c'' = ''*.c''"
proof -
  have "dir_prefix ''lib/*.c'' = ''lib''" "file_pattern ''lib/*.c'' = ''*.c''" by code_simp+
  then show "\<not> ge_is_directory e (path_append dir ''lib'') \<Longrightarrow> ?thesis"
    by (simp only: with_prefix_def Let_def) simp
qed

lemma double_asterisk_anywhere:
  "dir_prefix ''**/src/*.c'' = dir_prefix ''src/**/*.c'' \<and>
   file_pattern ''**/src/*.c'' = file_pattern ''src/**/*.c''"
  by code_simp

section \<open>Witness\<close>

definition sample_entry :: "string \<Rightarrow> int \<Rightarrow> dir_entry" where
  "sample_entry name t =
     \<lparr>en_path = ''/w/'' @ name, en_regular = True, en_relative = Some [name], en_mtime = t\<rparr>"

definition sample_glob :: glob_env where
  "sample_glob = \<lparr>ge_home = None, ge_canonical_dir = Some, ge_is_directory = (\<lambda>d. False),
     ge_entries = (\<lambda>r d. [sample_entry ''a'' 1, sample_entry ''b'' 2, sample_entry ''target'' 3]),
     ge_fnmatch = (\<lambda>p s. True), ge_sort = sort_key (\<lambda>m. - en_mtime m)\<rparr>"

lemma glob_lists_witness:
  "\<exists>shown. glob_run sample_glob ''/w'' ''*'' [] = tool_ok (glob_output shown False) \<and>
     set shown \<subseteq> {sample_entry ''a'' 1, sample_entry ''b'' 2} \<and> length shown = 2 \<and>
     sorted_wrt (\<lambda>a b. en_mtime a \<ge> en_mtime b) shown"
proof -
  have "sorted_wrt (\<lambda>a b. \<not> newer b a) (sort_key (\<lambda>m. - en_mtime m) xs)" for xs
  proof -
    have "sorted (map (\<lambda>m. - en_mtime m) (sort_key (\<lambda>m. - en_mtime m) xs))" by (rule sorted_sort_key)
    then show ?thesis by (simp add: sorted_wrt_map newer_def not_less)
  qed
  then have law: "law_sort newer (ge_sort sample_glob)" by (simp add: law_sort_def sample_glob_def)
  have canonical: "ge_canonical_dir sample_glob (start_dir sample_glob ''/w'' []) = Some ''/w''"
    by (simp add: sample_glob_def start_dir_def is_absolute_def)
  have found: "filter (is_match sample_glob pat) (ge_entries sample_glob r d) =
      [sample_entry ''a'' 1, sample_entry ''b'' 2]" for pat r d
    by (simp add: sample_glob_def is_match_def sample_entry_def should_exclude_def
        is_excluded_component_def exclude_patterns_def)
  from glob_lists [OF law _ canonical refl, of "''*''"] show ?thesis
    by (auto simp: found insert_commute)
qed

end
