(* ===== verification/Grep_Tool.thy ===== *)
theory Grep_Tool
  imports Process Files Tools Json_Sample
begin

text \<open>
  The Grep tool: \<open>src/tools/grep_tool.cpp\<close>. It builds a command line for the program \<open>rg\<close>, has
  bash run it and counts the lines printed. The operating system is the argument of theory
  \<open>Process\<close>. The theorems say which words the shell makes of the command line.
\<close>

record grep_request =
  gr_pattern :: string
  gr_path :: string
  gr_include :: string
  gr_exclude :: string
  gr_type :: string
  gr_max_matches :: int
  gr_context :: int
  gr_before :: int
  gr_after :: int
  gr_case_insensitive :: bool

definition read_request :: "('j, 'z) jlib_scheme \<Rightarrow> string \<Rightarrow> cpp_exn + grep_request" where
  "read_request J input_json =
     bind_exn (parse_json J input_json) (\<lambda>j.
     bind_exn (str_value J j ''pattern'' []) (\<lambda>pattern.
     bind_exn (str_value J j ''path'' []) (\<lambda>search_path.
     bind_exn (str_value J j ''include'' []) (\<lambda>incl.
     bind_exn (str_value J j ''exclude'' []) (\<lambda>exclude.
     bind_exn (str_value J j ''type'' []) (\<lambda>file_type.
     bind_exn (int_value J j ''max_matches'' 50) (\<lambda>max_matches.
     bind_exn (int_value J j ''context'' 0) (\<lambda>context.
     bind_exn (int_value J j ''before_context'' 0) (\<lambda>before_context.
     bind_exn (int_value J j ''after_context'' 0) (\<lambda>after_context.
     bind_exn (bool_value J j ''case_insensitive'' False) (\<lambda>case_insensitive.
       Inr \<lparr>gr_pattern = pattern, gr_path = search_path, gr_include = incl, gr_exclude = exclude,
            gr_type = file_type, gr_max_matches = max_matches, gr_context = context,
            gr_before = before_context, gr_after = after_context,
            gr_case_insensitive = case_insensitive\<rparr>)))))))))))"

section \<open>The command line\<close>

definition quote :: char where
  "quote = CHR 0x27"

definition base_dir :: "string \<Rightarrow> string \<Rightarrow> string" where
  "base_dir cwd search_path =
     (let d = (if search_path = [] then cwd else search_path)
      in if is_absolute d then d else path_append cwd d)"

definition effective :: "int \<Rightarrow> int \<Rightarrow> int" where
  "effective own context = (if own > 0 then own else context)"

fun escape_pattern :: "string \<Rightarrow> string" where
  "escape_pattern [] = []"
| "escape_pattern (c # cs) =
     (if c = quote then [quote, CHR 0x5C, quote, quote] else [c]) @ escape_pattern cs"

definition grep_options :: "grep_request \<Rightarrow> string" where
  "grep_options g =
     (let before = effective (gr_before g) (gr_context g); after = effective (gr_after g) (gr_context g)
      in '' -m '' @ int_to_string (gr_max_matches g) @
         (if before > 0 then '' -B '' @ int_to_string before else []) @
         (if after > 0 then '' -A '' @ int_to_string after else []) @
         (if gr_case_insensitive g then '' -i'' else []) @
         (if gr_type g \<noteq> [] then '' --type '' @ gr_type g else []) @
         (if gr_include g \<noteq> [] then '' --glob '' @ [quote] @ gr_include g @ [quote] else []) @
         (if gr_exclude g \<noteq> [] then '' --glob '' @ [quote] @ ''!{'' @ gr_exclude g @ ''}'' @ [quote] else []))"

definition grep_command :: "string \<Rightarrow> grep_request \<Rightarrow> string" where
  "grep_command cwd g =
     ''rg --no-heading --line-number --color never --no-messages'' @ grep_options g @
     '' '' @ base_dir cwd (gr_path g) @ '' -- '' @ [quote] @ escape_pattern (gr_pattern g) @ [quote]"

section \<open>A call\<close>

definition grep_match_count :: "string \<Rightarrow> nat" where
  "grep_match_count output = length (filter (\<lambda>l. trim l \<noteq> []) (split_parts [CHR 0x0A] output))"

definition grep_result :: "string \<Rightarrow> process_result \<Rightarrow> tool_output" where
  "grep_result pattern r =
     (if pr_timed_out r then tool_err ''Search timed out (try narrowing your search)''
      else if pr_exit_code r \<noteq> 0 \<and> pr_stdout r = [] then tool_ok (''No matches found for: '' @ pattern)
      else (let output = (if length (pr_stdout r) > 50000
                          then take 50000 (pr_stdout r) @ [CHR 0x0A] @ ''... (truncated)''
                          else pr_stdout r)
        in tool_ok (''Found '' @ nat_to_string (grep_match_count output) @ '' matches:'' @ [CHR 0x0A] @ output)))"

definition grep_run ::
  "(string \<Rightarrow> os) \<Rightarrow> string option \<Rightarrow> string \<Rightarrow> grep_request \<Rightarrow> tool_output option" where
  "grep_run os tmp cwd g =
     (if gr_pattern g = [] then Some (tool_err ''No pattern specified'')
      else map_option (grep_result (gr_pattern g))
        (exec_command os tmp (grep_command cwd g @ '' 2>/dev/null'')
           (default_options\<lparr>po_working_directory := cwd, po_timeout_seconds := 30,
              po_max_output_bytes := 50000\<rparr>)))"

definition grep_execute ::
  "('j, 'z) jlib_scheme \<Rightarrow> (cpp_exn \<Rightarrow> string) \<Rightarrow> (string \<Rightarrow> os) \<Rightarrow> string option \<Rightarrow>
   string \<Rightarrow> tool_context \<Rightarrow> (cpp_exn + tool_output) option" where
  "grep_execute J what os tmp input_json ctx =
     (case read_request J input_json of
        Inl x \<Rightarrow> Some (caught_json what (Inl x))
      | Inr g \<Rightarrow> map_option Inr (grep_run os tmp (tx_working_directory ctx) g))"

section \<open>What the shell is relied on for\<close>

text \<open>
  The shell is not part of the program: it is an argument, \<open>sh\<close>, that gives the simple commands of a
  line as lists of words, or \<open>None\<close>. What the code relies on is the quoting of the POSIX shell: a
  word is put together from characters that mean nothing to the shell, texts in single quotes, which
  are taken as they are and hold neither a single quote nor a NUL, and characters after a backslash.
  Blanks separate words and semicolons commands, a redirection is not a word, and a reserved word is
  not the name of a command.
\<close>

definition plain_char :: "char \<Rightarrow> bool" where
  "plain_char c = (c \<in> set ''ABCDEFGHIJKLMNOPQRSTUVWXYZabcdefghijklmnopqrstuvwxyz0123456789-_./:,+@%'')"

datatype word_part = Plain string | Quoted string | Escaped char

fun part_ok :: "word_part \<Rightarrow> bool" where
  "part_ok (Plain s) = (s \<noteq> [] \<and> list_all plain_char s)"
| "part_ok (Quoted s) = (quote \<notin> set s \<and> CHR 0x00 \<notin> set s)"
| "part_ok (Escaped c) = (c \<noteq> CHR 0x0A \<and> c \<noteq> CHR 0x00)"

fun part_text :: "word_part \<Rightarrow> string" where
  "part_text (Plain s) = s"
| "part_text (Quoted s) = quote # s @ [quote]"
| "part_text (Escaped c) = [CHR 0x5C, c]"

fun part_value :: "word_part \<Rightarrow> string" where
  "part_value (Plain s) = s"
| "part_value (Quoted s) = s"
| "part_value (Escaped c) = [c]"

type_synonym shell_word = "word_part list"

definition word_ok :: "shell_word \<Rightarrow> bool" where
  "word_ok w = (w \<noteq> [] \<and> list_all part_ok w)"

definition word_text :: "shell_word \<Rightarrow> string" where
  "word_text w = concat (map part_text w)"

definition word_value :: "shell_word \<Rightarrow> string" where
  "word_value w = concat (map part_value w)"

definition later_words :: "shell_word list \<Rightarrow> string" where
  "later_words ws = concat (map (\<lambda>w. CHR '' '' # word_text w) ws)"

fun line_text :: "shell_word list \<Rightarrow> string" where
  "line_text [] = []"
| "line_text (w # ws) = word_text w @ later_words ws"

definition later_commands :: "shell_word list list \<Rightarrow> string" where
  "later_commands cs = concat (map (\<lambda>c. CHR '';'' # line_text c) cs)"

definition reserved_words :: "string list" where
  "reserved_words = [''if'', ''then'', ''else'', ''elif'', ''fi'', ''do'', ''done'', ''case'', ''esac'',
     ''while'', ''until'', ''for'', ''in'', ''function'', ''select'', ''time'', ''coproc'']"

definition command_ok :: "shell_word list \<Rightarrow> bool" where
  "command_ok ws = (ws \<noteq> [] \<and> list_all word_ok ws \<and> word_text (hd ws) \<notin> set reserved_words)"

definition law_shell :: "(string \<Rightarrow> string list list option) \<Rightarrow> bool" where
  "law_shell sh = (\<forall>c cs. command_ok c \<and> list_all command_ok cs \<longrightarrow>
     sh (line_text c @ later_commands cs @ '' 2>/dev/null'') = Some (map (map word_value) (c # cs)))"

section \<open>The words of the command line\<close>

definition lit :: "string \<Rightarrow> shell_word" where
  "lit s = [Plain s]"

fun quoted_parts :: "string \<Rightarrow> string \<Rightarrow> shell_word" where
  "quoted_parts a [] = [Quoted a]"
| "quoted_parts a (c # cs) =
     (if c = quote then Quoted a # Escaped quote # quoted_parts [] cs else quoted_parts (a @ [c]) cs)"

definition quoted :: "string \<Rightarrow> shell_word" where
  "quoted s = quoted_parts [] s"

definition plain_word :: "string \<Rightarrow> bool" where
  "plain_word s = (s \<noteq> [] \<and> list_all plain_char s)"

lemma lit_word [simp]: "word_text (lit s) = s" "word_value (lit s) = s" "word_ok (lit s) = plain_word s"
  by (simp_all add: word_text_def word_value_def word_ok_def lit_def plain_word_def)

lemma quoted_parts_word:
  "word_text (quoted_parts a p) = quote # a @ escape_pattern p @ [quote]"
  "word_value (quoted_parts a p) = a @ p"
  by (induction a p rule: quoted_parts.induct) (auto simp: word_text_def word_value_def)

lemma quoted_word:
  "word_text (quoted p) = quote # escape_pattern p @ [quote]" "word_value (quoted p) = p"
  by (simp_all add: quoted_def quoted_parts_word)

lemma quoted_parts_ok:
  "quote \<notin> set a \<Longrightarrow> CHR 0x00 \<notin> set a \<Longrightarrow> CHR 0x00 \<notin> set p \<Longrightarrow> word_ok (quoted_parts a p)"
  by (induction a p rule: quoted_parts.induct) (auto simp: word_ok_def quote_def)

lemma quoted_ok: "CHR 0x00 \<notin> set p \<Longrightarrow> word_ok (quoted p)"
  by (simp add: quoted_def quoted_parts_ok)

lemma escape_unquoted: "quote \<notin> set p \<Longrightarrow> escape_pattern p = p"
  by (induction p) auto

lemma later_words_append [simp]:
  "later_words [] = []" "later_words (ws @ vs) = later_words ws @ later_words vs"
  "later_words (w # ws) = CHR '' '' # word_text w @ later_words ws"
  by (simp_all add: later_words_def)

lemma line_text_append: "ws \<noteq> [] \<Longrightarrow> line_text (ws @ vs) = line_text ws @ later_words vs"
  by (cases ws) simp_all

lemma later_words_line: "ws \<noteq> [] \<Longrightarrow> later_words ws = CHR '' '' # line_text ws"
  by (cases ws) simp_all

lemma quoted_plain: "quote \<notin> set p \<Longrightarrow> word_text (quoted p) = quote # p @ [quote]"
  by (simp add: quoted_word escape_unquoted)

text \<open>The options, \<open>types\<close> being the words that the file type contains.\<close>

definition option_words :: "string list \<Rightarrow> grep_request \<Rightarrow> shell_word list" where
  "option_words types g =
     (let before = effective (gr_before g) (gr_context g); after = effective (gr_after g) (gr_context g)
      in [lit ''-m'', lit (int_to_string (gr_max_matches g))] @
         (if before > 0 then [lit ''-B'', lit (int_to_string before)] else []) @
         (if after > 0 then [lit ''-A'', lit (int_to_string after)] else []) @
         (if gr_case_insensitive g then [lit ''-i''] else []) @
         (if gr_type g \<noteq> [] then lit ''--type'' # map lit types else []) @
         (if gr_include g \<noteq> [] then [lit ''--glob'', quoted (gr_include g)] else []) @
         (if gr_exclude g \<noteq> [] then [lit ''--glob'', quoted (''!{'' @ gr_exclude g @ ''}'')] else []))"

definition first_words :: "shell_word list" where
  "first_words = map lit [''rg'', ''--no-heading'', ''--line-number'', ''--color'', ''never'', ''--no-messages'']"

text \<open>The type and the directory are words separated by blanks; the globs have no quote; nothing a NUL.\<close>

definition readable_request :: "string list \<Rightarrow> string list \<Rightarrow> string \<Rightarrow> grep_request \<Rightarrow> bool" where
  "readable_request types dirs dir g =
     (gr_type g = line_text (map lit types) \<and> list_all plain_word types \<and>
      dir = line_text (map lit dirs) \<and> dirs \<noteq> [] \<and> list_all plain_word dirs \<and>
      quote \<notin> set (gr_include g) \<and> CHR 0x00 \<notin> set (gr_include g) \<and>
      quote \<notin> set (gr_exclude g) \<and> CHR 0x00 \<notin> set (gr_exclude g) \<and> CHR 0x00 \<notin> set (gr_pattern g))"

lemma options_text:
  assumes "readable_request types dirs dir g"
  shows "grep_options g = later_words (option_words types g)"
proof -
  have "gr_type g \<noteq> [] \<Longrightarrow> later_words (map lit types) = CHR '' '' # gr_type g"
    using assms later_words_line [of "map lit types"] by (cases types) (simp_all add: readable_request_def)
  moreover have "word_text (quoted (gr_include g)) = quote # gr_include g @ [quote]"
    "word_text (quoted (''!{'' @ gr_exclude g @ ''}'')) = quote # (''!{'' @ gr_exclude g @ ''}'') @ [quote]"
    using assms by (intro quoted_plain; simp add: readable_request_def quote_def)+
  ultimately show ?thesis
    by (simp add: grep_options_def option_words_def Let_def)
qed

lemma plain_number: "plain_word (int_to_string i)"
proof -
  have "list_all (\<lambda>d. plain_char (digit d)) [0..<10]" by code_simp
  then have "d < 10 \<Longrightarrow> plain_char (digit d)" for d by (simp add: list_all_iff)
  then have digits: "list_all plain_char (nat_to_string n)" for n
    by (induction n rule: nat_to_string.induct) (subst nat_to_string.simps, simp add: list_all_iff)
  have "plain_char (CHR ''-'')" by code_simp
  with digits show ?thesis by (simp add: plain_word_def int_to_string_def)
qed

lemma plain_literals:
  "list_all plain_word [''rg'', ''--no-heading'', ''--line-number'', ''--color'', ''never'', ''--no-messages'',
     ''-m'', ''-B'', ''-A'', ''-i'', ''--type'', ''--glob'', ''--'']"
  by code_simp

lemma words_ok:
  assumes "readable_request types dirs dir g"
  shows "list_all word_ok (first_words @ option_words types g @ map lit dirs @
    [lit ''--'', quoted (gr_pattern g)])"
proof -
  have "word_ok (quoted (gr_include g))" "word_ok (quoted (''!{'' @ gr_exclude g @ ''}''))"
    "word_ok (quoted (gr_pattern g))"
    using assms by (intro quoted_ok; simp add: readable_request_def)+
  moreover have "list_all word_ok (map lit types)" "list_all word_ok (map lit dirs)"
    using assms by (simp_all add: readable_request_def list_all_iff)
  ultimately show ?thesis
    using plain_literals plain_number by (simp add: first_words_def option_words_def Let_def)
qed

lemma command_text:
  assumes "readable_request types dirs (base_dir cwd (gr_path g)) g"
  shows "grep_command cwd g = line_text (first_words @ option_words types g @ map lit dirs @
    [lit ''--'', quoted (gr_pattern g)])"
proof -
  have "later_words (map lit dirs) = CHR '' '' # base_dir cwd (gr_path g)"
    using assms later_words_line [of "map lit dirs"] by (simp add: readable_request_def)
  then show ?thesis
    by (simp add: first_words_def grep_command_def options_text [OF assms] quoted_word)
qed

lemma shell_command:
  assumes "law_shell sh" and "list_all word_ok ws" and "word_text (hd ws) \<notin> set reserved_words" and "ws \<noteq> []"
  shows "sh (line_text ws @ '' 2>/dev/null'') = Some [map word_value ws]"
proof -
  have "command_ok ws" using assms(2-4) by (simp add: command_ok_def)
  then have "sh (line_text ws @ later_commands [] @ '' 2>/dev/null'') = Some (map (map word_value) [ws])"
    using assms(1) unfolding law_shell_def by (metis list.pred_inject(1))
  then show ?thesis by (simp add: later_commands_def)
qed


text \<open>
  A directory with a semicolon ends the command: what follows is a command of its own, which is run
  with two hyphens and the pattern as its arguments. (The file type is not quoted either.)
\<close>

theorem grep_runs_path:
  assumes "law_shell sh" and "readable_request types [d] d g"
    and "plain_word e" and "e \<notin> set reserved_words" and "base_dir cwd (gr_path g) = d @ CHR '';'' # e"
  shows "sh (grep_command cwd g @ '' 2>/dev/null'') =
    Some [[''rg'', ''--no-heading'', ''--line-number'', ''--color'', ''never'', ''--no-messages''] @
      map word_value (option_words types g) @ [d], [e, ''--'', gr_pattern g]]"
proof -
  let ?c = "first_words @ option_words types g @ [lit d]" and ?e = "[lit e, lit ''--'', quoted (gr_pattern g)]"
  have "command_ok ?c" "command_ok ?e"
    using words_ok [OF assms(2)] assms(3,4) by (simp_all add: command_ok_def first_words_def reserved_words_def)
  then have "sh (line_text ?c @ later_commands [?e] @ '' 2>/dev/null'') = Some (map (map word_value) [?c, ?e])"
    using assms(1) unfolding law_shell_def by (metis list.pred_inject)
  moreover have "grep_command cwd g = line_text ?c @ later_commands [?e]"
    by (simp add: grep_command_def assms(5) first_words_def options_text [OF assms(2)] quoted_word later_commands_def)
  ultimately show ?thesis by (simp add: first_words_def quoted_word comp_def)
qed

section \<open>A shell\<close>

text \<open>A reader of command lines that keeps the law: one pass, inside or outside of single quotes.\<close>

definition add_char :: "string option \<Rightarrow> char \<Rightarrow> string option" where
  "add_char cur c = Some ((case cur of None \<Rightarrow> [] | Some w \<Rightarrow> w) @ [c])"

definition opt_word :: "string option \<Rightarrow> string list" where
  "opt_word cur = (case cur of None \<Rightarrow> [] | Some w \<Rightarrow> [w])"

fun scan :: "bool \<Rightarrow> string option \<Rightarrow> string list \<Rightarrow> string \<Rightarrow> string list list option" where
  "scan True cur ws [] = None"
| "scan False cur ws [] = Some [ws @ opt_word cur]"
| "scan True cur ws (c # cs) = (if c = quote then scan False cur ws cs else scan True (add_char cur c) ws cs)"
| "scan False cur ws (c # cs) =
     (if c = CHR '' '' then scan False None (ws @ opt_word cur) cs
      else if c = CHR '';'' then map_option ((#) (ws @ opt_word cur)) (scan False None [] cs)
      else if c = quote then scan True (Some (case cur of None \<Rightarrow> [] | Some w \<Rightarrow> w)) ws cs
      else if c = CHR 0x5C then (case cs of [] \<Rightarrow> None | d # ds \<Rightarrow> scan False (add_char cur d) ws ds)
      else if plain_char c then scan False (add_char cur c) ws cs else None)"

definition sample_shell :: "string \<Rightarrow> string list list option" where
  "sample_shell s = scan False None [] (take (length s - 12) s)"

lemma plain_not_special:
  "plain_char c \<Longrightarrow> c \<noteq> CHR '' '' \<and> c \<noteq> CHR '';'' \<and> c \<noteq> quote \<and> c \<noteq> CHR 0x5C"
  by (auto simp: plain_char_def quote_def)

definition so_far :: "string option \<Rightarrow> string" where
  "so_far cur = (case cur of None \<Rightarrow> [] | Some w \<Rightarrow> w)"

lemma scan_quoted:
  "quote \<notin> set s \<Longrightarrow> scan True (Some w) ws (s @ quote # rest) = scan False (Some (w @ s)) ws rest"
  by (induction s arbitrary: w) (auto simp: add_char_def)

lemma scan_plain:
  "list_all plain_char s \<Longrightarrow> scan False (Some w) ws (s @ rest) = scan False (Some (w @ s)) ws rest"
  by (induction s arbitrary: w) (simp_all add: add_char_def plain_not_special)

lemma scan_part:
  assumes "part_ok x"
  shows "scan False cur ws (part_text x @ rest) = scan False (Some (so_far cur @ part_value x)) ws rest"
proof (cases x)
  case (Plain s)
  with assms obtain c r where "s = c # r" "plain_char c" "list_all plain_char r" by (cases s) auto
  with Plain show ?thesis by (simp add: plain_not_special add_char_def so_far_def scan_plain)
next
  case (Quoted s)
  with assms scan_quoted [of s "so_far cur" ws rest] show ?thesis
    by (simp add: so_far_def) (simp add: quote_def)
next
  case (Escaped c)
  then show ?thesis by (simp add: add_char_def so_far_def quote_def)
qed

lemma scan_parts:
  "list_all part_ok xs \<Longrightarrow> scan False (Some w) ws (concat (map part_text xs) @ rest) =
     scan False (Some (w @ concat (map part_value xs))) ws rest"
  by (induction xs arbitrary: w) (simp_all add: scan_part so_far_def)

lemma scan_word:
  "word_ok x \<Longrightarrow> scan False None ws (word_text x @ rest) = scan False (Some (word_value x)) ws rest"
  by (cases x) (simp_all add: word_ok_def word_text_def word_value_def scan_part scan_parts so_far_def)

lemma scan_later_words:
  "list_all word_ok xs \<Longrightarrow> scan False (Some w) ws (later_words xs @ rest) =
     scan False (Some (last (w # map word_value xs))) (ws @ butlast (w # map word_value xs)) rest"
  by (induction xs arbitrary: w ws) (simp_all add: scan_word opt_word_def)

lemma scan_line:
  assumes "command_ok c"
  shows "\<exists>w. scan False None [] (line_text c @ rest) = scan False (Some w) (butlast (map word_value c)) rest \<and>
    butlast (map word_value c) @ [w] = map word_value c"
proof -
  obtain x xs where "c = x # xs" using assms by (cases c) (auto simp: command_ok_def)
  with assms show ?thesis
    by (intro exI [of _ "last (map word_value c)"]) (simp add: command_ok_def scan_word scan_later_words)
qed

lemma scan_commands:
  "command_ok c \<Longrightarrow> list_all command_ok cs \<Longrightarrow>
   scan False None [] (line_text c @ later_commands cs) = Some (map (map word_value) (c # cs))"
proof (induction cs arbitrary: c)
  case Nil
  then show ?case using scan_line [of c "[]"] by (auto simp: later_commands_def opt_word_def)
next
  case (Cons d cs)
  then show ?case
    using scan_line [of c "CHR '';'' # line_text d @ later_commands cs"]
    by (auto simp: later_commands_def opt_word_def)
qed

lemma sample_shell_law: "law_shell sample_shell"
  by (simp add: law_shell_def sample_shell_def append_assoc [symmetric] scan_commands del: append_assoc)

definition sample_grep :: "string \<Rightarrow> grep_request" where
  "sample_grep dir = \<lparr>gr_pattern = ''it'' @ [quote] @ ''s $x'', gr_path = dir, gr_include = ''*.c'',
     gr_exclude = [], gr_type = [], gr_max_matches = 5, gr_context = 0, gr_before = 0, gr_after = 0,
     gr_case_insensitive = False\<rparr>"

lemma sample_grep_readable:
  "list_all plain_word dirs \<Longrightarrow> dirs \<noteq> [] \<Longrightarrow> readable_request [] dirs (line_text (map lit dirs)) (sample_grep d)"
  by (simp add: readable_request_def sample_grep_def quote_def)

lemma sample_grep_options:
  "map word_value (option_words [] (sample_grep d)) = [''-m'', ''5'', ''--glob'', ''*.c'']"
proof -
  have "int_to_string 5 = ''5''" by code_simp
  then show ?thesis by (simp add: option_words_def sample_grep_def effective_def quoted_word)
qed


lemma grep_runs_path_witness:
  "sample_shell (grep_command ''/w'' (sample_grep ''/x;reboot'') @ '' 2>/dev/null'') =
    Some [[''rg'', ''--no-heading'', ''--line-number'', ''--color'', ''never'', ''--no-messages'',
      ''-m'', ''5'', ''--glob'', ''*.c'', ''/x''], [''reboot'', ''--'', ''it'' @ [quote] @ ''s $x'']]"
proof -
  have plain: "list_all plain_word [''/x'']" "plain_word ''reboot''" "''reboot'' \<notin> set reserved_words" by code_simp+
  have "readable_request [] [''/x''] ''/x'' (sample_grep ''/x;reboot'')"
    using sample_grep_readable [OF plain(1), of "''/x;reboot''"] by simp
  from grep_runs_path [OF sample_shell_law this plain(2,3), of "''/w''"] show ?thesis
    by (simp add: sample_grep_options) (simp add: sample_grep_def base_dir_def is_absolute_def)
qed

text \<open>A glob with a single quote ends its quotation: here it brings an option of its own.\<close>

lemma grep_glob_splits:
  "sample_shell (grep_command ''/w'' ((sample_grep ''/w'')\<lparr>gr_pattern := ''p'',
      gr_include := ''x'' @ [quote] @ '' --no-ignore '' @ [quote] @ ''y''\<rparr>) @ '' 2>/dev/null'') =
    Some [[''rg'', ''--no-heading'', ''--line-number'', ''--color'', ''never'', ''--no-messages'',
      ''-m'', ''5'', ''--glob'', ''x'', ''--no-ignore'', ''y'', ''/w'', ''--'', ''p'']]"
  by code_simp

end
