(* ===== verification/Web_Fetch.thy ===== *)
theory Web_Fetch
  imports Tools String_Utils Json_Sample
begin

text \<open>
  The WebFetch tool: \<open>src/tools/web_fetch_tool.cpp\<close>. Arguments: what libcurl does with the
  request, and the group matched by the title's regular expression, which adds a question mark to
  a repetition and so is left undefined by the POSIX grammar it is compiled for. The theorems are
  about the conversion of a page to text.
\<close>

section \<open>Fetching\<close>

text \<open>One transfer: its result code, the HTTP status, and the pieces given to the callback.\<close>

record transfer =
  tr_handle :: bool
  tr_ok :: bool
  tr_status :: int
  tr_chunks :: "string list"

definition write_cb :: "string \<Rightarrow> string \<Rightarrow> string" where
  "write_cb body chunk = body @ chunk"

definition fetch_url :: "transfer \<Rightarrow> string option" where
  "fetch_url t =
     (if \<not> tr_handle t \<or> \<not> tr_ok t \<or> tr_status t \<noteq> 200 then None
      else Some (foldl write_cb [] (tr_chunks t)))"

definition extract_title :: "(string \<Rightarrow> string option) \<Rightarrow> string \<Rightarrow> string" where
  "extract_title title_search html = (case title_search html of Some m \<Rightarrow> trim m | None \<Rightarrow> [])"

section \<open>A page as text\<close>

record html_state =
  hs_text :: string
  hs_in_tag :: bool
  hs_in_script :: bool
  hs_in_style :: bool

definition is_alpha :: "char \<Rightarrow> bool" where
  "is_alpha c = (let n = (of_char c :: nat) in (65 \<le> n \<and> n \<le> 90) \<or> (97 \<le> n \<and> n \<le> 122))"

definition block_tags :: "string list" where
  "block_tags = [''p'', ''br'', ''div'', ''h1'', ''h2'', ''h3'', ''h4'', ''h5'', ''h6'', ''li'',
     ''tr'', ''hr'', ''blockquote'', ''pre'', ''/p'', ''/div'', ''/h1'', ''/h2'', ''/h3'', ''/h4'',
     ''/h5'', ''/h6'', ''/li'', ''/tr'', ''/blockquote'', ''/pre'']"

text \<open>The result of \<open>util::to_lower(tag)\<close> is not used; the tag's name ends before a digit.\<close>

definition tag_name :: "string \<Rightarrow> string" where
  "tag_name rest = takeWhile (\<lambda>c. is_alpha c \<or> c = CHR ''/'') rest"

definition open_tag :: "string \<Rightarrow> html_state \<Rightarrow> html_state" where
  "open_tag tag st =
     \<lparr>hs_text =
        (if tag \<in> set block_tags \<and> hs_text st \<noteq> [] \<and> last (hs_text st) \<noteq> CHR 0x0A
         then hs_text st @ [CHR 0x0A] else hs_text st),
      hs_in_tag = True,
      hs_in_script = (if tag = ''script'' then True else if tag = ''/script'' then False
        else hs_in_script st),
      hs_in_style = (if tag = ''style'' then True else if tag = ''/style'' then False
        else hs_in_style st)\<rparr>"

text \<open>The entity after an ampersand, if a semicolon ends it in time, and the text behind it.\<close>

definition entity_at :: "string \<Rightarrow> (string \<times> string) option" where
  "entity_at rest =
     (let entity = takeWhile (\<lambda>c. c \<noteq> CHR '';'') (take 9 rest); behind = drop (length entity) rest
      in if behind \<noteq> [] \<and> hd behind = CHR '';'' then Some (entity, tl behind) else None)"

definition decode_entity :: "string \<Rightarrow> char" where
  "decode_entity entity =
     (if entity = ''amp'' then CHR ''&'' else if entity = ''lt'' then CHR ''<''
      else if entity = ''gt'' then CHR ''>'' else if entity = ''quot'' then CHR 0x22
      else if entity = ''nbsp'' then CHR '' '' else if entity = ''apos'' then CHR 0x27
      else CHR '' '')"

definition add_char :: "char \<Rightarrow> string \<Rightarrow> string" where
  "add_char c t =
     (if is_space c
      then (if t \<noteq> [] \<and> last t \<noteq> CHR '' '' \<and> last t \<noteq> CHR 0x0A then t @ '' '' else t)
      else t @ [c])"

lemma entity_at_shorter: "entity_at rest = Some (entity, behind) \<Longrightarrow> length behind < length rest"
  by (auto simp: entity_at_def Let_def split: if_splits)

function html_loop :: "string \<Rightarrow> html_state \<Rightarrow> html_state" where
  "html_loop [] st = st"
| "html_loop (c # cs) st =
     (if c = CHR ''<'' then html_loop cs (open_tag (tag_name cs) st)
      else if c = CHR ''>'' then html_loop cs (st\<lparr>hs_in_tag := False\<rparr>)
      else if hs_in_tag st \<or> hs_in_script st \<or> hs_in_style st then html_loop cs st
      else (case (if c = CHR ''&'' then entity_at cs else None) of
              Some (entity, behind) \<Rightarrow>
                html_loop behind (st\<lparr>hs_text := hs_text st @ [decode_entity entity]\<rparr>)
            | None \<Rightarrow> html_loop cs (st\<lparr>hs_text := add_char c (hs_text st)\<rparr>)))"
  by pat_completeness auto
termination
  by (relation "measure (\<lambda>(s, st). length s)")
    (auto split: if_splits dest: entity_at_shorter)

fun collapse :: "string \<Rightarrow> bool \<Rightarrow> bool \<Rightarrow> string" where
  "collapse [] prev_space prev_newline = []"
| "collapse (c # cs) prev_space prev_newline =
     (if c = CHR 0x0A then (if prev_newline then [] else [c]) @ collapse cs False True
      else if c = CHR '' ''
      then (if prev_space \<or> prev_newline then [] else [c]) @ collapse cs True False
      else c # collapse cs False False)"

definition html_start :: html_state where
  "html_start = \<lparr>hs_text = [], hs_in_tag = False, hs_in_script = False, hs_in_style = False\<rparr>"

definition html_to_text :: "string \<Rightarrow> string" where
  "html_to_text html = trim (collapse (hs_text (html_loop html html_start)) False False)"

section \<open>A call\<close>

record fetch_env =
  fe_transfer :: "string \<Rightarrow> transfer"
  fe_title :: "string \<Rightarrow> string option"

definition fetch_output :: "fetch_env \<Rightarrow> string \<Rightarrow> nat \<Rightarrow> string \<Rightarrow> tool_output" where
  "fetch_output e url max_chars html =
     (let title = extract_title (fe_title e) html; text1 = html_to_text html
      in if text1 = [] then tool_ok (''Fetched '' @ url @ '' but extracted no readable content.'')
         else tool_ok (''# '' @ (if title = [] then url else title) @ [CHR 0x0A] @
           ''Source: '' @ url @ [CHR 0x0A, CHR 0x0A] @
           (if length text1 > max_chars
            then take max_chars text1 @ [CHR 0x0A, CHR 0x0A] @ ''[Content truncated at '' @
              nat_to_string max_chars @ '' characters]''
            else text1)))"

text \<open>\<open>max_chars\<close> is read as an \<open>int\<close> and converted to \<open>size_t\<close>.\<close>

definition fetch_run :: "fetch_env \<Rightarrow> string \<Rightarrow> int \<Rightarrow> tool_output" where
  "fetch_run e url max_chars =
     (if url = [] then tool_err ''No URL specified''
      else if \<not> starts_with url ''http://'' \<and> \<not> starts_with url ''https://''
      then tool_err ''URL must start with http:// or https://''
      else case fetch_url (fe_transfer e url) of
        None \<Rightarrow> tool_err (''Failed to fetch URL: '' @ url @ '' (timeout, DNS error, or non-200 response)'')
      | Some html \<Rightarrow> fetch_output e url (nat (max_chars mod 2 ^ 64)) html)"

definition fetch_execute ::
  "('j, 'z) jlib_scheme \<Rightarrow> (cpp_exn \<Rightarrow> string) \<Rightarrow> fetch_env \<Rightarrow> string \<Rightarrow> cpp_exn + tool_output" where
  "fetch_execute J what e input_json =
     caught_json what
       (bind_exn (parse_json J input_json) (\<lambda>j.
        bind_exn (str_value J j ''url'' []) (\<lambda>url.
        bind_exn (int_value J j ''max_chars'' 50000) (\<lambda>max_chars.
          Inr (fetch_run e url max_chars)))))"

section \<open>Text without markup\<close>

definition no_markup :: "string \<Rightarrow> bool" where
  "no_markup s = (CHR ''<'' \<notin> set s \<and> CHR ''>'' \<notin> set s \<and> CHR ''&'' \<notin> set s)"

lemma html_loop_plain:
  assumes "no_markup s" and "\<not> hs_in_tag st" "\<not> hs_in_script st" "\<not> hs_in_style st"
  shows "html_loop s st = st\<lparr>hs_text := foldl (\<lambda>t c. add_char c t) (hs_text st) s\<rparr>"
  using assms
proof (induction s arbitrary: st)
  case (Cons c cs)
  then have "html_loop (c # cs) st = html_loop cs (st\<lparr>hs_text := add_char c (hs_text st)\<rparr>)"
    by (auto simp: no_markup_def)
  with Cons show ?case by (simp add: no_markup_def)
qed simp

definition spaced :: "string list \<Rightarrow> string \<Rightarrow> string" where
  "spaced ws w = concat (map (\<lambda>x. x @ '' '') ws) @ w"

lemma not_space: "\<not> is_space c \<Longrightarrow> c \<noteq> CHR '' '' \<and> c \<noteq> CHR 0x0A \<and> \<not> is_trim_ws c"
  by (auto simp: is_space_def is_trim_ws_def)

lemma last_spaced:
  "spaced ws w \<noteq> [] \<longleftrightarrow> ws \<noteq> [] \<or> w \<noteq> []"
  "w \<noteq> [] \<Longrightarrow> last (spaced ws w) = last w"
  "ws \<noteq> [] \<Longrightarrow> last (spaced ws []) = CHR '' ''"
  by (cases ws rule: rev_cases; simp add: spaced_def)+

lemma add_spaced:
  assumes "\<forall>c \<in> set w. \<not> is_space c"
  shows "add_char c (spaced ws w) =
    (if is_space c then (if w = [] then spaced ws w else spaced (ws @ [w]) []) else spaced ws (w @ [c]))"
proof (cases "w = []")
  case True
  then show ?thesis
    by (cases "ws = []") (simp_all add: add_char_def last_spaced, simp_all add: spaced_def)
next
  case False
  then have "last w \<noteq> CHR '' ''" "last w \<noteq> CHR 0x0A" using assms not_space by (metis last_in_set)+
  with False show ?thesis by (simp add: add_char_def last_spaced) (simp add: spaced_def)
qed

lemma loop_words:
  "list_all word ws \<Longrightarrow> \<forall>c \<in> set w. \<not> is_space c \<Longrightarrow>
   \<exists>vs v. foldl (\<lambda>t c. add_char c t) (spaced ws w) s = spaced vs v \<and> list_all word vs \<and>
     (\<forall>c \<in> set v. \<not> is_space c) \<and> ws @ words_from w s = vs @ (if v = [] then [] else [v])"
proof (induction s arbitrary: ws w)
  case Nil
  then show ?case by auto
next
  case (Cons c cs)
  consider (letter) "\<not> is_space c" | (space) "is_space c" "w = []" | (ends) "is_space c" "w \<noteq> []"
    by blast
  then show ?case
  proof cases
    case letter
    with Cons.prems show ?thesis
      using Cons.IH [of ws "w @ [c]"] by (simp add: add_spaced)
  next
    case space
    with Cons.prems show ?thesis using Cons.IH [of ws "[]"] by (simp add: add_spaced)
  next
    case ends
    with Cons.prems show ?thesis
      using Cons.IH [of "ws @ [w]" "[]"] by (simp add: add_spaced word_def)
  qed
qed

lemma collapse_word:
  "word w \<Longrightarrow> collapse (w @ rest) p n = w @ collapse rest False False"
proof (induction w arbitrary: p n)
  case (Cons c w)
  then have "collapse ((c # w) @ rest) p n = c # collapse (w @ rest) False False"
    using not_space [of c] by (simp add: word_def)
  moreover have "collapse (w @ rest) False False = w @ collapse rest False False"
    using Cons by (cases "w = []") (simp_all add: word_def)
  ultimately show ?case by simp
qed (simp add: word_def)

lemma collapse_spaced:
  "list_all word ws \<Longrightarrow> \<forall>c \<in> set v. \<not> is_space c \<Longrightarrow> collapse (spaced ws v) p n = spaced ws v"
proof (induction ws arbitrary: p n)
  case Nil
  then show ?case
    using collapse_word [of v "[]"] by (cases "v = []") (simp_all add: spaced_def word_def)
next
  case (Cons w ws)
  have "spaced (w # ws) v = w @ '' '' @ spaced ws v" by (simp add: spaced_def)
  with Cons collapse_word [of w "'' '' @ spaced ws v"] show ?case by simp
qed

lemma trim_words:
  assumes "list_all word ws" and "ws \<noteq> []"
  shows "trim (join ws '' '' @ replicate n (CHR '' '')) = join ws '' ''"
proof -
  have ends: "join ws '' '' \<noteq> [] \<and> \<not> is_trim_ws (hd (join ws '' '')) \<and> \<not> is_trim_ws (last (join ws '' ''))"
    using assms
  proof (induction ws rule: induct_list012)
    case (2 p)
    then show ?case using not_space by (auto simp: word_def)
  next
    case (3 p q ps)
    then show ?case using not_space [of "hd p"] by (auto simp: word_def)
  qed simp
  then have "ltrim (join ws '' '' @ replicate n (CHR '' '')) = join ws '' '' @ replicate n (CHR '' '')"
    unfolding ltrim_dropWhile by (cases "join ws '' ''") simp_all
  moreover have "dropWhile is_trim_ws (replicate n (CHR '' '') @ rev (join ws '' '')) = rev (join ws '' '')"
  proof -
    have "rev (join ws '' '') \<noteq> []" "\<not> is_trim_ws (hd (rev (join ws '' '')))"
      using ends by (simp_all add: hd_rev)
    then have "dropWhile is_trim_ws (rev (join ws '' '')) = rev (join ws '' '')"
      by (metis dropWhile.simps(2) list.collapse)
    then show ?thesis by (induction n) (simp_all add: is_trim_ws_def)
  qed
  ultimately show ?thesis by (simp add: trim_eq rtrim_dropWhile)
qed

lemma spaced_join:
  "ws \<noteq> [] \<Longrightarrow> spaced ws [] = join ws '' '' @ replicate 1 (CHR '' '')"
  "v \<noteq> [] \<Longrightarrow> spaced ws v = join (ws @ [v]) '' '' @ replicate 0 (CHR '' '')"
  by (induction ws rule: induct_list012) (simp_all add: spaced_def)

lemma plain_text_join:
  assumes "no_markup s"
  shows "html_to_text s = join (words_of s) '' ''"
proof -
  have "html_loop s html_start = html_start\<lparr>hs_text := foldl (\<lambda>t c. add_char c t) (spaced [] []) s\<rparr>"
    using html_loop_plain [OF assms, of html_start] by (simp add: html_start_def spaced_def)
  moreover obtain vs v where v: "foldl (\<lambda>t c. add_char c t) (spaced [] []) s = spaced vs v"
    "list_all word vs" "\<forall>c \<in> set v. \<not> is_space c" "words_of s = vs @ (if v = [] then [] else [v])"
    using loop_words [of "[]" "[]" s] by (auto simp: words_of_def)
  ultimately have page: "html_to_text s = trim (spaced vs v)"
    by (simp add: html_to_text_def collapse_spaced)
  show ?thesis
  proof (cases "v = []")
    case True
    show ?thesis
    proof (cases "vs = []")
      case True
      with \<open>v = []\<close> page v(4) show ?thesis by (simp add: spaced_def trim_def)
    next
      case False
      with True page v show ?thesis using trim_words [OF v(2) False, of 1] spaced_join(1) [OF False] by simp
    qed
  next
    case False
    have "list_all word (vs @ [v])" using v(2,3) False by (simp add: word_def)
    from trim_words [OF this, of 0] show ?thesis
      using page v(4) False spaced_join(2) [OF False] by simp
  qed
qed

text \<open>
  A text without markup is returned as its words with one blank between them.
\<close>

theorem plain_text_words:
  assumes "no_markup s"
  shows "html_to_text s = join (words_of s) '' ''"
  using assms by (rule plain_text_join)

lemma plain_text_words_witness:
  "html_to_text ([CHR 0x0A] @ ''one  two '' @ [CHR 0x09] @ ''three '') = ''one two three''"
proof -
  have "no_markup ([CHR 0x0A] @ ''one  two '' @ [CHR 0x09] @ ''three '')" by (simp add: no_markup_def)
  from plain_text_words [OF this] show ?thesis by (simp add: words_of_def is_space_def)
qed

section \<open>Scripts\<close>

lemma html_loop_script:
  "CHR ''<'' \<notin> set s \<Longrightarrow> hs_in_script st \<Longrightarrow>
   \<exists>b. html_loop (s @ rest) st = html_loop rest (st\<lparr>hs_in_tag := b\<rparr>) \<and> (\<not> hs_in_tag st \<longrightarrow> \<not> b)"
proof (induction s arbitrary: st)
  case Nil
  then show ?case by (auto intro!: exI [of _ "hs_in_tag st"])
next
  case (Cons c s)
  then have step: "html_loop ((c # s) @ rest) st =
      html_loop (s @ rest) (if c = CHR ''>'' then st\<lparr>hs_in_tag := False\<rparr> else st)"
    by auto
  from Cons.prems have "CHR ''<'' \<notin> set s" "hs_in_script (if c = CHR ''>'' then st\<lparr>hs_in_tag := False\<rparr> else st)"
    by auto
  from Cons.IH [OF this] step show ?case by (cases "c = CHR ''>''") auto
qed

lemma html_loop_tag:
  "html_loop (CHR ''<'' # cs) st = html_loop cs (open_tag (tag_name cs) st)"
  "hs_in_tag st \<Longrightarrow> c \<noteq> CHR ''<'' \<Longrightarrow> c \<noteq> CHR ''>'' \<Longrightarrow> html_loop (c # cs) st = html_loop cs st"
  "html_loop (CHR ''>'' # cs) st = html_loop cs (st\<lparr>hs_in_tag := False\<rparr>)"
  by simp_all

lemma script_tags:
  "tag_name (''script>'' @ r) = ''script''" "tag_name (''/script>'' @ r) = ''/script''"
  "tag_name (''SCRIPT>'' @ r) = ''SCRIPT''" "tag_name (''/SCRIPT>'' @ r) = ''/SCRIPT''"
  by (simp_all add: tag_name_def is_alpha_def)

definition in_script :: "string \<Rightarrow> html_state" where
  "in_script t = \<lparr>hs_text = t, hs_in_tag = False, hs_in_script = True, hs_in_style = False\<rparr>"

definition outside :: "string \<Rightarrow> html_state" where
  "outside t = \<lparr>hs_text = t, hs_in_tag = False, hs_in_script = False, hs_in_style = False\<rparr>"

lemma open_script:
  "open_tag ''script'' (outside t) = (in_script t)\<lparr>hs_in_tag := True\<rparr>"
  "open_tag ''/script'' (in_script t) = (outside t)\<lparr>hs_in_tag := True\<rparr>"
  "open_tag ''SCRIPT'' (outside t) = (outside t)\<lparr>hs_in_tag := True\<rparr>"
  "open_tag ''/SCRIPT'' (outside t) = (outside t)\<lparr>hs_in_tag := True\<rparr>"
  by (simp_all add: open_tag_def in_script_def outside_def block_tags_def)

lemma loop_script:
  "html_loop (''<script>'' @ r) (outside t) = html_loop r (in_script t)"
  "html_loop (''</script>'' @ r) (in_script t) = html_loop r (outside t)"
  "html_loop (''<SCRIPT>'' @ r) (outside t) = html_loop r (outside t)"
  "html_loop (''</SCRIPT>'' @ r) (outside t) = html_loop r (outside t)"
  using script_tags [of r]
  by (simp_all add: html_loop_tag open_script del: html_loop.simps)
    (simp_all add: in_script_def outside_def)

text \<open>
  A script is not shown: the page reads as if it were not there. But only if its tag is written
  in small letters, since the lowered name of a tag is thrown away; a script in capital letters
  is part of the text.
\<close>

theorem script_hidden:
  assumes "CHR ''<'' \<notin> set s" and "no_markup t"
  shows "html_to_text (''<script>'' @ s @ ''</script>'' @ rest) = html_to_text rest \<and>
    html_to_text (''<SCRIPT>'' @ t @ ''</SCRIPT>'') = join (words_of t) '' ''"
proof
  have start: "html_start = outside []" by (simp add: html_start_def outside_def)
  obtain b where b: "html_loop (s @ ''</script>'' @ rest) (in_script []) =
      html_loop (''</script>'' @ rest) ((in_script [])\<lparr>hs_in_tag := b\<rparr>)" "\<not> b"
    using html_loop_script [OF assms(1), of "in_script []" "''</script>'' @ rest"]
    by (auto simp: in_script_def)
  then have "(in_script [])\<lparr>hs_in_tag := b\<rparr> = in_script []" by (simp add: in_script_def)
  then have "html_loop (''<script>'' @ s @ ''</script>'' @ rest) html_start = html_loop rest html_start"
    using b(1) by (simp only: loop_script start)
  then show "html_to_text (''<script>'' @ s @ ''</script>'' @ rest) = html_to_text rest"
    by (simp only: html_to_text_def)
  have split: "html_loop (t @ r) (outside u) = html_loop r (outside (foldl (\<lambda>t c. add_char c t) u t))"
    if "no_markup t" for t r u
    using that
  proof (induction t arbitrary: u)
    case (Cons c t)
    then have "html_loop ((c # t) @ r) (outside u) = html_loop (t @ r) (outside (add_char c u))"
      by (auto simp: no_markup_def outside_def)
    with Cons show ?case by (simp add: no_markup_def)
  qed simp
  have "html_loop (''<SCRIPT>'' @ t @ ''</SCRIPT>'') html_start =
      html_loop (''</SCRIPT>'' @ []) (outside (foldl (\<lambda>t c. add_char c t) [] t))"
    unfolding start loop_script append_Nil2 by (rule split [OF assms(2)])
  also have "\<dots> = html_loop (t @ []) html_start"
    unfolding loop_script start split [OF assms(2)] ..
  finally have "html_to_text (''<SCRIPT>'' @ t @ ''</SCRIPT>'') = html_to_text t"
    by (simp only: html_to_text_def append_Nil2)
  also have "\<dots> = join (words_of t) '' ''" by (rule plain_text_join [OF assms(2)])
  finally show "html_to_text (''<SCRIPT>'' @ t @ ''</SCRIPT>'') = join (words_of t) '' ''" .
qed

lemma script_hidden_witness:
  "html_to_text ''<script>f(1)</script>'' = [] \<and> html_to_text ''<SCRIPT>f(1)</SCRIPT>'' = ''f(1)''"
proof -
  have "html_to_text [] = []" by (simp add: html_to_text_def html_start_def trim_def)
  moreover have "no_markup ''f(1)''" by (simp add: no_markup_def)
  ultimately show ?thesis
    using script_hidden [of "''f(1)''" "''f(1)''" "[]"] by (simp add: words_of_def is_space_def)
qed

text \<open>
  The name of a heading's tag is cut before its digit, so headings do not end lines; an entity
  given by number becomes a blank.
\<close>

lemma headings_run_on:
  "html_to_text ''<h1>a</h1><h1>b</h1>'' = ''ab'' \<and> html_to_text ''<p>a</p><p>b</p>'' = [CHR ''a'', CHR 0x0A, CHR ''b'']"
  by code_simp

lemma numeric_entity_lost: "html_to_text ''it&#39;s'' = ''it s''"
  by code_simp

end
