(* ===== verification/Web_Search.thy ===== *)
theory Web_Search
  imports Web_Fetch
begin

text \<open>
  The WebSearch tool: \<open>src/tools/web_search_tool.cpp\<close>. Arguments: libcurl's transfers and its
  escaping of URLs (\<open>None\<close> where it fails), the environment variable, and what the two regular
  expressions with captures match in the page. The third one, which removes tags, is modelled.
\<close>

record search_env =
  se_escape :: "string \<Rightarrow> string"
  se_unescape :: "string \<Rightarrow> string option"
  se_transfer :: "string \<Rightarrow> transfer"
  se_brave_key :: "string option"
  se_links :: "string \<Rightarrow> (string \<times> string) list"
  se_snippets :: "string \<Rightarrow> string list"

section \<open>Requests\<close>

definition search_body :: "transfer \<Rightarrow> string" where
  "search_body t = (case fetch_url t of None \<Rightarrow> [] | Some body \<Rightarrow> body)"

definition brave_search :: "search_env \<Rightarrow> string \<Rightarrow> int \<Rightarrow> string" where
  "brave_search e query max_results =
     search_body (se_transfer e (''https://api.search.brave.com/res/v1/web/search?q='' @
       se_escape e query @ ''&count='' @ int_to_string max_results))"

section \<open>The page of DuckDuckGo\<close>

text \<open>\<open>regex_replace\<close> of \<open><[^>]*>\<close> by nothing.\<close>

function strip_tags :: "string \<Rightarrow> string" where
  "strip_tags [] = []"
| "strip_tags (c # cs) =
     (if c = CHR ''<'' \<and> CHR ''>'' \<in> set cs
      then strip_tags (tl (dropWhile (\<lambda>d. d \<noteq> CHR ''>'') cs))
      else c # strip_tags cs)"
  by pat_completeness auto
termination
proof (relation "measure length")
  fix c :: char and cs :: string
  have "length (dropWhile (\<lambda>d. d \<noteq> CHR ''>'') cs) \<le> length cs" by (rule length_dropWhile_le)
  then have "length (tl (dropWhile (\<lambda>d. d \<noteq> CHR ''>'') cs)) < length (c # cs)" by simp
  then show "(tl (dropWhile (\<lambda>d. d \<noteq> CHR ''>'') cs), c # cs) \<in> measure length" by simp
qed simp_all

definition decode_link :: "search_env \<Rightarrow> string \<Rightarrow> string" where
  "decode_link e url =
     (case str_find ''uddg='' url of
        None \<Rightarrow> url
      | Some pos \<Rightarrow>
          (let u = drop (pos + 5) url;
               v = (case str_find ''&'' u of None \<Rightarrow> u | Some amp \<Rightarrow> take amp u)
           in case se_unescape e v of None \<Rightarrow> v | Some d \<Rightarrow> d))"

definition ddg_result :: "search_env \<Rightarrow> nat \<Rightarrow> string \<times> string \<Rightarrow> string \<Rightarrow> string" where
  "ddg_result e count link snippet =
     nat_to_string (count + 1) @ ''. '' @ trim (strip_tags (snd link)) @ [CHR 0x0A] @
     ''   URL: '' @ decode_link e (fst link) @ [CHR 0x0A] @
     (if snippet \<noteq> [] then ''   '' @ trim snippet @ [CHR 0x0A] else []) @ [CHR 0x0A]"

text \<open>The loop over the links, with the rest of the snippets beside it.\<close>

fun ddg_loop ::
  "search_env \<Rightarrow> nat \<Rightarrow> (string \<times> string) list \<Rightarrow> string list \<Rightarrow> nat \<Rightarrow> string \<Rightarrow> string" where
  "ddg_loop e max_results [] snips count results = results"
| "ddg_loop e max_results (link # links) snips count results =
     (if count \<ge> max_results then results
      else (case snips of
          [] \<Rightarrow> ddg_loop e max_results links [] (Suc count) (results @ ddg_result e count link [])
        | s # ss \<Rightarrow>
            ddg_loop e max_results links ss (Suc count) (results @ ddg_result e count link (strip_tags s))))"

definition ddg_url :: "search_env \<Rightarrow> string \<Rightarrow> string" where
  "ddg_url e query = ''https://html.duckduckgo.com/html/?q='' @ se_escape e query"

definition ddg_search :: "search_env \<Rightarrow> string \<Rightarrow> nat \<Rightarrow> string" where
  "ddg_search e query max_results =
     (let body = search_body (se_transfer e (ddg_url e query))
      in ddg_loop e max_results (se_links e body) (se_snippets e body) 0 [])"

section \<open>The answer of Brave\<close>

definition brave_item :: "('j, 'z) jlib_scheme \<Rightarrow> nat \<Rightarrow> 'j \<Rightarrow> cpp_exn + string" where
  "brave_item J count r =
     bind_exn (str_value J r ''title'' ''No title'') (\<lambda>title.
     bind_exn (str_value J r ''url'' []) (\<lambda>url.
     bind_exn (str_value J r ''description'' []) (\<lambda>description.
       Inr (nat_to_string (count + 1) @ ''. '' @ title @ [CHR 0x0A] @ ''   URL: '' @ url @ [CHR 0x0A] @
         ''   '' @ description @ [CHR 0x0A, CHR 0x0A]))))"

fun brave_items ::
  "('j, 'z) jlib_scheme \<Rightarrow> nat \<Rightarrow> 'j list \<Rightarrow> nat \<Rightarrow> string \<Rightarrow> cpp_exn + (string \<times> nat)" where
  "brave_items J max_results [] count results = Inr (results, count)"
| "brave_items J max_results (r # rs) count results =
     (if count \<ge> max_results then Inr (results, count)
      else bind_exn (brave_item J count r) (\<lambda>s. brave_items J max_results rs (Suc count) (results @ s)))"

definition heading :: "string \<Rightarrow> string" where
  "heading query = ''Search results for: '' @ query @ [CHR 0x0A, CHR 0x0A]"

text \<open>The results of a reply, if there are any; every exception ends in the fallback.\<close>

definition brave_results ::
  "('j, 'z) jlib_scheme \<Rightarrow> string \<Rightarrow> nat \<Rightarrow> string \<Rightarrow> string option" where
  "brave_results J query max_results response =
     (if response = [] then None
      else case bind_exn (parse_json J response) (\<lambda>data.
           if \<not> j_contains J data ''web'' then Inr ([], 0)
           else bind_exn (or_type_error (j_at J data ''web'')) (\<lambda>web.
             if \<not> j_contains J web ''results'' then Inr ([], 0)
             else bind_exn (or_type_error (j_at J web ''results'')) (\<lambda>items.
               brave_items J max_results (j_elems J items) 0 (heading query)))) of
        Inl x \<Rightarrow> None
      | Inr (results, count) \<Rightarrow> if count > 0 then Some results else None)"

section \<open>A call\<close>

definition clamp_results :: "int \<Rightarrow> int" where
  "clamp_results n = (let m = min n 20 in if m < 1 then 5 else m)"

definition search_run :: "('j, 'z) jlib_scheme \<Rightarrow> search_env \<Rightarrow> string \<Rightarrow> int \<Rightarrow> tool_output" where
  "search_run J e query requested =
     (if query = [] then tool_err ''No query specified''
      else
        let max_results = clamp_results requested;
            brave = (case se_brave_key e of
                None \<Rightarrow> None
              | Some key \<Rightarrow> if key = [] then None
                  else brave_results J query (nat max_results) (brave_search e query max_results))
        in case brave of
             Some results \<Rightarrow> tool_ok results
           | None \<Rightarrow>
               (let ddg = ddg_search e query (nat max_results)
                in if ddg \<noteq> [] then tool_ok (heading query @ ddg)
                   else tool_err (''Web search failed. Set BRAVE_API_KEY environment variable for Brave Search API, '' @
                     ''or check network connectivity for DuckDuckGo fallback.'')))"

definition search_execute ::
  "('j, 'z) jlib_scheme \<Rightarrow> (cpp_exn \<Rightarrow> string) \<Rightarrow> search_env \<Rightarrow> string \<Rightarrow> cpp_exn + tool_output" where
  "search_execute J what e input_json =
     caught_json what
       (bind_exn (parse_json J input_json) (\<lambda>j.
        bind_exn (str_value J j ''query'' []) (\<lambda>query.
        bind_exn (int_value J j ''max_results'' 5) (\<lambda>max_results.
          Inr (search_run J e query max_results)))))"

section \<open>Which snippet goes with which link\<close>

lemma ddg_loop_spec:
  "count \<le> n \<Longrightarrow> ddg_loop e n links snips count results =
     results @ concat (map (\<lambda>k. ddg_result e (count + k) (links ! k)
       (if k < length snips then strip_tags (snips ! k) else [])) [0..<min (n - count) (length links)])"
proof (induction links arbitrary: snips count results)
  case (Cons link links)
  show ?case
  proof (cases "count \<ge> n")
    case False
    let ?s = "if snips = [] then [] else strip_tags (hd snips)"
    have step: "ddg_loop e n (link # links) snips count results =
        ddg_loop e n links (tl snips) (Suc count) (results @ ddg_result e count link ?s)"
      using False by (cases snips) simp_all
    have range: "[0..<min (n - count) (length (link # links))] =
        0 # map Suc [0..<min (n - Suc count) (length links)]"
    proof -
      have "min (n - count) (length (link # links)) = Suc (min (n - Suc count) (length links))"
        using False by simp
      then show ?thesis by (simp only: map_Suc_upt upt_conv_Cons [of 0] zero_less_Suc)
    qed
    have first: "(if 0 < length snips then strip_tags (snips ! 0) else []) = ?s"
      by (cases snips) simp_all
    have later: "(if Suc k < length snips then strip_tags (snips ! Suc k) else []) =
        (if k < length (tl snips) then strip_tags (tl snips ! k) else [])" for k
      by (cases snips) simp_all
    from False have "Suc count \<le> n" by simp
    from Cons.IH [OF this, of "tl snips"] show ?thesis
      unfolding step range list.map concat.simps map_map o_def nth_Cons_0 nth_Cons_Suc first later
      by simp
  qed (use Cons.prems in simp)
qed simp

text \<open>
  The results of the second search: one for each link found, in the order of the page, at most
  as many as asked for and never more than twenty. The snippet printed with a link is the one at
  the same place in the list of all snippets: if a result of the page has none, all later
  snippets are printed one result too early.
\<close>

theorem snippets_by_position:
  assumes "se_brave_key e = None" and "query \<noteq> []" and "n = nat (clamp_results requested)"
    and "body = search_body (se_transfer e (ddg_url e query))"
    and "se_links e body \<noteq> []"
  shows "1 \<le> n \<and> n \<le> 20 \<and>
    search_run J e query requested = tool_ok (heading query @
      concat (map (\<lambda>k. ddg_result e k (se_links e body ! k)
        (if k < length (se_snippets e body) then strip_tags (se_snippets e body ! k) else []))
        [0..<min n (length (se_links e body))]))"
proof -
  have "1 \<le> clamp_results requested" "clamp_results requested \<le> 20"
    by (auto simp: clamp_results_def Let_def)
  then have n: "1 \<le> n" "n \<le> 20" using assms(3) by linarith+
  let ?out = "concat (map (\<lambda>k. ddg_result e k (se_links e body ! k)
      (if k < length (se_snippets e body) then strip_tags (se_snippets e body ! k) else []))
      [0..<min n (length (se_links e body))])"
  have "ddg_search e query n = ?out"
    using ddg_loop_spec [of 0 n e "se_links e body" "se_snippets e body" "[]"]
    by (simp add: ddg_search_def flip: assms(4))
  moreover have "?out \<noteq> []"
  proof -
    have "0 < min n (length (se_links e body))" using n(1) assms(5) by simp
    then have "[0..<min n (length (se_links e body))] = 0 # [Suc 0..<min n (length (se_links e body))]"
      by (rule upt_conv_Cons)
    then show ?thesis by (simp add: ddg_result_def)
  qed
  ultimately show ?thesis
    using n assms(1,2) by (simp add: search_run_def Let_def flip: assms(3))
qed

definition sample_search :: search_env where
  "sample_search = \<lparr>se_escape = id, se_unescape = Some,
     se_transfer = (\<lambda>u. \<lparr>tr_handle = True, tr_ok = True, tr_status = 200, tr_chunks = [''page'']\<rparr>),
     se_brave_key = None, se_links = (\<lambda>b. [(''x'', ''one''), (''y'', ''two'')]),
     se_snippets = (\<lambda>b. [''about two''])\<rparr>"

lemma snippets_by_position_witness:
  "search_run (sample_jlib (\<lambda>s. Inl []) (\<lambda>v. [])) sample_search ''q'' 5 =
     tool_ok (heading ''q'' @ ddg_result sample_search 0 (''x'', ''one'') ''about two'' @
       ddg_result sample_search 1 (''y'', ''two'') [])"
proof -
  have n: "nat (clamp_results 5) = 5" by (simp add: clamp_results_def)
  have env: "se_brave_key sample_search = None" "se_links sample_search b = [(''x'', ''one''), (''y'', ''two'')]"
    "se_snippets sample_search b = [''about two'']" for b
    by (simp_all add: sample_search_def)
  have "strip_tags ''about two'' = ''about two''" by simp
  moreover have "[0..<min 5 (length [(''x'', ''one''), (''y'', ''two'')])] = [0, 1]" by (simp add: upt_rec)
  ultimately show ?thesis
    using snippets_by_position [OF env(1) _ n [symmetric] refl, of "''q''"]
    by (simp add: env)
qed

text \<open>\<open>strip_tags\<close> leaves a text without angle brackets alone.\<close>

lemma strip_tags_plain: "CHR ''<'' \<notin> set s \<Longrightarrow> strip_tags s = s"
  by (induction s) auto

end
