(* ===== verification/Toolbox.thy ===== *)
theory Toolbox
  imports Bash_Tool File_Read File_Write Glob_Tool Grep_Tool Todo_Write Web_Search
begin

text \<open>
  The tools the program registers (\<open>Application::register_tools\<close> in \<open>src/app/lifecycle.cpp\<close>), as
  one registry over one world: the files, the directory of the Bash tool, the list of TodoWrite,
  and the number of calls so far, by which the surroundings of each call are found. A call that
  never returns is the exception \<open>Blocked\<close> here. Descriptions and system prompts are texts of the
  sources taken as an argument.
\<close>

record world =
  wd_files :: fsys
  wd_bash :: string
  wd_todos :: "todo_item list"
  wd_calls :: nat

record surroundings =
  su_what :: "cpp_exn \<Rightarrow> string"
  su_bash :: bash_env
  su_read :: read_env
  su_write :: write_env
  su_edit :: fs_env
  su_glob :: glob_env
  su_os :: "string \<Rightarrow> os"
  su_tmp :: "string option"
  su_sort_todos :: "todo_item list \<Rightarrow> todo_item list"
  su_uuid :: "nat \<Rightarrow> string"
  su_fetch :: fetch_env
  su_search :: search_env

type_synonym tool_body = "string \<Rightarrow> tool_context \<Rightarrow> world \<Rightarrow> (cpp_exn + tool_output) \<times> world"

text \<open>Each call counts, and finds its own surroundings.\<close>

definition counted :: "(nat \<Rightarrow> surroundings) \<Rightarrow> (surroundings \<Rightarrow> tool_body) \<Rightarrow> tool_body" where
  "counted S body input ctx w = body (S (wd_calls w)) input ctx (w\<lparr>wd_calls := Suc (wd_calls w)\<rparr>)"

section \<open>Schemas\<close>

definition object_schema :: "(string \<times> string \<times> string) list \<Rightarrow> string list \<Rightarrow> input_schema" where
  "object_schema props req =
     \<lparr>is_type = ''object'', is_properties = map (\<lambda>(n, t, d). (n, property t d)) props, is_required = req\<rparr>"

definition bash_schema :: input_schema where
  "bash_schema = object_schema
     [(''command'', ''string'', ''The shell command to execute''),
      (''timeout'', ''number'', ''Timeout in seconds (default 120, max 600)''),
      (''description'', ''string'', ''Optional description of what the command does'')] [''command'']"

definition read_schema :: input_schema where
  "read_schema =
     \<lparr>is_type = ''object'', is_properties =
        [(''file_path'', property ''string'' ''The absolute path to the file to read''),
         (''file_paths'', (property ''array'' ''Multiple file paths to read in batch (alternative to file_path)'')
            \<lparr>ps_items_type := ''string''\<rparr>),
         (''offset'', property ''number'' ''Line number to start reading from (0-indexed)''),
         (''limit'', property ''number'' ''Maximum number of lines to read'')], is_required = []\<rparr>"

definition write_schema :: input_schema where
  "write_schema = object_schema
     [(''file_path'', ''string'', ''The absolute path to the file to write''),
      (''content'', ''string'', ''The content to write to the file'')] [''file_path'', ''content'']"

definition edit_schema :: input_schema where
  "edit_schema = object_schema
     [(''file_path'', ''string'', ''The absolute path to the file to edit''),
      (''old_string'', ''string'', ''The exact text to find and replace (must be unique in the file)''),
      (''new_string'', ''string'', ''The replacement text''),
      (''edits'', ''array'', ''Array of {old_string, new_string} objects for multiple replacements'')]
     [''file_path'']"

definition glob_schema :: input_schema where
  "glob_schema = object_schema
     [(''pattern'', ''string'', ''Glob pattern to match files (e.g., '**/*.cpp', 'src/**/*.h')''),
      (''path'', ''string'', ''Base directory to search (default: working directory)'')] [''pattern'']"

definition grep_schema :: input_schema where
  "grep_schema = object_schema
     [(''pattern'', ''string'', ''Regular expression pattern to search for''),
      (''path'', ''string'', ''Directory to search (default: working directory)''),
      (''include'', ''string'', ''File glob to include (e.g., '*.cpp')''),
      (''exclude'', ''string'', ''File glob to exclude (e.g., 'test_*')''),
      (''type'', ''string'', ''File type filter for rg (e.g., 'cpp', 'rust', 'py')''),
      (''context'', ''number'', ''Context lines before and after match (-C)''),
      (''before_context'', ''number'', ''Lines before match (-B)''),
      (''after_context'', ''number'', ''Lines after match (-A)''),
      (''max_matches'', ''number'', ''Maximum matches to return (default 50)''),
      (''case_insensitive'', ''boolean'', ''Case insensitive search (-i)'')] [''pattern'']"

definition todo_schema :: input_schema where
  "todo_schema = object_schema
     [(''todos'', ''array'', ''Array of todo items, each with id, content, status, and optional priority'')]
     [''todos'']"

definition fetch_schema :: input_schema where
  "fetch_schema = object_schema
     [(''url'', ''string'', ''HTTP(S) URL to fetch''),
      (''max_chars'', ''number'', ''Maximum characters to return (default 50000)'')] [''url'']"

definition search_schema :: input_schema where
  "search_schema = object_schema
     [(''query'', ''string'', ''Search query string''),
      (''max_results'', ''number'', ''Maximum number of results (default 5)'')] [''query'']"

section \<open>Bodies\<close>

definition bash_body :: "('j, 'z) jlib_scheme \<Rightarrow> surroundings \<Rightarrow> tool_body" where
  "bash_body J S input ctx w =
     (case bash_execute J (su_bash S) input ctx (wd_bash w) of
        None \<Rightarrow> (Inl Blocked, w)
      | Some (r, cwd) \<Rightarrow> (r, w\<lparr>wd_bash := cwd\<rparr>))"

definition read_body :: "('j, 'z) jlib_scheme \<Rightarrow> surroundings \<Rightarrow> tool_body" where
  "read_body J S input ctx w = (read_execute J (su_read S) (wd_files w) input ctx, w)"

definition write_tool_body :: "('j, 'z) jlib_scheme \<Rightarrow> surroundings \<Rightarrow> tool_body" where
  "write_tool_body J S input ctx w =
     (case write_execute J (su_write S) input ctx (wd_files w) of (out, f) \<Rightarrow> (Inr out, w\<lparr>wd_files := f\<rparr>))"

definition edit_tool_body :: "('j, 'z) jlib_scheme \<Rightarrow> surroundings \<Rightarrow> tool_body" where
  "edit_tool_body J S input ctx w =
     (case edit_execute J (su_edit S) input ctx (wd_files w) of (out, f) \<Rightarrow> (Inr out, w\<lparr>wd_files := f\<rparr>))"

definition glob_body :: "('j, 'z) jlib_scheme \<Rightarrow> surroundings \<Rightarrow> tool_body" where
  "glob_body J S input ctx w = (glob_execute J (su_what S) (su_glob S) input ctx, w)"

definition grep_body :: "('j, 'z) jlib_scheme \<Rightarrow> surroundings \<Rightarrow> tool_body" where
  "grep_body J S input ctx w =
     ((case grep_execute J (su_what S) (su_os S) (su_tmp S) input ctx of None \<Rightarrow> Inl Blocked | Some r \<Rightarrow> r), w)"

definition todo_body :: "('j, 'z) jlib_scheme \<Rightarrow> surroundings \<Rightarrow> tool_body" where
  "todo_body J S input ctx w =
     (case todo_execute J (su_what S) (su_sort_todos S) (su_uuid S) input (wd_todos w) of
        (r, ts) \<Rightarrow> (r, w\<lparr>wd_todos := ts\<rparr>))"

definition fetch_body :: "('j, 'z) jlib_scheme \<Rightarrow> surroundings \<Rightarrow> tool_body" where
  "fetch_body J S input ctx w = (fetch_execute J (su_what S) (su_fetch S) input, w)"

definition search_tool_body :: "('j, 'z) jlib_scheme \<Rightarrow> surroundings \<Rightarrow> tool_body" where
  "search_tool_body J S input ctx w = (search_execute J (su_what S) (su_search S) input, w)"

section \<open>Registration\<close>

definition make_tool ::
  "(string \<Rightarrow> string) \<Rightarrow> (string \<Rightarrow> string) \<Rightarrow> string \<Rightarrow> string \<Rightarrow> input_schema \<Rightarrow> tool_body \<Rightarrow> world tool" where
  "make_tool descr prompt name category schema body =
     \<lparr>t_name = name, t_description = descr name, t_input_schema = schema, t_system_prompt = prompt name,
      t_execute = body, t_supports_progress = False, t_requires_confirmation = False,
      t_category = category\<rparr>"

definition app_tools ::
  "('j, 'z) jlib_scheme \<Rightarrow> (string \<Rightarrow> string) \<Rightarrow> (string \<Rightarrow> string) \<Rightarrow> (nat \<Rightarrow> surroundings) \<Rightarrow> world tool list" where
  "app_tools J descr prompt S =
     (let mk = make_tool descr prompt in
      [(mk ''Bash'' ''execution'' bash_schema (counted S (bash_body J)))\<lparr>t_requires_confirmation := True\<rparr>,
       mk ''Read'' ''file'' read_schema (counted S (read_body J)),
       mk ''Write'' ''file'' write_schema (counted S (write_tool_body J)),
       mk ''Edit'' ''file'' edit_schema (counted S (edit_tool_body J)),
       mk ''Glob'' ''file'' glob_schema (counted S (glob_body J)),
       mk ''Grep'' ''file'' grep_schema (counted S (grep_body J)),
       mk ''TodoWrite'' ''session'' todo_schema (counted S (todo_body J)),
       mk ''WebFetch'' ''web'' fetch_schema (counted S (fetch_body J)),
       mk ''WebSearch'' ''web'' search_schema (counted S (search_tool_body J))])"

definition register_tools :: "world tool list \<Rightarrow> world registry" where
  "register_tools ts = foldl (\<lambda>r t. register_tool (Some t) r) Map.empty ts"

section \<open>What is registered\<close>

lemma distinct_names: "distinct (map t_name (app_tools J descr prompt S))"
  by (simp add: app_tools_def make_tool_def)

lemma find_app_tool:
  assumes "t \<in> set (app_tools J descr prompt S)"
  shows "find_tool (register_tools (app_tools J descr prompt S)) (t_name t) = Some t"
proof -
  let ?ts = "app_tools J descr prompt S"
  have "distinct (map fst (rev (map (\<lambda>t. (t_name t, t)) ?ts)))"
    using distinct_names [of J descr prompt S] by (simp add: rev_map [symmetric] o_def)
  moreover have "(t_name t, t) \<in> set (rev (map (\<lambda>t. (t_name t, t)) ?ts))" using assms by auto
  ultimately show ?thesis unfolding register_tools_def find_in_registered by (rule map_of_is_SomeI)
qed

section \<open>A failing command, from the model and back\<close>

lemma bash_tool_found:
  "\<exists>t. find_tool (register_tools (app_tools J descr prompt S)) ''Bash'' = Some t \<and>
     t_execute t = counted S (bash_body J)"
proof -
  let ?t = "(make_tool descr prompt ''Bash'' ''execution'' bash_schema (counted S (bash_body J)))
    \<lparr>t_requires_confirmation := True\<rparr>"
  have "?t \<in> set (app_tools J descr prompt S)" by (simp add: app_tools_def Let_def)
  from find_app_tool [OF this] show ?thesis by (simp add: make_tool_def)
qed

text \<open>
  C40: A command that the model asks for and that fails, followed through the engine: the user sees
  what it printed, the model is told that there was an error and nothing else.
\<close>

theorem engine_bash_failure:
  assumes "qe_tools s = register_tools (app_tools J descr prompt S)"
    and "tc_name call = ''Bash''" and "\<not> ct_locked (qe_costs s)"
    and "surround = S (wd_calls (qe_world s))"
    and "bash_execute J (su_bash surround) (tc_input_json call) (tool_ctx s) (wd_bash (qe_world s)) =
      Some (Inr (format_run timeout (be_time (su_bash surround)) r), cwd)"
    and "\<not> pr_timed_out r" and "pr_exit_code r \<noteq> 0" and "prefix shown (run_output r)" and "length shown \<le> 500"
  shows "\<exists>s' rest. execute_tool_call E call s = (Inr (error_result (tc_id call) []), s') \<and>
    qe_stdout s' = qe_stdout s @ [CHR 0x0A, CHR 0xE2, CHR 0x9A, CHR 0xA1] @ '' Bash'' @ [CHR 0x0A] @ shown @ rest"
proof -
  let ?out = "format_run timeout (be_time (su_bash surround)) r"
  obtain t where t: "find_tool (qe_tools s) ''Bash'' = Some t" "t_execute t = counted S (bash_body J)"
    using bash_tool_found assms(1) by metis
  have "check_tool_permission s n i \<noteq> Denied" for n i by (simp add: check_tool_permission_def)
  moreover have "t_execute t (tc_input_json call) (tool_ctx s) (qe_world s) =
      (Inr ?out, (qe_world s)\<lparr>wd_calls := Suc (wd_calls (qe_world s)), wd_bash := cwd\<rparr>)"
    using assms(5) by (simp add: t(2) counted_def bash_body_def flip: assms(4))
  moreover obtain u ct where "record_tool_duration (ee_elapsed E (qe_reads s)) (qe_costs s) = Inr (u, ct)"
    using assms(3) by (simp add: record_tool_duration_def locked_def)
  ultimately have run: "execute_tool_call E call s = (Inr (result_of_output (tc_id call) ?out),
      s\<lparr>qe_world := (qe_world s)\<lparr>wd_calls := Suc (wd_calls (qe_world s)), wd_bash := cwd\<rparr>, qe_costs := ct,
        qe_stdout := qe_stdout s @ display_tool_result call ?out\<rparr>)"
    using t(1) assms(2) by (simp add: execute_tool_call_def)
  have "result_of_output (tc_id call) ?out = error_result (tc_id call) []"
    using format_run_failed [of r] assms(6,7) by simp
  moreover have "\<exists>rest. display_tool_result call ?out =
      [CHR 0x0A, CHR 0xE2, CHR 0x9A, CHR 0xA1] @ '' Bash'' @ [CHR 0x0A] @ shown @ rest"
  proof -
    obtain more where more: "to_content ?out = shown @ more" "to_content ?out \<noteq> []"
      using assms(6-8) by (auto simp: format_run_def elim!: prefixE)
    have "take 500 (shown @ more) = shown @ take (500 - length shown) more" using assms(9) by simp
    with more assms(2) show ?thesis by (auto simp: display_tool_result_def)
  qed
  ultimately show ?thesis using run by auto
qed

section \<open>What is written is what is read\<close>

text \<open>
  C10: A text written by the Write tool, whatever was there before, is what the Read tool shows for the
  same path: its lines, each after its number. The path has no extension of an image, the text no
  null byte at its start, and it does not begin like one of the formats the Read tool knows.
\<close>

theorem write_then_read:
  assumes "undisturbed (fs_env.truncate e)" and "p = resolve_path (fs_env.truncate e) (tx_working_directory ctx) file_path"
    and "w (temp_path_of (fs_env.truncate e) p) = None" and "fe_disk_left e = None"
    and "do_write e file_path content (tx_working_directory ctx) w = (Inr out, w')" and "\<not> to_is_error out"
    and "re_canonical e' p = Some p" and "fe_home e' = fe_home e" and "fe_readable e'"
    and "map_of image_extensions (path_extension p) = None" and "plain_bytes content"
    and "\<not> has_magic content" and "length content \<le> 100 * 1024 * 1024"
    and "ls = split_char content (CHR 0x0A)"
  shows "read_single_file e' w' file_path 0 0 ctx =
    tool_ok (concat (map (\<lambda>i. numbered_line 0 i (ls ! i)) [0..<min 2000 (length ls)]) @
      (if length ls > 2000 then truncation_note else []))"
proof -
  have "Files.written (fs_env.truncate e) content = content" using assms(4) by (simp add: Files.written_def)
  then have w': "w' = w(p \<mapsto> \<lparr>f_content = content, f_mtime = fe_now e\<rparr>)"
    using write_result [OF assms(1-3,5)] assms(6) by simp
  have "resolve_path (fs_env.truncate e') (tx_working_directory ctx) file_path = p"
    using assms(2,8) by (simp add: resolve_path_def fs_env.defs)
  then have "readable_at e' w' ctx file_path p content"
    using assms(7,9,13) by (simp add: readable_at_def read_file_def w' fs_env.defs)
  from text_file_shown [OF this assms(10,11) _ assms(14) refl, of 0 0] assms(12) show ?thesis
    by simp
qed

section \<open>Witnesses\<close>

definition sample_surroundings :: surroundings where
  "sample_surroundings = \<lparr>su_what = (\<lambda>x. []), su_bash = sample_run 2, su_read = sample_read_env,
     su_write = sample_write_env None, su_edit = sample_fs_env None, su_glob = sample_glob,
     su_os = be_os (sample_run 2), su_tmp = None, su_sort_todos = id, su_uuid = (\<lambda>n. []),
     su_fetch = \<lparr>fe_transfer = se_transfer sample_search, fe_title = Map.empty\<rparr>, su_search = sample_search\<rparr>"

abbreviation sample_json :: "jv jlib" where
  "sample_json \<equiv> sample_jlib (\<lambda>s. Inr (JObj [(''command'', JStr s)])) (\<lambda>v. [])"

lemma write_then_read_witness:
  "read_single_file sample_read_env (snd (do_write (sample_write_env None) ''/a'' ''x'' ''/w'' sample_files))
     ''/a'' 0 0 sample_context = tool_ok (numbered_line 0 0 ''x'')"
proof -
  let ?e = "sample_write_env None"
  have env: "undisturbed (fs_env.truncate ?e)" "resolve_path (fs_env.truncate ?e) cwd ''/a'' = ''/a''"
    "sample_files (temp_path_of (fs_env.truncate ?e) ''/a'') = None" for cwd
    by (simp_all add: sample_write_env sample_undisturbed sample_resolve sample_files_def temp_path_of_def)
  have "\<not> write_noticed ?e ''x''" by (simp add: write_noticed_def sample_write_env Files.written_def sample_fs_env_def)
  then obtain out where out: "fst (do_write ?e ''/a'' ''x'' ''/w'' sample_files) = Inr out" "\<not> to_is_error out"
    using env(1,2) undisturbed_simps(1,3) [OF env(1), simplified]
    by (simp add: do_write_def sample_write_env Let_def rename_file_def write_stream_def
        last_write_time_def temp_path_of_def tool_ok_def)
  then have run: "do_write ?e ''/a'' ''x'' (tx_working_directory sample_context) sample_files =
      (Inr out, snd (do_write ?e ''/a'' ''x'' ''/w'' sample_files))"
    by (simp add: sample_context_def prod_eq_iff)
  have "path_extension ''/a'' = []" by code_simp
  then have ext: "map_of image_extensions (path_extension ''/a'') = None"
    by (simp add: image_extensions_def)
  have reads: "re_canonical sample_read_env ''/a'' = Some ''/a''" "fe_readable sample_read_env"
    "fe_home sample_read_env = fe_home ?e" "fe_disk_left ?e = None"
    by (simp_all add: sample_read_env_def sample_write_env_def sample_fs_env_def fs_env.defs)
  have "split_char ''x'' (CHR 0x0A) = [''x'']" by (simp add: split_char.simps)
  moreover have "plain_bytes ''x''" "\<not> has_magic ''x''"
    by (simp_all add: plain_bytes_def has_magic_def magic_bytes_def header_bytes_def)
  ultimately show ?thesis
    using write_then_read [where w = sample_files, OF env(1) env(2) [symmetric] env(3) reads(4) run out(2)
        reads(1,3,2) ext _ _ _ refl] by simp
qed

definition sample_world_engine :: "(jv, unit, world) engine" where
  "sample_world_engine = \<lparr>qe_messages = [], qe_aborted = False, qe_max_iterations = 100,
     qe_working_directory = ''/w'', qe_session = sample_session ''/w'', qe_context = new_builder,
     qe_tools = register_tools (app_tools sample_json (\<lambda>n. n) (\<lambda>n. n) (\<lambda>n. sample_surroundings)),
     qe_tool_order = map t_name (app_tools sample_json (\<lambda>n. n) (\<lambda>n. n) (\<lambda>n. sample_surroundings)), qe_costs = new_tracker, qe_client = (),
     qe_world = \<lparr>wd_files = sample_files, wd_bash = [], wd_todos = [], wd_calls = 0\<rparr>,
     qe_stdout = [], qe_delivered = [], qe_reads = 0\<rparr>"

lemma engine_bash_failure_witness:
  "\<exists>s' rest. execute_tool_call sample_env \<lparr>tc_id = ''1'', tc_name = ''Bash'', tc_input_json = ''make''\<rparr>
      sample_world_engine = (Inr (error_result ''1'' []), s') \<and>
    qe_stdout s' = [CHR 0x0A, CHR 0xE2, CHR 0x9A, CHR 0xA1] @ '' Bash'' @ [CHR 0x0A] @ ''out'' @ rest"
proof -
  let ?call = "\<lparr>tc_id = ''1'', tc_name = ''Bash'', tc_input_json = ''make''\<rparr>"
  let ?r = "\<lparr>pr_exit_code = 2, pr_stdout = ''out'', pr_stderr = [], pr_timed_out = False\<rparr>"
  let ?opts = "run_options (clamp_timeout 120) (tool_ctx sample_world_engine) []"
  have harmless: "\<not> is_dangerous ''make''" "\<not> starts_with (trim ''make'') ''cd ''" by code_simp+
  have run: "exec_command (be_os (sample_run 2)) (be_tmp (sample_run 2)) ''make'' ?opts = Some ?r"
    by (simp add: exec_command_def exec_fork_def sample_run_def run_options_def
        default_options_def clamp_timeout_def open_fds_def deadline_of_def remaining_def ready_by_def
        ready_time_def stream_of_def store_def Let_def)
  have "bash_run (sample_run 2) (tool_ctx sample_world_engine) ''make'' ''make'' 120 [] =
      Some (format_run (clamp_timeout 120) (be_time (sample_run 2)) ?r, [])"
    using harmless run by (simp add: bash_run_def)
  then have bash: "bash_execute sample_json (su_bash sample_surroundings) (tc_input_json ?call)
      (tool_ctx sample_world_engine) (wd_bash (qe_world sample_world_engine)) =
      Some (Inr (format_run (clamp_timeout 120) (be_time (su_bash sample_surroundings)) ?r), [])"
    by (simp add: bash_execute_def parse_json_def str_value_def int_value_def jv_defs
        sample_surroundings_def sample_world_engine_def)
  have out: "prefix ''out'' (run_output ?r)" by (simp add: run_output_def truncate_output_def)
  have engine: "qe_tools sample_world_engine =
      register_tools (app_tools sample_json (\<lambda>n. n) (\<lambda>n. n) (\<lambda>n. sample_surroundings))"
    "\<not> ct_locked (qe_costs sample_world_engine)" "qe_stdout sample_world_engine = []"
    by (simp_all add: sample_world_engine_def new_tracker_def)
  show ?thesis
    using engine_bash_failure [OF engine(1) _ engine(2) refl bash _ _ out] engine(3) by simp
qed

end
