(* ===== verification/Output_Free.thy ===== *)
theory Output_Free
  imports Query_Engine
begin

text \<open>
  What the engine has printed so far influences nothing it does: an operation on an engine whose
  output is replaced has the same result and leaves the same engine, up to the output. Used for
  the application, whose loop prints to the same stream.
\<close>

definition redirect :: "string \<Rightarrow> ('j, 'c, 'w) engine \<Rightarrow> ('j, 'c, 'w) engine" where
  "redirect out s = s\<lparr>qe_stdout := out\<rparr>"

definition out_free :: "(('j, 'c, 'w) engine \<Rightarrow> 'r \<times> ('j, 'c, 'w) engine) \<Rightarrow> bool" where
  "out_free f = (\<forall>s out. \<exists>out'. f (redirect out s) = (fst (f s), redirect out' (snd (f s))))"

lemma out_freeD:
  "out_free f \<Longrightarrow> f s = (r, s') \<Longrightarrow> \<exists>out'. f (redirect out s) = (r, redirect out' s')"
  unfolding out_free_def by (metis fst_conv snd_conv)

lemma redirect_simps [simp]:
  "qe_messages (redirect out s) = qe_messages s" "qe_aborted (redirect out s) = qe_aborted s"
  "qe_max_iterations (redirect out s) = qe_max_iterations s" "qe_session (redirect out s) = qe_session s"
  "qe_context (redirect out s) = qe_context s" "qe_tools (redirect out s) = qe_tools s"
  "qe_tool_order (redirect out s) = qe_tool_order s" "qe_costs (redirect out s) = qe_costs s"
  "qe_client (redirect out s) = qe_client s" "qe_world (redirect out s) = qe_world s"
  "qe_reads (redirect out s) = qe_reads s" "tool_ctx (redirect out s) = tool_ctx s"
  "check_tool_permission (redirect out s) n i = check_tool_permission s n i"
  "(redirect out s)\<lparr>qe_messages := ms\<rparr> = redirect out (s\<lparr>qe_messages := ms\<rparr>)"
  "(redirect out s)\<lparr>qe_costs := ct\<rparr> = redirect out (s\<lparr>qe_costs := ct\<rparr>)"
  "(redirect out s)\<lparr>qe_client := c\<rparr> = redirect out (s\<lparr>qe_client := c\<rparr>)"
  "(redirect out s)\<lparr>qe_world := w\<rparr> = redirect out (s\<lparr>qe_world := w\<rparr>)"
  "(redirect out s)\<lparr>qe_context := b\<rparr> = redirect out (s\<lparr>qe_context := b\<rparr>)"
  "redirect o1 (redirect o2 s) = redirect o1 s"
  by (simp_all add: redirect_def tool_ctx_def check_tool_permission_def fun_eq_iff)

lemma read_abort_out: "read_abort E (redirect out s) = (fst (read_abort E s), redirect out (snd (read_abort E s)))"
  by (simp add: read_abort_def redirect_def Let_def)

lemma out_free_execute_tool_call:
  fixes E :: "('j, 'c) engine_env"
  shows "out_free (execute_tool_call E call :: ('j, 'c, 'w) engine \<Rightarrow> _)"
  unfolding out_free_def
proof (intro allI)
  fix s :: "('j, 'c, 'w) engine" and out
  have print: "\<exists>out'. (redirect out t)\<lparr>qe_stdout := x\<rparr> = redirect out' (t\<lparr>qe_stdout := y\<rparr>)"
    for t :: "('j, 'c, 'w) engine" and x y
    by (intro exI [of _ x]) (simp add: redirect_def)
  show "\<exists>out'. execute_tool_call E call (redirect out s) =
      (fst (execute_tool_call E call s), redirect out' (snd (execute_tool_call E call s)))"
    by (auto simp: execute_tool_call_def intro!: print split: option.split prod.split sum.split)
qed

lemma out_free_run_tools:
  fixes E :: "('j, 'c) engine_env"
  shows "out_free (run_tools E calls :: ('j, 'c, 'w) engine \<Rightarrow> _)"
proof (induction calls)
  case Nil
  then show ?case by (auto simp: out_free_def)
next
  case (Cons call calls)
  show ?case
    unfolding out_free_def
  proof (intro allI)
    fix s :: "('j, 'c, 'w) engine" and out
    obtain b s1 where 1: "read_abort E s = (b, s1)" by (rule prod.exhaust)
    obtain r s2 where 2: "execute_tool_call E call s1 = (r, s2)" by (rule prod.exhaust)
    obtain o2 where 3: "execute_tool_call E call (redirect out s1) = (r, redirect o2 s2)"
      using out_freeD [OF out_free_execute_tool_call 2] by blast
    let ?s3 = "s2\<lparr>qe_costs := increment_tool_calls (qe_costs s2)\<rparr>"
    obtain rs s4 where 4: "run_tools E calls ?s3 = (rs, s4)" by (rule prod.exhaust)
    obtain o4 where 5: "run_tools E calls (redirect o2 ?s3) = (rs, redirect o4 s4)"
      using out_freeD [OF Cons.IH 4] by blast
    show "\<exists>out'. run_tools E (call # calls) (redirect out s) =
        (fst (run_tools E (call # calls) s), redirect out' (snd (run_tools E (call # calls) s)))"
      by (cases b; cases r; cases rs; simp add: read_abort_out 1 2 3 4 5; rule exI; rule refl)
  qed
qed

lemma events_out:
  "\<exists>out'. foldl (\<lambda>s ev. handle_stream_event ev s) (redirect out s) evs =
     redirect out' (foldl (\<lambda>s ev. handle_stream_event ev s) s evs)"
proof (induction evs arbitrary: s out)
  case (Cons ev evs)
  have "\<exists>x. handle_stream_event ev (redirect out s) = redirect x (handle_stream_event ev s)"
    by (auto simp: handle_stream_event_def redirect_def)
  with Cons show ?case by (metis foldl_Cons)
qed auto

lemma out_free_tool_call_loop:
  fixes E :: "('j, 'c) engine_env"
  shows "out_free (tool_call_loop k E iteration opts final :: ('j, 'c, 'w) engine \<Rightarrow> _)"
proof (induction k arbitrary: iteration opts final)
  case 0
  then show ?case by (auto simp: out_free_def)
next
  case (Suc k)
  show ?case
    unfolding out_free_def
  proof (intro allI)
    fix s :: "('j, 'c, 'w) engine" and out
    let ?f = "tool_call_loop (Suc k) E iteration opts final"
    obtain b s1 where 1: "read_abort E s = (b, s1)" by (rule prod.exhaust)
    obtain res evs c where 2: "ee_api E iteration opts (qe_client s1) = (res, evs, c)" by (rule prod_cases3)
    define s2 where "s2 = foldl (\<lambda>s ev. handle_stream_event ev s) (s1\<lparr>qe_client := c\<rparr>) evs"
    obtain o2 where 3: "foldl (\<lambda>s ev. handle_stream_event ev s) (redirect out (s1\<lparr>qe_client := c\<rparr>)) evs = redirect o2 s2"
      using events_out s2_def by blast
    show "\<exists>out'. ?f (redirect out s) = (fst (?f s), redirect out' (snd (?f s)))"
    proof (cases b)
      case True
      with 1 show ?thesis by (auto simp: read_abort_out)
    next
      case False
      note start = 1 2 3 s2_def [symmetric] False
      show ?thesis
      proof (cases res)
        case (Inl e)
        with start show ?thesis by (auto simp: read_abort_out)
      next
        case (Inr resp)
        let ?rec = "record_response (msg_model (qr_message resp)) (qr_usage resp) (ee_elapsed E (qe_reads s2)) (qe_costs s2)"
        show ?thesis
        proof (cases ?rec)
          case (Inl e)
          with start Inr show ?thesis by (auto simp: read_abort_out)
        next
          case rec: (Inr uct)
          define s3 where "s3 = s2\<lparr>qe_costs := snd uct, qe_messages := qe_messages s2 @ [qr_message resp]\<rparr>"
          have rec': "?rec = Inr (fst uct, snd uct)" using rec by (cases uct) simp
          obtain rs s4 where 4: "run_tools E (tool_calls (qr_message resp)) s3 = (rs, s4)" by (rule prod.exhaust)
          obtain o4 where 5: "run_tools E (tool_calls (qr_message resp)) (redirect o2 s3) = (rs, redirect o4 s4)"
            using out_freeD [OF out_free_run_tools 4] by blast
          show ?thesis
          proof (cases "\<not> qr_stopped_by_tool resp")
            case True
            with start Inr rec' show ?thesis by (auto simp: read_abort_out)
          next
            case tool: False
            note run = start Inr rec' tool 4 [unfolded s3_def] 5 [unfolded s3_def]
            show ?thesis
            proof (cases "rs = Inr [] \<or> (\<exists>e. rs = Inl e)")
              case True
              with run show ?thesis by (auto simp: read_abort_out)
            next
              case more: False
              then obtain results where rs: "rs = Inr results" "results \<noteq> []" by (cases rs) auto
              define s5 where "s5 = s4\<lparr>qe_messages := qe_messages s4 @
                [create_tool_result_message (ee_now E (qe_reads s4)) results]\<rparr>"
              obtain r6 s6 where 6: "tool_call_loop k E (Suc iteration) (opts\<lparr>qo_messages := qe_messages s5\<rparr>) resp s5 = (r6, s6)"
                by (rule prod.exhaust)
              obtain o6 where 7: "tool_call_loop k E (Suc iteration) (opts\<lparr>qo_messages := qe_messages s5\<rparr>) resp (redirect o4 s5) =
                  (r6, redirect o6 s6)"
                using out_freeD [OF Suc.IH 6] by blast
              show ?thesis
                using run rs 6 7 by (auto simp: read_abort_out s5_def Let_def)
            qed
          qed
        qed
      qed
    qed
  qed
qed

lemma out_free_run_tool_call_loop:
  fixes E :: "('j, 'c) engine_env"
  shows "out_free (run_tool_call_loop E junk opts :: ('j, 'c, 'w) engine \<Rightarrow> _)"
  unfolding out_free_def
proof (intro allI)
  fix s :: "('j, 'c, 'w) engine" and out
  obtain r s1 where 1: "tool_call_loop (nat (qe_max_iterations s)) E 0 opts (blank_response junk) s = (r, s1)"
    by (rule prod.exhaust)
  obtain o1 where 2: "tool_call_loop (nat (qe_max_iterations s)) E 0 opts (blank_response junk) (redirect out s) =
      (r, redirect o1 s1)"
    using out_freeD [OF out_free_tool_call_loop 1] by blast
  obtain b s2 where 3: "read_abort E s1 = (b, s2)" by (rule prod.exhaust)
  show "\<exists>out'. run_tool_call_loop E junk opts (redirect out s) =
      (fst (run_tool_call_loop E junk opts s), redirect out' (snd (run_tool_call_loop E junk opts s)))"
    using 1 2 3 by (cases r; cases b) (auto simp: run_tool_call_loop_def read_abort_out)
qed

lemma execute_out:
  "\<exists>out'. execute J h E junk input (redirect out s) =
     map_option (\<lambda>(r, s'). (r, redirect out' s')) (execute J h E junk input s)"
proof -
  let ?b = "build_query_options J h (ee_now E (qe_reads s)) input"
  have b: "?b (redirect out s) = map_option (\<lambda>(q, s'). (q, redirect out s')) (?b s)"
    by (auto simp: build_query_options_def Let_def split: option.split prod.split)
  show ?thesis
  proof (cases "?b s")
    case None
    with b show ?thesis by (simp add: execute_def)
  next
    case (Some qs)
    obtain r s' where 1: "run_tool_call_loop E junk (fst qs) (snd qs) = (r, s')" by (rule prod.exhaust)
    obtain o1 where "run_tool_call_loop E junk (fst qs) (redirect out (snd qs)) = (r, redirect o1 s')"
      using out_freeD [OF out_free_run_tool_call_loop 1] by blast
    with 1 Some b show ?thesis by (auto simp: execute_def case_prod_unfold)
  qed
qed

end
