(* ===== verification/Lifecycle.thy ===== *)
theory Lifecycle
  imports App_Config App_State Toolbox Output_Free
begin

text \<open>
  The application: \<open>src/app/lifecycle.h\<close> and \<open>lifecycle.cpp\<close>. It builds the components, runs one
  prompt or the loop that reads prompts, and shuts down. \<open>std::cout\<close> is the output of the engine,
  which prints to it too. Each round of the loop has its own surroundings (\<open>repl_env\<close>); a signal
  is seen at the start of a round, where the code looks for it. A call that never returns is
  \<open>None\<close>, an exception that leaves \<open>run\<close> is on the left. Logging and the parser of the command
  line, which is a library, are left out.
\<close>

record ('j, 'c, 'w) application =
  ap_config :: app_config
  ap_engine :: "('j, 'c, 'w) engine"
  ap_state :: "'w app_state"
  ap_stderr :: string
  ap_initialized :: bool
  ap_running :: bool

record ('j, 'c) repl_env =
  rn_host :: "nat \<Rightarrow> host"
  rn_engine :: "nat \<Rightarrow> ('j, 'c) engine_env"
  rn_junk :: message_role
  rn_now :: "nat \<Rightarrow> int"
  rn_cost :: "rat \<Rightarrow> string"

definition say :: "string \<Rightarrow> ('j, 'c, 'w) application \<Rightarrow> ('j, 'c, 'w) application" where
  "say s a = a\<lparr>ap_engine := (ap_engine a)\<lparr>qe_stdout := qe_stdout (ap_engine a) @ s\<rparr>\<rparr>"

definition complain :: "string \<Rightarrow> ('j, 'c, 'w) application \<Rightarrow> ('j, 'c, 'w) application" where
  "complain s a = a\<lparr>ap_stderr := ap_stderr a @ s\<rparr>"

definition line :: "string \<Rightarrow> string" where
  "line s = s @ [CHR 0x0A]"

section \<open>Initialization\<close>

definition configured_session :: "app_config \<Rightarrow> session_config \<Rightarrow> session_config" where
  "configured_session c s =
     (let m = (sc_model s)\<lparr>model_id := ac_model_id c, max_tokens := word_of_int (ac_max_tokens c)\<rparr>;
          m1 = (if ac_thinking_enabled c
                then m\<lparr>thinking := BudgetTokens, thinking_budget := word_of_int (ac_thinking_budget c)\<rparr> else m)
      in s\<lparr>sc_working_directory := ac_working_directory c, sc_model := m1,
           sc_permission_mode := ac_permission_mode c\<rparr>)"

definition choose_api_key ::
  "('j, 'z) jlib_scheme \<Rightarrow> (string \<Rightarrow> string + 'j) \<Rightarrow> environment \<Rightarrow> string option \<Rightarrow> app_config \<Rightarrow> string" where
  "choose_api_key J rd env content c =
     (if ac_api_key c \<noteq> [] then ac_api_key c
      else if load_api_key_from_env env \<noteq> [] then load_api_key_from_env env
      else load_api_key_from_config J rd content)"

definition configured_client :: "app_config \<Rightarrow> string \<Rightarrow> bool \<Rightarrow> client" where
  "configured_client c key curl_ok =
     (new_client key curl_ok)\<lparr>cl_base_url := ac_base_url c, cl_timeout_seconds := ac_timeout_seconds c\<rparr>"

definition new_engine ::
  "app_config \<Rightarrow> session_config \<Rightarrow> client \<Rightarrow> 'w tool list \<Rightarrow> string list \<Rightarrow> 'w \<Rightarrow> string \<Rightarrow>
   ('j, client, 'w) engine" where
  "new_engine c session cl tools order w out =
     \<lparr>qe_messages = [], qe_aborted = False, qe_max_iterations = ac_max_tool_iterations c,
      qe_working_directory = sc_working_directory session, qe_session = session, qe_context = new_builder,
      qe_tools = foldl (\<lambda>r t. register_tool (Some t) r) Map.empty tools, qe_tool_order = order,
      qe_costs = new_tracker, qe_client = cl, qe_world = w, qe_stdout = out, qe_delivered = [], qe_reads = 0\<rparr>"

definition no_key_message :: string where
  "no_key_message = line ''Error: No API key found.'' @
     line ''Set ANTHROPIC_API_KEY environment variable or use --api-key flag.''"

text \<open>\<open>fresh\<close> is a new \<open>AppState\<close>; \<open>order\<close> is the iteration order of the registry.\<close>

definition initialize ::
  "('j, 'z) jlib_scheme \<Rightarrow> (string \<Rightarrow> string + 'j) \<Rightarrow> environment \<Rightarrow> string option \<Rightarrow> bool \<Rightarrow>
   'w app_state \<Rightarrow> 'w tool list \<Rightarrow> string list \<Rightarrow> app_config \<Rightarrow>
   ('j, client, 'w) application \<Rightarrow> ('j, client, 'w) application" where
  "initialize J rd env content curl_ok fresh tools order config a =
     (if ap_initialized a then a
      else
        let session = configured_session config (as_session fresh);
            a1 = a\<lparr>ap_config := config, ap_state := fresh\<lparr>as_session := session\<rparr>\<rparr>;
            key = choose_api_key J rd env content config
        in if key = [] then complain no_key_message a1
           else a1\<lparr>ap_engine := new_engine config session (configured_client config key curl_ok) tools order
                  (qe_world (ap_engine a)) (qe_stdout (ap_engine a)),
                  ap_initialized := True\<rparr>)"

section \<open>Messages\<close>

definition status_text :: "(rat \<Rightarrow> string) \<Rightarrow> rat \<Rightarrow> token_usage \<Rightarrow> cost_tracker \<Rightarrow> string" where
  "status_text show_cost cost usage ct =
     [CHR 0x0A, CHR 0xF0, CHR 0x9F, CHR 0x93, CHR 0x8A] @ line '' Session Stats'' @
     line (''  Tokens: '' @ int_to_string (sint (total_input usage)) @ '' in, '' @
       int_to_string (sint (output_tokens usage)) @ '' out'') @
     line (''  Cost: $'' @ show_cost cost) @
     line (''  API calls: '' @ int_to_string (sint (ct_api_calls ct))) @
     line (''  Tool calls: '' @ int_to_string (sint (ct_tool_calls ct)))"

definition print_status ::
  "(rat \<Rightarrow> string) \<Rightarrow> ('j, 'c, 'w) application \<Rightarrow> cpp_exn + ('j, 'c, 'w) application" where
  "print_status show_cost a =
     bind_exn (total_cost_usd (qe_costs (ap_engine a))) (\<lambda>(cost, ct).
     bind_exn (total_usage ct) (\<lambda>(usage, ct1).
       Inr (say (status_text show_cost cost usage ct1) a)))"

definition rule_of :: "string \<Rightarrow> string \<Rightarrow> string" where
  "rule_of left right = left @ concat (replicate 39 [CHR 0xE2, CHR 0x95, CHR 0x90]) @ right"

definition banner :: "string \<Rightarrow> nat \<Rightarrow> string" where
  "banner model tools =
     (let side = [CHR 0xE2, CHR 0x95, CHR 0x91] in
      [CHR 0x0A] @ line (rule_of [CHR 0xE2, CHR 0x95, CHR 0x94] [CHR 0xE2, CHR 0x95, CHR 0x97]) @
      line (side @ ''     Claude Code C++ v0.1.0              '' @ side) @
      line (side @ ''     AI Coding Assistant                  '' @ side) @
      line (rule_of [CHR 0xE2, CHR 0x95, CHR 0x9A] [CHR 0xE2, CHR 0x95, CHR 0x9D]) @ [CHR 0x0A] @
      line (''Model: '' @ model) @ line (''Tools: '' @ nat_to_string tools @ '' registered'') @
      line ''Type /help for commands, /quit to exit'' @ [CHR 0x0A])"

definition help_text :: string where
  "help_text = line ''Commands:'' @ line ''  /help     - Show this help'' @ line ''  /quit     - Exit'' @
     line ''  /clear    - Clear conversation'' @ line ''  /status   - Show session stats'' @
     line ''  /model    - Show current model'' @ line ''  /tools    - List available tools'' @
     line ''  /compact  - Compact context''"

definition warning_sign :: string where
  "warning_sign = [CHR 0x0A, CHR 0xE2, CHR 0x9A, CHR 0xA0]"

definition check_mark :: string where
  "check_mark = [CHR 0xE2, CHR 0x9C, CHR 0x93]"

definition tools_text :: "('j, 'c, 'w) engine \<Rightarrow> string" where
  "tools_text s = concat (map (\<lambda>n. ''  '' @ n @ '' '' @ [CHR 0xE2, CHR 0x80, CHR 0x94] @ '' '' @
     line (case find_tool (qe_tools s) n of None \<Rightarrow> [] | Some t \<Rightarrow> t_description t)) (qe_tool_order s))"

section \<open>One line of the loop\<close>

text \<open>The slash commands: whether the loop goes on, and the application after it.\<close>

definition slash_command ::
  "(rat \<Rightarrow> string) \<Rightarrow> string \<Rightarrow> ('j, 'c, 'w) application \<Rightarrow> cpp_exn + bool \<times> ('j, 'c, 'w) application" where
  "slash_command show_cost input a =
     (if input = ''/quit'' \<or> input = ''/exit'' \<or> input = ''/q'' then Inr (False, say (line ''Goodbye!'') a)
      else if input = ''/help'' \<or> input = ''/h'' then Inr (True, say help_text a)
      else if input = ''/clear''
      then Inr (True, say (check_mark @ line '' Conversation cleared'') (a\<lparr>ap_engine := clear_history (ap_engine a)\<rparr>))
      else if input = ''/status'' then bind_exn (print_status show_cost a) (\<lambda>a1. Inr (True, a1))
      else if input = ''/model'' then Inr (True, say (line (''Model: '' @ ac_model_id (ap_config a))) a)
      else if input = ''/tools'' then Inr (True, say (tools_text (ap_engine a)) a)
      else if input = ''/compact''
      then (case compact 20 (ap_engine a) of
          (removed, s) \<Rightarrow>
            Inr (True, say (check_mark @
              (if removed > 0
               then '' Compacted: removed '' @ nat_to_string removed @ '' messages, '' @
                 line (nat_to_string (length (qe_messages s)) @ '' remaining'')
               else '' Context already compact ('' @ line (nat_to_string (length (qe_messages s)) @ '' messages)'')))
              (a\<lparr>ap_engine := s\<rparr>)))
      else Inr (True, say (line (''Unknown command: '' @ input)) a))"

definition run_query ::
  "('j, 'z) jlib_scheme \<Rightarrow> ('j, 'c) repl_env \<Rightarrow> nat \<Rightarrow> string \<Rightarrow> ('j, 'c, 'w) application \<Rightarrow>
   ((cpp_exn + query_response) \<times> ('j, 'c, 'w) application) option" where
  "run_query J R n input a =
     map_option (\<lambda>(r, s). (r, a\<lparr>ap_engine := s\<rparr>))
       (execute J (rn_host R n) (rn_engine R n) (rn_junk R) input (ap_engine a))"

text \<open>The turn is counted before the query and its tokens after it.\<close>

definition query_line ::
  "('j, 'z) jlib_scheme \<Rightarrow> ('j, 'c) repl_env \<Rightarrow> nat \<Rightarrow> string \<Rightarrow> ('j, 'c, 'w) application \<Rightarrow>
   (cpp_exn + bool \<times> ('j, 'c, 'w) application) option" where
  "query_line J R n input a =
     (case run_query J R n input (a\<lparr>ap_state := increment_turns (rn_now R n) (ap_state a)\<rparr>) of
        None \<Rightarrow> None
      | Some (Inl e, a1) \<Rightarrow> Some (Inl e)
      | Some (Inr r, a1) \<Rightarrow>
          (let a2 = a1\<lparr>ap_state := update_stats (qr_usage r) (rn_now R n) (ap_state a1)\<rparr>;
               a3 = (if text_content (qr_message r) \<noteq> [] then say [CHR 0x0A] a2 else a2);
               a4 = (if qr_stop_reason r = ''error'' then complain (warning_sign @ line '' Error occurred'') a3 else a3)
           in Some (Inr (True, a4))))"

definition handle_line ::
  "('j, 'z) jlib_scheme \<Rightarrow> ('j, 'c) repl_env \<Rightarrow> nat \<Rightarrow> string \<Rightarrow> ('j, 'c, 'w) application \<Rightarrow>
   (cpp_exn + bool \<times> ('j, 'c, 'w) application) option" where
  "handle_line J R n input a =
     (if input = [] then Some (Inr (True, a))
      else if hd input = CHR ''/'' then Some (slash_command (rn_cost R) input a)
      else query_line J R n input a)"

section \<open>The loop\<close>

text \<open>Whether a signal has come since the last look, and the line typed, \<open>None\<close> at the end.\<close>

record repl_input =
  ri_interrupted :: bool
  ri_line :: "string option"

definition interrupt_message :: "('j, 'c, 'w) application \<Rightarrow> string" where
  "interrupt_message a =
     warning_sign @ line (if qe_aborted (ap_engine a) then '' Query already in progress, waiting...''
       else '' Use Ctrl+C again to force exit'')"

definition prompt_mark :: string where
  "prompt_mark = [CHR 0xE2, CHR 0x9D, CHR 0xAF] @ '' ''"

fun repl ::
  "('j, 'z) jlib_scheme \<Rightarrow> ('j, 'c) repl_env \<Rightarrow> nat \<Rightarrow> repl_input list \<Rightarrow> ('j, 'c, 'w) application \<Rightarrow>
   (cpp_exn + ('j, 'c, 'w) application) option" where
  "repl J R n [] a = Some (Inr (say prompt_mark a))"
| "repl J R n (i # inputs) a =
     (let a1 = (if ri_interrupted i then say (interrupt_message a) a else a); a2 = say prompt_mark a1
      in case ri_line i of
           None \<Rightarrow> Some (Inr a2)
         | Some l \<Rightarrow>
             (case handle_line J R n (trim l) a2 of
                None \<Rightarrow> None
              | Some (Inl e) \<Rightarrow> Some (Inl e)
              | Some (Inr (go_on, a3)) \<Rightarrow> if go_on then repl J R (Suc n) inputs a3 else Some (Inr a3)))"

definition not_initialized :: string where
  "not_initialized = line ''Application not initialized''"

definition run_repl ::
  "('j, 'z) jlib_scheme \<Rightarrow> ('j, 'c) repl_env \<Rightarrow> repl_input list \<Rightarrow> ('j, 'c, 'w) application \<Rightarrow>
   (cpp_exn + int \<times> ('j, 'c, 'w) application) option" where
  "run_repl J R inputs a =
     (if \<not> ap_initialized a then Some (Inr (1, complain not_initialized a))
      else map_option (map_sum id (\<lambda>b. (0, b)))
        (repl J R 0 inputs
          ((say (banner (ac_model_id (ap_config a)) (length (qe_tool_order (ap_engine a)))) a)\<lparr>ap_running := True\<rparr>)))"

definition run_prompt ::
  "('j, 'z) jlib_scheme \<Rightarrow> ('j, 'c) repl_env \<Rightarrow> string \<Rightarrow> ('j, 'c, 'w) application \<Rightarrow>
   (cpp_exn + int \<times> ('j, 'c, 'w) application) option" where
  "run_prompt J R prompt a =
     (if \<not> ap_initialized a then Some (Inr (1, complain not_initialized a))
      else case run_query J R 0 prompt a of
        None \<Rightarrow> None
      | Some (Inl e, a1) \<Rightarrow> Some (Inl e)
      | Some (Inr r, a1) \<Rightarrow>
          (let a2 = a1\<lparr>ap_state := increment_turns (rn_now R 0) (update_stats (qr_usage r) (rn_now R 0) (ap_state a1))\<rparr>
           in Some (bind_exn (print_status (rn_cost R) (say (line (text_content (qr_message r))) a2))
                (\<lambda>a3. Inr (0, a3)))))"

definition shutdown :: "('j, 'c, 'w) application \<Rightarrow> ('j, 'c, 'w) application" where
  "shutdown a =
     (if \<not> ap_initialized a then a
      else a\<lparr>ap_running := False, ap_engine := engine_abort (ap_engine a), ap_initialized := False\<rparr>)"

definition version_text :: string where
  "version_text = line ''claude-code-cpp v0.1.0''"

fun wants_version :: "string list \<Rightarrow> bool" where
  "wants_version [] = False"
| "wants_version (arg # args) =
     (if arg = ''-V'' \<or> arg = ''--version'' then True
      else if arg = ''-h'' \<or> arg = ''--help'' then False else wants_version args)"

text \<open>
  \<open>cli\<close> is what parsing the command line ends in: a configuration, or the exit code of one of
  the exceptions \<open>run\<close> catches.
\<close>

definition run ::
  "('j, 'z) jlib_scheme \<Rightarrow> ('j, 'c) repl_env \<Rightarrow> (app_config \<Rightarrow> ('j, 'c, 'w) application \<Rightarrow> ('j, 'c, 'w) application) \<Rightarrow>
   string list \<Rightarrow> (int + app_config) \<Rightarrow> repl_input list \<Rightarrow> ('j, 'c, 'w) application \<Rightarrow>
   (cpp_exn + int \<times> ('j, 'c, 'w) application) option" where
  "run J R init args cli inputs a =
     (if wants_version args then Some (Inr (0, say version_text a))
      else case cli of
        Inl code \<Rightarrow> Some (Inr (code, a))
      | Inr config \<Rightarrow>
          (let a1 = init config a in
           if \<not> ap_initialized a1 then Some (Inr (1, a1))
           else map_option (map_sum id (\<lambda>(code, b). (code, shutdown b)))
             (if ac_prompt config \<noteq> [] then run_prompt J R (ac_prompt config) a1 else run_repl J R inputs a1)))"

section \<open>Up to what is printed\<close>

definition redirect_app :: "string \<Rightarrow> ('j, 'c, 'w) application \<Rightarrow> ('j, 'c, 'w) application" where
  "redirect_app out a = a\<lparr>ap_engine := redirect out (ap_engine a)\<rparr>"

definition same_app :: "('j, 'c, 'w) application \<Rightarrow> ('j, 'c, 'w) application \<Rightarrow> bool" where
  "same_app a b = (\<exists>out. b = redirect_app out a)"

definition same_result ::
  "(cpp_exn + bool \<times> ('j, 'c, 'w) application) option \<Rightarrow> (cpp_exn + bool \<times> ('j, 'c, 'w) application) option \<Rightarrow> bool" where
  "same_result x y = (\<exists>out. y = map_option (map_sum id (map_prod id (redirect_app out))) x)"

lemma redirect_app_twice [simp]: "redirect_app o1 (redirect_app o2 a) = redirect_app o1 a"
  by (simp add: redirect_app_def redirect_def)

lemma redirect_app_self: "redirect_app (qe_stdout (ap_engine a)) a = a"
  by (simp add: redirect_app_def redirect_def)

lemma same_app_refl [simp]: "same_app a a"
  unfolding same_app_def using redirect_app_self by metis

lemma same_app_sym: "same_app a b \<Longrightarrow> same_app b a"
  unfolding same_app_def using redirect_app_self redirect_app_twice by metis

lemma same_app_trans: "same_app a b \<Longrightarrow> same_app b c \<Longrightarrow> same_app a c"
  unfolding same_app_def by (metis redirect_app_twice)

lemma say_redirect: "say s a = redirect_app (qe_stdout (ap_engine a) @ s) a"
  by (simp add: say_def redirect_app_def redirect_def)

lemma same_app_say [simp]: "same_app (say s a) b = same_app a b" "same_app a (say s b) = same_app a b"
  unfolding say_redirect by (metis redirect_app_twice same_app_def redirect_app_self)+

lemma redirect_app_simps [simp]:
  "ap_engine (redirect_app out a) = redirect out (ap_engine a)"
  "ap_state (redirect_app out a) = ap_state a" "ap_config (redirect_app out a) = ap_config a"
  "ap_stderr (redirect_app out a) = ap_stderr a" "ap_initialized (redirect_app out a) = ap_initialized a"
  "(redirect_app out a)\<lparr>ap_state := st\<rparr> = redirect_app out (a\<lparr>ap_state := st\<rparr>)"
  "complain m (redirect_app out a) = redirect_app out (complain m a)"
  by (simp_all add: redirect_app_def complain_def)

lemma say_redirected: "say t (redirect_app out a) = redirect_app (out @ t) a"
  by (simp add: say_def redirect_app_def redirect_def)

lemma redirect_say: "redirect_app out (say t a) = redirect_app out a"
  by (simp add: say_redirect)

lemma same_result_Inr:
  "same_app a b \<Longrightarrow> same_result (Some (Inr (go_on, a))) (Some (Inr (go_on, b)))"
  by (auto simp: same_result_def same_app_def)

lemma complain_say [simp]: "complain m (say s a) = say s (complain m a)"
  by (simp add: complain_def say_def)

lemma branch_same:
  "\<exists>out. y1 = f out x1 \<Longrightarrow> \<exists>out. y2 = f out x2 \<Longrightarrow> \<exists>out. (if b then y1 else y2) = f out (if b then x1 else x2)"
  by simp

lemma branch_to: "\<exists>out. y1 = f out \<Longrightarrow> \<exists>out. y2 = f out \<Longrightarrow> \<exists>out. (if b then y1 else y2) = f out"
  by simp

lemma slash_same: "\<exists>out'. slash_command show_cost l (redirect_app out a) =
    map_sum id (map_prod id (redirect_app out')) (slash_command show_cost l a)"
proof -
  have engine: "(redirect_app out a)\<lparr>ap_engine := s\<rparr> = a\<lparr>ap_engine := s\<rparr>" for s
    by (simp add: redirect_app_def)
  have into: "a\<lparr>ap_engine := redirect out s\<rparr> = redirect_app out (a\<lparr>ap_engine := s\<rparr>)" for s
    by (simp add: redirect_app_def)
  have history: "clear_history (redirect out s) = redirect out (clear_history s)"
    and comp: "compact 20 (redirect out s) = (fst (compact 20 s), redirect out (snd (compact 20 s)))" for s
    by (simp_all add: clear_history_def compact_def redirect_def Let_def)
  have status: "\<exists>out'. bind_exn (print_status show_cost (redirect_app out a)) (\<lambda>a1. Inr (True, a1)) =
      map_sum id (map_prod id (redirect_app out')) (bind_exn (print_status show_cost a) (\<lambda>a1. Inr (True, a1)))"
    by (cases "total_cost_usd (qe_costs (ap_engine a))"; cases "total_usage (snd (projr (total_cost_usd (qe_costs (ap_engine a)))))")
      (auto simp: print_status_def say_redirected redirect_say)
  have tools: "tools_text (redirect out s) = tools_text s" for s by (simp add: tools_text_def)
  show ?thesis
    unfolding slash_command_def
    apply (intro branch_same status)
    apply (simp_all add: say_redirected redirect_say engine into history comp tools case_prod_unfold)
    apply blast+
    done
qed

lemma query_same:
  "same_app a b \<Longrightarrow> same_result (query_line J R n l a) (query_line J R n l b)"
proof -
  assume "same_app a b"
  then obtain out where b: "b = redirect_app out a" by (auto simp: same_app_def)
  let ?a = "a\<lparr>ap_state := increment_turns (rn_now R n) (ap_state a)\<rparr>"
  obtain out' where e: "execute J (rn_host R n) (rn_engine R n) (rn_junk R) l (redirect out (ap_engine a)) =
      map_option (\<lambda>(r, s'). (r, redirect out' s'))
        (execute J (rn_host R n) (rn_engine R n) (rn_junk R) l (ap_engine a))"
    using execute_out by blast
  have into: "(redirect_app out x)\<lparr>ap_engine := redirect out' s\<rparr> = redirect_app out' (x\<lparr>ap_engine := s\<rparr>)" for x s
    by (simp add: redirect_app_def)
  show ?thesis
  proof (cases "execute J (rn_host R n) (rn_engine R n) (rn_junk R) l (ap_engine a)")
    case None
    with e show ?thesis by (simp add: query_line_def run_query_def b same_result_def)
  next
    case (Some rs)
    obtain r s where rs: "rs = (r, s)" by (rule prod.exhaust)
    show ?thesis
    proof (cases r)
      case (Inl x)
      with e Some rs show ?thesis by (simp add: query_line_def run_query_def b same_result_def)
    next
      case (Inr resp)
      with e Some rs show ?thesis
        by (auto simp: query_line_def run_query_def b into same_result_def Let_def say_redirected redirect_say)
    qed
  qed
qed

lemma handle_same: "same_app a b \<Longrightarrow> same_result (handle_line J R n l a) (handle_line J R n l b)"
proof -
  assume same: "same_app a b"
  then obtain out where b: "b = redirect_app out a" by (auto simp: same_app_def)
  have "same_result (Some (slash_command (rn_cost R) l a)) (Some (slash_command (rn_cost R) l b))"
    using slash_same [of "rn_cost R" l out a] by (auto simp: same_result_def b)
  with query_same [OF same, of J R n l] same_result_Inr [OF same, of True] show ?thesis
    by (simp add: handle_line_def)
qed

lemma repl_same:
  "map ri_line is = map ri_line js \<Longrightarrow> same_app a b \<Longrightarrow>
   \<exists>out. repl J R n js b = map_option (map_sum id (redirect_app out)) (repl J R n is a)"
proof (induction J R n "is" a arbitrary: js b rule: repl.induct)
  case (1 J R n a)
  then have "js = []" by simp
  moreover obtain out where "b = redirect_app out a" using "1.prems"(2) by (auto simp: same_app_def)
  ultimately show ?case by (auto simp: say_redirected redirect_say)
next
  case (2 J R n i "is" a)
  then obtain j js' where js: "js = j # js'" "ri_line j = ri_line i" "map ri_line is = map ri_line js'"
    by (cases js) auto
  define a2 b2 where "a2 = say prompt_mark (if ri_interrupted i then say (interrupt_message a) a else a)"
    and "b2 = say prompt_mark (if ri_interrupted j then say (interrupt_message b) b else b)"
  have same: "same_app a2 b2" using "2.prems"(2) by (simp add: a2_def b2_def)
  have step: "repl J R n (i # is) a = (case ri_line i of None \<Rightarrow> Some (Inr a2)
      | Some l \<Rightarrow> (case handle_line J R n (trim l) a2 of None \<Rightarrow> None | Some (Inl e) \<Rightarrow> Some (Inl e)
        | Some (Inr (go_on, a3)) \<Rightarrow> if go_on then repl J R (Suc n) is a3 else Some (Inr a3)))"
    "repl J R n js b = (case ri_line i of None \<Rightarrow> Some (Inr b2)
      | Some l \<Rightarrow> (case handle_line J R n (trim l) b2 of None \<Rightarrow> None | Some (Inl e) \<Rightarrow> Some (Inl e)
        | Some (Inr (go_on, a3)) \<Rightarrow> if go_on then repl J R (Suc n) js' a3 else Some (Inr a3)))"
    by (simp_all only: a2_def b2_def js(1,2) repl.simps Let_def)
  show ?case
  proof (cases "ri_line i")
    case None
    then show ?thesis using same step by (auto simp: same_app_def)
  next
    case (Some l)
    obtain out where h: "handle_line J R n (trim l) b2 =
        map_option (map_sum id (map_prod id (redirect_app out))) (handle_line J R n (trim l) a2)"
      using handle_same [OF same] unfolding same_result_def by blast
    show ?thesis
    proof (cases "handle_line J R n (trim l) a2")
      case None
      with h step Some show ?thesis by simp
    next
      case res: (Some r)
      show ?thesis
      proof (cases r)
        case (Inl e)
        with h step Some res show ?thesis by simp
      next
        case (Inr ga)
        obtain go_on a3 where ga: "ga = (go_on, a3)" by (rule prod.exhaust)
        have "same_app a3 (redirect_app out a3)" by (auto simp: same_app_def)
        from "2.IH" [OF refl refl Some res [unfolded a2_def] Inr ga [symmetric] _ js(3) this] h step Some res Inr ga a2_def
        show ?thesis by (cases go_on) auto
      qed
    qed
  qed
qed

text \<open>
  C6: An interrupt by the user changes what is printed and nothing else. Whatever signals come, the
  loop handles the same lines, runs the same queries to the same ends and stops where it would
  have stopped without them; the message that a second one forces an exit is not true.
\<close>

theorem interrupts_only_print:
  assumes "map ri_line quiet = map ri_line inputs" and "\<forall>i \<in> set quiet. \<not> ri_interrupted i"
  shows "\<exists>out. repl J R n inputs a = map_option (map_sum id (redirect_app out)) (repl J R n quiet a)"
  using repl_same [OF assms(1) same_app_refl] .

text \<open>
  A line that starts with a slash runs no query and counts no turn. Three names end the loop;
  \<open>/clear\<close> and \<open>/compact\<close> change the conversation of the engine, and every other one, known or
  not, changes nothing but the output.
\<close>

theorem slash_commands:
  assumes "l \<noteq> []" and "hd l = CHR ''/''" and "\<not> ct_locked (qe_costs (ap_engine a))"
  shows "\<exists>out. handle_line J R n l a = Some (Inr (l \<notin> {''/quit'', ''/exit'', ''/q''},
    redirect_app out (a\<lparr>ap_engine :=
      (if l = ''/clear'' then clear_history (ap_engine a)
       else if l = ''/compact'' then snd (compact 20 (ap_engine a)) else ap_engine a)\<rparr>)))"
proof -
  have "\<exists>out. print_status (rn_cost R) a = Inr (redirect_app out a)"
    using assms(3) by (auto simp: print_status_def total_cost_usd_def total_usage_def locked_def say_redirect)
  then have status: "\<exists>out. bind_exn (print_status (rn_cost R) a) (\<lambda>a1. Inr (True, a1)) = Inr (True, redirect_app out a)"
    by auto
  have self: "\<exists>out. a = redirect_app out a" "a\<lparr>ap_engine := ap_engine a\<rparr> = a"
    using redirect_app_self [of a] by (metis, simp)
  have "\<exists>out. slash_command (rn_cost R) l a = Inr (l \<notin> {''/quit'', ''/exit'', ''/q''},
    redirect_app out (a\<lparr>ap_engine :=
      (if l = ''/clear'' then clear_history (ap_engine a)
       else if l = ''/compact'' then snd (compact 20 (ap_engine a)) else ap_engine a)\<rparr>))"
  proof -
    consider (quit) "l = ''/quit'' \<or> l = ''/exit'' \<or> l = ''/q''" | (clear) "l = ''/clear''" | (compact) "l = ''/compact''"
      | (other) "\<not> (l = ''/quit'' \<or> l = ''/exit'' \<or> l = ''/q'')" "l \<noteq> ''/clear''" "l \<noteq> ''/compact''" by blast
    then show ?thesis
    proof cases
      case quit
      then show ?thesis by (elim disjE) (simp_all add: slash_command_def say_redirect self, blast+)
    next
      case clear
      then show ?thesis by (simp add: slash_command_def say_redirect, blast)
    next
      case compact
      then show ?thesis by (simp add: slash_command_def say_redirect case_prod_unfold, blast)
    next
      case other
      then have "l \<notin> {''/quit'', ''/exit'', ''/q''}" by simp
      then show ?thesis
        unfolding slash_command_def if_not_P [OF other(1)] if_not_P [OF other(2)] if_not_P [OF other(3)] self
        by (intro branch_to) (use status in \<open>simp_all add: say_redirect, blast+\<close>)
    qed
  qed
  then show ?thesis using assms(1,2) by (simp add: handle_line_def)
qed

text \<open>
  Initialization takes the key of the configuration, then the one of the environment, then the one
  of the configuration file: the first that is not empty. Without one the application says so on
  the error stream and stays uninitialized; it never starts with an empty key.
\<close>

theorem first_key_wins:
  assumes "\<not> ap_initialized a"
    and "keys = filter (\<lambda>k. k \<noteq> []) [ac_api_key config, load_api_key_from_env env, load_api_key_from_config J rd content]"
  shows "ap_initialized (initialize J rd env content curl_ok fresh tools order config a) = (keys \<noteq> []) \<and>
    (keys \<noteq> [] \<longrightarrow>
      cl_api_key (qe_client (ap_engine (initialize J rd env content curl_ok fresh tools order config a))) = hd keys) \<and>
    ap_stderr (initialize J rd env content curl_ok fresh tools order config a) =
      ap_stderr a @ (if keys = [] then no_key_message else [])"
  by (simp add: assms initialize_def Let_def choose_api_key_def complain_def new_engine_def
      configured_client_def new_client_def)

definition sample_fresh :: "unit app_state" where
  "sample_fresh = \<lparr>as_messages = [], as_session = sample_session ''/w'', as_stats = fresh_stats 0,
     as_costs = new_tracker, as_callbacks = []\<rparr>"

definition idle_app :: "(jv, client, unit) application" where
  "idle_app = \<lparr>ap_config = default_app_config,
     ap_engine = new_engine default_app_config (sample_session ''/w'') (new_client [] True) [] [] () [],
     ap_state = sample_fresh, ap_stderr = [], ap_initialized = False, ap_running = False\<rparr>"

lemma first_key_wins_witness:
  "cl_api_key (qe_client (ap_engine (initialize sample_json (\<lambda>s. Inl []) [''ANTHROPIC_API_KEY'' \<mapsto> ''k'']
     None True sample_fresh [] [] default_app_config idle_app))) = ''k''"
  using first_key_wins [of idle_app _ default_app_config "[''ANTHROPIC_API_KEY'' \<mapsto> ''k'']" sample_json
      "\<lambda>s. Inl []" None True sample_fresh "[]" "[]", OF _ refl]
  by (simp add: idle_app_def default_app_config_def load_api_key_from_env_def)

definition sample_app :: "(jv, unit, world) application" where
  "sample_app = \<lparr>ap_config = default_app_config, ap_engine = sample_world_engine,
     ap_state = \<lparr>as_messages = [], as_session = sample_session ''/w'', as_stats = fresh_stats 0,
       as_costs = new_tracker, as_callbacks = []\<rparr>,
     ap_stderr = [], ap_initialized = True, ap_running = False\<rparr>"

definition sample_repl :: "(jv, unit) repl_env" where
  "sample_repl = \<lparr>rn_host = \<lambda>n. sample_host ''/w'', rn_engine = \<lambda>n. sample_env, rn_junk = User,
     rn_now = int, rn_cost = \<lambda>c. ''0''\<rparr>"

lemma interrupts_only_print_witness:
  "\<exists>out. repl sample_json sample_repl 0
      [\<lparr>ri_interrupted = True, ri_line = Some ''hello''\<rparr>, \<lparr>ri_interrupted = True, ri_line = Some ''/q''\<rparr>] sample_app =
    map_option (map_sum id (redirect_app out)) (repl sample_json sample_repl 0
      [\<lparr>ri_interrupted = False, ri_line = Some ''hello''\<rparr>, \<lparr>ri_interrupted = False, ri_line = Some ''/q''\<rparr>] sample_app)"
  by (rule interrupts_only_print) simp_all

lemma slash_commands_witness:
  "\<exists>out. handle_line sample_json sample_repl 0 ''/clear'' sample_app =
     Some (Inr (True, redirect_app out (sample_app\<lparr>ap_engine := clear_history (ap_engine sample_app)\<rparr>)))"
  using slash_commands [of "''/clear''" sample_app sample_json sample_repl 0]
  by (simp add: sample_app_def sample_world_engine_def new_tracker_def)

end
