(* ===== verification/Conversation.thy ===== *)
theory Conversation
  imports Lifecycle
begin

text \<open>
  The conversation over a whole session: what the loop of the application
  (\<open>src/app/lifecycle.cpp\<close>), the engine (\<open>src/engine/query_engine.cpp\<close>) and the compaction keep of
  it together.
\<close>

section \<open>A well-formed conversation\<close>

text \<open>
  Each tool result belongs to a call of the message before it, and a message where the
  compaction may cut has none.
\<close>

definition conversation_ok :: "message list \<Rightarrow> bool" where
  "conversation_ok ms = (well_paired ms \<and> (\<forall>m\<in>set ms. clean_boundary m \<longrightarrow> result_ids m = []))"

text \<open>The API answers with no tool results; these come from the program.\<close>

definition answers_only :: "('j, 'c) engine_env \<Rightarrow> bool" where
  "answers_only E = (\<forall>n q c resp evs c'. ee_api E n q c = (Inr resp, evs, c') \<longrightarrow> result_ids (qr_message resp) = [])"

lemma well_paired_snoc:
  "well_paired (ms @ [m]) \<longleftrightarrow> well_paired ms \<and>
    (result_ids m \<noteq> [] \<longrightarrow> ms \<noteq> [] \<and> set (result_ids m) \<subseteq> set (call_ids (last ms)))"
proof -
  define Q where "Q ns i \<longleftrightarrow> (result_ids (ns ! i) \<noteq> [] \<longrightarrow>
      0 < i \<and> set (result_ids (ns ! i)) \<subseteq> set (call_ids (ns ! (i - 1))))" for ns i
  have "Q (ms @ [m]) i \<longleftrightarrow> Q ms i" if "i < length ms" for i
    using that by (cases i) (simp_all add: Q_def nth_append)
  then have "(\<forall>i<length ms. Q (ms @ [m]) i) \<longleftrightarrow> (\<forall>i<length ms. Q ms i)" by simp
  moreover have "Q (ms @ [m]) (length ms) \<longleftrightarrow>
      (result_ids m \<noteq> [] \<longrightarrow> ms \<noteq> [] \<and> set (result_ids m) \<subseteq> set (call_ids (last ms)))"
    by (cases ms rule: rev_cases) (simp_all add: Q_def nth_append)
  moreover have "well_paired ns \<longleftrightarrow> (\<forall>i<length ns. Q ns i)" for ns by (simp add: well_paired_def Q_def)
  ultimately show ?thesis by (simp add: All_less_Suc conj_commute)
qed

lemma conversation_ok_Nil [simp]: "conversation_ok []"
  by (simp add: conversation_ok_def well_paired_def)

lemma conversation_ok_plain: "conversation_ok ms \<Longrightarrow> result_ids m = [] \<Longrightarrow> conversation_ok (ms @ [m])"
  by (auto simp: conversation_ok_def well_paired_snoc)

lemma results_not_clean: "rs \<noteq> [] \<Longrightarrow> \<not> clean_boundary (create_tool_result_message now rs)"
  by (cases rs) (simp_all add: clean_boundary_def create_tool_result_message_def)

lemma conversation_ok_results:
  assumes "conversation_ok (ms @ [m])" and "rs \<noteq> []" and "prefix (map tr_tool_use_id rs) (call_ids m)"
  shows "conversation_ok (ms @ [m, create_tool_result_message now rs])"
proof -
  let ?r = "create_tool_result_message now rs"
  have "set (result_ids ?r) \<subseteq> set (call_ids m)"
    using assms(3) set_mono_prefix by fastforce
  then have "well_paired ((ms @ [m]) @ [?r])"
    using assms(1) by (simp only: well_paired_snoc conversation_ok_def) simp
  then show ?thesis using assms(1) results_not_clean [OF assms(2)] by (simp add: conversation_ok_def)
qed

lemma user_no_results [simp]: "result_ids (message_user now s) = []"
  by (simp add: result_ids_def message_user_def make_text_block_def empty_block_def)

section \<open>What keeps it\<close>

lemma run_loop_conversation:
  assumes "answers_only E" and "run_tool_call_loop E junk opts s = (res, s')" and "conversation_ok (qe_messages s)"
  shows "conversation_ok (qe_messages s')"
proof -
  obtain q s1 where loop: "tool_call_loop (nat (qe_max_iterations s)) E 0 opts (blank_response junk) s = (q, s1)"
    by fastforce
  have "conversation_ok (qe_messages s1)"
    using assms(1) tool_call_loop_history [of E conversation_ok, OF _ _ loop assms(3)]
      conversation_ok_plain conversation_ok_results unfolding answers_only_def by metis
  moreover have "qe_messages s' = qe_messages s1"
  proof -
    obtain a s2 where "read_abort E s1 = (a, s2)" by fastforce
    then show ?thesis
      using assms(2) loop read_abort_keeps [of E s1 a s2]
      by (cases q; cases a) (auto simp: run_tool_call_loop_def keeps_history_def)
  qed
  ultimately show ?thesis by simp
qed

lemma execute_conversation:
  assumes "answers_only E" and "execute J h E junk input s = Some (res, s')" and "conversation_ok (qe_messages s)"
  shows "conversation_ok (qe_messages s')"
proof -
  from assms(2) obtain opts s1 where
    b: "build_query_options J h (ee_now E (qe_reads s)) input s = Some (opts, s1)" and
    run: "run_tool_call_loop E junk opts s1 = (res, s')"
    by (auto simp: execute_def)
  have "qe_messages s1 = qe_messages s @ [message_user (ee_now E (qe_reads s)) input]"
    using b by (auto simp: build_query_options_def Let_def split: option.splits prod.splits)
  then have "conversation_ok (qe_messages s1)" using conversation_ok_plain [OF assms(3)] by simp
  from run_loop_conversation [OF assms(1) run this] show ?thesis .
qed

lemma compact_conversation:
  assumes "conversation_ok (qe_messages s)"
  shows "conversation_ok (qe_messages (snd (compact keep s)))"
proof -
  let ?ms = "qe_messages s" and ?k = "length (qe_messages s) - keep"
  let ?w = "walk_to_boundary (drop ?k ?ms)"
  show ?thesis
  proof (cases "length ?ms \<le> keep \<or> length ?ms \<le> ?k + ?w")
    case True
    then show ?thesis using assms by (auto simp: compact_def compact_messages_def Let_def)
  next
    case False
    then have "?w < length ?ms - ?k" by linarith
    then have "?w < length (drop ?k ?ms)" by (simp only: length_drop)
    from walk_to_boundary_found [OF this] have clean: "clean_boundary (?ms ! (?k + ?w))"
      using False by (simp add: nth_drop)
    have "?k + ?w < length ?ms" using False by linarith
    with clean assms have "result_ids (?ms ! (?k + ?w)) = []" by (simp add: conversation_ok_def)
    with \<open>?k + ?w < length ?ms\<close> assms have "conversation_ok (drop (?k + ?w) ?ms)"
      using well_paired_drop by (auto simp: conversation_ok_def dest: in_set_dropD)
    then show ?thesis
      using False \<open>?k + ?w < length ?ms\<close>
      by (simp only: compact_def compact_messages_def Let_def) simp
  qed
qed

lemma said_messages [simp]:
  "qe_messages (ap_engine (say t a)) = qe_messages (ap_engine a)"
  "qe_messages (ap_engine (complain t a)) = qe_messages (ap_engine a)"
  by (simp_all add: say_def complain_def)

lemma status_messages: "print_status sc a = Inr b \<Longrightarrow> qe_messages (ap_engine b) = qe_messages (ap_engine a)"
  by (auto simp: print_status_def bind_exn_def split: sum.splits prod.splits)

lemma slash_conversation:
  assumes "slash_command sc l a = Inr (go_on, b)" and "conversation_ok (qe_messages (ap_engine a))"
  shows "conversation_ok (qe_messages (ap_engine b))"
proof -
  have "qe_messages (ap_engine b) \<in>
      {qe_messages (ap_engine a), [], qe_messages (snd (compact 20 (ap_engine a)))}"
    using assms(1) status_messages [of sc a]
    unfolding slash_command_def clear_history_def bind_exn_def
    by (simp split: if_split_asm sum.splits prod.splits; force)
  with assms(2) compact_conversation show ?thesis by fastforce
qed

lemma line_conversation:
  assumes "answers_only (rn_engine R n)" and "handle_line J R n l a = Some (Inr (go_on, b))"
    and "conversation_ok (qe_messages (ap_engine a))"
  shows "conversation_ok (qe_messages (ap_engine b))"
proof -
  have "conversation_ok (qe_messages (ap_engine b))" if "query_line J R n l a = Some (Inr (go_on, b))"
    using that assms(1,3) execute_conversation
    by (fastforce simp: query_line_def run_query_def Let_def split: option.splits sum.splits prod.splits if_splits)
  with assms(2,3) slash_conversation show ?thesis
    by (auto simp: handle_line_def split: if_splits)
qed

lemma repl_conversation:
  "\<forall>n. answers_only (rn_engine R n) \<Longrightarrow> repl J R n inputs a = Some (Inr b) \<Longrightarrow>
   conversation_ok (qe_messages (ap_engine a)) \<Longrightarrow> conversation_ok (qe_messages (ap_engine b))"
proof (induction J R n inputs a rule: repl.induct)
  case (1 J R n a)
  then show ?case by auto
next
  case (2 J R n i inputs a)
  define a2 where "a2 = say prompt_mark (if ri_interrupted i then say (interrupt_message a) a else a)"
  have start: "conversation_ok (qe_messages (ap_engine a2))" using "2.prems"(3) by (simp add: a2_def)
  have step: "(case ri_line i of None \<Rightarrow> Some (Inr a2)
      | Some l \<Rightarrow> (case handle_line J R n (trim l) a2 of None \<Rightarrow> None | Some (Inl e) \<Rightarrow> Some (Inl e)
        | Some (Inr (go_on, a3)) \<Rightarrow> if go_on then repl J R (Suc n) inputs a3 else Some (Inr a3))) = Some (Inr b)"
    using "2.prems"(2) by (simp only: a2_def repl.simps Let_def)
  show ?case
  proof (cases "ri_line i")
    case None
    with step start show ?thesis by simp
  next
    case (Some l)
    with step obtain go_on a3 where h: "handle_line J R n (trim l) a2 = Some (Inr (go_on, a3))"
      by (auto split: option.splits sum.splits)
    with "2.prems"(1) start have ok: "conversation_ok (qe_messages (ap_engine a3))"
      using line_conversation by blast
    show ?thesis
    proof (cases go_on)
      case True
      then have "repl J R (Suc n) inputs a3 = Some (Inr b)" using step Some h by simp
      from "2.IH" [OF refl refl Some h [unfolded a2_def] refl refl True "2.prems"(1) this ok] show ?thesis .
    next
      case False
      with step Some h ok show ?thesis by simp
    qed
  qed
qed

text \<open>
  C2: A whole session. From an empty conversation, after whatever lines, commands, compactions,
  interrupts and aborted queries, each tool result in the conversation belongs to a call of the
  message before it, if the API itself sends no tool results.
\<close>

theorem session_conversation_paired:
  assumes "\<forall>n. answers_only (rn_engine R n)" and "repl J R n inputs a = Some (Inr b)"
    and "qe_messages (ap_engine a) = []"
  shows "well_paired (qe_messages (ap_engine b))"
proof -
  have "conversation_ok (qe_messages (ap_engine b))" using repl_conversation [OF assms(1,2)] assms(3) by simp
  then show ?thesis by (simp add: conversation_ok_def)
qed

lemma sample_answers_only: "answers_only sample_env"
  by (simp add: answers_only_def sample_env_def sample_answer_def result_ids_def blank_response_def
      blank_message_def empty_block_def make_text_def)

lemma session_conversation_paired_witness:
  "\<exists>b. repl sample_json sample_repl 0
      [\<lparr>ri_interrupted = False, ri_line = Some ''/clear''\<rparr>, \<lparr>ri_interrupted = True, ri_line = Some ''/q''\<rparr>] sample_app =
      Some (Inr b) \<and> well_paired (qe_messages (ap_engine b))"
proof -
  have "trim ''/clear'' = ''/clear''" "trim ''/q'' = ''/q''" by code_simp+
  then obtain b where run: "repl sample_json sample_repl 0
      [\<lparr>ri_interrupted = False, ri_line = Some ''/clear''\<rparr>, \<lparr>ri_interrupted = True, ri_line = Some ''/q''\<rparr>] sample_app =
      Some (Inr b)"
    by (auto simp: handle_line_def slash_command_def Let_def split: prod.splits)
  have "\<forall>n. answers_only (rn_engine sample_repl n)" by (simp add: sample_repl_def sample_answers_only)
  from session_conversation_paired [OF this run] run show ?thesis
    by (simp add: sample_app_def sample_world_engine_def)
qed

end
