(* ===== verification/Cli.thy ===== *)
theory Cli
  imports Lifecycle
begin

text \<open>
  The command line: \<open>src/app/cli.h\<close>, \<open>cli.cpp\<close> and \<open>main.cpp\<close>. The options are a table for a library
  that parses them (CLI11), which is an argument: given the table, the arguments and the
  configuration so far it returns how the parsing ended and the configuration with what was
  parsed. The request for help and the errors are exceptions there, each with an exit code; zero
  is that of the exceptions that are a success.
\<close>

section \<open>Options\<close>

record cli_option =
  co_names :: string
  co_env :: "string option"
  co_range :: "(int \<times> int) option"
  co_flag :: bool
  co_configurable :: bool

definition plain_option :: "string \<Rightarrow> cli_option" where
  "plain_option names =
     \<lparr>co_names = names, co_env = None, co_range = None, co_flag = False, co_configurable = True\<rparr>"

definition flag_option :: "string \<Rightarrow> cli_option" where
  "flag_option names = (plain_option names)\<lparr>co_flag := True\<rparr>"

definition setup_cli :: "cli_option list" where
  "setup_cli =
     [(plain_option ''--api-key'')\<lparr>co_env := Some ''ANTHROPIC_API_KEY'', co_configurable := False\<rparr>,
      (plain_option ''--model,-m'')\<lparr>co_env := Some ''CLAUDE_CODE_MODEL''\<rparr>,
      (plain_option ''--base-url'')\<lparr>co_env := Some ''ANTHROPIC_BASE_URL''\<rparr>,
      (plain_option ''--max-tokens'')\<lparr>co_env := Some ''CLAUDE_CODE_MAX_TOKENS'', co_range := Some (1, 1000000)\<rparr>,
      (plain_option ''--timeout'')\<lparr>co_range := Some (1, 3600)\<rparr>,
      (plain_option ''--permission-mode,-p'')\<lparr>co_env := Some ''CLAUDE_CODE_PERMISSION_MODE''\<rparr>,
      flag_option ''--auto-compact'',
      (plain_option ''--max-iterations'')\<lparr>co_range := Some (1, 10000)\<rparr>,
      flag_option ''--thinking'',
      (plain_option ''--thinking-budget'')\<lparr>co_range := Some (1, 200000)\<rparr>,
      plain_option ''--theme,-t'', flag_option ''-v,--verbose'', flag_option ''--no-color,!--color'',
      plain_option ''prompt'']"

section \<open>Parsing\<close>

datatype cli_outcome = Parsed | Call_For_Help | Parse_Error int

type_synonym cli_parser = "cli_option list \<Rightarrow> string list \<Rightarrow> app_config \<Rightarrow> cli_outcome \<times> app_config"

record cli_env =
  ce_parser :: cli_parser
  ce_help :: string

text \<open>
  What \<open>run\<close> makes of \<open>parse_cli\<close>: an exit code or the configuration, and what was printed to
  both streams. An exception with exit code zero is a success; all others end in the code 1.
\<close>

type_synonym cli_result = "(int + app_config) \<times> string \<times> string"

definition exit_of :: "int \<Rightarrow> int" where
  "exit_of code = (if code = 0 then 0 else 1)"

text \<open>
  The loop before the parsing proper. An argument \<open>--help\<close> parses everything; if that does not end
  in the request for help but without an exception, the loop goes on.
\<close>

fun scan_arguments ::
  "cli_env \<Rightarrow> string list \<Rightarrow> string list \<Rightarrow> app_config \<Rightarrow> (int \<times> string) + app_config" where
  "scan_arguments C all [] c = Inr c"
| "scan_arguments C all (arg # args) c =
     (if arg = ''-V'' \<or> arg = ''--version'' then Inl (0, version_text)
      else if arg = ''-h'' \<or> arg = ''--help''
      then (case ce_parser C setup_cli all c of
              (Call_For_Help, c1) \<Rightarrow> Inl (0, line (ce_help C))
            | (Parse_Error code, c1) \<Rightarrow> Inl (exit_of code, [])
            | (Parsed, c1) \<Rightarrow> scan_arguments C all args c1)
      else scan_arguments C all args c)"

definition apply_color :: "app_config \<Rightarrow> app_config" where
  "apply_color c = (if ac_no_color c then c\<lparr>ac_color := False\<rparr> else c)"

definition parse_cli ::
  "('j, 'z) jlib_scheme \<Rightarrow> (string \<Rightarrow> string + 'j) \<Rightarrow> environment \<Rightarrow> string \<Rightarrow> string option \<Rightarrow>
   cli_env \<Rightarrow> string list \<Rightarrow> cli_result" where
  "parse_cli J rd env cwd content C args =
     (case App_Config.load J rd env cwd content of
        Inl e \<Rightarrow> (Inl 1, [], [])
      | Inr c \<Rightarrow>
          (case scan_arguments C args args c of
             Inl (code, out) \<Rightarrow> (Inl code, out, [])
           | Inr c1 \<Rightarrow>
               (case ce_parser C setup_cli args c1 of
                  (Parsed, c2) \<Rightarrow> (Inr (apply_color c2), [], [])
                | (Call_For_Help, c2) \<Rightarrow> (Inr (apply_color c2), [], [])
                | (Parse_Error code, c2) \<Rightarrow>
                    if code \<noteq> 0 then (Inl 1, [], line (ce_help C))
                    else (Inr (apply_color c2), [], []))))"

text \<open>\<open>main\<close>.\<close>

definition main_program ::
  "('j, 'z) jlib_scheme \<Rightarrow> (string \<Rightarrow> string + 'j) \<Rightarrow> environment \<Rightarrow> string \<Rightarrow> string option \<Rightarrow>
   cli_env \<Rightarrow> ('j, 'c) repl_env \<Rightarrow> (app_config \<Rightarrow> ('j, 'c, 'w) application \<Rightarrow> ('j, 'c, 'w) application) \<Rightarrow>
   string list \<Rightarrow> repl_input list \<Rightarrow> ('j, 'c, 'w) application \<Rightarrow>
   (cpp_exn + int \<times> ('j, 'c, 'w) application) option" where
  "main_program J rd env cwd content C R init args inputs a =
     (case parse_cli J rd env cwd content C args of
        (cli, out, err) \<Rightarrow>
          run J R init args cli inputs
            (if wants_version args then a else complain err (say out a)))"

section \<open>How the program ends before it starts\<close>

lemma version_wanted: "wants_version args \<Longrightarrow> run J R init args cli inputs a = Some (Inr (0, say version_text a))"
  by (simp add: run_def)

lemma scan_prints:
  "scan_arguments C all args c = Inl (code, out) \<Longrightarrow>
   (code = 0 \<or> code = 1) \<and> (out \<noteq> [] \<longrightarrow> code = 0 \<and> (out = version_text \<or> out = line (ce_help C)))"
  by (induction C all args c rule: scan_arguments.induct)
    (auto simp: exit_of_def split: if_splits prod.splits cli_outcome.splits)

text \<open>
  A limit in the environment that is no number ends the program with the code 1 before it has
  printed anything, whatever the arguments are: the configuration is loaded before they are read,
  and its exception is caught without a message. Only the request for the version is answered.
\<close>

theorem bad_limit_exits:
  assumes "env ''CLAUDE_CODE_MAX_TOKENS'' = Some v" and "stoi v = Inl e"
  shows "main_program J rd env cwd content C R init args inputs a =
    Some (Inr (if wants_version args then (0, say version_text a) else (1, a)))"
proof -
  have "App_Config.load J rd env cwd content = Inl (Stoi_Exn e)"
    using assms by (simp add: App_Config.load_def load_from_env_def Let_def)
  then have "parse_cli J rd env cwd content C args = (Inl 1, [], [])" by (simp add: parse_cli_def)
  moreover have "complain [] (say [] a) = a" by (simp add: complain_def say_def)
  ultimately show ?thesis by (simp add: main_program_def run_def)
qed

text \<open>
  Help that is asked for in another way than by the argument \<open>-h\<close> or \<open>--help\<close>, in a group of
  short flags for instance, is not given: the exception of the library has the exit code zero, so
  it is dropped and the program starts.
\<close>

theorem hidden_help_starts:
  assumes "App_Config.load J rd env cwd content = Inr c"
    and "set args \<inter> {''-V'', ''--version'', ''-h'', ''--help''} = {}"
    and "ce_parser C setup_cli args c = (Call_For_Help, c')"
  shows "parse_cli J rd env cwd content C args = (Inr (apply_color c'), [], [])"
proof -
  have "scan_arguments C all args c = Inr c" for all
    using assms(2) by (induction args) auto
  then show ?thesis by (simp add: parse_cli_def assms)
qed

text \<open>
  However the program ends, unless by an exception of the loop or by never ending: its exit code
  is zero or one.
\<close>

lemma map_sum_eq_Inr: "map_sum f g x = Inr y \<longleftrightarrow> (\<exists>z. x = Inr z \<and> y = g z)"
  by (cases x) auto

lemma run_codes:
  assumes "run J R init args cli inputs a = Some (Inr (code, b))" and "\<And>k. cli = Inl k \<Longrightarrow> k = 0 \<or> k = 1"
  shows "code = 0 \<or> code = 1"
proof -
  have prompt: "code = 0 \<or> code = 1" if "run_prompt J R p x = Some (Inr (code, y))" for p x code y
    using that by (auto simp: run_prompt_def bind_exn_def Let_def split: if_splits option.splits sum.splits prod.splits)
  have loop: "code = 0 \<or> code = 1" if "run_repl J R i x = Some (Inr (code, y))" for i x code y
    using that by (auto simp: run_repl_def map_sum_eq_Inr split: if_splits sum.splits)
  show ?thesis
    using assms
    by (auto simp: run_def Let_def map_sum_eq_Inr split: if_splits sum.splits dest: prompt loop)
qed

theorem exit_codes:
  assumes "main_program J rd env cwd content C R init args inputs a = Some (Inr (code, b))"
  shows "code = 0 \<or> code = 1"
proof -
  obtain cli out err where cli: "parse_cli J rd env cwd content C args = (cli, out, err)"
    by (rule prod_cases3)
  then have "\<And>k. cli = Inl k \<Longrightarrow> k = 0 \<or> k = 1"
    using scan_prints by (fastforce simp: parse_cli_def split: sum.splits prod.splits cli_outcome.splits if_splits)
  moreover have "run J R init args cli inputs (if wants_version args then a else complain err (say out a)) =
      Some (Inr (code, b))"
    using assms by (simp add: main_program_def cli)
  ultimately show ?thesis using run_codes by blast
qed

definition sample_cli :: cli_env where
  "sample_cli = \<lparr>ce_parser = (\<lambda>opts args c. (if args = [''-vh''] then Call_For_Help else Parsed, c)), ce_help = ''help''\<rparr>"

lemma bad_limit_exits_witness:
  "main_program sample_json (\<lambda>s. Inl []) [''CLAUDE_CODE_MAX_TOKENS'' \<mapsto> ''many''] ''/w'' None sample_cli sample_repl
     (\<lambda>c a. a) [''--help''] [] sample_app = Some (Inr (1, sample_app))"
proof -
  have "stoi ''many'' = Inl InvalidArgument" by code_simp
  then show ?thesis
    using bad_limit_exits [of "[''CLAUDE_CODE_MAX_TOKENS'' \<mapsto> ''many'']" "''many''" InvalidArgument
        sample_json "\<lambda>s. Inl []" "''/w''" None sample_cli sample_repl "\<lambda>c a. a" "[''--help'']" "[]" sample_app]
    by simp
qed

lemma hidden_help_starts_witness:
  "\<exists>c. parse_cli sample_json (\<lambda>s. Inl []) Map.empty ''/w'' None sample_cli [''-vh''] = (Inr c, [], [])"
proof -
  obtain c where "App_Config.load sample_json (\<lambda>s. Inl []) Map.empty ''/w'' None = Inr c"
    by (simp add: App_Config.load_def load_from_env_def Let_def)
  from hidden_help_starts [OF this, of "[''-vh'']" sample_cli c] show ?thesis by (simp add: sample_cli_def)
qed

lemma exit_codes_witness:
  "(1::int) = 0 \<or> (1::int) = 1"
  by (rule exit_codes [OF bad_limit_exits_witness])

end
