(* ===== verification/Mcp_Auth.thy ===== *)
theory Mcp_Auth
  imports App_Config
begin

text \<open>
  \<open>src/protocol/mcp/mcp_auth.h\<close> and \<open>mcp_auth.cpp\<close>: the token of an MCP server and the header made
  of it.
\<close>

record mcp_auth =
  mu_token :: string

definition new_mcp_auth :: mcp_auth where
  "new_mcp_auth = \<lparr>mu_token = []\<rparr>"

definition set_token :: "string \<Rightarrow> mcp_auth \<Rightarrow> mcp_auth" where
  "set_token token a = a\<lparr>mu_token := token\<rparr>"

definition token :: "mcp_auth \<Rightarrow> string option" where
  "token a = (if mu_token a = [] then None else Some (mu_token a))"

definition has_auth :: "mcp_auth \<Rightarrow> bool" where
  "has_auth a = (mu_token a \<noteq> [])"

definition auth_schemes :: "string list" where
  "auth_schemes = [''Bearer '', ''bearer '', ''Basic '', ''basic '']"

definition auth_header :: "mcp_auth \<Rightarrow> string" where
  "auth_header a =
     (if mu_token a = [] then []
      else if list_ex (\<lambda>scheme. prefix scheme (mu_token a)) auth_schemes then mu_token a
      else ''Bearer '' @ mu_token a)"

definition auth_headers :: "mcp_auth \<Rightarrow> string omap" where
  "auth_headers a = (if has_auth a then om_put ''Authorization'' (auth_header a) [] else [])"

definition load_token_from_env :: "environment \<Rightarrow> string \<Rightarrow> mcp_auth \<Rightarrow> bool \<times> mcp_auth" where
  "load_token_from_env env var a =
     (case env var of
        None \<Rightarrow> (False, a)
      | Some v \<Rightarrow> if v \<noteq> [] then (True, a\<lparr>mu_token := v\<rparr>) else (False, a))"

text \<open>
  There is a header exactly when there is a token, and it names a scheme; a header taken for a
  token is its own header.
\<close>

theorem auth_header_scheme:
  "(auth_headers a = [] \<longleftrightarrow> token a = None) \<and>
   (auth_headers a \<noteq> [] \<longrightarrow> om_get (auth_headers a) ''Authorization'' = Some (auth_header a) \<and>
      (\<exists>scheme \<in> set auth_schemes. prefix scheme (auth_header a)) \<and>
      auth_header (set_token (auth_header a) a) = auth_header a)"
  by (auto simp: auth_headers_def token_def has_auth_def auth_header_def auth_schemes_def set_token_def om_get_def)

end
