(* ===== verification/Path_Checks.thy ===== *)
theory Path_Checks
  imports Glob_Tool Files
begin

text \<open>
  The functions of \<open>src/util/file_utils.h\<close> on directories and on the place of a path: the check
  that a path is inside a directory, the listing of files by extension, writing with the
  directories before the file, and the size. A canonical absolute path is the list of its names;
  \<open>std::filesystem::weakly_canonical\<close> and the entries a directory iterator yields are arguments.
\<close>

section \<open>Inside a directory\<close>

text \<open>\<open>fs::path::lexically_relative\<close> of canonical absolute paths.\<close>

fun lexically_relative :: "string list \<Rightarrow> string list \<Rightarrow> string list" where
  "lexically_relative [] [] = [''.'']"
| "lexically_relative (x # p) (y # b) =
     (if x = y then lexically_relative p b else replicate (Suc (length b)) ''..'' @ x # p)"
| "lexically_relative p [] = p"
| "lexically_relative [] b = replicate (length b) ''..''"

definition path_text :: "string list \<Rightarrow> string" where
  "path_text names = join names ''/''"

definition is_path_within :: "(string \<Rightarrow> string list) \<Rightarrow> string \<Rightarrow> string \<Rightarrow> bool" where
  "is_path_within canonical path base =
     (let rel = path_text (lexically_relative (canonical path) (canonical base))
      in if length rel \<ge> 2 \<and> take 2 rel = ''..'' then False else rel \<noteq> [])"

section \<open>Listing, writing and sizes\<close>

definition list_files :: "(bool \<Rightarrow> string \<Rightarrow> dir_entry list option) \<Rightarrow> string \<Rightarrow> string list \<Rightarrow> bool \<Rightarrow> string list" where
  "list_files entries dir extensions recursive =
     (case entries recursive dir of
        None \<Rightarrow> []
      | Some es \<Rightarrow>
          map en_path (filter (\<lambda>e. en_regular e \<and>
            (extensions = [] \<or> path_extension (en_path e) \<in> set extensions)) es))"

definition write_file :: "fs_env \<Rightarrow> string \<Rightarrow> string \<Rightarrow> fsys \<Rightarrow> bool \<times> fsys" where
  "write_file e path content w =
     (if \<not> fe_temp_opens e then (False, w) else (True, write_stream e path content w))"

definition file_size_of :: "fsys \<Rightarrow> string \<Rightarrow> nat option" where
  "file_size_of w path = map_option (length \<circ> f_content) (w path)"

section \<open>What the check accepts\<close>

lemma relative_below: "lexically_relative (b @ p) b = (if p = [] then [''.''] else p)"
proof (induction b)
  case Nil
  then show ?case by (cases p) auto
qed auto

lemma relative_outside:
  "\<not> prefix b p \<Longrightarrow> \<exists>r. lexically_relative p b = ''..'' # r"
  by (induction p b rule: lexically_relative.induct) auto

lemma path_text_Cons: "path_text (n # ns) = n @ (if ns = [] then [] else ''/'' @ path_text ns)"
  by (cases ns) (simp_all add: path_text_def)

lemma name_before_slash:
  assumes "n \<noteq> []" and "CHR ''/'' \<notin> set n"
  shows "(take 2 (n @ CHR ''/'' # s) = ''..'') = prefix ''..'' n"
proof -
  obtain c n' where n: "n = c # n'" using assms(1) by (cases n) auto
  show ?thesis using assms(2) by (cases n') (auto simp: n)
qed

text \<open>
  A path is inside a directory exactly when its names continue those of the directory, unless the
  first name after them begins with two dots: a file whose name only begins so, such as
  \<open>..data\<close>, is reported to be outside.
\<close>

theorem path_within_iff:
  assumes "\<forall>n \<in> set (canonical path). n \<noteq> [] \<and> CHR ''/'' \<notin> set n"
  shows "is_path_within canonical path base \<longleftrightarrow>
    (\<exists>rest. canonical path = canonical base @ rest \<and> (rest \<noteq> [] \<longrightarrow> \<not> prefix ''..'' (hd rest)))"
proof (cases "prefix (canonical base) (canonical path)")
  case False
  then obtain r where "lexically_relative (canonical path) (canonical base) = ''..'' # r"
    using relative_outside by blast
  then have "\<not> is_path_within canonical path base"
    by (simp add: is_path_within_def path_text_Cons)
  with False show ?thesis by (auto simp: prefix_def)
next
  case True
  then obtain rest where rest: "canonical path = canonical base @ rest" by (auto simp: prefix_def)
  show ?thesis
  proof (cases rest)
    case Nil
    have "lexically_relative (canonical base) (canonical base) = [''.'']"
      using relative_below [of "canonical base" "[]"] by simp
    then show ?thesis using Nil rest by (simp add: is_path_within_def path_text_def)
  next
    case (Cons n ns)
    have n: "n \<noteq> []" "CHR ''/'' \<notin> set n" using assms rest Cons by auto
    have "prefix ''..'' n = (2 \<le> length n \<and> take 2 n = ''..'')"
      by (cases n; cases "tl n") auto
    then have "is_path_within canonical path base = (\<not> prefix ''..'' n)"
      using name_before_slash [OF n] n(1) rest Cons
      by (auto simp: is_path_within_def relative_below path_text_Cons Let_def)
    then show ?thesis using rest Cons by auto
  qed
qed

definition sample_names :: "string \<Rightarrow> string list" where
  "sample_names s = filter (\<lambda>n. n \<noteq> []) (split_char s (CHR ''/''))"

lemma path_within_iff_witness:
  "is_path_within sample_names ''/w/a'' ''/w'' \<and> \<not> is_path_within sample_names ''/w/..data'' ''/w'' \<and>
   \<not> is_path_within sample_names ''/wa'' ''/w''"
proof -
  have names: "sample_names ''/w/a'' = [''w'', ''a'']" "sample_names ''/w'' = [''w'']"
    "sample_names ''/w/..data'' = [''w'', ''..data'']" "sample_names ''/wa'' = [''wa'']"
    by code_simp+
  show ?thesis
    by (intro conjI; subst path_within_iff) (auto simp: names)
qed

end
