(* ===== verification/Bridge_Stop.thy ===== *)
theory Bridge_Stop
  imports Prelude
begin

text \<open>
  Starting and stopping the bridge (\<open>BridgeServer::start\<close>, \<open>stop\<close> and \<open>accept_loop\<close> in
  \<open>src/bridge/bridge_server.cpp\<close>), with its two threads: the one that calls \<open>stop\<close> and the one that
  accepts and serves clients, one after the other. A step is one action of one thread between the
  points where the other can act; taking the mutex of the client table is a step that is possible
  only while the mutex is free. What a client sends, and when, is left open.
\<close>

section \<open>Starting\<close>

text \<open>What the operating system answers: a socket, binding and listening, the port it chose.\<close>

record socket_os =
  so_socket :: int
  so_bind :: "nat \<Rightarrow> bool"
  so_listen :: bool
  so_port :: "nat \<Rightarrow> nat"

record listener =
  ls_running :: bool
  ls_fd :: int
  ls_port :: nat

text \<open>\<open>htons\<close> takes the low sixteen bits of the port.\<close>

definition start_server :: "socket_os \<Rightarrow> nat \<Rightarrow> listener \<Rightarrow> bool \<times> listener" where
  "start_server os port s =
     (if ls_running s then (True, s)
      else let s1 = s\<lparr>ls_fd := so_socket os\<rparr> in
        if so_socket os < 0 then (False, s1)
        else if \<not> so_bind os (port mod 2 ^ 16) then (False, s1\<lparr>ls_fd := -1\<rparr>)
        else if \<not> so_listen os then (False, s1\<lparr>ls_fd := -1\<rparr>)
        else (True, s1\<lparr>ls_port := so_port os (port mod 2 ^ 16), ls_running := True\<rparr>))"

section \<open>The threads\<close>

text \<open>
  For what the serving thread takes the mutex: a request that is no upgrade, and in a WebSocket
  connection to enter its client, to look it up for a message, and to remove it at the end.
\<close>

datatype table_use = Table_Request | Ws_Register | Ws_Lookup | Ws_Remove

datatype worker = Loop_Head | In_Poll | Client | Wants table_use | Holds table_use | Ws_Loop | Done

datatype stopper = Working | Closing | Locking | Joining | Returned

datatype thread = Stopper | Worker

record bridge_threads =
  bt_running :: bool
  bt_listening :: bool
  bt_mutex :: "thread option"
  bt_clients :: nat
  bt_stopper :: stopper
  bt_worker :: worker

fun after_use :: "table_use \<Rightarrow> worker" where
  "after_use Table_Request = Loop_Head"
| "after_use Ws_Register = Ws_Loop"
| "after_use Ws_Lookup = Ws_Loop"
| "after_use Ws_Remove = Loop_Head"

text \<open>The thread in \<open>stop\<close>.\<close>

inductive stop_step :: "bridge_threads \<Rightarrow> bridge_threads \<Rightarrow> bool" where
  stop_begins: "bt_stopper s = Working \<Longrightarrow> bt_running s \<Longrightarrow>
    stop_step s (s\<lparr>bt_running := False, bt_stopper := Closing\<rparr>)"
| stop_closes: "bt_stopper s = Closing \<Longrightarrow>
    stop_step s (s\<lparr>bt_listening := False, bt_stopper := Locking\<rparr>)"
| stop_locks: "bt_stopper s = Locking \<Longrightarrow> bt_mutex s = None \<Longrightarrow>
    stop_step s (s\<lparr>bt_mutex := Some Stopper, bt_clients := 0, bt_stopper := Joining\<rparr>)"
| stop_joins: "bt_stopper s = Joining \<Longrightarrow> bt_worker s = Done \<Longrightarrow>
    stop_step s (s\<lparr>bt_mutex := None, bt_stopper := Returned\<rparr>)"

text \<open>The thread in the loop of \<open>accept_loop\<close>. Its poll ends after half a second at the latest.\<close>

inductive accept_step :: "bridge_threads \<Rightarrow> bridge_threads \<Rightarrow> bool" where
  loop_goes_on: "bt_worker s = Loop_Head \<Longrightarrow> bt_running s \<Longrightarrow> accept_step s (s\<lparr>bt_worker := In_Poll\<rparr>)"
| loop_ends: "bt_worker s = Loop_Head \<Longrightarrow> \<not> bt_running s \<Longrightarrow> accept_step s (s\<lparr>bt_worker := Done\<rparr>)"
| poll_times_out: "bt_worker s = In_Poll \<Longrightarrow> accept_step s (s\<lparr>bt_worker := Loop_Head\<rparr>)"
| poll_hangs_up: "bt_worker s = In_Poll \<Longrightarrow> \<not> bt_listening s \<Longrightarrow> accept_step s (s\<lparr>bt_worker := Done\<rparr>)"
| accepts: "bt_worker s = In_Poll \<Longrightarrow> bt_listening s \<Longrightarrow> accept_step s (s\<lparr>bt_worker := Client\<rparr>)"

text \<open>
  The same thread in \<open>handle_client\<close>: a request that needs no table, one that does, an upgrade.
  After a use of the table there is some number of clients in it.
\<close>

inductive client_step :: "bridge_threads \<Rightarrow> bridge_threads \<Rightarrow> bool" where
  request_ends: "bt_worker s = Client \<Longrightarrow> client_step s (s\<lparr>bt_worker := Loop_Head\<rparr>)"
| request_uses: "bt_worker s = Client \<Longrightarrow> client_step s (s\<lparr>bt_worker := Wants Table_Request\<rparr>)"
| upgrades: "bt_worker s = Client \<Longrightarrow> client_step s (s\<lparr>bt_worker := Wants Ws_Register\<rparr>)"
| worker_locks: "bt_worker s = Wants u \<Longrightarrow> bt_mutex s = None \<Longrightarrow>
    client_step s (s\<lparr>bt_mutex := Some Worker, bt_worker := Holds u\<rparr>)"
| worker_unlocks: "bt_worker s = Holds u \<Longrightarrow>
    client_step s (s\<lparr>bt_mutex := None, bt_clients := n, bt_worker := after_use u\<rparr>)"

text \<open>And in \<open>handle_websocket\<close>: a message for the handler, and the end of the connection.\<close>

inductive socket_step :: "bridge_threads \<Rightarrow> bridge_threads \<Rightarrow> bool" where
  socket_message: "bt_worker s = Ws_Loop \<Longrightarrow> socket_step s (s\<lparr>bt_worker := Wants Ws_Lookup\<rparr>)"
| socket_ends: "bt_worker s = Ws_Loop \<Longrightarrow> socket_step s (s\<lparr>bt_worker := Wants Ws_Remove\<rparr>)"

inductive bridge_step :: "bridge_threads \<Rightarrow> bridge_threads \<Rightarrow> bool" where
  by_stop: "stop_step s t \<Longrightarrow> bridge_step s t"
| by_accept: "accept_step s t \<Longrightarrow> bridge_step s t"
| by_client: "client_step s t \<Longrightarrow> bridge_step s t"
| by_socket: "socket_step s t \<Longrightarrow> bridge_step s t"

lemmas bridge_step_elims = bridge_step.cases stop_step.cases accept_step.cases client_step.cases socket_step.cases

definition started :: bridge_threads where
  "started = \<lparr>bt_running = True, bt_listening = True, bt_mutex = None, bt_clients = 0,
     bt_stopper = Working, bt_worker = Loop_Head\<rparr>"

definition reached :: "bridge_threads \<Rightarrow> bridge_threads \<Rightarrow> bool" where
  "reached = bridge_step\<^sup>*\<^sup>*"

section \<open>Invariants\<close>

text \<open>
  One thread at a time holds the mutex, and each at its place; what \<open>stop\<close> has undone stays
  undone.
\<close>

definition threads_ok :: "bridge_threads \<Rightarrow> bool" where
  "threads_ok s =
     ((bt_mutex s = Some Stopper \<longleftrightarrow> bt_stopper s = Joining) \<and>
      (bt_mutex s = Some Worker \<longleftrightarrow> (\<exists>u. bt_worker s = Holds u)) \<and>
      (bt_running s \<longleftrightarrow> bt_stopper s = Working) \<and>
      (bt_listening s \<longleftrightarrow> bt_stopper s \<in> {Working, Closing}) \<and>
      (bt_stopper s = Returned \<longrightarrow> bt_worker s = Done))"

lemma threads_ok_started: "threads_ok started"
  by (simp add: threads_ok_def started_def)

lemma threads_ok_stop: "stop_step s t \<Longrightarrow> threads_ok s \<Longrightarrow> threads_ok t"
  by (induction rule: stop_step.induct) (auto simp: threads_ok_def elim: after_use.elims)

lemma threads_ok_accept: "accept_step s t \<Longrightarrow> threads_ok s \<Longrightarrow> threads_ok t"
  by (induction rule: accept_step.induct) (auto simp: threads_ok_def elim: after_use.elims)

lemma threads_ok_client: "client_step s t \<Longrightarrow> threads_ok s \<Longrightarrow> threads_ok t"
  by (induction rule: client_step.induct) (auto simp: threads_ok_def elim: after_use.elims)

lemma threads_ok_socket: "socket_step s t \<Longrightarrow> threads_ok s \<Longrightarrow> threads_ok t"
  by (induction rule: socket_step.induct) (auto simp: threads_ok_def elim: after_use.elims)

lemma threads_ok_step: "bridge_step s t \<Longrightarrow> threads_ok s \<Longrightarrow> threads_ok t"
  by (induction rule: bridge_step.induct) (blast intro: threads_ok_stop threads_ok_accept threads_ok_client threads_ok_socket)+

lemma threads_ok_reached: "reached s t \<Longrightarrow> threads_ok s \<Longrightarrow> threads_ok t"
  unfolding reached_def by (induction rule: rtranclp_induct) (auto intro: threads_ok_step)

section \<open>When stopping returns\<close>

text \<open>The places from which the serving thread must take the mutex before it can end.\<close>

definition blocked_place :: "worker \<Rightarrow> bool" where
  "blocked_place w = (w = Ws_Loop \<or> (\<exists>u. w = Wants u))"

lemma blocked_step:
  "bridge_step s t \<Longrightarrow> bt_stopper s = Joining \<Longrightarrow> bt_mutex s = Some Stopper \<Longrightarrow> blocked_place (bt_worker s) \<Longrightarrow>
   bt_stopper t = Joining \<and> bt_mutex t = Some Stopper \<and> blocked_place (bt_worker t)"
  by (elim bridge_step_elims) (auto simp: blocked_place_def)

lemma blocked_for_ever:
  assumes "reached s t" and "bt_stopper s = Joining" and "bt_mutex s = Some Stopper" and "blocked_place (bt_worker s)"
  shows "bt_stopper t = Joining"
proof -
  have "bt_stopper t = Joining \<and> bt_mutex t = Some Stopper \<and> blocked_place (bt_worker t)"
    using assms unfolding reached_def
    by (induction rule: rtranclp_induct) (use blocked_step in blast)+
  then show ?thesis ..
qed

lemma reached_step: "bridge_step s t \<Longrightarrow> reached t u \<Longrightarrow> reached s u"
  unfolding reached_def by (rule converse_rtranclp_into_rtranclp)

lemma joins_done:
  assumes "bt_stopper s = Joining" and "bt_worker s = Done"
  shows "\<exists>t. reached s t \<and> bt_stopper t = Returned"
  using by_stop [OF stop_joins [OF assms]] unfolding reached_def by (intro exI conjI, rule r_into_rtranclp) auto

lemma joins_loop:
  assumes "bt_stopper s = Joining" and "\<not> bt_running s" and "bt_worker s = Loop_Head"
  shows "\<exists>t. reached s t \<and> bt_stopper t = Returned"
  using joins_done [of "s\<lparr>bt_worker := Done\<rparr>"] assms reached_step [OF by_accept [OF loop_ends [OF assms(3,2)]]] by auto

text \<open>
  C12: Once \<open>stop\<close> waits for the serving thread it holds the mutex. It can still return exactly when
  that thread is in no WebSocket connection and not waiting for the mutex; otherwise it never
  returns, and neither does the thread ever end.
\<close>

theorem stop_can_return:
  assumes "reached started s" and "bt_stopper s = Joining"
  shows "(\<exists>t. reached s t \<and> bt_stopper t = Returned) \<longleftrightarrow> bt_worker s \<in> {Loop_Head, In_Poll, Client, Done}"
proof -
  have ok: "threads_ok s" using threads_ok_reached [OF assms(1) threads_ok_started] .
  then have mutex: "bt_mutex s = Some Stopper" and stopped: "\<not> bt_running s"
    using assms(2) by (simp_all add: threads_ok_def)
  show ?thesis
  proof (cases "blocked_place (bt_worker s)")
    case True
    then have "bt_stopper t = Joining" if "reached s t" for t
      using blocked_for_ever [OF that assms(2) mutex] by blast
    then show ?thesis using True by (auto simp: blocked_place_def)
  next
    case False
    moreover have "\<nexists>u. bt_worker s = Holds u" using ok mutex by (auto simp: threads_ok_def)
    ultimately have place: "bt_worker s \<in> {Loop_Head, In_Poll, Client, Done}"
      by (cases "bt_worker s") (auto simp: blocked_place_def)
    have head: "\<exists>t. reached (s\<lparr>bt_worker := Loop_Head\<rparr>) t \<and> bt_stopper t = Returned"
      using joins_loop assms(2) stopped by simp
    have "\<exists>t. reached s t \<and> bt_stopper t = Returned"
      using place
    proof (elim insertE)
      assume "bt_worker s = Loop_Head"
      then show ?thesis using joins_loop assms(2) stopped by blast
    next
      assume "bt_worker s = In_Poll"
      then show ?thesis using head reached_step [OF by_accept [OF poll_times_out]] by blast
    next
      assume "bt_worker s = Client"
      then show ?thesis using head reached_step [OF by_client [OF request_ends]] by blast
    next
      assume "bt_worker s = Done"
      then show ?thesis using joins_done assms(2) by blast
    qed simp
    with place show ?thesis by blast
  qed
qed

text \<open>How far the serving thread is from its end when no client is being served.\<close>

fun steps_left :: "worker \<Rightarrow> nat" where
  "steps_left Done = 0"
| "steps_left Loop_Head = 1"
| "steps_left In_Poll = 2"
| "steps_left _ = 0"

text \<open>
  If no client is being served when \<open>stop\<close> begins to wait, it does return: there is a next step
  until it has, every step leads nearer to it, and there are at most three.
\<close>

definition distance :: "bridge_threads \<Rightarrow> nat" where
  "distance s = (if bt_stopper s = Returned then 0 else Suc (steps_left (bt_worker s)))"

definition idle_stop :: "bridge_threads \<Rightarrow> bool" where
  "idle_stop s = (\<not> bt_running s \<and> \<not> bt_listening s \<and>
     (bt_stopper s = Joining \<and> bt_worker s \<in> {Loop_Head, In_Poll, Done} \<or> bt_stopper s = Returned \<and> bt_worker s = Done))"

lemma idle_stop_step: "bridge_step s t \<Longrightarrow> idle_stop s \<Longrightarrow> idle_stop t \<and> distance t < distance s"
  by (elim bridge_step_elims) (auto simp: idle_stop_def distance_def)

theorem idle_stop_returns:
  assumes "idle_stop s"
  shows "(bt_stopper s \<noteq> Returned \<longrightarrow> (\<exists>t. bridge_step s t)) \<and>
    (\<forall>n t. (bridge_step ^^ n) s t \<longrightarrow> idle_stop t \<and> n + distance t \<le> distance s) \<and> distance s \<le> 3"
proof (intro conjI impI allI)
  assume "bt_stopper s \<noteq> Returned"
  then show "\<exists>t. bridge_step s t"
    using assms by_stop [OF stop_joins] by_accept [OF loop_ends] by_accept [OF poll_times_out]
    unfolding idle_stop_def by blast
next
  fix n t assume "(bridge_step ^^ n) s t"
  then have "idle_stop t \<and> n + distance t \<le> distance s"
  proof (induction n arbitrary: t)
    case (Suc n)
    then obtain u where "(bridge_step ^^ n) s u" "bridge_step u t" by auto
    with Suc.IH idle_stop_step [of u t] show ?case by fastforce
  qed (use assms in simp)
  then show "idle_stop t" "n + distance t \<le> distance s" by auto
next
  show "distance s \<le> 3" using assms by (auto simp: idle_stop_def distance_def)
qed

section \<open>Witnesses\<close>

text \<open>A client that has upgraded its connection when \<open>stop\<close> is called.\<close>

definition with_socket :: "bool \<Rightarrow> bridge_threads" where
  "with_socket w = \<lparr>bt_running = False, bt_listening = False, bt_mutex = Some Stopper, bt_clients = 0,
     bt_stopper = Joining, bt_worker = (if w then Ws_Loop else Loop_Head)\<rparr>"

lemma with_socket_reached: "reached started (with_socket w)"
proof -
  let ?s1 = "started\<lparr>bt_worker := In_Poll\<rparr>"
  let ?s2 = "started\<lparr>bt_worker := Client\<rparr>"
  let ?s3 = "started\<lparr>bt_worker := Wants Ws_Register\<rparr>"
  let ?s4 = "started\<lparr>bt_mutex := Some Worker, bt_worker := Holds Ws_Register\<rparr>"
  let ?s5 = "\<lambda>k. started\<lparr>bt_clients := k, bt_worker := Ws_Loop\<rparr>"
  let ?t = "\<lambda>k. started\<lparr>bt_clients := k, bt_worker := (if w then Ws_Loop else Loop_Head)\<rparr>"
  let ?t1 = "\<lambda>k. (?t k)\<lparr>bt_running := False, bt_stopper := Closing\<rparr>"
  let ?t2 = "\<lambda>k. (?t k)\<lparr>bt_running := False, bt_listening := False, bt_stopper := Locking\<rparr>"
  have "bridge_step started ?s1" using by_accept [OF loop_goes_on [of started]] by (simp add: started_def)
  moreover have "bridge_step ?s1 ?s2" using by_accept [OF accepts [of ?s1]] by (simp add: started_def)
  moreover have "bridge_step ?s2 ?s3" using by_client [OF upgrades [of ?s2]] by (simp add: started_def)
  moreover have "bridge_step ?s3 ?s4" using by_client [OF worker_locks [of ?s3]] by (simp add: started_def)
  moreover have "bridge_step ?s4 (?s5 1)" using by_client [OF worker_unlocks [of ?s4 Ws_Register 1]] by (simp add: started_def)
  ultimately have serving: "reached started (?s5 1)"
    unfolding reached_def by (meson converse_rtranclp_into_rtranclp rtranclp.rtrancl_refl)
  define k where "k = (if w then 1 else 0 :: nat)"
  have "reached started (?t k)"
    using serving by (simp add: k_def reached_def started_def)
  moreover have "bridge_step (?t k) (?t1 k)" using by_stop [OF stop_begins [of "?t k"]] by (simp add: started_def)
  moreover have "bridge_step (?t1 k) (?t2 k)" using by_stop [OF stop_closes [of "?t1 k"]] by (simp add: started_def)
  moreover have "bridge_step (?t2 k) (with_socket w)"
    using by_stop [OF stop_locks [of "?t2 k"]] by (simp add: started_def with_socket_def)
  ultimately show ?thesis unfolding reached_def by (meson rtranclp.rtrancl_into_rtrancl)
qed

lemma stop_can_return_witness:
  "(\<nexists>t. reached (with_socket True) t \<and> bt_stopper t = Returned) \<and>
   (\<exists>t. reached (with_socket False) t \<and> bt_stopper t = Returned)"
  using stop_can_return [OF with_socket_reached, of True] stop_can_return [OF with_socket_reached, of False]
  by (simp add: with_socket_def)

lemma idle_stop_returns_witness:
  "\<forall>n t. (bridge_step ^^ n) (with_socket False) t \<longrightarrow> n \<le> 3"
proof -
  have "idle_stop (with_socket False)" by (simp add: idle_stop_def with_socket_def)
  from idle_stop_returns [OF this] show ?thesis by fastforce
qed

end
