(* ===== verification/Child_End.thy ===== *)
theory Child_End
  imports Process
begin

text \<open>
  Two ends of a child process. Its beginning: what \<open>exec_fork\<close> (\<open>src/util/process_utils.cpp\<close>) does
  in the child between \<open>fork\<close> and \<open>execvp\<close>. Its end: the sequence of \<open>McpClient::disconnect\<close>,
  \<open>McpConnection::stdio_disconnect\<close> and \<open>LspClient::cleanup\<close>, which is the same three times (for
  \<open>kill_process_tree\<close> see \<open>Child_Kill\<close>).
\<close>

section \<open>Before the program starts\<close>

type_synonym env_vars = "string \<Rightarrow> string option"

text \<open>\<open>putenv\<close> of an entry without an equals sign removes the variable.\<close>

definition putenv :: "env_vars \<Rightarrow> string \<Rightarrow> env_vars" where
  "putenv env entry =
     (let name = takeWhile (\<lambda>c. c \<noteq> CHR ''='') entry
      in if length name < length entry then env(name \<mapsto> drop (Suc (length name)) entry)
         else env(name := None))"

definition standard_path :: string where
  "standard_path = ''/usr/local/sbin:/usr/local/bin:/usr/sbin:/usr/bin:/sbin:/bin''"

definition child_environment :: "string list \<Rightarrow> env_vars \<Rightarrow> env_vars" where
  "child_environment extra env =
     (let e1 = env(''PATH'' \<mapsto> standard_path);
          e2 = (if e1 ''HOME'' = None then e1(''HOME'' \<mapsto> ''/root'') else e1);
          e3 = (if e2 ''TERM'' = None then e2(''TERM'' \<mapsto> ''xterm-256color'') else e2)
      in foldl putenv e3 extra)"

datatype stream_end = Inherited | Stdin_Pipe | Stdout_Pipe | Stderr_Pipe

definition child_streams :: "process_options \<Rightarrow> stream_end \<times> stream_end \<times> stream_end" where
  "child_streams opt =
     (if po_stdin_input opt \<noteq> [] then Stdin_Pipe else Inherited,
      if po_capture_output opt then Stdout_Pipe else Inherited,
      if \<not> po_capture_output opt then Inherited else if po_merge_stderr opt then Stdout_Pipe else Stderr_Pipe)"

text \<open>
  \<open>chdir_ok\<close>: the directory can be entered; \<open>exec_ok\<close>: the program is found on the path of the
  given environment and can be run. Otherwise the child exits with a code of its own.
\<close>

definition child_start ::
  "(string \<Rightarrow> bool) \<Rightarrow> (env_vars \<Rightarrow> bool) \<Rightarrow> process_options \<Rightarrow> env_vars \<Rightarrow>
   nat + (stream_end \<times> stream_end \<times> stream_end) \<times> env_vars" where
  "child_start chdir_ok exec_ok opt env =
     (if po_working_directory opt \<noteq> [] \<and> \<not> chdir_ok (po_working_directory opt) then Inl 127
      else let env1 = child_environment (po_extra_env opt) env
           in if exec_ok env1 then Inr (child_streams opt, env1) else Inl 127)"

definition sets_variable :: "string \<Rightarrow> string \<Rightarrow> bool" where
  "sets_variable v entry = (takeWhile (\<lambda>c. c \<noteq> CHR ''='') entry = v)"

lemma putenv_other: "\<not> sets_variable v entry \<Longrightarrow> putenv env entry v = env v"
  by (simp add: putenv_def sets_variable_def Let_def)

lemma putenvs_other: "\<forall>entry\<in>set extra. \<not> sets_variable v entry \<Longrightarrow> foldl putenv env extra v = env v"
  by (induction extra arbitrary: env) (simp_all add: putenv_other)

text \<open>
  A program is looked for on a fixed path, never on that of the caller, unless the caller passes
  another one as an extra entry; of several entries for a variable the last one counts, and every
  variable but three is inherited.
\<close>

theorem child_variables:
  assumes "\<forall>entry\<in>set later. \<not> sets_variable v entry" and "CHR ''='' \<notin> set v"
  shows "child_environment (earlier @ (v @ CHR ''='' # value) # later) env v = Some value \<and>
    child_environment later env v =
      (if v = ''PATH'' then Some standard_path
       else if v = ''HOME'' \<and> env v = None then Some ''/root''
       else if v = ''TERM'' \<and> env v = None then Some ''xterm-256color'' else env v)"
proof -
  have "takeWhile (\<lambda>c. c \<noteq> CHR ''='') (v @ CHR ''='' # value) = v"
    using assms(2) by (subst takeWhile_append2) auto
  then have "putenv e (v @ CHR ''='' # value) v = Some value" for e
    by (simp add: putenv_def Let_def)
  then show ?thesis
    by (auto simp: child_environment_def Let_def putenvs_other [OF assms(1)])
qed

section \<open>Ending a child of the protocol clients\<close>

function grace_loop :: "(nat \<Rightarrow> nat) \<Rightarrow> nat \<Rightarrow> fate \<Rightarrow> nat \<Rightarrow> nat \<Rightarrow> nat \<times> nat \<times> bool" where
  "grace_loop late deadline f n now =
     (if deadline \<le> now then (n, now, False)
      else if gone f now then (Suc n, now, True)
      else grace_loop late deadline f (Suc n) (now + 100 + late n))"
  by pat_completeness auto
termination by (relation "measure (\<lambda>(late, deadline, f, n, now). deadline - now)") auto

declare grace_loop.simps [simp del]

text \<open>The three copies: the kill comes whether the child has ended or not.\<close>

definition end_child :: "(nat \<Rightarrow> nat) \<Rightarrow> fate \<Rightarrow> ending" where
  "end_child late f =
     (case grace_loop late 3000 f 0 0 of (n, now, reaped) \<Rightarrow>
        \<lparr>en_signals = [(SIGTERM, True), (SIGKILL, \<not> reaped)], en_polls = n, en_last_poll = now\<rparr>)"

lemma grace_loop_polls:
  "grace_loop late deadline f n now = (n', now', reaped) \<Longrightarrow> 100 * n \<le> now \<Longrightarrow>
   n' = n \<or> 100 * n' < deadline + 100"
proof (induction late deadline f n now rule: grace_loop.induct)
  case (1 late deadline f n now)
  note step = "1.prems"(1) [unfolded grace_loop.simps [of late deadline f n now]]
  show ?case
  proof (cases "deadline \<le> now \<or> gone f now")
    case True
    with step "1.prems"(2) show ?thesis by (auto split: if_splits)
  next
    case False
    with step have "grace_loop late deadline f (Suc n) (now + 100 + late n) = (n', now', reaped)" by simp
    with "1.IH" False "1.prems"(2) have "n' = Suc n \<or> 100 * n' < deadline + 100" by simp
    with False "1.prems"(2) show ?thesis by auto
  qed
qed

lemma grace_loop_reaped:
  "grace_loop late deadline f n now = (n', now', reaped) \<Longrightarrow>
   (reaped \<longrightarrow> gone f now' \<and> now' < deadline) \<and> (\<not> reaped \<longrightarrow> deadline \<le> now')"
proof (induction late deadline f n now rule: grace_loop.induct)
  case (1 late deadline f n now)
  then show ?case
    by (cases "deadline \<le> now \<or> gone f now") (auto simp: grace_loop.simps [of late deadline f n now] split: if_splits)
qed

lemma gone_later: "gone f s \<Longrightarrow> s \<le> t \<Longrightarrow> gone f t"
  by (auto simp: gone_def split: option.splits)

lemma grace_loop_exact:
  "grace_loop late deadline f n now = (n', now', reaped) \<Longrightarrow> late = (\<lambda>_. 0) \<Longrightarrow> deadline = 3000 \<Longrightarrow>
   now = 100 * n \<Longrightarrow> n \<le> 30 \<Longrightarrow> reaped = (n < 30 \<and> gone f 2900)"
proof (induction late deadline f n now rule: grace_loop.induct)
  case (1 late deadline f n now)
  note step = "1.prems"(1) [unfolded grace_loop.simps [of late deadline f n now]]
  show ?case
  proof (cases "deadline \<le> now \<or> gone f now")
    case True
    with step "1.prems" gone_later [of f now 2900] show ?thesis by (auto split: if_splits)
  next
    case False
    with step have rest: "grace_loop late deadline f (Suc n) (now + 100 + late n) = (n', now', reaped)" by simp
    have "reaped = (Suc n < 30 \<and> gone f 2900)"
      using False "1.IH" [OF _ _ rest] "1.prems" by simp
    moreover have "n < 30" using False "1.prems" by simp
    moreover have "n = 29 \<Longrightarrow> \<not> gone f 2900" using False "1.prems" by simp
    ultimately show ?thesis by (cases "n = 29") auto
  qed
qed

text \<open>
  The loop looks at most thirty times, and then the kill is sent in any case. If the child has
  ended in time it has been waited for by then, and the kill goes to an identifier that is no
  longer its own; on time, that is every child that ends within 2.9 seconds of the first signal.
\<close>

theorem stray_kill:
  "en_polls (end_child late f) \<le> 30 \<and>
   (\<exists>mine. en_signals (end_child late f) = [(SIGTERM, True), (SIGKILL, mine)] \<and>
      (\<not> mine \<longrightarrow> gone f (en_last_poll (end_child late f)) \<and> en_last_poll (end_child late f) < 3000) \<and>
      (mine \<longrightarrow> 3000 \<le> en_last_poll (end_child late f)) \<and>
      (late = (\<lambda>_. 0) \<longrightarrow> (mine \<longleftrightarrow> \<not> gone f 2900)))"
proof -
  obtain n now reaped where loop: "grace_loop late 3000 f 0 0 = (n, now, reaped)" by (rule prod_cases3)
  have "n \<le> 30" using grace_loop_polls [OF loop] by auto
  moreover have "late = (\<lambda>_. 0) \<Longrightarrow> reaped = gone f 2900" using grace_loop_exact [OF loop] by simp
  ultimately show ?thesis
    using grace_loop_reaped [OF loop] by (auto simp: end_child_def loop)
qed

section \<open>Witnesses\<close>

lemma child_variables_witness:
  "child_environment [''PATH=/bin'', ''A=1''] [''HOME'' \<mapsto> ''/h''] ''PATH'' = Some ''/bin'' \<and>
   child_environment [''A=1''] [''HOME'' \<mapsto> ''/h''] ''PATH'' = Some standard_path"
  using child_variables [of "[''A=1'']" "''PATH''" "[]" "''/bin''" "[''HOME'' \<mapsto> ''/h'']"]
  by (simp add: sets_variable_def)

lemma stray_kill_witness:
  "en_signals (end_child (\<lambda>_. 0) (Some (50, exited 0))) = [(SIGTERM, True), (SIGKILL, False)]"
  using stray_kill [of "\<lambda>_. 0" "Some (50, exited 0)"] by (auto simp: gone_def)

end
