(* ===== verification/Sendable.thy ===== *)
theory Sendable
  imports Query_Engine
begin

text \<open>
  What a query may hold: \<open>build_request_body\<close> of \<open>src/api/anthropic_client.cpp\<close> prints the whole
  conversation, and printing throws on a text that is not UTF-8. Neither the tool-call loop nor the
  program that runs it (\<open>Application::run_repl\<close>, \<open>main\<close>) catches that.
\<close>

section \<open>Requests are printed before they are sent\<close>

lemma create_keeps_curl:
  "create_message_stream J junk strerror env aborted_end q has_callback c = (r, evs, c') \<Longrightarrow>
   cl_has_curl c' = cl_has_curl c"
  by (auto simp: create_message_stream_def Let_def split: sum.splits if_splits)

lemma answered_sendable:
  assumes "request_laws J" and "cl_has_curl c"
    and "create_message_stream J junk strerror env aborted_end q has_callback c = (Inr r, evs, c')"
  shows "\<forall>m\<in>set (qo_messages q). sendable m"
  using unsendable_message_throws [OF assms(1) _ _ assms(2)] assms(3) by (metis Inl_Inr_False fst_conv)

text \<open>
  The loop: when it returns with an answer, everything before that answer could be sent.
\<close>

lemma loop_history_sendable:
  assumes "request_laws J" and "ee_api E = engine_api J junk strerror curl aborted_end"
  shows "tool_call_loop k E iteration opts final s = (Inr r, s') \<Longrightarrow> \<not> qe_aborted s' \<Longrightarrow>
    cl_has_curl (qe_client s) \<Longrightarrow> qo_messages opts = qe_messages s \<Longrightarrow>
    length (qe_messages s') < length (qe_messages s) + 2 * k \<Longrightarrow>
    \<exists>ms a. qe_messages s' = qe_messages s @ ms @ [a] \<and> (\<forall>m\<in>set (qe_messages s @ ms). sendable m)"
proof (induction k arbitrary: iteration opts final s)
  case (Suc k)
  show ?case
  proof (cases rule: loop_turn [OF Suc.prems(1)])
    case 1
    with Suc.prems(2) show ?thesis by simp
  next
    case (2 resp c evs c')
    with Suc.prems(3,4) answered_sendable [OF assms(1)] show ?thesis
      by (intro exI [of _ "[]"] exI [of _ "qr_message resp"]) (auto simp: assms(2) engine_api_def)
  next
    case (3 resp c evs c' rs now opts' s5)
    have "cl_has_curl (qe_client s5)"
      using 3(1,8,10) Suc.prems(3) by (auto simp: assms(2) engine_api_def dest: create_keeps_curl)
    moreover have "length (qe_messages s') < length (qe_messages s5) + 2 * k"
      using Suc.prems(5) 3(5) by simp
    ultimately obtain ms a where "qe_messages s' = qe_messages s5 @ ms @ [a]"
      "\<forall>m\<in>set (qe_messages s5 @ ms). sendable m"
      using Suc.IH [OF 3(7) Suc.prems(2)] 3(9) by auto
    with 3(5) show ?thesis
      by (intro exI [of _ "[qr_message resp, create_tool_result_message now rs] @ ms"] exI [of _ a]) simp
  qed
qed simp

section \<open>A text that is not UTF-8 ends the session\<close>

lemma query_options_built:
  assumes "build_query_options J h now user_input s = Some (opts, s1)"
  shows "qo_messages opts = qe_messages s1 \<and> qe_messages s1 = qe_messages s @ [message_user now user_input] \<and>
    qe_client s1 = qe_client s \<and> qe_aborted s1 = qe_aborted s \<and> qe_reads s1 = qe_reads s \<and>
    qe_max_iterations s1 = qe_max_iterations s"
  using assms by (auto simp: build_query_options_def Let_def split: option.splits prod.splits)

lemma user_message_sendable [simp]: "sendable (message_user now t) = utf8 t"
  by (simp add: sendable_def message_user_def blank_message_def utf8_block_def make_text_block_def empty_block_def)

lemma run_returned:
  assumes "run_tool_call_loop E junk opts s = (Inr r, s')" and "\<not> qe_aborted s'"
  obtains r1 s1 where "tool_call_loop (nat (qe_max_iterations s)) E 0 opts (blank_response junk) s = (Inr r1, s1)"
    and "\<not> qe_aborted s1" and "qe_messages s' = qe_messages s1"
proof -
  obtain q s1 where loop: "tool_call_loop (nat (qe_max_iterations s)) E 0 opts (blank_response junk) s = (q, s1)"
    by fastforce
  obtain a s2 where a: "read_abort E s1 = (a, s2)" by fastforce
  from assms(1) loop a obtain r1 where "q = Inr r1" "s' = s2"
    by (auto simp: run_tool_call_loop_def split: sum.splits bool.splits)
  with loop read_abort_keeps [OF a] assms(2) that show thesis by (auto simp: keeps_history_def)
qed

text \<open>
  C3: What a query may hold. A query that returns with an answer, not aborted and within its
  iterations, has sent only UTF-8: the prompt, every message before it, and every answer and tool
  result it appended before the last answer. And once a message of the conversation is not UTF-8,
  such as the output of a command that was cut off inside a character, every later query throws
  before anything is sent, leaves the message where it is, and so ends the program.
\<close>

theorem conversation_must_be_utf8:
  assumes "request_laws J" and "ee_api E = engine_api J junk strerror curl aborted_end"
    and "cl_has_curl (qe_client s)" and "execute J h E junk' user_input s = Some (res, s')"
    and "0 < qe_max_iterations s"
  shows "(\<forall>r. res = Inr r \<and> \<not> qe_aborted s' \<and>
      length (qe_messages s') \<le> length (qe_messages s) + 2 * nat (qe_max_iterations s) \<longrightarrow>
      utf8 user_input \<and> (\<forall>m\<in>set (butlast (qe_messages s')). sendable m)) \<and>
    ((\<exists>m\<in>set (qe_messages s). \<not> sendable m) \<and> \<not> qe_aborted s \<and> \<not> ee_aborts E (qe_reads s) \<longrightarrow>
      res = Inl Json_Type_Error \<and>
      qe_messages s' = qe_messages s @ [message_user (ee_now E (qe_reads s)) user_input])"
proof -
  from assms(4) obtain opts s1 where
    build: "build_query_options J h (ee_now E (qe_reads s)) user_input s = Some (opts, s1)" and
    run: "run_tool_call_loop E junk' opts s1 = (res, s')"
    by (auto simp: execute_def)
  note s1 = query_options_built [OF build]
  have "utf8 user_input \<and> (\<forall>m\<in>set (butlast (qe_messages s')). sendable m)"
    if r: "res = Inr r" and live: "\<not> qe_aborted s'"
      and short: "length (qe_messages s') \<le> length (qe_messages s) + 2 * nat (qe_max_iterations s)" for r
  proof -
    obtain r1 t where loop: "tool_call_loop (nat (qe_max_iterations s1)) E 0 opts (blank_response junk') s1 = (Inr r1, t)"
      "\<not> qe_aborted t" "qe_messages s' = qe_messages t"
      by (rule run_returned [OF run [unfolded r] live])
    have "cl_has_curl (qe_client s1)" "qo_messages opts = qe_messages s1"
      "length (qe_messages t) < length (qe_messages s1) + 2 * nat (qe_max_iterations s1)"
      using s1 assms(3) short loop(3) by auto
    from loop_history_sendable [OF assms(1,2) loop(1,2) this] obtain ms a where
      "qe_messages t = qe_messages s1 @ ms @ [a]" "\<forall>m\<in>set (qe_messages s1 @ ms). sendable m" by blast
    then show ?thesis using s1 loop(3) by (auto simp: butlast_append)
  qed
  moreover have "res = Inl Json_Type_Error \<and>
      qe_messages s' = qe_messages s @ [message_user (ee_now E (qe_reads s)) user_input]"
    if m: "m \<in> set (qe_messages s)" "\<not> sendable m" and live: "\<not> qe_aborted s" "\<not> ee_aborts E (qe_reads s)" for m
  proof -
    obtain k where k: "nat (qe_max_iterations s1) = Suc k"
      using s1 assms(5) by (cases "nat (qe_max_iterations s1)") auto
    have "m \<in> set (qo_messages opts)" using m(1) s1 by auto
    from unsendable_message_throws [OF assms(1) this m(2) assms(3)]
    have "ee_api E 0 opts (qe_client s) =
        (Inl Json_Type_Error, [], (qe_client s)\<lparr>cl_busy := True, cl_aborted := False\<rparr>)"
      by (simp add: assms(2) engine_api_def)
    with run k live s1 show ?thesis
      by (auto simp: run_tool_call_loop_def read_abort_def Let_def)
  qed
  ultimately show ?thesis by blast
qed

definition stuck_engine :: "(jv, client, unit) engine" where
  "stuck_engine = \<lparr>qe_messages = [cut_message], qe_aborted = False, qe_max_iterations = 100,
     qe_working_directory = ''/w'', qe_session = sample_session ''/w'', qe_context = new_builder,
     qe_tools = Map.empty, qe_tool_order = [], qe_costs = new_tracker, qe_client = new_client ''k'' True,
     qe_world = (), qe_stdout = [], qe_delivered = [], qe_reads = 0\<rparr>"

definition stuck_env :: "(jv, client) engine_env" where
  "stuck_env = \<lparr>ee_api = engine_api coding_jlib System (\<lambda>_. []) (\<lambda>_ _. sample_attempt [] Curl_OK 200) (\<lambda>_. False),
     ee_aborts = (\<lambda>n. False), ee_now = (\<lambda>n. 0), ee_elapsed = (\<lambda>n. 1)\<rparr>"

lemma conversation_must_be_utf8_witness:
  "\<exists>s'. execute coding_jlib (sample_host ''d'') stuck_env System ''hi'' stuck_engine = Some (Inl Json_Type_Error, s') \<and>
    qe_messages s' = [cut_message, message_user 0 ''hi'']"
proof -
  let ?h = "sample_host ''d''"
  have "is_git_repo (ho_os ?h) cwd = Some False" for cwd
    by (simp add: is_git_repo_def exec_program_def exec_fork_def git_options_def default_options_def
        open_fds_def sample_host_def sample_child_def contains_str_def Let_def)
  then have "build_system_context ?h c new_builder \<noteq> None" for c
    by (simp add: build_system_context_def get_git_status_def new_builder_def Let_def)
  then have "build_query_options coding_jlib ?h 0 ''hi'' stuck_engine \<noteq> None"
    by (auto simp: build_query_options_def stuck_engine_def Let_def split: option.splits prod.splits)
  then obtain x where "build_query_options coding_jlib ?h (ee_now stuck_env 0) ''hi'' stuck_engine = Some x"
    by (auto simp: stuck_env_def)
  then obtain res s' where run: "execute coding_jlib ?h stuck_env System ''hi'' stuck_engine = Some (res, s')"
    by (cases x; cases "run_tool_call_loop stuck_env System (fst x) (snd x)")
      (auto simp: execute_def stuck_engine_def)
  have engine: "qe_messages stuck_engine = [cut_message]" "cl_has_curl (qe_client stuck_engine)"
    "0 < qe_max_iterations stuck_engine" "\<not> qe_aborted stuck_engine" "\<not> ee_aborts stuck_env (qe_reads stuck_engine)"
    "ee_api stuck_env = engine_api coding_jlib System (\<lambda>_. []) (\<lambda>_ _. sample_attempt [] Curl_OK 200) (\<lambda>_. False)"
    "ee_now stuck_env n = 0" for n
    by (simp_all add: stuck_engine_def stuck_env_def new_client_def)
  from conversation_must_be_utf8 [OF sample_request_laws engine(6,2) run engine(3)] run show ?thesis
    using engine cut_message_unsendable by auto
qed

end
