(* ===== verification/Spec2Isabelle.thy ===== *)
theory Spec2Isabelle
  imports Base64 Query_Engine Coordinator File_Edit Bridge Session_Manager Permissions Sandbox Json_Rpc
    Lsp_Tool Mcp_Tool App_Config App_State Bash_Tool Commands Memory_Store Todo_Write Agent_Tool Terminal Plugins
    Lifecycle Conversation Cli Mcp_Auth Path_Checks Bridge_Stop Child_End
    Sendable
begin

text \<open>
  A verification development of a terminal assistant written in C++ (the code under \<open>src/\<close>). The
  program sends a conversation to an API, prints the answer as it streams in, runs the tools the
  answer asks for, and sends their results back until the answer asks for none.

  \<^bold>\<open>How the parts interact.\<close> \<open>main\<close> parses the command line (theory \<open>Cli\<close>) into a configuration
  (\<open>App_Config\<close>) and runs the application (\<open>Lifecycle\<close>), which registers nine tools (\<open>Toolbox\<close>),
  makes a client (\<open>Client\<close>) and an engine (\<open>Query_Engine\<close>), and reads lines. A line is a slash
  command or a query. For a query the engine builds the context (\<open>Context_Builder\<close>) and the request
  (\<open>Query_Pipeline\<close>, \<open>Client\<close>), the client parses the events of the answer (\<open>Sse\<close>, refined against
  the parser of \<open>Stream_Parser\<close>), the engine looks each tool call up in the registry (\<open>Tools\<close>), runs
  it, counts what it costs (\<open>Cost_Tracker\<close>) and goes round again. Beside this path the program has
  clients for MCP and LSP servers, a bridge for editors over HTTP and WebSocket, teams of agents
  over a message bus, plugins, memories and saved sessions.

  \<^bold>\<open>How the code is modelled.\<close> A class is a record of its members and each member function a
  definition that takes the record and returns it updated, in the order of the source; an enum is
  a datatype. A call that may throw returns a sum with the exception \<open>cpp_exn\<close> on the left (theory
  \<open>Json\<close>), together with the state reached by then; a call that never returns, such as a read on a
  pipe nobody closes or a second lock of a mutex by its holder, is \<open>None\<close> or the exception
  \<open>Blocked\<close>. Counters and the values of the wire keep their width as words; \<open>int\<close> values that are
  only compared and printed are integers, with the wrap-around written out where it is reachable.
  A \<open>std::map\<close> is a sorted association list (\<open>omap\<close> in \<open>Interfaces\<close>), a \<open>std::unordered_map\<close> a
  map with its iteration order as an argument. What is not in the repository is an argument: the JSON
  library (a record of its functions, with its documented behaviour as named laws, shown to
  hold together by the instance in \<open>Json_Sample\<close>; strings are bytes, and printing one that is not
  UTF-8 throws), curl, SHA-1, the operating system, the clock and the time zone, the shell (with the
  quoting that is relied on as a law), the dynamic linker, random identifiers, \<open>std::sort\<close>, regular expressions, and CLI11.

  \<^bold>\<open>Theories, and the sources they model.\<close>
  \<^item> Foundations. \<open>Prelude\<close>: string search and numbers of the C++ library, lemmas on lists.
    \<open>Interfaces\<close>: the locales \<open>codec\<close>, \<open>registry\<close>, \<open>erasable_registry\<close>, \<open>machine\<close> and \<open>simulation\<close>.
    \<open>Effects\<close>: computations that change a state and may throw. \<open>Json\<close>, \<open>Json_Sample\<close>, \<open>Std_Sort\<close>.
    \<open>String_Utils\<close>, \<open>Format\<close> (\<open>util/string_utils.h\<close>), \<open>Base64\<close> (\<open>util/crypto_utils.cpp\<close> and the codec
    of the bridge), \<open>Paths\<close>, \<open>Files\<close>, \<open>Path_Checks\<close> (\<open>util/file_utils.h\<close>), \<open>Child_Kill\<close>, \<open>Process\<close>
    and \<open>Child_End\<close> (\<open>util/process_utils.cpp\<close>, \<open>util/git_utils.cpp\<close>, and the end of the children of the
    protocol clients).
  \<^item> The query. \<open>Message\<close> (\<open>engine/message.h\<close>, \<open>.cpp\<close>), \<open>Stream_Parser\<close>, \<open>Sse\<close> (\<open>api/sse_parser.cpp\<close> and
    the streaming part of \<open>api/anthropic_client.cpp\<close>), \<open>Client\<close>, \<open>Query_Pipeline\<close>, \<open>Context_Builder\<close>,
    \<open>Cost_Tracker\<close>, \<open>Query_Engine\<close>: the files of \<open>engine/\<close> and \<open>api/\<close> of the same names.
  \<^item> The tools. \<open>Tools\<close> (\<open>tools/tool_base.h\<close>, \<open>tool_registry.cpp\<close>), \<open>Bash_Tool\<close>, \<open>File_Read\<close>,
    \<open>File_Write\<close>, \<open>File_Edit\<close>, \<open>Glob_Tool\<close>, \<open>Grep_Tool\<close>, \<open>Todo_Write\<close>, \<open>Web_Fetch\<close>, \<open>Web_Search\<close>,
    \<open>Agent_Tool\<close>, \<open>Lsp_Tool\<close>, \<open>Mcp_Tool\<close>: one file of \<open>tools/\<close> each. \<open>Toolbox\<close>: the nine tools that are
    registered, over one world. \<open>Permissions\<close> and \<open>Sandbox\<close> (\<open>permissions/\<close>).
  \<^item> Protocols. \<open>Framing\<close>: the three readers of \<open>Content-Length\<close> frames. \<open>Json_Rpc\<close>, \<open>Lsp_Client\<close>,
    \<open>Mcp_Transport\<close>, \<open>Mcp_Client\<close>, \<open>Mcp_Manager\<close>, \<open>Mcp_Auth\<close> (\<open>protocol/\<close>). \<open>Websocket\<close>, \<open>Bridge\<close>,
    \<open>Bridge_Stop\<close>, \<open>Session_Manager\<close> (\<open>bridge/\<close>).
  \<^item> Agents. \<open>Message_Bus\<close>, \<open>Team\<close>, \<open>Coordinator\<close> (\<open>agent/\<close>).
  \<^item> State. \<open>App_State\<close> (\<open>state/\<close>), \<open>Memory_Store\<close> and \<open>Local_Time\<close> (\<open>memory/\<close>), \<open>App_Config\<close> (\<open>app/config.cpp\<close>,
    \<open>api/auth.cpp\<close>), \<open>Plugins\<close> (\<open>plugins/\<close>).
  \<^item> The application. \<open>Commands\<close> (\<open>commands/\<close>), \<open>Terminal\<close> (\<open>ui/\<close>), \<open>Lifecycle\<close> (\<open>app/lifecycle.cpp\<close>),
    \<open>Cli\<close> (\<open>app/cli.cpp\<close>, \<open>main.cpp\<close>). \<open>Output_Free\<close> and \<open>Conversation\<close> hold what is proved of a
    whole session, \<open>Sendable\<close> what is proved of the texts a query may hold.

  \<^bold>\<open>What the theorems show.\<close>
  \<^item> Invariants of reachable states, by an initial case and one case per operation: the conversation
    of a session (\<open>Conversation\<close>), the messages a query appends (\<open>Query_Engine\<close>), the pointer of the
    stream parser, the sessions and their clients, the tables of the MCP manager and of the plugin
    loader, the totals of the cost tracker, the mutex of the bridge.
  \<^item> Refinement and equivalence: the pointer-based parser against a block-wise assembly, the client's
    own assembly against the parser, up to the texts of errors and the usage of the message, chunked against whole bodies, the session with and without
    interrupts, HTML without markup against its words.
  \<^item> Round trips: base64, WebSocket frames, framed messages, JSON-RPC messages, memories, sessions,
    the configuration, a written file that is read, a date as text, a grep pattern through the shell.
  \<^item> Effects on the files: an edit or a write changes one file or none, and its report names the one
    region that differs. A full disk and a rename that fails are cases of their own.
  \<^item> Errors and bounds: the retries of the client, what a failing command tells the user and the
    model, the texts that cannot be sent or saved (\<open>Sendable\<close>, \<open>Memory_Store\<close>), the exit codes,
    wrapped lines, the polls before a child is killed, and the deadline of a child, whose remaining time
    is an \<open>int\<close> of milliseconds that wraps.
  \<^item> Behaviour that differs from what a comment, a document or a user would expect is stated as a
    theorem about what the code does: \<open>stop_can_return\<close> for instance says when stopping the bridge
    can return at all, and \<open>stray_kill\<close> which process may get the last signal.

  \<^bold>\<open>Bounds and fuel.\<close> Loops are recursive functions with a measure: the readers of the bridge shrink
  the segments not yet received, the retry loop counts attempts, the loops that wait for a child
  count the time that is left, the walk to the root shortens the path. The tool-call loop takes
  \<open>max_iterations\<close> of the engine as its counter, which is the bound the code has. \<open>split\<close> by a
  string is a \<open>partial_function\<close>, since it never ends for an empty separator; the theorem about it
  says when it does. There is no other fuel.

  \<^bold>\<open>Threads.\<close> The bridge is a step relation of its two threads (\<open>Bridge_Stop\<close>). Elsewhere a mutex is
  a flag that is checked: the operations of the program take it and give it back within one
  call, so their interleavings are sequences of whole calls, and a second lock by the holder is
  the call that never returns.

  \<^bold>\<open>Not modelled.\<close> Logging. Setting the options of curl; the sockets and descriptors themselves, and
  the calls of the terminal driver (its width, reading a password, the signal handler). Durations,
  other dates and costs as text, which are floating-point or locale output: \<open>format_duration\<close>,
  \<open>get_iso_date\<close>, the summary of the cost tracker. The hashes, which call OpenSSL. \<open>broadcast\<close> and
  \<open>send\<close> of the bridge, which send nothing, and members with an empty body
  (\<open>process_message\<close> of the MCP client). The texts of the descriptions and system prompts of the
  tools are arguments of \<open>Toolbox\<close>. Directories are part of the file system only as far as a tool asks
  whether one exists. The tests and the build files are not modelled.
\<close>

end
